(* ===== verification/Prelude.thy ===== *)
theory Prelude
  imports Main "HOL-Library.Word"
begin

text \<open>
  What every component shares: bytes and network byte order, the outcome of a C++ call (a value
  or a memory error), the C string functions the sources call, pointer and file-descriptor
  types, and the generic lemmas and simp collections of the development.

  Conventions. A pointer to a heap object is a \<open>nat\<close> address; a nullable pointer is an
  \<open>option\<close>. A C string is a \<open>string\<close> without its terminating NUL, and a pointer into
  it is the suffix that starts there. Return codes are \<open>int\<close>; \<open>size_t\<close> is
  \<open>64 word\<close> and \<open>int\<close> is \<open>32 word\<close> read with \<open>sint\<close> where the code
  can overflow, and \<open>nat\<close>/\<open>int\<close> where it cannot. Logging is left out.
\<close>

type_synonym byte = "8 word"
type_synonym ptr = nat
type_synonym size_t = "64 word"
type_synonym cint = "32 word"

named_theorems exec_simps \<open>evaluation of calls that may crash\<close>
named_theorems wire_simps \<open>lengths and slices of wire frames\<close>

section \<open>Calls that may crash\<close>

text \<open>
  Undefined behaviour of the C++ code is a value of its own, so that a theorem that a call
  returns also says that it does not touch freed memory, dereference NULL or fail an assertion.
\<close>

datatype crash =
    NullDeref
  | UseAfterFree
  | OutOfBounds
  | AssertFailed

datatype 'a exec = Done 'a | Crash crash

definition bindE :: "'a exec \<Rightarrow> ('a \<Rightarrow> 'b exec) \<Rightarrow> 'b exec" where
  "bindE m k = (case m of Done a \<Rightarrow> k a | Crash e \<Rightarrow> Crash e)"

lemma bindE_Done [simp, exec_simps]: "bindE (Done a) k = k a"
  by (simp add: bindE_def)

lemma bindE_Crash [simp, exec_simps]: "bindE (Crash e) k = Crash e"
  by (simp add: bindE_def)

lemma bindE_Done_right [simp]: "bindE m Done = m"
  by (cases m) simp_all

lemma bindE_assoc: "bindE (bindE m k) h = bindE m (\<lambda>a. bindE (k a) h)"
  by (cases m) simp_all

lemma bindE_eq_Crash: "bindE m k = Crash e \<longleftrightarrow> m = Crash e \<or> (\<exists>a. m = Done a \<and> k a = Crash e)"
  by (cases m) auto

lemma bindE_eq_Done: "bindE m k = Done b \<longleftrightarrow> (\<exists>a. m = Done a \<and> k a = Done b)"
  by (cases m) simp_all

lemma bindE_DoneE:
  assumes "bindE m k = Done b"
  obtains a where "m = Done a" "k a = Done b"
  using assms by (auto simp: bindE_eq_Done)

definition is_done :: "'a exec \<Rightarrow> bool" where
  "is_done m = (case m of Done _ \<Rightarrow> True | Crash _ \<Rightarrow> False)"

lemma is_done_simps [simp, exec_simps]: "is_done (Done a)" "\<not> is_done (Crash e)"
  by (simp_all add: is_done_def)

text \<open>Reading an object of the heap: an address that is not allocated is a freed one.\<close>

definition deref :: "(ptr \<rightharpoonup> 'a) \<Rightarrow> ptr \<Rightarrow> 'a exec" where
  "deref h p = (case h p of Some x \<Rightarrow> Done x | None \<Rightarrow> Crash UseAfterFree)"

lemma deref_Some [simp, exec_simps]: "h p = Some x \<Longrightarrow> deref h p = Done x"
  by (simp add: deref_def)

lemma deref_None [simp, exec_simps]: "h p = None \<Longrightarrow> deref h p = Crash UseAfterFree"
  by (simp add: deref_def)

lemma deref_eq_Done: "deref h p = Done x \<longleftrightarrow> h p = Some x"
  by (simp add: deref_def split: option.splits)

section \<open>Network byte order\<close>

text \<open>
  \<open>htonl\<close> followed by a copy of the four bytes to the wire is the big-endian encoding,
  whatever the host; \<open>ntohl\<close> of four copied bytes is its inverse.
\<close>

definition be32 :: "cint \<Rightarrow> byte list" where
  "be32 w = map (\<lambda>k. of_nat (unat w div 256 ^ k)) [3, 2, 1, 0]"

definition of_be32 :: "byte list \<Rightarrow> cint" where
  "of_be32 bs = of_nat (unat (bs ! 0) * 256 ^ 3 + unat (bs ! 1) * 256 ^ 2
                         + unat (bs ! 2) * 256 + unat (bs ! 3))"

lemma length_be32 [simp, wire_simps]: "length (be32 w) = 4"
  by (simp add: be32_def)

lemma split_base256:
  fixes n :: nat
  shows "n = n div 16777216 * 16777216 + (n div 65536 mod 256) * 65536
             + (n div 256 mod 256) * 256 + n mod 256"
proof -
  have "n div 256 = n div 65536 * 256 + n div 256 mod 256"
    using div_mult_mod_eq [of "n div 256" 256] by (simp add: div_mult2_eq [symmetric])
  moreover have "n div 65536 = n div 16777216 * 256 + n div 65536 mod 256"
    using div_mult_mod_eq [of "n div 65536" 256] by (simp add: div_mult2_eq [symmetric])
  moreover have "n = n div 256 * 256 + n mod 256"
    by simp
  ultimately show ?thesis
    by linarith
qed

lemma of_be32_be32 [simp, wire_simps]: "of_be32 (be32 w @ xs) = w"
proof -
  obtain n where n: "n = unat w" by simp
  have lt: "n < 4294967296"
    using unsigned_less [of w] n by simp
  have byte: "unat (of_nat m :: byte) = m mod 256" for m
    by (simp add: unat_of_nat)
  have "of_be32 (be32 w @ xs)
      = of_nat ((n div 16777216 mod 256) * 16777216 + (n div 65536 mod 256) * 65536
                + (n div 256 mod 256) * 256 + n mod 256)"
    by (simp only: of_be32_def be32_def n [symmetric]) (simp add: byte del: of_nat_add of_nat_mult)
  also have "\<dots> = of_nat n"
    using lt split_base256 [of n] by simp
  finally show ?thesis
    by (simp add: n)
qed

lemma of_be32_be32_Nil [simp]: "of_be32 (be32 w) = w"
  using of_be32_be32 [of w "[]"] by simp

lemma of_be32_take: "4 \<le> length bs \<Longrightarrow> of_be32 (bs @ xs) = of_be32 bs"
proof -
  assume "4 \<le> length bs"
  then show ?thesis
    by (cases bs) (auto simp: of_be32_def nth_append nth_Cons split: nat.splits)
qed

section \<open>C strings\<close>

text \<open>\<open>strchr\<close>: the suffix from the first occurrence, or NULL.\<close>

definition strchr :: "string \<Rightarrow> char \<Rightarrow> string option" where
  "strchr s c = (if c \<in> set s then Some (dropWhile (\<lambda>x. x \<noteq> c) s) else None)"

text \<open>\<open>strstr\<close>: the suffix from the first occurrence of a pattern, or NULL.\<close>

fun strstr :: "string \<Rightarrow> string \<Rightarrow> string option" where
  "strstr [] pat = (if pat = [] then Some [] else None)"
| "strstr (x # s) pat = (if take (length pat) (x # s) = pat then Some (x # s) else strstr s pat)"

text \<open>\<open>strspn\<close>: the length of the longest prefix made of accepted characters.\<close>

definition strspn :: "string \<Rightarrow> string \<Rightarrow> nat" where
  "strspn s accept = length (takeWhile (\<lambda>x. x \<in> set accept) s)"

text \<open>\<open>strncmp(a, b, n) == 0\<close>; the terminating NUL takes part in the comparison.\<close>

definition strncmp_eq :: "string \<Rightarrow> string \<Rightarrow> nat \<Rightarrow> bool" where
  "strncmp_eq a b n = (take n (a @ [CHR 0x00]) = take n (b @ [CHR 0x00]))"

definition is_digit :: "char \<Rightarrow> bool" where
  "is_digit c = (48 \<le> (of_char c :: nat) \<and> (of_char c :: nat) \<le> 57)"

definition digit_val :: "char \<Rightarrow> int" where
  "digit_val c = int (of_char c :: nat) - 48"

definition is_space :: "char \<Rightarrow> bool" where
  "is_space c = ((of_char c :: nat) = 32 \<or> 9 \<le> (of_char c :: nat) \<and> (of_char c :: nat) \<le> 13)"

definition digits_val :: "string \<Rightarrow> int" where
  "digits_val s = foldl (\<lambda>v c. 10 * v + digit_val c) 0 (takeWhile is_digit s)"

text \<open>
  \<open>atoi\<close> is \<open>(int) strtol(s, NULL, 10)\<close>: leading blanks, a sign, digits up to the first
  other character, the result clamped to \<open>long\<close> and cut to \<open>int\<close>.
\<close>

definition strtol10 :: "string \<Rightarrow> int" where
  "strtol10 s =
     (let t = dropWhile is_space s;
          v = (case t of
                 [] \<Rightarrow> 0
               | c # r \<Rightarrow> if c = CHR ''-'' then - digits_val r
                         else if c = CHR ''+'' then digits_val r
                         else digits_val t)
      in max (- (2 ^ 63)) (min (2 ^ 63 - 1) v))"

definition atoi :: "string \<Rightarrow> cint" where
  "atoi s = word_of_int (strtol10 s)"

lemma strchr_None [simp]: "c \<notin> set s \<Longrightarrow> strchr s c = None"
  by (simp add: strchr_def)

lemma strchr_split [simp]:
  "c \<notin> set a \<Longrightarrow> strchr (a @ c # b) c = Some (c # b)"
  by (induction a) (auto simp: strchr_def)

lemma strchr_SomeD:
  assumes "strchr s c = Some r"
  shows "\<exists>a b. s = a @ c # b \<and> r = c # b \<and> c \<notin> set a"
proof -
  from assms have "c \<in> set s"
    by (simp add: strchr_def split: if_splits)
  then obtain a b where "s = a @ c # b" "c \<notin> set a"
    by (meson split_list_first)
  with assms show ?thesis
    by auto
qed

lemma strchr_length: "strchr s c = Some r \<Longrightarrow> 0 < length r \<and> length r \<le> length s"
  by (drule strchr_SomeD) auto

lemma strncmp_eq_self [simp]: "strncmp_eq s s n"
  by (simp add: strncmp_eq_def)

section \<open>Integer conversions\<close>

text \<open>A \<open>size_t\<close> stored into an \<open>int\<close> keeps its low 32 bits.\<close>

definition int_of_size :: "nat \<Rightarrow> int" where
  "int_of_size n = sint (of_nat n :: cint)"

lemma int_of_size_small:
  assumes "n < 2147483648"
  shows "int_of_size n = int n"
proof -
  have "sint (word_of_int (int n) :: cint) = signed_take_bit (LENGTH(32) - 1) (int n)"
    by (rule sint_sbintrunc')
  also have "\<dots> = int n"
    by (rule signed_take_bit_int_eq_self) (use assms in simp_all)
  finally show ?thesis
    by (simp add: int_of_size_def)
qed

lemma int_of_size_big:
  assumes "2147483648 \<le> n" and "n < 4294967296"
  shows "int_of_size n = int n - 4294967296"
proof -
  have "sint (word_of_int (int n) :: cint) = sint (word_of_int (int n - 4294967296) :: cint)"
    by (rule arg_cong [where f = sint]) (simp add: word_of_int_eq_iff take_bit_eq_mod mod_diff_eq)
  also have "\<dots> = signed_take_bit (LENGTH(32) - 1) (int n - 4294967296)"
    by (rule sint_sbintrunc')
  also have "\<dots> = int n - 4294967296"
    by (rule signed_take_bit_int_eq_self) (use assms in simp_all)
  finally show ?thesis
    by (simp add: int_of_size_def)
qed

section \<open>Lists\<close>

lemma takeWhile_stop:
  "\<forall>x \<in> set w. P x \<Longrightarrow> \<not> P c \<Longrightarrow> takeWhile P (w @ c # xs) = w"
  by (induction w) auto

lemma takeWhile_self: "\<forall>x \<in> set w. P x \<Longrightarrow> takeWhile P w = w"
  by (simp add: takeWhile_eq_all_conv)

lemma takeWhile_through:
  "\<forall>x \<in> set w. P x \<Longrightarrow> takeWhile P (w @ xs) = w @ takeWhile P xs"
  by (induction w) auto

lemma takeWhile_none: "\<not> P x \<Longrightarrow> takeWhile P (x # xs) = []"
  by simp

lemma take_prefix_append [simp]: "take (length a) (a @ b) = a"
  by simp

lemma map_of_Some_split:
  assumes "map_of xs k = Some v"
  shows "\<exists>a b. xs = a @ (k, v) # b \<and> k \<notin> fst ` set a"
  using assms
proof (induction xs)
  case (Cons x xs)
  show ?case
  proof (cases "fst x = k")
    case True
    with Cons.prems have "x # xs = [] @ (k, v) # xs"
      by (cases x) simp
    then show ?thesis
      by fastforce
  next
    case False
    with Cons.prems have "map_of xs k = Some v"
      by (cases x) (simp split: if_splits)
    then obtain a b where ab: "xs = a @ (k, v) # b" "k \<notin> fst ` set a"
      using Cons.IH by blast
    then have "x # xs = (x # a) @ (k, v) # b \<and> k \<notin> fst ` set (x # a)"
      using False by auto
    then show ?thesis
      by blast
  qed
qed simp

end
