(* ===== verification/TcpSocket.thy ===== *)
theory TcpSocket
  imports Prelude
begin

text \<open>
  \<open>utils/tcp_socket.c\<close> (the copy in \<open>sdk/\<close> is the same file): URI parsing, blocking and
  non-blocking connect, timed receive and send, on the POSIX build. The record \<open>os_net\<close>
  holds what the operating system and the resolver answer; every function returns its C result
  and the list of system calls that change a descriptor, in order. The flag \<open>linux\<close> is the
  macro \<open>_LINUX\<close>. The Windows branches are not modelled.
\<close>

section \<open>Constants, addresses, system calls\<close>

abbreviation (input) TCP_SOCKET_ADDR_LEN :: nat where "TCP_SOCKET_ADDR_LEN \<equiv> 128"
abbreviation (input) FD_SETSIZE :: int where "FD_SETSIZE \<equiv> 1024"

abbreviation (input) TCP_SOCKET_EARGUMENT :: int where "TCP_SOCKET_EARGUMENT \<equiv> -1"
abbreviation (input) TCP_SOCKET_EXCEPTION :: int where "TCP_SOCKET_EXCEPTION \<equiv> -2"
abbreviation (input) TCP_SOCKET_EAGAIN :: int where "TCP_SOCKET_EAGAIN \<equiv> -3"
abbreviation (input) TCP_SOCKET_ECLOSED :: int where "TCP_SOCKET_ECLOSED \<equiv> -4"
abbreviation (input) TCP_SOCKET_TIMEOUT :: int where "TCP_SOCKET_TIMEOUT \<equiv> 1"
abbreviation (input) TCP_SOCKET_INPROGRESS :: int where "TCP_SOCKET_INPROGRESS \<equiv> 2"

datatype errno =
    EWOULDBLOCK | EAGAIN | EINPROGRESS | EISCONN | EALREADY | EOTHER

datatype family = AF_UNSPEC | AF_INET

text \<open>\<open>sin_port\<close> is the port in host order, the argument of \<open>htons\<close>.\<close>

record sockaddr_in =
  sin_family :: family
  sin_port :: "16 word"
  sin_addr :: "32 word"

definition sockaddr_zero :: sockaddr_in where
  "sockaddr_zero = \<lparr>sin_family = AF_UNSPEC, sin_port = 0, sin_addr = 0\<rparr>"

record TSOCKETPAIR =
  stSockAdd :: sockaddr_in
  wPort :: "16 word"

datatype io_result = IoOk nat | IoErr errno

record os_net =
  sys_socket :: int
  sys_inet_aton :: "string \<Rightarrow> 32 word option"
  sys_gethostbyname :: "string \<Rightarrow> 32 word option"
  sys_connect :: "int \<Rightarrow> sockaddr_in \<Rightarrow> errno option"
  sys_select_write :: "int \<Rightarrow> int \<times> int \<Rightarrow> int"
  sys_select_read :: "int \<Rightarrow> int \<times> int \<Rightarrow> int"
  sys_so_error :: "int \<Rightarrow> int"
  sys_epoll_create :: "int \<Rightarrow> int"
  sys_epoll_add :: "int \<Rightarrow> int"
  sys_epoll_alloc :: bool
  sys_epoll_wait :: "int \<Rightarrow> int \<Rightarrow> int"
  sys_recv :: "int \<Rightarrow> nat \<Rightarrow> io_result"
  sys_send :: "int \<Rightarrow> byte list \<Rightarrow> io_result"

datatype sockopt = SO_SNDBUF | SO_RCVBUF | TCP_NODELAY

datatype syscall =
    SysSocket int
  | SysNonblock int bool
  | SysConnect int sockaddr_in
  | SysSndTimeo int "int \<times> int"
  | SysClose int
  | SysSetOpt int sockopt int
  | SysIgnorePipe

definition MS_TO_TV :: "int \<Rightarrow> int \<times> int" where
  "MS_TO_TV ms = (ms div 1000, ms mod 1000 * 1000)"

section \<open>Parsing an address\<close>

text \<open>\<open>tcpsocket_is_number\<close>: only digits and dots.\<close>

definition tcpsocket_is_number :: "string \<Rightarrow> bool" where
  "tcpsocket_is_number s = (strspn s ''1234567890.'' = length s)"

text \<open>
  \<open>tcpsocket_str2inet\<close>. The host text is copied to a buffer of 128 bytes after its length
  check; the record keeps what was written before a failing return.
\<close>

definition tcpsocket_str2inet ::
    "os_net \<Rightarrow> string \<Rightarrow> TSOCKETPAIR option \<Rightarrow> int \<times> TSOCKETPAIR option" where
  "tcpsocket_str2inet os addr pair =
     (case pair of
        None \<Rightarrow> (-1, None)
      | Some p0 \<Rightarrow>
          (let p = p0\<lparr>stSockAdd := sockaddr_zero\<lparr>sin_family := AF_INET\<rparr>\<rparr>;
               host_port =
                 (case strchr addr CHR '':'' of
                    Some pszPort \<Rightarrow>
                      (let n = length addr - length pszPort in
                       if TCP_SOCKET_ADDR_LEN \<le> n then None
                       else Some (take n addr, ucast (atoi (tl pszPort))))
                  | None \<Rightarrow>
                      (if TCP_SOCKET_ADDR_LEN \<le> length addr then None
                       else Some (addr, 0)))
           in case host_port of
                None \<Rightarrow> (-1, Some p)
              | Some (szHost, port) \<Rightarrow>
                  (let p1 = p\<lparr>wPort := port,
                              stSockAdd := (stSockAdd p)\<lparr>sin_port := port\<rparr>\<rparr>;
                       found = (if tcpsocket_is_number szHost then sys_inet_aton os szHost
                                else sys_gethostbyname os szHost)
                   in case found of
                        None \<Rightarrow> (-1, Some p1)
                      | Some a \<Rightarrow>
                          (0, Some (p1\<lparr>stSockAdd := (stSockAdd p1)\<lparr>sin_addr := a\<rparr>\<rparr>)))))"

text \<open>The address part of a URI: what follows \<open>://\<close>, or all of it.\<close>

definition uri_addr :: "string \<Rightarrow> string" where
  "uri_addr uri = (case strstr uri ''://'' of None \<Rightarrow> uri | Some p \<Rightarrow> drop 3 p)"

definition uninit_pair :: TSOCKETPAIR where
  "uninit_pair = \<lparr>stSockAdd = sockaddr_zero, wPort = 0\<rparr>"

definition tcpsocket_str2sockin ::
    "os_net \<Rightarrow> string option \<Rightarrow> sockaddr_in option \<Rightarrow> int \<times> sockaddr_in option" where
  "tcpsocket_str2sockin os uri out =
     (case (uri, out) of
        (Some u, Some s0) \<Rightarrow>
          (case tcpsocket_str2inet os (uri_addr u) (Some uninit_pair) of
             (r, Some p) \<Rightarrow> if r = 0 then (0, Some (stSockAdd p)) else (-1, out)
           | (r, None) \<Rightarrow> (-1, out))
      | _ \<Rightarrow> (-1, out))"

section \<open>Socket options\<close>

text \<open>\<open>rc\<close> is what \<open>setsockopt\<close> answers. The callers ignore the results.\<close>

definition tcpsocket_set_sendbuff :: "int \<Rightarrow> int \<Rightarrow> int \<Rightarrow> int \<times> syscall list" where
  "tcpsocket_set_sendbuff rc sock n = (if sock < 0 then (-1, []) else (rc, [SysSetOpt sock SO_SNDBUF n]))"

definition tcpsocket_set_recvbuff :: "int \<Rightarrow> int \<Rightarrow> int \<Rightarrow> int \<times> syscall list" where
  "tcpsocket_set_recvbuff rc sock n = (if sock < 0 then (-1, []) else (rc, [SysSetOpt sock SO_RCVBUF n]))"

definition tcpsocket_set_nodelay :: "int \<Rightarrow> int \<Rightarrow> int \<times> syscall list" where
  "tcpsocket_set_nodelay rc sock = (if sock < 0 then (-1, []) else (rc, [SysSetOpt sock TCP_NODELAY 1]))"

definition tcpsocket_ignore_pipe :: "syscall list" where
  "tcpsocket_ignore_pipe = [SysIgnorePipe]"

section \<open>Opening and connecting\<close>

definition tcpsocket_open :: "os_net \<Rightarrow> string option \<Rightarrow> int \<times> syscall list" where
  "tcpsocket_open os uri =
     (let bad = (case uri of
                   None \<Rightarrow> False
                 | Some u \<Rightarrow>
                     (case strstr u ''://'' of
                        None \<Rightarrow> False
                      | Some p \<Rightarrow>
                          (let iLen = length u - length p in
                           \<not> strncmp_eq u ''tcp'' iLen \<or> length ''tcp'' \<noteq> iLen)))
      in if bad then (-1, []) else (sys_socket os, [SysSocket (sys_socket os)]))"

definition tcpsocket_set_nonblock :: "int \<Rightarrow> bool \<Rightarrow> syscall list" where
  "tcpsocket_set_nonblock sock nb = [SysNonblock sock nb]"

definition tcpsocket_socket_connect ::
    "os_net \<Rightarrow> int \<Rightarrow> sockaddr_in \<Rightarrow> int \<times> syscall list" where
  "tcpsocket_socket_connect os sock addr =
     ((case sys_connect os sock addr of
         None \<Rightarrow> 0
       | Some e \<Rightarrow>
           if e = EISCONN then 0
           else if e = EINPROGRESS \<or> e = EALREADY then TCP_SOCKET_INPROGRESS
           else -1),
      [SysConnect sock addr])"

definition tcpsocket_check_connect :: "os_net \<Rightarrow> int \<Rightarrow> int \<Rightarrow> int" where
  "tcpsocket_check_connect os sock timeout =
     (if timeout < 0 then -1
      else if sock < FD_SETSIZE then
        (let iRet = sys_select_write os sock (MS_TO_TV timeout) in
         if iRet < 0 then -1
         else if iRet = 0 then TCP_SOCKET_TIMEOUT
         else if sys_so_error os sock = 0 then 0 else -1)
      else 0)"

definition tcpsocket_check_connect_nonblock ::
    "os_net \<Rightarrow> int \<Rightarrow> sockaddr_in option \<Rightarrow> int \<Rightarrow> int \<times> syscall list" where
  "tcpsocket_check_connect_nonblock os sock sin timeout =
     (case sin of
        None \<Rightarrow> (-1, [])
      | Some a \<Rightarrow>
          if sock < 0 \<or> timeout < 0 then (-1, [])
          else
            (let t1 = tcpsocket_set_nonblock sock True;
                 (iRet, t2) = tcpsocket_socket_connect os sock a
             in if iRet < 0 then (iRet, t1 @ t2)
                else (tcpsocket_check_connect os sock timeout, t1 @ t2)))"

definition tcpsocket_check_connect_block ::
    "os_net \<Rightarrow> int \<Rightarrow> sockaddr_in option \<Rightarrow> int \<Rightarrow> int \<times> syscall list" where
  "tcpsocket_check_connect_block os sock sin timeout =
     (case sin of
        None \<Rightarrow> (-1, [])
      | Some a \<Rightarrow>
          if sock < 0 \<or> timeout < 0 then (-1, [])
          else
            (let t1 = [SysSndTimeo sock (MS_TO_TV timeout)];
                 (iRet, t2) = tcpsocket_socket_connect os sock a
             in if iRet \<noteq> 0 then (iRet, t1 @ t2)
                else (0, t1 @ t2 @ tcpsocket_set_nonblock sock True)))"

text \<open>\<open>tcpsocket_connect\<close>: open, resolve, connect within the timeout.\<close>

definition tcpsocket_connect :: "os_net \<Rightarrow> string option \<Rightarrow> int \<Rightarrow> int \<times> syscall list" where
  "tcpsocket_connect os uri timeout =
     (case uri of
        None \<Rightarrow> (-1, [])
      | Some u \<Rightarrow>
          (let (iSock, t0) = tcpsocket_open os uri in
           if iSock < 0 then (iSock, t0)
           else
             (case tcpsocket_str2inet os (uri_addr u) (Some uninit_pair) of
                (iRet, pair) \<Rightarrow>
                  if iRet \<noteq> 0 then (-1, t0)
                  else
                    (let sin = map_option stSockAdd pair;
                         (r, t1) = (if iSock < FD_SETSIZE
                                    then tcpsocket_check_connect_nonblock os iSock sin timeout
                                    else tcpsocket_check_connect_block os iSock sin timeout)
                     in if r \<noteq> 0 then (-1, t0 @ t1) else (iSock, t0 @ t1)))))"

text \<open>
  \<open>tcpsocket_connect_nonblock\<close>; \<open>g_timeout\<close> is the global
  \<open>g_iConnectBlockingTimeout\<close>, set by \<open>tcpsocket_set_connect_block_timeout\<close>.
\<close>

definition tcpsocket_set_connect_block_timeout :: "int \<Rightarrow> int \<Rightarrow> int" where
  "tcpsocket_set_connect_block_timeout g_timeout timeout =
     (if timeout < 0 then g_timeout else timeout)"

definition tcpsocket_connect_nonblock ::
    "os_net \<Rightarrow> int \<Rightarrow> string option \<Rightarrow> int \<times> syscall list" where
  "tcpsocket_connect_nonblock os g_timeout uri =
     (case uri of
        None \<Rightarrow> (-1, [])
      | Some u \<Rightarrow>
          (let (iSock, t0) = tcpsocket_open os uri in
           if iSock < 0 then (iSock, t0)
           else
             (case tcpsocket_str2inet os (uri_addr u) (Some uninit_pair) of
                (iRet, None) \<Rightarrow> (-1, t0)
              | (iRet, Some pair) \<Rightarrow>
                  if iRet \<noteq> 0 then (-1, t0)
                  else if iSock < FD_SETSIZE then
                    (let t1 = tcpsocket_set_nonblock iSock True;
                         (r, t2) = tcpsocket_socket_connect os iSock (stSockAdd pair)
                     in if r < 0 then (r, t0 @ t1 @ t2) else (iSock, t0 @ t1 @ t2))
                  else
                    (let t1 = [SysSndTimeo iSock (MS_TO_TV g_timeout)];
                         (r, t2) = tcpsocket_socket_connect os iSock (stSockAdd pair)
                     in if r \<noteq> 0 then (-1, t0 @ t1 @ t2)
                        else (iSock, t0 @ t1 @ t2 @ tcpsocket_set_nonblock iSock True)))))"

definition tcpsocket_close :: "int \<Rightarrow> syscall list" where
  "tcpsocket_close sock = [SysClose sock]"

section \<open>Timed receive and send\<close>

text \<open>\<open>tcpsocket_socket_epoll_check\<close> (\<open>_LINUX\<close>): 0 ready, 1 timed out, negative failed.\<close>

definition tcpsocket_socket_epoll_check :: "os_net \<Rightarrow> int \<Rightarrow> int \<Rightarrow> int" where
  "tcpsocket_socket_epoll_check os sock timeout =
     (let iEpollFd = sys_epoll_create os (sock + 1) in
      if iEpollFd < 0 then -1
      else
        (let iRet = sys_epoll_add os sock in
         if iRet \<noteq> 0 then iRet
         else if \<not> sys_epoll_alloc os then -2
         else
           (let n = sys_epoll_wait os sock timeout in
            if n < 0 then -3 else if n = 0 then 1 else 0)))"

text \<open>
  \<open>tcpsocket_recv\<close>; \<open>None\<close> is a NULL buffer, \<open>Some n\<close> a buffer with room for
  \<open>n\<close> bytes (\<open>a_iLen\<close>). A positive result is the number of bytes received.
\<close>

definition tcpsocket_recv ::
    "os_net \<Rightarrow> bool \<Rightarrow> int \<Rightarrow> int option \<Rightarrow> int \<Rightarrow> int" where
  "tcpsocket_recv os linux sock buf timeout =
     (case buf of
        None \<Rightarrow> TCP_SOCKET_EARGUMENT
      | Some n \<Rightarrow>
          if sock < 0 \<or> n \<le> 0 then TCP_SOCKET_EARGUMENT
          else
            (let wait =
                   (if 0 < timeout \<and> sock < FD_SETSIZE then
                      (if sys_select_read os sock (MS_TO_TV timeout) < 0
                       then Some TCP_SOCKET_EXCEPTION else None)
                    else if linux \<and> 0 < timeout then
                      (let r = tcpsocket_socket_epoll_check os sock timeout in
                       if r = 0 then None
                       else if r = 1 then Some TCP_SOCKET_EAGAIN
                       else Some TCP_SOCKET_EXCEPTION)
                    else None)
             in case wait of
                  Some r \<Rightarrow> r
                | None \<Rightarrow>
                    (case sys_recv os sock (nat n) of
                       IoErr e \<Rightarrow>
                         if e = EWOULDBLOCK \<or> e = EAGAIN then TCP_SOCKET_EAGAIN
                         else TCP_SOCKET_EXCEPTION
                     | IoOk 0 \<Rightarrow> TCP_SOCKET_ECLOSED
                     | IoOk k \<Rightarrow> int k)))"

definition tcpsocket_send ::
    "os_net \<Rightarrow> bool \<Rightarrow> int \<Rightarrow> byte list \<Rightarrow> int \<Rightarrow> int" where
  "tcpsocket_send os linux sock buff timeout =
     (let wait =
            (if 0 < timeout \<and> sock < FD_SETSIZE then
               (let r = sys_select_write os sock (MS_TO_TV timeout) in
                if r < 0 then Some (-1) else if r = 0 then Some 0 else None)
             else if linux \<and> 0 < timeout then
               (if tcpsocket_socket_epoll_check os sock timeout \<noteq> 0 then Some (-1) else None)
             else None)
      in case wait of
           Some r \<Rightarrow> r
         | None \<Rightarrow>
             (case sys_send os sock buff of
                IoErr e \<Rightarrow> if e = EWOULDBLOCK \<or> e = EAGAIN then 0 else -2
              | IoOk 0 \<Rightarrow> -3
              | IoOk k \<Rightarrow> int k))"

section \<open>Facts\<close>

lemma strstr_scheme:
  assumes "CHR '':'' \<notin> set a"
  shows "strstr (a @ ''://'' @ b) ''://'' = Some (''://'' @ b)"
  using assms by (induction a) auto

lemma uri_addr_scheme:
  "CHR '':'' \<notin> set a \<Longrightarrow> uri_addr (a @ ''://'' @ b) = b"
  using strstr_scheme [of a b] by (simp add: uri_addr_def)

text \<open>How a host text is resolved: dotted numbers directly, everything else by name.\<close>

definition resolve_host :: "os_net \<Rightarrow> string \<Rightarrow> 32 word option" where
  "resolve_host os h =
     (if tcpsocket_is_number h then sys_inet_aton os h else sys_gethostbyname os h)"

lemma str2inet_host_port:
  assumes "CHR '':'' \<notin> set h" and "length h < 128"
  shows "tcpsocket_str2inet os (h @ CHR '':'' # port) (Some p) =
           (case resolve_host os h of
              None \<Rightarrow> (-1, Some \<lparr>stSockAdd = \<lparr>sin_family = AF_INET, sin_port = ucast (atoi port),
                                                sin_addr = 0\<rparr>, wPort = ucast (atoi port)\<rparr>)
            | Some a \<Rightarrow> (0, Some \<lparr>stSockAdd = \<lparr>sin_family = AF_INET, sin_port = ucast (atoi port),
                                                sin_addr = a\<rparr>, wPort = ucast (atoi port)\<rparr>))"
  using assms
  by (cases p) (auto simp: tcpsocket_str2inet_def resolve_host_def sockaddr_zero_def Let_def
      split: option.splits)

lemma str2inet_no_port:
  assumes "CHR '':'' \<notin> set h" and "length h < 128"
  shows "tcpsocket_str2inet os h (Some p) =
           (case resolve_host os h of
              None \<Rightarrow> (-1, Some \<lparr>stSockAdd = \<lparr>sin_family = AF_INET, sin_port = 0, sin_addr = 0\<rparr>,
                                wPort = 0\<rparr>)
            | Some a \<Rightarrow> (0, Some \<lparr>stSockAdd = \<lparr>sin_family = AF_INET, sin_port = 0, sin_addr = a\<rparr>,
                                wPort = 0\<rparr>))"
  using assms
  by (cases p) (auto simp: tcpsocket_str2inet_def resolve_host_def sockaddr_zero_def Let_def
      split: option.splits)

lemma str2inet_too_long:
  assumes "128 \<le> length (takeWhile (\<lambda>c. c \<noteq> CHR '':'') addr)"
  shows "fst (tcpsocket_str2inet os addr (Some p)) = -1"
proof (cases "CHR '':'' \<in> set addr")
  case True
  then obtain a b where ab: "addr = a @ CHR '':'' # b" "CHR '':'' \<notin> set a"
    by (meson split_list_first)
  then have "takeWhile (\<lambda>c. c \<noteq> CHR '':'') addr = a"
    by (induction a arbitrary: addr) auto
  with assms ab show ?thesis
    by (simp add: tcpsocket_str2inet_def Let_def)
next
  case False
  then have "takeWhile (\<lambda>c. c \<noteq> CHR '':'') addr = addr"
    by (auto simp: takeWhile_eq_all_conv)
  with assms False show ?thesis
    by (simp add: tcpsocket_str2inet_def Let_def)
qed

lemma open_scheme:
  assumes "CHR '':'' \<notin> set sch"
  shows "tcpsocket_open os (Some (sch @ ''://'' @ b)) =
           (if sch = ''tcp'' then (sys_socket os, [SysSocket (sys_socket os)]) else (-1, []))"
proof -
  have "(\<not> strncmp_eq (sch @ ''://'' @ b) ''tcp'' (length sch) \<or> length ''tcp'' \<noteq> length sch)
          \<longleftrightarrow> sch \<noteq> ''tcp''"
  proof (cases "length sch = 3")
    case True
    then obtain x y z where "sch = [x, y, z]"
      by (auto simp: length_Suc_conv eval_nat_numeral)
    then show ?thesis
      by (auto simp: strncmp_eq_def)
  qed auto
  then show ?thesis
    unfolding tcpsocket_open_def by (simp add: strstr_scheme [OF assms, simplified] Let_def)
qed

lemma open_cases:
  "tcpsocket_open os uri = (-1, [])
   \<or> tcpsocket_open os uri = (sys_socket os, [SysSocket (sys_socket os)])"
  by (simp add: tcpsocket_open_def Let_def)

lemma socket_connect_trace:
  "snd (tcpsocket_socket_connect os s a) = [SysConnect s a]"
  by (simp add: tcpsocket_socket_connect_def)

lemma check_connect_nonblock_no_close:
  "SysClose s \<notin> set (snd (tcpsocket_check_connect_nonblock os k a t))"
  by (auto simp: tcpsocket_check_connect_nonblock_def tcpsocket_set_nonblock_def
      tcpsocket_socket_connect_def Let_def split: option.splits if_splits)

lemma check_connect_block_no_close:
  "SysClose s \<notin> set (snd (tcpsocket_check_connect_block os k a t))"
  by (auto simp: tcpsocket_check_connect_block_def tcpsocket_set_nonblock_def
      tcpsocket_socket_connect_def Let_def split: option.splits if_splits)

lemmas no_close = check_connect_nonblock_no_close check_connect_block_no_close

text \<open>A descriptor returned by either check has been switched to non-blocking mode.\<close>

lemma check_connect_nonblock_ok:
  "fst (tcpsocket_check_connect_nonblock os k (Some a) t) = 0 \<Longrightarrow>
   SysNonblock k True \<in> set (snd (tcpsocket_check_connect_nonblock os k (Some a) t))"
  by (auto simp: tcpsocket_check_connect_nonblock_def tcpsocket_set_nonblock_def Let_def
      split: if_splits prod.splits)

lemma check_connect_block_ok:
  "fst (tcpsocket_check_connect_block os k (Some a) t) = 0 \<Longrightarrow>
   SysNonblock k True \<in> set (snd (tcpsocket_check_connect_block os k (Some a) t))"
  by (auto simp: tcpsocket_check_connect_block_def tcpsocket_set_nonblock_def Let_def
      split: if_splits prod.splits)

lemma str2inet_some: "\<exists>r q. tcpsocket_str2inet os addr (Some p) = (r, Some q)"
  by (auto simp: tcpsocket_str2inet_def Let_def split: option.splits prod.splits)

text \<open>
  Both connect functions in one shape: rejected before a socket exists, failed after opening it,
  or connected and non-blocking.
\<close>

lemma connect_outcome:
  assumes "tcpsocket_connect os (Some u) timeout = (r, t)"
  shows "(r < 0 \<and> (t = [] \<or> (SysSocket (sys_socket os) \<in> set t \<and> (\<forall>s. SysClose s \<notin> set t))))
       \<or> (0 \<le> r \<and> r = sys_socket os \<and> SysNonblock r True \<in> set t)"
proof -
  let ?s = "sys_socket os"
  consider "tcpsocket_open os (Some u) = (-1, [])"
    | "tcpsocket_open os (Some u) = (?s, [SysSocket ?s])" "?s < 0"
    | "tcpsocket_open os (Some u) = (?s, [SysSocket ?s])" "0 \<le> ?s"
    using open_cases [of os "Some u"] by linarith
  then show ?thesis
  proof cases
    case 1
    with assms show ?thesis
      by (simp add: tcpsocket_connect_def)
  next
    case 2
    with assms show ?thesis
      by (auto simp: tcpsocket_connect_def)
  next
    case 3
    obtain q p where q: "tcpsocket_str2inet os (uri_addr u) (Some uninit_pair) = (q, Some p)"
      using str2inet_some by blast
    define c where "c = (if ?s < FD_SETSIZE
        then tcpsocket_check_connect_nonblock os ?s (Some (stSockAdd p)) timeout
        else tcpsocket_check_connect_block os ?s (Some (stSockAdd p)) timeout)"
    have quiet: "SysClose s \<notin> set (snd c)" for s
      unfolding c_def using no_close by (cases "?s < FD_SETSIZE") simp_all
    have ok: "fst c = 0 \<Longrightarrow> SysNonblock ?s True \<in> set (snd c)"
      unfolding c_def using check_connect_nonblock_ok check_connect_block_ok
      by (cases "?s < FD_SETSIZE") simp_all
    have "tcpsocket_connect os (Some u) timeout
        = (if q \<noteq> 0 then (-1, [SysSocket ?s])
           else if fst c \<noteq> 0 then (-1, SysSocket ?s # snd c) else (?s, SysSocket ?s # snd c))"
      using 3 q by (simp add: tcpsocket_connect_def c_def Let_def case_prod_beta)
    then show ?thesis
      using assms quiet ok 3 by (auto split: if_splits)
  qed
qed

text \<open>The non-blocking variant has the same shape; here a positive connect result is kept.\<close>

lemma connect_nonblock_no_close:
  "SysClose s \<notin> set (snd (tcpsocket_connect_nonblock os g uri))"
proof (cases uri)
  case (Some u)
  obtain q p where q: "tcpsocket_str2inet os (uri_addr u) (Some uninit_pair) = (q, Some p)"
    using str2inet_some by blast
  show ?thesis
    using open_cases [of os uri] q Some
    by (auto simp: tcpsocket_connect_nonblock_def tcpsocket_set_nonblock_def Let_def
        tcpsocket_socket_connect_def case_prod_beta)
qed (simp add: tcpsocket_connect_nonblock_def)

text \<open>The descriptor and address that a \<open>tcp://host:port\<close> URI leads to.\<close>

definition tcp_endpoint :: "32 word \<Rightarrow> string \<Rightarrow> sockaddr_in" where
  "tcp_endpoint a port = \<lparr>sin_family = AF_INET, sin_port = ucast (atoi port), sin_addr = a\<rparr>"

lemma str2inet_endpoint:
  assumes "CHR '':'' \<notin> set h" and "length h < 128" and "resolve_host os h = Some a"
  shows "tcpsocket_str2inet os (uri_addr (''tcp://'' @ h @ CHR '':'' # port)) (Some uninit_pair)
           = (0, Some \<lparr>stSockAdd = tcp_endpoint a port, wPort = ucast (atoi port)\<rparr>)"
  using uri_addr_scheme [of "''tcp''" "h @ CHR '':'' # port"] str2inet_host_port [OF assms(1,2)]
    assms(3)
  by (simp add: tcp_endpoint_def)

section \<open>Properties\<close>


definition sample_os :: os_net where
  "sample_os =
     \<lparr>sys_socket = 7, sys_inet_aton = (\<lambda>s. if s = ''10.0.0.1'' then Some 0x0A000001 else None),
      sys_gethostbyname = (\<lambda>_. None), sys_connect = (\<lambda>_ _. Some EINPROGRESS),
      sys_select_write = (\<lambda>_ _. 1), sys_select_read = (\<lambda>_ _. 1), sys_so_error = (\<lambda>_. 0),
      sys_epoll_create = (\<lambda>_. 9), sys_epoll_add = (\<lambda>_. 0), sys_epoll_alloc = True,
      sys_epoll_wait = (\<lambda>_ _. 1), sys_recv = (\<lambda>_ _. IoOk 0), sys_send = (\<lambda>_ b. IoOk (length b))\<rparr>"


text \<open>Every outcome of \<open>tcpsocket_connect\<close>: either the opened socket, switched to
  non-blocking mode, is returned, or a negative code with no socket opened or with the socket
  opened and never closed: no path of the function closes the descriptor it opened.\<close>

theorem tcpsocket_connect_outcome:
  "case tcpsocket_connect os (Some u) timeout of (r, t) \<Rightarrow>
     (if 0 \<le> r then r = sys_socket os \<and> SysNonblock r True \<in> set t
      else (t = [] \<or> SysSocket (sys_socket os) \<in> set t \<and> (\<forall>s. SysClose s \<notin> set t)))"
  using connect_outcome [of os u timeout]
  by (cases "tcpsocket_connect os (Some u) timeout") auto

end
