(* ===== verification/Framing.thy ===== *)
theory Framing
  imports Prelude
begin

text \<open>
  The wire format both ends share: a 4-byte length in network byte order, which counts itself,
  then the payload. The sender's prefix (\<open>EasyNet::Send\<close> of the framework,
  \<open>SerializeAndSendToPeer\<close> of the client), the two length parsers
  (\<open>AppFrameWork::GetMsgLength\<close>, \<open>ConnectorPkgParser::GetPkgLen\<close>), and the loop that
  cuts a received buffer into frames. The locale \<open>frame_codec\<close> is the contract between an
  encoder and a length parser; both parsers are interpretations of it.
\<close>

section \<open>Sending and parsing one frame\<close>

text \<open>The length prefix \<open>htonl(size + sizeof(msglen))\<close> followed by the payload.\<close>

definition encode_frame :: "byte list \<Rightarrow> byte list" where
  "encode_frame msg = be32 (of_nat (length msg + 4)) @ msg"

text \<open>
  \<open>AppFrameWork::GetMsgLength(buff, size)\<close>; the list is the \<open>size\<close> bytes at \<open>buff\<close>.
  The result is an \<open>int\<close>.
\<close>

definition GetMsgLength :: "byte list \<Rightarrow> cint" where
  "GetMsgLength buff = (if length buff < 4 then 0 else of_be32 buff)"

text \<open>\<open>ConnectorPkgParser::GetPkgLen(buf, buf_len)\<close>; \<open>None\<close> is a NULL buffer.\<close>

definition GetPkgLen :: "byte list option \<Rightarrow> cint" where
  "GetPkgLen buf =
     (case buf of
        None \<Rightarrow> 0
      | Some b \<Rightarrow> if length b \<le> 4 then 0 else of_be32 b)"

text \<open>
  What a caller makes of the returned \<open>int\<close>. The framework stores it in a \<open>size_t\<close>
  (sign extension), the client compares it as a signed number; both as the number of bytes of
  the first frame.
\<close>

definition server_len :: "byte list \<Rightarrow> nat" where
  "server_len b = unat (scast (GetMsgLength b) :: size_t)"

definition client_len :: "byte list \<Rightarrow> nat" where
  "client_len b = nat (sint (GetPkgLen (Some b)))"

section \<open>Cutting a buffer into frames\<close>

text \<open>
  What a message handler is given: a pointer and a size. \<open>View bs\<close> is a pair that covers
  received bytes; \<open>Wild n\<close> is a pair whose size \<open>msglen - sizeof(uint32_t)\<close> has
  wrapped around, because the frame claimed fewer bytes than its own prefix.
\<close>

datatype view = View "byte list" | Wild size_t

definition payload :: "byte list \<Rightarrow> nat \<Rightarrow> view" where
  "payload b n = (if 4 \<le> n then View (take (n - 4) (drop 4 b)) else Wild (of_nat n - 4))"

text \<open>
  The receive loop: \<open>while (msg_size > elapsed)\<close>, stop at a length that is 0 or exceeds what
  is left, else hand over the payload and advance. The result is the payloads and the bytes
  left in the buffer.
\<close>

function split_with :: "(byte list \<Rightarrow> nat) \<Rightarrow> byte list \<Rightarrow> view list \<times> byte list" where
  "split_with len b =
     (if b = [] \<or> len b = 0 \<or> length b < len b then ([], b)
      else (let (vs, r) = split_with len (drop (len b) b) in (payload b (len b) # vs, r)))"
  by pat_completeness auto
termination
  by (relation "measure (\<lambda>(len, b). length b)") auto

declare split_with.simps [simp del]

lemma split_with_stop:
  "b = [] \<or> len b = 0 \<or> length b < len b \<Longrightarrow> split_with len b = ([], b)"
  by (simp add: split_with.simps)

lemma split_with_step:
  assumes "len b \<noteq> 0" and "len b \<le> length b"
  shows "split_with len b = (payload b (len b) # fst (split_with len (drop (len b) b)),
                             snd (split_with len (drop (len b) b)))"
  using assms by (subst split_with.simps) (auto simp: case_prod_beta Let_def)

lemma split_with_Nil [simp]: "split_with len [] = ([], [])"
  by (simp add: split_with_stop)

text \<open>The bytes left over are a suffix of the buffer.\<close>

lemma split_with_suffix: "\<exists>k \<le> length b. snd (split_with len b) = drop k b"
proof (induction len b rule: split_with.induct)
  case (1 len b)
  show ?case
  proof (cases "b = [] \<or> len b = 0 \<or> length b < len b")
    case True
    then show ?thesis
      by (auto simp: split_with_stop intro!: exI [of _ 0])
  next
    case False
    with 1 obtain k where k: "k \<le> length b - len b"
        "snd (split_with len (drop (len b) b)) = drop k (drop (len b) b)"
      by auto
    from False k show ?thesis
      by (intro exI [of _ "k + len b"]) (auto simp: split_with_step add.commute)
  qed
qed

section \<open>The codec contract\<close>

text \<open>
  What the receive loop relies on: an encoder \<open>enc\<close> for the messages in range \<open>ok\<close>,
  and a parser \<open>len\<close> of the first frame's length that never changes its mind about a frame
  that is complete.
\<close>

locale frame_codec =
  fixes enc :: "byte list \<Rightarrow> byte list"
    and len :: "byte list \<Rightarrow> nat"
    and ok :: "byte list \<Rightarrow> bool"
  assumes enc_length: "ok m \<Longrightarrow> length (enc m) = length m + 4"
    and enc_payload: "ok m \<Longrightarrow> drop 4 (enc m) = m"
    and len_enc: "ok m \<Longrightarrow> len (enc m @ r) = length m + 4"
    and len_stable: "len a \<noteq> 0 \<Longrightarrow> len a \<le> length a \<Longrightarrow> len (a @ b) = len a"
begin

lemma split_enc:
  assumes "ok m"
  shows "split_with len (enc m @ r) = (View m # fst (split_with len r), snd (split_with len r))"
proof -
  have "len (enc m @ r) = length (enc m)"
    using assms by (simp add: len_enc enc_length)
  moreover have "take (length m) (drop 4 (enc m @ r)) = m"
    using assms enc_payload [OF assms] enc_length [OF assms] by simp
  ultimately show ?thesis
    using assms by (subst split_with_step) (simp_all add: payload_def enc_length)
qed

lemma split_enc_all:
  assumes "list_all ok ms"
  shows "split_with len (concat (map enc ms) @ r)
           = (map View ms @ fst (split_with len r), snd (split_with len r))"
  using assms by (induction ms) (simp_all add: split_enc)

lemma split_chunks:
  "split_with len (a @ b) =
     (fst (split_with len a) @ fst (split_with len (snd (split_with len a) @ b)),
      snd (split_with len (snd (split_with len a) @ b)))"
proof (induction a rule: length_induct)
  case (1 a)
  show ?case
  proof (cases "a = [] \<or> len a = 0 \<or> length a < len a")
    case True
    then show ?thesis
      by (simp add: split_with_stop)
  next
    case False
    then have len_ab: "len (a @ b) = len a"
      by (intro len_stable) auto
    have "length (drop (len a) a) < length a"
      using False by simp
    with 1 have IH: "split_with len (drop (len a) a @ b) =
        (fst (split_with len (drop (len a) a)) @
           fst (split_with len (snd (split_with len (drop (len a) a)) @ b)),
         snd (split_with len (snd (split_with len (drop (len a) a)) @ b)))"
      by blast
    have pay: "payload (a @ b) (len a) = payload a (len a)"
      using False by (auto simp: payload_def)
    show ?thesis
      using False len_ab pay IH by (simp add: split_with_step)
  qed
qed

end

section \<open>Both parsers honour the contract\<close>

text \<open>The messages whose frame length fits a positive \<open>int\<close>.\<close>

definition fits_frame :: "byte list \<Rightarrow> bool" where
  "fits_frame m = (length m + 4 < 2147483648)"

lemma sint_frame_len:
  assumes "fits_frame m"
  shows "sint (of_nat (length m + 4) :: cint) = int (length m + 4)"
  using int_of_size_small [of "length m + 4"] assms
  by (simp add: int_of_size_def fits_frame_def)

lemma unat_scast_pos:
  fixes w :: cint
  assumes "0 \<le> sint w"
  shows "unat (scast w :: size_t) = nat (sint w)"
proof -
  obtain k where k: "sint w = int k"
    using assms nonneg_int_cases by blast
  have "sint w < 2147483648"
    using sint_lt [of w] by simp
  with k have "k < 18446744073709551616"
    by simp
  then have "unat (of_nat k :: size_t) = k"
    by (simp add: unat_of_nat)
  moreover have "scast w = (of_nat k :: size_t)"
    using k by (simp add: scast_eq)
  ultimately show ?thesis
    using k by simp
qed

lemma encode_frame_len:
  assumes "fits_frame m"
  shows "server_len (encode_frame m @ r) = length m + 4"
  using sint_frame_len [OF assms]
  by (simp add: server_len_def GetMsgLength_def encode_frame_def unat_scast_pos)

interpretation srv: frame_codec encode_frame server_len fits_frame
proof unfold_locales
  fix m r a b :: "byte list"
  show "fits_frame m \<Longrightarrow> length (encode_frame m) = length m + 4"
    and "fits_frame m \<Longrightarrow> drop 4 (encode_frame m) = m"
    by (simp_all add: encode_frame_def)
  show "fits_frame m \<Longrightarrow> server_len (encode_frame m @ r) = length m + 4"
    by (rule encode_frame_len)
  assume "server_len a \<noteq> 0" "server_len a \<le> length a"
  then have "4 \<le> length a"
    by (auto simp: server_len_def GetMsgLength_def split: if_splits)
  then show "server_len (a @ b) = server_len a"
    by (simp add: server_len_def GetMsgLength_def of_be32_take)
qed

text \<open>The client's parser needs a fifth byte, so it recognises non-empty payloads only.\<close>

definition fits_client_frame :: "byte list \<Rightarrow> bool" where
  "fits_client_frame m = (fits_frame m \<and> m \<noteq> [])"

interpretation cli: frame_codec encode_frame client_len fits_client_frame
proof unfold_locales
  fix m r a b :: "byte list"
  show "fits_client_frame m \<Longrightarrow> length (encode_frame m) = length m + 4"
    and "fits_client_frame m \<Longrightarrow> drop 4 (encode_frame m) = m"
    by (simp_all add: encode_frame_def)
  show "fits_client_frame m \<Longrightarrow> client_len (encode_frame m @ r) = length m + 4"
    using sint_frame_len [of m]
    by (cases m) (simp_all add: fits_client_frame_def client_len_def GetPkgLen_def encode_frame_def)
  assume "client_len a \<noteq> 0" "client_len a \<le> length a"
  then have "4 < length a"
    by (auto simp: client_len_def GetPkgLen_def split: if_splits)
  then show "client_len (a @ b) = client_len a"
    by (simp add: client_len_def GetPkgLen_def of_be32_take)
qed

section \<open>Malformed lengths\<close>

lemma wild_length:
  assumes "0 < server_len b" and "server_len b < 4"
  shows "split_with server_len b
           = (Wild (of_nat (server_len b) - 4) # fst (split_with server_len (drop (server_len b) b)),
              snd (split_with server_len (drop (server_len b) b)))"
proof -
  have "4 \<le> length b"
    using assms(1) by (auto simp: server_len_def GetMsgLength_def split: if_splits)
  with assms show ?thesis
    by (subst split_with_step) (simp_all add: payload_def)
qed

lemma server_len_negative:
  assumes "4 \<le> length b" and "sint (of_be32 b) < 0"
  shows "18446744071562067968 \<le> server_len b"
proof -
  have ge: "- 2147483648 \<le> sint (of_be32 b)"
    using sint_ge [of "of_be32 b"] by simp
  have pow: "(2::int) ^ LENGTH(64) = 18446744073709551616"
    by simp
  have "uint (scast (of_be32 b) :: size_t) = sint (of_be32 b) mod 18446744073709551616"
    unfolding scast_eq uint_word_of_int by (simp only: pow)
  also have "\<dots> = (sint (of_be32 b) + 18446744073709551616) mod 18446744073709551616"
    by (rule mod_add_self2 [symmetric])
  also have "\<dots> = sint (of_be32 b) + 18446744073709551616"
    using ge assms(2) by (intro mod_pos_pos_trivial) auto
  finally have "18446744071562067968 \<le> uint (scast (of_be32 b) :: size_t)"
    using ge by simp
  with assms(1) show ?thesis
    by (simp add: server_len_def GetMsgLength_def flip: nat_uint_eq)
qed



end
