(* ===== verification/NetMgr.thy ===== *)
theory NetMgr
  imports Framing TcpSocket
begin

text \<open>
  \<open>framework/rapidapp_easy_net.*\<close> and \<open>framework/rapidapp_net_mgr.*\<close>: a
  connection (\<open>EasyNet\<close>) with its libevent buffer, and the pool that owns connections
  (\<open>NetHandlerMgr\<close>). Connections live on a heap; a pointer that is not allocated there is a
  freed one, and following it is a crash. \<open>'c\<close> is the type of the user context that the
  application keeps in a connection.

  The libevent buffer of a connection is its descriptor, the bytes that wait to be read and the
  bytes written. The pool is an \<open>unordered_map\<close>: its iteration order is the order of the
  list, and a new key goes to a position that is an argument. The iterator \<open>it_cursor_\<close> is
  the key it stands on, \<open>None\<close> for \<open>end()\<close>.
\<close>

section \<open>Connections\<close>

abbreviation (input) MAX_URL_LEN :: nat where "MAX_URL_LEN \<equiv> 128"

datatype NetState = NET_INIT | NET_CONNECTING_st | NET_ESTABLISHED | NET_FAILED | NET_BEEN_CLOSED

abbreviation (input) EASY_NET_OK :: int where "EASY_NET_OK \<equiv> 0"
abbreviation (input) EASY_NET_ERR_NOT_YET_ESTABLISHED :: int
  where "EASY_NET_ERR_NOT_YET_ESTABLISHED \<equiv> -1"
abbreviation (input) EASY_NET_ERR_ESTABLISH_FAILED :: int
  where "EASY_NET_ERR_ESTABLISH_FAILED \<equiv> -2"
abbreviation (input) EASY_NET_ERR_SEND_ERROR :: int where "EASY_NET_ERR_SEND_ERROR \<equiv> -3"

record bufferevent =
  bev_fd :: int
  bev_in :: "byte list"
  bev_out :: "byte list"

record 'c easy_net =
  hevent :: "bufferevent option"
  net_type :: int
  uri :: string
  nid :: cint
  net_state :: NetState
  last_active_timestamp :: int
  prev_pkg_count :: "64 word"
  curr_pkg_count :: "64 word"
  prev_traffic_bytes :: "64 word"
  curr_traffic_bytes :: "64 word"
  rpc_binded :: "ptr option"
  user_context :: "'c option"

text \<open>The heap of connections and the static counter \<open>nid_seed\<close>.\<close>

record 'c heap =
  nets :: "ptr \<rightharpoonup> 'c easy_net"
  next_net :: ptr
  nid_seed :: cint

definition heap0 :: "'c heap" where
  "heap0 = \<lparr>nets = Map.empty, next_net = 1, nid_seed = 1\<rparr>"

definition EasyNet_new :: "cint \<Rightarrow> 'c easy_net" where
  "EasyNet_new seed =
     \<lparr>hevent = None, net_type = 0, uri = [], nid = seed, net_state = NET_INIT,
      last_active_timestamp = 0, prev_pkg_count = 0, curr_pkg_count = 0,
      prev_traffic_bytes = 0, curr_traffic_bytes = 0, rpc_binded = None, user_context = None\<rparr>"

text \<open>\<open>new EasyNet()\<close>: the constructor consumes one id.\<close>

definition alloc_net :: "'c heap \<Rightarrow> ptr \<times> 'c heap" where
  "alloc_net h =
     (next_net h,
      h\<lparr>nets := (nets h)(next_net h \<mapsto> EasyNet_new (nid_seed h)),
        next_net := next_net h + 1, nid_seed := nid_seed h + 1\<rparr>)"

definition free_net :: "ptr \<Rightarrow> 'c heap \<Rightarrow> 'c heap" where
  "free_net p h = h\<lparr>nets := (nets h)(p := None)\<rparr>"

definition update_net :: "ptr \<Rightarrow> ('c easy_net \<Rightarrow> 'c easy_net) \<Rightarrow> 'c heap \<Rightarrow> 'c heap exec" where
  "update_net p f h = bindE (deref (nets h) p) (\<lambda>n. Done (h\<lparr>nets := (nets h)(p \<mapsto> f n)\<rparr>))"

text \<open>\<open>EasyNet::Init\<close>; \<open>bev_ok\<close> is whether \<open>bufferevent_socket_new\<close> succeeds.\<close>

definition EasyNet_Init :: "bool \<Rightarrow> int \<Rightarrow> int \<Rightarrow> 'c easy_net \<Rightarrow> int \<times> 'c easy_net" where
  "EasyNet_Init bev_ok sock type n =
     (if sock < 0 \<or> \<not> bev_ok then (-1, n)
      else (0, n\<lparr>hevent := Some \<lparr>bev_fd = sock, bev_in = [], bev_out = []\<rparr>,
                 net_type := type, net_state := NET_ESTABLISHED\<rparr>))"

text \<open>
  \<open>EasyNet::Connect\<close>; \<open>conn\<close> is what libevent does: \<open>None\<close> when no buffer can be
  created, \<open>Some (r, fd)\<close> the result and the descriptor of \<open>bufferevent_socket_connect\<close>.
\<close>

definition EasyNet_Connect ::
    "os_net \<Rightarrow> (int \<times> int) option \<Rightarrow> string option \<Rightarrow> int \<Rightarrow> 'c easy_net
     \<Rightarrow> int \<times> 'c easy_net" where
  "EasyNet_Connect os conn url type n =
     (case url of
        None \<Rightarrow> (-1, n)
      | Some u \<Rightarrow>
          if MAX_URL_LEN \<le> length u then (-1, n)
          else if fst (tcpsocket_str2sockin os (Some u) (Some sockaddr_zero)) \<noteq> 0 then (-1, n)
          else
            (case conn of
               None \<Rightarrow> (-1, n)
             | Some (r, fd) \<Rightarrow>
                 if r \<noteq> 0 then (-1, n)
                 else (0, n\<lparr>hevent := Some \<lparr>bev_fd = fd, bev_in = [], bev_out = []\<rparr>,
                            net_type := type, net_state := NET_CONNECTING_st, uri := u\<rparr>)))"

definition EasyNet_CleanUp :: "'c easy_net \<Rightarrow> 'c easy_net" where
  "EasyNet_CleanUp n = n\<lparr>hevent := None\<rparr>"

text \<open>\<open>zero\<close> is a context of zero bytes, as \<open>calloc\<close> returns it.\<close>

definition CreateUserContext :: "bool \<Rightarrow> 'c \<Rightarrow> nat \<Rightarrow> 'c easy_net \<Rightarrow> int \<times> 'c easy_net" where
  "CreateUserContext ok zero uctx_size n =
     (if uctx_size = 0 then (0, n)
      else if \<not> ok then (-1, n\<lparr>user_context := None\<rparr>)
      else (0, n\<lparr>user_context := Some zero\<rparr>))"

definition DestroyUserContext :: "'c easy_net \<Rightarrow> 'c easy_net" where
  "DestroyUserContext n = n\<lparr>user_context := None\<rparr>"

text \<open>
  \<open>EasyNet::Send\<close>; \<open>w1\<close> and \<open>w2\<close> are the results of the two
  \<open>bufferevent_write\<close> calls (0 appends the bytes). The assertion on \<open>hevent_\<close> comes
  before the state is looked at.
\<close>

definition bev_write :: "byte list \<Rightarrow> bufferevent \<Rightarrow> bufferevent" where
  "bev_write bs b = b\<lparr>bev_out := bev_out b @ bs\<rparr>"

definition EasyNet_Send ::
    "int \<Rightarrow> int \<Rightarrow> byte list option \<Rightarrow> 'c easy_net \<Rightarrow> (int \<times> 'c easy_net) exec" where
  "EasyNet_Send w1 w2 msg n =
     (case msg of
        None \<Rightarrow> Done (EASY_NET_OK, n)
      | Some m \<Rightarrow>
          if m = [] then Done (EASY_NET_OK, n)
          else
            (case hevent n of
               None \<Rightarrow> Crash AssertFailed
             | Some b \<Rightarrow>
                 if net_state n \<noteq> NET_ESTABLISHED then
                   (if net_state n \<noteq> NET_FAILED
                    then Done (EASY_NET_ERR_NOT_YET_ESTABLISHED, n)
                    else Done (EASY_NET_ERR_ESTABLISH_FAILED, n))
                 else
                   (let b1 = bev_write (be32 (of_nat (length m + 4))) b in
                    if w1 \<noteq> 0 then Done (EASY_NET_ERR_SEND_ERROR, n)
                    else if w2 \<noteq> 0
                      then Done (EASY_NET_ERR_SEND_ERROR, n\<lparr>hevent := Some b1\<rparr>)
                    else Done (EASY_NET_OK, n\<lparr>hevent := Some (bev_write m b1)\<rparr>))))"

section \<open>The pool\<close>

record net_mgr =
  handler_pool :: "(int \<times> ptr) list"
  recv_size :: nat
  it_cursor :: "int option"

abbreviation (input) kDefaultUpSize :: nat where "kDefaultUpSize \<equiv> 1048576"
abbreviation (input) kSingleRoundLoopNum :: nat where "kSingleRoundLoopNum \<equiv> 1024"

definition NetHandlerMgr_new :: net_mgr where
  "NetHandlerMgr_new = \<lparr>handler_pool = [], recv_size = 0, it_cursor = None\<rparr>"

definition pool_begin :: "(int \<times> ptr) list \<Rightarrow> int option" where
  "pool_begin pool = (case pool of [] \<Rightarrow> None | x # _ \<Rightarrow> Some (fst x))"

definition NetHandlerMgr_Init :: "bool \<Rightarrow> nat \<Rightarrow> net_mgr \<Rightarrow> int \<times> net_mgr" where
  "NetHandlerMgr_Init ok recv_buff_size m =
     (let n = (if recv_buff_size = 0 then kDefaultUpSize else recv_buff_size) in
      if \<not> ok then (-1, m)
      else (0, m\<lparr>recv_size := n, it_cursor := pool_begin (handler_pool m)\<rparr>))"

text \<open>The key after a key in iteration order: \<open>it++\<close>.\<close>

fun pool_next :: "int \<Rightarrow> (int \<times> ptr) list \<Rightarrow> int option" where
  "pool_next k [] = None"
| "pool_next k (x # xs) = (if fst x = k then pool_begin xs else pool_next k xs)"

text \<open>\<open>handler_pool_[fd] = net\<close>: replaces the entry of \<open>fd\<close> or adds one.\<close>

definition pool_insert :: "nat \<Rightarrow> int \<Rightarrow> ptr \<Rightarrow> (int \<times> ptr) list \<Rightarrow> (int \<times> ptr) list" where
  "pool_insert pos fd p pool =
     (if fd \<in> fst ` set pool then map (\<lambda>x. if fst x = fd then (fd, p) else x) pool
      else take pos pool @ (fd, p) # drop pos pool)"

definition pool_erase :: "int \<Rightarrow> (int \<times> ptr) list \<Rightarrow> (int \<times> ptr) list" where
  "pool_erase fd pool = filter (\<lambda>x. fst x \<noteq> fd) pool"

definition AddHandlerToMap :: "nat \<Rightarrow> ptr option \<Rightarrow> 'c heap \<Rightarrow> net_mgr \<Rightarrow> (int \<times> net_mgr) exec" where
  "AddHandlerToMap pos net h m =
     (case net of
        None \<Rightarrow> Done (-1, m)
      | Some p \<Rightarrow>
          bindE (deref (nets h) p) (\<lambda>n.
            case hevent n of
              None \<Rightarrow> Done (-1, m)
            | Some b \<Rightarrow> Done (0, m\<lparr>handler_pool := pool_insert pos (bev_fd b) p (handler_pool m)\<rparr>)))"

definition AddHandlerBySocket ::
    "bool \<Rightarrow> nat \<Rightarrow> int \<Rightarrow> int \<Rightarrow> 'c heap \<Rightarrow> net_mgr
     \<Rightarrow> (ptr option \<times> 'c heap \<times> net_mgr) exec" where
  "AddHandlerBySocket bev_ok pos sock type h m =
     (if sock < 0 then Done (None, h, m)
      else
        (let (p, h1) = alloc_net h in
         bindE (deref (nets h1) p) (\<lambda>n.
           case EasyNet_Init bev_ok sock type n of
             (ret, n1) \<Rightarrow>
               if ret \<noteq> 0 then Done (None, free_net p h1, m)
               else
                 (let h2 = h1\<lparr>nets := (nets h1)(p \<mapsto> n1)\<rparr> in
                  bindE (AddHandlerToMap pos (Some p) h2 m) (\<lambda>(r, m1). Done (Some p, h2, m1))))))"

definition AddHandlerByUri ::
    "os_net \<Rightarrow> (int \<times> int) option \<Rightarrow> nat \<Rightarrow> string option \<Rightarrow> int \<Rightarrow> 'c heap \<Rightarrow> net_mgr
     \<Rightarrow> (ptr option \<times> 'c heap \<times> net_mgr) exec" where
  "AddHandlerByUri os conn pos url type h m =
     (case url of
        None \<Rightarrow> Done (None, h, m)
      | Some u \<Rightarrow>
        (let (p, h1) = alloc_net h in
         bindE (deref (nets h1) p) (\<lambda>n.
           case EasyNet_Connect os conn (Some u) type n of
             (ret, n1) \<Rightarrow>
               if ret \<noteq> 0 then Done (None, free_net p h1, m)
               else
                 (let h2 = h1\<lparr>nets := (nets h1)(p \<mapsto> n1)\<rparr> in
                  bindE (AddHandlerToMap pos (Some p) h2 m) (\<lambda>(r, m1). Done (Some p, h2, m1))))))"

text \<open>The operations below take the event as the descriptor \<open>bufferevent_getfd\<close> reads
  from it; \<open>None\<close> is a NULL event.\<close>

definition GetHandlerByEvent :: "int option \<Rightarrow> net_mgr \<Rightarrow> ptr option" where
  "GetHandlerByEvent event m =
     (case event of None \<Rightarrow> None | Some fd \<Rightarrow> map_of (handler_pool m) fd)"

definition ChangeNetStateByEvent ::
    "int option \<Rightarrow> NetState \<Rightarrow> 'c heap \<Rightarrow> net_mgr \<Rightarrow> (int \<times> 'c heap) exec" where
  "ChangeNetStateByEvent event st h m =
     (case event of
        None \<Rightarrow> Done (-1, h)
      | Some fd \<Rightarrow>
          (case map_of (handler_pool m) fd of
             None \<Rightarrow> Done (0, h)
           | Some p \<Rightarrow> bindE (update_net p (\<lambda>n. n\<lparr>net_state := st\<rparr>) h) (\<lambda>h1. Done (0, h1))))"

definition RemoveHandlerByEvent ::
    "int option \<Rightarrow> 'c heap \<Rightarrow> net_mgr \<Rightarrow> (int \<times> 'c heap \<times> net_mgr) exec" where
  "RemoveHandlerByEvent event h m =
     (case event of
        None \<Rightarrow> Done (-1, h, m)
      | Some fd \<Rightarrow>
          (case map_of (handler_pool m) fd of
             None \<Rightarrow> Done (0, h, m)
           | Some p \<Rightarrow>
               bindE (update_net p (\<lambda>n. EasyNet_CleanUp (DestroyUserContext n)) h) (\<lambda>h1.
                 Done (0, free_net p h1,
                       m\<lparr>it_cursor := (if it_cursor m = Some fd then pool_next fd (handler_pool m)
                                       else it_cursor m),
                         handler_pool := pool_erase fd (handler_pool m)\<rparr>))))"

definition RemoveHandler :: "ptr option \<Rightarrow> 'c heap \<Rightarrow> net_mgr \<Rightarrow> (int \<times> 'c heap \<times> net_mgr) exec" where
  "RemoveHandler net h m =
     (case net of
        None \<Rightarrow> Done (-1, h, m)
      | Some p \<Rightarrow>
          bindE (deref (nets h) p) (\<lambda>n.
            RemoveHandlerByEvent (map_option bev_fd (hevent n)) h m))"

text \<open>
  \<open>GetHandlerByAsyncIds(fd, nid)\<close>: the \<open>uint32_t\<close> key becomes an \<open>int\<close>, the
  connection's \<open>int\<close> id is extended to \<open>uint64_t\<close>.
\<close>

definition GetHandlerByAsyncIds ::
    "32 word \<Rightarrow> 64 word \<Rightarrow> 'c heap \<Rightarrow> net_mgr \<Rightarrow> ptr option exec" where
  "GetHandlerByAsyncIds fd i h m =
     (case map_of (handler_pool m) (sint fd) of
        None \<Rightarrow> Done None
      | Some p \<Rightarrow>
          bindE (deref (nets h) p) (\<lambda>n. Done (if i = scast (nid n) then Some p else None)))"

text \<open>
  \<open>CleanUp\<close> of the pool: each connection is cleaned up and deleted, its user context is not
  destroyed; the receive buffer is freed.
\<close>

fun cleanup_nets :: "(int \<times> ptr) list \<Rightarrow> 'c heap \<Rightarrow> 'c heap exec" where
  "cleanup_nets [] h = Done h"
| "cleanup_nets (x # xs) h =
     bindE (update_net (snd x) EasyNet_CleanUp h) (\<lambda>h1. cleanup_nets xs (free_net (snd x) h1))"

definition NetHandlerMgr_CleanUp :: "'c heap \<Rightarrow> net_mgr \<Rightarrow> ('c heap \<times> net_mgr) exec" where
  "NetHandlerMgr_CleanUp h m =
     bindE (cleanup_nets (handler_pool m) h) (\<lambda>h1. Done (h1, m\<lparr>handler_pool := [], recv_size := 0\<rparr>))"

text \<open>
  \<open>WalkThrough(act)\<close>: at most 1024 connections per call, from the cursor on; those for which
  \<open>DoSomething\<close> answers non-zero are closed. \<open>walk\<close> is the loop, its first argument
  the rounds left. A cursor whose key is not in the pool is a dangling iterator.
\<close>

fun walk :: "nat \<Rightarrow> ('c easy_net \<Rightarrow> int \<times> 'c easy_net) \<Rightarrow> 'c heap \<Rightarrow> net_mgr
             \<Rightarrow> ('c heap \<times> net_mgr) exec" where
  "walk 0 act h m = Done (h, m)"
| "walk (Suc i) act h m =
     (case it_cursor m of
        None \<Rightarrow> Done (h, m)
      | Some k \<Rightarrow>
          (case map_of (handler_pool m) k of
             None \<Rightarrow> Crash UseAfterFree
           | Some p \<Rightarrow>
               bindE (deref (nets h) p) (\<lambda>n.
                 case act n of
                   (r, n1) \<Rightarrow>
                     (let nxt = pool_next k (handler_pool m);
                          h1 = h\<lparr>nets := (nets h)(p \<mapsto> n1)\<rparr>
                      in if r \<noteq> 0
                         then walk i act (free_net p h1)
                                (m\<lparr>it_cursor := nxt, handler_pool := pool_erase k (handler_pool m)\<rparr>)
                         else walk i act h1 (m\<lparr>it_cursor := nxt\<rparr>)))))"

definition WalkThrough ::
    "('c easy_net \<Rightarrow> int \<times> 'c easy_net) option \<Rightarrow> 'c heap \<Rightarrow> net_mgr \<Rightarrow> ('c heap \<times> net_mgr) exec" where
  "WalkThrough act h m =
     (case act of
        None \<Rightarrow> Done (h, m)
      | Some f \<Rightarrow>
          bindE (walk kSingleRoundLoopNum f h m) (\<lambda>(h1, m1).
            Done (h1, if it_cursor m1 = None
                      then m1\<lparr>it_cursor := pool_begin (handler_pool m1)\<rparr> else m1)))"

section \<open>The map contract\<close>

text \<open>What the handlers rely on from a table keyed by descriptors.\<close>

locale fd_table =
  fixes put :: "'i \<Rightarrow> int \<Rightarrow> ptr \<Rightarrow> 'm \<Rightarrow> 'm"
    and del :: "int \<Rightarrow> 'm \<Rightarrow> 'm"
    and look :: "'m \<Rightarrow> int \<Rightarrow> ptr option"
  assumes look_put: "look (put i k p m) k' = (if k' = k then Some p else look m k')"
    and look_del: "look (del k m) k' = (if k' = k then None else look m k')"
begin

lemma look_put_same [simp]: "look (put i k p m) k = Some p"
  by (simp add: look_put)

lemma look_del_same [simp]: "look (del k m) k = None"
  by (simp add: look_del)

lemma ran_put: "look (put i k p m) k' = Some q \<Longrightarrow> q = p \<or> look m k' = Some q"
  by (auto simp: look_put split: if_splits)

lemma ran_del: "look (del k m) k' = Some q \<Longrightarrow> look m k' = Some q \<and> k' \<noteq> k"
  by (auto simp: look_del split: if_splits)

lemma del_put: "look m k = None \<Longrightarrow> look (del k (put i k p m)) k' = look m k'"
  by (auto simp: look_put look_del)

end

lemma map_of_replace:
  "map_of (map (\<lambda>x. if fst x = fd then (fd, p) else x) pool) k =
     (if k = fd \<and> fd \<in> fst ` set pool then Some p else map_of pool k)"
proof (induction pool)
  case (Cons x pool)
  show ?case
  proof (cases "fst x = fd")
    case True
    with Cons show ?thesis
      by (cases x; cases "k = fd") auto
  next
    case False
    with Cons show ?thesis
      by (cases x; cases "k = fd") simp_all
  qed
qed simp

lemma map_of_take_drop:
  assumes "fd \<notin> fst ` set pool"
  shows "map_of (take pos pool @ (fd, p) # drop pos pool) k =
           (if k = fd then Some p else map_of pool k)"
proof -
  have split: "map_of pool k = (map_of (drop pos pool) ++ map_of (take pos pool)) k"
    by (metis append_take_drop_id map_of_append)
  have "fd \<notin> fst ` set (take pos pool)"
    using assms by (auto dest: in_set_takeD)
  then have "map_of (take pos pool) fd = None"
    by (simp add: map_of_eq_None_iff)
  then show ?thesis
    unfolding split by (auto simp: map_add_def split: option.splits)
qed

lemma map_of_erase: "map_of (pool_erase fd pool) k = (if k = fd then None else map_of pool k)"
  by (induction pool) (auto simp: pool_erase_def)

interpretation pool: fd_table pool_insert pool_erase map_of
  by unfold_locales
    (simp_all add: pool_insert_def map_of_replace map_of_take_drop map_of_erase del: map_of_append)

lemma keys_insert: "fst ` set (pool_insert pos fd p pool) = insert fd (fst ` set pool)"
proof (cases "fd \<in> fst ` set pool")
  case True
  have "map fst (map (\<lambda>x. if fst x = fd then (fd, p) else x) pool) = map fst pool"
    by (induction pool) auto
  then have "fst ` set (map (\<lambda>x. if fst x = fd then (fd, p) else x) pool) = fst ` set pool"
    by (metis set_map)
  with True show ?thesis
    by (simp add: pool_insert_def insert_absorb)
next
  case False
  have "set pool = set (take pos pool) \<union> set (drop pos pool)"
    by (metis append_take_drop_id set_append)
  with False show ?thesis
    by (auto simp: pool_insert_def)
qed

lemma distinct_insert:
  assumes "distinct (map fst pool)"
  shows "distinct (map fst (pool_insert pos fd p pool))"
proof (cases "fd \<in> fst ` set pool")
  case True
  have "map fst (map (\<lambda>x. if fst x = fd then (fd, p) else x) pool) = map fst pool"
    by (induction pool) auto
  with True assms show ?thesis
    by (simp add: pool_insert_def del: map_map)
next
  case False
  have "distinct (map fst (take pos pool @ drop pos pool))"
    using assms by simp
  then have "distinct (map fst (take pos pool))" "distinct (map fst (drop pos pool))"
    "fst ` set (take pos pool) \<inter> fst ` set (drop pos pool) = {}"
    by (simp_all only: map_append distinct_append set_map)
  moreover have "fd \<notin> fst ` set (take pos pool)" "fd \<notin> fst ` set (drop pos pool)"
    using False by (auto dest: in_set_takeD in_set_dropD)
  ultimately show ?thesis
    using False by (simp add: pool_insert_def)
qed

lemma distinct_erase: "distinct (map fst pool) \<Longrightarrow> distinct (map fst (pool_erase fd pool))"
  by (induction pool) (auto simp: pool_erase_def)

lemma keys_erase: "fst ` set (pool_erase fd pool) = fst ` set pool - {fd}"
  by (auto simp: pool_erase_def)

lemma pool_begin_in: "pool_begin pool = Some k \<Longrightarrow> k \<in> fst ` set pool"
  by (cases pool) (auto simp: pool_begin_def)

lemma pool_next_in:
  "distinct (map fst pool) \<Longrightarrow> pool_next k pool = Some k' \<Longrightarrow> k' \<in> fst ` set pool \<and> k' \<noteq> k"
proof (induction pool)
  case (Cons x xs)
  show ?case
  proof (cases "fst x = k")
    case True
    with Cons.prems have "pool_begin xs = Some k'"
      by simp
    then have "k' \<in> fst ` set xs"
      by (rule pool_begin_in)
    moreover have "fst x \<notin> fst ` set xs"
      using Cons.prems(1) by simp
    ultimately show ?thesis
      using True by (metis image_insert insertCI list.simps(15))
  next
    case False
    with Cons show ?thesis
      by auto
  qed
qed simp

section \<open>The invariant of a heap and its pool\<close>

text \<open>Ids are handed out in the order of allocation.\<close>

definition heap_ok :: "'c heap \<Rightarrow> bool" where
  "heap_ok h = (nid_seed h = of_nat (next_net h)
                \<and> (\<forall>p n. nets h p = Some n \<longrightarrow> p < next_net h \<and> nid n = of_nat p))"

text \<open>
  A pool is well formed over a heap: one entry per descriptor, every entry is an allocated
  connection whose buffer has that descriptor, and the cursor stands on an entry or at the end.
\<close>

definition net_fd :: "'c heap \<Rightarrow> ptr \<Rightarrow> int option" where
  "net_fd h p = Option.bind (nets h p) (\<lambda>n. map_option bev_fd (hevent n))"

definition pool_ok :: "'c heap \<Rightarrow> net_mgr \<Rightarrow> bool" where
  "pool_ok h m = (distinct (map fst (handler_pool m))
                  \<and> (\<forall>fd p. map_of (handler_pool m) fd = Some p \<longrightarrow> net_fd h p = Some fd)
                  \<and> (\<forall>k. it_cursor m = Some k \<longrightarrow> k \<in> fst ` set (handler_pool m)))"

lemma net_fd_SomeD:
  "net_fd h p = Some fd \<Longrightarrow> \<exists>n b. nets h p = Some n \<and> hevent n = Some b \<and> bev_fd b = fd"
  by (auto simp: net_fd_def bind_eq_Some_conv)

lemma pool_okD:
  "pool_ok h m \<Longrightarrow> map_of (handler_pool m) fd = Some p \<Longrightarrow>
   \<exists>n b. nets h p = Some n \<and> hevent n = Some b \<and> bev_fd b = fd"
  unfolding pool_ok_def by (blast dest: net_fd_SomeD)

lemma pool_ptr_unique:
  "pool_ok h m \<Longrightarrow> map_of (handler_pool m) fd = Some p \<Longrightarrow> map_of (handler_pool m) fd' = Some p
   \<Longrightarrow> fd' = fd"
  unfolding pool_ok_def by (metis option.inject)

text \<open>A change of the heap that keeps the descriptors of a pool's connections keeps the pool.\<close>

definition pool_ptrs :: "net_mgr \<Rightarrow> ptr set" where
  "pool_ptrs m = snd ` set (handler_pool m)"

lemma pool_ok_cong:
  assumes "pool_ok h m" and "\<forall>p \<in> pool_ptrs m. net_fd h' p = net_fd h p"
  shows "pool_ok h' m"
  using assms by (force simp: pool_ok_def pool_ptrs_def dest: map_of_SomeD)

lemma pool_ok_erase:
  assumes "pool_ok h m" and "map_of (handler_pool m) fd = Some p"
    and "\<forall>q \<in> pool_ptrs m. q \<noteq> p \<longrightarrow> net_fd h' q = net_fd h q"
    and "\<forall>k. c = Some k \<longrightarrow> k \<in> fst ` set (handler_pool m) \<and> k \<noteq> fd"
  shows "pool_ok h' (m\<lparr>it_cursor := c, handler_pool := pool_erase fd (handler_pool m)\<rparr>)"
proof -
  have "net_fd h' q = Some k" if "map_of (pool_erase fd (handler_pool m)) k = Some q" for k q
  proof -
    have kq: "map_of (handler_pool m) k = Some q" "k \<noteq> fd"
      using that by (auto simp: map_of_erase split: if_splits)
    then have "q \<noteq> p"
      using pool_ptr_unique [OF assms(1,2)] by blast
    moreover have "q \<in> pool_ptrs m"
      using map_of_SomeD [OF kq(1)] by (force simp: pool_ptrs_def)
    ultimately show ?thesis
      using assms(1,3) kq(1) by (auto simp: pool_ok_def)
  qed
  with assms(1,4) show ?thesis
    by (auto simp: pool_ok_def distinct_erase keys_erase)
qed

lemma pool_ok_insert:
  assumes "pool_ok h m" and "net_fd h' p = Some fd"
    and "\<forall>q \<in> pool_ptrs m. net_fd h' q = net_fd h q"
  shows "pool_ok h' (m\<lparr>handler_pool := pool_insert pos fd p (handler_pool m)\<rparr>)"
proof -
  have "net_fd h' q = Some k" if "map_of (pool_insert pos fd p (handler_pool m)) k = Some q" for k q
    using that assms pool_ok_cong [OF assms(1,3)]
    by (auto simp: pool.look_put pool_ok_def split: if_splits)
  with assms(1) show ?thesis
    by (auto simp: pool_ok_def distinct_insert keys_insert)
qed

text \<open>
  The pool owns exactly the connections of the heap outside a set \<open>F\<close> (those of the other
  pool).
\<close>

definition mgr_inv :: "ptr set \<Rightarrow> 'c heap \<Rightarrow> net_mgr \<Rightarrow> bool" where
  "mgr_inv F h m = (heap_ok h \<and> pool_ok h m
                    \<and> dom (nets h) = pool_ptrs m \<union> F \<and> pool_ptrs m \<inter> F = {})"

lemma mgr_invD:
  assumes "mgr_inv F h m"
  shows "heap_ok h" "pool_ok h m" "dom (nets h) = pool_ptrs m \<union> F" "pool_ptrs m \<inter> F = {}"
  using assms by (simp_all add: mgr_inv_def)

lemma map_of_in_ptrs: "map_of (handler_pool m) fd = Some p \<Longrightarrow> p \<in> pool_ptrs m"
  by (drule map_of_SomeD) (force simp: pool_ptrs_def)

lemma ptrs_map_of:
  assumes "pool_ok h m" and "p \<in> pool_ptrs m"
  shows "\<exists>fd. map_of (handler_pool m) fd = Some p"
  using assms unfolding pool_ok_def pool_ptrs_def by (force intro: map_of_is_SomeI)

lemma ptrs_erase:
  assumes "pool_ok h m" and "map_of (handler_pool m) fd = Some p"
  shows "snd ` set (pool_erase fd (handler_pool m)) = pool_ptrs m - {p}"
proof -
  have d: "distinct (map fst (handler_pool m))"
    using assms(1) by (simp add: pool_ok_def)
  have "snd x = p \<longleftrightarrow> fst x = fd" if "x \<in> set (handler_pool m)" for x
  proof -
    have "map_of (handler_pool m) (fst x) = Some (snd x)"
      using that d by simp
    then show ?thesis
      using assms pool_ptr_unique [OF assms(1,2)] by (metis option.inject)
  qed
  then show ?thesis
    by (auto simp: pool_erase_def pool_ptrs_def)
qed

lemma ptrs_insert_fresh:
  "fd \<notin> fst ` set (handler_pool m) \<Longrightarrow>
   snd ` set (pool_insert pos fd p (handler_pool m)) = insert p (pool_ptrs m)"
proof -
  assume a: "fd \<notin> fst ` set (handler_pool m)"
  have "set (handler_pool m) = set (take pos (handler_pool m)) \<union> set (drop pos (handler_pool m))"
    by (metis append_take_drop_id set_append)
  with a show ?thesis
    by (auto simp: pool_insert_def pool_ptrs_def)
qed

section \<open>Every operation keeps the invariant\<close>

text \<open>Removing one owned connection, as \<open>RemoveHandlerByEvent\<close> and the walk do.\<close>

lemma mgr_inv_remove:
  assumes inv: "mgr_inv F h m" and fd: "map_of (handler_pool m) fd = Some p"
    and c: "\<forall>k. c = Some k \<longrightarrow> k \<in> fst ` set (handler_pool m) \<and> k \<noteq> fd"
    and h': "nets h' = (nets h)(p := None)" "next_net h' = next_net h" "nid_seed h' = nid_seed h"
  shows "mgr_inv F h' (m\<lparr>it_cursor := c, handler_pool := pool_erase fd (handler_pool m)\<rparr>)"
proof -
  note i = mgr_invD [OF inv]
  have p: "p \<in> pool_ptrs m"
    using fd by (rule map_of_in_ptrs)
  have "heap_ok h'"
    using i(1) h' by (auto simp: heap_ok_def)
  moreover have "pool_ok h' (m\<lparr>it_cursor := c, handler_pool := pool_erase fd (handler_pool m)\<rparr>)"
    by (rule pool_ok_erase [OF i(2) fd _ c]) (simp add: net_fd_def h')
  moreover have "dom (nets h') = (pool_ptrs m - {p}) \<union> F" "(pool_ptrs m - {p}) \<inter> F = {}"
    using i(3,4) p h' by auto
  ultimately show ?thesis
    using ptrs_erase [OF i(2) fd] by (simp add: mgr_inv_def pool_ptrs_def)
qed

text \<open>Changing one connection without touching its id and buffer.\<close>

lemma mgr_inv_update:
  assumes inv: "mgr_inv F h m" and p: "nets h p = Some n"
    and n': "nid n' = nid n" "map_option bev_fd (hevent n') = map_option bev_fd (hevent n)"
    and c: "\<forall>k. c = Some k \<longrightarrow> k \<in> fst ` set (handler_pool m)"
  shows "mgr_inv F (h\<lparr>nets := (nets h)(p \<mapsto> n')\<rparr>) (m\<lparr>it_cursor := c\<rparr>)"
proof -
  note i = mgr_invD [OF inv]
  let ?h = "h\<lparr>nets := (nets h)(p \<mapsto> n')\<rparr>"
  have "heap_ok ?h"
    using i(1) p n' by (auto simp: heap_ok_def)
  moreover have "net_fd ?h q = net_fd h q" for q
    using p n' by (auto simp: net_fd_def)
  then have "pool_ok ?h m"
    using i(2) by (simp add: pool_ok_def)
  then have "pool_ok ?h (m\<lparr>it_cursor := c\<rparr>)"
    using c by (simp add: pool_ok_def)
  moreover have "dom (nets ?h) = pool_ptrs m \<union> F"
    using i(3) p by auto
  ultimately show ?thesis
    using i(4) by (simp add: mgr_inv_def pool_ptrs_def)
qed

text \<open>Adding a new connection under a free descriptor.\<close>

lemma mgr_inv_add:
  assumes inv: "mgr_inv F h m" and fd: "fd \<notin> fst ` set (handler_pool m)"
    and n: "nid n = nid_seed h" "map_option bev_fd (hevent n) = Some fd"
    and h': "nets h' = (nets h)(next_net h \<mapsto> n)" "next_net h' = next_net h + 1"
            "nid_seed h' = nid_seed h + 1"
  shows "mgr_inv F h' (m\<lparr>handler_pool := pool_insert pos fd (next_net h) (handler_pool m)\<rparr>)"
proof -
  note i = mgr_invD [OF inv]
  have fresh: "next_net h \<notin> dom (nets h)"
    using i(1) by (fastforce simp: heap_ok_def)
  have "heap_ok h'"
    using i(1) n h' by (auto simp: heap_ok_def less_Suc_eq)
  moreover have "pool_ok h' (m\<lparr>handler_pool := pool_insert pos fd (next_net h) (handler_pool m)\<rparr>)"
  proof (rule pool_ok_insert [OF i(2)])
    show "net_fd h' (next_net h) = Some fd"
      using n h' by (simp add: net_fd_def)
    show "\<forall>q\<in>pool_ptrs m. net_fd h' q = net_fd h q"
      using fresh i(3) h' by (auto simp: net_fd_def)
  qed
  moreover have "dom (nets h') = insert (next_net h) (pool_ptrs m) \<union> F"
      "insert (next_net h) (pool_ptrs m) \<inter> F = {}"
    using i(3,4) h' fresh by auto
  ultimately show ?thesis
    using ptrs_insert_fresh [OF fd] by (simp add: mgr_inv_def pool_ptrs_def)
qed

text \<open>A constructor call whose result is deleted again only consumes an id.\<close>

lemma mgr_inv_discard:
  assumes "mgr_inv F h m"
  shows "mgr_inv F (free_net (next_net h) (snd (alloc_net h))) m"
proof -
  note i = mgr_invD [OF assms]
  have "next_net h \<notin> dom (nets h)"
    using i(1) by (fastforce simp: heap_ok_def)
  then have same: "nets (free_net (next_net h) (snd (alloc_net h))) = nets h"
    by (auto simp: free_net_def alloc_net_def fun_eq_iff domIff)
  then have "heap_ok (free_net (next_net h) (snd (alloc_net h)))"
    using i(1) by (fastforce simp: heap_ok_def free_net_def alloc_net_def)
  moreover have "pool_ok (free_net (next_net h) (snd (alloc_net h))) m"
    using i(2) same by (simp add: pool_ok_def net_fd_def)
  ultimately show ?thesis
    using i(3,4) same by (simp add: mgr_inv_def)
qed

text \<open>A walking act may change a connection's counters, not its id or its buffer.\<close>

definition act_ok :: "('c easy_net \<Rightarrow> int \<times> 'c easy_net) \<Rightarrow> bool" where
  "act_ok f = (\<forall>n. nid (snd (f n)) = nid n \<and> hevent (snd (f n)) = hevent n)"

lemma cursor_next_in:
  assumes "pool_ok h m"
  shows "\<forall>k'. pool_next k (handler_pool m) = Some k' \<longrightarrow> k' \<in> fst ` set (handler_pool m) \<and> k' \<noteq> k"
  using assms pool_next_in [of "handler_pool m" k] by (auto simp: pool_ok_def)

text \<open>What an operation does outside its own pool: nothing.\<close>

definition foreign_same :: "ptr set \<Rightarrow> 'c heap \<Rightarrow> 'c heap \<Rightarrow> bool" where
  "foreign_same F h h' = (\<forall>q \<in> F. nets h' q = nets h q)"

lemma foreign_same_refl [simp]: "foreign_same F h h"
  by (simp add: foreign_same_def)

lemma foreign_same_trans: "foreign_same F h h' \<Longrightarrow> foreign_same F h' h'' \<Longrightarrow> foreign_same F h h''"
  by (simp add: foreign_same_def)

lemma foreign_same_owned:
  assumes "mgr_inv F h m" and "p \<in> pool_ptrs m" and "\<forall>q. q \<noteq> p \<longrightarrow> nets h' q = nets h q"
  shows "foreign_same F h h'"
  using assms mgr_invD(4) [OF assms(1)] by (auto simp: foreign_same_def)

text \<open>What every operation of the pool establishes.\<close>

definition mgr_keeps :: "ptr set \<Rightarrow> 'c heap \<Rightarrow> 'c heap \<Rightarrow> net_mgr \<Rightarrow> bool" where
  "mgr_keeps F h h' m' = (mgr_inv F h' m' \<and> foreign_same F h h')"

lemma RemoveHandlerByEvent_keeps:
  assumes "mgr_inv F h m"
  shows "\<exists>r h' m'. RemoveHandlerByEvent e h m = Done (r, h', m') \<and> mgr_keeps F h h' m'"
proof (cases "Option.bind e (map_of (handler_pool m))")
  case None
  with assms show ?thesis
    by (cases e) (auto simp: RemoveHandlerByEvent_def mgr_keeps_def bind_eq_None_conv)
next
  case (Some p)
  then obtain fd where e: "e = Some fd" and p: "map_of (handler_pool m) fd = Some p"
    by (auto simp: bind_eq_Some_conv simp del: map_of_eq_Some_iff)
  note i = mgr_invD [OF assms]
  obtain n where n: "nets h p = Some n"
    using pool_okD [OF i(2) p] by blast
  let ?c = "if it_cursor m = Some fd then pool_next fd (handler_pool m) else it_cursor m"
  let ?h = "free_net p (h\<lparr>nets := (nets h)(p \<mapsto> EasyNet_CleanUp (DestroyUserContext n))\<rparr>)"
  have "\<forall>k. ?c = Some k \<longrightarrow> k \<in> fst ` set (handler_pool m) \<and> k \<noteq> fd"
    using cursor_next_in [OF i(2), of fd] i(2) by (auto simp: pool_ok_def)
  moreover have "nets ?h = (nets h)(p := None)" "next_net ?h = next_net h" "nid_seed ?h = nid_seed h"
    by (simp_all add: free_net_def)
  ultimately have "mgr_keeps F h ?h (m\<lparr>it_cursor := ?c, handler_pool := pool_erase fd (handler_pool m)\<rparr>)"
    using mgr_inv_remove [OF assms p] foreign_same_owned [OF assms map_of_in_ptrs [OF p], of ?h]
    by (simp add: mgr_keeps_def)
  then show ?thesis
    using e p n by (simp add: RemoveHandlerByEvent_def update_net_def)
qed

lemma RemoveHandler_keeps:
  assumes "mgr_inv F h m" and "p \<in> pool_ptrs m"
  shows "\<exists>r h' m'. RemoveHandler (Some p) h m = Done (r, h', m') \<and> mgr_keeps F h h' m'"
proof -
  obtain fd where "map_of (handler_pool m) fd = Some p"
    using ptrs_map_of [OF mgr_invD(2) [OF assms(1)] assms(2)] by blast
  then obtain n where "nets h p = Some n"
    using pool_okD [OF mgr_invD(2) [OF assms(1)]] by blast
  then show ?thesis
    using RemoveHandlerByEvent_keeps [OF assms(1), of "map_option bev_fd (hevent n)"]
    by (simp add: RemoveHandler_def)
qed

lemma ChangeNetStateByEvent_keeps:
  assumes "mgr_inv F h m"
  shows "\<exists>r h'. ChangeNetStateByEvent e st h m = Done (r, h') \<and> mgr_keeps F h h' m"
proof (cases "Option.bind e (map_of (handler_pool m))")
  case None
  with assms show ?thesis
    by (cases e) (auto simp: ChangeNetStateByEvent_def mgr_keeps_def bind_eq_None_conv)
next
  case (Some p)
  then obtain fd where e: "e = Some fd" and p: "map_of (handler_pool m) fd = Some p"
    by (auto simp: bind_eq_Some_conv simp del: map_of_eq_Some_iff)
  note i = mgr_invD [OF assms]
  obtain n where n: "nets h p = Some n"
    using pool_okD [OF i(2) p] by blast
  let ?h = "h\<lparr>nets := (nets h)(p \<mapsto> n\<lparr>net_state := st\<rparr>)\<rparr>"
  have "mgr_inv F ?h (m\<lparr>it_cursor := it_cursor m\<rparr>)"
    using i(2) by (intro mgr_inv_update [OF assms n]) (auto simp: pool_ok_def)
  then have "mgr_keeps F h ?h m"
    using foreign_same_owned [OF assms map_of_in_ptrs [OF p], of ?h] by (simp add: mgr_keeps_def)
  then show ?thesis
    using e p n by (simp add: ChangeNetStateByEvent_def update_net_def)
qed

lemma add_net_keeps:
  assumes inv: "mgr_inv F h m" and fd: "fd \<notin> fst ` set (handler_pool m)"
    and n: "nid n = nid_seed h" "hevent n = Some b" "bev_fd b = fd"
  defines "h2 \<equiv> (snd (alloc_net h))\<lparr>nets := (nets (snd (alloc_net h)))(next_net h \<mapsto> n)\<rparr>"
  shows "\<exists>m'. AddHandlerToMap pos (Some (next_net h)) h2 m = Done (0, m') \<and> mgr_keeps F h h2 m'
             \<and> next_net h \<in> pool_ptrs m'"
proof -
  let ?m = "m\<lparr>handler_pool := pool_insert pos fd (next_net h) (handler_pool m)\<rparr>"
  have "mgr_inv F h2 ?m"
    by (rule mgr_inv_add [OF inv fd]) (use n in \<open>simp_all add: h2_def alloc_net_def\<close>)
  moreover have "next_net h \<notin> F"
    using mgr_invD(1,3) [OF inv] by (fastforce simp: heap_ok_def)
  then have "foreign_same F h h2"
    by (auto simp: foreign_same_def h2_def alloc_net_def)
  moreover have "AddHandlerToMap pos (Some (next_net h)) h2 m = Done (0, ?m)"
    using n by (simp add: AddHandlerToMap_def h2_def)
  moreover have "next_net h \<in> pool_ptrs ?m"
    using ptrs_insert_fresh [OF fd, of pos "next_net h"] by (simp add: pool_ptrs_def)
  ultimately show ?thesis
    by (auto simp: mgr_keeps_def)
qed

lemma discard_keeps: "mgr_inv F h m \<Longrightarrow> mgr_keeps F h (free_net (next_net h) (snd (alloc_net h))) m"
proof -
  assume a: "mgr_inv F h m"
  then have "next_net h \<notin> F"
    using mgr_invD(1,3) [OF a] by (fastforce simp: heap_ok_def)
  with mgr_inv_discard [OF a] show ?thesis
    by (auto simp: mgr_keeps_def foreign_same_def free_net_def alloc_net_def)
qed

lemma alloc_net_deref: "deref (nets (snd (alloc_net h))) (next_net h) = Done (EasyNet_new (nid_seed h))"
  by (simp add: alloc_net_def)

lemma fst_alloc_net: "fst (alloc_net h) = next_net h"
  by (simp add: alloc_net_def)

lemma AddHandlerBySocket_keeps:
  assumes "mgr_inv F h m" and "sock \<notin> fst ` set (handler_pool m)"
  shows "\<exists>r h' m'. AddHandlerBySocket ok pos sock type h m = Done (r, h', m') \<and> mgr_keeps F h h' m'"
proof (cases "sock < 0 \<or> \<not> ok")
  case True
  then show ?thesis
    using assms discard_keeps [OF assms(1)]
    by (auto simp: AddHandlerBySocket_def alloc_net_deref fst_alloc_net EasyNet_Init_def
        mgr_keeps_def case_prod_beta Let_def)
next
  case False
  then show ?thesis
    using add_net_keeps [OF assms, of "snd (EasyNet_Init True sock type (EasyNet_new (nid_seed h)))"
        "\<lparr>bev_fd = sock, bev_in = [], bev_out = []\<rparr>" pos]
    by (auto simp: AddHandlerBySocket_def alloc_net_deref fst_alloc_net EasyNet_Init_def
        EasyNet_new_def case_prod_beta Let_def)
qed

lemma AddHandlerByUri_keeps:
  fixes h :: "'c heap"
  assumes "mgr_inv F h m" and "\<forall>fd. map_option snd conn = Some fd \<longrightarrow> fd \<notin> fst ` set (handler_pool m)"
  shows "\<exists>r h' m'. AddHandlerByUri os conn pos url type h m = Done (r, h', m') \<and> mgr_keeps F h h' m'"
proof (cases url)
  case None
  with assms show ?thesis
    by (simp add: AddHandlerByUri_def mgr_keeps_def)
next
  case (Some u)
  let ?c = "EasyNet_Connect os conn (Some u) type (EasyNet_new (nid_seed h) :: 'c easy_net)"
  show ?thesis
  proof (cases "fst ?c = 0")
    case False
    then show ?thesis
      using discard_keeps [OF assms(1)] Some
      by (auto simp: AddHandlerByUri_def alloc_net_deref fst_alloc_net case_prod_beta Let_def)
  next
    case True
    then obtain fd where fd: "map_option snd conn = Some fd"
        "hevent (snd ?c) = Some \<lparr>bev_fd = fd, bev_in = [], bev_out = []\<rparr>" "nid (snd ?c) = nid_seed h"
      by (auto simp: EasyNet_Connect_def EasyNet_new_def split: if_splits option.splits)
    then show ?thesis
      using add_net_keeps [OF assms(1) _ fd(3,2), where pos = pos] assms(2) True Some
      by (auto simp: AddHandlerByUri_def alloc_net_deref fst_alloc_net case_prod_beta Let_def)
  qed
qed

lemma walk_keeps:
  assumes "act_ok f"
  shows "mgr_inv F h m \<Longrightarrow> \<exists>h' m'. walk i f h m = Done (h', m') \<and> mgr_keeps F h h' m'"
proof (induction i arbitrary: h m)
  case 0
  then show ?case by (simp add: mgr_keeps_def)
next
  case (Suc i)
  note i = mgr_invD [OF Suc.prems]
  show ?case
  proof (cases "it_cursor m")
    case None
    with Suc.prems show ?thesis by (simp add: mgr_keeps_def)
  next
    case (Some k)
    then have "k \<in> fst ` set (handler_pool m)"
      using i(2) by (simp add: pool_ok_def)
    then obtain p where p: "map_of (handler_pool m) k = Some p"
      by (metis map_of_eq_None_iff not_None_eq)
    then obtain n where n: "nets h p = Some n"
      using pool_okD [OF i(2)] by blast
    obtain r n1 where f: "f n = (r, n1)"
      by (cases "f n")
    then have n1: "nid n1 = nid n" "hevent n1 = hevent n"
      using assms by (simp_all add: act_ok_def) (metis snd_conv)+
    let ?nxt = "pool_next k (handler_pool m)"
    let ?h1 = "h\<lparr>nets := (nets h)(p \<mapsto> n1)\<rparr>"
    note nx = cursor_next_in [OF i(2), of k]
    show ?thesis
    proof (cases "r \<noteq> 0")
      case True
      let ?m = "m\<lparr>it_cursor := ?nxt, handler_pool := pool_erase k (handler_pool m)\<rparr>"
      have k: "mgr_inv F (free_net p ?h1) ?m"
        by (rule mgr_inv_remove [OF Suc.prems p nx]) (simp_all add: free_net_def)
      have fs: "foreign_same F h (free_net p ?h1)"
        by (rule foreign_same_owned [OF Suc.prems map_of_in_ptrs [OF p]]) (simp add: free_net_def)
      show ?thesis
        using Suc.IH [OF k] True Some p n f fs
        by (auto simp: Let_def mgr_keeps_def intro: foreign_same_trans)
    next
      case False
      have k: "mgr_inv F ?h1 (m\<lparr>it_cursor := ?nxt\<rparr>)"
        by (rule mgr_inv_update [OF Suc.prems n]) (use nx n1 in auto)
      have fs: "foreign_same F h ?h1"
        by (rule foreign_same_owned [OF Suc.prems map_of_in_ptrs [OF p]]) simp
      show ?thesis
        using Suc.IH [OF k] False Some p n f fs
        by (auto simp: Let_def mgr_keeps_def intro: foreign_same_trans)
    qed
  qed
qed

lemma mgr_inv_rewind: "mgr_inv F h m \<Longrightarrow> mgr_inv F h (m\<lparr>it_cursor := pool_begin (handler_pool m)\<rparr>)"
  by (auto simp: mgr_inv_def pool_ok_def pool_ptrs_def dest: pool_begin_in)

lemma WalkThrough_keeps:
  assumes "mgr_inv F h m" and "\<forall>f. act = Some f \<longrightarrow> act_ok f"
  shows "\<exists>h' m'. WalkThrough act h m = Done (h', m') \<and> mgr_keeps F h h' m'"
proof (cases act)
  case None
  with assms show ?thesis by (simp add: WalkThrough_def mgr_keeps_def)
next
  case (Some f)
  then obtain h1 m1 where "walk kSingleRoundLoopNum f h m = Done (h1, m1)" "mgr_keeps F h h1 m1"
    using walk_keeps [OF _ assms(1)] assms(2) by blast
  with Some show ?thesis
    using mgr_inv_rewind [of F h1 m1] by (simp add: WalkThrough_def mgr_keeps_def)
qed

section \<open>What a walk does\<close>

definition walk_keep :: "('c easy_net \<Rightarrow> int \<times> 'c easy_net) \<Rightarrow> 'c heap \<Rightarrow> int \<times> ptr \<Rightarrow> bool" where
  "walk_keep f h x = (\<exists>n. nets h (snd x) = Some n \<and> fst (f n) = 0)"

definition walk_net :: "('c easy_net \<Rightarrow> int \<times> 'c easy_net) \<Rightarrow> 'c easy_net \<Rightarrow> 'c easy_net option" where
  "walk_net f n = (if fst (f n) = 0 then Some (snd (f n)) else None)"

lemma pool_next_split:
  "k \<notin> fst ` set pre \<Longrightarrow> pool_next k (pre @ (k, p) # suf) = pool_begin suf"
  by (induction pre) auto

lemma walk_suffix:
  assumes "distinct (map fst (pre @ suf))" and "distinct (map snd suf)"
    and "\<forall>x \<in> set suf. nets h (snd x) \<noteq> None" and "length suf \<le> i"
    and "handler_pool m = pre @ suf" and "it_cursor m = pool_begin suf"
  shows "\<exists>h'. walk i f h m = Done (h', m\<lparr>it_cursor := None,
                                        handler_pool := pre @ filter (walk_keep f h) suf\<rparr>)
           \<and> (\<forall>q. nets h' q = (if q \<in> snd ` set suf then Option.bind (nets h q) (walk_net f)
                               else nets h q))"
  using assms
proof (induction suf arbitrary: pre h m i)
  case Nil
  then show ?case
    by (cases i) (auto simp: pool_begin_def)
next
  case (Cons x suf)
  obtain k p where x: "x = (k, p)" by (cases x)
  obtain j where i: "i = Suc j"
    using Cons.prems(4) by (cases i) auto
  obtain n where n: "nets h p = Some n"
    using Cons.prems(3) x by auto
  obtain r n1 where f: "f n = (r, n1)" by (cases "f n")
  have k: "k \<notin> fst ` set pre" "k \<notin> fst ` set suf"
    using Cons.prems(1) x by auto
  have mo: "map_of (handler_pool m) k = Some p"
    using Cons.prems(1,5) x by (intro map_of_is_SomeI) auto
  have nx: "pool_next k (handler_pool m) = pool_begin suf"
    using Cons.prems(5) x k pool_next_split by simp
  let ?keep = "if r = 0 then [(k, p)] else []"
  let ?h1 = "if r = 0 then h\<lparr>nets := (nets h)(p \<mapsto> n1)\<rparr>
             else free_net p (h\<lparr>nets := (nets h)(p \<mapsto> n1)\<rparr>)"
  let ?m1 = "m\<lparr>it_cursor := pool_begin suf, handler_pool := (pre @ ?keep) @ suf\<rparr>"
  have erase: "pool_erase k (pre @ (k, p) # suf) = pre @ suf"
  proof -
    have "filter (\<lambda>x. fst x \<noteq> k) pre = pre" "filter (\<lambda>x. fst x \<noteq> k) suf = suf"
      using k by (auto simp: filter_id_conv)
    then show ?thesis by (simp add: pool_erase_def)
  qed
  have step: "walk i f h m = walk j f ?h1 ?m1"
    using i mo nx n f Cons.prems(5,6) x erase
    by (cases m) (simp add: pool_begin_def Let_def del: map_of_append)
  have other: "q \<noteq> p \<Longrightarrow> nets ?h1 q = nets h q" for q
    by (simp add: free_net_def)
  have p: "p \<notin> snd ` set suf"
    using Cons.prems(2) x by simp
  have live: "\<forall>y \<in> set suf. nets ?h1 (snd y) \<noteq> None"
    using Cons.prems(3) p other by (metis image_eqI list.set_intros(2))
  have dist: "distinct (map fst ((pre @ ?keep) @ suf))"
    using Cons.prems(1) x by auto
  obtain h' where h': "walk j f ?h1 ?m1 = Done (h', ?m1\<lparr>it_cursor := None,
        handler_pool := (pre @ ?keep) @ filter (walk_keep f ?h1) suf\<rparr>)"
      "\<forall>q. nets h' q = (if q \<in> snd ` set suf then Option.bind (nets ?h1 q) (walk_net f) else nets ?h1 q)"
    using Cons.IH [OF dist _ live, of j ?m1] Cons.prems(2,4) i by auto
  have same: "filter (walk_keep f ?h1) suf = filter (walk_keep f h) suf"
    using p other by (intro filter_cong) (auto simp: walk_keep_def)
  have "filter (walk_keep f h) (x # suf) = ?keep @ filter (walk_keep f h) suf"
    using x n f by (simp add: walk_keep_def)
  moreover have "nets h' q = (if q \<in> snd ` set (x # suf) then Option.bind (nets h q) (walk_net f)
                               else nets h q)" for q
    using h'(2) other [of q] p x n f
    by (cases "q = p") (auto simp: walk_net_def free_net_def)
  ultimately show ?case
    using step h'(1) same by (intro exI [of _ h']) simp
qed

lemma pool_ok_distinct_ptrs: "pool_ok h m \<Longrightarrow> distinct (map snd (handler_pool m))"
proof -
  assume a: "pool_ok h m"
  have d: "distinct (map fst (handler_pool m))"
    using a by (simp add: pool_ok_def)
  have "inj_on snd (set (handler_pool m))"
  proof (rule inj_onI)
    fix x y
    assume xy: "x \<in> set (handler_pool m)" "y \<in> set (handler_pool m)" "snd x = snd y"
    then have "map_of (handler_pool m) (fst x) = Some (snd x)" "map_of (handler_pool m) (fst y) = Some (snd x)"
      using d by (metis map_of_is_SomeI prod.collapse)+
    then have "fst x = fst y"
      using pool_ptr_unique [OF a] by blast
    with xy(3) show "x = y" by (simp add: prod_eq_iff)
  qed
  with d show ?thesis
    by (simp add: distinct_map)
qed

lemma WalkThrough_all:
  assumes "pool_ok h m" and "length (handler_pool m) \<le> 1024"
    and "it_cursor m = pool_begin (handler_pool m)"
  shows "\<exists>h'. WalkThrough (Some f) h m
           = Done (h', m\<lparr>it_cursor := pool_begin (filter (walk_keep f h) (handler_pool m)),
                         handler_pool := filter (walk_keep f h) (handler_pool m)\<rparr>)
         \<and> (\<forall>q. nets h' q = (if q \<in> pool_ptrs m then Option.bind (nets h q) (walk_net f)
                             else nets h q))"
proof -
  have live: "\<forall>x \<in> set (handler_pool m). nets h (snd x) \<noteq> None"
  proof
    fix x
    assume "x \<in> set (handler_pool m)"
    then have "map_of (handler_pool m) (fst x) = Some (snd x)"
      using assms(1) unfolding pool_ok_def by (metis map_of_is_SomeI prod.collapse)
    then show "nets h (snd x) \<noteq> None"
      using pool_okD [OF assms(1)] by blast
  qed
  have "distinct (map fst ([] @ handler_pool m))"
    using assms(1) by (simp add: pool_ok_def)
  from walk_suffix [OF this pool_ok_distinct_ptrs [OF assms(1)] live assms(2) _ assms(3), of f]
  show ?thesis
    by (auto simp: WalkThrough_def pool_ptrs_def)
qed

section \<open>Runs of a pool\<close>

datatype 'c mgr_op =
    AddSock bool nat int int
  | AddUri os_net "(int \<times> int) option" nat "string option" int
  | ChangeState "int option" NetState
  | RemoveEvent "int option"
  | RemoveNet ptr
  | Walk "'c easy_net \<Rightarrow> int \<times> 'c easy_net"

definition mgr_exec :: "'c mgr_op \<Rightarrow> 'c heap \<times> net_mgr \<Rightarrow> ('c heap \<times> net_mgr) exec" where
  "mgr_exec op s =
     (let h = fst s; m = snd s in
      case op of
        AddSock ok pos sock type \<Rightarrow>
          bindE (AddHandlerBySocket ok pos sock type h m) (\<lambda>(r, h', m'). Done (h', m'))
      | AddUri os conn pos url type \<Rightarrow>
          bindE (AddHandlerByUri os conn pos url type h m) (\<lambda>(r, h', m'). Done (h', m'))
      | ChangeState e st \<Rightarrow> bindE (ChangeNetStateByEvent e st h m) (\<lambda>(r, h'). Done (h', m))
      | RemoveEvent e \<Rightarrow> bindE (RemoveHandlerByEvent e h m) (\<lambda>(r, h', m'). Done (h', m'))
      | RemoveNet p \<Rightarrow> bindE (RemoveHandler (Some p) h m) (\<lambda>(r, h', m'). Done (h', m'))
      | Walk f \<Rightarrow> WalkThrough (Some f) h m)"

fun mgr_run :: "'c mgr_op list \<Rightarrow> 'c heap \<times> net_mgr \<Rightarrow> ('c heap \<times> net_mgr) exec" where
  "mgr_run [] s = Done s"
| "mgr_run (op # ops) s = bindE (mgr_exec op s) (mgr_run ops)"

text \<open>
  What the callers guarantee: a new descriptor is not one the pool still holds, a connection
  removed by pointer is one of the pool, and a walk only touches counters.
\<close>

definition mgr_fits :: "'c mgr_op \<Rightarrow> net_mgr \<Rightarrow> bool" where
  "mgr_fits op m =
     (case op of
        AddSock ok pos sock type \<Rightarrow> sock \<notin> fst ` set (handler_pool m)
      | AddUri os conn pos url type \<Rightarrow>
          (case conn of None \<Rightarrow> True | Some c \<Rightarrow> snd c \<notin> fst ` set (handler_pool m))
      | RemoveNet p \<Rightarrow> p \<in> pool_ptrs m
      | Walk f \<Rightarrow> act_ok f
      | _ \<Rightarrow> True)"

fun mgr_run_fits :: "'c mgr_op list \<Rightarrow> 'c heap \<times> net_mgr \<Rightarrow> bool" where
  "mgr_run_fits [] s = True"
| "mgr_run_fits (op # ops) s =
     (mgr_fits op (snd s) \<and> (case mgr_exec op s of Done s' \<Rightarrow> mgr_run_fits ops s' | Crash e \<Rightarrow> True))"

lemma mgr_exec_keeps:
  assumes "mgr_inv F h m" and "mgr_fits op m"
  shows "\<exists>h' m'. mgr_exec op (h, m) = Done (h', m') \<and> mgr_keeps F h h' m'"
proof (cases op)
  case (AddSock ok pos sock type)
  then show ?thesis
    using AddHandlerBySocket_keeps [OF assms(1), of sock ok pos type] assms(2)
    by (auto simp: mgr_exec_def mgr_fits_def)
next
  case (AddUri os conn pos url type)
  then show ?thesis
    using AddHandlerByUri_keeps [OF assms(1), of conn os pos url type] assms(2)
    by (auto simp: mgr_exec_def mgr_fits_def split: option.splits)
next
  case (ChangeState e st)
  then show ?thesis
    using ChangeNetStateByEvent_keeps [OF assms(1), of e st] by (auto simp: mgr_exec_def)
next
  case (RemoveEvent e)
  then show ?thesis
    using RemoveHandlerByEvent_keeps [OF assms(1), of e] by (auto simp: mgr_exec_def)
next
  case (RemoveNet p)
  then show ?thesis
    using RemoveHandler_keeps [OF assms(1), of p] assms(2) by (auto simp: mgr_exec_def mgr_fits_def)
next
  case (Walk f)
  then show ?thesis
    using WalkThrough_keeps [OF assms(1), of "Some f"] assms(2) by (auto simp: mgr_exec_def mgr_fits_def)
qed

lemma mgr_run_keeps:
  "mgr_inv F h m \<Longrightarrow> mgr_run_fits ops (h, m) \<Longrightarrow>
   \<exists>h' m'. mgr_run ops (h, m) = Done (h', m') \<and> mgr_keeps F h h' m'"
proof (induction ops arbitrary: h m)
  case (Cons op ops)
  then obtain h1 m1 where 1: "mgr_exec op (h, m) = Done (h1, m1)" "mgr_keeps F h h1 m1"
    using mgr_exec_keeps [of F h m op] by auto
  moreover have "mgr_run_fits ops (h1, m1)"
    using Cons.prems 1 by simp
  ultimately obtain h2 m2 where "mgr_run ops (h1, m1) = Done (h2, m2)" "mgr_keeps F h1 h2 m2"
    using Cons.IH [of h1 m1] by (auto simp: mgr_keeps_def)
  with 1 show ?case
    by (auto simp: mgr_keeps_def intro: foreign_same_trans)
qed (simp add: mgr_keeps_def)

section \<open>Sending\<close>

text \<open>Messages sent one after the other on one connection, all writes succeeding.\<close>

fun send_all :: "byte list list \<Rightarrow> 'c easy_net \<Rightarrow> 'c easy_net exec" where
  "send_all [] n = Done n"
| "send_all (m # ms) n = bindE (EasyNet_Send 0 0 (Some m) n) (\<lambda>(r, n'). send_all ms n')"

lemma EasyNet_Send_ok:
  assumes "net_state n = NET_ESTABLISHED" and "hevent n = Some b" and "m \<noteq> []"
  shows "EasyNet_Send 0 0 (Some m) n
           = Done (EASY_NET_OK, n\<lparr>hevent := Some (bev_write (encode_frame m) b)\<rparr>)"
  using assms by (simp add: EasyNet_Send_def bev_write_def encode_frame_def)

lemma send_all_out:
  assumes "net_state n = NET_ESTABLISHED" and "hevent n = Some b" and "[] \<notin> set ms"
  shows "\<exists>n'. send_all ms n = Done n'
           \<and> map_option bev_out (hevent n') = Some (bev_out b @ concat (map encode_frame ms))"
  using assms
proof (induction ms arbitrary: n b)
  case (Cons m ms)
  let ?b = "bev_write (encode_frame m) b"
  obtain n' where "send_all ms (n\<lparr>hevent := Some ?b\<rparr>) = Done n'"
      "map_option bev_out (hevent n') = Some (bev_out ?b @ concat (map encode_frame ms))"
    using Cons.IH [of "n\<lparr>hevent := Some ?b\<rparr>" ?b] Cons.prems by auto
  then show ?case
    using EasyNet_Send_ok [OF Cons.prems(1,2), of m] Cons.prems(3) by (auto simp: bev_write_def)
qed simp

section \<open>Properties\<close>


definition close_idle :: "int \<Rightarrow> 'c easy_net \<Rightarrow> int \<times> 'c easy_net" where
  "close_idle limit n = (if last_active_timestamp n < limit then 1 else 0, n)"

definition sample_mgr_ops :: "unit mgr_op list" where
  "sample_mgr_ops =
     [AddSock True 0 7 0, AddSock True 0 9 0, Walk (close_idle 0), RemoveEvent (Some 7),
      ChangeState (Some 9) NET_FAILED, RemoveNet 2]"

lemma mgr_inv_empty: "mgr_inv {} heap0 NetHandlerMgr_new"
  by (simp add: mgr_inv_def heap_ok_def heap0_def pool_ok_def NetHandlerMgr_new_def pool_ptrs_def)


text \<open>One pass of \<open>WalkThrough\<close> over a pool of at most 1024 connections, with the
  cursor at the start: each connection is shown to \<open>DoSomething\<close> once; those it rejects are
  removed and freed, the others stay, in order, with the counters it left; the cursor is back at
  the start.\<close>

theorem WalkThrough_sweep:
  assumes "pool_ok h m" and "length (handler_pool m) \<le> 1024"
    and "it_cursor m = pool_begin (handler_pool m)"
  shows "\<exists>h'. WalkThrough (Some f) h m
           = Done (h', m\<lparr>it_cursor := pool_begin (filter (walk_keep f h) (handler_pool m)),
                         handler_pool := filter (walk_keep f h) (handler_pool m)\<rparr>)
         \<and> (\<forall>q. nets h' q = (if q \<in> pool_ptrs m then Option.bind (nets h q) (walk_net f)
                             else nets h q))"
  by (rule WalkThrough_all [OF assms])

definition two_nets :: "unit heap" where
  "two_nets = \<lparr>nets = [1 \<mapsto> (EasyNet_new 1)\<lparr>hevent := Some \<lparr>bev_fd = 7, bev_in = [], bev_out = []\<rparr>,
                                          last_active_timestamp := 50\<rparr>,
                       2 \<mapsto> (EasyNet_new 2)\<lparr>hevent := Some \<lparr>bev_fd = 9, bev_in = [], bev_out = []\<rparr>,
                                          last_active_timestamp := 90\<rparr>],
               next_net = 3, nid_seed = 3\<rparr>"

definition two_pool :: net_mgr where
  "two_pool = \<lparr>handler_pool = [(7, 1), (9, 2)], recv_size = 64, it_cursor = Some 7\<rparr>"

theorem WalkThrough_sweep_witness:
  "\<exists>h'. WalkThrough (Some (close_idle 60)) two_nets two_pool
     = Done (h', \<lparr>handler_pool = [(9, 2)], recv_size = 64, it_cursor = Some 9\<rparr>)
     \<and> nets h' 1 = None \<and> nets h' 2 \<noteq> None"
proof -
  have "pool_ok two_nets two_pool"
    by (simp add: pool_ok_def two_nets_def two_pool_def net_fd_def)
  from WalkThrough_sweep [OF this, of "close_idle 60"] show ?thesis
    by (auto simp: two_nets_def two_pool_def pool_begin_def walk_keep_def close_idle_def
        pool_ptrs_def walk_net_def)
qed

text \<open>What the framework sends can be received: a sequence of non-empty messages sent on an
  established connection leaves in its output buffer bytes that the receive loop cuts back into
  exactly those messages, with nothing left over.\<close>

theorem EasyNet_Send_frames:
  assumes "net_state n = NET_ESTABLISHED" and "hevent n = Some b" and "bev_out b = []"
    and "[] \<notin> set ms" and "list_all fits_frame ms"
  shows "\<exists>n' out. send_all ms n = Done n' \<and> map_option bev_out (hevent n') = Some out
           \<and> split_with server_len out = (map View ms, [])"
  using send_all_out [OF assms(1,2,4)] srv.split_enc_all [OF assms(5), of "[]"] assms(3) by auto

definition up_net :: "unit easy_net" where
  "up_net = (EasyNet_new 1)\<lparr>hevent := Some \<lparr>bev_fd = 7, bev_in = [], bev_out = []\<rparr>,
                           net_state := NET_ESTABLISHED\<rparr>"

theorem EasyNet_Send_frames_witness:
  "\<exists>n' out. send_all [[1], [2, 3]] up_net = Done n' \<and> map_option bev_out (hevent n') = Some out
     \<and> split_with server_len out = ([View [1], View [2, 3]], [])"
  using EasyNet_Send_frames [of up_net "\<lparr>bev_fd = 7, bev_in = [], bev_out = []\<rparr>" "[[1], [2, 3]]"]
  by (simp add: up_net_def fits_frame_def)

end
