(* ===== verification/Timer.thy ===== *)
theory Timer
  imports Prelude "HOL-Library.Multiset"
begin

text \<open>
  \<open>framework/rapidapp_easy_timer.*\<close> and \<open>framework/rapidapp_timer_mgr.*\<close>: timers
  and the vector that keeps them in the order of their next activation. Timers live on a heap of
  their own; the vector holds pointers. \<open>now\<close> is what \<open>time(NULL)\<close> answers,
  \<open>ok\<close> whether \<open>new\<close> succeeds.
\<close>

section \<open>Timers\<close>

record EasyTimer =
  next_active_timestamp :: int
  time_step :: nat
  timer_id :: int

definition EasyTimer_new :: EasyTimer where
  "EasyTimer_new = \<lparr>next_active_timestamp = 0, time_step = 0, timer_id = 0\<rparr>"

definition EasyTimer_Init :: "nat \<Rightarrow> int \<Rightarrow> EasyTimer \<Rightarrow> int \<times> EasyTimer" where
  "EasyTimer_Init time i t = (0, t\<lparr>time_step := time, timer_id := i\<rparr>)"

definition EasyTimer_Start :: "int \<Rightarrow> EasyTimer \<Rightarrow> int \<times> EasyTimer" where
  "EasyTimer_Start now t = (0, t\<lparr>next_active_timestamp := now + int (time_step t)\<rparr>)"

definition Step :: "EasyTimer \<Rightarrow> EasyTimer" where
  "Step t = t\<lparr>next_active_timestamp := next_active_timestamp t + int (time_step t)\<rparr>"

section \<open>The manager\<close>

abbreviation (input) DEFAULT_MAX_TIMER_NUM :: nat where "DEFAULT_MAX_TIMER_NUM \<equiv> 1048576"

record TimerMgr =
  max_timer_num :: nat
  timer_list :: "ptr list"
  timers :: "ptr \<rightharpoonup> EasyTimer"
  next_timer :: ptr

definition TimerMgr_new :: TimerMgr where
  "TimerMgr_new = \<lparr>max_timer_num = DEFAULT_MAX_TIMER_NUM, timer_list = [], timers = Map.empty,
                   next_timer = 1\<rparr>"

definition TimerMgr_Init :: "nat \<Rightarrow> TimerMgr \<Rightarrow> int \<times> TimerMgr" where
  "TimerMgr_Init n m = (0, m\<lparr>max_timer_num := n\<rparr>)"

definition TimerMgr_CleanUp :: "TimerMgr \<Rightarrow> TimerMgr" where
  "TimerMgr_CleanUp m =
     m\<lparr>timers := (timers m) |` (- set (timer_list m)), timer_list := []\<rparr>"

text \<open>
  \<open>timer_cmp_func\<close> on allocated timers, and \<open>upper_bound\<close> with it: the position of the
  first element whose timestamp is greater.
\<close>

definition timer_cmp_func :: "EasyTimer \<Rightarrow> EasyTimer \<Rightarrow> bool" where
  "timer_cmp_func a b = (next_active_timestamp a < next_active_timestamp b)"

definition stamp :: "(ptr \<rightharpoonup> EasyTimer) \<Rightarrow> ptr \<Rightarrow> int" where
  "stamp h p = (case h p of Some t \<Rightarrow> next_active_timestamp t | None \<Rightarrow> 0)"

definition upper_bound :: "(ptr \<rightharpoonup> EasyTimer) \<Rightarrow> ptr list \<Rightarrow> EasyTimer \<Rightarrow> nat" where
  "upper_bound h xs t =
     length (takeWhile (\<lambda>p. case h p of Some t' \<Rightarrow> \<not> timer_cmp_func t t' | None \<Rightarrow> True) xs)"

definition list_insert :: "nat \<Rightarrow> 'a \<Rightarrow> 'a list \<Rightarrow> 'a list" where
  "list_insert i x xs = take i xs @ x # drop i xs"

definition GetNextActiveTimer :: "TimerMgr \<Rightarrow> (ptr option \<times> TimerMgr) exec" where
  "GetNextActiveTimer m =
     (case timer_list m of
        [] \<Rightarrow> Done (None, m)
      | p # rest \<Rightarrow>
          bindE (deref (timers m) p) (\<lambda>t.
            let t' = Step t;
                h = (timers m)(p \<mapsto> t')
            in Done (Some p, m\<lparr>timers := h, timer_list := list_insert (upper_bound h rest t') p rest\<rparr>)))"

definition AddTimer :: "bool \<Rightarrow> int \<Rightarrow> nat \<Rightarrow> int \<Rightarrow> TimerMgr \<Rightarrow> ptr option \<times> TimerMgr" where
  "AddTimer ok now time_gap i m =
     (if time_gap = 0 then (None, m)
      else if max_timer_num m \<le> length (timer_list m) then (None, m)
      else if \<not> ok then (None, m)
      else
        (let p = next_timer m;
             t = snd (EasyTimer_Start now (snd (EasyTimer_Init time_gap i EasyTimer_new)));
             h = (timers m)(p \<mapsto> t)
         in (Some p, m\<lparr>timers := h, next_timer := p + 1,
                        timer_list := list_insert (upper_bound h (timer_list m) t) p (timer_list m)\<rparr>)))"

text \<open>
  \<open>RemoveTimer\<close>: the loop index is the iterator's distance from \<open>begin()\<close>. Erasing
  shifts the rest of the vector, the iterator is then incremented all the same; an index past the
  end is a read outside the vector.
\<close>

function remove_loop :: "ptr \<Rightarrow> nat \<Rightarrow> ptr list \<Rightarrow> (ptr \<rightharpoonup> EasyTimer)
                         \<Rightarrow> (ptr list \<times> (ptr \<rightharpoonup> EasyTimer)) exec" where
  "remove_loop p i xs h =
     (if i = length xs then Done (xs, h)
      else if length xs < i then Crash OutOfBounds
      else if xs ! i = p then
        bindE (deref h p) (\<lambda>t.
          remove_loop p (i + 1) (take i xs @ drop (i + 1) xs) (h(p := None)))
      else remove_loop p (i + 1) xs h)"
  by pat_completeness auto
termination
  by (relation "measure (\<lambda>(p, i, xs, h). Suc (length xs) - i)") auto

declare remove_loop.simps [simp del]

definition RemoveTimer :: "ptr option \<Rightarrow> TimerMgr \<Rightarrow> (int \<times> TimerMgr) exec" where
  "RemoveTimer timer m =
     (case timer of
        None \<Rightarrow> Done (-1, m)
      | Some p \<Rightarrow>
          bindE (remove_loop p 0 (timer_list m) (timers m))
            (\<lambda>(xs, h). Done (0, m\<lparr>timer_list := xs, timers := h\<rparr>)))"

section \<open>The vector is sorted\<close>

definition timers_ok :: "TimerMgr \<Rightarrow> bool" where
  "timers_ok m = (distinct (timer_list m) \<and> set (timer_list m) = dom (timers m)
                  \<and> sorted (map (stamp (timers m)) (timer_list m))
                  \<and> (\<forall>p \<in> dom (timers m). p < next_timer m)
                  \<and> (\<forall>p t. timers m p = Some t \<longrightarrow> 0 < time_step t))"

lemma set_list_insert [simp]: "set (list_insert i x xs) = insert x (set xs)"
proof -
  have "set xs = set (take i xs) \<union> set (drop i xs)"
    by (metis append_take_drop_id set_append)
  then show ?thesis
    by (auto simp: list_insert_def)
qed

lemma mset_list_insert [simp]: "mset (list_insert i x xs) = add_mset x (mset xs)"
proof -
  have "mset xs = mset (take i xs) + mset (drop i xs)"
    by (metis append_take_drop_id mset_append)
  then show ?thesis
    by (simp add: list_insert_def)
qed

lemma distinct_list_insert [simp]: "distinct (list_insert i x xs) \<longleftrightarrow> x \<notin> set xs \<and> distinct xs"
proof -
  have "distinct (list_insert i x xs) \<longleftrightarrow> distinct (x # xs)"
    by (intro mset_eq_imp_distinct_iff) simp
  then show ?thesis
    by simp
qed

lemma sorted_list_insert:
  assumes "sorted (map f xs)"
  shows "sorted (map f (list_insert (length (takeWhile (\<lambda>y. f y \<le> f x) xs)) x xs))"
proof -
  let ?P = "\<lambda>y. f y \<le> f x"
  have split: "list_insert (length (takeWhile ?P xs)) x xs = takeWhile ?P xs @ x # dropWhile ?P xs"
    by (simp add: list_insert_def takeWhile_eq_take [symmetric] dropWhile_eq_drop [symmetric])
  have "sorted (map f (takeWhile ?P xs @ dropWhile ?P xs))"
    using assms by simp
  then have s: "sorted (map f (takeWhile ?P xs))" "sorted (map f (dropWhile ?P xs))"
    "\<forall>a \<in> set (takeWhile ?P xs). \<forall>b \<in> set (dropWhile ?P xs). f a \<le> f b"
    by (simp_all only: map_append sorted_append) auto
  have "\<forall>b \<in> set (dropWhile ?P xs). f x \<le> f b"
  proof
    fix b
    assume b: "b \<in> set (dropWhile ?P xs)"
    then obtain c cs where c: "dropWhile ?P xs = c # cs"
      by (cases "dropWhile ?P xs") auto
    then have "\<not> ?P c"
      using hd_dropWhile [of ?P xs] by simp
    moreover have "f c \<le> f b"
      using s(2) b c by auto
    ultimately show "f x \<le> f b"
      by simp
  qed
  with s show ?thesis
    by (auto simp: split sorted_append dest: set_takeWhileD)
qed

lemma upper_bound_stamp:
  assumes "\<forall>q \<in> set xs. h q \<noteq> None" and "h p = Some t"
  shows "upper_bound h xs t = length (takeWhile (\<lambda>q. stamp h q \<le> stamp h p) xs)"
proof -
  have "takeWhile (\<lambda>q. case h q of Some t' \<Rightarrow> \<not> timer_cmp_func t t' | None \<Rightarrow> True) xs
        = takeWhile (\<lambda>q. stamp h q \<le> stamp h p) xs"
    using assms by (intro takeWhile_cong) (auto simp: stamp_def timer_cmp_func_def split: option.splits)
  then show ?thesis
    by (simp add: upper_bound_def)
qed

lemma sorted_map_cong: "\<forall>x \<in> set xs. f x = g x \<Longrightarrow> sorted (map f xs) = sorted (map g xs)"
  by (metis map_cong)

lemma AddTimer_ok:
  assumes "timers_ok m" and "AddTimer ok now gap i m = (r, m')"
  shows "timers_ok m'"
proof (cases "gap = 0 \<or> max_timer_num m \<le> length (timer_list m) \<or> \<not> ok")
  case True
  then have "AddTimer ok now gap i m = (None, m)"
    by (auto simp: AddTimer_def)
  with assms show ?thesis
    by simp
next
  case False
  let ?p = "next_timer m"
  let ?t = "\<lparr>next_active_timestamp = now + int gap, time_step = gap, timer_id = i\<rparr>"
  let ?h = "(timers m)(?p \<mapsto> ?t)"
  have fresh: "?p \<notin> set (timer_list m)" "?p \<notin> dom (timers m)"
    using assms(1) by (auto simp: timers_ok_def)
  have "m' = m\<lparr>timers := ?h, next_timer := ?p + 1,
                timer_list := list_insert (upper_bound ?h (timer_list m) ?t) ?p (timer_list m)\<rparr>"
    using assms(2) False
    by (auto simp: AddTimer_def Let_def EasyTimer_Init_def EasyTimer_Start_def EasyTimer_new_def)
  moreover have "sorted (map (stamp ?h) (timer_list m))"
    using assms(1) fresh sorted_map_cong [of "timer_list m" "stamp ?h" "stamp (timers m)"]
    by (auto simp: timers_ok_def stamp_def)
  moreover have "upper_bound ?h (timer_list m) ?t
      = length (takeWhile (\<lambda>q. stamp ?h q \<le> stamp ?h ?p) (timer_list m))"
    using assms(1) by (intro upper_bound_stamp) (auto simp: timers_ok_def)
  ultimately show ?thesis
    using assms(1) fresh False sorted_list_insert [of "stamp ?h" "timer_list m" ?p]
    by (auto simp: timers_ok_def less_Suc_eq)
qed

lemma GetNextActiveTimer_ok:
  assumes "timers_ok m" and "timer_list m = p # rest"
  shows "\<exists>t m'. timers m p = Some t \<and> GetNextActiveTimer m = Done (Some p, m') \<and> timers_ok m'
           \<and> mset (timer_list m') = mset (timer_list m)
           \<and> timers m' = (timers m)(p \<mapsto> Step t)"
proof -
  have "p \<in> dom (timers m)"
    using assms unfolding timers_ok_def by (metis list.set_intros(1))
  then obtain t where t: "timers m p = Some t"
    by blast
  let ?h = "(timers m)(p \<mapsto> Step t)"
  let ?m = "m\<lparr>timers := ?h, timer_list := list_insert (upper_bound ?h rest (Step t)) p rest\<rparr>"
  have p: "p \<notin> set rest"
    using assms by (simp add: timers_ok_def)
  have "sorted (map (stamp ?h) rest)"
    using assms p sorted_map_cong [of rest "stamp ?h" "stamp (timers m)"]
    by (auto simp: timers_ok_def stamp_def)
  moreover have "upper_bound ?h rest (Step t) = length (takeWhile (\<lambda>q. stamp ?h q \<le> stamp ?h p) rest)"
    using assms by (intro upper_bound_stamp) (auto simp: timers_ok_def)
  ultimately have "timers_ok ?m"
    using assms t p sorted_list_insert [of "stamp ?h" rest p]
    by (auto simp: timers_ok_def Step_def)
  then show ?thesis
    using assms(2) t by (auto simp: GetNextActiveTimer_def Let_def)
qed

lemma GetNextActiveTimer_first:
  assumes "timers_ok m" and "timer_list m = p # rest" and "q \<in> set (timer_list m)"
  shows "stamp (timers m) p \<le> stamp (timers m) q"
  using assms by (auto simp: timers_ok_def)

section \<open>Removing\<close>

lemma remove_loop_past:
  "p \<notin> set (drop i xs) \<Longrightarrow> i \<le> length xs \<Longrightarrow> remove_loop p i xs h = Done (xs, h)"
proof (induction p i xs h rule: remove_loop.induct)
  case (1 p i xs h)
  show ?case
  proof (cases "i = length xs")
    case True
    then show ?thesis by (simp add: remove_loop.simps)
  next
    case False
    with 1(4) have i: "i < length xs" by simp
    then have d: "drop i xs = xs ! i # drop (i + 1) xs"
      by (simp add: Cons_nth_drop_Suc)
    with 1(3) have "xs ! i \<noteq> p" "p \<notin> set (drop (i + 1) xs)"
      by auto
    with 1(2) i show ?thesis
      by (subst remove_loop.simps) simp
  qed
qed

lemma remove_loop_find:
  assumes "p \<notin> set xs" and "i \<le> length xs"
  shows "remove_loop p i (xs @ p # ys) h = remove_loop p (length xs) (xs @ p # ys) h"
  using assms(2)
proof (induction "length xs - i" arbitrary: i)
  case 0
  then show ?case by simp
next
  case (Suc d)
  then have i: "i < length xs" by simp
  then have "(xs @ p # ys) ! i \<noteq> p"
    using assms(1) by (auto simp: nth_append)
  then have "remove_loop p i (xs @ p # ys) h = remove_loop p (i + 1) (xs @ p # ys) h"
    using i by (subst remove_loop.simps) simp
  with Suc i show ?case by simp
qed

lemma remove_loop_result:
  assumes "distinct (xs @ p # ys)" and "h p \<noteq> None"
  shows "remove_loop p 0 (xs @ p # ys) h =
           (if ys = [] then Crash OutOfBounds else Done (xs @ ys, h(p := None)))"
proof -
  have "remove_loop p (length xs) (xs @ p # ys) h
      = remove_loop p (length xs + 1) (xs @ ys) (h(p := None))"
    using assms(2) by (subst remove_loop.simps) auto
  then have "remove_loop p 0 (xs @ p # ys) h = remove_loop p (length xs + 1) (xs @ ys) (h(p := None))"
    using remove_loop_find [of p xs 0 ys h] assms(1) by simp
  also have "\<dots> = (if ys = [] then Crash OutOfBounds else Done (xs @ ys, h(p := None)))"
  proof (cases ys)
    case Nil
    then show ?thesis by (simp add: remove_loop.simps)
  next
    case (Cons y zs)
    then have "p \<notin> set (drop (length xs + 1) (xs @ ys))" "length xs + 1 \<le> length (xs @ ys)"
      using assms(1) by auto
    from remove_loop_past [OF this] Cons show ?thesis by simp
  qed
  finally show ?thesis .
qed

lemma RemoveTimer_split:
  assumes "timers_ok m" and "timer_list m = xs @ p # ys"
  shows "RemoveTimer (Some p) m =
           (if ys = [] then Crash OutOfBounds
            else Done (0, m\<lparr>timer_list := xs @ ys, timers := (timers m)(p := None)\<rparr>))"
proof -
  have "distinct (xs @ p # ys)"
    using assms by (simp add: timers_ok_def)
  moreover have "p \<in> dom (timers m)"
    using assms unfolding timers_ok_def by (metis in_set_conv_decomp)
  ultimately show ?thesis
    using assms(2) remove_loop_result [of xs p ys "timers m"] by (auto simp: RemoveTimer_def)
qed

lemma RemoveTimer_ok:
  assumes "timers_ok m" and "RemoveTimer (Some p) m = Done (r, m')"
  shows "timers_ok m'"
proof (cases "p \<in> set (timer_list m)")
  case False
  then have "RemoveTimer (Some p) m = Done (0, m)"
    using remove_loop_past [of p 0 "timer_list m" "timers m"] by (simp add: RemoveTimer_def)
  with assms show ?thesis by simp
next
  case True
  then obtain xs ys where s: "timer_list m = xs @ p # ys"
    by (meson split_list)
  then have m': "m' = m\<lparr>timer_list := xs @ ys, timers := (timers m)(p := None)\<rparr>"
    using RemoveTimer_split [OF assms(1)] assms(2) by (auto split: if_splits)
  have p: "p \<notin> set (xs @ ys)"
    using assms(1) s by (auto simp: timers_ok_def)
  have "sorted (map (stamp (timers m)) (xs @ ys))"
    using assms(1) s by (auto simp: timers_ok_def sorted_append)
  then have "sorted (map (stamp ((timers m)(p := None))) (xs @ ys))"
    using p sorted_map_cong [of "xs @ ys" "stamp ((timers m)(p := None))" "stamp (timers m)"]
    by (auto simp: stamp_def)
  moreover have "set (xs @ ys) = dom ((timers m)(p := None))"
    using assms(1) s p by (auto simp: timers_ok_def)
  ultimately show ?thesis
    using assms(1) s by (auto simp: m' timers_ok_def)
qed

section \<open>Runs and properties\<close>

datatype timer_op = TAdd bool int nat int | TNext | TRemove ptr

definition timer_exec :: "timer_op \<Rightarrow> TimerMgr \<Rightarrow> TimerMgr exec" where
  "timer_exec op m =
     (case op of
        TAdd ok now gap i \<Rightarrow> Done (snd (AddTimer ok now gap i m))
      | TNext \<Rightarrow> bindE (GetNextActiveTimer m) (\<lambda>(r, m'). Done m')
      | TRemove p \<Rightarrow> bindE (RemoveTimer (Some p) m) (\<lambda>(r, m'). Done m'))"

fun timer_run :: "timer_op list \<Rightarrow> TimerMgr \<Rightarrow> TimerMgr exec" where
  "timer_run [] m = Done m"
| "timer_run (op # ops) m = bindE (timer_exec op m) (timer_run ops)"

lemma timer_exec_ok: "timers_ok m \<Longrightarrow> timer_exec op m = Done m' \<Longrightarrow> timers_ok m'"
proof (cases op)
  case (TAdd ok now gap i)
  assume "timers_ok m" "timer_exec op m = Done m'"
  with TAdd AddTimer_ok [of m ok now gap i "fst (AddTimer ok now gap i m)"] show ?thesis
    by (auto simp: timer_exec_def)
next
  case TNext
  assume a: "timers_ok m" "timer_exec op m = Done m'"
  show ?thesis
  proof (cases "timer_list m")
    case Nil
    with a TNext show ?thesis by (simp add: timer_exec_def GetNextActiveTimer_def)
  next
    case (Cons p rest)
    from GetNextActiveTimer_ok [OF a(1) Cons] a TNext show ?thesis
      by (auto simp: timer_exec_def)
  qed
next
  case (TRemove p)
  assume "timers_ok m" "timer_exec op m = Done m'"
  with TRemove show ?thesis
    by (auto simp: timer_exec_def bindE_eq_Done intro: RemoveTimer_ok)
qed

lemma timer_run_ok: "timers_ok m \<Longrightarrow> timer_run ops m = Done m' \<Longrightarrow> timers_ok m'"
  by (induction ops arbitrary: m) (auto simp: bindE_eq_Done dest: timer_exec_ok)

lemma TimerMgr_new_ok: "timers_ok TimerMgr_new"
  by (simp add: timers_ok_def TimerMgr_new_def)



text \<open>\<open>GetNextActiveTimer\<close> takes the timer with the earliest activation, moves its
  activation one step ahead and puts it back; it never compares the activation with the current
  time, and with a timer in the vector it never answers NULL.\<close>

theorem GetNextActiveTimer_earliest:
  assumes "timers_ok m" and "timer_list m = p # rest"
  shows "\<exists>t m'. timers m p = Some t \<and> GetNextActiveTimer m = Done (Some p, m')
           \<and> (\<forall>q. stamp (timers m) q < stamp (timers m) p \<longrightarrow> q \<notin> set (timer_list m))
           \<and> timers m' = (timers m)(p \<mapsto> Step t) \<and> mset (timer_list m') = mset (timer_list m)
           \<and> sorted (map (stamp (timers m')) (timer_list m'))"
  using GetNextActiveTimer_ok [OF assms] GetNextActiveTimer_first [OF assms]
  by (fastforce simp: timers_ok_def)

definition two_timers :: TimerMgr where
  "two_timers =
     \<lparr>max_timer_num = 8, timer_list = [2, 1],
      timers = [1 \<mapsto> \<lparr>next_active_timestamp = 105, time_step = 5, timer_id = 1\<rparr>,
                2 \<mapsto> \<lparr>next_active_timestamp = 102, time_step = 4, timer_id = 2\<rparr>],
      next_timer = 3\<rparr>"

lemma two_timers_ok: "timers_ok two_timers"
  by (auto simp: timers_ok_def two_timers_def stamp_def)

theorem GetNextActiveTimer_earliest_witness:
  "\<exists>m'. GetNextActiveTimer two_timers = Done (Some 2, m') \<and> mset (timer_list m') = {#1, 2#}"
proof -
  have "timer_list two_timers = 2 # [1]"
    by (simp add: two_timers_def)
  from GetNextActiveTimer_earliest [OF two_timers_ok this] show ?thesis
    by (auto simp: two_timers_def add_mset_commute)
qed

text \<open>\<open>RemoveTimer\<close> removes a timer that is not the last of the vector; for the last
  one, the loop increments the iterator past the end that the erasure has moved, misses it and
  reads outside the vector.\<close>

theorem RemoveTimer_last:
  assumes "timers_ok m" and "timer_list m = xs @ p # ys"
  shows "RemoveTimer (Some p) m =
           (if ys = [] then Crash OutOfBounds
            else Done (0, m\<lparr>timer_list := xs @ ys, timers := (timers m)(p := None)\<rparr>))"
  by (rule RemoveTimer_split [OF assms])

theorem RemoveTimer_last_witness: "RemoveTimer (Some 1) two_timers = Crash OutOfBounds"
  using RemoveTimer_last [OF two_timers_ok, of "[2]" 1 "[]"] by (simp add: two_timers_def)

end
