(* ===== verification/CtrlCmd.thy ===== *)
theory CtrlCmd
  imports Prelude
begin

unbundle bit_operations_syntax

text \<open>
  The control channel: \<open>framework/rapidapp_ctrl_cmd_keyword.*\<close> (hash, dispatcher, the help
  command), and from \<open>framework/rapidapp_framework_imp.cpp\<close> the split of a command line into
  arguments (\<open>libevent_get_arguments\<close>), the static buffer commands are read into and the
  port of the control socket. The buffer is a list of characters, NUL included; a pointer into it
  is an index, and an access outside it is a crash.
\<close>

section \<open>Hash and dispatcher\<close>

text \<open>A \<open>char\<close> is signed: it is extended to \<open>unsigned int\<close> with its sign.\<close>

definition char_uint :: "char \<Rightarrow> 32 word" where
  "char_uint c = scast (word_of_nat (of_char c) :: byte)"

definition BKDRHash :: "string option \<Rightarrow> int" where
  "BKDRHash str =
     (case str of
        None \<Rightarrow> -1
      | Some s \<Rightarrow> uint (foldl (\<lambda>hash c. hash * 13131313 + char_uint c) (0 :: 32 word) s AND 0x7FFFFFFF))"

record command_listener =
  cmd_name :: string
  on_command :: "string list \<Rightarrow> string list"

type_synonym dispatcher = "string \<rightharpoonup> command_listener"

definition AddSupportedCommand :: "command_listener option \<Rightarrow> dispatcher \<Rightarrow> dispatcher" where
  "AddSupportedCommand l d = (case l of None \<Rightarrow> d | Some x \<Rightarrow> d(cmd_name x \<mapsto> x))"

definition help_command :: command_listener where
  "help_command = \<lparr>cmd_name = ''help'',
     on_command = (\<lambda>_. [''{getrundata: \"get runtime statistic data\"}''])\<rparr>"

definition AddDefaultSupportedCommand :: "dispatcher \<Rightarrow> dispatcher" where
  "AddDefaultSupportedCommand = AddSupportedCommand (Some help_command)"

text \<open>\<open>Dispatch\<close>; \<open>argv\<close> has \<open>argc\<close> entries. The listener's output is dropped.\<close>

definition Dispatch :: "string list \<Rightarrow> dispatcher \<Rightarrow> int" where
  "Dispatch argv d = (case argv of [] \<Rightarrow> -1 | a # _ \<Rightarrow> (case d a of None \<Rightarrow> -1 | Some l \<Rightarrow> 0))"

section \<open>Arguments of a command\<close>

abbreviation (input) MAX_CTRL_MSG_LEN :: nat where "MAX_CTRL_MSG_LEN \<equiv> 2048"
abbreviation (input) MAX_ARGUMENTS_NUM :: nat where "MAX_ARGUMENTS_NUM \<equiv> 32"
abbreviation (input) NUL :: char where "NUL \<equiv> CHR 0x00"

text \<open>The C string at an index.\<close>

definition cstr :: "string \<Rightarrow> nat \<Rightarrow> string exec" where
  "cstr mem i = (if i < length mem \<and> NUL \<in> set (drop i mem)
                 then Done (takeWhile (\<lambda>c. c \<noteq> NUL) (drop i mem)) else Crash OutOfBounds)"

text \<open>
  \<open>strtok_r(s, delim, &ptr)\<close> with a non-NULL \<open>s\<close>: the start of the token, if any, the
  saved pointer and the buffer.
\<close>

definition strtok_r :: "string \<Rightarrow> string \<Rightarrow> nat \<Rightarrow> (nat option \<times> nat \<times> string) exec" where
  "strtok_r delim mem i =
     bindE (cstr mem i) (\<lambda>s.
       let start = i + length (takeWhile (\<lambda>c. c \<in> set delim) s);
           t = takeWhile (\<lambda>c. c \<notin> set delim) (drop (start - i) s);
           e = start + length t
       in if t = [] then Done (None, start, mem)
          else if mem ! e = NUL then Done (Some start, e, mem)
          else Done (Some start, e + 1, mem[e := NUL]))"

text \<open>
  \<open>libevent_get_arguments\<close>. The delimiter argument is the address of a single character, so
  the set of delimiters is the blank and what follows it in memory up to a NUL: the argument
  \<open>delim\<close>. The result is the indices stored in \<open>argv\<close> and the buffer.
\<close>

fun get_arguments_loop ::
    "string \<Rightarrow> nat \<Rightarrow> string \<Rightarrow> nat \<Rightarrow> nat list \<Rightarrow> (nat list \<times> string) exec" where
  "get_arguments_loop delim left mem start argv =
     bindE (strtok_r delim mem start) (\<lambda>(tok, ptr, mem1).
       if tok = None then Done (argv, mem1)
       else
         (case left of
            0 \<Rightarrow> Done (argv, mem1)
          | Suc n \<Rightarrow>
              if ptr < length mem1
              then get_arguments_loop delim n (mem1[ptr := NUL]) (ptr + 1) (argv @ [start])
              else Crash OutOfBounds))"

declare get_arguments_loop.simps [simp del]

definition libevent_get_arguments :: "string \<Rightarrow> string \<Rightarrow> (nat list \<times> string) exec" where
  "libevent_get_arguments delim mem = get_arguments_loop delim MAX_ARGUMENTS_NUM mem 0 []"

fun read_args :: "string \<Rightarrow> nat list \<Rightarrow> string list exec" where
  "read_args mem [] = Done []"
| "read_args mem (i # is) = bindE (cstr mem i) (\<lambda>s. bindE (read_args mem is) (\<lambda>ss. Done (s # ss)))"

text \<open>\<open>bufferevent_read\<close> into the static buffer, then the last byte is cleared.\<close>

definition read_ctrl :: "string \<Rightarrow> string \<Rightarrow> string" where
  "read_ctrl ctrl_msg input =
     (let n = min (length input) MAX_CTRL_MSG_LEN
      in (take n input @ drop n ctrl_msg)[MAX_CTRL_MSG_LEN - 1 := NUL])"

text \<open>\<open>SetCtrlSockFile\<close>: the UDP port of the control socket.\<close>

definition ctrl_port :: "string \<Rightarrow> int" where
  "ctrl_port file_name = 19090 + BKDRHash (Some file_name) mod 1024"

section \<open>Facts\<close>

lemma BKDRHash_range: "0 \<le> BKDRHash (Some s) \<and> BKDRHash (Some s) < 2147483648"
proof -
  have "uint (w AND 0x7FFFFFFF) < 2147483648" for w :: "32 word"
  proof -
    have "w AND 0x7FFFFFFF = take_bit 31 w"
      by (simp add: take_bit_eq_mask mask_eq_exp_minus_1)
    then have "uint (w AND 0x7FFFFFFF) = take_bit 31 (uint w)"
      by (simp add: unsigned_take_bit_eq)
    then show ?thesis
      using take_bit_int_less_exp [of 31 "uint w"] by simp
  qed
  then show ?thesis
    by (simp add: BKDRHash_def)
qed

lemma cstr_word:
  assumes "NUL \<notin> set w"
  shows "cstr (pre @ w @ NUL # post) (length pre) = Done w"
proof -
  have "takeWhile (\<lambda>c. c \<noteq> NUL) (w @ NUL # post) = w"
    using assms by (intro takeWhile_stop) auto
  then show ?thesis
    by (simp add: cstr_def)
qed

lemma strtok_r_word:
  assumes "NUL \<notin> set w" and "w \<noteq> []" and "set w \<inter> set delim = {}"
  shows "strtok_r delim (pre @ w @ NUL # post) (length pre)
           = Done (Some (length pre), length pre + length w, pre @ w @ NUL # post)"
proof -
  have a: "takeWhile (\<lambda>c. c \<in> set delim) w = []"
    using assms(2,3) by (cases w) auto
  have b: "takeWhile (\<lambda>c. c \<notin> set delim) w = w"
    using assms(3) by (intro takeWhile_self) auto
  show ?thesis
    unfolding strtok_r_def cstr_word [OF assms(1)] bindE_Done a Let_def list.size(3) add_0_right
      diff_self_eq_0 drop_0 b
    using assms(2) by (simp add: nth_append)
qed

lemma strtok_r_words:
  assumes "NUL \<notin> set w" and "w \<noteq> []" and "set w \<inter> set delim = {}"
    and "c \<in> set delim" and "c \<noteq> NUL" and "NUL \<in> set post"
  shows "strtok_r delim (pre @ w @ c # post) (length pre)
           = Done (Some (length pre), length pre + length w + 1, pre @ w @ NUL # post)"
proof -
  have a: "takeWhile (\<lambda>c. c \<in> set delim) (w @ x) = []" for x
    using assms(2,3) by (cases w) auto
  have b: "takeWhile (\<lambda>c. c \<notin> set delim) (w @ c # x) = w" for x
    using assms(3,4) by (intro takeWhile_stop) auto
  have "takeWhile (\<lambda>c. c \<noteq> NUL) (w @ c # post) = w @ c # takeWhile (\<lambda>c. c \<noteq> NUL) post"
  proof -
    have "\<forall>x \<in> set w. x \<noteq> NUL"
      using assms(1) by auto
    from takeWhile_through [OF this, of "c # post"] assms(5) show ?thesis
      by simp
  qed
  then have d: "cstr (pre @ w @ c # post) (length pre) = Done (w @ c # takeWhile (\<lambda>c. c \<noteq> NUL) post)"
    using assms(6) by (simp add: cstr_def)
  show ?thesis
    unfolding strtok_r_def d bindE_Done Let_def
    using assms(2,5) a b by (simp add: nth_append list_update_append)
qed

lemma strtok_r_end:
  "i < length mem \<Longrightarrow> mem ! i = NUL \<Longrightarrow> strtok_r delim mem i = Done (None, i, mem)"
proof -
  assume i: "i < length mem" "mem ! i = NUL"
  then have "drop i mem = NUL # drop (i + 1) mem"
    by (metis Cons_nth_drop_Suc Suc_eq_plus1)
  with i show ?thesis
    by (simp add: strtok_r_def cstr_def)
qed

lemma args_step:
  "strtok_r delim mem start = Done (Some t, ptr, mem1) \<Longrightarrow> ptr < length mem1 \<Longrightarrow> 0 < left \<Longrightarrow>
   get_arguments_loop delim left mem start argv
     = get_arguments_loop delim (left - 1) (mem1[ptr := NUL]) (ptr + 1) (argv @ [start])"
  by (cases left) (simp_all add: get_arguments_loop.simps)

lemma args_stop:
  "strtok_r delim mem start = Done (None, ptr, mem1) \<Longrightarrow>
   get_arguments_loop delim left mem start argv = Done (argv, mem1)"
  by (simp add: get_arguments_loop.simps)

text \<open>A command of two words in a cleared buffer.\<close>

lemma get_arguments_two:
  assumes "set w1 \<inter> set delim = {}" and "NUL \<notin> set w1" and "w1 \<noteq> []"
    and "set (a # w2) \<inter> set delim = {}" and "NUL \<notin> set (a # w2)" and "w2 \<noteq> []"
    and "CHR '' '' \<in> set delim"
  shows "libevent_get_arguments delim (w1 @ CHR '' '' # (a # w2) @ NUL # NUL # z)
           = Done ([0, length w1 + 2], w1 @ NUL # NUL # w2 @ NUL # NUL # z)"
proof -
  let ?m = "(w1 @ [NUL, NUL]) @ w2 @ NUL # NUL # z"
  have 1: "strtok_r delim (w1 @ CHR '' '' # (a # w2) @ NUL # NUL # z) 0
      = Done (Some 0, length w1 + 1, w1 @ NUL # (a # w2) @ NUL # NUL # z)"
    using strtok_r_words [OF assms(2,3,1,7), of "(a # w2) @ NUL # NUL # z" "[]"] by simp
  have 2: "(w1 @ NUL # (a # w2) @ NUL # NUL # z)[length w1 + 1 := NUL] = ?m"
    by (simp add: list_update_append)
  have 3: "strtok_r delim ?m (length w1 + 2) = Done (Some (length w1 + 2), length w1 + 2 + length w2, ?m)"
    using strtok_r_word [of w2 delim "w1 @ [NUL, NUL]" "NUL # z"] assms(4-6) by simp
  have 4: "?m[length w1 + 2 + length w2 := NUL] = ?m"
    by (simp add: list_update_append)
  have 5: "strtok_r delim ?m (length w1 + 2 + length w2 + 1) = Done (None, length w1 + 2 + length w2 + 1, ?m)"
    by (rule strtok_r_end) (simp_all add: nth_append)
  have "libevent_get_arguments delim (w1 @ CHR '' '' # (a # w2) @ NUL # NUL # z)
      = get_arguments_loop delim 31 ?m (length w1 + 2) [0]"
    unfolding libevent_get_arguments_def using args_step [OF 1, of 32 "[]"] 2 by simp
  also have "\<dots> = get_arguments_loop delim 30 ?m (length w1 + 2 + length w2 + 1) [0, length w1 + 2]"
    using args_step [OF 3, of 31 "[0]"] 4 by simp
  also have "\<dots> = Done ([0, length w1 + 2], ?m)"
    by (rule args_stop [OF 5])
  finally show ?thesis
    by simp
qed

lemma read_args_two:
  assumes "NUL \<notin> set w1" and "NUL \<notin> set w2"
  shows "read_args (w1 @ NUL # NUL # w2 @ NUL # z) [0, length w1 + 2] = Done [w1, w2]"
  using cstr_word [OF assms(1), of "[]" "NUL # w2 @ NUL # z"]
    cstr_word [OF assms(2), of "w1 @ [NUL, NUL]" z]
  by simp

section \<open>Properties\<close>

text \<open>The port of the control socket: for every file name it lies in the 1024 ports from
  19090 on, because the hash is never negative.\<close>

theorem ctrl_port_range: "19090 \<le> ctrl_port file_name \<and> ctrl_port file_name < 20114"
  using BKDRHash_range [of file_name] by (simp add: ctrl_port_def)

text \<open>Splitting a two-word command drops the first character of the second word: the saved
  pointer of \<open>strtok_r\<close> already stands behind the delimiter, and the loop clears one more
  character and steps over it. The first word is intact.\<close>

theorem get_arguments_drops_char:
  assumes "set w1 \<inter> set delim = {}" and "NUL \<notin> set w1" and "w1 \<noteq> []"
    and "set (a # w2) \<inter> set delim = {}" and "NUL \<notin> set (a # w2)" and "w2 \<noteq> []"
    and "CHR '' '' \<in> set delim"
  shows "bindE (libevent_get_arguments delim (w1 @ CHR '' '' # (a # w2) @ NUL # NUL # z))
           (\<lambda>(argv, mem). read_args mem argv) = Done [w1, w2]"
  using get_arguments_two [OF assms] read_args_two [of w1 w2 "NUL # z"] assms(2,5) by simp

theorem get_arguments_drops_char_witness:
  "bindE (libevent_get_arguments '' '' (''reload now'' @ [NUL, NUL, NUL]))
     (\<lambda>(argv, mem). read_args mem argv) = Done [''reload'', ''ow'']"
  using get_arguments_drops_char [of "''reload''" "'' ''" "CHR ''n''" "''ow''" "[NUL]"] by simp

end
