(* ===== verification/Framework.thy ===== *)
theory Framework
  imports NetMgr Timer CtrlCmd
begin

text \<open>
  \<open>framework/rapidapp_framework_imp.*\<close>, \<open>framework/rapidapp_core.cpp\<close> and the
  interfaces of \<open>rapidapp_framework.h\<close> and \<open>rapidapp_interface.h\<close>: the state of the
  framework, the calls it offers to an application, its libevent callbacks, the tick, the command
  line. The application is a record of functions on the state (the virtual functions of
  \<open>RapidApp\<close>); \<open>'c\<close> is its connection context and \<open>'a\<close> its own state. What
  libevent, the allocator and the operating system answer is drawn, one answer per call, from the
  lists of \<open>answers\<close>.
\<close>

section \<open>State\<close>

abbreviation (input) MAX_FILE_NAME_LEN :: nat where "MAX_FILE_NAME_LEN \<equiv> 128"

datatype app_mode = APP_START | APP_STOP | APP_RESTART | APP_RELOAD
datatype service_mode = SVC_MODE_NORMAL | SVC_MODE_RPC

record AppSetting =
  fps :: int
  max_idle :: int
  max_pkg_speed :: int
  max_traffic_speed :: int
  listen_uri :: string
  log_file_name :: string
  pid_file_name :: string
  ctrl_sock_file_name :: string
  app_mode :: app_mode

definition AppSetting_zero :: AppSetting where
  "AppSetting_zero =
     \<lparr>fps = 0, max_idle = 0, max_pkg_speed = 0, max_traffic_speed = 0, listen_uri = [],
      log_file_name = [], pid_file_name = [], ctrl_sock_file_name = [], app_mode = APP_START\<rparr>"

text \<open>The answers of the environment, in the order of the calls.\<close>

record answers =
  write_rc :: "int list"
  connect_rc :: "(int \<times> int) option list"
  hash_pos :: "nat list"
  alloc_rc :: "bool list"
  os_api :: os_net

record ('c, 'a) world =
  net_heap :: "'c heap"
  frontend_mgr :: net_mgr
  backend_mgr :: net_mgr
  timer_mgr :: TimerMgr
  app_state :: 'a
  now_time :: int
  setting :: AppSetting
  running :: bool
  reloading :: bool
  schedule_update :: bool
  svc_mode :: service_mode
  ctrl_msg :: string
  ctrl_dispatcher :: dispatcher
  cfg_string :: string
  env :: answers

text \<open>Drawing an answer; an exhausted list answers 0, failure to connect, position 0, success.\<close>

definition draw_write :: "('c, 'a) world \<Rightarrow> int \<times> ('c, 'a) world" where
  "draw_write w = (case write_rc (env w) of
     [] \<Rightarrow> (0, w) | x # xs \<Rightarrow> (x, w\<lparr>env := (env w)\<lparr>write_rc := xs\<rparr>\<rparr>))"

definition draw_connect :: "('c, 'a) world \<Rightarrow> (int \<times> int) option \<times> ('c, 'a) world" where
  "draw_connect w = (case connect_rc (env w) of
     [] \<Rightarrow> (None, w) | x # xs \<Rightarrow> (x, w\<lparr>env := (env w)\<lparr>connect_rc := xs\<rparr>\<rparr>))"

definition draw_pos :: "('c, 'a) world \<Rightarrow> nat \<times> ('c, 'a) world" where
  "draw_pos w = (case hash_pos (env w) of
     [] \<Rightarrow> (0, w) | x # xs \<Rightarrow> (x, w\<lparr>env := (env w)\<lparr>hash_pos := xs\<rparr>\<rparr>))"

definition draw_alloc :: "('c, 'a) world \<Rightarrow> bool \<times> ('c, 'a) world" where
  "draw_alloc w = (case alloc_rc (env w) of
     [] \<Rightarrow> (True, w) | x # xs \<Rightarrow> (x, w\<lparr>env := (env w)\<lparr>alloc_rc := xs\<rparr>\<rparr>))"

text \<open>The virtual functions of \<open>RapidApp\<close>, and a context of zero bytes.\<close>

record ('c, 'a) rapid_app =
  OnInit :: "('c, 'a) world \<Rightarrow> (int \<times> ('c, 'a) world) exec"
  OnFini :: "('c, 'a) world \<Rightarrow> (int \<times> ('c, 'a) world) exec"
  OnUpdate :: "('c, 'a) world \<Rightarrow> ('c, 'a) world exec"
  OnReload :: "('c, 'a) world \<Rightarrow> ('c, 'a) world exec"
  OnRecvCtrl :: "string list \<Rightarrow> ('c, 'a) world \<Rightarrow> (int \<times> ('c, 'a) world) exec"
  OnFrontEndConnect :: "ptr \<Rightarrow> int \<Rightarrow> ('c, 'a) world \<Rightarrow> (int \<times> ('c, 'a) world) exec"
  OnFrontEndClose :: "ptr \<Rightarrow> int \<Rightarrow> ('c, 'a) world \<Rightarrow> (int \<times> ('c, 'a) world) exec"
  OnRecvFrontEnd :: "ptr \<Rightarrow> int \<Rightarrow> view \<Rightarrow> ('c, 'a) world \<Rightarrow> (int \<times> ('c, 'a) world) exec"
  OnRecvBackEnd :: "ptr \<Rightarrow> int \<Rightarrow> view \<Rightarrow> ('c, 'a) world \<Rightarrow> (int \<times> ('c, 'a) world) exec"
  OnTimer :: "ptr \<Rightarrow> int \<Rightarrow> ('c, 'a) world \<Rightarrow> ('c, 'a) world exec"
  GetFrontEndContextSize :: nat
  GetBackEndContextSize :: nat
  zero_context :: 'c

text \<open>The two places where the framework enters the RPC component.\<close>

record ('c, 'a) rpc_hooks =
  OnFrontEndRpcMsg :: "ptr \<Rightarrow> view \<Rightarrow> ('c, 'a) world \<Rightarrow> (int \<times> ('c, 'a) world) exec"
  rpc_IsActive :: "ptr \<Rightarrow> ('c, 'a) world \<Rightarrow> bool"
  rpc_Resume :: "ptr \<Rightarrow> view \<Rightarrow> ('c, 'a) world \<Rightarrow> ('c, 'a) world exec"

text \<open>Access to one connection.\<close>

definition get_net :: "ptr \<Rightarrow> ('c, 'a) world \<Rightarrow> 'c easy_net exec" where
  "get_net p w = deref (nets (net_heap w)) p"

definition set_net :: "ptr \<Rightarrow> 'c easy_net \<Rightarrow> ('c, 'a) world \<Rightarrow> ('c, 'a) world" where
  "set_net p n w = w\<lparr>net_heap := (net_heap w)\<lparr>nets := (nets (net_heap w))(p \<mapsto> n)\<rparr>\<rparr>"

definition modify_net :: "ptr \<Rightarrow> ('c easy_net \<Rightarrow> 'c easy_net) \<Rightarrow> ('c, 'a) world \<Rightarrow> ('c, 'a) world exec" where
  "modify_net p f w = bindE (get_net p w) (\<lambda>n. Done (set_net p (f n) w))"

section \<open>Calls offered to the application\<close>

abbreviation (input) NET_NOT_ESTABLISHED :: int where "NET_NOT_ESTABLISHED \<equiv> -1"
abbreviation (input) NET_CONNECT_FAILED :: int where "NET_CONNECT_FAILED \<equiv> -2"
abbreviation (input) NET_SEND_EXCEPTION :: int where "NET_SEND_EXCEPTION \<equiv> -3"

text \<open>\<open>net->Send\<close>, drawing the results of the two writes where the code performs them.\<close>

definition net_Send :: "ptr \<Rightarrow> byte list option \<Rightarrow> ('c, 'a) world \<Rightarrow> (int \<times> ('c, 'a) world) exec" where
  "net_Send p msg w =
     bindE (get_net p w) (\<lambda>n.
       if msg = None \<or> msg = Some [] \<or> hevent n = None \<or> net_state n \<noteq> NET_ESTABLISHED
       then bindE (EasyNet_Send 0 0 msg n) (\<lambda>(r, n'). Done (r, w))
       else
         (let (w1, wa) = draw_write w;
              (w2, wb) = (if w1 \<noteq> 0 then (0, wa) else draw_write wa)
          in bindE (EasyNet_Send w1 w2 msg n) (\<lambda>(r, n'). Done (r, set_net p n' wb))))"

definition SendToFrontEnd ::
    "ptr option \<Rightarrow> byte list option \<Rightarrow> ('c, 'a) world \<Rightarrow> (int \<times> ('c, 'a) world) exec" where
  "SendToFrontEnd net buf w =
     (case net of
        None \<Rightarrow> Done (-1, w)
      | Some p \<Rightarrow>
          if buf = None \<or> buf = Some [] then Done (-1, w)
          else bindE (net_Send p buf w) (\<lambda>(ret, w1).
                 if ret \<noteq> EASY_NET_OK then Done (-1, w1) else Done (0, w1)))"

definition SendToBackEnd ::
    "ptr option \<Rightarrow> byte list option \<Rightarrow> ('c, 'a) world \<Rightarrow> (int \<times> ('c, 'a) world) exec" where
  "SendToBackEnd net buf w =
     (case net of
        None \<Rightarrow> Done (-1, w)
      | Some p \<Rightarrow>
          if buf = None \<or> buf = Some [] then Done (-1, w)
          else bindE (net_Send p buf w) (\<lambda>(ret, w1).
                 if ret = EASY_NET_ERR_NOT_YET_ESTABLISHED then Done (NET_NOT_ESTABLISHED, w1)
                 else if ret = EASY_NET_ERR_ESTABLISH_FAILED then Done (NET_CONNECT_FAILED, w1)
                 else if ret = EASY_NET_ERR_SEND_ERROR then Done (NET_SEND_EXCEPTION, w1)
                 else bindE (modify_net p (\<lambda>n. n\<lparr>last_active_timestamp := now_time w1\<rparr>) w1)
                        (\<lambda>w2. Done (0, w2))))"

text \<open>The caller's pointer is set to NULL; here the callers drop it.\<close>

definition DestroyFrontEnd :: "ptr option \<Rightarrow> ('c, 'a) world \<Rightarrow> ('c, 'a) world exec" where
  "DestroyFrontEnd net w =
     (case net of
        None \<Rightarrow> Done w
      | Some p \<Rightarrow>
          bindE (RemoveHandler (Some p) (net_heap w) (frontend_mgr w)) (\<lambda>(r, h, m).
            Done (w\<lparr>net_heap := h, frontend_mgr := m\<rparr>)))"

definition DestroyBackEnd :: "ptr option \<Rightarrow> ('c, 'a) world \<Rightarrow> ('c, 'a) world exec" where
  "DestroyBackEnd net w =
     (case net of
        None \<Rightarrow> Done w
      | Some p \<Rightarrow>
          bindE (RemoveHandler (Some p) (net_heap w) (backend_mgr w)) (\<lambda>(r, h, m).
            Done (w\<lparr>net_heap := h, backend_mgr := m\<rparr>)))"

text \<open>
  \<open>CreateBackEnd\<close>: when the context cannot be allocated, the handler is destroyed and set to
  NULL, and the code goes on to \<open>easy_net_handler->set_active_time\<close>.
\<close>

definition CreateBackEnd ::
    "('c, 'a) rapid_app \<Rightarrow> string option \<Rightarrow> int \<Rightarrow> ('c, 'a) world
     \<Rightarrow> (ptr option \<times> ('c, 'a) world) exec" where
  "CreateBackEnd app url type w =
     (let (conn, wa) = draw_connect w; (pos, wb) = draw_pos wa in
      bindE (AddHandlerByUri (os_api (env wb)) conn pos url type (net_heap wb) (backend_mgr wb))
        (\<lambda>(net, h, m).
          let w1 = wb\<lparr>net_heap := h, backend_mgr := m\<rparr> in
          case net of
            None \<Rightarrow> Done (None, w1)
          | Some p \<Rightarrow>
              let uctx_size = GetBackEndContextSize app in
              if 0 < uctx_size then
                (let (ok, w2) = draw_alloc w1 in
                 bindE (get_net p w2) (\<lambda>n.
                   case CreateUserContext ok (zero_context app) uctx_size n of
                     (r, n1) \<Rightarrow>
                       let w3 = set_net p n1 w2 in
                       if r \<noteq> 0 then bindE (DestroyBackEnd (Some p) w3) (\<lambda>w4. Crash NullDeref)
                       else bindE (modify_net p (\<lambda>n. n\<lparr>last_active_timestamp := now_time w3\<rparr>) w3)
                              (\<lambda>w4. Done (Some p, w4))))
              else bindE (modify_net p (\<lambda>n. n\<lparr>last_active_timestamp := now_time w1\<rparr>) w1)
                     (\<lambda>w2. Done (Some p, w2))))"

definition GetFrontEndByAsyncIds :: "32 word \<Rightarrow> 64 word \<Rightarrow> ('c, 'a) world \<Rightarrow> ptr option exec" where
  "GetFrontEndByAsyncIds fd i w = GetHandlerByAsyncIds fd i (net_heap w) (frontend_mgr w)"

definition GetNetIds :: "ptr option \<Rightarrow> ('c, 'a) world \<Rightarrow> (int \<times> 32 word \<times> 64 word) exec" where
  "GetNetIds net w =
     (case net of
        None \<Rightarrow> Done (-1, 0, 0)
      | Some p \<Rightarrow>
          bindE (get_net p w) (\<lambda>n.
            case hevent n of
              None \<Rightarrow> Crash NullDeref
            | Some b \<Rightarrow> Done (0, word_of_int (bev_fd b), scast (nid n))))"

definition GetUserContext :: "ptr option \<Rightarrow> ('c, 'a) world \<Rightarrow> 'c option exec" where
  "GetUserContext net w =
     (case net of None \<Rightarrow> Done None | Some p \<Rightarrow> bindE (get_net p w) (\<lambda>n. Done (user_context n)))"

definition CreateTimer :: "nat \<Rightarrow> int \<Rightarrow> ('c, 'a) world \<Rightarrow> ptr option \<times> ('c, 'a) world" where
  "CreateTimer time i w =
     (let (ok, w1) = draw_alloc w;
          (t, m) = AddTimer ok (now_time w1) time i (timer_mgr w1)
      in (t, w1\<lparr>timer_mgr := m\<rparr>))"

definition DestroyTimer :: "ptr option \<Rightarrow> ('c, 'a) world \<Rightarrow> ('c, 'a) world exec" where
  "DestroyTimer timer w =
     (case timer of
        None \<Rightarrow> Done w
      | Some t \<Rightarrow> bindE (RemoveTimer (Some t) (timer_mgr w)) (\<lambda>(r, m). Done (w\<lparr>timer_mgr := m\<rparr>)))"

definition ScheduleUpdate :: "('c, 'a) world \<Rightarrow> ('c, 'a) world" where
  "ScheduleUpdate w = w\<lparr>schedule_update := True\<rparr>"

definition UnScheduleUpdate :: "('c, 'a) world \<Rightarrow> ('c, 'a) world" where
  "UnScheduleUpdate w = w\<lparr>schedule_update := False\<rparr>"

section \<open>Frontend and backend callbacks\<close>

text \<open>
  \<open>OnFrontEndConnect\<close>; \<open>addr\<close> is the text \<open>ip:port\<close> of the peer, which
  \<open>snprintf\<close> cuts to the room it is given.
\<close>

definition fw_OnFrontEndConnect ::
    "('c, 'a) rapid_app \<Rightarrow> int \<Rightarrow> string \<Rightarrow> ('c, 'a) world \<Rightarrow> (int \<times> ('c, 'a) world) exec" where
  "fw_OnFrontEndConnect app sock addr w =
     (let (ok, wa) = draw_alloc w; (pos, wb) = draw_pos wa in
      bindE (AddHandlerBySocket ok pos sock 0 (net_heap wb) (frontend_mgr wb)) (\<lambda>(net, h, m).
        let w1 = wb\<lparr>net_heap := h, frontend_mgr := m\<rparr> in
        case net of
          None \<Rightarrow> Done (-1, w1)
        | Some p \<Rightarrow>
            bindE (modify_net p (\<lambda>n. n\<lparr>uri := take (MAX_URL_LEN - 2) addr\<rparr>) w1) (\<lambda>w2.
              if MAX_URL_LEN \<le> length addr then Done (-1, w2)
              else
                (let uctx_size = GetFrontEndContextSize app;
                     (ok2, w3) = (if 0 < uctx_size then draw_alloc w2 else (True, w2))
                 in bindE (get_net p w3) (\<lambda>n.
                      case CreateUserContext ok2 (zero_context app) uctx_size n of
                        (r, n1) \<Rightarrow>
                          let w4 = set_net p n1 w3 in
                          if r \<noteq> 0 then
                            bindE (DestroyFrontEnd (Some p) w4) (\<lambda>w5. Done (-1, w5))
                          else
                            bindE (modify_net p (\<lambda>n. n\<lparr>last_active_timestamp := now_time w4\<rparr>) w4) (\<lambda>w5.
                              bindE (OnFrontEndConnect app p 0 w5) (\<lambda>(r2, w6). Done (0, w6))))))))"

text \<open>
  The receive loop of \<open>OnFrontEndMsg\<close> on the copied bytes \<open>b\<close>: the result is the
  return code of an early return (or 0) and the bytes consumed.
\<close>

function front_loop ::
    "('c, 'a) rapid_app \<Rightarrow> ('c, 'a) rpc_hooks \<Rightarrow> ptr \<Rightarrow> byte list \<Rightarrow> nat \<Rightarrow> ('c, 'a) world
     \<Rightarrow> (int \<times> nat \<times> ('c, 'a) world) exec" where
  "front_loop app rpc p b elapsed w =
     (if b = [] \<or> server_len b = 0 \<or> length b < server_len b then Done (0, elapsed, w)
      else if svc_mode w = SVC_MODE_RPC then
        bindE (OnFrontEndRpcMsg rpc p (payload b (server_len b)) w) (\<lambda>(ret, w1).
          if ret < 0 then bindE (DestroyFrontEnd (Some p) w1) (\<lambda>w2. Done (-1, elapsed, w2))
          else bindE (modify_net p (\<lambda>n. n\<lparr>curr_pkg_count := curr_pkg_count n + 1\<rparr>) w1)
                 (front_loop app rpc p (drop (server_len b) b) (elapsed + server_len b)))
      else
        bindE (get_net p w) (\<lambda>n.
          bindE (OnRecvFrontEnd app p (net_type n) (payload b (server_len b)) w) (\<lambda>(ret, w1).
            bindE (modify_net p (\<lambda>n. n\<lparr>curr_pkg_count := curr_pkg_count n + 1\<rparr>) w1)
              (front_loop app rpc p (drop (server_len b) b) (elapsed + server_len b)))))"
  by pat_completeness auto
termination
  by (relation "measure (\<lambda>(app, rpc, p, b, elapsed, w). length b)") auto

declare front_loop.simps [simp del]

text \<open>
  \<open>OnFrontEndMsg(bev)\<close>, for the buffer of the connection at \<open>bevp\<close>: copy at most
  \<open>recv_buffer_.size\<close> bytes, find the handler by descriptor, run the loop, drain what it
  consumed, account for it.
\<close>

definition bev_drain :: "nat \<Rightarrow> 'c easy_net \<Rightarrow> 'c easy_net" where
  "bev_drain k n = n\<lparr>hevent := map_option (\<lambda>b. b\<lparr>bev_in := drop k (bev_in b)\<rparr>) (hevent n)\<rparr>"

definition OnFrontEndMsg ::
    "('c, 'a) rapid_app \<Rightarrow> ('c, 'a) rpc_hooks \<Rightarrow> ptr \<Rightarrow> ('c, 'a) world
     \<Rightarrow> (int \<times> ('c, 'a) world) exec" where
  "OnFrontEndMsg app rpc bevp w =
     bindE (get_net bevp w) (\<lambda>nb.
       case hevent nb of
         None \<Rightarrow> Crash NullDeref
       | Some b \<Rightarrow>
           let msg = take (recv_size (frontend_mgr w)) (bev_in b) in
           case GetHandlerByEvent (Some (bev_fd b)) (frontend_mgr w) of
             None \<Rightarrow> Done (-1, w)
           | Some p \<Rightarrow>
               bindE (front_loop app rpc p msg 0 w) (\<lambda>(r, elapsed, w1).
                 if r < 0 then Done (-1, w1)
                 else
                   bindE (modify_net bevp (bev_drain elapsed) w1) (\<lambda>w2.
                     bindE (modify_net p (\<lambda>n. n\<lparr>curr_traffic_bytes := curr_traffic_bytes n + of_nat elapsed,
                                                last_active_timestamp := now_time w2\<rparr>) w2)
                       (\<lambda>w3. Done (0, w3)))))"

datatype bev_event = BEV_EVENT_ERROR | BEV_EVENT_CONNECTED | BEV_EVENT_TIMEOUT | BEV_EVENT_EOF

definition RemoveFrontByEvent :: "int option \<Rightarrow> ('c, 'a) world \<Rightarrow> ('c, 'a) world exec" where
  "RemoveFrontByEvent fd w =
     bindE (RemoveHandlerByEvent fd (net_heap w) (frontend_mgr w)) (\<lambda>(r, h, m).
       Done (w\<lparr>net_heap := h, frontend_mgr := m\<rparr>))"

text \<open>The frontend socket callback; \<open>fd\<close> is the descriptor of the buffer.\<close>

definition front_close :: "('c, 'a) rapid_app \<Rightarrow> int \<Rightarrow> ('c, 'a) world \<Rightarrow> ('c, 'a) world exec" where
  "front_close app fd w =
     bindE (case GetHandlerByEvent (Some fd) (frontend_mgr w) of
              None \<Rightarrow> Done w
            | Some p \<Rightarrow>
                bindE (get_net p w) (\<lambda>n.
                  bindE (OnFrontEndClose app p (net_type n) w) (\<lambda>(r, w1). Done w1)))
       (RemoveFrontByEvent (Some fd))"

definition OnFrontEndSocketEvent ::
    "('c, 'a) rapid_app \<Rightarrow> int \<Rightarrow> bev_event set \<Rightarrow> ('c, 'a) world \<Rightarrow> (int \<times> ('c, 'a) world) exec" where
  "OnFrontEndSocketEvent app fd events w =
     (if BEV_EVENT_ERROR \<in> events then bindE (front_close app fd w) (\<lambda>w1. Done (0, w1))
      else if BEV_EVENT_TIMEOUT \<in> events then Done (0, w)
      else if BEV_EVENT_EOF \<in> events then bindE (front_close app fd w) (\<lambda>w1. Done (0, w1))
      else Done (0, w))"

function back_loop ::
    "('c, 'a) rapid_app \<Rightarrow> ('c, 'a) rpc_hooks \<Rightarrow> ptr \<Rightarrow> byte list \<Rightarrow> nat \<Rightarrow> ('c, 'a) world
     \<Rightarrow> (nat \<times> ('c, 'a) world) exec" where
  "back_loop app rpc p b elapsed w =
     (if b = [] \<or> server_len b = 0 \<or> length b < server_len b then Done (elapsed, w)
      else
        bindE (get_net p w) (\<lambda>n.
          bindE (case rpc_binded n of
                   Some rp \<Rightarrow>
                     if rpc_IsActive rpc rp w then rpc_Resume rpc rp (payload b (server_len b)) w
                     else bindE (OnRecvBackEnd app p (net_type n) (payload b (server_len b)) w)
                            (\<lambda>(ret, w1). Done w1)
                 | None \<Rightarrow>
                     bindE (OnRecvBackEnd app p (net_type n) (payload b (server_len b)) w)
                       (\<lambda>(ret, w1). Done w1))
            (back_loop app rpc p (drop (server_len b) b) (elapsed + server_len b))))"
  by pat_completeness auto
termination
  by (relation "measure (\<lambda>(app, rpc, p, b, elapsed, w). length b)") auto

declare back_loop.simps [simp del]

definition OnBackEndMsg ::
    "('c, 'a) rapid_app \<Rightarrow> ('c, 'a) rpc_hooks \<Rightarrow> ptr \<Rightarrow> ('c, 'a) world
     \<Rightarrow> (int \<times> ('c, 'a) world) exec" where
  "OnBackEndMsg app rpc bevp w =
     bindE (get_net bevp w) (\<lambda>nb.
       case hevent nb of
         None \<Rightarrow> Crash NullDeref
       | Some b \<Rightarrow>
           let msg = take (recv_size (backend_mgr w)) (bev_in b) in
           case GetHandlerByEvent (Some (bev_fd b)) (backend_mgr w) of
             None \<Rightarrow> Done (-1, w)
           | Some p \<Rightarrow>
               bindE (back_loop app rpc p msg 0 w) (\<lambda>(elapsed, w1).
                 bindE (modify_net bevp (bev_drain elapsed) w1) (\<lambda>w2. Done (0, w2))))"

definition OnBackEndSocketEvent ::
    "int \<Rightarrow> bev_event set \<Rightarrow> ('c, 'a) world \<Rightarrow> (int \<times> ('c, 'a) world) exec" where
  "OnBackEndSocketEvent fd events w =
     (let change = (\<lambda>st. bindE (ChangeNetStateByEvent (Some fd) st (net_heap w) (backend_mgr w))
                            (\<lambda>(r, h). Done (0, w\<lparr>net_heap := h\<rparr>)))
      in if BEV_EVENT_ERROR \<in> events then change NET_FAILED
         else if BEV_EVENT_CONNECTED \<in> events then change NET_ESTABLISHED
         else if BEV_EVENT_TIMEOUT \<in> events then Done (0, w)
         else if BEV_EVENT_EOF \<in> events then change NET_BEEN_CLOSED
         else Done (0, w))"

section \<open>The tick\<close>

text \<open>
  \<open>AppFrameWork::DoSomething\<close>, what the walk asks of each frontend connection. The limits
  are \<open>int\<close>, the counters \<open>uint64_t\<close>.
\<close>

definition DoSomething :: "AppSetting \<Rightarrow> int \<Rightarrow> 'c easy_net \<Rightarrow> int \<times> 'c easy_net" where
  "DoSomething s now n =
     (if 0 < max_idle s \<and> max_idle s < now - last_active_timestamp n then (1, n)
      else if 0 < max_pkg_speed s
              \<and> word_of_int (max_pkg_speed s) < curr_pkg_count n - prev_pkg_count n then (1, n)
      else
        (let n1 = (if 0 < max_pkg_speed s then n\<lparr>prev_pkg_count := 0, curr_pkg_count := 0\<rparr> else n)
         in if 0 < max_traffic_speed s
               \<and> word_of_int (max_traffic_speed s) < curr_traffic_bytes n1 - prev_traffic_bytes n1
            then (1, n1)
            else if 0 < max_traffic_speed s
              then (0, n1\<lparr>prev_traffic_bytes := 0, curr_traffic_bytes := 0\<rparr>)
            else (0, n1)))"

text \<open>
  The \<open>while (true)\<close> over \<open>GetNextActiveTimer\<close>, with fuel: \<open>None\<close> when the
  rounds given do not suffice.
\<close>

fun timer_loop ::
    "nat \<Rightarrow> ('c, 'a) rapid_app \<Rightarrow> ('c, 'a) world \<Rightarrow> ('c, 'a) world exec option" where
  "timer_loop 0 app w = None"
| "timer_loop (Suc k) app w =
     (case GetNextActiveTimer (timer_mgr w) of
        Crash e \<Rightarrow> Some (Crash e)
      | Done (None, m) \<Rightarrow> Some (Done (w\<lparr>timer_mgr := m\<rparr>))
      | Done (Some t, m) \<Rightarrow>
          (case bindE (deref (timers m) t) (\<lambda>tm. OnTimer app t (timer_id tm) (w\<lparr>timer_mgr := m\<rparr>)) of
             Crash e \<Rightarrow> Some (Crash e)
           | Done w1 \<Rightarrow> timer_loop k app w1))"

definition has_limits :: "AppSetting \<Rightarrow> bool" where
  "has_limits s = (0 < max_idle s \<or> 0 < max_pkg_speed s \<or> 0 < max_traffic_speed s)"

definition walk_frontends :: "('c, 'a) world \<Rightarrow> ('c, 'a) world exec" where
  "walk_frontends w =
     (if has_limits (setting w) then
        bindE (WalkThrough (Some (DoSomething (setting w) (now_time w))) (net_heap w) (frontend_mgr w))
          (\<lambda>(h, m). Done (w\<lparr>net_heap := h, frontend_mgr := m\<rparr>))
      else Done w)"

text \<open>The first half of \<open>Tick\<close>; the flag of the result is \<open>event_base_loopbreak\<close>.\<close>

definition tick_prologue ::
    "('c, 'a) rapid_app \<Rightarrow> int \<Rightarrow> ('c, 'a) world \<Rightarrow> (bool \<times> ('c, 'a) world) exec" where
  "tick_prologue app now w =
     (let w0 = w\<lparr>now_time := now\<rparr> in
      bindE (if reloading w0 then bindE (OnReload app w0) (\<lambda>w1. Done (w1\<lparr>reloading := False\<rparr>))
             else Done w0) (\<lambda>w1.
        bindE (if schedule_update w1 then OnUpdate app w1 else Done w1) (\<lambda>w2.
          Done (\<not> running w, w2))))"

definition Tick ::
    "nat \<Rightarrow> ('c, 'a) rapid_app \<Rightarrow> int \<Rightarrow> ('c, 'a) world \<Rightarrow> (bool \<times> ('c, 'a) world) exec option" where
  "Tick fuel app now w =
     (case tick_prologue app now w of
        Crash e \<Rightarrow> Some (Crash e)
      | Done (brk, w1) \<Rightarrow>
          map_option (\<lambda>r. bindE r (\<lambda>w2. bindE (walk_frontends w2) (\<lambda>w3. Done (brk, w3))))
            (timer_loop fuel app w1))"

text \<open>\<open>OnCtrlMsg\<close>; \<open>input\<close> is the datagram, \<open>delim\<close> the delimiters in memory.\<close>

definition OnCtrlMsg ::
    "('c, 'a) rapid_app \<Rightarrow> string \<Rightarrow> string \<Rightarrow> ('c, 'a) world \<Rightarrow> (int \<times> ('c, 'a) world) exec" where
  "OnCtrlMsg app delim input w =
     (if input = [] then Done (-1, w)
      else
        bindE (libevent_get_arguments delim (read_ctrl (ctrl_msg w) input)) (\<lambda>(argv, mem).
          let w1 = w\<lparr>ctrl_msg := mem\<rparr> in
          bindE (read_args mem argv) (\<lambda>args.
            if Dispatch args (ctrl_dispatcher w1) \<noteq> 0
            then bindE (OnRecvCtrl app args w1) (\<lambda>(r, w2). Done (0, w2))
            else Done (0, w1))))"

section \<open>Command line and start\<close>

text \<open>The flags after \<open>ParseCommandLineFlags\<close>, with their defaults.\<close>

record flags =
  FLAGS_uri :: string
  FLAGS_log_file :: string
  FLAGS_fps :: int
  FLAGS_max_idle :: int
  FLAGS_max_pkg_speed :: int
  FLAGS_max_traffic_speed :: int
  FLAGS_pid_file :: string
  FLAGS_ctrl_file :: string
  FLAGS_stop :: bool
  FLAGS_restart :: bool
  FLAGS_reload :: bool

definition default_flags :: flags where
  "default_flags =
     \<lparr>FLAGS_uri = ''tcp://0.0.0.0:80'', FLAGS_log_file = [], FLAGS_fps = 1000, FLAGS_max_idle = -1,
      FLAGS_max_pkg_speed = -1, FLAGS_max_traffic_speed = -1, FLAGS_pid_file = [],
      FLAGS_ctrl_file = [], FLAGS_stop = False, FLAGS_restart = False, FLAGS_reload = False\<rparr>"

definition parse_mode :: "flags \<Rightarrow> app_mode option" where
  "parse_mode f =
     (if FLAGS_stop f then (if FLAGS_restart f \<or> FLAGS_reload f then None else Some APP_STOP)
      else if FLAGS_restart f \<and> FLAGS_reload f then None
      else if FLAGS_restart f then Some APP_RESTART
      else if FLAGS_reload f then Some APP_RELOAD
      else Some APP_START)"

text \<open>A file name given by a flag, or made from the program name and a suffix; the length test of
  the second case counts the suffix with its NUL.\<close>

definition parse_file :: "string \<Rightarrow> string \<Rightarrow> string \<Rightarrow> string option" where
  "parse_file flag argv0 suffix =
     (if flag \<noteq> [] then (if MAX_FILE_NAME_LEN \<le> length flag then None else Some flag)
      else if MAX_FILE_NAME_LEN \<le> length argv0 + (length suffix + 1) then None
      else Some (argv0 @ suffix))"

definition ParseCmdLine :: "flags \<Rightarrow> string \<Rightarrow> AppSetting \<Rightarrow> int \<times> AppSetting" where
  "ParseCmdLine f argv0 s =
     (case parse_mode f of
        None \<Rightarrow> (-1, s)
      | Some md \<Rightarrow>
          let s1 = s\<lparr>app_mode := md\<rparr> in
          if MAX_URL_LEN \<le> length (FLAGS_uri f) then (-1, s1)
          else
            let s2 = s1\<lparr>listen_uri := FLAGS_uri f\<rparr> in
            if MAX_FILE_NAME_LEN \<le> length (FLAGS_log_file f) then (-1, s2)
            else
              let s3 = s2\<lparr>log_file_name := FLAGS_log_file f\<rparr> in
              case parse_file (FLAGS_pid_file f) argv0 ''.pid'' of
                None \<Rightarrow> (-1, s3)
              | Some pid \<Rightarrow>
                  let s4 = s3\<lparr>pid_file_name := pid\<rparr> in
                  case parse_file (FLAGS_ctrl_file f) argv0 ''.sock'' of
                    None \<Rightarrow> (-1, s4)
                  | Some ctrl \<Rightarrow>
                      let s5 = s4\<lparr>ctrl_sock_file_name := ctrl\<rparr> in
                      if FLAGS_fps f < 1 then (-1, s5)
                      else (0, s5\<lparr>fps := FLAGS_fps f, max_idle := FLAGS_max_idle f,
                                  max_pkg_speed := FLAGS_max_pkg_speed f,
                                  max_traffic_speed := FLAGS_max_traffic_speed f\<rparr>))"

text \<open>
  What \<open>Init\<close> does with the mode: the signal sent to the running process, if any, and the
  exit code when the process stops there. \<open>pid\<close> is \<open>GetRunningPid()\<close>: -1 failed,
  0 none running.
\<close>

datatype signal = SIGHUP | SIGINT | SIGQUIT | SIGPIPE | SIGTERM | SIGCHLD | SIGUSR1 | SIGUSR2

definition Init_mode :: "app_mode \<Rightarrow> int \<Rightarrow> (int \<times> signal) option \<times> int option" where
  "Init_mode md pid =
     (case md of
        APP_STOP \<Rightarrow>
          if pid = -1 then (None, Some (-1))
          else (if pid \<noteq> 0 then Some (pid, SIGUSR1) else None, Some 0)
      | APP_RESTART \<Rightarrow>
          if pid = -1 then (None, Some (-1))
          else (if pid \<noteq> 0 then Some (pid, SIGUSR1) else None, None)
      | APP_RELOAD \<Rightarrow>
          if pid = -1 then (None, Some (-1))
          else (if pid \<noteq> 0 then Some (pid, SIGUSR2) else None, Some 0)
      | APP_START \<Rightarrow> (None, None))"

text \<open>\<open>SetResourceLimit\<close>: \<open>cur\<close> is what \<open>getrlimit\<close> answers, if it does.
  The second component is the limit passed to \<open>setrlimit\<close>.\<close>

definition SetResourceLimit :: "int \<Rightarrow> int option \<Rightarrow> bool \<Rightarrow> int \<times> int option" where
  "SetResourceLimit fd_limit cur set_ok =
     (if fd_limit \<le> 0 then (-1, None)
      else
        (case cur of
           None \<Rightarrow> (-1, None)
         | Some c \<Rightarrow>
             if c < fd_limit then (if set_ok then 0 else -1, Some fd_limit) else (0, None)))"

text \<open>\<open>SetFpsTimer\<close>: the \<open>timeval\<close> of the frame timer.\<close>

definition fps_timeval :: "AppSetting \<Rightarrow> int \<times> int" where
  "fps_timeval s = (0, 1000000 div fps s)"

definition InitListenerServiceMode ::
    "bool \<Rightarrow> ('c, 'a) world \<Rightarrow> int \<times> ('c, 'a) world" where
  "InitListenerServiceMode listen_ok w =
     (let u = listen_uri (setting w) in
      if fst (tcpsocket_str2sockin (os_api (env w)) (Some u) (Some sockaddr_zero)) \<noteq> 0 then (-1, w)
      else if \<not> listen_ok then (-1, w)
      else
        (case strchr u CHR ''?'' of
           None \<Rightarrow> (0, w)
         | Some p \<Rightarrow> if tl p = ''rpc'' then (0, w\<lparr>svc_mode := SVC_MODE_RPC\<rparr>) else (0, w)))"

section \<open>The event loop\<close>

text \<open>
  What libevent dispatches: a tick, a connection, bytes or a socket event on the buffer of a
  connection, a control datagram; and the two signals. Bytes are added to the input of the buffer
  before its callback runs. An event for a connection that has been freed cannot occur.
\<close>

datatype loop_event =
    EvTick int
  | EvAccept int string
  | EvFrontData ptr "byte list"
  | EvFrontSocket ptr "bev_event set"
  | EvBackData ptr "byte list"
  | EvBackSocket ptr "bev_event set"
  | EvCtrl string
  | EvStop
  | EvReload

definition bev_feed :: "byte list \<Rightarrow> 'c easy_net \<Rightarrow> 'c easy_net" where
  "bev_feed bs n = n\<lparr>hevent := map_option (\<lambda>b. b\<lparr>bev_in := bev_in b @ bs\<rparr>) (hevent n)\<rparr>"

definition no_break :: "(int \<times> ('c, 'a) world) exec \<Rightarrow> (bool \<times> ('c, 'a) world) exec option" where
  "no_break r = Some (bindE r (\<lambda>(c, w). Done (False, w)))"

definition on_event ::
    "nat \<Rightarrow> ('c, 'a) rapid_app \<Rightarrow> ('c, 'a) rpc_hooks \<Rightarrow> string \<Rightarrow> loop_event \<Rightarrow> ('c, 'a) world
     \<Rightarrow> (bool \<times> ('c, 'a) world) exec option" where
  "on_event fuel app rpc delim e w =
     (case e of
        EvTick now \<Rightarrow> Tick fuel app now w
      | EvAccept sock addr \<Rightarrow>
          no_break (if sock < 0 then Done (-1, w) else fw_OnFrontEndConnect app sock addr w)
      | EvFrontData p bs \<Rightarrow>
          no_break (bindE (modify_net p (bev_feed bs) w) (OnFrontEndMsg app rpc p))
      | EvFrontSocket p evs \<Rightarrow>
          no_break (bindE (get_net p w) (\<lambda>n.
            case hevent n of None \<Rightarrow> Crash NullDeref
            | Some b \<Rightarrow> OnFrontEndSocketEvent app (bev_fd b) evs w))
      | EvBackData p bs \<Rightarrow>
          no_break (bindE (modify_net p (bev_feed bs) w) (OnBackEndMsg app rpc p))
      | EvBackSocket p evs \<Rightarrow>
          no_break (bindE (get_net p w) (\<lambda>n.
            case hevent n of None \<Rightarrow> Crash NullDeref
            | Some b \<Rightarrow> OnBackEndSocketEvent (bev_fd b) evs w))
      | EvCtrl input \<Rightarrow> no_break (OnCtrlMsg app delim input w)
      | EvStop \<Rightarrow> Some (Done (False, w\<lparr>running := False\<rparr>))
      | EvReload \<Rightarrow> Some (Done (False, w\<lparr>reloading := True\<rparr>)))"

text \<open>\<open>MainLoop\<close>: events until the loop is broken or there are none; \<open>None\<close> when a
  tick does not come back within its fuel.\<close>

fun dispatch_events ::
    "nat \<Rightarrow> ('c, 'a) rapid_app \<Rightarrow> ('c, 'a) rpc_hooks \<Rightarrow> string \<Rightarrow> loop_event list \<Rightarrow> ('c, 'a) world
     \<Rightarrow> ('c, 'a) world exec option" where
  "dispatch_events fuel app rpc delim [] w = Some (Done w)"
| "dispatch_events fuel app rpc delim (e # es) w =
     (case on_event fuel app rpc delim e w of
        None \<Rightarrow> None
      | Some (Crash c) \<Rightarrow> Some (Crash c)
      | Some (Done (brk, w1)) \<Rightarrow>
          if brk then Some (Done w1) else dispatch_events fuel app rpc delim es w1)"

definition MainLoop ::
    "nat \<Rightarrow> ('c, 'a) rapid_app \<Rightarrow> ('c, 'a) rpc_hooks \<Rightarrow> string \<Rightarrow> loop_event list \<Rightarrow> ('c, 'a) world
     \<Rightarrow> ('c, 'a) world exec option" where
  "MainLoop fuel app rpc delim es w = dispatch_events fuel app rpc delim es (w\<lparr>running := True\<rparr>)"

text \<open>\<open>AppFrameWork::CleanUp\<close>: timers, backends, frontends, in this order.\<close>

definition fw_CleanUp :: "('c, 'a) world \<Rightarrow> ('c, 'a) world exec" where
  "fw_CleanUp w =
     (let w1 = w\<lparr>timer_mgr := TimerMgr_CleanUp (timer_mgr w)\<rparr> in
      bindE (NetHandlerMgr_CleanUp (net_heap w1) (backend_mgr w1)) (\<lambda>(h, m).
        bindE (NetHandlerMgr_CleanUp h (frontend_mgr w1)) (\<lambda>(h2, m2).
          Done (w1\<lparr>net_heap := h2, backend_mgr := m, frontend_mgr := m2\<rparr>))))"

text \<open>\<open>AppLauncher::Run\<close> after the framework's \<open>Init\<close> with result \<open>init\<close>.\<close>

definition AppLauncher_Run ::
    "nat \<Rightarrow> ('c, 'a) rapid_app \<Rightarrow> ('c, 'a) rpc_hooks \<Rightarrow> string \<Rightarrow> loop_event list \<Rightarrow> int
     \<Rightarrow> ('c, 'a) world \<Rightarrow> (int \<times> ('c, 'a) world) exec option" where
  "AppLauncher_Run fuel app rpc delim es init w =
     (if init \<noteq> 0 then Some (Done (-1, w))
      else
        (case OnInit app w of
           Crash c \<Rightarrow> Some (Crash c)
         | Done (ret, w1) \<Rightarrow>
             if ret \<noteq> 0 then Some (Done (-1, w1))
             else
               map_option (\<lambda>r. bindE r (\<lambda>w2. bindE (OnFini app w2) (\<lambda>(r2, w3).
                   bindE (fw_CleanUp w3) (\<lambda>w4. Done (0, w4)))))
                 (MainLoop fuel app rpc delim es w1)))"

section \<open>Delivery of frames\<close>

text \<open>What waits to be written on a connection.\<close>

definition written :: "('c, 'a) world \<Rightarrow> ptr \<Rightarrow> byte list" where
  "written w p = (case Option.bind (nets (net_heap w) p) hevent of None \<Rightarrow> [] | Some b \<Rightarrow> bev_out b)"

text \<open>What the receive loop means: hand over each message, count it.\<close>

fun deliver ::
    "('c, 'a) rapid_app \<Rightarrow> ptr \<Rightarrow> view list \<Rightarrow> ('c, 'a) world \<Rightarrow> ('c, 'a) world exec" where
  "deliver app p [] w = Done w"
| "deliver app p (v # vs) w =
     bindE (get_net p w) (\<lambda>n.
       bindE (OnRecvFrontEnd app p (net_type n) v w) (\<lambda>(r, w1).
         bindE (modify_net p (\<lambda>n. n\<lparr>curr_pkg_count := curr_pkg_count n + 1\<rparr>) w1) (deliver app p vs)))"

definition keeps_mode :: "('c, 'a) rapid_app \<Rightarrow> bool" where
  "keeps_mode app = (\<forall>p t v w r w'. OnRecvFrontEnd app p t v w = Done (r, w') \<longrightarrow> svc_mode w' = svc_mode w)"

lemma modify_net_mode: "modify_net p f w = Done w' \<Longrightarrow> svc_mode w' = svc_mode w"
  by (auto simp: modify_net_def set_net_def bindE_eq_Done)

lemma bindE_cong_Done: "(\<And>a. m = Done a \<Longrightarrow> k a = k' a) \<Longrightarrow> bindE m k = bindE m k'"
  by (cases m) simp_all

lemma front_loop_deliver:
  assumes "keeps_mode app"
  shows "svc_mode w = SVC_MODE_NORMAL \<Longrightarrow>
    front_loop app rpc p b e w =
      bindE (deliver app p (fst (split_with server_len b)) w)
        (\<lambda>w1. Done (0, e + (length b - length (snd (split_with server_len b))), w1))"
proof (induction "length b" arbitrary: b e w rule: less_induct)
  case less
  show ?case
  proof (cases "b = [] \<or> server_len b = 0 \<or> length b < server_len b")
    case True
    then show ?thesis
      by (simp add: front_loop.simps split_with_stop)
  next
    case False
    let ?b = "drop (server_len b) b"
    let ?rest = "snd (split_with server_len ?b)"
    have shorter: "length ?b < length b"
      using False by (cases b) auto
    obtain k where "k \<le> length ?b" "?rest = drop k ?b"
      using split_with_suffix by blast
    then have len: "length ?rest \<le> length ?b"
      by simp
    have step: "front_loop app rpc p ?b (e + server_len b) w2
        = bindE (deliver app p (fst (split_with server_len ?b)) w2)
            (\<lambda>w1. Done (0, e + (length b - length ?rest), w1))"
      if "svc_mode w2 = SVC_MODE_NORMAL" for w2
      using less.hyps [OF shorter that, of "e + server_len b"] len False by (auto simp: algebra_simps)
    have loop: "front_loop app rpc p b e w =
        bindE (get_net p w) (\<lambda>n.
          bindE (OnRecvFrontEnd app p (net_type n) (payload b (server_len b)) w) (\<lambda>(ret, w1).
            bindE (modify_net p (\<lambda>n. n\<lparr>curr_pkg_count := curr_pkg_count n + 1\<rparr>) w1)
              (front_loop app rpc p ?b (e + server_len b))))"
      using False less.prems by (subst front_loop.simps) simp
    show ?thesis
      unfolding loop using False less.prems assms
      by (auto simp: split_with_step bindE_assoc case_prod_beta keeps_mode_def
          intro!: bindE_cong_Done step dest!: modify_net_mode)
  qed
qed

text \<open>The accounting after the loop.\<close>

definition account :: "ptr \<Rightarrow> nat \<Rightarrow> ('c, 'a) world \<Rightarrow> (int \<times> ('c, 'a) world) exec" where
  "account p k w =
     bindE (modify_net p (\<lambda>n. n\<lparr>hevent := map_option (\<lambda>b. b\<lparr>bev_in := drop k (bev_in b)\<rparr>) (hevent n),
                                curr_traffic_bytes := curr_traffic_bytes n + of_nat k,
                                last_active_timestamp := now_time w\<rparr>) w)
       (\<lambda>w1. Done (0, w1))"

lemma account_steps:
  "account p k w =
     bindE (modify_net p (bev_drain k) w) (\<lambda>w2.
       bindE (modify_net p (\<lambda>n. n\<lparr>curr_traffic_bytes := curr_traffic_bytes n + of_nat k,
                                  last_active_timestamp := now_time w2\<rparr>) w2)
         (\<lambda>w3. Done (0, w3)))"
  by (cases "nets (net_heap w) p")
     (simp_all add: account_def modify_net_def get_net_def set_net_def bev_drain_def)

lemma OnFrontEndMsg_deliver:
  assumes "keeps_mode app" and "svc_mode w = SVC_MODE_NORMAL"
    and "nets (net_heap w) p = Some n" and "hevent n = Some b"
    and "map_of (handler_pool (frontend_mgr w)) (bev_fd b) = Some p"
    and "split_with server_len (take (recv_size (frontend_mgr w)) (bev_in b)) = (vs, rest)"
  shows "OnFrontEndMsg app rpc p w =
           bindE (deliver app p vs w)
             (account p (min (length (bev_in b)) (recv_size (frontend_mgr w)) - length rest))"
  using assms front_loop_deliver [OF assms(1,2), of rpc p "take (recv_size (frontend_mgr w)) (bev_in b)" 0]
  by (simp add: OnFrontEndMsg_def get_net_def GetHandlerByEvent_def bindE_assoc account_steps [abs_def])

text \<open>When the handler of the first frame frees the connection, the loop follows its pointer.\<close>

lemma OnFrontEndMsg_freed:
  assumes "svc_mode w = SVC_MODE_NORMAL"
    and "nets (net_heap w) p = Some n" and "hevent n = Some b"
    and "map_of (handler_pool (frontend_mgr w)) (bev_fd b) = Some p"
    and "bev_in b = encode_frame m @ r" and "length (bev_in b) \<le> recv_size (frontend_mgr w)"
    and "fits_frame m"
    and "OnRecvFrontEnd app p (net_type n) (View m) w = Done (c, w1)"
    and "nets (net_heap w1) p = None"
  shows "OnFrontEndMsg app rpc p w = Crash UseAfterFree"
proof -
  have take: "take (recv_size (frontend_mgr w)) (bev_in b) = encode_frame m @ r"
    using assms(5,6) by simp
  have len: "server_len (encode_frame m @ r) = length m + 4"
    using assms(7) by (rule encode_frame_len)
  have lenf: "length (encode_frame m) = length m + 4"
    by (simp add: encode_frame_def)
  have "payload (encode_frame m @ r) (length m + 4) = View m"
    by (simp add: payload_def encode_frame_def)
  then have "front_loop app rpc p (encode_frame m @ r) 0 w = Crash UseAfterFree"
    using assms(1,2,8,9) len lenf
    by (subst front_loop.simps) (auto simp: get_net_def modify_net_def)
  then show ?thesis
    using assms(2-4) take by (simp add: OnFrontEndMsg_def get_net_def GetHandlerByEvent_def)
qed

section \<open>Limits\<close>

definition over_limit :: "AppSetting \<Rightarrow> int \<Rightarrow> 'c easy_net \<Rightarrow> bool" where
  "over_limit s now n =
     (0 < max_idle s \<and> max_idle s < now - last_active_timestamp n
      \<or> 0 < max_pkg_speed s \<and> word_of_int (max_pkg_speed s) < curr_pkg_count n - prev_pkg_count n
      \<or> 0 < max_traffic_speed s
        \<and> word_of_int (max_traffic_speed s) < curr_traffic_bytes n - prev_traffic_bytes n)"

lemma DoSomething_iff: "fst (DoSomething s now n) \<noteq> 0 \<longleftrightarrow> over_limit s now n"
  by (auto simp: DoSomething_def over_limit_def Let_def)

lemma DoSomething_keeps: "act_ok (DoSomething s now)"
  by (simp add: act_ok_def DoSomething_def Let_def)

section \<open>Timers never due\<close>

definition timer_quiet :: "('c, 'a) rapid_app \<Rightarrow> bool" where
  "timer_quiet app = (\<forall>t i w. \<exists>w'. OnTimer app t i w = Done w' \<and> timer_mgr w' = timer_mgr w)"

lemma timer_loop_None:
  assumes "timer_quiet app"
  shows "timers_ok (timer_mgr w) \<Longrightarrow> timer_list (timer_mgr w) \<noteq> [] \<Longrightarrow> timer_loop k app w = None"
proof (induction k arbitrary: w)
  case (Suc k)
  obtain p rest where l: "timer_list (timer_mgr w) = p # rest"
    using Suc.prems(2) by (cases "timer_list (timer_mgr w)") auto
  obtain t m where m: "GetNextActiveTimer (timer_mgr w) = Done (Some p, m)" "timers_ok m"
      "mset (timer_list m) = mset (timer_list (timer_mgr w))" "timers m = (timers (timer_mgr w))(p \<mapsto> t)"
    using GetNextActiveTimer_ok [OF Suc.prems(1) l] by blast
  obtain w1 where w1: "OnTimer app p (timer_id t) (w\<lparr>timer_mgr := m\<rparr>) = Done w1" "timer_mgr w1 = m"
  proof -
    have "\<exists>w'. OnTimer app p (timer_id t) (w\<lparr>timer_mgr := m\<rparr>) = Done w'
        \<and> timer_mgr w' = timer_mgr (w\<lparr>timer_mgr := m\<rparr>)"
      using assms unfolding timer_quiet_def by blast
    with that show ?thesis by auto
  qed
  have "timer_list m \<noteq> []"
    using m(3) l by (metis list.distinct(1) mset_zero_iff)
  then have "timer_loop k app w1 = None"
    using Suc.IH [of w1] w1(2) m(2) by simp
  then show ?case
    using m(1,4) w1(1) by simp
qed simp

lemma timer_loop_empty:
  "timer_list (timer_mgr w) = [] \<Longrightarrow> timer_loop (Suc k) app w = Some (Done w)"
  by (simp add: GetNextActiveTimer_def)

lemma split_frames_rest:
  assumes "list_all fits_frame ms" and "r = [] \<or> server_len r = 0 \<or> length r < server_len r"
  shows "split_with server_len (concat (map encode_frame ms) @ r) = (map View ms, r)"
  using srv.split_enc_all [OF assms(1), of r] assms(2) by (simp add: split_with_stop)

section \<open>Properties\<close>

text \<open>A world with one frontend connection, and two small applications.\<close>

definition quiet_app :: "'c \<Rightarrow> ('c, 'a) rapid_app" where
  "quiet_app z =
     \<lparr>OnInit = (\<lambda>w. Done (0, w)), OnFini = (\<lambda>w. Done (0, w)), OnUpdate = Done, OnReload = Done,
      OnRecvCtrl = (\<lambda>_ w. Done (-1, w)), OnFrontEndConnect = (\<lambda>_ _ w. Done (0, w)),
      OnFrontEndClose = (\<lambda>_ _ w. Done (0, w)), OnRecvFrontEnd = (\<lambda>_ _ _ w. Done (-1, w)),
      OnRecvBackEnd = (\<lambda>_ _ _ w. Done (-1, w)), OnTimer = (\<lambda>_ _ w. Done w),
      GetFrontEndContextSize = 0, GetBackEndContextSize = 0, zero_context = z\<rparr>"

definition log_app :: "(unit, view list) rapid_app" where
  "log_app = (quiet_app ())\<lparr>OnRecvFrontEnd :=
     (\<lambda>p t v w. Done (0, w\<lparr>app_state := app_state w @ [v]\<rparr>))\<rparr>"

definition closing_app :: "(unit, view list) rapid_app" where
  "closing_app = (quiet_app ())\<lparr>OnRecvFrontEnd :=
     (\<lambda>p t v w. bindE (DestroyFrontEnd (Some p) w) (\<lambda>w1. Done (-1, w1)))\<rparr>"

definition no_rpc :: "('c, 'a) rpc_hooks" where
  "no_rpc = \<lparr>OnFrontEndRpcMsg = (\<lambda>_ _ w. Done (-1, w)), rpc_IsActive = (\<lambda>_ _. False),
             rpc_Resume = (\<lambda>_ _ w. Done w)\<rparr>"

definition sample_net :: "byte list \<Rightarrow> 'c option \<Rightarrow> 'c easy_net" where
  "sample_net bs c = (EasyNet_new 1)\<lparr>hevent := Some \<lparr>bev_fd = 7, bev_in = bs, bev_out = []\<rparr>,
                                      net_state := NET_ESTABLISHED, user_context := c\<rparr>"

definition sample_answers :: answers where
  "sample_answers = \<lparr>write_rc = [], connect_rc = [], hash_pos = [], alloc_rc = [], os_api = sample_os\<rparr>"

definition sample_world :: "byte list \<Rightarrow> 'c option \<Rightarrow> 'a \<Rightarrow> ('c, 'a) world" where
  "sample_world bs c a =
     \<lparr>net_heap = \<lparr>nets = [1 \<mapsto> sample_net bs c], next_net = 2, nid_seed = 2\<rparr>,
      frontend_mgr = \<lparr>handler_pool = [(7, 1)], recv_size = 64, it_cursor = None\<rparr>,
      backend_mgr = \<lparr>handler_pool = [], recv_size = 64, it_cursor = None\<rparr>,
      timer_mgr = TimerMgr_new, app_state = a, now_time = 100, setting = AppSetting_zero,
      running = True, reloading = False, schedule_update = False, svc_mode = SVC_MODE_NORMAL,
      ctrl_msg = replicate 2048 NUL, ctrl_dispatcher = Map.empty, cfg_string = [],
      env = sample_answers\<rparr>"

text \<open>C5. The frontend read callback on a buffer that holds complete frames followed by an
  incomplete one: the application's handler is called once per frame, in order, with exactly the
  payload the peer framed; then exactly the bytes of the complete frames are drained and counted
  as traffic. The equation includes the runs in which a handler crashes.\<close>

theorem OnFrontEndMsg_frames:
  assumes "keeps_mode app" and "svc_mode w = SVC_MODE_NORMAL"
    and "nets (net_heap w) p = Some n" and "hevent n = Some b"
    and "map_of (handler_pool (frontend_mgr w)) (bev_fd b) = Some p"
    and "bev_in b = concat (map encode_frame ms) @ r"
    and "length (bev_in b) \<le> recv_size (frontend_mgr w)"
    and "list_all fits_frame ms" and "r = [] \<or> server_len r = 0 \<or> length r < server_len r"
  shows "OnFrontEndMsg app rpc p w =
           bindE (deliver app p (map View ms) w) (account p (length (concat (map encode_frame ms))))"
proof -
  have "split_with server_len (take (recv_size (frontend_mgr w)) (bev_in b)) = (map View ms, r)"
    using split_frames_rest [OF assms(8,9)] assms(6,7) by simp
  from OnFrontEndMsg_deliver [OF assms(1-5) this] show ?thesis
    using assms(6,7) by simp
qed

lemma log_app_keeps: "keeps_mode log_app"
  by (simp add: keeps_mode_def log_app_def)

lemma frames_1_23: "encode_frame [1] @ encode_frame [2, 3] = [0, 0, 0, 5, 1, 0, 0, 0, 6, 2, 3]"
  by (simp add: encode_frame_def be32_def)

theorem OnFrontEndMsg_frames_witness:
  "\<exists>w'. OnFrontEndMsg log_app no_rpc 1 (sample_world [0, 0, 0, 5, 1, 0, 0, 0, 6, 2, 3, 0] None [])
          = Done (0, w') \<and> app_state w' = [View [1], View [2, 3]]
        \<and> map_option bev_in (Option.bind (nets (net_heap w') 1) hevent) = Some [0]"
proof -
  let ?w = "sample_world [0, 0, 0, 5, 1, 0, 0, 0, 6, 2, 3, 0] None [] :: (unit, view list) world"
  have "list_all fits_frame [[1], [2, 3]]"
    by (simp add: fits_frame_def)
  from OnFrontEndMsg_frames [OF log_app_keeps _ _ _ _ _ _ this, where w = ?w and p = 1 and r = "[0]"
      and rpc = no_rpc and n = "sample_net [0, 0, 0, 5, 1, 0, 0, 0, 6, 2, 3, 0] None"]
  show ?thesis
    using frames_1_23
    by (simp add: sample_world_def sample_net_def EasyNet_new_def log_app_def get_net_def
        modify_net_def set_net_def account_def bev_drain_def server_len_def GetMsgLength_def)
qed

text \<open>A handler that closes the connection it is called for makes the callback touch freed
  memory: after \<open>OnRecvFrontEnd\<close> returns, the loop increments the packet counter of the
  connection and drains its buffer, although \<open>DestroyFrontEnd\<close> has freed both.\<close>

theorem OnFrontEndMsg_close_crashes:
  assumes "svc_mode w = SVC_MODE_NORMAL"
    and "nets (net_heap w) p = Some n" and "hevent n = Some b"
    and "map_of (handler_pool (frontend_mgr w)) (bev_fd b) = Some p"
    and "bev_in b = encode_frame m @ r" and "length (bev_in b) \<le> recv_size (frontend_mgr w)"
    and "fits_frame m"
    and "OnRecvFrontEnd app p (net_type n) (View m) w = Done (c, w1)"
    and "nets (net_heap w1) p = None"
  shows "OnFrontEndMsg app rpc p w = Crash UseAfterFree"
  by (rule OnFrontEndMsg_freed [OF assms])

theorem OnFrontEndMsg_close_crashes_witness:
  "OnFrontEndMsg closing_app no_rpc 1 (sample_world [0, 0, 0, 5, 1] None []) = Crash UseAfterFree"
proof -
  let ?w = "sample_world [0, 0, 0, 5, 1] None [] :: (unit, view list) world"
  have e: "encode_frame [1] = [0, 0, 0, 5, 1]"
    by (simp add: encode_frame_def be32_def)
  obtain w1 where "OnRecvFrontEnd closing_app 1 0 (View [1]) ?w = Done (-1, w1)"
      "nets (net_heap w1) 1 = None"
    by (simp add: sample_world_def sample_net_def EasyNet_new_def closing_app_def
        DestroyFrontEnd_def RemoveHandler_def RemoveHandlerByEvent_def update_net_def free_net_def)
  with OnFrontEndMsg_close_crashes [of ?w 1 "sample_net [0, 0, 0, 5, 1] None"
      "\<lparr>bev_fd = 7, bev_in = [0, 0, 0, 5, 1], bev_out = []\<rparr>" "[1]" "[]" closing_app "-1" w1 no_rpc]
  show ?thesis
    by (simp add: e fits_frame_def sample_world_def sample_net_def EasyNet_new_def)
qed


definition limit_world :: "(unit, unit) world" where
  "limit_world = (sample_world [] None ())
     \<lparr>setting := AppSetting_zero\<lparr>max_idle := 30\<rparr>,
      frontend_mgr := \<lparr>handler_pool = [(7, 1)], recv_size = 64, it_cursor = Some 7\<rparr>\<rparr>"


text \<open>C40. With at least one timer registered, the tick never comes back: the loop over
  \<open>GetNextActiveTimer\<close> only ends on NULL, and there is always a next timer, due or not. With
  no timer it ends after one round. (For an application whose \<open>OnTimer\<close> leaves the timers
  alone.)\<close>

theorem Tick_timers_diverge:
  assumes "timer_quiet app" and "tick_prologue app now w = Done (brk, w1)"
    and "timers_ok (timer_mgr w1)"
  shows "(\<forall>fuel. Tick fuel app now w = None) = (timer_list (timer_mgr w1) \<noteq> [])"
proof
  assume "timer_list (timer_mgr w1) \<noteq> []"
  then show "\<forall>fuel. Tick fuel app now w = None"
    using timer_loop_None [OF assms(1,3)] assms(2) by (simp add: Tick_def)
next
  assume never: "\<forall>fuel. Tick fuel app now w = None"
  show "timer_list (timer_mgr w1) \<noteq> []"
  proof
    assume "timer_list (timer_mgr w1) = []"
    then have "Tick (Suc 0) app now w \<noteq> None"
      using assms(2) timer_loop_empty [of w1 0 app] by (simp add: Tick_def)
    with never show False by simp
  qed
qed

theorem Tick_timers_diverge_witness:
  "\<forall>fuel. Tick fuel log_app 101 ((sample_world [] None [])\<lparr>timer_mgr := two_timers\<rparr>) = None"
proof -
  let ?w = "(sample_world [] None [])\<lparr>timer_mgr := two_timers\<rparr>"
  have q: "timer_quiet log_app"
    by (simp add: timer_quiet_def log_app_def quiet_app_def)
  have p: "tick_prologue log_app 101 ?w = Done (False, ?w\<lparr>now_time := 101\<rparr>)"
    by (simp add: tick_prologue_def sample_world_def)
  show ?thesis
    using Tick_timers_diverge [OF q p] two_timers_ok by (simp add: two_timers_def)
qed

text \<open>The command line is accepted exactly when at most one of stop, restart and reload is
  given, the texts fit their buffers with their NUL, and the frame rate is positive; then every
  name in the settings is shorter than its buffer.\<close>

theorem ParseCmdLine_accepts:
  "(fst (ParseCmdLine f argv0 s) = 0) =
     (length (filter id [FLAGS_stop f, FLAGS_restart f, FLAGS_reload f]) \<le> 1
      \<and> length (FLAGS_uri f) < 128 \<and> length (FLAGS_log_file f) < 128
      \<and> length (FLAGS_pid_file f) < 128 \<and> length (FLAGS_ctrl_file f) < 128
      \<and> (FLAGS_pid_file f = [] \<longrightarrow> length argv0 < 123)
      \<and> (FLAGS_ctrl_file f = [] \<longrightarrow> length argv0 < 122) \<and> 1 \<le> FLAGS_fps f)
   \<and> (fst (ParseCmdLine f argv0 s) = 0 \<longrightarrow>
        (let t = snd (ParseCmdLine f argv0 s) in
         length (listen_uri t) < 128 \<and> length (log_file_name t) < 128
         \<and> length (pid_file_name t) < 128 \<and> length (ctrl_sock_file_name t) < 128
         \<and> 1 \<le> fps t))"
  by (auto simp: ParseCmdLine_def parse_mode_def parse_file_def Let_def split: option.splits if_splits)

theorem ParseCmdLine_accepts_witness:
  "fst (ParseCmdLine (default_flags\<lparr>FLAGS_stop := True\<rparr>) ''svrd'' AppSetting_zero) = 0
   \<and> pid_file_name (snd (ParseCmdLine (default_flags\<lparr>FLAGS_stop := True\<rparr>) ''svrd'' AppSetting_zero))
       = ''svrd.pid''"
  using ParseCmdLine_accepts [of "default_flags\<lparr>FLAGS_stop := True\<rparr>" "''svrd''" AppSetting_zero]
  by (simp add: default_flags_def ParseCmdLine_def parse_mode_def parse_file_def)

lemma sint_word_of_int32:
  assumes "- 2147483648 \<le> k" and "k < 2147483648"
  shows "sint (word_of_int k :: 32 word) = k"
proof -
  have "sint (word_of_int k :: 32 word) = signed_take_bit (LENGTH(32) - 1) k"
    by (rule sint_sbintrunc')
  also have "\<dots> = k"
    by (rule signed_take_bit_int_eq_self) (use assms in simp_all)
  finally show ?thesis .
qed

lemma ids_distinct:
  assumes "p < 4294967296" and "q < 4294967296"
    and "(scast (of_nat p :: cint) :: 64 word) = scast (of_nat q :: cint)"
  shows "p = q"
proof -
  have "sint (scast x :: 64 word) = sint x" for x :: cint
  proof (rule sint_up_scast)
    show "is_up (scast :: cint \<Rightarrow> 64 word)"
      by (simp add: is_up)
  qed
  then have "sint (of_nat p :: cint) = sint (of_nat q :: cint)"
    using assms(3) by metis
  then have "(of_nat p :: cint) = of_nat q"
    by (rule signed_word_eqI)
  then have "unat (of_nat p :: cint) = unat (of_nat q :: cint)"
    by simp
  with assms(1,2) show ?thesis
    by (simp add: unat_of_nat)
qed

text \<open>C26. Asynchronous ids never lead to another connection. The pair that \<open>GetNetIds\<close> gives
  for a connection, used at any later time, finds that same connection as long as it is
  registered under its descriptor, and nothing once it is gone, also when the descriptor has been
  reused. (For fewer than \<open>2^32\<close> connections: the ids wrap around after that.)\<close>

theorem async_ids_exact:
  assumes "mgr_inv F (net_heap w) (frontend_mgr w)" and "mgr_inv F' (net_heap w') (frontend_mgr w')"
    and "map_of (handler_pool (frontend_mgr w)) k = Some p" and "- 2147483648 \<le> k" and "k < 2147483648"
    and "p < 4294967296" and "next_net (net_heap w') \<le> 4294967296"
  shows "\<exists>fd i. GetNetIds (Some p) w = Done (0, fd, i)
     \<and> GetFrontEndByAsyncIds fd i w'
         = Done (if map_of (handler_pool (frontend_mgr w')) k = Some p then Some p else None)"
proof -
  obtain n b where n: "nets (net_heap w) p = Some n" "hevent n = Some b" "bev_fd b = k"
    using pool_okD [OF mgr_invD(2) [OF assms(1)] assms(3)] by blast
  then have nid: "nid n = of_nat p"
    using mgr_invD(1) [OF assms(1)] by (simp add: heap_ok_def)
  have ids: "GetNetIds (Some p) w = Done (0, word_of_int k, scast (of_nat p :: cint))"
    using n nid by (simp add: GetNetIds_def get_net_def)
  have "GetFrontEndByAsyncIds (word_of_int k) (scast (of_nat p :: cint)) w'
         = Done (if map_of (handler_pool (frontend_mgr w')) k = Some p then Some p else None)"
  proof (cases "map_of (handler_pool (frontend_mgr w')) k")
    case None
    then show ?thesis
      using assms(4,5) by (simp add: GetFrontEndByAsyncIds_def GetHandlerByAsyncIds_def sint_word_of_int32)
  next
    case (Some q)
    obtain n' where q: "nets (net_heap w') q = Some n'"
      using pool_okD [OF mgr_invD(2) [OF assms(2)] Some] by blast
    then have "nid n' = of_nat q" "q < next_net (net_heap w')"
      using mgr_invD(1) [OF assms(2)] by (simp_all add: heap_ok_def)
    with assms(7) have "nid n' = of_nat q" "q < 4294967296"
      by simp_all
    with Some q show ?thesis
      using assms(4-6) ids_distinct [of p q]
      by (auto simp: GetFrontEndByAsyncIds_def GetHandlerByAsyncIds_def sint_word_of_int32)
  qed
  with ids show ?thesis
    by blast
qed

lemma sample_mgr_inv: "mgr_inv {} (net_heap (sample_world bs c a)) (frontend_mgr (sample_world bs c a))"
  by (auto simp: mgr_inv_def heap_ok_def pool_ok_def sample_world_def sample_net_def net_fd_def
      EasyNet_new_def pool_ptrs_def split: if_splits)

theorem async_ids_exact_witness:
  "\<exists>fd i. GetNetIds (Some 1) (sample_world [] None ()) = Done (0, fd, i)
     \<and> GetFrontEndByAsyncIds fd i (sample_world [1] (None :: unit option) ()) = Done (Some 1)"
  using async_ids_exact [OF sample_mgr_inv sample_mgr_inv, of "[]" None "()" 7 1 "[1]" "None :: unit option" "()"]
  by (simp add: sample_world_def)

end
