(* ===== verification/ConnectorSession.thy ===== *)
theory ConnectorSession
  imports Framework
begin

text \<open>
  \<open>server/connector/connector_session.*\<close> and the messages of \<open>client.proto\<close> and
  \<open>server.proto\<close>: the session a connector keeps for each frontend connection, and the global
  set of backends. A session lives in the user context of its connection, so it is freed with the
  connection; the functions below take the connection \<open>p\<close> that holds the session
  (\<open>this\<close>) and access it through the heap. The protobuf codecs are parameters
  (\<open>codec\<close>): the parsers are total, as the code ignores their results, and give the
  message left behind.
\<close>

section \<open>Messages\<close>

abbreviation (input) MAGIC_CS_V1 :: int where "MAGIC_CS_V1 \<equiv> 0x3344"
abbreviation (input) MAGIC_SS_V1 :: int where "MAGIC_SS_V1 \<equiv> 0x3443"

abbreviation (input) CS_SYN :: int where "CS_SYN \<equiv> 1"
abbreviation (input) CS_SYNACK :: int where "CS_SYNACK \<equiv> 2"
abbreviation (input) CS_AUTHENTICATION :: int where "CS_AUTHENTICATION \<equiv> 3"
abbreviation (input) CS_PASSPORT :: int where "CS_PASSPORT \<equiv> 4"
abbreviation (input) CS_START_APP :: int where "CS_START_APP \<equiv> 5"
abbreviation (input) CS_DATA_TRANSPARENT :: int where "CS_DATA_TRANSPARENT \<equiv> 16"
abbreviation (input) CS_ERROR :: int where "CS_ERROR \<equiv> 100"

abbreviation (input) SS_SYN :: int where "SS_SYN \<equiv> 1"
abbreviation (input) SS_ACK :: int where "SS_ACK \<equiv> 2"
abbreviation (input) SS_RSM :: int where "SS_RSM \<equiv> 3"
abbreviation (input) SS_FIN :: int where "SS_FIN \<equiv> 4"
abbreviation (input) SS_DATA :: int where "SS_DATA \<equiv> 5"

record csbody =
  cs_syn :: "(string \<times> string) option"
  cs_ack :: "string option"
  cs_auth :: "string option"
  cs_passport :: "int option"
  cs_start :: "int option"
  cs_data :: "byte list option"
  cs_error :: "(int \<times> string) option"

record csmsg =
  cs_magic :: int
  cs_sequence :: "64 word"
  cs_bodyid :: int
  cs_body :: csbody

definition empty_csbody :: csbody where
  "empty_csbody = \<lparr>cs_syn = None, cs_ack = None, cs_auth = None, cs_passport = None,
                   cs_start = None, cs_data = None, cs_error = None\<rparr>"

text \<open>\<open>body().data()\<close>: the default of an absent field is empty.\<close>

definition csmsg_data :: "csmsg \<Rightarrow> byte list" where
  "csmsg_data m = (case cs_data (cs_body m) of None \<Rightarrow> [] | Some d \<Rightarrow> d)"

record ss_tuple =
  ss_fd :: "32 word"
  ss_nid :: "64 word"
  ss_sid :: "32 word"

record ssbody =
  ss_data :: "byte list option"
  ss_syn :: "int option"
  ss_ack :: "int option"
  ss_rsm :: "int option"
  ss_fin :: "int option"

record ssmsg =
  ss_magic :: int
  ss_sequence :: "64 word"
  ss_bodyid :: int
  ss_session :: ss_tuple
  ss_body :: ssbody

definition empty_ssbody :: ssbody where
  "empty_ssbody = \<lparr>ss_data = None, ss_syn = None, ss_ack = None, ss_rsm = None, ss_fin = None\<rparr>"

definition ssmsg_data :: "ssmsg \<Rightarrow> byte list" where
  "ssmsg_data m = (case ss_data (ss_body m) of None \<Rightarrow> [] | Some d \<Rightarrow> d)"

record codec =
  cs_parse :: "view \<Rightarrow> csmsg"
  cs_ser :: "csmsg \<Rightarrow> byte list"
  ss_parse :: "view \<Rightarrow> ssmsg"
  ss_ser :: "ssmsg \<Rightarrow> byte list"

section \<open>State\<close>

datatype SessionState = STATE_INIT | STATE_AUTH | STATE_SYNING | STATE_SYNACK | STATE_OK

record session =
  state :: SessionState
  net_stub :: "ptr option"
  channel_id :: int
  sid :: "32 word"
  frame_stub :: bool
  last_seq :: "64 word"

definition ConnectorSession_new :: session where
  "ConnectorSession_new =
     \<lparr>state = STATE_INIT, net_stub = None, channel_id = -1, sid = -1, frame_stub = False, last_seq = 0\<rparr>"

text \<open>A context of zero bytes, before the constructor runs in it.\<close>

definition zero_session :: session where
  "zero_session =
     \<lparr>state = STATE_INIT, net_stub = None, channel_id = 0, sid = 0, frame_stub = False, last_seq = 0\<rparr>"

abbreviation (input) kMaxBackEndNum :: nat where "kMaxBackEndNum \<equiv> 32"

text \<open>The state of the connector: \<open>BackEndSet\<close>, the framework stub, the configured
  backends (\<open>None\<close> when the configuration cannot be read).\<close>

record connector =
  backend_pos :: nat
  backend_used :: nat
  backends :: "ptr option list"
  app_stub :: bool
  config_backends :: "string list option"

type_synonym cworld = "(session, connector) world"

text \<open>\<open>AddBackEnd\<close>; its result is not returned on success and no caller looks at it.\<close>

definition AddBackEnd :: "ptr \<Rightarrow> connector \<Rightarrow> connector" where
  "AddBackEnd net c =
     (if kMaxBackEndNum \<le> backend_used c then c
      else c\<lparr>backends := (backends c)[backend_used c := Some net],
             backend_used := backend_used c + 1\<rparr>)"

text \<open>Access to the session of a connection.\<close>

definition get_session :: "ptr \<Rightarrow> cworld \<Rightarrow> session exec" where
  "get_session p w =
     bindE (get_net p w) (\<lambda>n. case user_context n of None \<Rightarrow> Crash NullDeref | Some s \<Rightarrow> Done s)"

definition set_session :: "ptr \<Rightarrow> (session \<Rightarrow> session) \<Rightarrow> cworld \<Rightarrow> cworld exec" where
  "set_session p f w =
     bindE (get_net p w) (\<lambda>n.
       case user_context n of
         None \<Rightarrow> Crash NullDeref
       | Some s \<Rightarrow> Done (set_net p (n\<lparr>user_context := Some (f s)\<rparr>) w))"

definition Session_Init :: "ptr option \<Rightarrow> bool \<Rightarrow> session \<Rightarrow> int \<times> session" where
  "Session_Init net stub s =
     (if net = None \<or> \<not> stub then (-1, s)
      else (0, s\<lparr>net_stub := net, frame_stub := True, state := STATE_INIT\<rparr>))"

definition Session_CleanUp :: "session \<Rightarrow> session" where
  "Session_CleanUp s = s\<lparr>state := STATE_INIT\<rparr>"

section \<open>Sending\<close>

text \<open>\<open>frame_stub_->DestroyFrontEnd(&net_stub_)\<close>: after the connection is removed, NULL is
  stored through the pointer to the member, which lives in the context just freed.\<close>

definition destroy_own :: "ptr \<Rightarrow> cworld \<Rightarrow> cworld exec" where
  "destroy_own p w =
     bindE (get_session p w) (\<lambda>s.
       case net_stub s of
         None \<Rightarrow> Done w
       | Some q \<Rightarrow>
           bindE (DestroyFrontEnd (Some q) w) (\<lambda>w1. set_session p (\<lambda>s. s\<lparr>net_stub := None\<rparr>) w1))"

definition SerializeAndSendToFrontEnd :: "codec \<Rightarrow> csmsg \<Rightarrow> ptr \<Rightarrow> cworld \<Rightarrow> (int \<times> cworld) exec" where
  "SerializeAndSendToFrontEnd cd msg p w =
     bindE (get_session p w) (\<lambda>s.
       if net_stub s = None \<or> \<not> frame_stub s then Crash AssertFailed
       else
         bindE (SendToFrontEnd (net_stub s) (Some (cs_ser cd msg)) w) (\<lambda>(ret, w1).
           if ret \<noteq> 0 then bindE (destroy_own p w1) (\<lambda>w2. Done (-1, w2)) else Done (0, w1)))"

definition session_ids :: "session \<Rightarrow> cworld \<Rightarrow> ss_tuple exec" where
  "session_ids s w =
     bindE (GetNetIds (net_stub s) w) (\<lambda>(r, fd, i). Done \<lparr>ss_fd = fd, ss_nid = i, ss_sid = sid s\<rparr>)"

definition ss_message :: "64 word \<Rightarrow> int \<Rightarrow> ss_tuple \<Rightarrow> ssbody \<Rightarrow> ssmsg" where
  "ss_message sq bid t b =
     \<lparr>ss_magic = MAGIC_SS_V1, ss_sequence = sq, ss_bodyid = bid, ss_session = t, ss_body = b\<rparr>"

definition cs_message :: "64 word \<Rightarrow> int \<Rightarrow> csbody \<Rightarrow> csmsg" where
  "cs_message sq bid b =
     \<lparr>cs_magic = MAGIC_CS_V1, cs_sequence = sq, cs_bodyid = bid, cs_body = b\<rparr>"

text \<open>
  \<open>SendDataToBackEnd\<close>: the next backend in turn. When sending fails, the log line reads the
  URI of the backend, also of a NULL one.
\<close>

definition next_backend :: "cworld \<Rightarrow> (ptr option \<times> cworld) exec" where
  "next_backend w =
     (let c = app_state w;
          pos = (if backend_used c \<le> backend_pos c then 0 else backend_pos c)
      in if pos < length (backends c)
         then Done (backends c ! pos, w\<lparr>app_state := c\<lparr>backend_pos := pos + 1\<rparr>\<rparr>)
         else Crash OutOfBounds)"

definition SendDataToBackEnd :: "byte list \<Rightarrow> ptr \<Rightarrow> cworld \<Rightarrow> (int \<times> cworld) exec" where
  "SendDataToBackEnd d p w =
     bindE (next_backend w) (\<lambda>(back, w1).
       bindE (get_session p w1) (\<lambda>s.
         if \<not> frame_stub s then Crash AssertFailed
         else
           bindE (SendToBackEnd back (Some d) w1) (\<lambda>(ret, w2).
             if ret \<noteq> 0 then (case back of None \<Rightarrow> Crash NullDeref | Some q \<Rightarrow> Done (-1, w2))
             else Done (0, w2))))"

definition ForwardUpSideMessage ::
    "codec \<Rightarrow> 64 word \<Rightarrow> byte list \<Rightarrow> ptr \<Rightarrow> cworld \<Rightarrow> (int \<times> cworld) exec" where
  "ForwardUpSideMessage cd sq d p w =
     bindE (get_session p w) (\<lambda>s.
       if \<not> frame_stub s then Crash AssertFailed
       else
         bindE (session_ids s w) (\<lambda>t.
           SendDataToBackEnd
             (ss_ser cd (ss_message sq SS_DATA t (empty_ssbody\<lparr>ss_data := Some d\<rparr>))) p w))"

definition ForwardDownSideMessage ::
    "codec \<Rightarrow> 64 word \<Rightarrow> byte list \<Rightarrow> ptr \<Rightarrow> cworld \<Rightarrow> (int \<times> cworld) exec" where
  "ForwardDownSideMessage cd sq d p w =
     (if d = [] then Done (-1, w)
      else
        bindE (get_session p w) (\<lambda>s.
          bindE (SendToFrontEnd (net_stub s)
                   (Some (cs_ser cd (cs_message sq CS_DATA_TRANSPARENT (empty_csbody\<lparr>cs_data := Some d\<rparr>))))
                   w)
            (\<lambda>(ret, w1). if ret \<noteq> 0 then Done (-1, w1) else Done (0, w1))))"

definition CheckUpSideMessage :: "csmsg \<Rightarrow> session \<Rightarrow> int \<times> session" where
  "CheckUpSideMessage m s =
     (if cs_magic m \<noteq> MAGIC_CS_V1 then (-1, s)
      else if last_seq s \<noteq> 0 \<and> cs_sequence m \<noteq> last_seq s + 1 then (-1, s)
      else (0, s\<lparr>last_seq := cs_sequence m\<rparr>))"

section \<open>The handshake\<close>

definition StartToBackEnd :: "codec \<Rightarrow> ptr option \<Rightarrow> ptr \<Rightarrow> cworld \<Rightarrow> (int \<times> cworld) exec" where
  "StartToBackEnd cd back p w =
     bindE (get_session p w) (\<lambda>s.
       if \<not> frame_stub s \<or> back = None then Done (-1, w)
       else
         bindE (session_ids s w) (\<lambda>t.
           bindE (SendToBackEnd back
                    (Some (ss_ser cd (ss_message 1 SS_SYN t (empty_ssbody\<lparr>ss_syn := Some 0\<rparr>)))) w)
             (\<lambda>(ret, w1). if ret \<noteq> 0 then Done (-1, w1) else Done (0, w1))))"

definition StopToBackEnd :: "codec \<Rightarrow> ptr option \<Rightarrow> ptr \<Rightarrow> cworld \<Rightarrow> (int \<times> cworld) exec" where
  "StopToBackEnd cd back p w =
     bindE (get_session p w) (\<lambda>s.
       if \<not> frame_stub s \<or> back = None then Done (-1, w)
       else
         bindE (session_ids s w) (\<lambda>t.
           bindE (SendToBackEnd back
                    (Some (ss_ser cd (ss_message 1 SS_FIN t (empty_ssbody\<lparr>ss_fin := Some 0\<rparr>)))) w)
             (\<lambda>(ret, w1). if ret \<noteq> 0 then Done (-1, w1) else Done (0, w1))))"

text \<open>\<open>StopBackEndSession\<close>: the last backend is never recorded.\<close>

definition StopBackEndSession :: "codec \<Rightarrow> ptr \<Rightarrow> cworld \<Rightarrow> (int \<times> cworld) exec" where
  "StopBackEndSession cd p w =
     (let last_backend = None in
      case last_backend of
        Some b \<Rightarrow> StopToBackEnd cd (Some b) p w
      | None \<Rightarrow> Done (0, w))"

definition send_and_go :: "codec \<Rightarrow> csmsg \<Rightarrow> SessionState \<Rightarrow> ptr \<Rightarrow> cworld \<Rightarrow> (int \<times> cworld) exec" where
  "send_and_go cd msg st p w =
     bindE (SerializeAndSendToFrontEnd cd msg p w) (\<lambda>(ret, w1).
       if ret \<noteq> 0 then Done (-1, w1)
       else bindE (set_session p (\<lambda>s. s\<lparr>state := st\<rparr>) w1) (\<lambda>w2. Done (0, w2)))"

definition HandleKeyMaking :: "codec \<Rightarrow> ptr \<Rightarrow> cworld \<Rightarrow> (int \<times> cworld) exec" where
  "HandleKeyMaking cd =
     send_and_go cd (cs_message 1 CS_SYNACK (empty_csbody\<lparr>cs_ack := Some ''test secret key''\<rparr>)) STATE_AUTH"

definition HandleAuthRequest :: "codec \<Rightarrow> ptr \<Rightarrow> cworld \<Rightarrow> (int \<times> cworld) exec" where
  "HandleAuthRequest cd =
     send_and_go cd (cs_message 1 CS_PASSPORT (empty_csbody\<lparr>cs_passport := Some 102030\<rparr>)) STATE_SYNING"

definition HandShake_StartSession :: "codec \<Rightarrow> ptr \<Rightarrow> cworld \<Rightarrow> (int \<times> cworld) exec" where
  "HandShake_StartSession cd p w =
     bindE (next_backend w) (\<lambda>(back, w1).
       bindE (StartToBackEnd cd back p w1) (\<lambda>(ret, w2).
         if ret \<noteq> 0 then Done (-1, w2)
         else bindE (set_session p (\<lambda>s. s\<lparr>state := STATE_SYNACK\<rparr>) w2) (\<lambda>w3. Done (0, w3))))"

definition HandShake_OnStartAcked :: "codec \<Rightarrow> ptr \<Rightarrow> cworld \<Rightarrow> (int \<times> cworld) exec" where
  "HandShake_OnStartAcked cd =
     send_and_go cd (cs_message 1 CS_START_APP (empty_csbody\<lparr>cs_start := Some 0\<rparr>)) STATE_OK"

definition HandShake_OnStopNotify :: "ptr \<Rightarrow> cworld \<Rightarrow> (int \<times> cworld) exec" where
  "HandShake_OnStopNotify p w =
     bindE (get_session p w) (\<lambda>s.
       if \<not> frame_stub s \<or> net_stub s = None then Crash AssertFailed
       else bindE (destroy_own p w) (\<lambda>w1. Done (0, w1)))"

definition DriveStateMachine :: "codec \<Rightarrow> ptr \<Rightarrow> cworld \<Rightarrow> (int \<times> cworld) exec" where
  "DriveStateMachine cd p w =
     bindE (get_session p w) (\<lambda>s.
       case state s of
         STATE_INIT \<Rightarrow> HandleKeyMaking cd p w
       | STATE_AUTH \<Rightarrow> HandleAuthRequest cd p w
       | STATE_SYNING \<Rightarrow> HandShake_StartSession cd p w
       | STATE_SYNACK \<Rightarrow> HandShake_OnStartAcked cd p w
       | STATE_OK \<Rightarrow> HandShake_OnStopNotify p w)"

end
