(* ===== verification/ConnectorApp.thy ===== *)
theory ConnectorApp
  imports ConnectorSession
begin

text \<open>
  \<open>server/connector/connector_app.*\<close>: the connector as an application of the framework. The
  flag \<open>dbg\<close> is \<open>_DEBUG\<close>, under which the checks on downstream data are compiled out.
  \<open>connector_app\<close> collects the callbacks into the record the framework calls.
\<close>

section \<open>Callbacks\<close>

text \<open>\<open>OnInit\<close>: one backend connection per configured URI.\<close>

fun create_backends :: "(session, connector) rapid_app \<Rightarrow> string list \<Rightarrow> cworld \<Rightarrow> (int \<times> cworld) exec" where
  "create_backends app [] w = Done (0, w)"
| "create_backends app (u # us) w =
     bindE (CreateBackEnd app (Some u) 0 w) (\<lambda>(net, w1).
       case net of
         None \<Rightarrow> Done (-1, w1)
       | Some q \<Rightarrow> create_backends app us (w1\<lparr>app_state := AddBackEnd q (app_state w1)\<rparr>))"

definition Connector_OnInit ::
    "(session, connector) rapid_app \<Rightarrow> cworld \<Rightarrow> (int \<times> cworld) exec" where
  "Connector_OnInit app w =
     (let w1 = w\<lparr>app_state := (app_state w)\<lparr>app_stub := True\<rparr>\<rparr> in
      case config_backends (app_state w1) of
        None \<Rightarrow> Done (-1, w1)
      | Some us \<Rightarrow> if us = [] then Done (-1, w1) else create_backends app us w1)"

definition Connector_OnFrontEndConnect :: "ptr \<Rightarrow> int \<Rightarrow> cworld \<Rightarrow> (int \<times> cworld) exec" where
  "Connector_OnFrontEndConnect p type w =
     (if \<not> app_stub (app_state w) then Done (-1, w)
      else
        bindE (get_net p w) (\<lambda>n.
          case user_context n of
            None \<Rightarrow> Done (-1, w)
          | Some ctx \<Rightarrow>
              (case Session_Init (Some p) True ConnectorSession_new of
                 (ret, s) \<Rightarrow>
                   let w1 = set_net p (n\<lparr>user_context := Some s\<rparr>) w
                   in if ret \<noteq> 0 then Done (-1, w1) else Done (0, w1))))"

definition Connector_OnFrontEndClose :: "codec \<Rightarrow> ptr \<Rightarrow> int \<Rightarrow> cworld \<Rightarrow> (int \<times> cworld) exec" where
  "Connector_OnFrontEndClose cd p type w =
     (if \<not> app_stub (app_state w) then Done (-1, w)
      else
        bindE (GetUserContext (Some p) w) (\<lambda>ctx.
          if ctx = None then Done (-1, w)
          else
            bindE (StopBackEndSession cd p w) (\<lambda>(r, w1).
              bindE (set_session p Session_CleanUp w1) (\<lambda>w2. Done (0, w2)))))"

text \<open>
  \<open>OnRecvFrontEnd\<close>. The handshake branch ends without a \<open>return\<close>; its value is only
  logged and is 0 here.
\<close>

definition drive_or_close :: "codec \<Rightarrow> ptr \<Rightarrow> cworld \<Rightarrow> (cworld \<Rightarrow> (int \<times> cworld) exec) \<Rightarrow> (int \<times> cworld) exec" where
  "drive_or_close cd p w k =
     bindE (DriveStateMachine cd p w) (\<lambda>(ret, w1).
       if ret < 0 then bindE (DestroyFrontEnd (Some p) w1) (\<lambda>w2. Done (-1, w2)) else k w1)"

definition Connector_OnRecvFrontEnd ::
    "codec \<Rightarrow> ptr \<Rightarrow> int \<Rightarrow> view \<Rightarrow> cworld \<Rightarrow> (int \<times> cworld) exec" where
  "Connector_OnRecvFrontEnd cd p type msg w =
     (if \<not> app_stub (app_state w) then Done (-1, w)
      else
        bindE (GetUserContext (Some p) w) (\<lambda>ctx.
          case ctx of
            None \<Rightarrow> Done (-1, w)
          | Some s \<Rightarrow>
              (let up_msg = cs_parse cd msg;
                   (ret, s1) = CheckUpSideMessage up_msg s
               in if ret \<noteq> 0 then Done (-1, w)
                  else
                    bindE (set_session p (\<lambda>_. s1) w) (\<lambda>w1.
                      if state s1 \<noteq> STATE_OK then
                        drive_or_close cd p w1 (\<lambda>w2.
                          bindE (get_session p w2) (\<lambda>s2.
                            if state s2 = STATE_SYNING
                            then drive_or_close cd p w2 (\<lambda>w3. Done (0, w3))
                            else Done (0, w2)))
                      else if cs_bodyid up_msg \<noteq> CS_DATA_TRANSPARENT then Done (-1, w1)
                      else ForwardUpSideMessage cd (cs_sequence up_msg) (csmsg_data up_msg) p w1))))"

definition Connector_OnRecvBackEnd ::
    "codec \<Rightarrow> bool \<Rightarrow> ptr \<Rightarrow> int \<Rightarrow> view \<Rightarrow> cworld \<Rightarrow> (int \<times> cworld) exec" where
  "Connector_OnRecvBackEnd cd dbg p type msg w =
     (if \<not> app_stub (app_state w) then Crash AssertFailed
      else
        (let down_msg = ss_parse cd msg; t = ss_session down_msg in
         bindE (GetFrontEndByAsyncIds (ss_fd t) (ss_nid t) w) (\<lambda>front.
           case front of
             None \<Rightarrow> Done (-1, w)
           | Some f \<Rightarrow>
               bindE (GetUserContext (Some f) w) (\<lambda>ctx.
                 case ctx of
                   None \<Rightarrow> Done (-1, w)
                 | Some s \<Rightarrow>
                     if ss_bodyid down_msg \<noteq> SS_DATA then
                       (if ss_bodyid down_msg \<noteq> SS_FIN \<and> state s = STATE_OK then Done (0, w)
                        else
                          drive_or_close cd f w (\<lambda>w1.
                            bindE (set_session f (\<lambda>s. s\<lparr>sid := ss_sid t\<rparr>) w1) (\<lambda>w2. Done (0, w2))))
                     else if \<not> dbg \<and> (state s \<noteq> STATE_OK \<or> sid s \<noteq> ss_sid t) then
                       bindE (DestroyFrontEnd (Some f) w) (\<lambda>w1. Done (-1, w1))
                     else ForwardDownSideMessage cd (ss_sequence down_msg) (ssmsg_data down_msg) f w))))"

text \<open>\<open>sizeof(ConnectorSession)\<close> is only compared with 0.\<close>

definition connector_base :: "codec \<Rightarrow> bool \<Rightarrow> (session, connector) rapid_app" where
  "connector_base cd dbg =
     \<lparr>OnInit = (\<lambda>w. Done (0, w)), OnFini = (\<lambda>w. Done (0, w)), OnUpdate = Done, OnReload = Done,
      OnRecvCtrl = (\<lambda>_ w. Done (0, w)), OnFrontEndConnect = Connector_OnFrontEndConnect,
      OnFrontEndClose = Connector_OnFrontEndClose cd,
      OnRecvFrontEnd = Connector_OnRecvFrontEnd cd,
      OnRecvBackEnd = Connector_OnRecvBackEnd cd dbg, OnTimer = (\<lambda>_ _ w. Done w),
      GetFrontEndContextSize = 48, GetBackEndContextSize = 0, zero_context = zero_session\<rparr>"

definition connector_app :: "codec \<Rightarrow> bool \<Rightarrow> (session, connector) rapid_app" where
  "connector_app cd dbg =
     (connector_base cd dbg)\<lparr>OnInit := Connector_OnInit (connector_base cd dbg)\<rparr>"

section \<open>A connection that is up\<close>

text \<open>
  The connection \<open>p\<close> is allocated, established and registered; its session is \<open>s\<close>,
  initialised for it; the next writes succeed.
\<close>

definition up_front :: "cworld \<Rightarrow> ptr \<Rightarrow> session easy_net \<Rightarrow> bufferevent \<Rightarrow> session \<Rightarrow> bool" where
  "up_front w p n b s =
     (nets (net_heap w) p = Some n \<and> hevent n = Some b \<and> net_state n = NET_ESTABLISHED
      \<and> user_context n = Some s \<and> net_stub s = Some p \<and> frame_stub s
      \<and> write_rc (env w) = [] \<and> app_stub (app_state w))"

lemma up_frontD:
  assumes "up_front w p n b s"
  shows "nets (net_heap w) p = Some n" "hevent n = Some b" "net_state n = NET_ESTABLISHED"
    "user_context n = Some s" "net_stub s = Some p" "frame_stub s" "write_rc (env w) = []"
    "app_stub (app_state w)"
  using assms by (simp_all add: up_front_def)

lemma net_Send_ok:
  assumes "nets (net_heap w) p = Some n" and "hevent n = Some b" and "net_state n = NET_ESTABLISHED"
    and "write_rc (env w) = []" and "m \<noteq> []"
  shows "net_Send p (Some m) w
           = Done (0, set_net p (n\<lparr>hevent := Some (bev_write (encode_frame m) b)\<rparr>) w)"
  using assms EasyNet_Send_ok [OF assms(3,2,5)]
  by (simp add: net_Send_def get_net_def draw_write_def)

lemma SendToFrontEnd_ok:
  assumes "nets (net_heap w) p = Some n" and "hevent n = Some b" and "net_state n = NET_ESTABLISHED"
    and "write_rc (env w) = []" and "m \<noteq> []"
  shows "SendToFrontEnd (Some p) (Some m) w
           = Done (0, set_net p (n\<lparr>hevent := Some (bev_write (encode_frame m) b)\<rparr>) w)"
  using net_Send_ok [OF assms] assms(5) by (simp add: SendToFrontEnd_def)

text \<open>The connection after a message has been sent on it and its session has become \<open>s'\<close>.\<close>

definition sent_front :: "session easy_net \<Rightarrow> bufferevent \<Rightarrow> byte list \<Rightarrow> session \<Rightarrow> session easy_net" where
  "sent_front n b m s' =
     n\<lparr>hevent := Some (bev_write (encode_frame m) b), user_context := Some s'\<rparr>"

lemma set_net_get [simp]: "get_net p (set_net p n w) = Done n"
  by (simp add: get_net_def set_net_def)

lemma set_net_twice [simp]: "set_net p n' (set_net p n w) = set_net p n' w"
  by (simp add: set_net_def)

lemma nets_set_net [simp]: "nets (net_heap (set_net p n w)) = (nets (net_heap w))(p \<mapsto> n)"
  by (simp add: set_net_def)

lemma set_net_other [simp]:
  "env (set_net p n w) = env w" "app_state (set_net p n w) = app_state w"
  "frontend_mgr (set_net p n w) = frontend_mgr w" "backend_mgr (set_net p n w) = backend_mgr w"
  "now_time (set_net p n w) = now_time w" "svc_mode (set_net p n w) = svc_mode w"
  by (simp_all add: set_net_def)

lemma send_and_go_ok:
  assumes "up_front w p n b s" and "cs_ser cd msg \<noteq> []"
  shows "send_and_go cd msg st p w
           = Done (0, set_net p (sent_front n b (cs_ser cd msg) (s\<lparr>state := st\<rparr>)) w)"
  using up_frontD [OF assms(1)] SendToFrontEnd_ok [of w p n b "cs_ser cd msg"] assms(2)
  by (simp add: send_and_go_def SerializeAndSendToFrontEnd_def get_session_def get_net_def
      set_session_def sent_front_def)

lemma SendToBackEnd_ok:
  assumes "nets (net_heap w) q = Some n" and "hevent n = Some b" and "net_state n = NET_ESTABLISHED"
    and "write_rc (env w) = []" and "m \<noteq> []"
  shows "SendToBackEnd (Some q) (Some m) w
           = Done (0, set_net q (n\<lparr>hevent := Some (bev_write (encode_frame m) b),
                                   last_active_timestamp := now_time w\<rparr>) w)"
  using net_Send_ok [OF assms] assms(5) by (simp add: SendToBackEnd_def modify_net_def)

text \<open>Removing a registered frontend.\<close>

lemma DestroyFrontEnd_gone:
  assumes "nets (net_heap w) p = Some n" and "hevent n = Some b"
    and "map_of (handler_pool (frontend_mgr w)) (bev_fd b) = Some p"
  shows "\<exists>w'. DestroyFrontEnd (Some p) w = Done w' \<and> nets (net_heap w') = (nets (net_heap w))(p := None)
           \<and> handler_pool (frontend_mgr w') = pool_erase (bev_fd b) (handler_pool (frontend_mgr w))
           \<and> svc_mode w' = svc_mode w \<and> app_state w' = app_state w"
  using assms
  by (simp add: DestroyFrontEnd_def RemoveHandler_def RemoveHandlerByEvent_def update_net_def
      free_net_def)

lemma destroy_own_crash:
  assumes "nets (net_heap w) p = Some n" and "hevent n = Some b" and "user_context n = Some s"
    and "net_stub s = Some p" and "map_of (handler_pool (frontend_mgr w)) (bev_fd b) = Some p"
  shows "destroy_own p w = Crash UseAfterFree"
proof -
  obtain w' where "DestroyFrontEnd (Some p) w = Done w'" "nets (net_heap w') p = None"
    using DestroyFrontEnd_gone [OF assms(1,2,5)] by auto
  then show ?thesis
    using assms by (simp add: destroy_own_def get_session_def get_net_def set_session_def)
qed

section \<open>Backends in turn\<close>

definition backs_ok :: "connector \<Rightarrow> bool" where
  "backs_ok c = (length (backends c) = 32 \<and> 0 < backend_used c \<and> backend_used c \<le> 32
                 \<and> (\<forall>i < backend_used c. backends c ! i \<noteq> None)
                 \<and> backend_pos c \<le> backend_used c)"

lemma next_backend_ok:
  assumes "backs_ok (app_state w)"
  shows "next_backend w = Done (backends (app_state w) ! (backend_pos (app_state w) mod backend_used (app_state w)),
           w\<lparr>app_state := (app_state w)\<lparr>backend_pos := backend_pos (app_state w) mod backend_used (app_state w) + 1\<rparr>\<rparr>)
         \<and> backs_ok ((app_state w)\<lparr>backend_pos := backend_pos (app_state w) mod backend_used (app_state w) + 1\<rparr>)"
proof -
  let ?c = "app_state w"
  have "(if backend_used ?c \<le> backend_pos ?c then 0 else backend_pos ?c)
          = backend_pos ?c mod backend_used ?c"
    using assms by (auto simp: backs_ok_def le_antisym)
  moreover have "backend_pos ?c mod backend_used ?c < backend_used ?c"
    using assms by (simp add: backs_ok_def)
  ultimately show ?thesis
    using assms by (auto simp: next_backend_def backs_ok_def Let_def)
qed

fun next_backends :: "nat \<Rightarrow> cworld \<Rightarrow> ptr option list exec" where
  "next_backends 0 w = Done []"
| "next_backends (Suc k) w =
     bindE (next_backend w) (\<lambda>(b, w1). bindE (next_backends k w1) (\<lambda>bs. Done (b # bs)))"

lemma next_backends_cyclic:
  "backs_ok (app_state w) \<Longrightarrow>
   next_backends k w = Done (map (\<lambda>i. backends (app_state w)
     ! ((backend_pos (app_state w) + i) mod backend_used (app_state w))) [0..<k])"
proof (induction k arbitrary: w)
  case (Suc k)
  let ?c = "app_state w"
  let ?w = "w\<lparr>app_state := ?c\<lparr>backend_pos := backend_pos ?c mod backend_used ?c + 1\<rparr>\<rparr>"
  have 1: "next_backend w = Done (backends ?c ! (backend_pos ?c mod backend_used ?c), ?w)"
    "backs_ok (app_state ?w)"
    using next_backend_ok [OF Suc.prems] by auto
  have "(backend_pos ?c mod backend_used ?c + 1 + i) mod backend_used ?c
          = (backend_pos ?c + Suc i) mod backend_used ?c" for i
    by (metis add.assoc mod_add_left_eq plus_1_eq_Suc)
  then have "next_backends k ?w = Done (map (\<lambda>i. backends ?c
      ! ((backend_pos ?c + Suc i) mod backend_used ?c)) [0..<k])"
    using Suc.IH [OF 1(2)] by simp
  with 1(1) show ?case
    by (simp add: upt_conv_Cons map_Suc_upt [symmetric] comp_def del: upt_Suc)
qed simp

section \<open>The handshake, message by message\<close>

lemma Check_state: "CheckUpSideMessage m s = (0, s1) \<Longrightarrow>
   state s1 = state s \<and> net_stub s1 = net_stub s \<and> frame_stub s1 = frame_stub s \<and> sid s1 = sid s"
  by (auto simp: CheckUpSideMessage_def split: if_splits)

lemma up_front_check:
  assumes "up_front w p n b s" and "CheckUpSideMessage m s = (0, s1)"
  shows "set_session p (\<lambda>_. s1) w = Done (set_net p (n\<lparr>user_context := Some s1\<rparr>) w)"
    and "up_front (set_net p (n\<lparr>user_context := Some s1\<rparr>) w) p (n\<lparr>user_context := Some s1\<rparr>) b s1"
  using assms Check_state [OF assms(2)] by (auto simp: up_front_def set_session_def get_net_def)

lemma sent_front_ctx [simp]:
  "sent_front (n\<lparr>user_context := c\<rparr>) b m s = sent_front n b m s"
  by (simp add: sent_front_def)

lemma up_front_sent:
  assumes "up_front w p n b s" and "net_stub s' = Some p" and "frame_stub s'"
  shows "up_front (set_net p (sent_front n b m s') w) p (sent_front n b m s')
           (bev_write (encode_frame m) b) s'"
  using assms by (simp add: up_front_def sent_front_def)

text \<open>The reply and next state of the two steps that only involve the client.\<close>

definition front_reply :: "SessionState \<Rightarrow> (csmsg \<times> SessionState) option" where
  "front_reply st =
     (case st of
        STATE_INIT \<Rightarrow>
          Some (cs_message 1 CS_SYNACK (empty_csbody\<lparr>cs_ack := Some ''test secret key''\<rparr>), STATE_AUTH)
      | STATE_SYNACK \<Rightarrow>
          Some (cs_message 1 CS_START_APP (empty_csbody\<lparr>cs_start := Some 0\<rparr>), STATE_OK)
      | _ \<Rightarrow> None)"

lemma Drive_front:
  assumes "up_front w p n b s" and "front_reply (state s) = Some (m, st)" and "cs_ser cd m \<noteq> []"
  shows "DriveStateMachine cd p w = Done (0, set_net p (sent_front n b (cs_ser cd m) (s\<lparr>state := st\<rparr>)) w)"
  using up_frontD [OF assms(1)] send_and_go_ok [OF assms(1)] assms(2,3)
  by (auto simp: DriveStateMachine_def get_session_def get_net_def HandleKeyMaking_def
      HandShake_OnStartAcked_def front_reply_def split: SessionState.splits)

definition auth_reply :: csmsg where
  "auth_reply = cs_message 1 CS_PASSPORT (empty_csbody\<lparr>cs_passport := Some 102030\<rparr>)"

definition start_request :: "ss_tuple \<Rightarrow> ssmsg" where
  "start_request t = ss_message 1 SS_SYN t (empty_ssbody\<lparr>ss_syn := Some 0\<rparr>)"

definition front_tuple :: "session easy_net \<Rightarrow> bufferevent \<Rightarrow> session \<Rightarrow> ss_tuple" where
  "front_tuple n b s = \<lparr>ss_fd = word_of_int (bev_fd b), ss_nid = scast (nid n), ss_sid = sid s\<rparr>"

lemma Drive_auth:
  assumes "up_front w p n b s" and "state s = STATE_AUTH" and "cs_ser cd auth_reply \<noteq> []"
  shows "DriveStateMachine cd p w
           = Done (0, set_net p (sent_front n b (cs_ser cd auth_reply) (s\<lparr>state := STATE_SYNING\<rparr>)) w)"
  using up_frontD [OF assms(1)] send_and_go_ok [OF assms(1)] assms(2,3)
  by (auto simp: DriveStateMachine_def get_session_def get_net_def HandleAuthRequest_def
      auth_reply_def)

lemma session_ids_up:
  "up_front w p n b s \<Longrightarrow> session_ids s w = Done (front_tuple n b s)"
  by (simp add: session_ids_def GetNetIds_def get_net_def front_tuple_def up_front_def)

text \<open>The backend whose turn it is, and the state after it has been taken.\<close>

definition turn :: "cworld \<Rightarrow> ptr option" where
  "turn w = backends (app_state w) ! (backend_pos (app_state w) mod backend_used (app_state w))"

definition turned :: "cworld \<Rightarrow> cworld" where
  "turned w = w\<lparr>app_state := (app_state w)\<lparr>backend_pos :=
                  backend_pos (app_state w) mod backend_used (app_state w) + 1\<rparr>\<rparr>"

lemma next_backend_turn: "backs_ok (app_state w) \<Longrightarrow> next_backend w = Done (turn w, turned w)"
  using next_backend_ok by (simp add: turn_def turned_def)

lemma turned_same [simp]:
  "net_heap (turned w) = net_heap w" "env (turned w) = env w" "frontend_mgr (turned w) = frontend_mgr w"
  "now_time (turned w) = now_time w" "set_net p n (turned w) = turned (set_net p n w)"
  "turn (set_net p n w) = turn w" "svc_mode (turned w) = svc_mode w"
  by (simp_all add: turned_def set_net_def turn_def)

lemma up_front_turned: "up_front w p n b s \<Longrightarrow> up_front (turned w) p n b s"
  by (simp add: up_front_def turned_def)

lemma Drive_syning:
  assumes "up_front w p n b s" and "state s = STATE_SYNING" and "backs_ok (app_state w)"
    and "turn w = Some q" and "q \<noteq> p" and "nets (net_heap w) q = Some nq" and "hevent nq = Some bq"
    and "net_state nq = NET_ESTABLISHED" and "ss_ser cd (start_request (front_tuple n b s)) \<noteq> []"
  shows "DriveStateMachine cd p w = Done (0,
           set_net p (n\<lparr>user_context := Some (s\<lparr>state := STATE_SYNACK\<rparr>)\<rparr>)
             (set_net q (nq\<lparr>hevent := Some (bev_write (encode_frame
                 (ss_ser cd (start_request (front_tuple n b s)))) bq),
                            last_active_timestamp := now_time w\<rparr>) (turned w)))"
  using up_frontD [OF assms(1)] assms(2-) session_ids_up [OF up_front_turned [OF assms(1)]]
    SendToBackEnd_ok [of "turned w" q nq bq "ss_ser cd (start_request (front_tuple n b s))"]
  by (simp add: DriveStateMachine_def get_session_def get_net_def HandShake_StartSession_def
      next_backend_turn StartToBackEnd_def start_request_def set_session_def)

lemma Drive_syning_down:
  assumes "up_front w p n b s" and "state s = STATE_SYNING" and "backs_ok (app_state w)"
    and "turn w = Some q" and "nets (net_heap w) q = Some nq" and "hevent nq = Some bq"
    and "net_state nq \<noteq> NET_ESTABLISHED" and "ss_ser cd (start_request (front_tuple n b s)) \<noteq> []"
  shows "DriveStateMachine cd p w = Done (-1, turned w)"
  using up_frontD [OF assms(1)] assms(2-) session_ids_up [OF up_front_turned [OF assms(1)]]
  by (auto simp: DriveStateMachine_def get_session_def get_net_def HandShake_StartSession_def
      next_backend_turn StartToBackEnd_def start_request_def SendToBackEnd_def net_Send_def
      EasyNet_Send_def)

lemma drive_done:
  "DriveStateMachine cd p w = Done (0, w1) \<Longrightarrow> drive_or_close cd p w k = k w1"
  by (simp add: drive_or_close_def)

text \<open>Both steps of a message in \<open>STATE_AUTH\<close>.\<close>

lemma OnRecvFrontEnd_enter:
  assumes "up_front w p n b s" and "CheckUpSideMessage (cs_parse cd v) s = (0, s1)"
    and "state s \<noteq> STATE_OK"
  shows "Connector_OnRecvFrontEnd cd p t v w =
           drive_or_close cd p (set_net p (n\<lparr>user_context := Some s1\<rparr>) w) (\<lambda>w2.
             bindE (get_session p w2) (\<lambda>s2.
               if state s2 = STATE_SYNING then drive_or_close cd p w2 (\<lambda>w3. Done (0, w3))
               else Done (0, w2)))"
  using up_frontD [OF assms(1)] assms(2,3) Check_state [OF assms(2)] up_front_check(1) [OF assms(1,2)]
  by (simp add: Connector_OnRecvFrontEnd_def GetUserContext_def get_net_def)

lemma front_step:
  assumes "up_front w p n b s" and "CheckUpSideMessage (cs_parse cd v) s = (0, s1)"
    and "front_reply (state s) = Some (m, st)" and "cs_ser cd m \<noteq> []"
  shows "Connector_OnRecvFrontEnd cd p t v w
           = Done (0, set_net p (sent_front n b (cs_ser cd m) (s1\<lparr>state := st\<rparr>)) w)"
proof -
  have st: "state s \<noteq> STATE_OK" "st \<noteq> STATE_SYNING"
    using assms(3) by (auto simp: front_reply_def split: SessionState.splits)
  have "front_reply (state s1) = Some (m, st)"
    using assms(3) Check_state [OF assms(2)] by simp
  then show ?thesis
    unfolding OnRecvFrontEnd_enter [OF assms(1,2) st(1)]
    using Drive_front [OF up_front_check(2) [OF assms(1,2)] _ assms(4)] st(2)
    by (simp add: drive_or_close_def get_session_def sent_front_def)
qed

lemma auth_first:
  assumes "up_front w p n b s" and "CheckUpSideMessage (cs_parse cd v) s = (0, s1)"
    and "state s = STATE_AUTH" and "cs_ser cd auth_reply \<noteq> []"
  defines "n1 \<equiv> sent_front n b (cs_ser cd auth_reply) (s1\<lparr>state := STATE_SYNING\<rparr>)"
  shows "Connector_OnRecvFrontEnd cd p t v w
           = drive_or_close cd p (set_net p n1 w) (\<lambda>w3. Done (0, w3))"
    and "up_front (set_net p n1 w) p n1 (bev_write (encode_frame (cs_ser cd auth_reply)) b)
           (s1\<lparr>state := STATE_SYNING\<rparr>)"
proof -
  note up1 = up_front_check(2) [OF assms(1,2)]
  have "state s1 = STATE_AUTH"
    using assms(3) Check_state [OF assms(2)] by simp
  note d = drive_done [OF Drive_auth [OF up1 this assms(4)]]
  have ne: "state s \<noteq> STATE_OK"
    using assms(3) by simp
  show "Connector_OnRecvFrontEnd cd p t v w
           = drive_or_close cd p (set_net p n1 w) (\<lambda>w3. Done (0, w3))"
    unfolding n1_def OnRecvFrontEnd_enter [OF assms(1,2) ne] d
    by (simp add: get_session_def sent_front_def)
  show "up_front (set_net p n1 w) p n1 (bev_write (encode_frame (cs_ser cd auth_reply)) b)
           (s1\<lparr>state := STATE_SYNING\<rparr>)"
    unfolding n1_def
    using up_front_sent [OF assms(1), of "s1\<lparr>state := STATE_SYNING\<rparr>" "cs_ser cd auth_reply"]
      up_frontD [OF assms(1)] Check_state [OF assms(2)]
    by simp
qed

lemma auth_step:
  assumes "up_front w p n b s" and "CheckUpSideMessage (cs_parse cd v) s = (0, s1)"
    and "state s = STATE_AUTH" and "cs_ser cd auth_reply \<noteq> []" and "backs_ok (app_state w)"
    and "turn w = Some q" and "q \<noteq> p" and "nets (net_heap w) q = Some nq" and "hevent nq = Some bq"
    and "net_state nq = NET_ESTABLISHED" and "ss_ser cd (start_request (front_tuple n b s)) \<noteq> []"
  shows "\<exists>w'. Connector_OnRecvFrontEnd cd p t v w = Done (0, w')
     \<and> nets (net_heap w') p = Some (sent_front n b (cs_ser cd auth_reply) (s1\<lparr>state := STATE_SYNACK\<rparr>))
     \<and> nets (net_heap w') q = Some (nq\<lparr>hevent := Some (bev_write (encode_frame
           (ss_ser cd (start_request (front_tuple n b s)))) bq), last_active_timestamp := now_time w\<rparr>)"
proof -
  let ?m = "cs_ser cd auth_reply"
  let ?s = "s1\<lparr>state := STATE_SYNING\<rparr>"
  let ?n = "sent_front n b ?m ?s"
  note a = auth_first [OF assms(1-4)]
  have ft: "front_tuple ?n (bev_write (encode_frame ?m) b) ?s = front_tuple n b s"
    using Check_state [OF assms(2)] by (simp add: front_tuple_def sent_front_def bev_write_def)
  have d: "DriveStateMachine cd p (set_net p ?n w) = Done (0,
      set_net p (?n\<lparr>user_context := Some (?s\<lparr>state := STATE_SYNACK\<rparr>)\<rparr>)
        (set_net q (nq\<lparr>hevent := Some (bev_write (encode_frame
            (ss_ser cd (start_request (front_tuple n b s)))) bq),
                       last_active_timestamp := now_time w\<rparr>) (turned (set_net p ?n w))))"
    using Drive_syning [OF a(2), of q nq bq cd] assms(5-) ft by simp
  show ?thesis
    unfolding a(1) using d assms(7) by (simp add: drive_or_close_def sent_front_def)
qed

lemma auth_down:
  assumes "up_front w p n b s" and "CheckUpSideMessage (cs_parse cd v) s = (0, s1)"
    and "state s = STATE_AUTH" and "cs_ser cd auth_reply \<noteq> []" and "backs_ok (app_state w)"
    and "turn w = Some q" and "q \<noteq> p" and "nets (net_heap w) q = Some nq" and "hevent nq = Some bq"
    and "net_state nq \<noteq> NET_ESTABLISHED" and "ss_ser cd (start_request (front_tuple n b s)) \<noteq> []"
    and "map_of (handler_pool (frontend_mgr w)) (bev_fd b) = Some p"
  shows "\<exists>w'. Connector_OnRecvFrontEnd cd p t v w = Done (-1, w') \<and> nets (net_heap w') p = None"
proof -
  let ?m = "cs_ser cd auth_reply"
  let ?s = "s1\<lparr>state := STATE_SYNING\<rparr>"
  let ?n = "sent_front n b ?m ?s"
  let ?b = "bev_write (encode_frame ?m) b"
  note a = auth_first [OF assms(1-4)]
  have ft: "front_tuple ?n ?b ?s = front_tuple n b s"
    using Check_state [OF assms(2)] by (simp add: front_tuple_def sent_front_def bev_write_def)
  have d: "DriveStateMachine cd p (set_net p ?n w) = Done (-1, turned (set_net p ?n w))"
    using Drive_syning_down [OF a(2), of q nq bq cd] assms(5-) ft by simp
  have b: "bev_fd ?b = bev_fd b"
    by (simp add: bev_write_def)
  have "nets (net_heap (turned (set_net p ?n w))) p = Some ?n" "hevent ?n = Some ?b"
      "map_of (handler_pool (frontend_mgr (turned (set_net p ?n w)))) (bev_fd ?b) = Some p"
    using assms(12) by (simp_all add: sent_front_def b del: map_of_eq_Some_iff)
  from DestroyFrontEnd_gone [OF this] show ?thesis
    unfolding a(1) using d by (auto simp: drive_or_close_def)
qed

text \<open>A failing write in a handshake step.\<close>

lemma Drive_send_fails:
  assumes "nets (net_heap w) p = Some n" and "hevent n = Some b" and "net_state n = NET_ESTABLISHED"
    and "user_context n = Some s" and "net_stub s = Some p" and "frame_stub s"
    and "write_rc (env w) = x # xs" and "x \<noteq> 0" and "\<And>m. cs_ser cd m \<noteq> []"
    and "state s \<noteq> STATE_OK" and "state s \<noteq> STATE_SYNING"
    and "map_of (handler_pool (frontend_mgr w)) (bev_fd b) = Some p"
  shows "DriveStateMachine cd p w = Crash UseAfterFree"
proof -
  define w1 where "w1 = set_net p n (w\<lparr>env := (env w)\<lparr>write_rc := xs\<rparr>\<rparr>)"
  have snd: "SendToFrontEnd (Some p) (Some (cs_ser cd m)) w = Done (-1, w1)" for m
    using assms(1-3,7-9) by (simp add: SendToFrontEnd_def net_Send_def get_net_def draw_write_def
        EasyNet_Send_def w1_def)
  have "nets (net_heap w1) p = Some n"
      "map_of (handler_pool (frontend_mgr w1)) (bev_fd b) = Some p"
    using assms(12) by (simp_all add: w1_def del: map_of_eq_Some_iff)
  from destroy_own_crash [OF this(1) assms(2,4,5) this(2)]
  have "SerializeAndSendToFrontEnd cd m p w = Crash UseAfterFree" for m
    using snd assms(1,4-6) by (simp add: SerializeAndSendToFrontEnd_def get_session_def get_net_def)
  then show ?thesis
    using assms(1,4,10,11)
    by (cases "state s") (simp_all add: DriveStateMachine_def get_session_def get_net_def
        HandleKeyMaking_def HandleAuthRequest_def HandShake_OnStartAcked_def send_and_go_def)
qed

lemma next_backends_turns:
  assumes "backs_ok (app_state w)" and "next_backends k w = Done bs"
  shows "None \<notin> set bs"
proof -
  have "bs = map (\<lambda>i. backends (app_state w)
     ! ((backend_pos (app_state w) + i) mod backend_used (app_state w))) [0..<k]"
    using next_backends_cyclic [OF assms(1), of k] assms(2) by simp
  moreover have "backends (app_state w) ! (j mod backend_used (app_state w)) \<noteq> None" for j
    using assms(1) by (simp add: backs_ok_def)
  ultimately show ?thesis
    by (metis (no_types, lifting) imageE set_map)
qed

text \<open>Messages checked one after the other.\<close>

fun accepts :: "csmsg list \<Rightarrow> session \<Rightarrow> bool" where
  "accepts [] s = True"
| "accepts (m # ms) s =
     (case CheckUpSideMessage m s of (ret, s1) \<Rightarrow> ret = 0 \<and> accepts ms s1)"

lemma accepts_iff:
  "accepts ms s =
     ((\<forall>m \<in> set ms. cs_magic m = MAGIC_CS_V1)
      \<and> successively (\<lambda>a b. a = 0 \<or> b = a + 1) (last_seq s # map cs_sequence ms))"
proof (induction ms arbitrary: s)
  case (Cons m ms)
  show ?case
    using Cons.IH by (cases ms) (auto simp: CheckUpSideMessage_def)
qed simp

section \<open>Properties\<close>

definition sample_codec :: codec where
  "sample_codec =
     \<lparr>cs_parse = (\<lambda>v. cs_message 5 CS_DATA_TRANSPARENT (empty_csbody\<lparr>cs_data :=
                    Some (case v of View d \<Rightarrow> d | Wild k \<Rightarrow> [])\<rparr>)),
      cs_ser = (\<lambda>m. word_of_int (cs_bodyid m) # csmsg_data m),
      ss_parse = (\<lambda>v. case v of
          View (x # d) \<Rightarrow> ss_message 9 (uint x) \<lparr>ss_fd = 7, ss_nid = 1, ss_sid = 3\<rparr> (empty_ssbody\<lparr>ss_data := Some d\<rparr>)
        | _ \<Rightarrow> ss_message 0 0 \<lparr>ss_fd = 0, ss_nid = 0, ss_sid = 0\<rparr> empty_ssbody),
      ss_ser = (\<lambda>m. word_of_int (ss_bodyid m) # ssmsg_data m)\<rparr>"

definition sample_conn :: connector where
  "sample_conn = \<lparr>backend_pos = 0, backend_used = 1, backends = Some 2 # replicate 31 None,
                  app_stub = True, config_backends = None\<rparr>"

definition sample_session :: "SessionState \<Rightarrow> session" where
  "sample_session st = ConnectorSession_new\<lparr>state := st, net_stub := Some 1, frame_stub := True,
                                            last_seq := 4, sid := 3\<rparr>"

definition back_net :: "NetState \<Rightarrow> session easy_net" where
  "back_net bst = (EasyNet_new 2)\<lparr>hevent := Some \<lparr>bev_fd = 9, bev_in = [], bev_out = []\<rparr>,
                                  net_state := bst\<rparr>"

definition conn_world :: "byte list \<Rightarrow> SessionState \<Rightarrow> NetState \<Rightarrow> cworld" where
  "conn_world bs st bst =
     (sample_world bs (Some (sample_session st)) sample_conn)
       \<lparr>net_heap := \<lparr>nets = [1 \<mapsto> sample_net bs (Some (sample_session st)), 2 \<mapsto> back_net bst],
                     next_net = 3, nid_seed = 3\<rparr>,
        backend_mgr := \<lparr>handler_pool = [(9, 2)], recv_size = 64, it_cursor = None\<rparr>\<rparr>"

lemmas conn_world_simps =
  conn_world_def sample_world_def sample_net_def EasyNet_new_def sample_session_def
  ConnectorSession_new_def sample_conn_def back_net_def sample_answers_def

lemma conn_world_up:
  "up_front (conn_world bs st bst) 1 (sample_net bs (Some (sample_session st)))
     \<lparr>bev_fd = 7, bev_in = bs, bev_out = []\<rparr> (sample_session st)"
  by (simp add: up_front_def conn_world_simps)

lemma conn_world_check:
  "CheckUpSideMessage (cs_parse sample_codec v) (sample_session st)
     = (0, (sample_session st)\<lparr>last_seq := 5\<rparr>)"
  by (simp add: CheckUpSideMessage_def sample_codec_def cs_message_def sample_session_def)

lemma conn_world_backs: "backs_ok (app_state (conn_world bs st bst))"
  by (simp add: backs_ok_def conn_world_simps)

text \<open>C29. Two steps of the handshake involve only the client. Any message that passes the check,
  whatever its command, makes a session in \<open>STATE_INIT\<close> send \<open>SYNACK\<close> and go to
  \<open>STATE_AUTH\<close>, and a session in \<open>STATE_SYNACK\<close> send \<open>START_APP\<close> and go to
  \<open>STATE_OK\<close>: the client can complete the handshake in place of the backend's
  acknowledgement.\<close>

theorem connector_front_steps:
  assumes "up_front w p n b s" and "CheckUpSideMessage (cs_parse cd v) s = (0, s1)"
    and "front_reply (state s) = Some (m, st)" and "cs_ser cd m \<noteq> []"
  shows "Connector_OnRecvFrontEnd cd p t v w
           = Done (0, set_net p (sent_front n b (cs_ser cd m) (s1\<lparr>state := st\<rparr>)) w)"
  by (rule front_step [OF assms])

theorem connector_front_steps_witness:
  "\<exists>w'. Connector_OnRecvFrontEnd sample_codec 1 0 (View [8]) (conn_world [] STATE_SYNACK NET_ESTABLISHED)
     = Done (0, w') \<and> get_session 1 w' = Done ((sample_session STATE_OK)\<lparr>last_seq := 5\<rparr>)"
proof -
  have r: "front_reply (state (sample_session STATE_SYNACK))
      = Some (cs_message 1 CS_START_APP (empty_csbody\<lparr>cs_start := Some 0\<rparr>), STATE_OK)"
    by (simp add: front_reply_def sample_session_def)
  show ?thesis
    using connector_front_steps [OF conn_world_up [of "[]" STATE_SYNACK NET_ESTABLISHED]
        conn_world_check [of "View [8]" STATE_SYNACK] r, of 0]
    by (simp add: sample_codec_def get_session_def sent_front_def sample_session_def)
qed

text \<open>A message in \<open>STATE_AUTH\<close> makes two steps: the client gets its passport, and the
  backend whose turn it is gets a \<open>SYN\<close> that carries the descriptor, id and session id of the
  frontend connection; the session waits in \<open>STATE_SYNACK\<close>.\<close>

theorem connector_auth_step:
  assumes "up_front w p n b s" and "CheckUpSideMessage (cs_parse cd v) s = (0, s1)"
    and "state s = STATE_AUTH" and "cs_ser cd auth_reply \<noteq> []" and "backs_ok (app_state w)"
    and "turn w = Some q" and "q \<noteq> p" and "nets (net_heap w) q = Some nq" and "hevent nq = Some bq"
    and "net_state nq = NET_ESTABLISHED" and "ss_ser cd (start_request (front_tuple n b s)) \<noteq> []"
  shows "\<exists>w'. Connector_OnRecvFrontEnd cd p t v w = Done (0, w')
     \<and> nets (net_heap w') p = Some (sent_front n b (cs_ser cd auth_reply) (s1\<lparr>state := STATE_SYNACK\<rparr>))
     \<and> nets (net_heap w') q = Some (nq\<lparr>hevent := Some (bev_write (encode_frame
           (ss_ser cd (start_request (front_tuple n b s)))) bq), last_active_timestamp := now_time w\<rparr>)"
  by (rule auth_step [OF assms])

theorem connector_auth_step_witness:
  "\<exists>w'. Connector_OnRecvFrontEnd sample_codec 1 0 (View [8]) (conn_world [] STATE_AUTH NET_ESTABLISHED)
     = Done (0, w') \<and> get_session 1 w' = Done ((sample_session STATE_SYNACK)\<lparr>last_seq := 5\<rparr>)"
  using connector_auth_step [OF conn_world_up [of "[]" STATE_AUTH NET_ESTABLISHED]
      conn_world_check [of "View [8]" STATE_AUTH] _ _ conn_world_backs, of 2 "back_net NET_ESTABLISHED"
         "\<lparr>bev_fd = 9, bev_in = [], bev_out = []\<rparr>" 0]
  by (auto simp: conn_world_simps sample_codec_def get_session_def get_net_def sent_front_def turn_def)

text \<open>With the backend down, the authentication message of a client crashes the connector: the
  start request fails, the application destroys the frontend connection, and the receive loop of
  the framework then updates the packet counter of the freed connection.\<close>

theorem connector_backend_down_crashes:
  assumes "up_front w p n b s" and "CheckUpSideMessage (cs_parse cd (View m)) s = (0, s1)"
    and "state s = STATE_AUTH" and "cs_ser cd auth_reply \<noteq> []" and "backs_ok (app_state w)"
    and "turn w = Some q" and "q \<noteq> p" and "nets (net_heap w) q = Some nq" and "hevent nq = Some bq"
    and "net_state nq \<noteq> NET_ESTABLISHED" and "ss_ser cd (start_request (front_tuple n b s)) \<noteq> []"
    and "map_of (handler_pool (frontend_mgr w)) (bev_fd b) = Some p"
    and "svc_mode w = SVC_MODE_NORMAL" and "bev_in b = encode_frame m @ r"
    and "length (bev_in b) \<le> recv_size (frontend_mgr w)" and "fits_frame m"
  shows "OnFrontEndMsg (connector_app cd dbg) rpc p w = Crash UseAfterFree"
proof -
  obtain w' where "Connector_OnRecvFrontEnd cd p (net_type n) (View m) w = Done (-1, w')"
      "nets (net_heap w') p = None"
    using auth_down [OF assms(1-12), of "net_type n"] by blast
  then have "OnRecvFrontEnd (connector_app cd dbg) p (net_type n) (View m) w = Done (-1, w')"
    by (simp add: connector_app_def connector_base_def)
  from OnFrontEndMsg_freed [OF assms(13) up_frontD(1,2) [OF assms(1)] assms(12,14-16) this]
  show ?thesis
    using \<open>nets (net_heap w') p = None\<close> by blast
qed

theorem connector_backend_down_crashes_witness:
  "OnFrontEndMsg (connector_app sample_codec False) no_rpc 1
     (conn_world [0, 0, 0, 5, 8] STATE_AUTH NET_CONNECTING_st) = Crash UseAfterFree"
proof -
  have e: "encode_frame [8] = [0, 0, 0, 5, 8]"
    by (simp add: encode_frame_def be32_def)
  show ?thesis
    using connector_backend_down_crashes [OF conn_world_up [of "[0, 0, 0, 5, 8]" STATE_AUTH
        NET_CONNECTING_st] conn_world_check [of "View [8]" STATE_AUTH] _ _ conn_world_backs,
        of 2 "back_net NET_CONNECTING_st"
           "\<lparr>bev_fd = 9, bev_in = [], bev_out = []\<rparr>" "[]" False no_rpc]
    by (simp add: e conn_world_simps sample_codec_def turn_def fits_frame_def)
qed

text \<open>A failing write during the handshake touches freed memory: the session asks the framework
  to destroy its own connection, passing the address of its member \<open>net_stub_\<close>, and the
  framework stores NULL there after the session has been freed with the connection.\<close>

theorem connector_send_failure_crashes:
  assumes "nets (net_heap w) p = Some n" and "hevent n = Some b" and "net_state n = NET_ESTABLISHED"
    and "user_context n = Some s" and "net_stub s = Some p" and "frame_stub s"
    and "write_rc (env w) = x # xs" and "x \<noteq> 0" and "\<forall>m. cs_ser cd m \<noteq> []"
    and "state s \<in> {STATE_INIT, STATE_AUTH, STATE_SYNACK}"
    and "map_of (handler_pool (frontend_mgr w)) (bev_fd b) = Some p"
  shows "DriveStateMachine cd p w = Crash UseAfterFree"
  using Drive_send_fails [OF assms(1-8) _ _ _ assms(11)] assms(9,10) by auto

theorem connector_send_failure_crashes_witness:
  "DriveStateMachine sample_codec 1
     ((conn_world [] STATE_INIT NET_ESTABLISHED)\<lparr>env := sample_answers\<lparr>write_rc := [-1]\<rparr>\<rparr>)
   = Crash UseAfterFree"
  by (rule connector_send_failure_crashes [where n = "sample_net [] (Some (sample_session STATE_INIT))"
        and b = "\<lparr>bev_fd = 7, bev_in = [], bev_out = []\<rparr>" and s = "sample_session STATE_INIT"
        and x = "-1" and xs = "[]"])
    (simp_all add: conn_world_simps sample_codec_def)

lemma ack_completes:
  assumes "GetFrontEndByAsyncIds (ss_fd (ss_session m)) (ss_nid (ss_session m)) w = Done (Some p)"
    and "up_front w p n b s" and "state s = STATE_SYNACK" and "ss_parse cd v = m"
    and "ss_bodyid m = SS_ACK" and "\<forall>m. cs_ser cd m \<noteq> []"
  shows "Connector_OnRecvBackEnd cd dbg q t v w
     = Done (0, set_net p (sent_front n b
          (cs_ser cd (cs_message 1 CS_START_APP (empty_csbody\<lparr>cs_start := Some 0\<rparr>)))
          (s\<lparr>state := STATE_OK, sid := ss_sid (ss_session m)\<rparr>)) w)"
proof -
  have ctx: "GetUserContext (Some p) w = Done (Some s)"
    using up_frontD [OF assms(2)] by (simp add: GetUserContext_def get_net_def)
  have reply: "front_reply (state s)
      = Some (cs_message 1 CS_START_APP (empty_csbody\<lparr>cs_start := Some 0\<rparr>), STATE_OK)"
    using assms(3) by (simp add: front_reply_def)
  from Drive_front [OF assms(2) reply] show ?thesis
    using assms up_frontD [OF assms(2)] ctx
    by (simp add: Connector_OnRecvBackEnd_def Let_def drive_or_close_def set_session_def sent_front_def)
qed

lemma downstream_step:
  assumes "GetFrontEndByAsyncIds (ss_fd (ss_session m)) (ss_nid (ss_session m)) w = Done (Some f)"
    and "up_front w f n b s" and "map_of (handler_pool (frontend_mgr w)) (bev_fd b) = Some f"
    and "ss_parse cd v = m" and "ss_bodyid m = SS_DATA" and "\<forall>m. cs_ser cd m \<noteq> []"
  shows "if state s \<noteq> STATE_OK \<or> sid s \<noteq> ss_sid (ss_session m)
         then \<exists>w'. Connector_OnRecvBackEnd cd False p t v w = Done (-1, w') \<and> nets (net_heap w') f = None
         else Connector_OnRecvBackEnd cd False p t v w =
           (if ssmsg_data m = [] then Done (-1, w)
            else Done (0, set_net f (sent_front n b (cs_ser cd (cs_message (ss_sequence m)
                      CS_DATA_TRANSPARENT (empty_csbody\<lparr>cs_data := Some (ssmsg_data m)\<rparr>))) s) w))"
proof -
  note u = up_frontD [OF assms(2)]
  have ctx: "GetUserContext (Some f) w = Done (Some s)"
    using u by (simp add: GetUserContext_def get_net_def)
  have n: "n\<lparr>hevent := Some x, user_context := Some s\<rparr> = n\<lparr>hevent := Some x\<rparr>" for x
    using u(4) by (cases n) simp
  obtain w' where "DestroyFrontEnd (Some f) w = Done w'" "nets (net_heap w') f = None"
    using DestroyFrontEnd_gone [OF u(1,2) assms(3)] by auto
  moreover have "SendToFrontEnd (Some f) (Some (cs_ser cd x)) w = Done (0, set_net f (sent_front n b (cs_ser cd x) s) w)"
    for x
    using SendToFrontEnd_ok [OF u(1-3,7), of "cs_ser cd x"] assms(6) n by (simp add: sent_front_def)
  ultimately show ?thesis
    using assms u ctx
    by (simp add: Connector_OnRecvBackEnd_def Let_def ForwardDownSideMessage_def get_session_def
        get_net_def)
qed

text \<open>C25. Downstream data in the release build: for a session that is not \<open>STATE_OK\<close> or has
  another session id the frontend is closed; empty data is dropped; otherwise the data is sent to
  exactly that frontend, as one frame with the backend's sequence number.\<close>

theorem connector_downstream_data:
  assumes "GetFrontEndByAsyncIds (ss_fd (ss_session m)) (ss_nid (ss_session m)) w = Done (Some f)"
    and "up_front w f n b s" and "map_of (handler_pool (frontend_mgr w)) (bev_fd b) = Some f"
    and "ss_parse cd v = m" and "ss_bodyid m = SS_DATA" and "\<forall>m. cs_ser cd m \<noteq> []"
  shows "if state s \<noteq> STATE_OK \<or> sid s \<noteq> ss_sid (ss_session m)
         then \<exists>w'. Connector_OnRecvBackEnd cd False p t v w = Done (-1, w') \<and> nets (net_heap w') f = None
         else Connector_OnRecvBackEnd cd False p t v w =
           (if ssmsg_data m = [] then Done (-1, w)
            else Done (0, set_net f (sent_front n b (cs_ser cd (cs_message (ss_sequence m)
                      CS_DATA_TRANSPARENT (empty_csbody\<lparr>cs_data := Some (ssmsg_data m)\<rparr>))) s) w))"
  by (rule downstream_step [OF assms])

theorem connector_downstream_data_witness:
  "\<exists>w'. Connector_OnRecvBackEnd sample_codec False 2 0 (View [5, 77]) (conn_world [] STATE_OK NET_ESTABLISHED)
     = Done (0, w') \<and> map_option bev_out (Option.bind (nets (net_heap w') 1) hevent)
                        = Some (encode_frame [16, 77])"
proof -
  let ?w = "conn_world [] STATE_OK NET_ESTABLISHED"
  let ?m = "ss_parse sample_codec (View [5, 77])"
  have ids: "GetFrontEndByAsyncIds (ss_fd (ss_session ?m)) (ss_nid (ss_session ?m)) ?w = Done (Some 1)"
    by (simp add: sample_codec_def ss_message_def GetFrontEndByAsyncIds_def GetHandlerByAsyncIds_def
        conn_world_simps)
  have fd: "map_of (handler_pool (frontend_mgr ?w)) 7 = Some 1"
    by (simp add: conn_world_simps)
  have b: "ss_bodyid ?m = SS_DATA" "ss_sid (ss_session ?m) = 3" "ssmsg_data ?m = [77]"
    by (simp_all add: sample_codec_def ss_message_def ssmsg_data_def)
  have ser: "\<forall>m. cs_ser sample_codec m \<noteq> []"
    "cs_ser sample_codec (cs_message (ss_sequence ?m) CS_DATA_TRANSPARENT (empty_csbody\<lparr>cs_data := Some [77]\<rparr>))
      = [16, 77]"
    by (simp_all add: sample_codec_def cs_message_def csmsg_data_def)
  show ?thesis
    using connector_downstream_data [OF ids conn_world_up _ refl b(1) ser(1), of 2 0] fd b ser(2)
    by (simp add: sample_session_def sent_front_def bev_write_def)
qed

text \<open>A \<open>FIN\<close> from the backend for a session in \<open>STATE_OK\<close> touches freed memory:
  the frontend connection and the session in it are freed, then the session's own
  \<open>net_stub_\<close> is set to NULL.\<close>

theorem connector_fin_crashes:
  assumes "GetFrontEndByAsyncIds (ss_fd (ss_session m)) (ss_nid (ss_session m)) w = Done (Some f)"
    and "up_front w f n b s" and "map_of (handler_pool (frontend_mgr w)) (bev_fd b) = Some f"
    and "ss_parse cd v = m" and "ss_bodyid m = SS_FIN" and "state s = STATE_OK"
  shows "Connector_OnRecvBackEnd cd dbg p t v w = Crash UseAfterFree"
proof -
  note u = up_frontD [OF assms(2)]
  have "destroy_own f w = Crash UseAfterFree"
    by (rule destroy_own_crash [OF u(1,2,4,5) assms(3)])
  then show ?thesis
    using assms u
    by (simp add: Connector_OnRecvBackEnd_def Let_def GetUserContext_def get_net_def drive_or_close_def
        DriveStateMachine_def get_session_def HandShake_OnStopNotify_def)
qed

theorem connector_fin_crashes_witness:
  "Connector_OnRecvBackEnd sample_codec True 2 0 (View [4]) (conn_world [] STATE_OK NET_ESTABLISHED)
     = Crash UseAfterFree"
proof -
  let ?w = "conn_world [] STATE_OK NET_ESTABLISHED"
  let ?m = "ss_parse sample_codec (View [4])"
  have ids: "GetFrontEndByAsyncIds (ss_fd (ss_session ?m)) (ss_nid (ss_session ?m)) ?w = Done (Some 1)"
    by (simp add: sample_codec_def ss_message_def GetFrontEndByAsyncIds_def GetHandlerByAsyncIds_def
        conn_world_simps)
  show ?thesis
    by (rule connector_fin_crashes [OF ids conn_world_up _ refl])
      (simp_all add: conn_world_simps sample_codec_def ss_message_def)
qed

text \<open>Upstream messages are spread over the backends in turn: after a start-up that leaves at
  least one backend, any number of consecutive choices goes through the registered backends
  cyclically from the current position, and never yields NULL or leaves the array.\<close>

theorem connector_round_robin:
  assumes "backs_ok (app_state w)"
  shows "\<exists>bs. next_backends k w = Done bs \<and> length bs = k \<and> None \<notin> set bs
     \<and> (\<forall>i. i < k \<longrightarrow> bs ! i = backends (app_state w)
            ! ((backend_pos (app_state w) + i) mod backend_used (app_state w)))"
  using next_backends_cyclic [OF assms, of k] next_backends_turns [OF assms, of k] by simp

theorem connector_round_robin_witness:
  "\<exists>bs. next_backends 3 (conn_world [] STATE_OK NET_ESTABLISHED) = Done bs \<and> bs ! 2 = Some 2"
  using connector_round_robin [OF conn_world_backs, of 3 "[]" STATE_OK NET_ESTABLISHED]
  by (auto simp: conn_world_simps)

text \<open>The sequence check, over any list of messages on a new session: all are accepted exactly
  when every magic is right and each sequence number is the previous one plus 1 (as
  \<open>uint64_t\<close>), where a previous number 0 lets any number follow.\<close>

theorem connector_sequence_check:
  assumes "last_seq s = 0"
  shows "accepts ms s = ((\<forall>m \<in> set ms. cs_magic m = MAGIC_CS_V1)
           \<and> successively (\<lambda>a b. a = 0 \<or> b = a + 1) (map cs_sequence ms))"
  using accepts_iff [of ms s] assms by (cases ms) auto

theorem connector_sequence_check_witness:
  "accepts [cs_message 7 1 empty_csbody, cs_message 8 3 empty_csbody] ConnectorSession_new
   \<and> \<not> accepts [cs_message 7 1 empty_csbody, cs_message 9 3 empty_csbody] ConnectorSession_new"
proof -
  have "last_seq ConnectorSession_new = 0"
    by (simp add: ConnectorSession_new_def)
  from connector_sequence_check [OF this, of "[cs_message 7 1 empty_csbody, cs_message 8 3 empty_csbody]"]
    connector_sequence_check [OF this, of "[cs_message 7 1 empty_csbody, cs_message 9 3 empty_csbody]"]
  show ?thesis
    by (simp add: cs_message_def)
qed

end
