(* ===== verification/ServerApi.thy ===== *)
theory ServerApi
  imports ConnectorApp
begin

text \<open>
  \<open>server/connector/server_api/connector_server_api.*\<close> and the application that uses it,
  \<open>connector_server_demo.*\<close>: the backend's end of the protocol between connector and backend.
  The listener's virtual functions are a record, as the framework's are; the parser answers
  \<open>None\<close> when \<open>ParseFromArray\<close> returns false. The pointer \<open>from_net\<close> is passed
  through. A \<open>View []\<close> is a pointer with length 0; a NULL pointer does not come from the
  receive loop.
\<close>

section \<open>The API\<close>

record 'w conn_listener =
  OnConnStart :: "ptr \<Rightarrow> 32 word \<Rightarrow> 64 word \<Rightarrow> 'w \<Rightarrow> (int \<times> 'w) exec"
  OnConnStop :: "ptr \<Rightarrow> 32 word \<Rightarrow> 64 word \<Rightarrow> 32 word \<Rightarrow> 'w \<Rightarrow> (int \<times> 'w) exec"
  OnConnResume :: "ptr \<Rightarrow> 32 word \<Rightarrow> 64 word \<Rightarrow> 32 word \<Rightarrow> 'w \<Rightarrow> (int \<times> 'w) exec"
  OnData :: "ptr \<Rightarrow> 32 word \<Rightarrow> 64 word \<Rightarrow> 32 word \<Rightarrow> byte list \<Rightarrow> 'w \<Rightarrow> (int \<times> 'w) exec"
  SendToConn :: "ptr \<Rightarrow> byte list \<Rightarrow> 'w \<Rightarrow> (int \<times> 'w) exec"

text \<open>\<open>Init\<close>: the result and the stored listener.\<close>

definition ServerApi_Init ::
    "'w conn_listener option \<Rightarrow> 'w conn_listener option \<Rightarrow> int \<times> 'w conn_listener option" where
  "ServerApi_Init conn_listener stored =
     (case conn_listener of None \<Rightarrow> (-1, stored) | Some l \<Rightarrow> (0, Some l))"

text \<open>\<open>Dispatch\<close>; the results of the callbacks are not looked at.\<close>

definition ServerApi_Dispatch ::
    "(view \<Rightarrow> ssmsg option) \<Rightarrow> 'w conn_listener option \<Rightarrow> ptr \<Rightarrow> view \<Rightarrow> 'w \<Rightarrow> (int \<times> 'w) exec" where
  "ServerApi_Dispatch parse listener from_net data w =
     (if data = View [] then Done (-1, w)
      else
        (case parse data of
           None \<Rightarrow> Done (-1, w)
         | Some msg \<Rightarrow>
             (case listener of
                None \<Rightarrow> Crash AssertFailed
              | Some l \<Rightarrow>
                  (let t = ss_session msg; b = ss_bodyid msg in
                   bindE
                     (if b = SS_SYN then OnConnStart l from_net (ss_fd t) (ss_nid t) w
                      else if b = SS_FIN then OnConnStop l from_net (ss_fd t) (ss_nid t) (ss_sid t) w
                      else if b = SS_RSM then OnConnResume l from_net (ss_fd t) (ss_nid t) (ss_sid t) w
                      else if b = SS_DATA
                        then OnData l from_net (ss_fd t) (ss_nid t) (ss_sid t) (ssmsg_data msg) w
                      else Done (0, w))
                     (\<lambda>(ret, w1). Done (0, w1))))))"

text \<open>
  The three messages to the connector: head with sequence 0, command and session, one body field.
  The messages are \<open>static\<close>; every field of one is set again by each call.
\<close>

definition to_conn ::
    "(ssmsg \<Rightarrow> byte list) \<Rightarrow> 'w conn_listener option \<Rightarrow> int \<Rightarrow> ssbody \<Rightarrow> ptr \<Rightarrow> ss_tuple \<Rightarrow> 'w
     \<Rightarrow> (int \<times> 'w) exec" where
  "to_conn ser listener bid body net t w =
     (case listener of
        None \<Rightarrow> Crash AssertFailed
      | Some l \<Rightarrow> SendToConn l net (ser (ss_message 0 bid t body)) w)"

definition StopConn ::
    "(ssmsg \<Rightarrow> byte list) \<Rightarrow> 'w conn_listener option \<Rightarrow> ptr \<Rightarrow> ss_tuple \<Rightarrow> 'w \<Rightarrow> (int \<times> 'w) exec" where
  "StopConn ser listener = to_conn ser listener SS_FIN (empty_ssbody\<lparr>ss_fin := Some 0\<rparr>)"

definition HandshakeToConn ::
    "(ssmsg \<Rightarrow> byte list) \<Rightarrow> 'w conn_listener option \<Rightarrow> ptr \<Rightarrow> ss_tuple \<Rightarrow> 'w \<Rightarrow> (int \<times> 'w) exec" where
  "HandshakeToConn ser listener = to_conn ser listener SS_ACK (empty_ssbody\<lparr>ss_ack := Some 0\<rparr>)"

definition SendDataToConn ::
    "(ssmsg \<Rightarrow> byte list) \<Rightarrow> 'w conn_listener option \<Rightarrow> ptr \<Rightarrow> ss_tuple \<Rightarrow> byte list \<Rightarrow> 'w
     \<Rightarrow> (int \<times> 'w) exec" where
  "SendDataToConn ser listener net t d =
     to_conn ser listener SS_DATA (empty_ssbody\<lparr>ss_data := Some d\<rparr>) net t"

section \<open>The demo application\<close>

text \<open>
  \<open>ServerDemoApp\<close>: its state is whether the framework stub is set. The application is the
  listener of its own API object: its callbacks call the API, which calls \<open>SendToConn\<close> of the
  application. The listener seen by the callbacks is the one with \<open>SendToConn\<close> only.
\<close>

record server_demo =
  demo_stub :: bool

definition demo_SendToConn :: "ptr \<Rightarrow> byte list \<Rightarrow> ('c, server_demo) world \<Rightarrow> (int \<times> ('c, server_demo) world) exec" where
  "demo_SendToConn net data w =
     (if \<not> demo_stub (app_state w) then Crash AssertFailed else SendToFrontEnd (Some net) (Some data) w)"

definition demo_sender :: "('c, server_demo) world conn_listener" where
  "demo_sender =
     \<lparr>OnConnStart = (\<lambda>_ _ _ w. Done (0, w)), OnConnStop = (\<lambda>_ _ _ _ w. Done (0, w)),
      OnConnResume = (\<lambda>_ _ _ _ w. Done (0, w)), OnData = (\<lambda>_ _ _ _ _ w. Done (0, w)),
      SendToConn = demo_SendToConn\<rparr>"

definition demo_OnConnStart ::
    "(ssmsg \<Rightarrow> byte list) \<Rightarrow> ptr \<Rightarrow> 32 word \<Rightarrow> 64 word \<Rightarrow> ('c, server_demo) world
     \<Rightarrow> (int \<times> ('c, server_demo) world) exec" where
  "demo_OnConnStart ser net fd i =
     HandshakeToConn ser (Some demo_sender) net \<lparr>ss_fd = fd, ss_nid = i, ss_sid = -1\<rparr>"

definition demo_OnData ::
    "(ssmsg \<Rightarrow> byte list) \<Rightarrow> ptr \<Rightarrow> 32 word \<Rightarrow> 64 word \<Rightarrow> 32 word \<Rightarrow> byte list \<Rightarrow> ('c, server_demo) world
     \<Rightarrow> (int \<times> ('c, server_demo) world) exec" where
  "demo_OnData ser net fd i s =
     SendDataToConn ser (Some demo_sender) net \<lparr>ss_fd = fd, ss_nid = i, ss_sid = s\<rparr>"

definition demo_listener :: "(ssmsg \<Rightarrow> byte list) \<Rightarrow> ('c, server_demo) world conn_listener" where
  "demo_listener ser =
     \<lparr>OnConnStart = demo_OnConnStart ser, OnConnStop = (\<lambda>_ _ _ _ w. Done (0, w)),
      OnConnResume = (\<lambda>_ _ _ _ w. Done (0, w)), OnData = demo_OnData ser,
      SendToConn = demo_SendToConn\<rparr>"

definition demo_OnRecvFrontEnd ::
    "(view \<Rightarrow> ssmsg option) \<Rightarrow> (ssmsg \<Rightarrow> byte list) \<Rightarrow> ptr \<Rightarrow> int \<Rightarrow> view \<Rightarrow> ('c, server_demo) world
     \<Rightarrow> (int \<times> ('c, server_demo) world) exec" where
  "demo_OnRecvFrontEnd parse ser net type msg w =
     (if \<not> demo_stub (app_state w) then Done (-1, w)
      else
        bindE (ServerApi_Dispatch parse (Some (demo_listener ser)) net msg w) (\<lambda>(ret, w1).
          if ret \<noteq> 0 then Done (-1, w1) else Done (0, w1)))"

definition demo_OnInit :: "('c, server_demo) world \<Rightarrow> (int \<times> ('c, server_demo) world) exec" where
  "demo_OnInit w = Done (0, w\<lparr>app_state := (app_state w)\<lparr>demo_stub := True\<rparr>\<rparr>)"

definition demo_app ::
    "(view \<Rightarrow> ssmsg option) \<Rightarrow> (ssmsg \<Rightarrow> byte list) \<Rightarrow> 'c \<Rightarrow> ('c, server_demo) rapid_app" where
  "demo_app parse ser z =
     \<lparr>OnInit = demo_OnInit, OnFini = (\<lambda>w. Done (0, w)), OnUpdate = Done, OnReload = Done,
      OnRecvCtrl = (\<lambda>_ w. Done (0, w)), OnFrontEndConnect = (\<lambda>_ _ w. Done (0, w)),
      OnFrontEndClose = (\<lambda>_ _ w. Done (0, w)), OnRecvFrontEnd = demo_OnRecvFrontEnd parse ser,
      OnRecvBackEnd = (\<lambda>_ _ _ w. Done (0, w)), OnTimer = (\<lambda>_ _ w. Done w),
      GetFrontEndContextSize = 0, GetBackEndContextSize = 0, zero_context = z\<rparr>"

section \<open>Answers to the connector\<close>

text \<open>What the demo answers to a message of the connector.\<close>

definition demo_reply :: "ssmsg \<Rightarrow> ssmsg option" where
  "demo_reply m =
     (if ss_bodyid m = SS_SYN
      then Some (ss_message 0 SS_ACK ((ss_session m)\<lparr>ss_sid := -1\<rparr>) (empty_ssbody\<lparr>ss_ack := Some 0\<rparr>))
      else if ss_bodyid m = SS_DATA
      then Some (ss_message 0 SS_DATA (ss_session m) (empty_ssbody\<lparr>ss_data := Some (ssmsg_data m)\<rparr>))
      else None)"

lemma demo_answers:
  assumes "demo_stub (app_state w)" and "nets (net_heap w) p = Some n" and "hevent n = Some b"
    and "net_state n = NET_ESTABLISHED" and "write_rc (env w) = []"
    and "msg \<noteq> View []" and "parse msg = Some m" and "\<And>x. ser x \<noteq> []"
  shows "demo_OnRecvFrontEnd parse ser p t msg w
           = Done (0, case demo_reply m of
                 None \<Rightarrow> w
               | Some r \<Rightarrow> set_net p (n\<lparr>hevent := Some (bev_write (encode_frame (ser r)) b)\<rparr>) w)"
proof -
  have snd: "SendToFrontEnd (Some p) (Some (ser x)) w
      = Done (0, set_net p (n\<lparr>hevent := Some (bev_write (encode_frame (ser x)) b)\<rparr>) w)" for x
    by (rule SendToFrontEnd_ok [OF assms(2-5,8)])
  have t: "(ss_session m)\<lparr>ss_sid := s\<rparr> = \<lparr>ss_fd = ss_fd (ss_session m), ss_nid = ss_nid (ss_session m), ss_sid = s\<rparr>" for s
    by (cases "ss_session m") simp
  have t0: "\<lparr>ss_fd = ss_fd (ss_session m), ss_nid = ss_nid (ss_session m), ss_sid = ss_sid (ss_session m)\<rparr>
      = ss_session m"
    by simp
  show ?thesis
    using assms(1,6,7)
    by (simp add: demo_OnRecvFrontEnd_def ServerApi_Dispatch_def demo_listener_def demo_OnConnStart_def
        demo_OnData_def HandshakeToConn_def SendDataToConn_def to_conn_def demo_sender_def
        demo_SendToConn_def snd demo_reply_def t t0 Let_def)
qed

section \<open>Properties\<close>

text \<open>C20. The demo backend answers the connector's protocol: over an established connection, a
  \<open>SYN\<close> is answered with one \<open>ACK\<close> frame for the same connection ids and session id
  -1, data is echoed in one frame with the same session, and every other command,
  \<open>FIN\<close> included, is accepted without an answer.\<close>

theorem demo_answers_connector:
  assumes "demo_stub (app_state w)" and "nets (net_heap w) p = Some n" and "hevent n = Some b"
    and "net_state n = NET_ESTABLISHED" and "write_rc (env w) = []"
    and "msg \<noteq> View []" and "parse msg = Some m" and "\<And>x. ser x \<noteq> []"
  shows "demo_OnRecvFrontEnd parse ser p t msg w
           = Done (0, case demo_reply m of
                 None \<Rightarrow> w
               | Some r \<Rightarrow> set_net p (n\<lparr>hevent := Some (bev_write (encode_frame (ser r)) b)\<rparr>) w)"
  using assms by (rule demo_answers)

definition demo_parse :: "view \<Rightarrow> ssmsg option" where
  "demo_parse v =
     (case v of
        View (x # d) \<Rightarrow> Some (ss_message 1 (uint x) \<lparr>ss_fd = 7, ss_nid = 3, ss_sid = 9\<rparr>
                               (empty_ssbody\<lparr>ss_data := Some d\<rparr>))
      | _ \<Rightarrow> None)"

definition demo_ser :: "ssmsg \<Rightarrow> byte list" where
  "demo_ser m = word_of_int (ss_bodyid m) # ucast (ss_sid (ss_session m)) # ssmsg_data m"

theorem demo_answers_connector_witness:
  "\<exists>w' n'. demo_OnRecvFrontEnd demo_parse demo_ser 1 0 (View [5, 65]) (sample_world [] None \<lparr>demo_stub = True\<rparr>)
       = Done (0, w') \<and> nets (net_heap w') 1 = Some n'
     \<and> map_option bev_out (hevent (n' :: unit easy_net)) = Some (encode_frame [5, 9, 65])"
proof -
  let ?w = "sample_world [] None \<lparr>demo_stub = True\<rparr> :: (unit, server_demo) world"
  let ?b = "\<lparr>bev_fd = 7, bev_in = [], bev_out = []\<rparr>"
  have w: "demo_stub (app_state ?w)" "nets (net_heap ?w) 1 = Some (sample_net [] None)"
      "hevent (sample_net [] None :: unit easy_net) = Some ?b"
      "net_state (sample_net [] None :: unit easy_net) = NET_ESTABLISHED" "write_rc (env ?w) = []"
    by (simp_all add: sample_world_def sample_net_def EasyNet_new_def sample_answers_def)
  have m: "demo_parse (View [5, 65]) = Some (ss_message 1 5 \<lparr>ss_fd = 7, ss_nid = 3, ss_sid = 9\<rparr>
      (empty_ssbody\<lparr>ss_data := Some [65]\<rparr>))"
    by (simp add: demo_parse_def)
  show ?thesis
    using demo_answers_connector [OF w, where msg = "View [5, 65]" and parse = demo_parse
        and ser = demo_ser and t = 0] m
    by (simp add: demo_reply_def demo_ser_def ss_message_def ssmsg_data_def bev_write_def)
qed

end
