(* ===== verification/RingSocket.thy ===== *)
theory RingSocket
  imports Framing TcpSocket
begin

text \<open>
  \<open>utils/tsocket_util.h\<close> and \<open>utils/tsocket_util.cpp\<close>: the ring buffer and the buffered
  socket the client API is built on, as compiled without \<open>TSOCKET_UTIL_ATOMIC\<close>. The buffer is
  its memory (\<open>rb_buff\<close>) and the three \<open>size_t\<close> fields; a copy outside the memory is a
  crash. What \<open>send\<close>, \<open>recv\<close> and \<open>time\<close> answer is an argument of the
  operation. Closing the descriptor is the transition of \<open>fd_\<close> to -1.
\<close>

section \<open>The ring buffer\<close>

record RingBuffer =
  rb_size :: nat
  rb_buff :: "byte list"
  rb_begin :: nat
  rb_end :: nat

definition RingBuffer_new :: RingBuffer where
  "RingBuffer_new = \<lparr>rb_size = 0, rb_buff = [], rb_begin = 0, rb_end = 0\<rparr>"

text \<open>\<open>Malloc\<close> followed by the caller's \<open>buff_size = n\<close>; \<open>ok\<close> is whether
  \<open>calloc\<close> succeeds.\<close>

definition Malloc :: "bool \<Rightarrow> nat \<Rightarrow> RingBuffer \<Rightarrow> RingBuffer option" where
  "Malloc ok n rb =
     (if ok then Some (rb\<lparr>rb_buff := replicate n 0, rb_size := n\<rparr>) else None)"

text \<open>\<open>Free\<close> clears \<open>buff_size\<close> and leaves \<open>begin\<close>, \<open>end\<close> and the pointer.\<close>

definition Free :: "RingBuffer \<Rightarrow> RingBuffer" where
  "Free rb = (if 0 < rb_size rb then rb\<lparr>rb_size := 0, rb_buff := []\<rparr> else rb)"

text \<open>Both lengths are \<open>size_t\<close> differences returned as \<open>int\<close>.\<close>

definition Avaiable :: "RingBuffer \<Rightarrow> int" where
  "Avaiable rb = sint (word_of_int (int (rb_size rb) - int (rb_end rb)) :: cint)"

definition Datalen :: "RingBuffer \<Rightarrow> int" where
  "Datalen rb = sint (word_of_int (int (rb_end rb) - int (rb_begin rb)) :: cint)"

text \<open>The \<open>Datalen()\<close> bytes at \<open>Ptr() + begin\<close>.\<close>

definition rb_data :: "RingBuffer \<Rightarrow> byte list" where
  "rb_data rb = take (rb_end rb - rb_begin rb) (drop (rb_begin rb) (rb_buff rb))"

definition Recycle_ATOMIC :: "RingBuffer \<Rightarrow> RingBuffer" where
  "Recycle_ATOMIC rb =
     (if 0 < rb_begin rb then
        (let d = rb_data rb;
             mem = (if rb_begin rb < rb_end rb then d @ drop (length d) (rb_buff rb) else rb_buff rb)
         in rb\<lparr>rb_buff := mem, rb_end := rb_end rb - rb_begin rb, rb_begin := 0\<rparr>)
      else rb)"

text \<open>\<open>memcpy(Ptr() + end, buf, n); end += n\<close>.\<close>

definition rb_append :: "byte list \<Rightarrow> RingBuffer \<Rightarrow> RingBuffer exec" where
  "rb_append bs rb =
     (if rb_end rb + length bs \<le> length (rb_buff rb) then
        Done (rb\<lparr>rb_buff := take (rb_end rb) (rb_buff rb) @ bs
                             @ drop (rb_end rb + length bs) (rb_buff rb),
                 rb_end := rb_end rb + length bs\<rparr>)
      else Crash OutOfBounds)"

section \<open>The buffered socket\<close>

abbreviation (input) NORMAL :: int where "NORMAL \<equiv> 0"
abbreviation (input) INVLD_ARGUMENT :: int where "INVLD_ARGUMENT \<equiv> -1"
abbreviation (input) MALLOC_FAILED :: int where "MALLOC_FAILED \<equiv> -3"
abbreviation (input) SEND_BUFF_FULL :: int where "SEND_BUFF_FULL \<equiv> -50"
abbreviation (input) CONNECT_FAILED :: int where "CONNECT_FAILED \<equiv> -101"
abbreviation (input) NOT_CONNECTED :: int where "NOT_CONNECTED \<equiv> -102"
abbreviation (input) SEND_FAILED :: int where "SEND_FAILED \<equiv> -201"
abbreviation (input) SEND_UNCOMPLETED :: int where "SEND_UNCOMPLETED \<equiv> -202"
abbreviation (input) RECV_FAILED :: int where "RECV_FAILED \<equiv> -301"
abbreviation (input) PEER_CLOSED :: int where "PEER_CLOSED \<equiv> -302"
abbreviation (input) ASSERT_FAILED :: int where "ASSERT_FAILED \<equiv> -1000"

datatype socket_state =
    NET_INITED | NET_CONNECTING | NET_CONNECTED | NET_SEND_FAILED | NET_RECV_FAILED
  | NET_PEER_CLOSED | NET_ASSERT_FAIL

record tcp_util =
  sock_state :: socket_state
  sock_url :: string
  sock_fd :: int
  last_request_timestamp :: nat
  last_response_timestamp :: nat
  tcp_pkg_parser_imp :: "(byte list \<Rightarrow> int) option"
  send_buf :: RingBuffer
  recv_buf :: RingBuffer

definition TcpSocketUtil_new :: tcp_util where
  "TcpSocketUtil_new =
     \<lparr>sock_state = NET_INITED, sock_url = [], sock_fd = -1, last_request_timestamp = 0,
      last_response_timestamp = 0, tcp_pkg_parser_imp = None, send_buf = RingBuffer_new,
      recv_buf = RingBuffer_new\<rparr>"

text \<open>The two flags are the results of the two \<open>calloc\<close> calls.\<close>

definition Init ::
    "bool \<Rightarrow> bool \<Rightarrow> (byte list \<Rightarrow> int) option \<Rightarrow> nat \<Rightarrow> tcp_util \<Rightarrow> int \<times> tcp_util" where
  "Init ok1 ok2 parser n u =
     (if parser = None \<or> n = 0 then (INVLD_ARGUMENT, u)
      else
        (let u1 = u\<lparr>tcp_pkg_parser_imp := parser\<rparr> in
         case Malloc ok1 n (send_buf u1) of
           None \<Rightarrow> (MALLOC_FAILED, u1)
         | Some sb \<Rightarrow>
             (case Malloc ok2 n (recv_buf u1) of
                None \<Rightarrow> (MALLOC_FAILED, u1\<lparr>send_buf := Free sb\<rparr>)
              | Some rb \<Rightarrow> (NORMAL, u1\<lparr>send_buf := sb, recv_buf := rb\<rparr>))))"

definition Reset :: "tcp_util \<Rightarrow> tcp_util" where
  "Reset u = u\<lparr>last_request_timestamp := 0, last_response_timestamp := 0,
               send_buf := (send_buf u)\<lparr>rb_begin := 0, rb_end := 0\<rparr>,
               recv_buf := (recv_buf u)\<lparr>rb_begin := 0, rb_end := 0\<rparr>,
               sock_state := NET_INITED\<rparr>"

definition Close :: "tcp_util \<Rightarrow> tcp_util" where
  "Close u = Reset ((if 0 \<le> sock_fd u then u\<lparr>sock_fd := -1\<rparr> else u)\<lparr>sock_state := NET_INITED\<rparr>)"

definition Fini :: "tcp_util \<Rightarrow> tcp_util" where
  "Fini u = Close (u\<lparr>recv_buf := Free (recv_buf u), send_buf := Free (send_buf u)\<rparr>)"

text \<open>\<open>sock\<close> is the result of \<open>tcpsocket_connect_nonblock(url)\<close>.\<close>

definition ConnectNonBlock :: "int \<Rightarrow> string \<Rightarrow> tcp_util \<Rightarrow> int \<times> tcp_util" where
  "ConnectNonBlock sock url u =
     (if sock < 0 then (CONNECT_FAILED, u\<lparr>sock_fd := sock\<rparr>)
      else (NORMAL, u\<lparr>sock_fd := sock, sock_state := NET_CONNECTING, sock_url := url\<rparr>))"

text \<open>\<open>check\<close> is the result of \<open>tcpsocket_check_connect(fd_, 0)\<close>.\<close>

definition CheckNonBlock :: "int \<Rightarrow> tcp_util \<Rightarrow> int \<times> tcp_util" where
  "CheckNonBlock check u =
     (if sock_fd u < 0 then (ASSERT_FAILED, u\<lparr>sock_state := NET_ASSERT_FAIL\<rparr>)
      else if check = 0 then (NORMAL, u\<lparr>sock_state := NET_CONNECTED\<rparr>)
      else if check < 0 then (CONNECT_FAILED, Close u)
      else (NORMAL, u))"

definition Connect :: "int \<Rightarrow> string option \<Rightarrow> tcp_util \<Rightarrow> int \<times> tcp_util" where
  "Connect sock url u =
     (case url of
        None \<Rightarrow> (INVLD_ARGUMENT, u)
      | Some l \<Rightarrow>
          if sock < 0 then (CONNECT_FAILED, u\<lparr>sock_fd := sock\<rparr>)
          else (NORMAL, u\<lparr>sock_fd := sock, sock_state := NET_CONNECTED, sock_url := l\<rparr>))"

section \<open>Transfer\<close>

text \<open>
  \<open>Send\<close>; \<open>r\<close> is what \<open>send\<close> answers for the pending bytes. The last
  component is the bytes the kernel took.
\<close>

definition Send :: "io_result \<Rightarrow> tcp_util \<Rightarrow> int \<times> tcp_util \<times> byte list" where
  "Send r u =
     (let d = Datalen (send_buf u);
          sent = (\<lambda>k. u\<lparr>send_buf := Recycle_ATOMIC
                          ((send_buf u)\<lparr>rb_begin := rb_begin (send_buf u) + k\<rparr>)\<rparr>)
      in if sock_state u = NET_ASSERT_FAIL then (ASSERT_FAILED, u, [])
         else if sock_state u = NET_SEND_FAILED then (NORMAL, u, [])
         else if sock_state u \<noteq> NET_CONNECTED \<and> sock_state u \<noteq> NET_RECV_FAILED
                 \<and> sock_state u \<noteq> NET_PEER_CLOSED then (NOT_CONNECTED, u, [])
         else if d < 0 then (ASSERT_FAILED, u\<lparr>sock_state := NET_ASSERT_FAIL\<rparr>, [])
         else if d = 0 then (NORMAL, u, [])
         else (case r of
                 IoErr e \<Rightarrow>
                   if e = EWOULDBLOCK \<or> e = EAGAIN then (SEND_UNCOMPLETED, u, [])
                   else (SEND_FAILED, u\<lparr>sock_state := NET_SEND_FAILED\<rparr>, [])
               | IoOk k \<Rightarrow>
                   if k = 0 then (NORMAL, u, [])
                   else if int k < d then (SEND_UNCOMPLETED, sent k, take k (rb_data (send_buf u)))
                   else (NORMAL, sent k, take k (rb_data (send_buf u)))))"

text \<open>What \<open>recv\<close> answers: bytes (none when the peer has closed), or an error.\<close>

datatype recv_result = RvBytes "byte list" | RvErr errno

definition Recv :: "recv_result \<Rightarrow> tcp_util \<Rightarrow> (int \<times> tcp_util) exec" where
  "Recv r u =
     (if sock_state u = NET_ASSERT_FAIL then Done (ASSERT_FAILED, u)
      else if sock_state u = NET_RECV_FAILED \<or> sock_state u = NET_PEER_CLOSED
        then Done (NORMAL, u)
      else if sock_state u \<noteq> NET_CONNECTED \<and> sock_state u \<noteq> NET_SEND_FAILED
        then Done (NOT_CONNECTED, u)
      else if Avaiable (recv_buf u) < 0
        then Done (ASSERT_FAILED, u\<lparr>sock_state := NET_ASSERT_FAIL\<rparr>)
      else
        (let u1 = (if Avaiable (recv_buf u) = 0
                   then u\<lparr>recv_buf := Recycle_ATOMIC (recv_buf u)\<rparr> else u)
         in if Avaiable (recv_buf u1) = 0 then Done (NORMAL, u1)
            else (case r of
                    RvErr e \<Rightarrow>
                      if e = EWOULDBLOCK \<or> e = EAGAIN then Done (NORMAL, u1)
                      else Done (RECV_FAILED, u1\<lparr>sock_state := NET_RECV_FAILED\<rparr>)
                  | RvBytes bs \<Rightarrow>
                      if bs = [] then Done (PEER_CLOSED, u1\<lparr>sock_state := NET_PEER_CLOSED\<rparr>)
                      else bindE (rb_append bs (recv_buf u1))
                             (\<lambda>rb. Done (NORMAL, u1\<lparr>recv_buf := rb\<rparr>)))))"

definition PushToSendQ :: "nat \<Rightarrow> byte list \<Rightarrow> tcp_util \<Rightarrow> (int \<times> tcp_util) exec" where
  "PushToSendQ now buf u =
     (if Avaiable (send_buf u) < int_of_size (length buf) then Done (SEND_BUFF_FULL, u)
      else bindE (rb_append buf (send_buf u))
             (\<lambda>sb. Done (NORMAL, u\<lparr>send_buf := sb, last_request_timestamp := now\<rparr>)))"

text \<open>
  An \<open>iovec\<close> is its base, \<open>None\<close> for NULL, and its bytes; entries with no base or no
  bytes are skipped. The second loop copies entry by entry.
\<close>

definition iov_used :: "byte list option list \<Rightarrow> byte list list" where
  "iov_used iov = filter (\<lambda>b. b \<noteq> []) (map (case_option [] id) iov)"

fun push_iov :: "byte list list \<Rightarrow> RingBuffer \<Rightarrow> RingBuffer exec" where
  "push_iov [] rb = Done rb"
| "push_iov (b # bs) rb = bindE (rb_append b rb) (push_iov bs)"

definition PushvToSendQ ::
    "nat \<Rightarrow> byte list option list option \<Rightarrow> tcp_util \<Rightarrow> (int \<times> tcp_util) exec" where
  "PushvToSendQ now iov u =
     (case iov of
        None \<Rightarrow> Done (INVLD_ARGUMENT, u)
      | Some v \<Rightarrow>
          if v = [] then Done (INVLD_ARGUMENT, u)
          else
            (let total_len = sum_list (map length (iov_used v)) in
             if Avaiable (send_buf u) < int_of_size total_len then Done (SEND_BUFF_FULL, u)
             else bindE (push_iov (iov_used v) (send_buf u))
                    (\<lambda>sb. Done (NORMAL, u\<lparr>send_buf := sb, last_request_timestamp := now\<rparr>))))"

section \<open>Packets\<close>

definition HasNewPkg :: "tcp_util \<Rightarrow> bool \<times> tcp_util" where
  "HasNewPkg u =
     (case tcp_pkg_parser_imp u of
        None \<Rightarrow> (False, u\<lparr>sock_state := NET_ASSERT_FAIL\<rparr>)
      | Some parse \<Rightarrow>
          (let len = parse (rb_data (recv_buf u)) in
           (0 < len \<and> len \<le> Datalen (recv_buf u), u)))"

text \<open>The packet is \<open>*buf\<close> and \<open>*buf_len\<close>; \<open>None\<close> leaves \<open>*buf\<close> NULL.\<close>

definition PeekFromRecvQ :: "nat \<Rightarrow> tcp_util \<Rightarrow> int \<times> byte list option \<times> tcp_util" where
  "PeekFromRecvQ now u =
     (case tcp_pkg_parser_imp u of
        None \<Rightarrow> (ASSERT_FAILED, None, u\<lparr>sock_state := NET_ASSERT_FAIL\<rparr>)
      | Some parse \<Rightarrow>
          (let len = parse (rb_data (recv_buf u)) in
           if 0 < len \<and> len \<le> Datalen (recv_buf u)
           then (NORMAL, Some (take (nat len) (rb_data (recv_buf u))),
                 u\<lparr>last_response_timestamp := now\<rparr>)
           else (NORMAL, None, u)))"

definition PopFromRecvQ :: "tcp_util \<Rightarrow> int \<times> tcp_util" where
  "PopFromRecvQ u =
     (case tcp_pkg_parser_imp u of
        None \<Rightarrow> (ASSERT_FAILED, u\<lparr>sock_state := NET_ASSERT_FAIL\<rparr>)
      | Some parse \<Rightarrow>
          (let len = parse (rb_data (recv_buf u)) in
           if len \<le> 0 \<or> Datalen (recv_buf u) < len
           then (NORMAL, u\<lparr>recv_buf := Recycle_ATOMIC (recv_buf u)\<rparr>)
           else (NORMAL, u\<lparr>recv_buf := (recv_buf u)\<lparr>rb_begin := rb_begin (recv_buf u) + nat len\<rparr>\<rparr>)))"

definition Closed :: "tcp_util \<Rightarrow> bool" where
  "Closed u = (sock_fd u < 0)"

definition Sendable :: "tcp_util \<Rightarrow> bool" where
  "Sendable u = (sock_state u = NET_CONNECTED)"

section \<open>The buffer as a byte queue\<close>

definition ring_ok :: "RingBuffer \<Rightarrow> bool" where
  "ring_ok rb = (rb_begin rb \<le> rb_end rb \<and> rb_end rb \<le> rb_size rb
                 \<and> length (rb_buff rb) = rb_size rb \<and> rb_size rb < 2147483648)"

definition rb_free :: "RingBuffer \<Rightarrow> nat" where
  "rb_free rb = rb_size rb - rb_end rb"

lemma sint_of_small_int:
  "0 \<le> i \<Longrightarrow> i < 2147483648 \<Longrightarrow> sint (word_of_int i :: cint) = i"
  using int_of_size_small [of "nat i"] by (simp add: int_of_size_def)

lemma ring_ok_Avaiable: "ring_ok rb \<Longrightarrow> Avaiable rb = int (rb_free rb)"
  using sint_of_small_int [of "int (rb_size rb) - int (rb_end rb)"]
  by (auto simp: Avaiable_def ring_ok_def rb_free_def)

lemma ring_ok_length_data: "ring_ok rb \<Longrightarrow> length (rb_data rb) = rb_end rb - rb_begin rb"
  by (auto simp: ring_ok_def rb_data_def)

lemma ring_ok_Datalen: "ring_ok rb \<Longrightarrow> Datalen rb = int (length (rb_data rb))"
  using sint_of_small_int [of "int (rb_end rb) - int (rb_begin rb)"] ring_ok_length_data [of rb]
  by (auto simp: Datalen_def ring_ok_def)

lemmas ring_lens = ring_ok_Avaiable ring_ok_Datalen

lemma rb_data_skip:
  "rb_data (rb\<lparr>rb_begin := rb_begin rb + k\<rparr>) = drop k (rb_data rb)"
  by (simp add: rb_data_def drop_take add.commute)

lemma ring_ok_skip:
  "ring_ok rb \<Longrightarrow> k \<le> length (rb_data rb) \<Longrightarrow> ring_ok (rb\<lparr>rb_begin := rb_begin rb + k\<rparr>)"
  by (auto simp: ring_ok_def rb_data_def)

lemma recycle_ok: "ring_ok rb \<Longrightarrow> ring_ok (Recycle_ATOMIC rb)"
  by (auto simp: ring_ok_def Recycle_ATOMIC_def rb_data_def Let_def)

lemma recycle_data [simp]: "ring_ok rb \<Longrightarrow> rb_data (Recycle_ATOMIC rb) = rb_data rb"
  by (auto simp: ring_ok_def Recycle_ATOMIC_def rb_data_def Let_def)

lemma recycle_size [simp]: "rb_size (Recycle_ATOMIC rb) = rb_size rb"
  by (simp add: Recycle_ATOMIC_def Let_def)

lemma recycle_begin [simp]: "rb_begin (Recycle_ATOMIC rb) = 0"
  by (simp add: Recycle_ATOMIC_def Let_def)

lemma recycle_free:
  "ring_ok rb \<Longrightarrow> rb_free (Recycle_ATOMIC rb) = rb_size rb - length (rb_data rb)"
  by (auto simp: Recycle_ATOMIC_def Let_def rb_free_def ring_ok_length_data)

lemma append_fits:
  assumes "ring_ok rb" and "length bs \<le> rb_free rb"
  obtains rb' where "rb_append bs rb = Done rb'" "ring_ok rb'" "rb_data rb' = rb_data rb @ bs"
    "rb_size rb' = rb_size rb" "rb_free rb' = rb_free rb - length bs"
proof
  let ?rb = "rb\<lparr>rb_buff := take (rb_end rb) (rb_buff rb) @ bs @ drop (rb_end rb + length bs) (rb_buff rb),
                rb_end := rb_end rb + length bs\<rparr>"
  show "rb_append bs rb = Done ?rb" "ring_ok ?rb" "rb_size ?rb = rb_size rb"
    "rb_free ?rb = rb_free rb - length bs"
    using assms by (auto simp: rb_append_def ring_ok_def rb_free_def)
  show "rb_data ?rb = rb_data rb @ bs"
    using assms by (auto simp: rb_data_def ring_ok_def rb_free_def take_drop)
qed

lemma push_iov_fits:
  assumes "ring_ok rb" and "length (concat bss) \<le> rb_free rb"
  shows "\<exists>rb'. push_iov bss rb = Done rb' \<and> ring_ok rb' \<and> rb_data rb' = rb_data rb @ concat bss
              \<and> rb_size rb' = rb_size rb \<and> rb_free rb' = rb_free rb - length (concat bss)"
  using assms
proof (induction bss arbitrary: rb)
  case (Cons bs bss)
  from Cons.prems obtain rb1 where rb1: "rb_append bs rb = Done rb1" "ring_ok rb1"
      "rb_data rb1 = rb_data rb @ bs" "rb_size rb1 = rb_size rb" "rb_free rb1 = rb_free rb - length bs"
    using append_fits [of rb bs] by auto
  with Cons.IH [of rb1] Cons.prems show ?case
    by auto
qed simp

section \<open>Each operation on the queues\<close>

definition tu_ok :: "tcp_util \<Rightarrow> bool" where
  "tu_ok u = (ring_ok (send_buf u) \<and> ring_ok (recv_buf u))"

definition sendq :: "tcp_util \<Rightarrow> byte list" where
  "sendq u = rb_data (send_buf u)"

definition recvq :: "tcp_util \<Rightarrow> byte list" where
  "recvq u = rb_data (recv_buf u)"

text \<open>What the operating system promises: it takes at most what it is offered, and delivers at
  most what there is room for.\<close>

definition send_fits :: "io_result \<Rightarrow> tcp_util \<Rightarrow> bool" where
  "send_fits r u = (case r of IoOk k \<Rightarrow> k \<le> length (sendq u) | IoErr e \<Rightarrow> True)"

definition recv_fits :: "recv_result \<Rightarrow> tcp_util \<Rightarrow> bool" where
  "recv_fits r u =
     (case r of
        RvErr e \<Rightarrow> True
      | RvBytes bs \<Rightarrow>
          length bs \<le> (if rb_free (recv_buf u) = 0 then rb_free (Recycle_ATOMIC (recv_buf u))
                       else rb_free (recv_buf u)))"

lemma Send_queue:
  assumes "tu_ok u" and "send_fits r u" and "Send r u = (c, u', taken)"
  shows "tu_ok u' \<and> sendq u = taken @ sendq u' \<and> recv_buf u' = recv_buf u
         \<and> tcp_pkg_parser_imp u' = tcp_pkg_parser_imp u"
proof -
  have ok: "ring_ok (send_buf u)"
    using assms(1) by (simp add: tu_ok_def)
  note skip = ring_ok_skip [OF ok]
  show ?thesis
    using assms skip
    by (auto simp: Send_def Let_def tu_ok_def sendq_def send_fits_def recycle_ok rb_data_skip
        split: if_splits io_result.splits)
qed

lemma Recv_queue:
  assumes "tu_ok u" and "recv_fits r u"
  shows "\<exists>c u'. Recv r u = Done (c, u') \<and> tu_ok u' \<and> send_buf u' = send_buf u
           \<and> tcp_pkg_parser_imp u' = tcp_pkg_parser_imp u
           \<and> (\<exists>got. recvq u' = recvq u @ got \<and> (got = [] \<or> r = RvBytes got))"
proof -
  define rb where "rb = (if rb_free (recv_buf u) = 0 then Recycle_ATOMIC (recv_buf u) else recv_buf u)"
  have ok: "ring_ok (send_buf u)" "ring_ok (recv_buf u)"
    using assms(1) by (simp_all add: tu_ok_def)
  then have rb: "ring_ok rb" "rb_data rb = rb_data (recv_buf u)"
    by (simp_all add: rb_def recycle_ok)
  have av: "Avaiable (recv_buf u) = int (rb_free (recv_buf u))"
    using ok by (simp add: ring_lens)
  show ?thesis
  proof (cases r)
    case (RvErr e)
    then show ?thesis
      using ok av by (auto simp: Recv_def Let_def tu_ok_def recvq_def recycle_ok)
  next
    case (RvBytes bs)
    have room: "length bs \<le> rb_free rb"
      using assms(2) RvBytes by (simp add: recv_fits_def rb_def split: if_splits)
    obtain rb' where "rb_append bs rb = Done rb'" "ring_ok rb'" "rb_data rb' = rb_data rb @ bs"
      using append_fits [OF rb(1) room] by blast
    then show ?thesis
      using ok av rb RvBytes
      by (auto simp: Recv_def Let_def tu_ok_def recvq_def recycle_ok rb_def split: if_splits)
  qed
qed

lemma iov_total: "sum_list (map length (iov_used v)) = length (concat (iov_used v))"
  by (simp add: length_concat)

lemma PushvToSendQ_cases:
  assumes "tu_ok u" and "v \<noteq> []" and "length (concat (iov_used v)) < 2147483648"
  shows "if length (concat (iov_used v)) \<le> rb_free (send_buf u)
         then \<exists>u'. PushvToSendQ now (Some v) u = Done (NORMAL, u') \<and> tu_ok u'
                \<and> sendq u' = sendq u @ concat (iov_used v) \<and> recv_buf u' = recv_buf u
                \<and> tcp_pkg_parser_imp u' = tcp_pkg_parser_imp u
         else PushvToSendQ now (Some v) u = Done (SEND_BUFF_FULL, u)"
proof -
  have ok: "ring_ok (send_buf u)" "ring_ok (recv_buf u)"
    using assms(1) by (simp_all add: tu_ok_def)
  show ?thesis
    using push_iov_fits [OF ok(1), of "iov_used v"] assms(2,3) ok
    by (auto simp: PushvToSendQ_def Let_def iov_total int_of_size_small ring_lens tu_ok_def sendq_def)
qed

lemma PushToSendQ_cases:
  assumes "tu_ok u" and "length b < 2147483648"
  shows "if length b \<le> rb_free (send_buf u)
         then \<exists>u'. PushToSendQ now b u = Done (NORMAL, u') \<and> tu_ok u'
                \<and> sendq u' = sendq u @ b \<and> recv_buf u' = recv_buf u
                \<and> tcp_pkg_parser_imp u' = tcp_pkg_parser_imp u
         else PushToSendQ now b u = Done (SEND_BUFF_FULL, u)"
proof (cases "length b \<le> rb_free (send_buf u)")
  case True
  have ok: "ring_ok (send_buf u)" "ring_ok (recv_buf u)"
    using assms(1) by (simp_all add: tu_ok_def)
  obtain rb where "rb_append b (send_buf u) = Done rb" "ring_ok rb" "rb_data rb = rb_data (send_buf u) @ b"
    using append_fits [OF ok(1) True] by blast
  then show ?thesis
    using True assms ok
    by (simp add: PushToSendQ_def int_of_size_small ring_lens tu_ok_def sendq_def)
next
  case False
  then show ?thesis
    using assms by (simp add: PushToSendQ_def int_of_size_small ring_lens tu_ok_def)
qed

text \<open>Popping removes exactly the packet that peeking shows, or compacts the buffer.\<close>

lemma PopFromRecvQ_queue:
  assumes "tu_ok u" and "tcp_pkg_parser_imp u = Some parse"
  shows "\<exists>u'. PopFromRecvQ u = (NORMAL, u') \<and> tu_ok u' \<and> send_buf u' = send_buf u
           \<and> tcp_pkg_parser_imp u' = Some parse
           \<and> (if 0 < parse (recvq u) \<and> parse (recvq u) \<le> int (length (recvq u))
              then fst (snd (PeekFromRecvQ now u)) = Some (take (nat (parse (recvq u))) (recvq u))
                   \<and> recvq u' = drop (nat (parse (recvq u))) (recvq u)
              else fst (snd (PeekFromRecvQ now u)) = None \<and> recvq u' = recvq u)"
proof -
  have ok: "ring_ok (send_buf u)" "ring_ok (recv_buf u)"
    using assms(1) by (simp_all add: tu_ok_def)
  show ?thesis
    using assms(2) ok ring_ok_skip [OF ok(2), of "nat (parse (recvq u))"]
    by (auto simp: PopFromRecvQ_def PeekFromRecvQ_def Let_def tu_ok_def recvq_def ring_lens
        rb_data_skip recycle_ok)
qed

section \<open>Runs\<close>

text \<open>
  A run of the socket is a list of calls; the log keeps the bytes accepted for sending, the bytes
  the kernel took, the bytes it delivered and the packets popped.
\<close>

datatype tu_op =
    DoPushv nat "byte list option list"
  | DoPush nat "byte list"
  | DoSend io_result
  | DoRecv recv_result
  | DoPop nat

record io_log =
  accepted :: "byte list"
  taken :: "byte list"
  received :: "byte list"
  popped :: "byte list list"

definition log0 :: io_log where
  "log0 = \<lparr>accepted = [], taken = [], received = [], popped = []\<rparr>"

definition tu_exec :: "tu_op \<Rightarrow> tcp_util \<times> io_log \<Rightarrow> (tcp_util \<times> io_log) exec" where
  "tu_exec op ul =
     (let u = fst ul; l = snd ul in
      case op of
        DoPushv now v \<Rightarrow>
          bindE (PushvToSendQ now (Some v) u) (\<lambda>(c, u').
            Done (u', if c = NORMAL then l\<lparr>accepted := accepted l @ concat (iov_used v)\<rparr> else l))
      | DoPush now b \<Rightarrow>
          bindE (PushToSendQ now b u) (\<lambda>(c, u').
            Done (u', if c = NORMAL then l\<lparr>accepted := accepted l @ b\<rparr> else l))
      | DoSend r \<Rightarrow>
          (case Send r u of (c, u', bs) \<Rightarrow> Done (u', l\<lparr>taken := taken l @ bs\<rparr>))
      | DoRecv r \<Rightarrow>
          bindE (Recv r u) (\<lambda>(c, u').
            Done (u', l\<lparr>received := received l @ drop (length (recvq u)) (recvq u')\<rparr>))
      | DoPop now \<Rightarrow>
          (case PeekFromRecvQ now u of
             (c, pkg, u1) \<Rightarrow>
               Done (snd (PopFromRecvQ u1),
                     l\<lparr>popped := popped l @ (case pkg of None \<Rightarrow> [] | Some p \<Rightarrow> [p])\<rparr>)))"

fun tu_run :: "tu_op list \<Rightarrow> tcp_util \<times> io_log \<Rightarrow> (tcp_util \<times> io_log) exec" where
  "tu_run [] s = Done s"
| "tu_run (op # ops) s = bindE (tu_exec op s) (tu_run ops)"

text \<open>The arguments the operating system and the caller may use in a state.\<close>

definition op_fits :: "tu_op \<Rightarrow> tcp_util \<Rightarrow> bool" where
  "op_fits op u =
     (case op of
        DoPushv now v \<Rightarrow> v \<noteq> [] \<and> length (concat (iov_used v)) < 2147483648
      | DoPush now b \<Rightarrow> length b < 2147483648
      | DoSend r \<Rightarrow> send_fits r u
      | DoRecv r \<Rightarrow> recv_fits r u
      | DoPop now \<Rightarrow> True)"

fun run_fits :: "tu_op list \<Rightarrow> tcp_util \<times> io_log \<Rightarrow> bool" where
  "run_fits [] s = True"
| "run_fits (op # ops) s =
     (op_fits op (fst s) \<and> (case tu_exec op s of Done s' \<Rightarrow> run_fits ops s' | Crash e \<Rightarrow> True))"

text \<open>What a run keeps, with the frames of the received stream for a parser.\<close>

definition stream_inv :: "(byte list \<Rightarrow> int) \<Rightarrow> tcp_util \<times> io_log \<Rightarrow> bool" where
  "stream_inv parse s =
     (tu_ok (fst s) \<and> tcp_pkg_parser_imp (fst s) = Some parse
      \<and> accepted (snd s) = taken (snd s) @ sendq (fst s)
      \<and> received (snd s) = concat (popped (snd s)) @ recvq (fst s))"

lemma peek_state:
  "snd (snd (PeekFromRecvQ now u)) = u
   \<or> snd (snd (PeekFromRecvQ now u)) = u\<lparr>last_response_timestamp := now\<rparr>
   \<or> tcp_pkg_parser_imp u = None"
  by (auto simp: PeekFromRecvQ_def Let_def split: option.splits)

lemma pop_after_peek:
  assumes "tu_ok u" and "tcp_pkg_parser_imp u = Some parse" and "PeekFromRecvQ now u = (c, pkg, u1)"
  shows "tu_ok (snd (PopFromRecvQ u1)) \<and> send_buf (snd (PopFromRecvQ u1)) = send_buf u
         \<and> tcp_pkg_parser_imp (snd (PopFromRecvQ u1)) = Some parse
         \<and> (case pkg of
              Some p \<Rightarrow> recvq u = p @ recvq (snd (PopFromRecvQ u1))
                        \<and> 0 < parse (recvq u) \<and> length p = nat (parse (recvq u))
            | None \<Rightarrow> recvq (snd (PopFromRecvQ u1)) = recvq u)"
proof -
  have "u1 = u \<or> u1 = u\<lparr>last_response_timestamp := now\<rparr>"
    using peek_state [of now u] assms(2,3) by auto
  then have "recvq u1 = recvq u" "tu_ok u1" "tcp_pkg_parser_imp u1 = Some parse"
      "send_buf u1 = send_buf u" "fst (snd (PeekFromRecvQ now u1)) = pkg"
    using assms by (auto simp: recvq_def tu_ok_def PeekFromRecvQ_def Let_def split: if_splits)
  then show ?thesis
    using PopFromRecvQ_queue [of u1 parse now]
    by (auto split: if_splits)
qed

lemma tu_exec_inv:
  assumes "stream_inv parse s" and "op_fits op (fst s)"
  shows "\<exists>s'. tu_exec op s = Done s' \<and> stream_inv parse s'"
proof -
  obtain u l where s: "s = (u, l)"
    by (cases s)
  have inv: "tu_ok u" "tcp_pkg_parser_imp u = Some parse"
    using assms(1) s by (simp_all add: stream_inv_def)
  show ?thesis
  proof (cases op)
    case (DoPushv now v)
    then show ?thesis
      using PushvToSendQ_cases [of u v now] assms s inv
      by (auto simp: tu_exec_def stream_inv_def op_fits_def recvq_def split: if_splits)
  next
    case (DoPush now b)
    then show ?thesis
      using PushToSendQ_cases [of u b now] assms s inv
      by (auto simp: tu_exec_def stream_inv_def op_fits_def recvq_def split: if_splits)
  next
    case (DoSend r)
    obtain c u' bs where "Send r u = (c, u', bs)"
      by (cases "Send r u") auto
    then show ?thesis
      using Send_queue [of u r c u' bs] DoSend assms s inv
      by (auto simp: tu_exec_def stream_inv_def op_fits_def recvq_def)
  next
    case (DoRecv r)
    then show ?thesis
      using Recv_queue [of u r] assms s inv
      by (fastforce simp: tu_exec_def stream_inv_def op_fits_def sendq_def)
  next
    case (DoPop now)
    obtain c pkg u1 where "PeekFromRecvQ now u = (c, pkg, u1)"
      by (cases "PeekFromRecvQ now u") auto
    then show ?thesis
      using pop_after_peek [of u parse now c pkg u1] DoPop assms s inv
      by (auto simp: tu_exec_def stream_inv_def sendq_def split: option.splits)
  qed
qed

lemma tu_run_inv:
  "stream_inv parse s \<Longrightarrow> run_fits ops s \<Longrightarrow> \<exists>s'. tu_run ops s = Done s' \<and> stream_inv parse s'"
proof (induction ops arbitrary: s)
  case (Cons op ops)
  then obtain s1 where "tu_exec op s = Done s1" "stream_inv parse s1"
    using tu_exec_inv [of parse s op] by auto
  with Cons show ?case
    by simp
qed simp

text \<open>The socket after \<open>Init\<close> and a successful connect.\<close>

definition fresh_socket :: "(byte list \<Rightarrow> int) \<Rightarrow> nat \<Rightarrow> int \<Rightarrow> string \<Rightarrow> tcp_util" where
  "fresh_socket parse n sock url =
     snd (Connect sock (Some url) (snd (Init True True (Some parse) n TcpSocketUtil_new)))"

lemma fresh_socket_inv:
  assumes "0 < n" and "n < 2147483648"
  shows "stream_inv parse (fresh_socket parse n sock url, log0)"
  using assms
  by (auto simp: stream_inv_def fresh_socket_def Connect_def Init_def Malloc_def
      TcpSocketUtil_new_def RingBuffer_new_def log0_def tu_ok_def ring_ok_def sendq_def recvq_def
      rb_data_def)

section \<open>Packets of a stream\<close>

definition client_parse :: "byte list \<Rightarrow> int" where
  "client_parse b = sint (GetPkgLen (Some b))"

text \<open>On a stream that starts with a frame, a prefix parses to nothing or to that frame.\<close>

lemma client_parse_stream:
  assumes "fits_client_frame m" and "q @ x = encode_frame m @ r"
  shows "client_parse q = (if length q \<le> 4 then 0 else int (length m + 4))"
proof (cases "length q \<le> 4")
  case False
  then have "of_be32 q = of_be32 (q @ x)"
    by (simp add: of_be32_take)
  also have "\<dots> = of_nat (length m + 4)"
    unfolding assms(2) by (simp add: encode_frame_def)
  finally show ?thesis
    using False sint_frame_len [of m] assms(1)
    by (simp add: client_parse_def GetPkgLen_def fits_client_frame_def)
qed (simp add: client_parse_def GetPkgLen_def)

definition popped_frames :: "byte list list \<Rightarrow> tcp_util \<times> io_log \<Rightarrow> bool" where
  "popped_frames ms s =
     ((\<exists>x. received (snd s) @ x = concat (map encode_frame ms)) \<longrightarrow>
        (\<exists>j. popped (snd s) = map encode_frame (take j ms)))"

lemma received_grows:
  assumes "stream_inv parse s" and "op_fits op (fst s)" and "tu_exec op s = Done s'"
  shows "\<exists>got. received (snd s') = received (snd s) @ got"
  using assms by (cases op) (auto simp: tu_exec_def Let_def bindE_eq_Done split: prod.splits)

lemma pop_is_frame:
  assumes "list_all fits_client_frame ms" and "q @ x = concat (map encode_frame ms)"
    and "q = p @ q'" and "0 < client_parse q" and "length p = nat (client_parse q)"
  shows "\<exists>m ms'. ms = m # ms' \<and> p = encode_frame m"
proof (cases ms)
  case Nil
  with assms show ?thesis
    by (simp add: client_parse_def GetPkgLen_def)
next
  case (Cons m ms')
  then have st: "q @ x = encode_frame m @ concat (map encode_frame ms')" "fits_client_frame m"
    using assms by simp_all
  then have "length p = length (encode_frame m)"
    using client_parse_stream [OF st(2,1)] assms(4,5) by (auto simp: encode_frame_def split: if_splits)
  with st assms(3) Cons show ?thesis
    by simp
qed

lemma popped_frames_step:
  assumes ms: "list_all fits_client_frame ms" and inv: "stream_inv client_parse s"
    and "op_fits op (fst s)" and "tu_exec op s = Done s'" and "popped_frames ms s"
  shows "popped_frames ms s'"
  unfolding popped_frames_def
proof
  assume "\<exists>x. received (snd s') @ x = concat (map encode_frame ms)"
  then obtain x where x: "received (snd s) @ x = concat (map encode_frame ms)"
    using received_grows [OF inv assms(3,4)] by auto
  then obtain j where j: "popped (snd s) = map encode_frame (take j ms)"
    using assms(5) by (auto simp: popped_frames_def)
  show "\<exists>j. popped (snd s') = map encode_frame (take j ms)"
  proof (cases op)
    case (DoPop now)
    obtain c pkg u1 where peek: "PeekFromRecvQ now (fst s) = (c, pkg, u1)"
      by (cases "PeekFromRecvQ now (fst s)") auto
    have s': "popped (snd s') = popped (snd s) @ (case pkg of None \<Rightarrow> [] | Some p \<Rightarrow> [p])"
      using assms(4) DoPop peek by (auto simp: tu_exec_def Let_def)
    show ?thesis
    proof (cases pkg)
      case None
      with s' j show ?thesis by auto
    next
      case (Some p)
      let ?q = "recvq (fst s)"
      have "received (snd s) = concat (map encode_frame (take j ms)) @ ?q"
        using inv j by (simp add: stream_inv_def)
      moreover have "concat (map encode_frame ms)
          = concat (map encode_frame (take j ms)) @ concat (map encode_frame (drop j ms))"
        by (metis append_take_drop_id concat_append map_append)
      ultimately have q: "?q @ x = concat (map encode_frame (drop j ms))"
        using x by simp
      have "list_all fits_client_frame (drop j ms)"
        using ms by (auto simp: list_all_iff dest: in_set_dropD)
      moreover have st: "tu_ok (fst s)" "tcp_pkg_parser_imp (fst s) = Some client_parse"
        using inv by (simp_all add: stream_inv_def)
      have "?q = p @ recvq (snd (PopFromRecvQ u1))" "0 < client_parse ?q"
          "length p = nat (client_parse ?q)"
        using pop_after_peek [OF st peek] unfolding Some by auto
      ultimately obtain m ms' where m: "drop j ms = m # ms'" "p = encode_frame m"
        using pop_is_frame [OF _ q] by blast
      have "take (Suc j) ms = take j ms @ take 1 (drop j ms)"
        by (metis Suc_eq_plus1 take_add)
      with s' j Some m have "popped (snd s') = map encode_frame (take (Suc j) ms)"
        by simp
      then show ?thesis by blast
    qed
  qed (use assms(4) j in \<open>auto simp: tu_exec_def Let_def bindE_eq_Done split: prod.splits\<close>)
qed

lemma popped_frames_run:
  assumes "list_all fits_client_frame ms"
  shows "stream_inv client_parse s \<Longrightarrow> run_fits ops s \<Longrightarrow> popped_frames ms s \<Longrightarrow>
         tu_run ops s = Done s' \<Longrightarrow> popped_frames ms s'"
proof (induction ops arbitrary: s)
  case (Cons op ops)
  then obtain s1 where "tu_exec op s = Done s1" "stream_inv client_parse s1"
    using tu_exec_inv [of client_parse s op] by auto
  with Cons popped_frames_step [OF assms, of s op s1] show ?case
    by simp
qed simp

section \<open>Properties\<close>

lemmas socket_eval =
  fresh_socket_def Connect_def Init_def Malloc_def TcpSocketUtil_new_def RingBuffer_new_def
  log0_def tu_exec_def op_fits_def Send_def Recv_def PushvToSendQ_def PeekFromRecvQ_def
  PopFromRecvQ_def Datalen_def Avaiable_def rb_data_def rb_append_def Recycle_ATOMIC_def
  iov_used_def int_of_size_def send_fits_def recv_fits_def sendq_def recvq_def rb_free_def


definition sample_ops :: "tu_op list" where
  "sample_ops =
     [DoPushv 3 [Some [1, 2], None, Some [3]], DoSend (IoOk 2), DoRecv (RvBytes [7, 8, 9]), DoPop 4]"

definition sample_parse :: "byte list \<Rightarrow> int" where
  "sample_parse b = (if length b < 2 then 0 else 2)"



definition frame_ops :: "tu_op list" where
  "frame_ops = [DoRecv (RvBytes [0, 0]), DoRecv (RvBytes [0, 6, 65, 66]), DoPop 4]"


text \<open>C38. A packet that cannot fit the receive buffer stops the socket for good: with the buffer
  full and its first packet incomplete, receiving returns \<open>NORMAL\<close> and changes nothing,
  whatever the kernel has to offer, peeking shows no packet and popping changes nothing.\<close>

theorem oversize_packet_stuck:
  assumes "tu_ok u" and "sock_state u = NET_CONNECTED" and "tcp_pkg_parser_imp u = Some parse"
    and "length (recvq u) = rb_size (recv_buf u)" and "int (rb_size (recv_buf u)) < parse (recvq u)"
  shows "Recv r u = Done (NORMAL, u) \<and> PeekFromRecvQ now u = (NORMAL, None, u)
         \<and> PopFromRecvQ u = (NORMAL, u)"
proof -
  have ok: "ring_ok (recv_buf u)"
    using assms(1) by (simp add: tu_ok_def)
  then have "rb_begin (recv_buf u) = 0" "rb_free (recv_buf u) = 0"
    using assms(4) by (auto simp: recvq_def ring_ok_length_data ring_ok_def rb_free_def)
  then show ?thesis
    using assms ok
    by (simp add: Recv_def PeekFromRecvQ_def PopFromRecvQ_def ring_lens Recycle_ATOMIC_def
        recvq_def Let_def)
qed

definition full_socket :: tcp_util where
  "full_socket = (fresh_socket client_parse 8 7 ''u'')
     \<lparr>recv_buf := \<lparr>rb_size = 8, rb_buff = [0, 0, 0, 9, 1, 1, 1, 1], rb_begin = 0, rb_end = 8\<rparr>\<rparr>"

theorem oversize_packet_stuck_witness:
  "Recv (RvBytes [1]) full_socket = Done (NORMAL, full_socket)
   \<and> PopFromRecvQ full_socket = (NORMAL, full_socket)"
  using oversize_packet_stuck [of full_socket client_parse "RvBytes [1]" 0]
  by (simp add: full_socket_def socket_eval tu_ok_def ring_ok_def client_parse_def GetPkgLen_def
      of_be32_def)

text \<open>The capacity test of \<open>PushToSendQ\<close> compares the length as an \<open>int\<close>. Below
  \<open>2^31\<close> bytes it is exact: the bytes are queued when they fit and nothing changes when they
  do not; from \<open>2^31\<close> bytes on, the length turns negative, the test passes and the copy runs
  past the buffer.\<close>

theorem PushToSendQ_capacity:
  assumes "tu_ok u" and "length b < 4294967296"
  shows "if 2147483648 \<le> length b then PushToSendQ now b u = Crash OutOfBounds
         else if rb_free (send_buf u) < length b then PushToSendQ now b u = Done (SEND_BUFF_FULL, u)
         else (\<exists>u'. PushToSendQ now b u = Done (NORMAL, u') \<and> sendq u' = sendq u @ b)"
proof (cases "2147483648 \<le> length b")
  case False
  then show ?thesis
    using PushToSendQ_cases [OF assms(1), of b now] by (auto split: if_splits)
next
  case True
  have ok: "ring_ok (send_buf u)"
    using assms(1) by (simp add: tu_ok_def)
  have "int_of_size (length b) < 0"
    using int_of_size_big [OF True assms(2)] assms(2) by simp
  moreover have "0 \<le> Avaiable (send_buf u)"
    using ok by (simp add: ring_lens)
  ultimately show ?thesis
    using True ok by (simp add: PushToSendQ_def rb_append_def ring_ok_def)
qed

theorem PushToSendQ_capacity_witness:
  "PushToSendQ 1 (replicate 2147483648 0) (fresh_socket client_parse 4 7 ''u'') = Crash OutOfBounds"
proof -
  have ok: "tu_ok (fresh_socket client_parse 4 7 ''u'')"
    by (simp add: socket_eval tu_ok_def ring_ok_def)
  show ?thesis
    using PushToSendQ_capacity [OF ok, of "replicate 2147483648 0" 1] by simp
qed

end
