(* ===== verification/ClientApi.thy ===== *)
theory ClientApi
  imports RingSocket ConnectorSession
begin

text \<open>
  \<open>server/connector/client_api/connector_client_api_imp.*\<close> (the copy in \<open>sdk/\<close>
  differs in the length of one pause): the client end of the connector protocol, a state machine driven by
  \<open>Update\<close> over the buffered socket. One call takes the answers of the network as a record
  of arguments; it returns its code, the listener callbacks it made and the bytes the kernel took.
  The \<open>static bool handshake_done\<close> inside \<open>Update\<close> is one variable for all
  instances: it is an argument and a result. The variant with a
  worker thread is in \<open>ClientThread\<close>.
\<close>

section \<open>State\<close>

abbreviation (input) kMaxPkgSize :: nat where "kMaxPkgSize \<equiv> 1048576"
abbreviation (input) CONNECTOR_ERR_NONE :: int where "CONNECTOR_ERR_NONE \<equiv> 0"
abbreviation (input) CONNECTOR_ERR_NO_MORE_PKG :: int where "CONNECTOR_ERR_NO_MORE_PKG \<equiv> -1"

datatype session_state =
    SESSION_STATE_INITED | SESSION_STATE_TCP_SYNING | SESSION_STATE_KEY_SYNING
  | SESSION_STATE_AUTHING | SESSION_STATE_READY | SESSION_STATE_DONE | SESSION_STATE_FINI

record client =
  listener :: bool
  appid :: string
  openid :: string
  token :: string
  server_uri :: string
  encrypt_skey :: string
  passport :: int
  tcp_sock :: tcp_util
  session_state :: session_state
  seqno :: "64 word"
  up_msg :: csmsg
  down_msg :: csmsg

definition default_csmsg :: csmsg where
  "default_csmsg = \<lparr>cs_magic = MAGIC_CS_V1, cs_sequence = 0, cs_bodyid = 0, cs_body = empty_csbody\<rparr>"

definition client_new :: client where
  "client_new =
     \<lparr>listener = False, appid = [], openid = [], token = [], server_uri = [], encrypt_skey = [],
      passport = 0, tcp_sock = TcpSocketUtil_new, session_state = SESSION_STATE_INITED, seqno = 1,
      up_msg = default_csmsg, down_msg = default_csmsg\<rparr>"

text \<open>What the network answers during one call.\<close>

record net_answers =
  ans_connect :: int
  ans_check :: int
  ans_recv :: recv_result
  ans_send :: io_result
  ans_now :: nat

datatype client_event = OnHandShakeSucceed | OnHandShakeFailed | OnServerClose | OnIncoming

text \<open>\<open>OnGetSettings\<close> of the application's listener.\<close>

record client_settings =
  set_appid :: string
  set_openid :: string
  set_token :: string
  set_server_uri :: string

section \<open>Connecting and sending\<close>

definition client_Connect :: "net_answers \<Rightarrow> client \<Rightarrow> (int \<times> client) exec" where
  "client_Connect a c =
     (if \<not> listener c then Crash AssertFailed
      else
        (case ConnectNonBlock (ans_connect a) (server_uri c) (tcp_sock c) of
           (ret, u) \<Rightarrow>
             if ret \<noteq> NORMAL then Done (-1, c\<lparr>tcp_sock := u\<rparr>)
             else Done (0, c\<lparr>tcp_sock := u, session_state := SESSION_STATE_TCP_SYNING\<rparr>)))"

definition client_Close :: "client \<Rightarrow> client" where
  "client_Close c = c\<lparr>tcp_sock := Close (tcp_sock c), session_state := SESSION_STATE_FINI\<rparr>"

text \<open>\<open>Start\<close>; \<open>ok1\<close> and \<open>ok2\<close> are the allocations of the two buffers, whose
  failure is not looked at.\<close>

definition client_Start ::
    "bool \<Rightarrow> bool \<Rightarrow> client_settings option \<Rightarrow> net_answers \<Rightarrow> client \<Rightarrow> (int \<times> client) exec" where
  "client_Start ok1 ok2 pel a c =
     (case pel of
        None \<Rightarrow> Done (-1, c)
      | Some s \<Rightarrow>
          (let c1 = c\<lparr>listener := True, appid := set_appid s, openid := set_openid s,
                      token := set_token s, server_uri := set_server_uri s\<rparr>;
               c2 = c1\<lparr>tcp_sock := snd (Init ok1 ok2 (Some client_parse) (kMaxPkgSize * 2) (tcp_sock c1))\<rparr>
           in bindE (client_Connect a c2) (\<lambda>(ret, c3). Done (if ret \<noteq> 0 then -1 else 0, c3))))"

definition client_Terminate :: "client \<Rightarrow> int \<times> client" where
  "client_Terminate c = (0, client_Close c)"

definition client_Resume :: "net_answers \<Rightarrow> client \<Rightarrow> (int \<times> client) exec" where
  "client_Resume a c =
     (if \<not> listener c then Done (-1, c)
      else
        bindE (client_Connect a (c\<lparr>tcp_sock := Reset (Close (tcp_sock c))\<rparr>))
          (\<lambda>(ret, c1). Done (if ret \<noteq> 0 then -1 else 0, c1)))"

text \<open>\<open>SerializeAndSendToPeer\<close>: prefix and message as two vector entries, then one
  \<open>Send\<close>.\<close>

definition SerializeAndSendToPeer ::
    "codec \<Rightarrow> net_answers \<Rightarrow> client \<Rightarrow> (int \<times> client \<times> byte list) exec" where
  "SerializeAndSendToPeer cd a c =
     (let bin = cs_ser cd (up_msg c) in
      bindE (PushvToSendQ (ans_now a) (Some [Some (be32 (of_nat (length bin + 4))), Some bin]) (tcp_sock c))
        (\<lambda>(ret, u).
          if ret \<noteq> NORMAL then Done (ret, c\<lparr>tcp_sock := u\<rparr>, [])
          else
            (case Send (ans_send a) u of
               (ret2, u2, out) \<Rightarrow>
                 if ret2 \<noteq> NORMAL \<and> ret2 \<noteq> SEND_UNCOMPLETED
                 then Done (ret2, c\<lparr>tcp_sock := u2\<rparr>, out)
                 else Done (NORMAL, c\<lparr>tcp_sock := u2\<rparr>, out))))"

text \<open>\<open>up_msg_\<close> with a new head and body; the sequence number is consumed here.\<close>

definition prepare :: "int \<Rightarrow> csbody \<Rightarrow> client \<Rightarrow> client" where
  "prepare bid body c = c\<lparr>up_msg := cs_message (seqno c) bid body, seqno := seqno c + 1\<rparr>"

section \<open>Receiving\<close>

definition TryToRecvFromPeerAndParse :: "codec \<Rightarrow> net_answers \<Rightarrow> client \<Rightarrow> (int \<times> client) exec" where
  "TryToRecvFromPeerAndParse cd a c =
     bindE (Recv (ans_recv a) (tcp_sock c)) (\<lambda>(ret, u).
       if ret \<noteq> NORMAL then Done (ret, c\<lparr>tcp_sock := u\<rparr>)
       else
         (case HasNewPkg u of
            (has, u1) \<Rightarrow>
              if \<not> has then Done (CONNECTOR_ERR_NO_MORE_PKG, c\<lparr>tcp_sock := u1\<rparr>)
              else
                (case PeekFromRecvQ (ans_now a) u1 of
                   (ret2, pkg, u2) \<Rightarrow>
                     if ret2 = ASSERT_FAILED then Done (ret2, c\<lparr>tcp_sock := u2\<rparr>)
                     else
                       (case pkg of
                          None \<Rightarrow> Crash NullDeref
                        | Some b \<Rightarrow>
                            (let c1 = c\<lparr>down_msg := cs_parse cd (payload b (length b))\<rparr> in
                             case PopFromRecvQ u2 of
                               (ret3, u3) \<Rightarrow>
                                 if ret3 = ASSERT_FAILED then Done (ret3, c1\<lparr>tcp_sock := u3\<rparr>)
                                 else if cs_bodyid (down_msg c1) = CS_ERROR
                                   then Done (-1, c1\<lparr>tcp_sock := u3\<rparr>)
                                 else Done (0, c1\<lparr>tcp_sock := u3\<rparr>))))))"

section \<open>The handshake\<close>

definition HandShake_SYN :: "codec \<Rightarrow> net_answers \<Rightarrow> client \<Rightarrow> (int \<times> client \<times> byte list) exec" where
  "HandShake_SYN cd a c =
     bindE (SerializeAndSendToPeer cd a
              (prepare CS_SYN (empty_csbody\<lparr>cs_syn := Some (appid c, openid c)\<rparr>) c))
       (\<lambda>(ret, c1, out).
         if ret \<noteq> NORMAL then Done (ret, c1, out)
         else Done (0, c1\<lparr>session_state := SESSION_STATE_KEY_SYNING\<rparr>, out))"

definition HandShake_TRY_ACK :: "codec \<Rightarrow> net_answers \<Rightarrow> client \<Rightarrow> (int \<times> client) exec" where
  "HandShake_TRY_ACK cd a c =
     bindE (TryToRecvFromPeerAndParse cd a c) (\<lambda>(ret, c1).
       if ret \<noteq> 0 then Done (ret, c1)
       else if cs_bodyid (down_msg c1) \<noteq> CS_SYNACK then Done (-1, c1)
       else Done (0, c1\<lparr>encrypt_skey :=
         (case cs_ack (cs_body (down_msg c1)) of None \<Rightarrow> [] | Some k \<Rightarrow> k)\<rparr>))"

definition HandShake_AUTH :: "codec \<Rightarrow> net_answers \<Rightarrow> client \<Rightarrow> (int \<times> client \<times> byte list) exec" where
  "HandShake_AUTH cd a c =
     bindE (SerializeAndSendToPeer cd a
              (prepare CS_AUTHENTICATION (empty_csbody\<lparr>cs_auth := Some (token c)\<rparr>) c))
       (\<lambda>(ret, c1, out).
         if ret \<noteq> NORMAL then Done (ret, c1, out)
         else Done (0, c1\<lparr>session_state := SESSION_STATE_AUTHING\<rparr>, out))"

definition HandShake_TRY_READY :: "codec \<Rightarrow> net_answers \<Rightarrow> client \<Rightarrow> (int \<times> client) exec" where
  "HandShake_TRY_READY cd a c =
     bindE (TryToRecvFromPeerAndParse cd a c) (\<lambda>(ret, c1).
       if ret \<noteq> 0 then (if ret \<noteq> CONNECTOR_ERR_NO_MORE_PKG then Done (ret, c1) else Done (0, c1))
       else if cs_bodyid (down_msg c1) \<noteq> CS_PASSPORT then Done (-1, c1)
       else Done (0, c1\<lparr>passport :=
                (case cs_passport (cs_body (down_msg c1)) of None \<Rightarrow> 0 | Some k \<Rightarrow> k),
              session_state := SESSION_STATE_READY\<rparr>))"

definition HandShake_TRY_DONE :: "codec \<Rightarrow> net_answers \<Rightarrow> client \<Rightarrow> (int \<times> client) exec" where
  "HandShake_TRY_DONE cd a c =
     bindE (TryToRecvFromPeerAndParse cd a c) (\<lambda>(ret, c1).
       if ret \<noteq> 0 then (if ret \<noteq> CONNECTOR_ERR_NO_MORE_PKG then Done (ret, c1) else Done (0, c1))
       else if cs_bodyid (down_msg c1) \<noteq> CS_START_APP then Done (-1, c1)
       else Done (0, c1\<lparr>session_state := SESSION_STATE_DONE\<rparr>))"

text \<open>
  The switch of \<open>Update\<close>: result, work done, callbacks, bytes sent, the static flag and the
  client. The state after \<open>default\<close> is reported as \<open>None\<close>.
\<close>

record step_result =
  st_ret :: int
  st_busy :: int
  st_events :: "client_event list"
  st_out :: "byte list"
  st_flag :: bool
  st_client :: client

definition plain_step :: "bool \<Rightarrow> (int \<times> client) exec \<Rightarrow> step_result option exec" where
  "plain_step flag r =
     bindE r (\<lambda>(ret, c).
       Done (Some \<lparr>st_ret = ret, st_busy = 0, st_events = [], st_out = [], st_flag = flag, st_client = c\<rparr>))"

definition sending_step :: "bool \<Rightarrow> (int \<times> client \<times> byte list) exec \<Rightarrow> step_result option exec" where
  "sending_step flag r =
     bindE r (\<lambda>(ret, c, out).
       Done (Some \<lparr>st_ret = ret, st_busy = 1, st_events = [], st_out = out, st_flag = flag, st_client = c\<rparr>))"

definition Update_switch ::
    "codec \<Rightarrow> net_answers \<Rightarrow> bool \<Rightarrow> client \<Rightarrow> step_result option exec" where
  "Update_switch cd a handshake_done c =
     (case session_state c of
        SESSION_STATE_INITED \<Rightarrow> plain_step handshake_done (client_Connect a c)
      | SESSION_STATE_TCP_SYNING \<Rightarrow>
          (case CheckNonBlock (ans_check a) (tcp_sock c) of
             (ret, u) \<Rightarrow>
               let c1 = c\<lparr>tcp_sock := u\<rparr> in
               if ret = NORMAL \<and> sock_state u = NET_CONNECTED
               then sending_step handshake_done (HandShake_SYN cd a c1)
               else plain_step handshake_done (Done (ret, c1)))
      | SESSION_STATE_KEY_SYNING \<Rightarrow>
          bindE (HandShake_TRY_ACK cd a c) (\<lambda>(ret, c1).
            if ret = 0 then sending_step handshake_done (HandShake_AUTH cd a c1)
            else if ret = CONNECTOR_ERR_NO_MORE_PKG then plain_step handshake_done (Done (0, c1))
            else plain_step handshake_done (Done (ret, c1)))
      | SESSION_STATE_AUTHING \<Rightarrow> plain_step handshake_done (HandShake_TRY_READY cd a c)
      | SESSION_STATE_READY \<Rightarrow> plain_step handshake_done (HandShake_TRY_DONE cd a c)
      | SESSION_STATE_DONE \<Rightarrow>
          if \<not> handshake_done then
            Done (Some \<lparr>st_ret = 0, st_busy = 1, st_events = [OnHandShakeSucceed], st_out = [],
                        st_flag = True, st_client = c\<rparr>)
          else
            bindE (Recv (ans_recv a) (tcp_sock c)) (\<lambda>(ret, u).
              (case HasNewPkg u of
                 (has, u1) \<Rightarrow>
                   if ret = NORMAL \<and> has
                   then Done (Some \<lparr>st_ret = ret, st_busy = 1, st_events = [OnIncoming], st_out = [],
                                    st_flag = True, st_client = c\<lparr>tcp_sock := u1\<rparr>\<rparr>)
                   else Done (Some \<lparr>st_ret = ret, st_busy = 0, st_events = [], st_out = [], st_flag = True,
                                    st_client = c\<lparr>tcp_sock := (if ret = NORMAL then u1 else u)\<rparr>\<rparr>)))
      | SESSION_STATE_FINI \<Rightarrow> Done None)"

text \<open>\<open>Update\<close>: the code, the callbacks, the bytes sent, the flag and the client.\<close>

definition Update ::
    "codec \<Rightarrow> net_answers \<Rightarrow> bool \<Rightarrow> client
     \<Rightarrow> (int \<times> client_event list \<times> byte list \<times> bool \<times> client) exec" where
  "Update cd a handshake_done c =
     (if \<not> listener c then Done (-1, [], [], handshake_done, c)
      else
        bindE (Update_switch cd a handshake_done c) (\<lambda>r.
          case r of
            None \<Rightarrow> Done (-1, [], [], handshake_done, c)
          | Some s \<Rightarrow>
              if st_ret s \<noteq> NORMAL \<and> session_state (st_client s) \<noteq> SESSION_STATE_DONE
              then Done (-1, st_events s @ [OnHandShakeFailed], st_out s, st_flag s, st_client s)
              else if st_ret s = PEER_CLOSED
              then Done (-1, st_events s @ [OnServerClose], st_out s, st_flag s, st_client s)
              else Done (st_busy s, st_events s, st_out s, st_flag s, st_client s)))"

section \<open>Messages\<close>

definition PushMessage ::
    "codec \<Rightarrow> net_answers \<Rightarrow> byte list option \<Rightarrow> client \<Rightarrow> (int \<times> client \<times> byte list) exec" where
  "PushMessage cd a data c =
     (case data of
        None \<Rightarrow> Done (-1, c, [])
      | Some d \<Rightarrow>
          if d = [] then Done (-1, c, [])
          else
            bindE (SerializeAndSendToPeer cd a
                     (prepare CS_DATA_TRANSPARENT (empty_csbody\<lparr>cs_data := Some d\<rparr>) c))
              (\<lambda>(ret, c1, out). Done (if ret \<noteq> 0 then -1 else 0, c1, out)))"

definition PeekMessage :: "codec \<Rightarrow> net_answers \<Rightarrow> client \<Rightarrow> (int \<times> byte list option \<times> client) exec" where
  "PeekMessage cd a c =
     (case HasNewPkg (tcp_sock c) of
        (has, u1) \<Rightarrow>
          if \<not> has then Done (CONNECTOR_ERR_NO_MORE_PKG, None, c\<lparr>tcp_sock := u1\<rparr>)
          else
            (case PeekFromRecvQ (ans_now a) u1 of
               (ret, pkg, u2) \<Rightarrow>
                 if ret = ASSERT_FAILED then Done (-1, None, c\<lparr>tcp_sock := u2\<rparr>)
                 else
                   (case pkg of
                      None \<Rightarrow> Crash NullDeref
                    | Some b \<Rightarrow>
                        (let c1 = c\<lparr>tcp_sock := u2, down_msg := cs_parse cd (payload b (length b))\<rparr>
                         in if cs_bodyid (down_msg c1) \<noteq> CS_DATA_TRANSPARENT then Done (-1, None, c1)
                            else Done (0, Some (csmsg_data (down_msg c1)), c1)))))"

definition PopMessage :: "client \<Rightarrow> int \<times> client" where
  "PopMessage c =
     (case PopFromRecvQ (tcp_sock c) of
        (ret, u) \<Rightarrow>
          if ret = ASSERT_FAILED then (-1, c\<lparr>tcp_sock := u\<rparr>)
          else if cs_bodyid (down_msg c) \<noteq> CS_DATA_TRANSPARENT then (-1, c\<lparr>tcp_sock := u\<rparr>)
          else (0, c\<lparr>tcp_sock := u\<rparr>))"

text \<open>\<open>PopMessageFromRecvQ\<close> of the threaded variant; \<open>room\<close> is the size of the
  caller's buffer, \<open>None\<close> a NULL one.\<close>

definition PopMessageFromRecvQ ::
    "codec \<Rightarrow> net_answers \<Rightarrow> nat option \<Rightarrow> client \<Rightarrow> (int \<times> byte list option \<times> client) exec" where
  "PopMessageFromRecvQ cd a room c =
     (case room of
        None \<Rightarrow> Done (-1, None, c)
      | Some n \<Rightarrow>
          if n = 0 then Done (-1, None, c)
          else
            bindE (PeekMessage cd a c) (\<lambda>(ret, data, c1).
              if ret \<noteq> 0 then Done (-1, None, c1)
              else
                (case data of
                   None \<Rightarrow> (case PopMessage c1 of (r, c2) \<Rightarrow> Done (r, Some [], c2))
                 | Some d \<Rightarrow>
                     if n < length d then Done (-1, None, c1)
                     else (case PopMessage c1 of (r, c2) \<Rightarrow> Done (r, Some d, c2)))))"

text \<open>
  The loop of the worker thread: one \<open>Update\<close> per element, until one returns a negative
  code; the end of the list is \<open>exit_\<close>.
\<close>

fun worker_loop ::
    "codec \<Rightarrow> net_answers list \<Rightarrow> bool \<Rightarrow> client
     \<Rightarrow> (client_event list \<times> byte list \<times> bool \<times> client) exec" where
  "worker_loop cd [] flag c = Done ([], [], flag, c)"
| "worker_loop cd (a # as) flag c =
     bindE (Update cd a flag c) (\<lambda>(ret, evs, out, flag1, c1).
       if ret < 0 then Done (evs, out, flag1, c1)
       else
         bindE (worker_loop cd as flag1 c1) (\<lambda>(evs2, out2, flag2, c2).
           Done (evs @ evs2, out @ out2, flag2, c2)))"

text \<open>\<open>MainLoop\<close> of the worker thread. Both ends call \<open>OnWorkerThreadExit\<close>,
  which is not part of the result.\<close>

definition worker_MainLoop ::
    "codec \<Rightarrow> bool \<Rightarrow> bool \<Rightarrow> client_settings option \<Rightarrow> net_answers \<Rightarrow> net_answers list \<Rightarrow> bool \<Rightarrow> client
     \<Rightarrow> (int \<times> client_event list \<times> byte list \<times> bool \<times> client) exec" where
  "worker_MainLoop cd ok1 ok2 pel a as flag c =
     bindE (client_Start ok1 ok2 pel a c) (\<lambda>(ret, c1).
       if ret \<noteq> 0 then Done (-1, [], [], flag, c1)
       else
         bindE (worker_loop cd as flag c1) (\<lambda>(evs, out, flag1, c2). Done (0, evs, out, flag1, c2)))"

section \<open>The send queue holds frames\<close>

lemma encode_frame_length: "length (encode_frame m) = length m + 4"
  by (simp add: encode_frame_def)

lemma iov_frame:
  "concat (iov_used [Some (be32 (of_nat (length b + 4))), Some b]) = encode_frame b"
  by (simp add: iov_used_def encode_frame_def be32_def)

text \<open>What the kernel takes during a send is at most what is queued by then.\<close>

definition takes_at_most :: "net_answers \<Rightarrow> nat \<Rightarrow> bool" where
  "takes_at_most a n = (case ans_send a of IoOk k \<Rightarrow> k \<le> n | IoErr e \<Rightarrow> True)"

lemma SerializeAndSendToPeer_cases:
  assumes "tu_ok (tcp_sock c)" and "bin = cs_ser cd (up_msg c)" and "fits_frame bin"
    and "takes_at_most a (length (sendq (tcp_sock c)) + length (encode_frame bin))"
  shows "if length (encode_frame bin) \<le> rb_free (send_buf (tcp_sock c))
         then \<exists>ret u out. SerializeAndSendToPeer cd a c = Done (ret, c\<lparr>tcp_sock := u\<rparr>, out)
                \<and> tu_ok u \<and> sendq (tcp_sock c) @ encode_frame bin = out @ sendq u
                \<and> recv_buf u = recv_buf (tcp_sock c)
                \<and> tcp_pkg_parser_imp u = tcp_pkg_parser_imp (tcp_sock c)
         else SerializeAndSendToPeer cd a c = Done (SEND_BUFF_FULL, c, [])"
proof -
  let ?v = "[Some (be32 (of_nat (length bin + 4))), Some bin]"
  have len: "length (concat (iov_used ?v)) < 2147483648"
    using assms(3) unfolding iov_frame by (simp add: fits_frame_def encode_frame_def)
  note push = PushvToSendQ_cases [OF assms(1) _ len, unfolded iov_frame, of "ans_now a"]
  show ?thesis
  proof (cases "length (encode_frame bin) \<le> rb_free (send_buf (tcp_sock c))")
    case True
    with push obtain u where u: "PushvToSendQ (ans_now a) (Some ?v) (tcp_sock c) = Done (NORMAL, u)"
        "tu_ok u" "sendq u = sendq (tcp_sock c) @ encode_frame bin"
        "recv_buf u = recv_buf (tcp_sock c)"
        "tcp_pkg_parser_imp u = tcp_pkg_parser_imp (tcp_sock c)"
      by auto
    obtain r2 u2 out where snd2: "Send (ans_send a) u = (r2, u2, out)"
      by (cases "Send (ans_send a) u") auto
    have "send_fits (ans_send a) u"
      using assms(4) u(3) by (simp add: send_fits_def takes_at_most_def split: io_result.splits)
    from Send_queue [OF u(2) this snd2] u snd2 assms(2) True show ?thesis
      by (auto simp: SerializeAndSendToPeer_def Let_def)
  next
    case False
    with push assms(2) show ?thesis
      by (simp add: SerializeAndSendToPeer_def Let_def)
  qed
qed

section \<open>Pushing messages\<close>

definition data_message :: "64 word \<Rightarrow> byte list \<Rightarrow> csmsg" where
  "data_message sq d = cs_message sq CS_DATA_TRANSPARENT (empty_csbody\<lparr>cs_data := Some d\<rparr>)"

definition data_frame :: "codec \<Rightarrow> 64 word \<Rightarrow> byte list \<Rightarrow> byte list" where
  "data_frame cd sq d = encode_frame (cs_ser cd (data_message sq d))"

definition has_room :: "codec \<Rightarrow> byte list \<Rightarrow> client \<Rightarrow> bool" where
  "has_room cd d c = (length (data_frame cd (seqno c) d) \<le> rb_free (send_buf (tcp_sock c)))"

text \<open>What one push needs: some data, a message below \<open>2 ^ 31\<close> bytes, a kernel that takes at
  most what is queued.\<close>

definition push_fits :: "codec \<Rightarrow> net_answers \<Rightarrow> byte list \<Rightarrow> client \<Rightarrow> bool" where
  "push_fits cd a d c =
     (d \<noteq> [] \<and> fits_frame (cs_ser cd (data_message (seqno c) d))
      \<and> takes_at_most a (length (sendq (tcp_sock c)) + length (data_frame cd (seqno c) d)))"

lemma PushMessage_cases:
  assumes "tu_ok (tcp_sock c)" and "push_fits cd a d c"
  shows "\<exists>ret u out. PushMessage cd a (Some d) c
             = Done (ret, c\<lparr>up_msg := data_message (seqno c) d, seqno := seqno c + 1, tcp_sock := u\<rparr>, out)
           \<and> tu_ok u \<and> recv_buf u = recv_buf (tcp_sock c)
           \<and> tcp_pkg_parser_imp u = tcp_pkg_parser_imp (tcp_sock c)
           \<and> (if has_room cd d c
              then sendq (tcp_sock c) @ data_frame cd (seqno c) d = out @ sendq u
              else ret = -1 \<and> out = [] \<and> u = tcp_sock c)"
proof -
  let ?c = "prepare CS_DATA_TRANSPARENT (empty_csbody\<lparr>cs_data := Some d\<rparr>) c"
  have bin: "cs_ser cd (up_msg ?c) = cs_ser cd (data_message (seqno c) d)"
      "tcp_sock ?c = tcp_sock c"
    by (simp_all add: prepare_def data_message_def)
  have d: "d \<noteq> []" and fits: "fits_frame (cs_ser cd (data_message (seqno c) d))"
    and takes: "takes_at_most a (length (sendq (tcp_sock c)) + length (data_frame cd (seqno c) d))"
    using assms(2) by (simp_all add: push_fits_def)
  note ser = SerializeAndSendToPeer_cases [of ?c "cs_ser cd (data_message (seqno c) d)" cd a,
      unfolded bin, OF assms(1) refl fits takes [unfolded data_frame_def]]
  have push: "PushMessage cd a (Some d) c = bindE (SerializeAndSendToPeer cd a ?c)
      (\<lambda>(ret, c1, out). Done (if ret \<noteq> 0 then -1 else 0, c1, out))"
    using d by (simp add: PushMessage_def)
  show ?thesis
  proof (cases "has_room cd d c")
    case True
    with ser obtain ret u out where "SerializeAndSendToPeer cd a ?c = Done (ret, ?c\<lparr>tcp_sock := u\<rparr>, out)"
        "tu_ok u" "sendq (tcp_sock c) @ data_frame cd (seqno c) d = out @ sendq u"
        "recv_buf u = recv_buf (tcp_sock c)"
        "tcp_pkg_parser_imp u = tcp_pkg_parser_imp (tcp_sock c)"
      by (auto simp: has_room_def data_frame_def)
    with True push show ?thesis
      by (auto simp: prepare_def data_message_def)
  next
    case False
    with ser have "SerializeAndSendToPeer cd a ?c = Done (SEND_BUFF_FULL, ?c, [])"
      by (simp add: has_room_def data_frame_def)
    with False push assms(1) show ?thesis
      by (auto simp: prepare_def data_message_def)
  qed
qed

text \<open>A sequence of pushes, each with what the network answers; the results are the codes, all
  the bytes the kernel took, and the client.\<close>

fun push_all ::
    "codec \<Rightarrow> (net_answers \<times> byte list) list \<Rightarrow> client \<Rightarrow> (int list \<times> byte list \<times> client) exec" where
  "push_all cd [] c = Done ([], [], c)"
| "push_all cd ((a, d) # ps) c =
     bindE (PushMessage cd a (Some d) c) (\<lambda>(ret, c1, out).
       bindE (push_all cd ps c1) (\<lambda>(rets, outs, c2). Done (ret # rets, out @ outs, c2)))"

fun pushes_fit :: "codec \<Rightarrow> (net_answers \<times> byte list) list \<Rightarrow> client \<Rightarrow> bool" where
  "pushes_fit cd [] c = True"
| "pushes_fit cd ((a, d) # ps) c =
     (push_fits cd a d c
      \<and> (case PushMessage cd a (Some d) c of Done (ret, c1, out) \<Rightarrow> pushes_fit cd ps c1 | Crash k \<Rightarrow> True))"

text \<open>Which pushes found room, and the messages of those.\<close>

fun pushed :: "codec \<Rightarrow> (net_answers \<times> byte list) list \<Rightarrow> client \<Rightarrow> bool list" where
  "pushed cd [] c = []"
| "pushed cd ((a, d) # ps) c =
     has_room cd d c
     # (case PushMessage cd a (Some d) c of Done (ret, c1, out) \<Rightarrow> pushed cd ps c1 | Crash k \<Rightarrow> [])"

fun queued :: "64 word \<Rightarrow> byte list list \<Rightarrow> bool list \<Rightarrow> csmsg list" where
  "queued sq (d # ds) (f # fs) = (if f then data_message sq d # queued (sq + 1) ds fs else queued (sq + 1) ds fs)"
| "queued sq ds fs = []"

definition cs_frames :: "codec \<Rightarrow> csmsg list \<Rightarrow> byte list" where
  "cs_frames cd ms = concat (map (\<lambda>m. encode_frame (cs_ser cd m)) ms)"

lemma push_all_queue:
  assumes "tu_ok (tcp_sock c)" and "pushes_fit cd ps c"
  shows "\<exists>rets outs c'. push_all cd ps c = Done (rets, outs, c') \<and> tu_ok (tcp_sock c')
           \<and> length (pushed cd ps c) = length ps
           \<and> outs @ sendq (tcp_sock c') = sendq (tcp_sock c)
               @ cs_frames cd (queued (seqno c) (map snd ps) (pushed cd ps c))
           \<and> seqno c' = seqno c + of_nat (length ps)
           \<and> (\<forall>m \<in> set (queued (seqno c) (map snd ps) (pushed cd ps c)). fits_frame (cs_ser cd m))"
  using assms
proof (induction ps arbitrary: c)
  case (Cons p ps)
  obtain a d where p: "p = (a, d)"
    by (cases p)
  have fit: "push_fits cd a d c"
    using Cons.prems p by simp
  obtain ret u out where push: "PushMessage cd a (Some d) c
        = Done (ret, c\<lparr>up_msg := data_message (seqno c) d, seqno := seqno c + 1, tcp_sock := u\<rparr>, out)"
      "tu_ok u" "if has_room cd d c
         then sendq (tcp_sock c) @ data_frame cd (seqno c) d = out @ sendq u
         else ret = -1 \<and> out = [] \<and> u = tcp_sock c"
    using PushMessage_cases [OF Cons.prems(1) fit] by blast
  define c1 where "c1 = c\<lparr>up_msg := data_message (seqno c) d, seqno := seqno c + 1, tcp_sock := u\<rparr>"
  have c1: "tcp_sock c1 = u" "seqno c1 = seqno c + 1"
    by (simp_all add: c1_def)
  have "pushes_fit cd ps c1"
    using Cons.prems(2) p push(1) by (simp add: c1_def)
  with Cons.IH [of c1, unfolded c1] push(2) obtain rets outs c' where
      ih: "push_all cd ps c1 = Done (rets, outs, c')" "tu_ok (tcp_sock c')"
        "length (pushed cd ps c1) = length ps"
        "outs @ sendq (tcp_sock c') = sendq u @ cs_frames cd (queued (seqno c + 1) (map snd ps) (pushed cd ps c1))"
        "seqno c' = seqno c + 1 + of_nat (length ps)"
        "\<forall>m \<in> set (queued (seqno c + 1) (map snd ps) (pushed cd ps c1)). fits_frame (cs_ser cd m)"
    by blast
  have "push_all cd (p # ps) c = Done (ret # rets, out @ outs, c')"
    using p push(1) ih(1) by (simp add: c1_def)
  moreover have "pushed cd (p # ps) c = has_room cd d c # pushed cd ps c1"
    using p push(1) by (simp add: c1_def)
  moreover have "fits_frame (cs_ser cd (data_message (seqno c) d))"
    using fit by (simp add: push_fits_def)
  ultimately show ?case
    using ih(2-) push(3) p by (auto simp: data_frame_def cs_frames_def split: if_splits)
qed (simp add: cs_frames_def)

section \<open>Popping messages\<close>

text \<open>With a complete packet at the head, looking and removing see that packet.\<close>

lemma packet_at_head:
  assumes "tu_ok u" and "tcp_pkg_parser_imp u = Some client_parse"
    and "recvq u = encode_frame m @ r" and m: "fits_client_frame m"
  obtains u1 u2 where "HasNewPkg u = (True, u)"
    "PeekFromRecvQ now u = (NORMAL, Some (encode_frame m), u1)" "PopFromRecvQ u1 = (NORMAL, u2)"
    "tu_ok u1" "recvq u1 = recvq u" "tu_ok u2" "recvq u2 = r" "send_buf u2 = send_buf u"
    "sock_state u2 = sock_state u" "tcp_pkg_parser_imp u2 = Some client_parse"
proof -
  have "client_parse (recvq u) = int (length m + 4)" and "m \<noteq> []"
    using client_parse_stream [OF m, of "recvq u" "[]" r] assms(3) m
    by (simp_all add: encode_frame_def fits_client_frame_def)
  moreover have "int (length m + 4) \<le> int (length (recvq u))"
    using assms(3) by (simp add: encode_frame_def)
  ultimately have len: "0 < client_parse (recvq u)" "client_parse (recvq u) \<le> int (length (recvq u))"
      "nat (client_parse (recvq u)) = length (encode_frame m)"
    by (simp_all add: encode_frame_def)
  have has: "HasNewPkg u = (True, u)"
    using assms(1,2) len by (simp add: HasNewPkg_def Let_def recvq_def tu_ok_def ring_lens)
  define u1 where "u1 = u\<lparr>last_response_timestamp := now\<rparr>"
  have peek: "PeekFromRecvQ now u = (NORMAL, Some (encode_frame m), u1)"
    using assms(1-3) len
    by (auto simp: PeekFromRecvQ_def Let_def recvq_def tu_ok_def ring_lens u1_def)
  have u1: "tu_ok u1" "recvq u1 = recvq u" "tcp_pkg_parser_imp u1 = Some client_parse"
      "sock_state u1 = sock_state u"
    using assms(1,2) by (simp_all add: u1_def tu_ok_def recvq_def)
  have "recvq (snd (PopFromRecvQ u1)) = r" "tu_ok (snd (PopFromRecvQ u1))"
      "send_buf (snd (PopFromRecvQ u1)) = send_buf u"
      "tcp_pkg_parser_imp (snd (PopFromRecvQ u1)) = Some client_parse"
    using pop_after_peek [OF assms(1,2) peek] assms(3) by simp_all
  moreover have "fst (PopFromRecvQ u1) = NORMAL" "sock_state (snd (PopFromRecvQ u1)) = sock_state u1"
    using u1(3) by (simp_all add: PopFromRecvQ_def Let_def)
  ultimately show ?thesis
    using that [OF has peek _ u1(1,2)] u1(4) by (metis prod.collapse)
qed

lemma frame_view: "payload (encode_frame m) (length (encode_frame m)) = View m"
  by (simp add: payload_def encode_frame_def)

section \<open>The handshake replies\<close>

text \<open>A complete packet at the head of the receive queue is parsed and consumed.\<close>

lemma TryToRecvFromPeerAndParse_frame:
  assumes recv: "Recv (ans_recv a) (tcp_sock c) = Done (NORMAL, u)" and "tu_ok u"
    and "tcp_pkg_parser_imp u = Some client_parse"
    and q: "recvq u = encode_frame m @ r" and m: "fits_client_frame m"
  shows "\<exists>u2. TryToRecvFromPeerAndParse cd a c
             = Done (if cs_bodyid (cs_parse cd (View m)) = CS_ERROR then -1 else 0,
                     c\<lparr>down_msg := cs_parse cd (View m), tcp_sock := u2\<rparr>)
           \<and> tu_ok u2 \<and> recvq u2 = r \<and> send_buf u2 = send_buf u \<and> sock_state u2 = sock_state u
           \<and> tcp_pkg_parser_imp u2 = Some client_parse"
proof -
  obtain u1 u2 where head: "HasNewPkg u = (True, u)"
      "PeekFromRecvQ (ans_now a) u = (NORMAL, Some (encode_frame m), u1)" "PopFromRecvQ u1 = (NORMAL, u2)"
    and u2: "tu_ok u2" "recvq u2 = r" "send_buf u2 = send_buf u" "sock_state u2 = sock_state u"
      "tcp_pkg_parser_imp u2 = Some client_parse"
    using packet_at_head [OF assms(2-5)] by metis
  have "TryToRecvFromPeerAndParse cd a c
             = Done (if cs_bodyid (cs_parse cd (View m)) = CS_ERROR then -1 else 0,
                     c\<lparr>down_msg := cs_parse cd (View m), tcp_sock := u2\<rparr>)"
    using recv head by (simp add: TryToRecvFromPeerAndParse_def Let_def frame_view)
  with u2 show ?thesis
    by blast
qed

text \<open>The reply each state waits for, and what it leads to.\<close>

fun awaits :: "session_state \<Rightarrow> (int \<times> session_state) option" where
  "awaits SESSION_STATE_KEY_SYNING = Some (CS_SYNACK, SESSION_STATE_AUTHING)"
| "awaits SESSION_STATE_AUTHING = Some (CS_PASSPORT, SESSION_STATE_READY)"
| "awaits SESSION_STATE_READY = Some (CS_START_APP, SESSION_STATE_DONE)"
| "awaits st = None"

lemma awaits_cases:
  assumes "awaits st = Some (e, nxt)"
  obtains "st = SESSION_STATE_KEY_SYNING" "e = CS_SYNACK" "nxt = SESSION_STATE_AUTHING"
    | "st = SESSION_STATE_AUTHING" "e = CS_PASSPORT" "nxt = SESSION_STATE_READY"
    | "st = SESSION_STATE_READY" "e = CS_START_APP" "nxt = SESSION_STATE_DONE"
  using assms by (cases st) auto

text \<open>A reply other than the awaited one.\<close>

lemma Update_wrong_reply:
  assumes "listener c" and w: "awaits (session_state c) = Some (e, nxt)"
    and "Recv (ans_recv a) (tcp_sock c) = Done (NORMAL, u)" and "tu_ok u"
    and "tcp_pkg_parser_imp u = Some client_parse"
    and "recvq u = encode_frame m @ r" and "fits_client_frame m"
    and "cs_bodyid (cs_parse cd (View m)) \<noteq> e"
  shows "\<exists>u2. Update cd a flag c =
           (if session_state c = SESSION_STATE_KEY_SYNING \<or> cs_bodyid (cs_parse cd (View m)) = CS_ERROR
            then Done (0, [], [], flag, c\<lparr>down_msg := cs_parse cd (View m), tcp_sock := u2\<rparr>)
            else Done (-1, [OnHandShakeFailed], [], flag,
                       c\<lparr>down_msg := cs_parse cd (View m), tcp_sock := u2\<rparr>))
         \<and> tu_ok u2 \<and> recvq u2 = r \<and> send_buf u2 = send_buf u"
proof -
  from TryToRecvFromPeerAndParse_frame [OF assms(3-7), of cd] obtain u2 where
      rcv: "TryToRecvFromPeerAndParse cd a c
             = Done (if cs_bodyid (cs_parse cd (View m)) = CS_ERROR then -1 else 0,
                     c\<lparr>down_msg := cs_parse cd (View m), tcp_sock := u2\<rparr>)"
        and u2: "tu_ok u2" "recvq u2 = r" "send_buf u2 = send_buf u"
    by blast
  from w have "Update cd a flag c =
           (if session_state c = SESSION_STATE_KEY_SYNING \<or> cs_bodyid (cs_parse cd (View m)) = CS_ERROR
            then Done (0, [], [], flag, c\<lparr>down_msg := cs_parse cd (View m), tcp_sock := u2\<rparr>)
            else Done (-1, [OnHandShakeFailed], [], flag,
                       c\<lparr>down_msg := cs_parse cd (View m), tcp_sock := u2\<rparr>))"
    by (cases rule: awaits_cases)
      (use rcv assms(1,8) in \<open>auto simp: Update_def Update_switch_def HandShake_TRY_ACK_def
        HandShake_TRY_READY_def HandShake_TRY_DONE_def plain_step_def\<close>)
  with u2 show ?thesis
    by blast
qed

lemma PushvToSendQ_state:
  "PushvToSendQ now v u = Done (ret, u') \<Longrightarrow> sock_state u' = sock_state u"
  by (auto simp: PushvToSendQ_def Let_def bindE_eq_Done split: option.splits if_splits)

lemma Send_connected:
  assumes "tu_ok u" and "sock_state u = NET_CONNECTED" and "send_fits (IoOk k) u"
  shows "fst (Send (IoOk k) u) \<in> {NORMAL, SEND_UNCOMPLETED}"
  using assms by (auto simp: Send_def Let_def tu_ok_def ring_lens)

text \<open>On a connected socket with room, serialising and sending succeeds.\<close>

lemma SerializeAndSendToPeer_connected:
  assumes tu: "tu_ok (tcp_sock c)" and bin: "bin = cs_ser cd (up_msg c)" and fits: "fits_frame bin"
    and st: "sock_state (tcp_sock c) = NET_CONNECTED"
    and room: "length (encode_frame bin) \<le> rb_free (send_buf (tcp_sock c))"
    and k: "ans_send a = IoOk k" "k \<le> length (sendq (tcp_sock c)) + length (encode_frame bin)"
  shows "\<exists>u out. SerializeAndSendToPeer cd a c = Done (NORMAL, c\<lparr>tcp_sock := u\<rparr>, out)
           \<and> tu_ok u \<and> sendq (tcp_sock c) @ encode_frame bin = out @ sendq u
           \<and> recv_buf u = recv_buf (tcp_sock c)"
proof -
  let ?v = "[Some (be32 (of_nat (length bin + 4))), Some bin]"
  have "length (concat (iov_used ?v)) < 2147483648"
    using fits unfolding iov_frame by (simp add: fits_frame_def encode_frame_def)
  from PushvToSendQ_cases [OF tu _ this, unfolded iov_frame, of "ans_now a"] room
  obtain u where u: "PushvToSendQ (ans_now a) (Some ?v) (tcp_sock c) = Done (NORMAL, u)"
      "tu_ok u" "sendq u = sendq (tcp_sock c) @ encode_frame bin" "recv_buf u = recv_buf (tcp_sock c)"
    by auto
  have fit: "send_fits (IoOk k) u"
    using k(2) u(3) by (simp add: send_fits_def)
  obtain r2 u2 out where snd2: "Send (IoOk k) u = (r2, u2, out)"
    by (cases "Send (IoOk k) u") auto
  have "r2 = NORMAL \<or> r2 = SEND_UNCOMPLETED"
    using Send_connected [OF u(2) _ fit] PushvToSendQ_state [OF u(1)] st snd2 by auto
  with Send_queue [OF u(2) fit snd2] u snd2 bin k(1) show ?thesis
    by (auto simp: SerializeAndSendToPeer_def Let_def)
qed

definition auth_message :: "client \<Rightarrow> csmsg" where
  "auth_message c =
     cs_message (seqno c) CS_AUTHENTICATION (empty_csbody\<lparr>cs_auth := Some (token c)\<rparr>)"

text \<open>What the answer to \<open>SYNACK\<close> needs.\<close>

definition can_auth :: "codec \<Rightarrow> net_answers \<Rightarrow> client \<Rightarrow> tcp_util \<Rightarrow> bool" where
  "can_auth cd a c u =
     (sock_state u = NET_CONNECTED \<and> fits_frame (cs_ser cd (auth_message c))
      \<and> length (encode_frame (cs_ser cd (auth_message c))) \<le> rb_free (send_buf u)
      \<and> (case ans_send a of
           IoOk k \<Rightarrow> k \<le> length (sendq u) + length (encode_frame (cs_ser cd (auth_message c)))
         | IoErr e \<Rightarrow> False))"

lemma Update_awaited_reply:
  assumes l: "listener c" and w: "awaits (session_state c) = Some (e, nxt)"
    and "Recv (ans_recv a) (tcp_sock c) = Done (NORMAL, u)" and "tu_ok u"
    and "tcp_pkg_parser_imp u = Some client_parse"
    and "recvq u = encode_frame m @ r" and "fits_client_frame m"
    and e: "cs_bodyid (cs_parse cd (View m)) = e"
    and auth: "session_state c = SESSION_STATE_KEY_SYNING \<Longrightarrow> can_auth cd a c u"
  shows "\<exists>c' out. Update cd a flag c
             = Done (if session_state c = SESSION_STATE_KEY_SYNING then 1 else 0, [], out, flag, c')
           \<and> session_state c' = nxt \<and> tu_ok (tcp_sock c') \<and> recvq (tcp_sock c') = r
           \<and> out @ sendq (tcp_sock c') = sendq u
               @ (if session_state c = SESSION_STATE_KEY_SYNING
                  then encode_frame (cs_ser cd (auth_message c)) else [])"
proof -
  from TryToRecvFromPeerAndParse_frame [OF assms(3-7), of cd] obtain u2 where
      rcv: "TryToRecvFromPeerAndParse cd a c
             = Done (if e = CS_ERROR then -1 else 0, c\<lparr>down_msg := cs_parse cd (View m), tcp_sock := u2\<rparr>)"
        and u2: "tu_ok u2" "recvq u2 = r" "send_buf u2 = send_buf u" "sock_state u2 = sock_state u"
    using e by blast
  show ?thesis
  proof (cases "session_state c = SESSION_STATE_KEY_SYNING")
    case False
    with w u2 show ?thesis
      by (cases rule: awaits_cases)
        (use rcv l e in \<open>auto simp: Update_def Update_switch_def HandShake_TRY_READY_def
          HandShake_TRY_DONE_def plain_step_def sendq_def\<close>)
  next
    case True
    with w have syn: "e = CS_SYNACK" "nxt = SESSION_STATE_AUTHING"
      by simp_all
    define c1 where "c1 = c\<lparr>down_msg := cs_parse cd (View m), tcp_sock := u2,
      encrypt_skey := (case cs_ack (cs_body (cs_parse cd (View m))) of None \<Rightarrow> [] | Some k \<Rightarrow> k)\<rparr>"
    define c2 where "c2 = prepare CS_AUTHENTICATION (empty_csbody\<lparr>cs_auth := Some (token c1)\<rparr>) c1"
    have c2: "tcp_sock c2 = u2" "cs_ser cd (auth_message c) = cs_ser cd (up_msg c2)"
      by (simp_all add: c2_def c1_def prepare_def auth_message_def)
    have ack: "HandShake_TRY_ACK cd a c = Done (0, c1)"
      using rcv syn e by (simp add: HandShake_TRY_ACK_def c1_def)
    obtain k where k: "ans_send a = IoOk k"
        "k \<le> length (sendq u2) + length (encode_frame (cs_ser cd (auth_message c)))"
      using auth [OF True] u2 by (auto simp: can_auth_def sendq_def split: io_result.splits)
    have auth2: "fits_frame (cs_ser cd (auth_message c))" "sock_state u2 = NET_CONNECTED"
        "length (encode_frame (cs_ser cd (auth_message c))) \<le> rb_free (send_buf u2)"
      using auth [OF True] u2 by (simp_all add: can_auth_def)
    from SerializeAndSendToPeer_connected [of c2, unfolded c2(1), OF u2(1) c2(2) auth2 k]
    obtain u3 out where "SerializeAndSendToPeer cd a c2 = Done (NORMAL, c2\<lparr>tcp_sock := u3\<rparr>, out)"
        and u3: "tu_ok u3" "sendq u2 @ encode_frame (cs_ser cd (auth_message c)) = out @ sendq u3"
          "recv_buf u3 = recv_buf u2"
      by blast
    then have "HandShake_AUTH cd a c1
        = Done (0, c2\<lparr>tcp_sock := u3, session_state := SESSION_STATE_AUTHING\<rparr>, out)"
      by (simp add: HandShake_AUTH_def c2_def)
    with ack True l have "Update cd a flag c
        = Done (1, [], out, flag, c2\<lparr>tcp_sock := u3, session_state := SESSION_STATE_AUTHING\<rparr>)"
      by (simp add: Update_def Update_switch_def sending_step_def)
    with u3 u2 True syn show ?thesis
      by (auto simp: sendq_def recvq_def)
  qed
qed

section \<open>After the handshake\<close>

lemma Update_established:
  assumes "listener c" and "session_state c = SESSION_STATE_DONE" and "tu_ok (tcp_sock c)"
    and "flag \<Longrightarrow> recv_fits (ans_recv a) (tcp_sock c)"
  shows "\<exists>ret evs u. Update cd a flag c = Done (ret, evs, [], True, c\<lparr>tcp_sock := u\<rparr>)
           \<and> tu_ok u \<and> sendq u = sendq (tcp_sock c)
           \<and> count_list evs OnHandShakeSucceed = (if flag then 0 else 1)
           \<and> OnHandShakeFailed \<notin> set evs"
proof (cases flag)
  case False
  then have "Update cd a flag c = Done (1, [OnHandShakeSucceed], [], True, c\<lparr>tcp_sock := tcp_sock c\<rparr>)"
    using assms(1,2) by (simp add: Update_def Update_switch_def)
  with False assms(3) show ?thesis
    by (intro exI [of _ 1] exI [of _ "[OnHandShakeSucceed]"] exI [of _ "tcp_sock c"]) simp
next
  case True
  obtain ret u where rcv: "Recv (ans_recv a) (tcp_sock c) = Done (ret, u)" and u: "tu_ok u"
      "send_buf u = send_buf (tcp_sock c)"
    using Recv_queue [OF assms(3) assms(4) [OF True]] by blast
  obtain has u1 where h: "HasNewPkg u = (has, u1)"
    by (cases "HasNewPkg u") auto
  then have "tu_ok u1" "send_buf u1 = send_buf u"
    using u(1) by (auto simp: HasNewPkg_def Let_def tu_ok_def split: option.splits)
  moreover define u' where "u' = (if ret = NORMAL then u1 else u)"
  ultimately have u': "tu_ok u'" "sendq u' = sendq (tcp_sock c)"
    using u by (simp_all add: sendq_def)
  let ?evs = "if ret = NORMAL \<and> has then [OnIncoming] else if ret = PEER_CLOSED then [OnServerClose] else []"
  have "Update cd a flag c
      = Done (if ret = NORMAL \<and> has then 1 else if ret = PEER_CLOSED then -1 else 0, ?evs, [], True,
              c\<lparr>tcp_sock := u'\<rparr>)"
    using True assms(1,2) by (simp add: Update_def Update_switch_def rcv h u'_def)
  moreover have "count_list ?evs OnHandShakeSucceed = 0" "OnHandShakeFailed \<notin> set ?evs"
    by simp_all
  ultimately show ?thesis
    using True u' by fastforce
qed

fun worker_fits :: "codec \<Rightarrow> net_answers list \<Rightarrow> bool \<Rightarrow> client \<Rightarrow> bool" where
  "worker_fits cd [] flag c = True"
| "worker_fits cd (a # as) flag c =
     ((flag \<longrightarrow> recv_fits (ans_recv a) (tcp_sock c))
      \<and> (case Update cd a flag c of
           Done (ret, evs, out, flag1, c1) \<Rightarrow> 0 \<le> ret \<longrightarrow> worker_fits cd as flag1 c1
         | Crash k \<Rightarrow> True))"

lemma worker_established:
  assumes "listener c" and "session_state c = SESSION_STATE_DONE" and "tu_ok (tcp_sock c)"
    and "worker_fits cd as flag c"
  shows "\<exists>evs flag' u. worker_loop cd as flag c = Done (evs, [], flag', c\<lparr>tcp_sock := u\<rparr>)
           \<and> tu_ok u \<and> sendq u = sendq (tcp_sock c)
           \<and> count_list evs OnHandShakeSucceed = (if flag \<or> as = [] then 0 else 1)
           \<and> OnHandShakeFailed \<notin> set evs"
  using assms
proof (induction as arbitrary: flag c)
  case Nil
  then show ?case
    by (auto intro: exI [of _ "tcp_sock c"])
next
  case (Cons a as)
  have "flag \<Longrightarrow> recv_fits (ans_recv a) (tcp_sock c)"
    using Cons.prems(4) by simp
  from Update_established [OF Cons.prems(1-3) this] obtain ret evs u where
      up: "Update cd a flag c = Done (ret, evs, [], True, c\<lparr>tcp_sock := u\<rparr>)" "tu_ok u"
        "sendq u = sendq (tcp_sock c)"
        "count_list evs OnHandShakeSucceed = (if flag then 0 else 1)" "OnHandShakeFailed \<notin> set evs"
    by blast
  show ?case
  proof (cases "ret < 0")
    case True
    then have "worker_loop cd (a # as) flag c = Done (evs, [], True, c\<lparr>tcp_sock := u\<rparr>)"
      by (simp add: up(1))
    with up show ?thesis
      by (intro exI [of _ evs] exI [of _ True] exI [of _ u]) simp
  next
    case False
    then have "worker_fits cd as True (c\<lparr>tcp_sock := u\<rparr>)"
      using Cons.prems(4) by (simp add: up(1))
    with Cons.IH [of "c\<lparr>tcp_sock := u\<rparr>" True] Cons.prems(1,2) up(2) obtain evs2 flag2 u2 where
        ih: "worker_loop cd as True (c\<lparr>tcp_sock := u\<rparr>) = Done (evs2, [], flag2, c\<lparr>tcp_sock := u2\<rparr>)"
          "tu_ok u2" "sendq u2 = sendq u" "count_list evs2 OnHandShakeSucceed = 0"
          "OnHandShakeFailed \<notin> set evs2"
      by auto
    then have "worker_loop cd (a # as) flag c = Done (evs @ evs2, [], flag2, c\<lparr>tcp_sock := u2\<rparr>)"
      using False by (simp add: up(1))
    with up ih show ?thesis
      by (intro exI [of _ "evs @ evs2"] exI [of _ flag2] exI [of _ u2]) simp
  qed
qed

section \<open>The order of the states\<close>

text \<open>The steps \<open>Update\<close> can make.\<close>

inductive client_step :: "session_state \<Rightarrow> session_state \<Rightarrow> bool" where
  connecting: "client_step SESSION_STATE_INITED SESSION_STATE_TCP_SYNING"
| syn_sent: "client_step SESSION_STATE_TCP_SYNING SESSION_STATE_KEY_SYNING"
| auth_sent: "client_step SESSION_STATE_KEY_SYNING SESSION_STATE_AUTHING"
| passport_got: "client_step SESSION_STATE_AUTHING SESSION_STATE_READY"
| started: "client_step SESSION_STATE_READY SESSION_STATE_DONE"
| staying: "client_step st st"

lemma client_step_simps [simp]:
  "client_step SESSION_STATE_INITED st = (st = SESSION_STATE_INITED \<or> st = SESSION_STATE_TCP_SYNING)"
  "client_step SESSION_STATE_TCP_SYNING st
     = (st = SESSION_STATE_TCP_SYNING \<or> st = SESSION_STATE_KEY_SYNING)"
  "client_step SESSION_STATE_KEY_SYNING st
     = (st = SESSION_STATE_KEY_SYNING \<or> st = SESSION_STATE_AUTHING)"
  "client_step SESSION_STATE_AUTHING st = (st = SESSION_STATE_AUTHING \<or> st = SESSION_STATE_READY)"
  "client_step SESSION_STATE_READY st = (st = SESSION_STATE_READY \<or> st = SESSION_STATE_DONE)"
  "client_step SESSION_STATE_DONE st = (st = SESSION_STATE_DONE)"
  "client_step SESSION_STATE_FINI st = (st = SESSION_STATE_FINI)"
  by (auto elim: client_step.cases intro: client_step.intros)

lemma SerializeAndSendToPeer_state:
  "SerializeAndSendToPeer cd a c = Done (ret, c', out) \<Longrightarrow>
     session_state c' = session_state c \<and> seqno c' = seqno c \<and> listener c' = listener c"
  by (clarsimp simp: SerializeAndSendToPeer_def Let_def bindE_eq_Done)
    (auto split: prod.split_asm if_split_asm)

lemma TryToRecvFromPeerAndParse_state:
  "TryToRecvFromPeerAndParse cd a c = Done (ret, c') \<Longrightarrow>
     session_state c' = session_state c \<and> seqno c' = seqno c \<and> listener c' = listener c"
  by (clarsimp simp: TryToRecvFromPeerAndParse_def Let_def bindE_eq_Done)
    (auto simp: Let_def split: prod.split_asm if_split_asm option.split_asm)

lemma client_Connect_state:
  "client_Connect a c = Done (ret, c') \<Longrightarrow>
     session_state c' = (if ret = 0 then SESSION_STATE_TCP_SYNING else session_state c)"
  by (auto simp: client_Connect_def split: if_split_asm prod.split_asm)

lemma HandShake_SYN_state:
  "HandShake_SYN cd a c = Done (ret, c', out) \<Longrightarrow>
     session_state c' = (if ret = 0 then SESSION_STATE_KEY_SYNING else session_state c)"
  by (clarsimp simp: HandShake_SYN_def bindE_eq_Done)
    (auto dest!: SerializeAndSendToPeer_state simp: prepare_def split: if_split_asm)

lemma HandShake_AUTH_state:
  "HandShake_AUTH cd a c = Done (ret, c', out) \<Longrightarrow>
     session_state c' = (if ret = 0 then SESSION_STATE_AUTHING else session_state c)"
  by (clarsimp simp: HandShake_AUTH_def bindE_eq_Done)
    (auto dest!: SerializeAndSendToPeer_state simp: prepare_def split: if_split_asm)

lemma HandShake_TRY_ACK_state:
  "HandShake_TRY_ACK cd a c = Done (ret, c') \<Longrightarrow> session_state c' = session_state c"
  by (clarsimp simp: HandShake_TRY_ACK_def bindE_eq_Done)
    (auto dest!: TryToRecvFromPeerAndParse_state split: if_split_asm)

lemma HandShake_TRY_READY_state:
  "HandShake_TRY_READY cd a c = Done (ret, c') \<Longrightarrow>
     session_state c' = session_state c \<or> ret = 0 \<and> session_state c' = SESSION_STATE_READY"
  by (clarsimp simp: HandShake_TRY_READY_def bindE_eq_Done)
    (auto dest!: TryToRecvFromPeerAndParse_state split: if_split_asm)

lemma HandShake_TRY_DONE_state:
  "HandShake_TRY_DONE cd a c = Done (ret, c') \<Longrightarrow>
     session_state c' = session_state c \<or> ret = 0 \<and> session_state c' = SESSION_STATE_DONE"
  by (clarsimp simp: HandShake_TRY_DONE_def bindE_eq_Done)
    (auto dest!: TryToRecvFromPeerAndParse_state split: if_split_asm)

lemmas handshake_states =
  client_Connect_state HandShake_SYN_state HandShake_AUTH_state HandShake_TRY_ACK_state
  HandShake_TRY_READY_state HandShake_TRY_DONE_state

lemma Update_switch_step:
  assumes "Update_switch cd a flag c = Done (Some s)"
  shows "client_step (session_state c) (session_state (st_client s))
         \<and> (session_state c \<noteq> SESSION_STATE_DONE \<longrightarrow> st_events s = [] \<and> st_flag s = flag)
         \<and> (session_state (st_client s) \<noteq> session_state c \<longrightarrow> st_ret s = NORMAL)"
proof (cases "session_state c")
  case SESSION_STATE_TCP_SYNING
  then show ?thesis
    using assms
    by (auto simp: Update_switch_def plain_step_def sending_step_def bindE_eq_Done Let_def
        dest!: handshake_states split: prod.split_asm if_split_asm)
next
  case SESSION_STATE_KEY_SYNING
  then show ?thesis
    using assms
    by (auto simp: Update_switch_def plain_step_def sending_step_def bindE_eq_Done
        dest!: handshake_states split: prod.split_asm if_split_asm)
next
  case SESSION_STATE_DONE
  with assms show ?thesis
    by (clarsimp simp: Update_switch_def bindE_eq_Done split: if_split_asm)
      (auto split: prod.split_asm if_split_asm)
qed (use assms in \<open>auto simp: Update_switch_def plain_step_def bindE_eq_Done
      dest!: handshake_states split: prod.split_asm if_split_asm\<close>)

lemma Update_order_step:
  assumes "Update cd a flag c = Done (ret, evs, out, flag', c')"
  shows "client_step (session_state c) (session_state c')
         \<and> (OnHandShakeSucceed \<in> set evs \<longrightarrow> session_state c = SESSION_STATE_DONE \<and> \<not> flag \<and> flag')
         \<and> (flag' \<noteq> flag \<longrightarrow> OnHandShakeSucceed \<in> set evs)"
proof (cases "listener c")
  case False
  with assms show ?thesis
    by (auto simp: Update_def intro: client_step.staying)
next
  case True
  with assms obtain r where sw: "Update_switch cd a flag c = Done r"
    by (auto simp: Update_def bindE_eq_Done)
  show ?thesis
  proof (cases r)
    case None
    with assms True sw show ?thesis
      by (auto simp: Update_def intro: client_step.staying)
  next
    case (Some s)
    with sw have step: "client_step (session_state c) (session_state (st_client s))"
        "session_state c \<noteq> SESSION_STATE_DONE \<longrightarrow> st_events s = [] \<and> st_flag s = flag"
      using Update_switch_step [of cd a flag c s] by auto
    have fin: "session_state c = SESSION_STATE_DONE \<Longrightarrow>
        st_flag s \<and> (OnHandShakeSucceed \<in> set (st_events s)) = (\<not> flag)"
      using sw Some
      by (clarsimp simp: Update_switch_def bindE_eq_Done split: if_split_asm)
        (auto split: prod.split_asm if_split_asm)
    from assms True sw Some have upd: "c' = st_client s" "flag' = st_flag s"
        "OnHandShakeSucceed \<in> set evs \<longleftrightarrow> OnHandShakeSucceed \<in> set (st_events s)"
      by (auto simp: Update_def split: if_split_asm)
    show ?thesis
      using step fin by (cases "session_state c = SESSION_STATE_DONE") (auto simp: upd)
  qed
qed

section \<open>Properties\<close>

definition client_codec :: codec where
  "client_codec =
     \<lparr>cs_parse = (\<lambda>v. case v of
          View (x # d) \<Rightarrow> cs_message 0 (uint x) (empty_csbody\<lparr>cs_data := Some d\<rparr>)
        | _ \<Rightarrow> default_csmsg),
      cs_ser = (\<lambda>m. ucast (cs_sequence m) # csmsg_data m),
      ss_parse = (\<lambda>v. ss_message 0 0 \<lparr>ss_fd = 0, ss_nid = 0, ss_sid = 0\<rparr> empty_ssbody),
      ss_ser = (\<lambda>m. [])\<rparr>"

definition client_answers :: net_answers where
  "client_answers =
     \<lparr>ans_connect = 7, ans_check = 0, ans_recv = RvErr EAGAIN, ans_send = IoOk 2, ans_now = 1\<rparr>"

definition sample_client :: "session_state \<Rightarrow> byte list \<Rightarrow> client" where
  "sample_client st q =
     client_new\<lparr>listener := True, session_state := st,
       tcp_sock := (fresh_socket client_parse 16 7 ''u'')
         \<lparr>recv_buf := \<lparr>rb_size = length q + 4, rb_buff = q @ [0, 0, 0, 0], rb_begin = 0,
                       rb_end = length q\<rparr>\<rparr>\<rparr>"

lemmas sample_client_simps =
  sample_client_def client_new_def fresh_socket_def Connect_def Init_def Malloc_def
  TcpSocketUtil_new_def RingBuffer_new_def

lemma sample_client_ok:
  assumes "length q < 100"
  shows "tu_ok (tcp_sock (sample_client st q))"
    and "Recv (RvErr EAGAIN) (tcp_sock (sample_client st q)) = Done (NORMAL, tcp_sock (sample_client st q))"
    and "tcp_pkg_parser_imp (tcp_sock (sample_client st q)) = Some client_parse"
    and "recvq (tcp_sock (sample_client st q)) = q"
    and "sendq (tcp_sock (sample_client st q)) = []"
    and "rb_free (send_buf (tcp_sock (sample_client st q))) = 16"
    and "sock_state (tcp_sock (sample_client st q)) = NET_CONNECTED"
    and "session_state (sample_client st q) = st"
    and "listener (sample_client st q)"
    and "seqno (sample_client st q) = 1"
    and "token (sample_client st q) = []"
  using assms
  by (simp_all add: sample_client_simps tu_ok_def ring_ok_def Recv_def Avaiable_def recvq_def sendq_def
      rb_data_def rb_free_def)

text \<open>C30. A complete packet during the handshake that is not the one the client waits for is
  consumed. While it waits for the key, and for an \<open>ERROR\<close> packet in any of the three waiting
  states, nothing else happens: no failure is reported and the state stays, because the code -1
  of these errors is the code of an incomplete packet. Any other packet while waiting for the
  passport or the start reports a failed handshake.\<close>

theorem Update_unexpected_reply:
  assumes "listener c" and "awaits (session_state c) = Some (e, nxt)"
    and "Recv (ans_recv a) (tcp_sock c) = Done (NORMAL, u)" and "tu_ok u"
    and "tcp_pkg_parser_imp u = Some client_parse"
    and "recvq u = encode_frame m @ r" and "fits_client_frame m"
    and "cs_bodyid (cs_parse cd (View m)) \<noteq> e"
  shows "\<exists>u2. Update cd a flag c =
           (if session_state c = SESSION_STATE_KEY_SYNING \<or> cs_bodyid (cs_parse cd (View m)) = CS_ERROR
            then Done (0, [], [], flag, c\<lparr>down_msg := cs_parse cd (View m), tcp_sock := u2\<rparr>)
            else Done (-1, [OnHandShakeFailed], [], flag,
                       c\<lparr>down_msg := cs_parse cd (View m), tcp_sock := u2\<rparr>))
         \<and> tu_ok u2 \<and> recvq u2 = r \<and> send_buf u2 = send_buf u"
  by (rule Update_wrong_reply [OF assms])

theorem Update_unexpected_reply_witness:
  "\<exists>c'. Update client_codec client_answers False
          (sample_client SESSION_STATE_KEY_SYNING (encode_frame [100, 1]))
        = Done (0, [], [], False, c')
      \<and> session_state c' = SESSION_STATE_KEY_SYNING \<and> recvq (tcp_sock c') = []"
proof -
  let ?c = "sample_client SESSION_STATE_KEY_SYNING (encode_frame [100, 1])"
  have q: "length (encode_frame [100, 1]) < 100"
    by (simp add: encode_frame_def)
  have b: "cs_bodyid (cs_parse client_codec (View [100, 1])) = 100"
    by (simp add: client_codec_def cs_message_def)
  show ?thesis
    using Update_unexpected_reply [of ?c CS_SYNACK SESSION_STATE_AUTHING client_answers "tcp_sock ?c"
        "[100, 1]" "[]" client_codec False] sample_client_ok [OF q] b
    by (auto simp: client_answers_def fits_client_frame_def fits_frame_def)
qed

text \<open>The awaited packet moves the handshake one state on. \<open>PASSPORT\<close> and
  \<open>START_APP\<close> send nothing; on a connected socket with room, \<open>SYNACK\<close> is answered
  with one frame, the authentication message with the next sequence number and the token, whose
  bytes the kernel has taken or that wait in the send queue.\<close>

theorem Update_expected_reply:
  assumes "listener c" and "awaits (session_state c) = Some (e, nxt)"
    and "Recv (ans_recv a) (tcp_sock c) = Done (NORMAL, u)" and "tu_ok u"
    and "tcp_pkg_parser_imp u = Some client_parse"
    and "recvq u = encode_frame m @ r" and "fits_client_frame m"
    and "cs_bodyid (cs_parse cd (View m)) = e"
    and "session_state c = SESSION_STATE_KEY_SYNING \<Longrightarrow> can_auth cd a c u"
  shows "\<exists>c' out. Update cd a flag c
             = Done (if session_state c = SESSION_STATE_KEY_SYNING then 1 else 0, [], out, flag, c')
           \<and> session_state c' = nxt \<and> tu_ok (tcp_sock c') \<and> recvq (tcp_sock c') = r
           \<and> out @ sendq (tcp_sock c') = sendq u
               @ (if session_state c = SESSION_STATE_KEY_SYNING
                  then encode_frame (cs_ser cd (auth_message c)) else [])"
  by (rule Update_awaited_reply [OF assms])

theorem Update_expected_reply_witness:
  "\<exists>c' out. Update client_codec client_answers False
          (sample_client SESSION_STATE_KEY_SYNING (encode_frame [2, 1]))
        = Done (1, [], out, False, c')
      \<and> session_state c' = SESSION_STATE_AUTHING \<and> out @ sendq (tcp_sock c') = encode_frame [1]"
proof -
  let ?c = "sample_client SESSION_STATE_KEY_SYNING (encode_frame [2, 1])"
  have q: "length (encode_frame [2, 1]) < 100"
    by (simp add: encode_frame_def)
  note ok = sample_client_ok [OF q, of SESSION_STATE_KEY_SYNING]
  have b: "cs_bodyid (cs_parse client_codec (View [2, 1])) = 2"
    by (simp add: client_codec_def cs_message_def)
  have ser: "cs_ser client_codec (auth_message ?c) = [1]"
    by (simp add: client_codec_def auth_message_def cs_message_def csmsg_data_def empty_csbody_def ok)
  have auth: "can_auth client_codec client_answers ?c (tcp_sock ?c)"
    unfolding can_auth_def ser
    by (simp add: ok client_answers_def fits_frame_def encode_frame_length)
  show ?thesis
    using Update_expected_reply [of ?c CS_SYNACK SESSION_STATE_AUTHING client_answers "tcp_sock ?c"
        "[2, 1]" "[]" client_codec False] ok b auth
    by (auto simp: client_answers_def fits_client_frame_def fits_frame_def ser)
qed

text \<open>A sequence of pushes writes whole frames in order: the bytes the kernel took followed by
  those that wait are the bytes that waited before followed by the frames of the pushes that
  found room. Each push takes the next sequence number, also one that finds no room and is
  refused.\<close>

theorem push_all_frames:
  assumes "tu_ok (tcp_sock c)" and "pushes_fit cd ps c"
  shows "\<exists>rets outs c'. push_all cd ps c = Done (rets, outs, c') \<and> tu_ok (tcp_sock c')
           \<and> outs @ sendq (tcp_sock c') = sendq (tcp_sock c)
               @ cs_frames cd (queued (seqno c) (map snd ps) (pushed cd ps c))
           \<and> seqno c' = seqno c + of_nat (length ps)"
  using push_all_queue [OF assms] by blast

definition sample_pushes :: "(net_answers \<times> byte list) list" where
  "sample_pushes = [(client_answers, [65, 66]), (client_answers, replicate 20 67), (client_answers, [68])]"

lemmas push_eval =
  PushMessage_def SerializeAndSendToPeer_def prepare_def PushvToSendQ_def iov_used_def Send_def
  Datalen_def Avaiable_def rb_data_def rb_append_def Recycle_ATOMIC_def int_of_size_def be32_def
  has_room_def data_frame_def data_message_def encode_frame_def cs_message_def csmsg_data_def
  rb_free_def push_fits_def takes_at_most_def fits_frame_def sendq_def empty_csbody_def

theorem push_all_frames_witness:
  "\<exists>rets outs c'. push_all client_codec sample_pushes (sample_client SESSION_STATE_DONE [])
        = Done (rets, outs, c')
      \<and> outs @ sendq (tcp_sock c') = [0, 0, 0, 7, 1, 65, 66, 0, 0, 0, 6, 3, 68] \<and> seqno c' = 4"
proof -
  let ?c = "sample_client SESSION_STATE_DONE []"
  have fit: "pushes_fit client_codec sample_pushes ?c"
    and pushed: "pushed client_codec sample_pushes ?c = [True, False, True]"
    by (simp_all add: sample_pushes_def push_eval sample_client_simps client_codec_def
        client_answers_def Let_def)
  have "cs_frames client_codec (queued (seqno ?c) (map snd sample_pushes) [True, False, True])
      = [0, 0, 0, 7, 1, 65, 66, 0, 0, 0, 6, 3, 68]"
    by (simp add: sample_pushes_def cs_frames_def sample_client_ok push_eval client_codec_def)
  with push_all_frames [of ?c client_codec sample_pushes] fit pushed sample_client_ok [of "[]" SESSION_STATE_DONE]
  show ?thesis
    by (auto simp: sample_pushes_def)
qed

text \<open>C35. After the handshake the worker loop only receives: it ends without touching memory it does
  not own, sends nothing, so bytes that a partial send left in the queue stay there until the
  next push, reports no failed handshake, and reports success once, but only if the flag, one
  variable for all the clients of the process, is not yet set.\<close>

theorem worker_only_receives:
  assumes "listener c" and "session_state c = SESSION_STATE_DONE" and "tu_ok (tcp_sock c)"
    and "worker_fits cd as flag c"
  shows "\<exists>evs flag' u. worker_loop cd as flag c = Done (evs, [], flag', c\<lparr>tcp_sock := u\<rparr>)
           \<and> sendq u = sendq (tcp_sock c)
           \<and> count_list evs OnHandShakeSucceed = (if flag \<or> as = [] then 0 else 1)
           \<and> OnHandShakeFailed \<notin> set evs"
  using worker_established [OF assms] by blast

theorem worker_only_receives_witness:
  "\<exists>evs c'. worker_loop client_codec [client_answers, client_answers] True
              (sample_client SESSION_STATE_DONE [1]) = Done (evs, [], True, c')
     \<and> OnHandShakeSucceed \<notin> set evs"
proof -
  let ?c = "sample_client SESSION_STATE_DONE [1]"
  note ok = sample_client_ok [of "[1]" SESSION_STATE_DONE]
  have run: "Update client_codec client_answers True ?c = Done (0, [], [], True, ?c)"
    using ok(2,3,8,9) sample_client_ok(4) [of "[1]" SESSION_STATE_DONE]
    by (simp add: Update_def Update_switch_def client_answers_def HasNewPkg_def Let_def
        client_parse_def GetPkgLen_def recvq_def)
  have fit: "worker_fits client_codec [client_answers, client_answers] True ?c"
    by (simp add: run) (simp add: recv_fits_def client_answers_def)
  have "worker_loop client_codec [client_answers, client_answers] True ?c = Done ([], [], True, ?c)"
    by (simp add: run)
  with worker_only_receives [OF _ _ _ fit] ok show ?thesis
    by auto
qed

text \<open>\<open>Update\<close> follows the order of the handshake: the state stays or makes the one
  step connecting, \<open>SYN\<close> sent, authentication sent, passport received, started, and never
  goes back. Success is reported only in the last state, with the flag unset before and set
  after, and nothing else sets the flag.\<close>

theorem Update_order:
  assumes "Update cd a flag c = Done (ret, evs, out, flag', c')"
  shows "client_step (session_state c) (session_state c')
         \<and> (OnHandShakeSucceed \<in> set evs \<longrightarrow> session_state c = SESSION_STATE_DONE \<and> \<not> flag \<and> flag')
         \<and> (flag' \<noteq> flag \<longrightarrow> OnHandShakeSucceed \<in> set evs)"
  by (rule Update_order_step [OF assms])

theorem Update_order_witness:
  "client_step SESSION_STATE_INITED SESSION_STATE_TCP_SYNING \<and>
   Update client_codec client_answers False (sample_client SESSION_STATE_INITED [])
     = Done (0, [], [], False, sample_client SESSION_STATE_TCP_SYNING []\<lparr>tcp_sock :=
         (tcp_sock (sample_client SESSION_STATE_INITED []))\<lparr>sock_state := NET_CONNECTING, sock_url := []\<rparr>\<rparr>)"
proof -
  have run: "Update client_codec client_answers False (sample_client SESSION_STATE_INITED [])
     = Done (0, [], [], False, sample_client SESSION_STATE_TCP_SYNING []\<lparr>tcp_sock :=
         (tcp_sock (sample_client SESSION_STATE_INITED []))\<lparr>sock_state := NET_CONNECTING, sock_url := []\<rparr>\<rparr>)"
    by (simp add: Update_def Update_switch_def plain_step_def client_Connect_def ConnectNonBlock_def
        client_answers_def sample_client_simps)
  from Update_order [OF run] run show ?thesis
    by (simp add: sample_client_ok)
qed

text \<open>\<open>PopMessageFromRecvQ\<close> with a complete packet at the head of the queue: a data
  message that fits the caller's buffer is handed over whole and removed; a data message that
  does not fit, and any packet that is not a data message, gives -1 and stays where it is, so
  the second kind blocks all the messages behind it for good.\<close>

theorem PopMessageFromRecvQ_head:
  assumes "tu_ok (tcp_sock c)" and "tcp_pkg_parser_imp (tcp_sock c) = Some client_parse"
    and "recvq (tcp_sock c) = encode_frame m @ r" and "fits_client_frame m" and "0 < room"
  shows "let d = cs_parse cd (View m) in
     if cs_bodyid d = CS_DATA_TRANSPARENT \<and> length (csmsg_data d) \<le> room
     then \<exists>c'. PopMessageFromRecvQ cd a (Some room) c = Done (0, Some (csmsg_data d), c')
            \<and> tu_ok (tcp_sock c') \<and> recvq (tcp_sock c') = r
     else \<exists>c'. PopMessageFromRecvQ cd a (Some room) c = Done (-1, None, c')
            \<and> tu_ok (tcp_sock c') \<and> recvq (tcp_sock c') = recvq (tcp_sock c)"
proof -
  obtain u1 u2 where "HasNewPkg (tcp_sock c) = (True, tcp_sock c)"
      "PeekFromRecvQ (ans_now a) (tcp_sock c) = (NORMAL, Some (encode_frame m), u1)"
      "PopFromRecvQ u1 = (NORMAL, u2)" "tu_ok u1" "recvq u1 = recvq (tcp_sock c)" "tu_ok u2" "recvq u2 = r"
    using packet_at_head [OF assms(1-4)] by metis
  with assms(5) show ?thesis
    by (auto simp: PopMessageFromRecvQ_def PeekMessage_def PopMessage_def Let_def frame_view)
qed

theorem PopMessageFromRecvQ_head_witness:
  "(\<exists>c'. PopMessageFromRecvQ client_codec client_answers (Some 8)
            (sample_client SESSION_STATE_DONE (encode_frame [16, 65, 66] @ [0])) = Done (0, Some [65, 66], c')
         \<and> recvq (tcp_sock c') = [0])
   \<and> (\<exists>c'. PopMessageFromRecvQ client_codec client_answers (Some 8)
            (sample_client SESSION_STATE_DONE (encode_frame [100, 65] @ [0])) = Done (-1, None, c')
         \<and> recvq (tcp_sock c') = encode_frame [100, 65] @ [0])"
proof -
  have q: "length (encode_frame [16, 65, 66] @ [0]) < 100" "length (encode_frame [100, 65] @ [0]) < 100"
    by (simp_all add: encode_frame_def)
  note ok = sample_client_ok [OF q(1), of SESSION_STATE_DONE] sample_client_ok [OF q(2), of SESSION_STATE_DONE]
  have m: "cs_parse client_codec (View [16, 65, 66])
        = cs_message 0 16 (empty_csbody\<lparr>cs_data := Some [65, 66]\<rparr>)"
      "cs_parse client_codec (View [100, 65])
        = cs_message 0 100 (empty_csbody\<lparr>cs_data := Some [65]\<rparr>)"
    by (simp_all add: client_codec_def)
  have fits: "fits_client_frame [16, 65, 66]" "fits_client_frame [100, 65]"
    by (simp_all add: fits_client_frame_def fits_frame_def)
  show ?thesis
    using PopMessageFromRecvQ_head [OF ok(1) ok(3,4) fits(1), of 8 client_codec client_answers]
      PopMessageFromRecvQ_head [OF ok(12) ok(14,15) fits(2), of 8 client_codec client_answers]
    by (auto simp: m ok cs_message_def csmsg_data_def Let_def)
qed

end
