(* ===== verification/ClientThread.thy ===== *)
theory ClientThread
  imports ClientApi
begin

text \<open>
  \<open>client_api/connector_client_api_imp.cpp\<close>, the class with a worker thread, and the sample
  program \<open>client_main.cpp\<close> on it: a main thread that pushes and a worker that runs
  \<open>Update\<close>. A process is a step relation over the two; one step is one call, so that the
  two threads interleave between calls. Inside a call they share data without a lock: that is a data
  race, which this model does not cover.
\<close>

section \<open>The class\<close>

record thread_imp =
  ccproto :: "client option"
  wt_listener :: bool
  evt_listener :: "client_settings option"
  exit_flag :: bool

definition thread_new :: thread_imp where
  "thread_new = \<lparr>ccproto = None, wt_listener = False, evt_listener = None, exit_flag = False\<rparr>"

text \<open>The last component is whether a thread has been created.\<close>

definition StartThread :: "client_settings option \<Rightarrow> bool \<Rightarrow> thread_imp \<Rightarrow> int \<times> thread_imp \<times> bool" where
  "StartThread pel wtl th =
     (if pel = None \<or> \<not> wtl then (-1, th, False)
      else (0, th\<lparr>wt_listener := True, evt_listener := pel, ccproto := Some client_new\<rparr>, True))"

definition TerminateThread :: "thread_imp \<Rightarrow> int \<times> thread_imp" where
  "TerminateThread th = (0, th\<lparr>exit_flag := True\<rparr>)"

text \<open>A call on the client inside.\<close>

definition on_proto :: "(client \<Rightarrow> ('r \<times> client) exec) \<Rightarrow> thread_imp \<Rightarrow> ('r \<times> thread_imp) exec" where
  "on_proto f th =
     (case ccproto th of
        None \<Rightarrow> Crash AssertFailed
      | Some c \<Rightarrow> bindE (f c) (\<lambda>(r, c1). Done (r, th\<lparr>ccproto := Some c1\<rparr>)))"

definition PushMessageToSendQ ::
    "codec \<Rightarrow> net_answers \<Rightarrow> byte list option \<Rightarrow> thread_imp \<Rightarrow> ((int \<times> byte list) \<times> thread_imp) exec" where
  "PushMessageToSendQ cd a data =
     on_proto (\<lambda>c. bindE (PushMessage cd a data c) (\<lambda>(ret, c1, out). Done ((ret, out), c1)))"

definition Thread_Pop ::
    "codec \<Rightarrow> net_answers \<Rightarrow> nat option \<Rightarrow> thread_imp \<Rightarrow> ((int \<times> byte list option) \<times> thread_imp) exec" where
  "Thread_Pop cd a room th =
     (if room = None \<or> room = Some 0 then Done ((-1, None), th)
      else on_proto (\<lambda>c. bindE (PopMessageFromRecvQ cd a room c) (\<lambda>(ret, d, c1). Done ((ret, d), c1))) th)"

text \<open>The start of \<open>MainLoop\<close>; the loop itself is below.\<close>

definition MainLoop_start :: "net_answers \<Rightarrow> thread_imp \<Rightarrow> (int \<times> thread_imp) exec" where
  "MainLoop_start a th =
     (if ccproto th = None \<or> \<not> wt_listener th \<or> evt_listener th = None then Crash AssertFailed
      else if exit_flag th then Crash AssertFailed
      else on_proto (client_Start True True (evt_listener th) a) th)"

section \<open>The sample program\<close>

text \<open>Where the two threads are; \<open>MainEnd\<close> is the end of the process.\<close>

datatype main_pc = MainBegin | MainTest | MainPush | MainFini | MainReturn | MainEnd
datatype worker_pc = NoWorker | Spawned | Looping | Finished

text \<open>
  The program: its listener's flags \<open>exit_\<close> and \<open>state_ok_\<close>, the thread object, the
  static flag of \<open>Update\<close>, all bytes handed to the kernel, and what \<open>OnIncoming\<close> has
  popped.
\<close>

record process =
  at_main :: main_pc
  at_worker :: worker_pc
  prog_exit :: bool
  state_ok :: bool
  thread :: thread_imp
  done_flag :: bool
  sent_out :: "byte list"
  popped :: "(int \<times> byte list option) list"

definition process_new :: process where
  "process_new = \<lparr>at_main = MainBegin, at_worker = NoWorker, prog_exit = False, state_ok = False,
     thread = thread_new, done_flag = False, sent_out = [], popped = []\<rparr>"

definition hello :: "byte list" where
  "hello = [104, 101, 108, 108, 111, 0]"

definition main_settings :: client_settings where
  "main_settings = \<lparr>set_appid = ''TEST123456'', set_openid = ''GUEST0987654321'', set_token = ''TOKEN3388'',
     set_server_uri = ''tcp://127.0.0.1:8888''\<rparr>"

text \<open>The callbacks; \<open>OnIncoming\<close> pops into a static buffer of 10240 bytes.\<close>

fun on_client_event :: "codec \<Rightarrow> net_answers \<Rightarrow> client_event \<Rightarrow> process \<Rightarrow> process exec" where
  "on_client_event cd a OnHandShakeSucceed p = Done (p\<lparr>state_ok := True\<rparr>)"
| "on_client_event cd a OnHandShakeFailed p = Done (p\<lparr>prog_exit := True\<rparr>)"
| "on_client_event cd a OnServerClose p = Done (p\<lparr>prog_exit := True\<rparr>)"
| "on_client_event cd a OnIncoming p =
     bindE (Thread_Pop cd a (Some 10239) (thread p)) (\<lambda>(r, th). Done (p\<lparr>thread := th, popped := popped p @ [r]\<rparr>))"

fun on_client_events :: "codec \<Rightarrow> net_answers \<Rightarrow> client_event list \<Rightarrow> process \<Rightarrow> process exec" where
  "on_client_events cd a [] p = Done p"
| "on_client_events cd a (e # es) p = bindE (on_client_event cd a e p) (on_client_events cd a es)"

text \<open>\<open>main\<close>: the start of the thread, whose result nobody looks at, the test and the body of its
  loop, and what follows the loop.\<close>

definition main_begin :: "process \<Rightarrow> process" where
  "main_begin p =
     (case StartThread (Some main_settings) True (thread p) of
        (ret, th, created) \<Rightarrow>
          p\<lparr>thread := th, at_main := MainTest, at_worker := (if created then Spawned else at_worker p)\<rparr>)"

definition main_test :: "process \<Rightarrow> process" where
  "main_test p = p\<lparr>at_main := (if prog_exit p then MainFini else MainPush)\<rparr>"

definition main_push :: "codec \<Rightarrow> net_answers \<Rightarrow> process \<Rightarrow> process exec" where
  "main_push cd a p =
     (if \<not> state_ok p then Done (p\<lparr>at_main := MainTest\<rparr>)
      else bindE (PushMessageToSendQ cd a (Some hello) (thread p)) (\<lambda>((ret, out), th).
             Done (p\<lparr>thread := th, sent_out := sent_out p @ out, at_main := MainTest\<rparr>)))"

definition main_fini :: "process \<Rightarrow> process" where
  "main_fini p = p\<lparr>thread := snd (TerminateThread (thread p)), at_main := MainReturn\<rparr>"

text \<open>The worker: the start of \<open>MainLoop\<close> and one round of its loop.\<close>

definition worker_begin :: "net_answers \<Rightarrow> process \<Rightarrow> process exec" where
  "worker_begin a p =
     bindE (MainLoop_start a (thread p)) (\<lambda>(ret, th).
       let p1 = p\<lparr>thread := th\<rparr> in
       Done (if ret \<noteq> 0 then p1\<lparr>at_worker := Finished, prog_exit := True\<rparr> else p1\<lparr>at_worker := Looping\<rparr>))"

definition worker_round :: "codec \<Rightarrow> net_answers \<Rightarrow> process \<Rightarrow> process exec" where
  "worker_round cd a p =
     (if exit_flag (thread p) then Done (p\<lparr>at_worker := Finished, prog_exit := True\<rparr>)
      else
        bindE (on_proto (\<lambda>c. bindE (Update cd a (done_flag p) c)
                 (\<lambda>(ret, evs, out, flag, c1). Done ((ret, evs, out, flag), c1))) (thread p))
          (\<lambda>((ret, evs, out, flag), th).
             bindE (on_client_events cd a evs (p\<lparr>thread := th, done_flag := flag, sent_out := sent_out p @ out\<rparr>))
               (\<lambda>p1. Done (if ret < 0 then p1\<lparr>at_worker := Finished, prog_exit := True\<rparr> else p1))))"

text \<open>The messages of the handshake, by sequence number.\<close>

definition syn_message :: "client \<Rightarrow> csmsg" where
  "syn_message c = cs_message (seqno c) CS_SYN (empty_csbody\<lparr>cs_syn := Some (appid c, openid c)\<rparr>)"

text \<open>What \<open>Update\<close> would send in a state.\<close>

definition next_msg :: "client \<Rightarrow> csmsg option" where
  "next_msg c =
     (if session_state c = SESSION_STATE_TCP_SYNING then Some (syn_message c)
      else if session_state c = SESSION_STATE_KEY_SYNING then Some (auth_message c)
      else None)"

text \<open>The kernel keeps its promises during one call of \<open>Update\<close>.\<close>

definition client_fits :: "codec \<Rightarrow> net_answers \<Rightarrow> client \<Rightarrow> bool" where
  "client_fits cd a c =
     (recv_fits (ans_recv a) (tcp_sock c)
      \<and> (case next_msg c of
           None \<Rightarrow> True
         | Some m \<Rightarrow> takes_at_most a (length (sendq (tcp_sock c)) + length (encode_frame (cs_ser cd m)))))"

section \<open>One call of Update\<close>

text \<open>A socket that is sound and has its parser; the receiving calls keep that and what waits to
  be sent.\<close>

definition sock_sound :: "tcp_util \<Rightarrow> bool" where
  "sock_sound u = (tu_ok u \<and> tcp_pkg_parser_imp u = Some client_parse)"

lemma packet_calls_keep:
  assumes "sock_sound u"
  shows "snd (HasNewPkg u) = u" "fst (HasNewPkg u) \<Longrightarrow> fst (PeekFromRecvQ now u) = NORMAL"
    "fst (HasNewPkg u) \<Longrightarrow> fst (snd (PeekFromRecvQ now u)) \<noteq> None"
    "sock_sound (snd (snd (PeekFromRecvQ now u)))" "sendq (snd (snd (PeekFromRecvQ now u))) = sendq u"
    "fst (PopFromRecvQ u) = NORMAL" "sock_sound (snd (PopFromRecvQ u))" "sendq (snd (PopFromRecvQ u)) = sendq u"
proof -
  have ring: "ring_ok (recv_buf u)" and parser: "tcp_pkg_parser_imp u = Some client_parse"
    using assms by (simp_all add: sock_sound_def tu_ok_def)
  show "snd (HasNewPkg u) = u" "fst (HasNewPkg u) \<Longrightarrow> fst (PeekFromRecvQ now u) = NORMAL"
    "fst (HasNewPkg u) \<Longrightarrow> fst (snd (PeekFromRecvQ now u)) \<noteq> None"
    "sock_sound (snd (snd (PeekFromRecvQ now u)))" "sendq (snd (snd (PeekFromRecvQ now u))) = sendq u"
    using assms parser by (auto simp: HasNewPkg_def PeekFromRecvQ_def Let_def sock_sound_def tu_ok_def sendq_def)
  show "fst (PopFromRecvQ u) = NORMAL" "sendq (snd (PopFromRecvQ u)) = sendq u"
    using parser by (auto simp: PopFromRecvQ_def Let_def sendq_def)
  have "ring_ok ((recv_buf u)\<lparr>rb_begin := rb_begin (recv_buf u) + nat len\<rparr>)"
    if "\<not> (len \<le> 0 \<or> Datalen (recv_buf u) < len)" for len
    using that ring ring_ok_skip [OF ring, of "nat len"] by (auto simp: ring_lens)
  then show "sock_sound (snd (PopFromRecvQ u))"
    using assms parser ring by (auto simp: PopFromRecvQ_def Let_def sock_sound_def tu_ok_def recycle_ok)
qed

lemma TryToRecv_keeps:
  assumes "sock_sound (tcp_sock c)" and "recv_fits (ans_recv a) (tcp_sock c)"
  shows "\<exists>ret u m. TryToRecvFromPeerAndParse cd a c = Done (ret, c\<lparr>tcp_sock := u, down_msg := m\<rparr>)
    \<and> sock_sound u \<and> sendq u = sendq (tcp_sock c)"
proof -
  obtain ret u where rcv: "Recv (ans_recv a) (tcp_sock c) = Done (ret, u)" and u: "sock_sound u"
      "sendq u = sendq (tcp_sock c)"
    using Recv_queue [OF _ assms(2)] assms(1) by (fastforce simp: sock_sound_def sendq_def)
  have id: "c\<lparr>tcp_sock := v\<rparr> = c\<lparr>tcp_sock := v, down_msg := down_msg c\<rparr>" for v
    by simp
  obtain has where has: "HasNewPkg u = (has, u)"
    using packet_calls_keep(1) [OF u(1)] by (cases "HasNewPkg u") simp
  show ?thesis
  proof (cases "ret \<noteq> NORMAL \<or> \<not> has")
    case True
    with rcv has u show ?thesis
      by (auto simp: TryToRecvFromPeerAndParse_def intro!: exI [of _ u] exI [of _ "down_msg c"])
  next
    case False
    then obtain b u1 where peek: "PeekFromRecvQ (ans_now a) u = (NORMAL, Some b, u1)" and u1: "sock_sound u1"
        "sendq u1 = sendq u"
      using packet_calls_keep(2-5) [OF u(1), of "ans_now a"] has
      by (cases "PeekFromRecvQ (ans_now a) u") auto
    obtain u2 where "PopFromRecvQ u1 = (NORMAL, u2)" "sock_sound u2" "sendq u2 = sendq u"
      using packet_calls_keep(6-8) [OF u1(1)] u1(2) by (cases "PopFromRecvQ u1") simp
    with False rcv has peek u show ?thesis
      by (auto simp: TryToRecvFromPeerAndParse_def Let_def
          intro!: exI [of _ u2] exI [of _ "cs_parse cd (payload b (length b))"])
  qed
qed

lemma PopMessageFromRecvQ_keeps:
  assumes "sock_sound (tcp_sock c)" and "0 < n"
  shows "\<exists>ret d u m. PopMessageFromRecvQ cd a (Some n) c = Done (ret, d, c\<lparr>tcp_sock := u, down_msg := m\<rparr>)
    \<and> sock_sound u \<and> sendq u = sendq (tcp_sock c)"
proof -
  have same: "c = c\<lparr>tcp_sock := tcp_sock c, down_msg := down_msg c\<rparr>"
    by simp
  obtain has where has: "HasNewPkg (tcp_sock c) = (has, tcp_sock c)"
    using packet_calls_keep(1) [OF assms(1)] by (cases "HasNewPkg (tcp_sock c)") simp
  have "\<exists>ret d u m. PeekMessage cd a c = Done (ret, d, c\<lparr>tcp_sock := u, down_msg := m\<rparr>)
    \<and> sock_sound u \<and> sendq u = sendq (tcp_sock c)"
  proof (cases has)
    case False
    then have "PeekMessage cd a c = Done (CONNECTOR_ERR_NO_MORE_PKG, None, c\<lparr>tcp_sock := tcp_sock c, down_msg := down_msg c\<rparr>)"
      using has by (simp add: PeekMessage_def)
    then show ?thesis
      using assms(1) by blast
  next
    case True
    then obtain b u1 where "PeekFromRecvQ (ans_now a) (tcp_sock c) = (NORMAL, Some b, u1)" "sock_sound u1"
        "sendq u1 = sendq (tcp_sock c)"
      using packet_calls_keep(2-5) [OF assms(1), of "ans_now a"] has
      by (cases "PeekFromRecvQ (ans_now a) (tcp_sock c)") auto
    with True has show ?thesis
      by (auto simp: PeekMessage_def Let_def intro!: exI [of _ u1] exI [of _ "cs_parse cd (payload b (length b))"])
  qed
  then obtain ret d u m where peek: "PeekMessage cd a c = Done (ret, d, c\<lparr>tcp_sock := u, down_msg := m\<rparr>)"
    "sock_sound u" "sendq u = sendq (tcp_sock c)"
    by blast
  obtain u2 where pop: "PopFromRecvQ u = (NORMAL, u2)" "sock_sound u2" "sendq u2 = sendq u"
    using packet_calls_keep(6-8) [OF peek(2)] by (cases "PopFromRecvQ u") simp
  define r where "r = fst (PopMessage (c\<lparr>tcp_sock := u, down_msg := m\<rparr>))"
  have pm: "PopMessage (c\<lparr>tcp_sock := u, down_msg := m\<rparr>) = (r, c\<lparr>tcp_sock := u2, down_msg := m\<rparr>)"
    using pop(1) by (simp add: r_def PopMessage_def)
  define c1 where "c1 = c\<lparr>tcp_sock := u, down_msg := m\<rparr>"
  define c2 where "c2 = c\<lparr>tcp_sock := u2, down_msg := m\<rparr>"
  have "\<exists>ret d. PopMessageFromRecvQ cd a (Some n) c = Done (ret, d, c1)
      \<or> PopMessageFromRecvQ cd a (Some n) c = Done (ret, d, c2)"
    using assms(2) peek(1) pm
    by (auto simp: PopMessageFromRecvQ_def c1_def [symmetric] c2_def [symmetric] split: option.splits)
  then show ?thesis
    using peek(2,3) pop(2,3) unfolding c1_def c2_def by metis
qed

text \<open>How many handshake messages a state has behind it.\<close>

fun phase :: "session_state \<Rightarrow> nat" where
  "phase SESSION_STATE_INITED = 0"
| "phase SESSION_STATE_TCP_SYNING = 0"
| "phase SESSION_STATE_KEY_SYNING = 1"
| "phase st = 2"

text \<open>What \<open>Update\<close> keeps of a client: who it is, its listener and a sound socket.\<close>

definition same_user :: "client \<Rightarrow> client \<Rightarrow> bool" where
  "same_user c c' = (listener c' = listener c \<and> appid c' = appid c \<and> openid c' = openid c \<and> token c' = token c)"

text \<open>A call that sent at most the message of the state, and advanced by it if it did not fail.\<close>

definition sends_next :: "codec \<Rightarrow> client \<Rightarrow> int \<Rightarrow> byte list \<Rightarrow> client \<Rightarrow> bool" where
  "sends_next cd c ret out c' =
     (same_user c c' \<and> sock_sound (tcp_sock c')
      \<and> (\<exists>ms. (ms = [] \<or> (\<exists>m. next_msg c = Some m \<and> ms = [m]))
           \<and> out @ sendq (tcp_sock c') = sendq (tcp_sock c) @ cs_frames cd ms
           \<and> (0 \<le> ret \<longrightarrow> seqno c' = seqno c + of_nat (length ms)
                \<and> phase (session_state c') = phase (session_state c) + length ms)))"

lemma sends_nextI:
  assumes "same_user c c'" and "sock_sound (tcp_sock c')"
    and "sendq (tcp_sock c') = sendq (tcp_sock c)"
    and "0 \<le> ret \<Longrightarrow> seqno c' = seqno c \<and> phase (session_state c') = phase (session_state c)"
  shows "sends_next cd c ret [] c'"
  using assms by (auto simp: sends_next_def cs_frames_def intro!: exI [of _ "[]"])

lemma Serialize_sends:
  assumes "sock_sound (tcp_sock c1)" and "fits_frame (cs_ser cd (up_msg c1))"
    and "takes_at_most a (length (sendq (tcp_sock c1)) + length (encode_frame (cs_ser cd (up_msg c1))))"
  shows "\<exists>ret u out. SerializeAndSendToPeer cd a c1 = Done (ret, c1\<lparr>tcp_sock := u\<rparr>, out) \<and> sock_sound u
           \<and> (out @ sendq u = sendq (tcp_sock c1) @ encode_frame (cs_ser cd (up_msg c1))
              \<or> ret \<noteq> NORMAL \<and> out = [] \<and> sendq u = sendq (tcp_sock c1))"
proof -
  note ser = SerializeAndSendToPeer_cases [OF _ refl assms(2,3)]
  have same: "c1 = c1\<lparr>tcp_sock := tcp_sock c1\<rparr>"
    by simp
  show ?thesis
  proof (cases "length (encode_frame (cs_ser cd (up_msg c1))) \<le> rb_free (send_buf (tcp_sock c1))")
    case True
    with ser assms(1) show ?thesis
      by (fastforce simp: sock_sound_def)
  next
    case False
    with ser assms(1) have "SerializeAndSendToPeer cd a c1 = Done (SEND_BUFF_FULL, c1\<lparr>tcp_sock := tcp_sock c1\<rparr>, [])"
      by (simp add: sock_sound_def)
    with assms(1) show ?thesis
      by (intro exI [of _ SEND_BUFF_FULL] exI [of _ "tcp_sock c1"]) simp
  qed
qed

lemma CheckNonBlock_keeps:
  assumes "sock_sound u" and "sendq u = []"
  shows "sock_sound (snd (CheckNonBlock k u))" "sendq (snd (CheckNonBlock k u)) = []"
  using assms
  by (auto simp: CheckNonBlock_def Close_def Reset_def sock_sound_def tu_ok_def ring_ok_def sendq_def rb_data_def)

lemma cs_frames_one: "cs_frames cd [m] = encode_frame (cs_ser cd m)"
  by (simp add: cs_frames_def)

text \<open>The two states that send do the same: prepare a message, send it, go on to the next state.\<close>

lemma prepare_sends:
  assumes "sock_sound (tcp_sock c)" and m: "next_msg c = Some m" "up_msg (prepare bid body c) = m"
    and nxt: "phase nxt = Suc (phase (session_state c))" and "fits_frame (cs_ser cd m)"
    and "takes_at_most a (length (sendq (tcp_sock c)) + length (encode_frame (cs_ser cd m)))"
  shows "\<exists>ret c' out. bindE (SerializeAndSendToPeer cd a (prepare bid body c))
             (\<lambda>(ret, c1, out). if ret \<noteq> NORMAL then Done (ret, c1, out)
                             else Done (0, c1\<lparr>session_state := nxt\<rparr>, out)) = Done (ret, c', out)
           \<and> sends_next cd c (if ret \<noteq> 0 then -1 else 0) out c'"
proof -
  define c1 where "c1 = prepare bid body c"
  have c1: "tcp_sock c1 = tcp_sock c" "up_msg c1 = m" "seqno c1 = seqno c + 1" "same_user c c1"
    using m(2) by (simp_all add: c1_def prepare_def same_user_def)
  obtain ret u out where ser: "SerializeAndSendToPeer cd a c1 = Done (ret, c1\<lparr>tcp_sock := u\<rparr>, out)" "sock_sound u"
     "out @ sendq u = sendq (tcp_sock c) @ encode_frame (cs_ser cd m)
              \<or> ret \<noteq> NORMAL \<and> out = [] \<and> sendq u = sendq (tcp_sock c)"
    using Serialize_sends [of c1 cd a] assms c1 by auto
  define c' where "c' = (if ret \<noteq> 0 then c1\<lparr>tcp_sock := u\<rparr> else c1\<lparr>tcp_sock := u, session_state := nxt\<rparr>)"
  have c': "same_user c c'" "tcp_sock c' = u" "ret = 0 \<Longrightarrow> session_state c' = nxt" "seqno c' = seqno c + 1"
    using c1 by (simp_all add: c'_def same_user_def)
  have "sends_next cd c (if ret \<noteq> 0 then -1 else 0) out c'"
    using ser(3)
  proof
    assume "out @ sendq u = sendq (tcp_sock c) @ encode_frame (cs_ser cd m)"
    with ser(2) c' m(1) nxt show ?thesis
      unfolding sends_next_def by (intro conjI exI [of _ "[m]"]) (auto simp: cs_frames_one)
  qed (use ser(2) c' in \<open>auto intro: sends_nextI\<close>)
  then show ?thesis
    using ser(1) unfolding c1_def [symmetric] by (auto simp: c'_def)
qed

lemma HandShake_SYN_sends:
  assumes "sock_sound (tcp_sock c)" and "session_state c = SESSION_STATE_TCP_SYNING"
    and "fits_frame (cs_ser cd (syn_message c))"
    and "takes_at_most a (length (sendq (tcp_sock c)) + length (encode_frame (cs_ser cd (syn_message c))))"
  shows "\<exists>ret c' out. HandShake_SYN cd a c = Done (ret, c', out)
           \<and> sends_next cd c (if ret \<noteq> 0 then -1 else 0) out c'"
  unfolding HandShake_SYN_def
  by (rule prepare_sends [OF assms(1) _ _ _ assms(3,4)])
    (simp_all add: assms(2) next_msg_def syn_message_def prepare_def)

lemma HandShake_AUTH_sends:
  assumes "sock_sound (tcp_sock c)" and "session_state c = SESSION_STATE_KEY_SYNING"
    and "fits_frame (cs_ser cd (auth_message c))"
    and "takes_at_most a (length (sendq (tcp_sock c)) + length (encode_frame (cs_ser cd (auth_message c))))"
  shows "\<exists>ret c' out. HandShake_AUTH cd a c = Done (ret, c', out)
           \<and> sends_next cd c (if ret \<noteq> 0 then -1 else 0) out c'"
  unfolding HandShake_AUTH_def
  by (rule prepare_sends [OF assms(1) _ _ _ assms(3,4)])
    (simp_all add: assms(2) next_msg_def auth_message_def prepare_def)

lemma sends_next_from:
  assumes "sends_next cd c1 ret out c'" and "same_user c c1" and "sendq (tcp_sock c1) = sendq (tcp_sock c)"
    and "seqno c1 = seqno c" and "session_state c1 = session_state c"
  shows "sends_next cd c ret out c'"
  using assms by (auto simp: sends_next_def same_user_def next_msg_def syn_message_def auth_message_def
      cong: if_cong)

text \<open>One call of \<open>Update\<close> in a state that has a connection.\<close>

lemma Update_syning:
  assumes l: "listener c" and "session_state c = SESSION_STATE_TCP_SYNING" and "sock_sound (tcp_sock c)"
    and "sendq (tcp_sock c) = []" and "client_fits cd a c" and "fits_frame (cs_ser cd (syn_message c))"
  shows "\<exists>ret evs out flag' c'. Update cd a flag c = Done (ret, evs, out, flag', c') \<and> sends_next cd c ret out c'"
proof -
  obtain ret u where check: "CheckNonBlock (ans_check a) (tcp_sock c) = (ret, u)"
    by (cases "CheckNonBlock (ans_check a) (tcp_sock c)")
  then have u: "sock_sound u" "sendq u = []"
    using CheckNonBlock_keeps [OF assms(3,4), of "ans_check a"] by simp_all
  define c1 where "c1 = c\<lparr>tcp_sock := u\<rparr>"
  have c1: "same_user c c1" "sendq (tcp_sock c1) = sendq (tcp_sock c)" "seqno c1 = seqno c"
      "session_state c1 = session_state c" "tcp_sock c1 = u" "syn_message c1 = syn_message c" "listener c1"
    using u assms(1,4) by (simp_all add: c1_def same_user_def syn_message_def)
  have quiet: "sends_next cd c ret' [] c1" for ret'
    using c1 u by (intro sends_nextI) simp_all
  show ?thesis
  proof (cases "ret = NORMAL \<and> sock_state u = NET_CONNECTED")
    case False
    with check l assms(2) quiet show ?thesis
      by (cases "ret = 0") (auto simp: Update_def Update_switch_def plain_step_def c1_def)
  next
    case True
    have "takes_at_most a (length (sendq u) + length (encode_frame (cs_ser cd (syn_message c))))"
      using assms(2,4,5) u(2) by (simp add: client_fits_def next_msg_def)
    then obtain r c' out where syn: "HandShake_SYN cd a c1 = Done (r, c', out)"
        "sends_next cd c1 (if r \<noteq> 0 then -1 else 0) out c'"
      using HandShake_SYN_sends [of c1 cd a] u c1 assms(2,6) by auto
    have st: "session_state c' \<noteq> SESSION_STATE_DONE"
      using HandShake_SYN_state [OF syn(1)] c1 assms(2) by simp
    have "Update cd a flag c = Done (if r \<noteq> 0 then -1 else 1, if r \<noteq> 0 then [OnHandShakeFailed] else [], out, flag, c')"
      using True check l assms(2) syn(1) st
      by (simp add: Update_def Update_switch_def sending_step_def c1_def)
    moreover have "sends_next cd c (if r \<noteq> 0 then -1 else 1) out c'"
      using sends_next_from [OF syn(2) c1(1-4)] by (auto simp: sends_next_def split: if_splits)
    ultimately show ?thesis
      by blast
  qed
qed

text \<open>The receiving halves of the handshake.\<close>

definition quiet :: "client \<Rightarrow> client \<Rightarrow> bool" where
  "quiet c c' = (same_user c c' \<and> sock_sound (tcp_sock c') \<and> sendq (tcp_sock c') = sendq (tcp_sock c)
     \<and> seqno c' = seqno c)"

lemma TRY_calls_quiet:
  assumes "sock_sound (tcp_sock c)" and "recv_fits (ans_recv a) (tcp_sock c)"
  shows "\<exists>ret c'. HandShake_TRY_ACK cd a c = Done (ret, c') \<and> quiet c c'"
    "\<exists>ret c'. HandShake_TRY_READY cd a c = Done (ret, c') \<and> quiet c c'"
    "\<exists>ret c'. HandShake_TRY_DONE cd a c = Done (ret, c') \<and> quiet c c'"
proof -
  obtain ret u m where rcv: "TryToRecvFromPeerAndParse cd a c = Done (ret, c\<lparr>tcp_sock := u, down_msg := m\<rparr>)"
      "sock_sound u" "sendq u = sendq (tcp_sock c)"
    using TryToRecv_keeps [OF assms] by blast
  then show "\<exists>ret c'. HandShake_TRY_ACK cd a c = Done (ret, c') \<and> quiet c c'"
    "\<exists>ret c'. HandShake_TRY_READY cd a c = Done (ret, c') \<and> quiet c c'"
    "\<exists>ret c'. HandShake_TRY_DONE cd a c = Done (ret, c') \<and> quiet c c'"
    by (auto simp: HandShake_TRY_ACK_def HandShake_TRY_READY_def HandShake_TRY_DONE_def quiet_def same_user_def)
qed

lemma quiet_sends:
  "quiet c c' \<Longrightarrow> (0 \<le> ret \<Longrightarrow> phase (session_state c') = phase (session_state c)) \<Longrightarrow> sends_next cd c ret [] c'"
  by (auto simp: quiet_def intro: sends_nextI)

lemma Update_key_syning:
  assumes l: "listener c" and st: "session_state c = SESSION_STATE_KEY_SYNING" and "sock_sound (tcp_sock c)"
    and "client_fits cd a c" and "fits_frame (cs_ser cd (auth_message c))"
  shows "\<exists>ret evs out flag' c'. Update cd a flag c = Done (ret, evs, out, flag', c') \<and> sends_next cd c ret out c'"
proof -
  have fits: "recv_fits (ans_recv a) (tcp_sock c)"
      "takes_at_most a (length (sendq (tcp_sock c)) + length (encode_frame (cs_ser cd (auth_message c))))"
    using assms(2,4) by (simp_all add: client_fits_def next_msg_def)
  obtain ret c1 where ack: "HandShake_TRY_ACK cd a c = Done (ret, c1)" "quiet c c1"
    using TRY_calls_quiet(1) [OF assms(3) fits(1)] by blast
  have st1: "session_state c1 = session_state c"
    by (rule HandShake_TRY_ACK_state [OF ack(1)])
  show ?thesis
  proof (cases "ret = 0")
    case False
    with ack l st st1 quiet_sends [OF ack(2)] show ?thesis
      by (auto simp: Update_def Update_switch_def plain_step_def)
  next
    case True
    have auth1: "auth_message c1 = auth_message c"
      using ack(2) by (simp add: auth_message_def quiet_def same_user_def)
    obtain r c' out where auth: "HandShake_AUTH cd a c1 = Done (r, c', out)"
        "sends_next cd c1 (if r \<noteq> 0 then -1 else 0) out c'"
      using HandShake_AUTH_sends [of c1 cd a] ack(2) st st1 auth1 fits(2) assms(5) by (auto simp: quiet_def)
    have "session_state c' \<noteq> SESSION_STATE_DONE"
      using HandShake_AUTH_state [OF auth(1)] st1 st by simp
    then have "Update cd a flag c = Done (if r \<noteq> 0 then -1 else 1, if r \<noteq> 0 then [OnHandShakeFailed] else [], out, flag, c')"
      using True ack l st auth(1) by (simp add: Update_def Update_switch_def sending_step_def)
    moreover have "sends_next cd c (if r \<noteq> 0 then -1 else 1) out c'"
      using sends_next_from [OF auth(2)] ack(2) st1 by (auto simp: sends_next_def quiet_def split: if_splits)
    ultimately show ?thesis
      by blast
  qed
qed

lemma Update_later:
  assumes l: "listener c" and st: "session_state c \<in> {SESSION_STATE_AUTHING, SESSION_STATE_READY, SESSION_STATE_DONE}"
    and "sock_sound (tcp_sock c)" and "client_fits cd a c"
  shows "\<exists>ret evs flag' c'. Update cd a flag c = Done (ret, evs, [], flag', c') \<and> quiet c c'"
proof -
  have fits: "recv_fits (ans_recv a) (tcp_sock c)"
    using assms(4) by (simp add: client_fits_def)
  note tries = TRY_calls_quiet(2,3) [OF assms(3) fits, of cd]
  show ?thesis
  proof (cases "session_state c = SESSION_STATE_DONE \<and> flag")
    case True
    obtain ret u where rcv: "Recv (ans_recv a) (tcp_sock c) = Done (ret, u)" and u: "sock_sound u"
        "sendq u = sendq (tcp_sock c)"
      using Recv_queue [OF _ fits] assms(3) by (fastforce simp: sock_sound_def sendq_def)
    obtain has where has: "HasNewPkg u = (has, u)"
      using packet_calls_keep(1) [OF u(1)] by (cases "HasNewPkg u") simp
    have q: "quiet c (c\<lparr>tcp_sock := u\<rparr>)"
      using u by (simp add: quiet_def same_user_def)
    show ?thesis
      using True l rcv has q by (cases "ret = NORMAL \<and> has") (auto simp: Update_def Update_switch_def)
  next
    case False
    have "quiet c c"
      using assms(3) by (simp add: quiet_def same_user_def)
    with False l st tries show ?thesis
      by (auto simp: Update_def Update_switch_def plain_step_def)
  qed
qed

lemma Update_sends_next:
  assumes l: "listener c" and st: "session_state c \<notin> {SESSION_STATE_INITED, SESSION_STATE_FINI}"
    and "sock_sound (tcp_sock c)" and "session_state c = SESSION_STATE_TCP_SYNING \<Longrightarrow> sendq (tcp_sock c) = []"
    and "client_fits cd a c" and "\<And>m. next_msg c = Some m \<Longrightarrow> fits_frame (cs_ser cd m)"
  shows "\<exists>ret evs out flag' c'. Update cd a flag c = Done (ret, evs, out, flag', c') \<and> sends_next cd c ret out c'
    \<and> (session_state c = SESSION_STATE_DONE \<longrightarrow> seqno c' = seqno c \<and> out @ sendq (tcp_sock c') = sendq (tcp_sock c))"
    (is ?goal)
proof -
  have later: ?goal if later: "session_state c \<in> {SESSION_STATE_AUTHING, SESSION_STATE_READY, SESSION_STATE_DONE}"
  proof -
    obtain ret evs flag' c' where up: "Update cd a flag c = Done (ret, evs, [], flag', c')" and q: "quiet c c'"
      using Update_later [OF l later assms(3,5)] by blast
    have "client_step (session_state c) (session_state c')"
      using Update_order_step [OF up] by blast
    with later have "phase (session_state c') = phase (session_state c)"
      by auto
    with q have "sends_next cd c ret [] c'" "seqno c' = seqno c" "sendq (tcp_sock c') = sendq (tcp_sock c)"
      using quiet_sends by (simp_all add: quiet_def)
    with up show ?thesis
      by auto
  qed
  show ?goal
  proof (cases "session_state c")
    case SESSION_STATE_TCP_SYNING
    with Update_syning [OF l _ assms(3) _ assms(5)] assms(4,6) show ?thesis
      by (auto simp: next_msg_def)
  next
    case SESSION_STATE_KEY_SYNING
    with Update_key_syning [OF l _ assms(3,5)] assms(6) show ?thesis
      by (auto simp: next_msg_def)
  qed (use st later in auto)
qed

section \<open>Runs of the program\<close>

text \<open>
  One step of either thread, while the process is there; what the kernel takes is at most what it
  is offered. The result is the outcome of the call, a crash included.
\<close>

definition push_kernel :: "codec \<Rightarrow> net_answers \<Rightarrow> process \<Rightarrow> bool" where
  "push_kernel cd a p =
     (\<forall>c. ccproto (thread p) = Some c \<and> state_ok p \<longrightarrow>
        takes_at_most a (length (sendq (tcp_sock c)) + length (data_frame cd (seqno c) hello)))"

definition update_kernel :: "codec \<Rightarrow> net_answers \<Rightarrow> process \<Rightarrow> bool" where
  "update_kernel cd a p = (\<forall>c. ccproto (thread p) = Some c \<longrightarrow> client_fits cd a c)"

inductive process_step :: "codec \<Rightarrow> process \<Rightarrow> process exec \<Rightarrow> bool" for cd where
  main_starts: "at_main p = MainBegin \<Longrightarrow> process_step cd p (Done (main_begin p))"
| main_tests: "at_main p = MainTest \<Longrightarrow> process_step cd p (Done (main_test p))"
| main_pushes: "at_main p = MainPush \<Longrightarrow> push_kernel cd a p \<Longrightarrow> process_step cd p (main_push cd a p)"
| main_ends_thread: "at_main p = MainFini \<Longrightarrow> process_step cd p (Done (main_fini p))"
| main_returns: "at_main p = MainReturn \<Longrightarrow> process_step cd p (Done (p\<lparr>at_main := MainEnd\<rparr>))"
| worker_starts: "at_worker p = Spawned \<Longrightarrow> at_main p \<noteq> MainEnd \<Longrightarrow> process_step cd p (worker_begin a p)"
| worker_updates: "at_worker p = Looping \<Longrightarrow> at_main p \<noteq> MainEnd \<Longrightarrow> update_kernel cd a p \<Longrightarrow>
    process_step cd p (worker_round cd a p)"

inductive reach :: "codec \<Rightarrow> process \<Rightarrow> bool" for cd where
  reach_new: "reach cd process_new"
| reach_step: "reach cd p \<Longrightarrow> process_step cd p (Done q) \<Longrightarrow> reach cd q"

text \<open>The message with a number: the handshake has the first two.\<close>

definition message_at :: "nat \<Rightarrow> csmsg" where
  "message_at n =
     (if n = 1 then cs_message 1 CS_SYN (empty_csbody\<lparr>cs_syn := Some (set_appid main_settings, set_openid main_settings)\<rparr>)
      else if n = 2 then cs_message 2 CS_AUTHENTICATION (empty_csbody\<lparr>cs_auth := Some (set_token main_settings)\<rparr>)
      else data_message (of_nat n) hello)"

definition wire_fits :: "codec \<Rightarrow> bool" where
  "wire_fits cd = (\<forall>n. fits_frame (cs_ser cd (message_at n)))"

text \<open>Increasing numbers that begin with the handshake.\<close>

definition handshake_first :: "nat list \<Rightarrow> bool" where
  "handshake_first ns = (sorted_wrt (<) ns \<and> take 2 ns = take (length ns) [1, 2])"

definition wire_shape :: "codec \<Rightarrow> byte list \<Rightarrow> nat list \<Rightarrow> bool" where
  "wire_shape cd bytes ns = (handshake_first ns \<and> bytes = cs_frames cd (map message_at ns))"

text \<open>The numbers used so far fit the client, which is the one of the settings.\<close>

definition live :: "client \<Rightarrow> nat list \<Rightarrow> bool" where
  "live c ns =
     (listener c \<and> appid c = set_appid main_settings \<and> openid c = set_openid main_settings
      \<and> token c = set_token main_settings \<and> sock_sound (tcp_sock c)
      \<and> session_state c \<notin> {SESSION_STATE_INITED, SESSION_STATE_FINI}
      \<and> (session_state c = SESSION_STATE_TCP_SYNING \<longrightarrow> sendq (tcp_sock c) = [])
      \<and> (\<exists>N. seqno c = of_nat N \<and> (\<forall>n \<in> set ns. n < N) \<and> phase (session_state c) \<le> length ns
           \<and> phase (session_state c) < N
           \<and> (session_state c \<noteq> SESSION_STATE_DONE \<longrightarrow>
                length ns = phase (session_state c) \<and> N = Suc (phase (session_state c)))))"

lemma handshake_first_Nil: "handshake_first []"
  by (simp add: handshake_first_def)

lemma handshake_first_snoc:
  assumes "handshake_first ns" and "\<forall>n \<in> set ns. n < N"
    and "length ns < 2 \<Longrightarrow> N = Suc (length ns)"
  shows "handshake_first (ns @ [N])"
proof -
  have "ns = [] \<or> (\<exists>x. ns = [x]) \<or> 2 \<le> length ns"
    by (cases ns rule: remdups_adj.cases) auto
  with assms show ?thesis
    by (auto simp: handshake_first_def sorted_wrt_append)
qed

text \<open>A live client that has sent the message of its state.\<close>

lemma next_msg_at:
  assumes "live c ns" and "next_msg c = Some m"
  shows "m = message_at (Suc (length ns)) \<and> (\<forall>n \<in> set ns. n < Suc (length ns)) \<and> length ns < 2"
  using assms
  by (auto simp: live_def next_msg_def syn_message_def auth_message_def message_at_def split: if_splits)

lemma cs_frames_append: "cs_frames cd (ms @ ms') = cs_frames cd ms @ cs_frames cd ms'"
  by (simp add: cs_frames_def)

lemma wire_snoc:
  assumes "wire_shape cd bytes ns" and "\<forall>n \<in> set ns. n < N" and "length ns < 2 \<Longrightarrow> N = Suc (length ns)"
  shows "wire_shape cd (bytes @ cs_frames cd [message_at N]) (ns @ [N])"
  using assms handshake_first_snoc by (simp add: wire_shape_def cs_frames_append)

lemma live_sends:
  assumes w: "wire_shape cd (sent @ sendq (tcp_sock c)) ns" and l: "live c ns"
    and s: "sends_next cd c ret out c'"
  shows "\<exists>ms. wire_shape cd ((sent @ out) @ sendq (tcp_sock c')) ms
    \<and> ((0 \<le> ret \<or> session_state c = SESSION_STATE_DONE \<and> seqno c' = seqno c)
        \<and> client_step (session_state c) (session_state c') \<longrightarrow> live c' ms)"
proof -
  obtain msgs where msgs: "msgs = [] \<or> (\<exists>m. next_msg c = Some m \<and> msgs = [m])"
      "out @ sendq (tcp_sock c') = sendq (tcp_sock c) @ cs_frames cd msgs"
      "0 \<le> ret \<longrightarrow> seqno c' = seqno c + of_nat (length msgs)
                \<and> phase (session_state c') = phase (session_state c) + length msgs"
      and keeps: "same_user c c'" "sock_sound (tcp_sock c')"
    using s by (auto simp: sends_next_def)
  obtain N where N: "seqno c = of_nat N" "\<forall>n \<in> set ns. n < N" "phase (session_state c) \<le> length ns"
      "phase (session_state c) < N"
      "session_state c \<noteq> SESSION_STATE_DONE \<Longrightarrow> length ns = phase (session_state c) \<and> N = Suc (phase (session_state c))"
    using l by (auto simp: live_def)
  from msgs(1) show ?thesis
  proof (elim disjE exE conjE)
    assume "msgs = []"
    then have "wire_shape cd ((sent @ out) @ sendq (tcp_sock c')) ns" and q: "out @ sendq (tcp_sock c') = sendq (tcp_sock c)"
      using w msgs(2) by (simp_all add: cs_frames_def)
    moreover have "live c' ns" if "0 \<le> ret \<or> session_state c = SESSION_STATE_DONE \<and> seqno c' = seqno c"
      and "client_step (session_state c) (session_state c')"
    proof -
      have ph: "seqno c' = seqno c" "phase (session_state c') = phase (session_state c)"
        "session_state c = SESSION_STATE_DONE \<Longrightarrow> session_state c' = SESSION_STATE_DONE"
        using that msgs(3) \<open>msgs = []\<close> by auto
      have "session_state c' \<notin> {SESSION_STATE_INITED, SESSION_STATE_FINI}"
        "session_state c' = SESSION_STATE_TCP_SYNING \<Longrightarrow> session_state c = SESSION_STATE_TCP_SYNING"
        using that(2) l by (cases "session_state c"; auto simp: live_def)+
      with ph N keeps l q show ?thesis
        by (auto simp: live_def same_user_def intro!: exI [of _ N])
    qed
    ultimately show ?thesis
      by blast
  next
    fix m
    assume m: "next_msg c = Some m" "msgs = [m]"
    note at = next_msg_at [OF l m(1)]
    have nd: "session_state c \<noteq> SESSION_STATE_DONE"
      using m(1) by (auto simp: next_msg_def)
    have "wire_shape cd ((sent @ out) @ sendq (tcp_sock c')) (ns @ [Suc (length ns)])"
      using wire_snoc [OF w, of "Suc (length ns)"] at msgs(2) m(2) by simp
    moreover have "live c' (ns @ [Suc (length ns)])" if "0 \<le> ret" "client_step (session_state c) (session_state c')"
    proof -
      have ph: "seqno c' = of_nat (Suc N)" "phase (session_state c') = Suc (length ns)" "N = Suc (length ns)"
        using msgs(3) m(2) that(1) N nd by auto
      have "session_state c' \<notin> {SESSION_STATE_INITED, SESSION_STATE_FINI, SESSION_STATE_TCP_SYNING, SESSION_STATE_DONE}"
        using that(2) m(1) l ph(2) by (cases "session_state c") (auto simp: live_def next_msg_def)
      moreover have "\<forall>n \<in> set ns. n < Suc N"
        using N(2) less_SucI by blast
      ultimately show ?thesis
        using ph keeps l by (auto simp: live_def same_user_def intro!: exI [of _ "Suc N"])
    qed
    ultimately show ?thesis
      using nd by blast
  qed
qed

lemma live_pushes:
  assumes w: "wire_shape cd (sent @ sendq (tcp_sock c)) ns" and l: "live c ns" and fits: "wire_fits cd"
    and st: "session_state c = SESSION_STATE_DONE"
    and k: "takes_at_most a (length (sendq (tcp_sock c)) + length (data_frame cd (seqno c) hello))"
  shows "\<exists>ret c' out ms. PushMessage cd a (Some hello) c = Done (ret, c', out)
    \<and> wire_shape cd ((sent @ out) @ sendq (tcp_sock c')) ms \<and> live c' ms
    \<and> session_state c' = SESSION_STATE_DONE"
proof -
  obtain N where N: "seqno c = of_nat N" "\<forall>n \<in> set ns. n < N" "2 \<le> length ns" "2 < N"
    using l st by (auto simp: live_def)
  have msg: "data_message (seqno c) hello = message_at N"
    using N by (simp add: message_at_def)
  have "fits_frame (cs_ser cd (data_message (seqno c) hello))"
    using fits by (simp add: wire_fits_def msg)
  with k have push: "push_fits cd a hello c"
    by (simp add: push_fits_def hello_def)
  have "tu_ok (tcp_sock c)"
    using l by (simp add: live_def sock_sound_def)
  from PushMessage_cases [OF this push] obtain ret u out where
      p: "PushMessage cd a (Some hello) c
        = Done (ret, c\<lparr>up_msg := message_at N, seqno := seqno c + 1, tcp_sock := u\<rparr>, out)"
      "tu_ok u" "tcp_pkg_parser_imp u = tcp_pkg_parser_imp (tcp_sock c)"
      "if has_room cd hello c
       then sendq (tcp_sock c) @ data_frame cd (seqno c) hello = out @ sendq u
       else ret = -1 \<and> out = [] \<and> u = tcp_sock c"
    unfolding msg by blast
  define c' where "c' = c\<lparr>up_msg := message_at N, seqno := seqno c + 1, tcp_sock := u\<rparr>"
  have c': "tcp_sock c' = u" "session_state c' = SESSION_STATE_DONE"
    using st by (simp_all add: c'_def)
  define ms where "ms = (if has_room cd hello c then ns @ [N] else ns)"
  have "\<forall>n \<in> set ms. n < Suc N"
    using N(2) by (auto simp: ms_def intro: less_SucI)
  then have "live c' ms"
    using l N p(2,3) st by (auto simp: live_def c'_def ms_def sock_sound_def intro!: exI [of _ "Suc N"])
  moreover have "wire_shape cd ((sent @ out) @ sendq (tcp_sock c')) ms"
  proof (cases "has_room cd hello c")
    case True
    then have "(sent @ out) @ sendq u = (sent @ sendq (tcp_sock c)) @ cs_frames cd [message_at N]"
      using p(4) by (simp add: cs_frames_one data_frame_def msg)
    with True wire_snoc [OF w N(2)] N(3) c' show ?thesis
      by (simp add: ms_def)
  next
    case False
    with p(4) w c' show ?thesis
      by (simp add: ms_def)
  qed
  ultimately show ?thesis
    using p(1) c' unfolding c'_def [symmetric] by blast
qed

section \<open>The invariant\<close>

lemma Update_events:
  assumes "Update cd a flag c = Done (ret, evs, out, flag', c')" and "0 \<le> ret"
  shows "OnHandShakeFailed \<notin> set evs" "OnServerClose \<notin> set evs"
proof -
  have "set (st_events s) \<subseteq> {OnHandShakeSucceed, OnIncoming}" if "Update_switch cd a flag c = Done (Some s)" for s
    using that
  proof (cases "session_state c = SESSION_STATE_DONE")
    case True
    with that show ?thesis
      by (clarsimp simp: Update_switch_def bindE_eq_Done split: if_split_asm)
        (auto split: prod.split_asm if_split_asm)
  next
    case False
    with Update_switch_step [OF that] show ?thesis
      by simp
  qed
  with assms show "OnHandShakeFailed \<notin> set evs" "OnServerClose \<notin> set evs"
    by (auto simp: Update_def bindE_eq_Done split: if_split_asm option.split_asm)
qed

text \<open>The callbacks only receive.\<close>

definition received :: "client \<Rightarrow> client \<Rightarrow> bool" where
  "received c c' = (\<exists>u m. c' = c\<lparr>tcp_sock := u, down_msg := m\<rparr> \<and> sock_sound u \<and> sendq u = sendq (tcp_sock c))"

lemma received_refl: "sock_sound (tcp_sock c) \<Longrightarrow> received c c"
  unfolding received_def by (rule exI [of _ "tcp_sock c"], rule exI [of _ "down_msg c"]) simp

lemma received_trans: "received c c' \<Longrightarrow> received c' c'' \<Longrightarrow> received c c''"
  by (fastforce simp: received_def)

lemma received_keeps:
  assumes "received c c'"
  shows "sock_sound (tcp_sock c')" "sendq (tcp_sock c') = sendq (tcp_sock c)"
    "session_state c' = session_state c" "live c ns \<Longrightarrow> live c' ns"
proof -
  obtain u m where c': "c' = c\<lparr>tcp_sock := u, down_msg := m\<rparr>" "sock_sound u" "sendq u = sendq (tcp_sock c)"
    using assms by (auto simp: received_def)
  then show "sock_sound (tcp_sock c')" "sendq (tcp_sock c') = sendq (tcp_sock c)"
    "session_state c' = session_state c" "live c ns \<Longrightarrow> live c' ns"
    by (simp_all add: live_def)
qed

definition after_events :: "client_event list \<Rightarrow> process \<Rightarrow> process \<Rightarrow> bool" where
  "after_events evs p p' =
     (at_main p' = at_main p \<and> at_worker p' = at_worker p \<and> exit_flag (thread p') = exit_flag (thread p)
      \<and> sent_out p' = sent_out p \<and> state_ok p' = (state_ok p \<or> OnHandShakeSucceed \<in> set evs)
      \<and> prog_exit p' = (prog_exit p \<or> OnHandShakeFailed \<in> set evs \<or> OnServerClose \<in> set evs))"

lemma on_client_event_keeps:
  assumes "ccproto (thread p) = Some c" and "sock_sound (tcp_sock c)"
  shows "\<exists>c' p'. on_client_event cd a e p = Done p' \<and> ccproto (thread p') = Some c' \<and> received c c'
    \<and> after_events [e] p p'"
proof (cases e)
  case OnIncoming
  have "(0::nat) < 10239"
    by simp
  from PopMessageFromRecvQ_keeps [OF assms(2) this] obtain ret d u m where
      "PopMessageFromRecvQ cd a (Some 10239) c = Done (ret, d, c\<lparr>tcp_sock := u, down_msg := m\<rparr>)"
      "sock_sound u" "sendq u = sendq (tcp_sock c)"
    by blast
  with OnIncoming assms(1) show ?thesis
    by (auto simp: Thread_Pop_def on_proto_def received_def after_events_def)
qed (use assms received_refl in \<open>auto simp: after_events_def\<close>)

lemma on_client_events_keep:
  assumes "ccproto (thread p) = Some c" and "sock_sound (tcp_sock c)"
  shows "\<exists>c' p'. on_client_events cd a evs p = Done p' \<and> ccproto (thread p') = Some c' \<and> received c c'
    \<and> after_events evs p p'"
  using assms
proof (induction evs arbitrary: p c)
  case Nil
  then show ?case
    by (auto simp: after_events_def intro: received_refl)
next
  case (Cons e evs)
  obtain c1 p1 where 1: "on_client_event cd a e p = Done p1" "ccproto (thread p1) = Some c1" "received c c1"
      "after_events [e] p p1"
    using on_client_event_keeps [OF Cons.prems] by blast
  obtain c2 p2 where 2: "on_client_events cd a evs p1 = Done p2" "ccproto (thread p2) = Some c2" "received c1 c2"
      "after_events evs p1 p2"
    using Cons.IH [OF 1(2) received_keeps(1) [OF 1(3)]] by blast
  have "after_events (e # evs) p p2"
    using 1(4) 2(4) by (auto simp: after_events_def)
  with 1 2 received_trans [OF 1(3) 2(3)] show ?case
    by auto
qed

definition proc_inv :: "codec \<Rightarrow> process \<Rightarrow> bool" where
  "proc_inv cd p =
     (case at_worker p of
        NoWorker \<Rightarrow> p = process_new
      | Spawned \<Rightarrow> ccproto (thread p) = Some client_new \<and> wt_listener (thread p)
          \<and> evt_listener (thread p) = Some main_settings \<and> \<not> exit_flag (thread p) \<and> \<not> prog_exit p \<and> \<not> state_ok p
          \<and> sent_out p = [] \<and> at_main p \<in> {MainTest, MainPush}
      | Looping \<Rightarrow> \<not> exit_flag (thread p) \<and> \<not> prog_exit p \<and> at_main p \<in> {MainTest, MainPush}
          \<and> (\<exists>c ns. ccproto (thread p) = Some c \<and> wire_shape cd (sent_out p @ sendq (tcp_sock c)) ns \<and> live c ns
               \<and> (state_ok p \<longrightarrow> session_state c = SESSION_STATE_DONE))
      | Finished \<Rightarrow> at_main p \<noteq> MainBegin
          \<and> (\<exists>c ns. ccproto (thread p) = Some c \<and> wire_shape cd (sent_out p @ sendq (tcp_sock c)) ns
               \<and> (state_ok p \<longrightarrow> live c ns \<and> session_state c = SESSION_STATE_DONE)))"

lemma worker_begin_inv:
  assumes "proc_inv cd p" and "at_worker p = Spawned"
  shows "\<exists>q. worker_begin a p = Done q \<and> proc_inv cd q"
proof -
  have p: "ccproto (thread p) = Some client_new" "wt_listener (thread p)" "evt_listener (thread p) = Some main_settings"
      "\<not> exit_flag (thread p)" "\<not> prog_exit p" "\<not> state_ok p" "sent_out p = []" "at_main p \<in> {MainTest, MainPush}"
    using assms by (simp_all add: proc_inv_def)
  define ok where "ok = (0 \<le> ans_connect a)"
  obtain ret c where start: "client_Start True True (Some main_settings) a client_new = Done (ret, c)"
      and c: "sendq (tcp_sock c) = []" "ret = 0 \<Longrightarrow> live c []"
    by (cases ok)
      (auto simp: client_Start_def client_Connect_def ConnectNonBlock_def client_new_def Init_def Malloc_def
        TcpSocketUtil_new_def RingBuffer_new_def live_def sock_sound_def tu_ok_def ring_ok_def sendq_def rb_data_def
        ok_def intro!: exI [of _ "Suc 0"])
  have "wire_shape cd [] []"
    by (simp add: wire_shape_def handshake_first_Nil cs_frames_def)
  with p start c show ?thesis
    by (auto simp: worker_begin_def MainLoop_start_def on_proto_def proc_inv_def Let_def)
qed

text \<open>A live client has what \<open>Update\<close> needs.\<close>

lemma live_Update:
  assumes "live c ns" and "wire_fits cd" and "client_fits cd a c"
  shows "\<exists>ret evs out flag' c'. Update cd a flag c = Done (ret, evs, out, flag', c') \<and> sends_next cd c ret out c'
    \<and> (session_state c = SESSION_STATE_DONE \<longrightarrow> seqno c' = seqno c \<and> out @ sendq (tcp_sock c') = sendq (tcp_sock c))"
proof (rule Update_sends_next)
  show "listener c" "session_state c \<notin> {SESSION_STATE_INITED, SESSION_STATE_FINI}" "sock_sound (tcp_sock c)"
    "session_state c = SESSION_STATE_TCP_SYNING \<Longrightarrow> sendq (tcp_sock c) = []"
    using assms(1) by (simp_all add: live_def)
  show "fits_frame (cs_ser cd m)" if "next_msg c = Some m" for m
    using next_msg_at [OF assms(1) that] assms(2) by (simp add: wire_fits_def)
qed (rule assms(3))

lemma worker_round_inv:
  assumes inv: "proc_inv cd p" and lp: "at_worker p = Looping" and "update_kernel cd a p" and "wire_fits cd"
  shows "\<exists>q. worker_round cd a p = Done q \<and> proc_inv cd q"
proof -
  obtain c ns where p: "\<not> exit_flag (thread p)" "\<not> prog_exit p" "at_main p \<in> {MainTest, MainPush}"
    and c: "ccproto (thread p) = Some c" "wire_shape cd (sent_out p @ sendq (tcp_sock c)) ns" "live c ns"
      "state_ok p \<longrightarrow> session_state c = SESSION_STATE_DONE"
    using inv lp by (auto simp: proc_inv_def)
  have "client_fits cd a c"
    using assms(3) c(1) by (simp add: update_kernel_def)
  from live_Update [OF c(3) assms(4) this] obtain ret evs out flag' c1 where
      up: "Update cd a (done_flag p) c = Done (ret, evs, out, flag', c1)" and sends: "sends_next cd c ret out c1"
      and fin: "session_state c = SESSION_STATE_DONE \<longrightarrow> seqno c1 = seqno c"
    by blast
  note order = Update_order_step [OF up]
  obtain ms where ms: "wire_shape cd ((sent_out p @ out) @ sendq (tcp_sock c1)) ms"
      "0 \<le> ret \<or> session_state c = SESSION_STATE_DONE \<Longrightarrow> live c1 ms"
    using live_sends [OF c(2,3) sends] order fin by blast
  define p0 where "p0 = p\<lparr>thread := (thread p)\<lparr>ccproto := Some c1\<rparr>, done_flag := flag', sent_out := sent_out p @ out\<rparr>"
  have p0: "ccproto (thread p0) = Some c1" "exit_flag (thread p0) = exit_flag (thread p)" "state_ok p0 = state_ok p"
      "sent_out p0 = sent_out p @ out" "prog_exit p0 = prog_exit p" "at_main p0 = at_main p" "at_worker p0 = at_worker p"
    by (simp_all add: p0_def)
  have "sock_sound (tcp_sock c1)"
    using sends by (simp add: sends_next_def)
  from on_client_events_keep [OF p0(1) this] obtain c2 p1 where
      evs: "on_client_events cd a evs p0 = Done p1" "ccproto (thread p1) = Some c2" "received c1 c2" "after_events evs p0 p1"
    by blast
  note rcv = received_keeps [OF evs(3)]
  have ok: "session_state c = SESSION_STATE_DONE \<and> session_state c1 = SESSION_STATE_DONE" if "state_ok p1"
  proof -
    have "state_ok p \<or> OnHandShakeSucceed \<in> set evs"
      using that evs(4) p0(3) by (simp add: after_events_def)
    then have "session_state c = SESSION_STATE_DONE"
      using c(4) order by blast
    with order show ?thesis
      by simp
  qed
  have round_: "worker_round cd a p
      = Done (if ret < 0 then p1\<lparr>at_worker := Finished, prog_exit := True\<rparr> else p1)"
    using p(1) c(1) up evs(1) by (simp add: worker_round_def on_proto_def p0_def)
  show ?thesis
  proof (cases "ret < 0")
    case True
    have "proc_inv cd (p1\<lparr>at_worker := Finished, prog_exit := True\<rparr>)"
      using ms ok rcv evs(2,4) p(3) p0 by (auto simp: proc_inv_def after_events_def)
    with True round_ show ?thesis
      by simp
  next
    case False
    then have "OnHandShakeFailed \<notin> set evs" "OnServerClose \<notin> set evs"
      using Update_events [OF up] by simp_all
    then have "proc_inv cd p1"
      using False ms ok rcv evs(2,4) p p0 lp by (auto simp: proc_inv_def after_events_def)
    with False round_ show ?thesis
      by simp
  qed
qed

lemma main_push_inv:
  assumes inv: "proc_inv cd p" and pc: "at_main p = MainPush" and k: "push_kernel cd a p" and fits: "wire_fits cd"
  shows "\<exists>q. main_push cd a p = Done q \<and> proc_inv cd q"
proof (cases "state_ok p")
  case False
  have "at_worker p \<noteq> NoWorker"
    using inv pc by (auto simp: proc_inv_def process_new_def)
  with False inv show ?thesis
    by (cases "at_worker p") (auto simp: main_push_def proc_inv_def)
next
  case True
  with inv obtain c ns where c: "ccproto (thread p) = Some c" "wire_shape cd (sent_out p @ sendq (tcp_sock c)) ns"
      "live c ns" "session_state c = SESSION_STATE_DONE" and w: "at_worker p \<in> {Looping, Finished}"
      and run: "at_worker p = Looping \<Longrightarrow> \<not> exit_flag (thread p) \<and> \<not> prog_exit p"
    by (cases "at_worker p") (auto simp: proc_inv_def process_new_def)
  have "takes_at_most a (length (sendq (tcp_sock c)) + length (data_frame cd (seqno c) hello))"
    using k c(1) True by (simp add: push_kernel_def)
  from live_pushes [OF c(2,3) fits c(4) this] obtain ret c' out ms where
      push: "PushMessage cd a (Some hello) c = Done (ret, c', out)"
        "wire_shape cd ((sent_out p @ out) @ sendq (tcp_sock c')) ms" "live c' ms"
        "session_state c' = SESSION_STATE_DONE"
    by blast
  define q where "q = p\<lparr>thread := (thread p)\<lparr>ccproto := Some c'\<rparr>, sent_out := sent_out p @ out, at_main := MainTest\<rparr>"
  have "main_push cd a p = Done q"
    using True c(1) push(1) by (simp add: main_push_def PushMessageToSendQ_def on_proto_def q_def)
  moreover have "proc_inv cd q"
    using w run push(2-4) by (auto simp: proc_inv_def q_def)
  ultimately show ?thesis
    by blast
qed

lemma process_step_inv:
  assumes "wire_fits cd" and inv: "proc_inv cd p" and "process_step cd p r"
  shows "\<exists>q. r = Done q \<and> proc_inv cd q"
  using assms(3)
proof (cases rule: process_step.cases)
  case main_starts
  with inv show ?thesis
    by (cases "at_worker p")
      (auto simp: proc_inv_def process_new_def main_begin_def StartThread_def thread_new_def)
next
  case main_tests
  with inv show ?thesis
    by (cases "at_worker p") (auto simp: proc_inv_def process_new_def main_test_def)
next
  case main_ends_thread
  with inv show ?thesis
    by (cases "at_worker p") (auto simp: proc_inv_def process_new_def main_fini_def TerminateThread_def)
next
  case main_returns
  with inv show ?thesis
    by (cases "at_worker p") (auto simp: proc_inv_def process_new_def)
qed (use assms worker_begin_inv worker_round_inv main_push_inv in auto)

lemma reach_inv:
  assumes "reach cd p" and "wire_fits cd"
  shows "proc_inv cd p"
  using assms
proof (induction rule: reach.induct)
  case reach_new
  then show ?case
    by (simp add: proc_inv_def process_new_def)
next
  case (reach_step p q)
  then show ?case
    using process_step_inv by blast
qed

section \<open>Properties\<close>

text \<open>What waits in the client's buffer.\<close>

definition pending :: "process \<Rightarrow> byte list" where
  "pending p = (case ccproto (thread p) of None \<Rightarrow> [] | Some c \<Rightarrow> sendq (tcp_sock c))"

lemma client_codec_wire: "wire_fits client_codec"
  by (simp add: wire_fits_def client_codec_def fits_frame_def message_at_def cs_message_def data_message_def
      csmsg_data_def empty_csbody_def hello_def)

text \<open>A run up to the \<open>SYN\<close>: the kernel takes two bytes of it.\<close>

lemma sample_run:
  obtains p where "reach client_codec p" "at_worker p = Looping" "at_main p = MainTest"
    "sent_out p @ pending p = encode_frame [1]"
proof -
  define c0 where "c0 = snd (case client_Start True True (Some main_settings) client_answers client_new of Done x \<Rightarrow> x)"
  have start: "client_Start True True (Some main_settings) client_answers client_new = Done (0, c0)"
    and sock: "tu_ok (tcp_sock c0)" "sendq (tcp_sock c0) = []" "sock_fd (tcp_sock c0) = 7"
      "rb_free (send_buf (tcp_sock c0)) = 2097152"
    and c0: "session_state c0 = SESSION_STATE_TCP_SYNING" "listener c0" "seqno c0 = 1"
    by (simp_all add: c0_def client_Start_def client_Connect_def ConnectNonBlock_def client_new_def Init_def
        Malloc_def TcpSocketUtil_new_def RingBuffer_new_def tu_ok_def ring_ok_def sendq_def rb_data_def
        rb_free_def client_answers_def)
  define p1 where "p1 = main_begin process_new"
  have r1: "reach client_codec p1"
    unfolding p1_def by (rule reach_step [OF reach_new main_starts]) (simp add: process_new_def)
  define p2 where "p2 = p1\<lparr>thread := (thread p1)\<lparr>ccproto := Some c0\<rparr>, at_worker := Looping\<rparr>"
  have begin_: "worker_begin client_answers p1 = Done p2"
    using start
    by (simp add: p1_def p2_def main_begin_def StartThread_def process_new_def thread_new_def worker_begin_def
        MainLoop_start_def on_proto_def)
  have "at_worker p1 = Spawned" "at_main p1 \<noteq> MainEnd"
    by (simp_all add: p1_def main_begin_def StartThread_def process_new_def thread_new_def)
  from worker_starts [OF this] have r2: "reach client_codec p2"
    using reach_step [OF r1] begin_ by metis
  define c1 where "c1 = c0\<lparr>tcp_sock := (tcp_sock c0)\<lparr>sock_state := NET_CONNECTED\<rparr>\<rparr>"
  define m where "m = prepare CS_SYN (empty_csbody\<lparr>cs_syn := Some (appid c1, openid c1)\<rparr>) c1"
  have m: "cs_ser client_codec (up_msg m) = [1]" "tcp_sock m = tcp_sock c1"
    by (simp_all add: m_def c1_def prepare_def cs_message_def client_codec_def csmsg_data_def empty_csbody_def c0)
  have s1: "tu_ok (tcp_sock c1)" "sock_state (tcp_sock c1) = NET_CONNECTED" "sendq (tcp_sock c1) = []"
      "rb_free (send_buf (tcp_sock c1)) = 2097152"
    using sock by (simp_all add: c1_def tu_ok_def sendq_def)
  obtain u out where ser: "SerializeAndSendToPeer client_codec client_answers m = Done (NORMAL, m\<lparr>tcp_sock := u\<rparr>, out)"
      "encode_frame [1] = out @ sendq u"
    using SerializeAndSendToPeer_connected [of m "[1]" client_codec client_answers 2] m s1
    by (auto simp: fits_frame_def encode_frame_length client_answers_def)
  have "HandShake_SYN client_codec client_answers c1
      = Done (0, m\<lparr>tcp_sock := u, session_state := SESSION_STATE_KEY_SYNING\<rparr>, out)"
    using ser(1) by (simp add: HandShake_SYN_def m_def)
  moreover have "CheckNonBlock (ans_check client_answers) (tcp_sock c0) = (NORMAL, tcp_sock c1)"
    using sock by (simp add: CheckNonBlock_def client_answers_def c1_def)
  ultimately have up: "Update client_codec client_answers False c0
      = Done (1, [], out, False, m\<lparr>tcp_sock := u, session_state := SESSION_STATE_KEY_SYNING\<rparr>)"
    using c0 s1 by (simp add: Update_def Update_switch_def sending_step_def c1_def)
  define p3 where "p3 = p2\<lparr>thread := (thread p2)\<lparr>ccproto := Some (m\<lparr>tcp_sock := u, session_state := SESSION_STATE_KEY_SYNING\<rparr>)\<rparr>,
    sent_out := out\<rparr>"
  have p2: "\<not> exit_flag (thread p2)" "ccproto (thread p2) = Some c0" "\<not> done_flag p2" "sent_out p2 = []"
      "at_worker p2 = Looping" "at_main p2 = MainTest"
    by (simp_all add: p2_def p1_def main_begin_def StartThread_def process_new_def thread_new_def)
  have "worker_round client_codec client_answers p2 = Done p3"
    using p2 up by (simp add: worker_round_def on_proto_def p3_def)
  moreover have "update_kernel client_codec client_answers p2"
    using p2 c0 sock by (simp add: update_kernel_def client_fits_def recv_fits_def client_answers_def next_msg_def
        takes_at_most_def encode_frame_length)
  ultimately have "reach client_codec p3"
    using reach_step [OF r2] worker_updates [of p2 client_codec client_answers] p2 by auto
  then show ?thesis
    using that [of p3] p2 ser(2) by (simp add: p3_def pending_def)
qed



text \<open>\<open>TerminateThread\<close> before the new thread gets to run: its first assertion fails. The
  sample program never does that, other programs may.\<close>

lemma terminate_before_MainLoop:
  assumes "StartThread (Some s) True th = (ret, th1, created)"
  shows "MainLoop_start a (snd (TerminateThread th1)) = Crash AssertFailed"
  using assms by (auto simp: StartThread_def TerminateThread_def MainLoop_start_def)

end
