(* ===== verification/Coroutine.thy ===== *)
theory Coroutine
  imports Prelude "HOL-Library.AList"
begin

text \<open>
  \<open>coroutine/mc_coroutine.*\<close>: the scheduler of the RPC calls. A context switch is modelled by
  the body of a coroutine: a tree of steps on a state \<open>'s\<close>, each of which runs up to the next
  \<open>YieldCoroutine\<close> (\<open>CoSuspend\<close>) or the end of the function (\<open>CoEnd\<close>).
  Coroutines are resumed from the main context, as \<open>EasyRpc\<close> does from the event loop; a
  resume from within a coroutine, which overwrites \<open>main_ctx_\<close>, is not modelled, nor are the
  size of a stack and the overflow of the id after \<open>2 ^ 31\<close> coroutines.
\<close>

section \<open>State\<close>

datatype 's cont = CoEnd | CoSuspend "'s \<Rightarrow> ('s \<times> 's cont) exec"

datatype CoroutineState = COROUTINE_READY | COROUTINE_RUNNING | COROUTINE_SUSPEND | COROUTINE_DONE

record 's CoroutineCtx =
  co_idx :: int
  co_state :: CoroutineState
  co_func :: "'s cont"

text \<open>The scheduler, with the \<open>static int cid_seed\<close> of \<open>CreateCoroutine\<close>. The table
  is an association list.\<close>

record 's scheduler =
  running_cid :: int
  coroutine_max :: nat
  coroutine_table :: "(int \<times> 's CoroutineCtx) list"
  cid_seed :: int

definition CoroutineScheduler :: "nat \<Rightarrow> int \<Rightarrow> 's scheduler" where
  "CoroutineScheduler cocurrent_num seed =
     \<lparr>running_cid = -1, coroutine_max = cocurrent_num, coroutine_table = [], cid_seed = seed\<rparr>"

section \<open>Operations\<close>

text \<open>\<open>ok\<close> is whether \<open>calloc\<close> succeeds; \<open>None\<close> is a NULL function.\<close>

definition CreateCoroutine ::
    "bool \<Rightarrow> 's cont option \<Rightarrow> 's scheduler \<Rightarrow> int \<times> 's scheduler" where
  "CreateCoroutine ok func sch =
     (case func of
        None \<Rightarrow> (-1, sch)
      | Some f \<Rightarrow>
          if coroutine_max sch \<le> length (coroutine_table sch) then (-2, sch)
          else if \<not> ok then (-3, sch)
          else
            (cid_seed sch,
             sch\<lparr>coroutine_table := AList.update (cid_seed sch)
                   \<lparr>co_idx = cid_seed sch, co_state = COROUTINE_READY, co_func = f\<rparr> (coroutine_table sch),
                 cid_seed := cid_seed sch + 1\<rparr>))"

definition DestroyCoroutine :: "int \<Rightarrow> 's scheduler \<Rightarrow> 's scheduler" where
  "DestroyCoroutine cid sch =
     (case map_of (coroutine_table sch) cid of
        None \<Rightarrow> sch
      | Some ctx \<Rightarrow> sch\<lparr>coroutine_table := AList.delete cid (coroutine_table sch)\<rparr>)"

definition CoroutineBeenAlive :: "int \<Rightarrow> 's scheduler \<Rightarrow> bool" where
  "CoroutineBeenAlive cid sch =
     (case map_of (coroutine_table sch) cid of
        None \<Rightarrow> False
      | Some ctx \<Rightarrow> co_state ctx \<noteq> COROUTINE_DONE)"

definition set_ctx :: "int \<Rightarrow> 's CoroutineCtx \<Rightarrow> 's scheduler \<Rightarrow> 's scheduler" where
  "set_ctx cid ctx sch = sch\<lparr>coroutine_table := AList.update cid ctx (coroutine_table sch)\<rparr>"

text \<open>\<open>YieldCoroutine\<close>; \<open>rest\<close> is the continuation that \<open>swapcontext\<close> saves. The flag
  tells whether control goes back to the main context.\<close>

definition YieldCoroutine :: "'s cont \<Rightarrow> 's scheduler \<Rightarrow> int \<times> bool \<times> 's scheduler" where
  "YieldCoroutine rest sch =
     (if running_cid sch < 0 then (0, False, sch)
      else
        (case map_of (coroutine_table sch) (running_cid sch) of
           None \<Rightarrow> (-1, False, sch)
         | Some ctx \<Rightarrow>
             (0, True,
              set_ctx (running_cid sch) (ctx\<lparr>co_state := COROUTINE_SUSPEND, co_func := rest\<rparr>)
                (sch\<lparr>running_cid := -1\<rparr>))))"

text \<open>The tail of \<open>ScheduleFunction\<close>: the function has returned.\<close>

definition co_finish :: "'s scheduler \<Rightarrow> 's scheduler exec" where
  "co_finish sch =
     (if running_cid sch < 0 then Crash AssertFailed
      else
        (case map_of (coroutine_table sch) (running_cid sch) of
           None \<Rightarrow> Crash AssertFailed
         | Some ctx \<Rightarrow>
             Done ((set_ctx (running_cid sch) (ctx\<lparr>co_state := COROUTINE_DONE, co_func := CoEnd\<rparr>) sch)
                     \<lparr>running_cid := -1\<rparr>)))"

text \<open>The running coroutine from the switch to it until the switch back: one step of its body,
  which ends with the function or in a yield. The yield of a running coroutine always switches
  (lemma \<open>yield_switches\<close>), so what follows it is not part of the step.\<close>

definition co_run :: "'s cont \<Rightarrow> 's \<Rightarrow> 's scheduler \<Rightarrow> ('s \<times> 's scheduler) exec" where
  "co_run k s sch =
     (case k of
        CoEnd \<Rightarrow> bindE (co_finish sch) (\<lambda>sch1. Done (s, sch1))
      | CoSuspend f \<Rightarrow>
          bindE (f s) (\<lambda>(s1, k1).
            case k1 of
              CoEnd \<Rightarrow> bindE (co_finish sch) (\<lambda>sch1. Done (s1, sch1))
            | CoSuspend g \<Rightarrow> Done (s1, snd (snd (YieldCoroutine k1 sch)))))"

text \<open>\<open>ResumeCoroutine\<close>.\<close>

definition ResumeCoroutine :: "int \<Rightarrow> 's \<Rightarrow> 's scheduler \<Rightarrow> (int \<times> 's \<times> 's scheduler) exec" where
  "ResumeCoroutine cid s sch =
     (case map_of (coroutine_table sch) cid of
        None \<Rightarrow> Done (-1, s, sch)
      | Some ctx \<Rightarrow>
          bindE
            (case co_state ctx of
               COROUTINE_DONE \<Rightarrow> Crash AssertFailed
             | COROUTINE_RUNNING \<Rightarrow> Done (s, sch)
             | _ \<Rightarrow> co_run (co_func ctx) s
                     (set_ctx cid (ctx\<lparr>co_state := COROUTINE_RUNNING\<rparr>) (sch\<lparr>running_cid := co_idx ctx\<rparr>)))
            (\<lambda>(s1, sch1).
              (case map_of (coroutine_table sch1) cid of
                 None \<Rightarrow> Crash UseAfterFree
               | Some ctx1 \<Rightarrow>
                   Done (0, s1, if co_state ctx1 = COROUTINE_DONE then DestroyCoroutine cid sch1 else sch1))))"

section \<open>The invariant of the scheduler\<close>

text \<open>Between calls no coroutine is running: each is ready or suspended, and its id is the one
  it was created with.\<close>

definition sched_ok :: "'s scheduler \<Rightarrow> bool" where
  "sched_ok sch =
     (running_cid sch = -1 \<and> 0 \<le> cid_seed sch
      \<and> distinct (map fst (coroutine_table sch))
      \<and> length (coroutine_table sch) \<le> coroutine_max sch
      \<and> (\<forall>(cid, ctx) \<in> set (coroutine_table sch). co_idx ctx = cid \<and> 0 \<le> cid \<and> cid < cid_seed sch
            \<and> co_state ctx \<in> {COROUTINE_READY, COROUTINE_SUSPEND}))"

lemma sched_okD:
  assumes "sched_ok sch" and "map_of (coroutine_table sch) cid = Some ctx"
  shows "co_idx ctx = cid" "0 \<le> cid" "cid < cid_seed sch"
    "co_state ctx = COROUTINE_READY \<or> co_state ctx = COROUTINE_SUSPEND"
  using assms map_of_SomeD [OF assms(2)] by (auto simp: sched_ok_def)

lemma sched_new: "0 \<le> seed \<Longrightarrow> sched_ok (CoroutineScheduler n seed)"
  by (simp add: sched_ok_def CoroutineScheduler_def)

lemma length_update_new:
  "map_of xs k = None \<Longrightarrow> length (AList.update k v xs) = Suc (length xs)"
  by (induction xs) auto

lemma length_update_old:
  "map_of xs k = Some u \<Longrightarrow> length (AList.update k v xs) = length xs"
  by (induction xs) (auto split: if_splits)

lemma set_update:
  "distinct (map fst xs) \<Longrightarrow> x \<in> set (AList.update k v xs) \<Longrightarrow> x = (k, v) \<or> x \<in> set xs \<and> fst x \<noteq> k"
  by (induction xs) (auto split: if_splits)

lemma seed_fresh: "sched_ok sch \<Longrightarrow> map_of (coroutine_table sch) (cid_seed sch) = None"
  using sched_okD(3) [of sch "cid_seed sch"] by (cases "map_of (coroutine_table sch) (cid_seed sch)") auto

lemma CreateCoroutine_ok:
  assumes "sched_ok sch"
  shows "sched_ok (snd (CreateCoroutine ok func sch))"
  using assms seed_fresh [OF assms]
  by (auto simp: CreateCoroutine_def sched_ok_def length_update_new distinct_update
      dest!: set_update split: option.splits)

lemma DestroyCoroutine_ok:
  assumes "sched_ok sch"
  shows "sched_ok (DestroyCoroutine cid sch)"
proof -
  have sub: "set (AList.delete cid (coroutine_table sch)) \<subseteq> set (coroutine_table sch)"
    by (auto simp: AList.delete_eq)
  have "length (AList.delete cid (coroutine_table sch)) \<le> length (coroutine_table sch)"
    by (simp add: AList.delete_eq)
  then show ?thesis
    using assms sub by (auto simp: DestroyCoroutine_def sched_ok_def distinct_delete split: option.splits)
qed

text \<open>A yield of the running coroutine always switches.\<close>

lemma yield_switches:
  assumes "map_of (coroutine_table sch) (running_cid sch) = Some ctx" and "0 \<le> running_cid sch"
  shows "fst (snd (YieldCoroutine rest sch))"
  using assms by (simp add: YieldCoroutine_def)

section \<open>Resuming\<close>

text \<open>One step of a body.\<close>

definition co_step :: "'s cont \<Rightarrow> 's \<Rightarrow> ('s \<times> 's cont) exec" where
  "co_step k s = (case k of CoEnd \<Rightarrow> Done (s, CoEnd) | CoSuspend f \<Rightarrow> f s)"

text \<open>The entry of a coroutine after a step that left \<open>k\<close>: removed when it has ended.\<close>

definition co_after :: "'s CoroutineCtx \<Rightarrow> 's cont \<Rightarrow> 's CoroutineCtx option" where
  "co_after ctx k =
     (case k of
        CoEnd \<Rightarrow> None
      | CoSuspend f \<Rightarrow> Some (ctx\<lparr>co_state := COROUTINE_SUSPEND, co_func := k\<rparr>))"

lemma sched_ok_set_ctx:
  assumes "sched_ok sch" and "map_of (coroutine_table sch) cid = Some ctx" and "co_idx ctx' = cid"
    and "co_state ctx' = COROUTINE_SUSPEND"
  shows "sched_ok (set_ctx cid ctx' sch)"
  using assms sched_okD [OF assms(1,2)]
  by (auto simp: sched_ok_def set_ctx_def length_update_old distinct_update dest!: set_update)

lemma update_same: "AList.update k a (AList.update k b xs) = AList.update k a xs"
  by (induction xs) auto

lemma set_ctx_twice [simp]: "set_ctx cid a (set_ctx cid b sch) = set_ctx cid a sch"
  by (simp add: set_ctx_def update_same)

lemma set_ctx_table [simp]:
  "map_of (coroutine_table (set_ctx cid a sch)) = (map_of (coroutine_table sch))(cid \<mapsto> a)"
  "running_cid (set_ctx cid a sch) = running_cid sch" "cid_seed (set_ctx cid a sch) = cid_seed sch"
  "coroutine_max (set_ctx cid a sch) = coroutine_max sch"
  by (simp_all add: set_ctx_def update_conv')

lemma set_ctx_running: "(set_ctx cid a sch)\<lparr>running_cid := r\<rparr> = set_ctx cid a (sch\<lparr>running_cid := r\<rparr>)"
  by (simp add: set_ctx_def)

lemma running_same: "running_cid sch = r \<Longrightarrow> sch\<lparr>running_cid := r\<rparr> = sch"
  by simp

lemma destroy_set_ctx:
  assumes "sched_ok sch" and "map_of (coroutine_table sch) cid = Some ctx"
  shows "sched_ok (DestroyCoroutine cid (set_ctx cid ctx' sch))
     \<and> map_of (coroutine_table (DestroyCoroutine cid (set_ctx cid ctx' sch)))
         = (map_of (coroutine_table sch))(cid := None)"
proof -
  have del: "AList.delete cid (AList.update cid ctx' xs) = AList.delete cid xs" for xs :: "(int \<times> 'a CoroutineCtx) list"
    by (induction xs) auto
  have same: "DestroyCoroutine cid (set_ctx cid ctx' sch) = DestroyCoroutine cid sch"
    using assms(2) by (simp add: DestroyCoroutine_def set_ctx_def del update_conv')
  show ?thesis
    unfolding same using DestroyCoroutine_ok [OF assms(1), of cid] assms(2)
    by (simp add: DestroyCoroutine_def delete_conv')
qed

lemma ResumeCoroutine_runs:
  assumes "sched_ok sch" and "map_of (coroutine_table sch) cid = Some ctx"
    and "co_step (co_func ctx) s = Done (s1, k)"
  shows "\<exists>sch'. ResumeCoroutine cid s sch = Done (0, s1, sch') \<and> sched_ok sch'
           \<and> map_of (coroutine_table sch') = (map_of (coroutine_table sch))(cid := co_after ctx k)
           \<and> cid_seed sch' = cid_seed sch \<and> coroutine_max sch' = coroutine_max sch"
proof -
  note ctx = sched_okD [OF assms(1,2)]
  have run: "running_cid sch = -1"
    using assms(1) by (simp add: sched_ok_def)
  let ?sch = "set_ctx cid (ctx\<lparr>co_state := COROUTINE_RUNNING\<rparr>) (sch\<lparr>running_cid := cid\<rparr>)"
  have fin: "co_finish ?sch = Done (set_ctx cid (ctx\<lparr>co_state := COROUTINE_DONE, co_func := CoEnd\<rparr>) sch)"
    using ctx run by (simp add: co_finish_def set_ctx_running running_same)
  show ?thesis
  proof (cases k)
    case CoEnd
    then have "co_run (co_func ctx) s ?sch
        = Done (s1, set_ctx cid (ctx\<lparr>co_state := COROUTINE_DONE, co_func := CoEnd\<rparr>) sch)"
      using assms(3) fin by (auto simp: co_run_def co_step_def split: cont.splits)
    then have "ResumeCoroutine cid s sch = Done (0, s1,
        DestroyCoroutine cid (set_ctx cid (ctx\<lparr>co_state := COROUTINE_DONE, co_func := CoEnd\<rparr>) sch))"
      using assms(2) ctx by (auto simp: ResumeCoroutine_def)
    with CoEnd destroy_set_ctx [OF assms(1,2)] show ?thesis
      by (auto simp: co_after_def DestroyCoroutine_def)
  next
    case (CoSuspend g)
    let ?ctx = "ctx\<lparr>co_state := COROUTINE_SUSPEND, co_func := k\<rparr>"
    have "co_run (co_func ctx) s ?sch = Done (s1, set_ctx cid ?ctx sch)"
      using assms(3) CoSuspend ctx run
      by (auto simp: co_run_def co_step_def YieldCoroutine_def set_ctx_running running_same split: cont.splits)
    then have "ResumeCoroutine cid s sch = Done (0, s1, set_ctx cid ?ctx sch)"
      using assms(2) ctx by (auto simp: ResumeCoroutine_def)
    moreover have "sched_ok (set_ctx cid ?ctx sch)"
      by (rule sched_ok_set_ctx [OF assms(1,2)]) (use ctx in simp_all)
    ultimately show ?thesis
      using CoSuspend by (simp add: co_after_def)
  qed
qed

lemma ResumeCoroutine_crashes:
  assumes "sched_ok sch" and "map_of (coroutine_table sch) cid = Some ctx"
    and "co_step (co_func ctx) s = Crash e"
  shows "ResumeCoroutine cid s sch = Crash e"
  using assms sched_okD [OF assms(1,2)]
  by (auto simp: ResumeCoroutine_def co_run_def co_step_def split: cont.splits)

lemma alive_iff:
  "sched_ok sch \<Longrightarrow> CoroutineBeenAlive cid sch = (map_of (coroutine_table sch) cid \<noteq> None)"
  using sched_okD(4) [of sch cid] by (fastforce simp: CoroutineBeenAlive_def split: option.splits)

lemma CreateCoroutine_new:
  assumes "sched_ok sch" and "length (coroutine_table sch) < coroutine_max sch"
  shows "\<exists>sch'. CreateCoroutine True (Some f) sch = (cid_seed sch, sch') \<and> sched_ok sch'
     \<and> map_of (coroutine_table sch') = (map_of (coroutine_table sch))
          (cid_seed sch \<mapsto> \<lparr>co_idx = cid_seed sch, co_state = COROUTINE_READY, co_func = f\<rparr>)
     \<and> cid_seed sch' = cid_seed sch + 1 \<and> coroutine_max sch' = coroutine_max sch"
  using assms CreateCoroutine_ok [OF assms(1), of True "Some f"]
  by (auto simp: CreateCoroutine_def update_conv')

section \<open>Properties\<close>

text \<open>C21. Resuming runs exactly one step of the coroutine with that id, on the state it is given,
  and touches no other coroutine: one that yields is suspended with the rest of its body, one that
  returns is removed, and a crash of the step is the crash of the call. An id that is not in the
  table gives -1. The scheduler stays in order: no id is used twice, no coroutine is left running
  and the limit is kept.\<close>

theorem ResumeCoroutine_step:
  assumes "sched_ok sch"
  shows "case map_of (coroutine_table sch) cid of
      None \<Rightarrow> ResumeCoroutine cid s sch = Done (-1, s, sch)
    | Some ctx \<Rightarrow>
        (case co_step (co_func ctx) s of
           Crash e \<Rightarrow> ResumeCoroutine cid s sch = Crash e
         | Done (s1, k) \<Rightarrow>
             (\<exists>sch'. ResumeCoroutine cid s sch = Done (0, s1, sch') \<and> sched_ok sch'
                \<and> map_of (coroutine_table sch') = (map_of (coroutine_table sch))(cid := co_after ctx k)))"
proof (cases "map_of (coroutine_table sch) cid")
  case None
  then show ?thesis
    by (simp add: ResumeCoroutine_def)
next
  case (Some ctx)
  show ?thesis
  proof (cases "co_step (co_func ctx) s")
    case (Done r)
    then obtain s1 k where step: "co_step (co_func ctx) s = Done (s1, k)"
      by (cases r) auto
    with ResumeCoroutine_runs [OF assms Some step] Some show ?thesis
      by auto
  next
    case (Crash e)
    with ResumeCoroutine_crashes [OF assms Some Crash] Some show ?thesis
      by simp
  qed
qed

definition two_steps :: "int cont" where
  "two_steps = CoSuspend (\<lambda>s. Done (s + 1, CoSuspend (\<lambda>s. Done (s * 10, CoEnd))))"

definition one_coroutine :: "int scheduler" where
  "one_coroutine = snd (CreateCoroutine True (Some two_steps) (CoroutineScheduler 4 0))"

theorem ResumeCoroutine_step_witness:
  "\<exists>sch sch'. ResumeCoroutine 0 5 one_coroutine = Done (0, 6, sch)
     \<and> ResumeCoroutine 0 6 sch = Done (0, 60, sch') \<and> \<not> CoroutineBeenAlive 0 sch'"
proof -
  have ok: "sched_ok one_coroutine"
    by (simp add: one_coroutine_def CreateCoroutine_ok sched_new)
  have c: "map_of (coroutine_table one_coroutine) 0
      = Some \<lparr>co_idx = 0, co_state = COROUTINE_READY, co_func = two_steps\<rparr>"
    by (simp add: one_coroutine_def CreateCoroutine_def CoroutineScheduler_def)
  from ResumeCoroutine_step [OF ok, of 0 5] c obtain sch where
      s1: "ResumeCoroutine 0 5 one_coroutine = Done (0, 6, sch)" "sched_ok sch"
        "map_of (coroutine_table sch) 0 = Some \<lparr>co_idx = 0, co_state = COROUTINE_SUSPEND,
           co_func = CoSuspend (\<lambda>s. Done (s * 10, CoEnd))\<rparr>"
    by (auto simp: two_steps_def co_step_def co_after_def)
  from ResumeCoroutine_step [OF s1(2), of 0 6] s1(3) obtain sch' where
      "ResumeCoroutine 0 6 sch = Done (0, 60, sch')" "sched_ok sch'" "map_of (coroutine_table sch') 0 = None"
    by (auto simp: co_step_def co_after_def)
  with s1 alive_iff [of sch' 0] show ?thesis
    by blast
qed

end
