(* ===== verification/Rpc.thy ===== *)
theory Rpc
  imports Framework Coroutine
begin

text \<open>
  \<open>framework/rapidapp_easy_rpc.*\<close>, \<open>rapidapp_message_reflection.*\<close>,
  \<open>rapidapp_rpc_mgr.*\<close> and the RPC members of the framework: messages wrapped in a
  \<open>RpcMessage\<close>, a client whose calls are coroutines that yield between request and reply, and
  a server that finds a service by the name of the request. Protobuf is a parameter
  (\<open>protobuf\<close>). A callback works on the application's world, not on the RPC objects: calls
  made from within a reply callback are not modelled.
\<close>

section \<open>Messages\<close>

abbreviation (input) MAX_MESSAGE_NAME :: nat where "MAX_MESSAGE_NAME \<equiv> 1024"
abbreviation (input) MAGIC_RPCSTAMP_V1 :: int where "MAGIC_RPCSTAMP_V1 \<equiv> 0x8118"
abbreviation (input) RPC_TYPE_REQUEST :: int where "RPC_TYPE_REQUEST \<equiv> 1"
abbreviation (input) RPC_TYPE_RESPONSE :: int where "RPC_TYPE_RESPONSE \<equiv> 2"
abbreviation (input) RPC_TYPE_ERROR :: int where "RPC_TYPE_ERROR \<equiv> 3"

record RpcMessage =
  rm_magic :: int
  rm_msg_type :: int
  rm_asyncid :: "64 word"
  rm_msg_name :: string
  rm_msg_bin :: "byte list"

text \<open>
  What is used of protobuf, for messages \<open>'m\<close>: \<open>GetTypeName\<close>,
  \<open>SerializeToString\<close>, \<open>ParseFromString\<close> into a message of a named type (\<open>None\<close>
  when it returns false), the types of the generated pool, and the codec of \<open>RpcMessage\<close>, whose
  parser gives the message left behind and whether it succeeded.
\<close>

record 'm protobuf =
  pb_name :: "'m \<Rightarrow> string"
  pb_ser :: "'m \<Rightarrow> byte list"
  pb_parse :: "string \<Rightarrow> byte list \<Rightarrow> 'm option"
  pb_known :: "string \<Rightarrow> bool"
  rpc_ser :: "RpcMessage \<Rightarrow> byte list"
  rpc_parse :: "view \<Rightarrow> RpcMessage \<times> bool"

text \<open>\<open>MessageToBinary\<close>; \<open>out\<close> is the output string before the call.\<close>

definition MessageToBinary ::
    "'m protobuf \<Rightarrow> int \<Rightarrow> 64 word \<Rightarrow> 'm option \<Rightarrow> byte list \<Rightarrow> int \<times> byte list" where
  "MessageToBinary pb type asyncid message out =
     (case message of
        None \<Rightarrow> (-1, out)
      | Some m \<Rightarrow>
          if MAX_MESSAGE_NAME \<le> length (pb_name pb m) then (-1, out)
          else (0, rpc_ser pb \<lparr>rm_magic = MAGIC_RPCSTAMP_V1, rm_msg_type = type, rm_asyncid = asyncid,
                              rm_msg_name = pb_name pb m, rm_msg_bin = pb_ser pb m\<rparr>))"

definition RpcErrorToBinary :: "'m protobuf \<Rightarrow> 64 word \<Rightarrow> int \<times> byte list" where
  "RpcErrorToBinary pb asyncid =
     (0, rpc_ser pb \<lparr>rm_magic = MAGIC_RPCSTAMP_V1, rm_msg_type = RPC_TYPE_ERROR, rm_asyncid = asyncid,
                    rm_msg_name = [], rm_msg_bin = []\<rparr>)"

text \<open>\<open>UnpackToRpcMsg\<close>: the result and the static \<open>rpc_msg_\<close>; the magic is not
  checked.\<close>

definition UnpackToRpcMsg :: "'m protobuf \<Rightarrow> view \<Rightarrow> RpcMessage \<Rightarrow> int \<times> RpcMessage" where
  "UnpackToRpcMsg pb data rpc_msg =
     (if data = View [] then (-1, rpc_msg)
      else (case rpc_parse pb data of (m, ok) \<Rightarrow> (if ok then 0 else -1, m)))"

definition SpawnMessage :: "'m protobuf \<Rightarrow> view \<Rightarrow> RpcMessage \<Rightarrow> 'm option \<times> RpcMessage" where
  "SpawnMessage pb data rpc_msg =
     (case UnpackToRpcMsg pb data rpc_msg of
        (ret, m) \<Rightarrow>
          if ret \<noteq> 0 then (None, m)
          else if \<not> pb_known pb (rm_msg_name m) then (None, m)
          else (pb_parse pb (rm_msg_name m) (rm_msg_bin m), m))"

text \<open>\<open>BinaryToMessage\<close> into a message of type \<open>type_name\<close>.\<close>

definition BinaryToMessage ::
    "'m protobuf \<Rightarrow> view \<Rightarrow> string option \<Rightarrow> RpcMessage \<Rightarrow> int \<times> 'm option \<times> RpcMessage" where
  "BinaryToMessage pb data message rpc_msg =
     (case message of
        None \<Rightarrow> (-1, None, rpc_msg)
      | Some type_name \<Rightarrow>
          (case UnpackToRpcMsg pb data rpc_msg of
             (ret, m) \<Rightarrow>
               if ret \<noteq> 0 then (-1, None, m)
               else if type_name \<noteq> rm_msg_name m then (-1, None, m)
               else (case pb_parse pb type_name (rm_msg_bin m) of
                       None \<Rightarrow> (-1, None, m)
                     | Some x \<Rightarrow> (0, Some x, m))))"

text \<open>
  \<open>SharedMessage\<close>, which nothing calls: it parses into the default instance of the type, which the
  whole process shares. \<open>insts\<close> are the contents of these instances by type, \<open>None\<close> after
  a parse has failed half way; the result names the instance.
\<close>

definition SharedMessage ::
    "'m protobuf \<Rightarrow> view \<Rightarrow> RpcMessage \<Rightarrow> (string \<Rightarrow> 'm option) \<Rightarrow> string option \<times> RpcMessage \<times> (string \<Rightarrow> 'm option)" where
  "SharedMessage pb data rpc_msg insts =
     (case UnpackToRpcMsg pb data rpc_msg of
        (ret, m) \<Rightarrow>
          if ret \<noteq> 0 then (None, m, insts)
          else if \<not> pb_known pb (rm_msg_name m) then (None, m, insts)
          else
            (case pb_parse pb (rm_msg_name m) (rm_msg_bin m) of
               None \<Rightarrow> (None, m, insts(rm_msg_name m := None))
             | Some x \<Rightarrow> (Some (rm_msg_name m), m, insts(rm_msg_name m \<mapsto> x))))"

lemma SharedMessage_overwrites:
  assumes "SharedMessage pb d1 m0 insts = (Some t, m1, insts1)" and "SharedMessage pb d2 m1 insts1 = (Some t, m2, insts2)"
  shows "insts1 t = pb_parse pb t (rm_msg_bin m1) \<and> insts2 t = pb_parse pb t (rm_msg_bin m2)"
  using assms by (auto simp: SharedMessage_def split: prod.splits if_splits option.splits)

section \<open>Calls\<close>

text \<open>
  \<open>RPC_CONTEXT\<close>: the response object is given by its type, \<open>None\<close> for NULL. The callback
  gets the request, the response when it has been parsed, and the status; its \<open>arg\<close> is part of
  it.
\<close>

record ('m, 'w) RpcCallContext =
  rc_callback :: "'m \<Rightarrow> 'm option \<Rightarrow> int \<Rightarrow> 'w \<Rightarrow> 'w exec"
  rc_request :: 'm
  rc_response :: "string option"

text \<open>The state the coroutines of the calls run on: the world and the static variables
  \<open>asyncid_seed\<close>, \<open>buf\<close> and \<open>rpc_msg_\<close>.\<close>

record 'w rpc_state =
  rs_world :: 'w
  asyncid_seed :: "64 word"
  rpc_buf :: "byte list"
  rpc_msg :: RpcMessage

record EasyRpc =
  rpc_scheduler :: bool
  rpc_net :: "ptr option"
  crid_list :: "(int \<times> 64 word) list"

definition EasyRpc_new :: EasyRpc where
  "EasyRpc_new = \<lparr>rpc_scheduler = False, rpc_net = None, crid_list = []\<rparr>"

definition EasyRpc_Init :: "bool \<Rightarrow> ptr option \<Rightarrow> EasyRpc \<Rightarrow> int \<times> EasyRpc" where
  "EasyRpc_Init scheduler net rpc =
     (if net = None \<or> \<not> scheduler then (-1, rpc)
      else (0, rpc\<lparr>rpc_net := net, rpc_scheduler := scheduler\<rparr>))"

definition IsActive :: "EasyRpc \<Rightarrow> bool" where
  "IsActive rpc = (crid_list rpc \<noteq> [])"

text \<open>\<open>RpcFunction\<close> after the yield: the reply is in \<open>rpc_msg_\<close>.\<close>

definition RpcFunction_resumed ::
    "'m protobuf \<Rightarrow> ('m, 'w) RpcCallContext \<Rightarrow> 'w rpc_state cont" where
  "RpcFunction_resumed pb ctx = CoSuspend (\<lambda>s.
     case rc_response ctx of
       None \<Rightarrow> Crash AssertFailed
     | Some type_name \<Rightarrow>
         (let (status, response) =
            (if rm_msg_type (rpc_msg s) = RPC_TYPE_ERROR then (-1, None)
             else (case pb_parse pb type_name (rm_msg_bin (rpc_msg s)) of
                     None \<Rightarrow> (-1, None) | Some m \<Rightarrow> (0, Some m)))
          in bindE (rc_callback ctx (rc_request ctx) response status (rs_world s)) (\<lambda>w.
               Done (s\<lparr>rs_world := w\<rparr>, CoEnd))))"

text \<open>\<open>RpcFunction\<close> from its start; \<open>net\<close> is \<open>rpc_stub->net_\<close> and \<open>send\<close>
  is \<open>net_->Send\<close>, whose result is only logged. The result of \<open>MessageToBinary\<close> is not
  looked at: what \<open>buf\<close> holds is sent.\<close>

definition RpcFunction ::
    "'m protobuf \<Rightarrow> (ptr \<Rightarrow> byte list \<Rightarrow> 'w \<Rightarrow> (int \<times> 'w) exec) \<Rightarrow> ptr option
     \<Rightarrow> ('m, 'w) RpcCallContext \<Rightarrow> 'w rpc_state cont" where
  "RpcFunction pb send net ctx = CoSuspend (\<lambda>s.
     case net of
       None \<Rightarrow> Done (s, CoEnd)
     | Some p \<Rightarrow>
         (let buf = snd (MessageToBinary pb RPC_TYPE_REQUEST (asyncid_seed s) (Some (rc_request ctx)) (rpc_buf s))
          in bindE (send p buf (rs_world s)) (\<lambda>(ret, w).
               Done (s\<lparr>rs_world := w, asyncid_seed := asyncid_seed s + 1, rpc_buf := buf\<rparr>,
                     RpcFunction_resumed pb ctx))))"

text \<open>\<open>RpcCall\<close>; \<open>ok1\<close> and \<open>ok2\<close> are the allocations of the context and of the
  coroutine.\<close>

definition RpcCall ::
    "'m protobuf \<Rightarrow> (ptr \<Rightarrow> byte list \<Rightarrow> 'w \<Rightarrow> (int \<times> 'w) exec) \<Rightarrow> bool \<Rightarrow> bool \<Rightarrow> 'm option
     \<Rightarrow> string option \<Rightarrow> ('m \<Rightarrow> 'm option \<Rightarrow> int \<Rightarrow> 'w \<Rightarrow> 'w exec) option
     \<Rightarrow> EasyRpc \<Rightarrow> 'w rpc_state scheduler \<Rightarrow> 'w rpc_state
     \<Rightarrow> (int \<times> EasyRpc \<times> 'w rpc_state scheduler \<times> 'w rpc_state) exec" where
  "RpcCall pb send ok1 ok2 request response callback rpc sch s =
     (case (request, callback) of
        (Some req, Some cb) \<Rightarrow>
          if \<not> rpc_scheduler rpc then Done (-1, rpc, sch, s)
          else if \<not> ok1 then Done (-1, rpc, sch, s)
          else
            (let ctx = \<lparr>rc_callback = cb, rc_request = req, rc_response = response\<rparr>;
                 (cid, sch1) = CreateCoroutine ok2 (Some (RpcFunction pb send (rpc_net rpc) ctx)) sch
             in if cid < 0 then Done (-1, rpc, sch1, s)
                else
                  (let rpc1 = rpc\<lparr>crid_list := crid_list rpc @ [(cid, asyncid_seed s)]\<rparr> in
                   bindE (ResumeCoroutine cid s sch1) (\<lambda>(ret, s1, sch2). Done (0, rpc1, sch2, s1))))
      | _ \<Rightarrow> Done (-1, rpc, sch, s))"

text \<open>\<open>AppFrameWork::RpcCall\<close>.\<close>

definition fw_RpcCall ::
    "'m protobuf \<Rightarrow> (ptr \<Rightarrow> byte list \<Rightarrow> 'w \<Rightarrow> (int \<times> 'w) exec) \<Rightarrow> bool \<Rightarrow> bool \<Rightarrow> 'm option
     \<Rightarrow> string option \<Rightarrow> ('m \<Rightarrow> 'm option \<Rightarrow> int \<Rightarrow> 'w \<Rightarrow> 'w exec) option
     \<Rightarrow> EasyRpc option \<Rightarrow> 'w rpc_state scheduler \<Rightarrow> 'w rpc_state
     \<Rightarrow> (int \<times> EasyRpc option \<times> 'w rpc_state scheduler \<times> 'w rpc_state) exec" where
  "fw_RpcCall pb send ok1 ok2 request response callback rpc sch s =
     (case rpc of
        None \<Rightarrow> Done (-1, rpc, sch, s)
      | Some r \<Rightarrow>
          if callback = None \<or> request = None then Done (-1, rpc, sch, s)
          else bindE (RpcCall pb send ok1 ok2 request response callback r sch s)
                 (\<lambda>(ret, r1, sch1, s1). Done (ret, Some r1, sch1, s1)))"

definition GetCoroutineIdxByAsyncId :: "64 word \<Rightarrow> EasyRpc \<Rightarrow> int" where
  "GetCoroutineIdxByAsyncId asyncid rpc =
     (case find (\<lambda>cp. snd cp = asyncid) (crid_list rpc) of None \<Rightarrow> -1 | Some cp \<Rightarrow> fst cp)"

fun remove_crid :: "int \<Rightarrow> (int \<times> 64 word) list \<Rightarrow> (int \<times> 64 word) list" where
  "remove_crid crid [] = []"
| "remove_crid crid (cp # cps) = (if fst cp = crid then cps else cp # remove_crid crid cps)"

definition RemoveByCoroutineId :: "int \<Rightarrow> EasyRpc \<Rightarrow> EasyRpc" where
  "RemoveByCoroutineId crid rpc = rpc\<lparr>crid_list := remove_crid crid (crid_list rpc)\<rparr>"

text \<open>\<open>EasyRpc::Resume\<close>, called by the framework with a message of the connection.\<close>

definition Rpc_Resume ::
    "'m protobuf \<Rightarrow> view \<Rightarrow> EasyRpc \<Rightarrow> 'w rpc_state scheduler \<Rightarrow> 'w rpc_state
     \<Rightarrow> (int \<times> EasyRpc \<times> 'w rpc_state scheduler \<times> 'w rpc_state) exec" where
  "Rpc_Resume pb data rpc sch s =
     (if \<not> rpc_scheduler rpc then Crash AssertFailed
      else if data = View [] then Done (-1, rpc, sch, s)
      else
        (case UnpackToRpcMsg pb data (rpc_msg s) of
           (ret, m) \<Rightarrow>
             let s1 = s\<lparr>rpc_msg := m\<rparr> in
             if ret \<noteq> 0 then Done (-1, rpc, sch, s1)
             else
               (let crid = GetCoroutineIdxByAsyncId (rm_asyncid m) rpc in
                bindE
                  (if CoroutineBeenAlive crid sch
                   then bindE (ResumeCoroutine crid s1 sch) (\<lambda>(r, s2, sch1). Done (s2, sch1))
                   else Done (s1, sch))
                  (\<lambda>(s2, sch1).
                    Done (0, if CoroutineBeenAlive crid sch1 then rpc else RemoveByCoroutineId crid rpc,
                          sch1, s2)))))"

section \<open>Services\<close>

text \<open>
  \<open>IRpcService\<close>. \<open>OnRpcCall\<close> is given request and fresh response and says what it does
  with the closure in the end: call \<open>Done\<close> with the response filled in, call \<open>Cancel\<close>, or
  keep it for later.
\<close>

datatype 'm rpc_answer = AnswerDone 'm | AnswerCancel | AnswerLater

record ('m, 'w) IRpcService =
  RpcRequestName :: string
  NewResponse :: "'m option"
  OnRpcCall :: "'m \<Rightarrow> 'm \<Rightarrow> 'w \<Rightarrow> ('w \<times> 'm rpc_answer) exec"

type_synonym ('m, 'w) RpcServiceMap = "string \<rightharpoonup> ('m, 'w) IRpcService"

definition AddRpcService ::
    "('m, 'w) IRpcService option \<Rightarrow> ('m, 'w) RpcServiceMap \<Rightarrow> ('m, 'w) RpcServiceMap" where
  "AddRpcService rpc_svc mgr =
     (case rpc_svc of None \<Rightarrow> mgr | Some svc \<Rightarrow> mgr(RpcRequestName svc \<mapsto> svc))"

text \<open>\<open>RegisterRpcService\<close>; \<open>ok\<close> is the allocation of the manager. The function ends
  without a \<open>return\<close> on success: that result is \<open>None\<close>.\<close>

definition RegisterRpcService ::
    "service_mode \<Rightarrow> bool \<Rightarrow> ('m, 'w) IRpcService option \<Rightarrow> ('m, 'w) RpcServiceMap option
     \<Rightarrow> int option \<times> ('m, 'w) RpcServiceMap option" where
  "RegisterRpcService md ok rpc_svc mgr =
     (if md \<noteq> SVC_MODE_RPC then (Some (-1), mgr)
      else
        (case rpc_svc of
           None \<Rightarrow> (None, mgr)
         | Some svc \<Rightarrow>
             (case mgr of
                None \<Rightarrow> if ok then (None, Some (AddRpcService rpc_svc Map.empty)) else (Some (-1), mgr)
              | Some m \<Rightarrow> (None, Some (AddRpcService rpc_svc m)))))"

record 'm EasyRpcClosure =
  cl_async_id :: "64 word"
  cl_net :: ptr
  cl_req :: 'm
  cl_rsp :: 'm

text \<open>\<open>Set\<close>: \<open>None\<close> when one of the pointers is NULL.\<close>

definition Closure_Set :: "ptr option \<Rightarrow> 64 word \<Rightarrow> 'm option \<Rightarrow> 'm option \<Rightarrow> 'm EasyRpcClosure option" where
  "Closure_Set net asyncid req rsp =
     (case (net, req, rsp) of
        (Some p, Some q, Some r) \<Rightarrow> Some \<lparr>cl_async_id = asyncid, cl_net = p, cl_req = q, cl_rsp = r\<rparr>
      | _ \<Rightarrow> None)"

definition Closure_Done ::
    "'m protobuf \<Rightarrow> 'm EasyRpcClosure \<Rightarrow> ('c, 'a) world \<Rightarrow> ('c, 'a) world exec" where
  "Closure_Done pb cl w =
     (case MessageToBinary pb RPC_TYPE_RESPONSE (cl_async_id cl) (Some (cl_rsp cl)) [] of
        (ret, out) \<Rightarrow>
          if ret = 0 then bindE (net_Send (cl_net cl) (Some out) w) (\<lambda>(r, w1). Done w1) else Done w)"

definition Closure_Cancel ::
    "'m protobuf \<Rightarrow> 'm EasyRpcClosure \<Rightarrow> ('c, 'a) world \<Rightarrow> ('c, 'a) world exec" where
  "Closure_Cancel pb cl w =
     (case RpcErrorToBinary pb (cl_async_id cl) of
        (ret, out) \<Rightarrow>
          if ret = 0 then bindE (net_Send (cl_net cl) (Some out) w) (\<lambda>(r, w1). Done w1) else Done w)"

definition answer_closure ::
    "'m protobuf \<Rightarrow> 'm EasyRpcClosure \<Rightarrow> 'm rpc_answer \<Rightarrow> ('c, 'a) world \<Rightarrow> ('c, 'a) world exec" where
  "answer_closure pb cl ans w =
     (case ans of
        AnswerDone rsp \<Rightarrow> Closure_Done pb (cl\<lparr>cl_rsp := rsp\<rparr>) w
      | AnswerCancel \<Rightarrow> Closure_Cancel pb cl w
      | AnswerLater \<Rightarrow> Done w)"

text \<open>\<open>AppFrameWork::OnFrontEndRpcMsg\<close>: the result, the static \<open>rpc_msg_\<close>, the world;
  \<open>ok\<close> is the allocation of the closure.\<close>

definition fw_OnFrontEndRpcMsg ::
    "'m protobuf \<Rightarrow> ('m, ('c, 'a) world) RpcServiceMap option \<Rightarrow> bool \<Rightarrow> ptr \<Rightarrow> view \<Rightarrow> RpcMessage
     \<Rightarrow> ('c, 'a) world \<Rightarrow> (int \<times> RpcMessage \<times> ('c, 'a) world) exec" where
  "fw_OnFrontEndRpcMsg pb mgr ok net data last_msg w =
     (case SpawnMessage pb data last_msg of
        (None, m) \<Rightarrow> Done (-1, m, w)
      | (Some req, m) \<Rightarrow>
          (case mgr of
             None \<Rightarrow> Done (-1, m, w)
           | Some services \<Rightarrow>
               (case services (pb_name pb req) of
                  None \<Rightarrow> Done (0, m, w)
                | Some svc \<Rightarrow>
                    (case NewResponse svc of
                       None \<Rightarrow> Done (0, m, w)
                     | Some resp \<Rightarrow>
                         if \<not> ok then Done (0, m, w)
                         else
                           (case Closure_Set (Some net) (rm_asyncid m) (Some req) (Some resp) of
                              None \<Rightarrow> Done (0, m, w)
                            | Some cl \<Rightarrow>
                                bindE (OnRpcCall svc req resp w) (\<lambda>(w1, ans).
                                  bindE (answer_closure pb cl ans w1) (\<lambda>w2. Done (1, m, w2))))))))"

section \<open>Life of an RPC client\<close>

text \<open>\<open>CreateRpc\<close>: \<open>sched\<close> is whether the framework has its scheduler, \<open>ok\<close> the
  allocation of the \<open>EasyRpc\<close>, \<open>rp\<close> its address, which the connection keeps.\<close>

definition CreateRpc ::
    "('c, 'a) rapid_app \<Rightarrow> bool \<Rightarrow> bool \<Rightarrow> ptr \<Rightarrow> string option \<Rightarrow> int \<Rightarrow> ('c, 'a) world
     \<Rightarrow> (EasyRpc option \<times> ('c, 'a) world) exec" where
  "CreateRpc app sched ok rp url type w =
     bindE (CreateBackEnd app url type w) (\<lambda>(net, w1).
       case net of
         None \<Rightarrow> Done (None, w1)
       | Some p \<Rightarrow>
           (case (if ok then EasyRpc_Init sched (Some p) EasyRpc_new else (-1, EasyRpc_new)) of
              (ret, rpc) \<Rightarrow>
                if ret \<noteq> 0 then bindE (DestroyBackEnd (Some p) w1) (\<lambda>w2. Done (None, w2))
                else bindE (modify_net p (\<lambda>n. n\<lparr>rpc_binded := Some rp\<rparr>) w1) (\<lambda>w2. Done (Some rpc, w2))))"

definition EasyRpc_destroy :: "EasyRpc \<Rightarrow> 's scheduler \<Rightarrow> 's scheduler" where
  "EasyRpc_destroy rpc sch = fold (\<lambda>cp. DestroyCoroutine (fst cp)) (crid_list rpc) sch"

definition DestroyRpc ::
    "EasyRpc option \<Rightarrow> 's scheduler \<Rightarrow> ('c, 'a) world \<Rightarrow> (int \<times> 's scheduler \<times> ('c, 'a) world) exec" where
  "DestroyRpc rpc sch w =
     (case rpc of
        None \<Rightarrow> Done (-1, sch, w)
      | Some r \<Rightarrow> bindE (DestroyBackEnd (rpc_net r) w) (\<lambda>w1. Done (0, EasyRpc_destroy r sch, w1)))"

section \<open>Calls and replies\<close>

text \<open>What the calls of a client promise: a map from the ids of the calls that have no reply yet
  to their contexts, the next id and the world. A call sends one request with the next id, unless
  the scheduler is full; a reply goes to the callback of the call with its id, once.\<close>

datatype ('m, 'w) rpc_event =
    RpcEvCall 'm "string option" "'m \<Rightarrow> 'm option \<Rightarrow> int \<Rightarrow> 'w \<Rightarrow> 'w exec"
  | RpcEvMsg view

type_synonym ('m, 'w) rpc_spec = "(64 word \<rightharpoonup> ('m, 'w) RpcCallContext) \<times> 64 word \<times> 'w"

definition request_of :: "'m protobuf \<Rightarrow> 64 word \<Rightarrow> 'm \<Rightarrow> byte list" where
  "request_of pb asyncid req = rpc_ser pb \<lparr>rm_magic = MAGIC_RPCSTAMP_V1, rm_msg_type = RPC_TYPE_REQUEST,
     rm_asyncid = asyncid, rm_msg_name = pb_name pb req, rm_msg_bin = pb_ser pb req\<rparr>"

definition reply_of :: "'m protobuf \<Rightarrow> string \<Rightarrow> RpcMessage \<Rightarrow> int \<times> 'm option" where
  "reply_of pb type_name m =
     (if rm_msg_type m = RPC_TYPE_ERROR then (-1, None)
      else (case pb_parse pb type_name (rm_msg_bin m) of None \<Rightarrow> (-1, None) | Some x \<Rightarrow> (0, Some x)))"

fun spec_event ::
    "'m protobuf \<Rightarrow> (ptr \<Rightarrow> byte list \<Rightarrow> 'w \<Rightarrow> (int \<times> 'w) exec) \<Rightarrow> ptr \<Rightarrow> nat \<Rightarrow> ('m, 'w) rpc_event
     \<Rightarrow> ('m, 'w) rpc_spec \<Rightarrow> ('m, 'w) rpc_spec exec" where
  "spec_event pb send p limit (RpcEvCall req resp cb) (pend, seed, w) =
     (if limit \<le> card (dom pend) then Done (pend, seed, w)
      else bindE (send p (request_of pb seed req) w) (\<lambda>(ret, w1).
        Done (pend(seed \<mapsto> \<lparr>rc_callback = cb, rc_request = req, rc_response = resp\<rparr>), seed + 1, w1)))"
| "spec_event pb send p limit (RpcEvMsg data) (pend, seed, w) =
     (if data = View [] \<or> \<not> snd (rpc_parse pb data) then Done (pend, seed, w)
      else
        (let m = fst (rpc_parse pb data) in
         case pend (rm_asyncid m) of
           None \<Rightarrow> Done (pend, seed, w)
         | Some ctx \<Rightarrow>
             (case rc_response ctx of
                None \<Rightarrow> Crash AssertFailed
              | Some t \<Rightarrow>
                  bindE (rc_callback ctx (rc_request ctx) (snd (reply_of pb t m)) (fst (reply_of pb t m)) w)
                    (\<lambda>w1. Done (pend(rm_asyncid m := None), seed, w1)))))"

type_synonym 'w rpc_client = "EasyRpc \<times> 'w rpc_state scheduler \<times> 'w rpc_state"

fun rpc_event_run ::
    "'m protobuf \<Rightarrow> (ptr \<Rightarrow> byte list \<Rightarrow> 'w \<Rightarrow> (int \<times> 'w) exec) \<Rightarrow> ('m, 'w) rpc_event
     \<Rightarrow> 'w rpc_client \<Rightarrow> 'w rpc_client exec" where
  "rpc_event_run pb send (RpcEvCall req resp cb) (rpc, sch, s) =
     bindE (RpcCall pb send True True (Some req) resp (Some cb) rpc sch s) (\<lambda>(ret, c). Done c)"
| "rpc_event_run pb send (RpcEvMsg data) (rpc, sch, s) =
     bindE (Rpc_Resume pb data rpc sch s) (\<lambda>(ret, c). Done c)"

fun run_events :: "('e \<Rightarrow> 's \<Rightarrow> 's exec) \<Rightarrow> 'e list \<Rightarrow> 's \<Rightarrow> 's exec" where
  "run_events step [] s = Done s"
| "run_events step (e # es) s = bindE (step e s) (\<lambda>s1. run_events step es s1)"

text \<open>A client with a connection, alone on its scheduler, and what it has pending.\<close>

definition rpc_ok :: "'m protobuf \<Rightarrow> ptr \<Rightarrow> nat \<Rightarrow> 'w rpc_client \<Rightarrow> ('m, 'w) rpc_spec \<Rightarrow> bool" where
  "rpc_ok pb p limit c a = (case (c, a) of ((rpc, sch, s), (pend, seed, w)) \<Rightarrow>
     sched_ok sch \<and> coroutine_max sch = limit \<and> rpc_scheduler rpc \<and> rpc_net rpc = Some p
     \<and> asyncid_seed s = seed \<and> rs_world s = w
     \<and> distinct (map fst (crid_list rpc)) \<and> distinct (map snd (crid_list rpc))
     \<and> dom pend = snd ` set (crid_list rpc)
     \<and> dom (map_of (coroutine_table sch)) = fst ` set (crid_list rpc)
     \<and> (\<forall>(crid, aid) \<in> set (crid_list rpc). aid < seed
          \<and> (\<exists>ctx. pend aid = Some ctx
               \<and> map_of (coroutine_table sch) crid
                   = Some \<lparr>co_idx = crid, co_state = COROUTINE_SUSPEND, co_func = RpcFunction_resumed pb ctx\<rparr>)))"

lemma remove_crid_filter:
  "distinct (map fst l) \<Longrightarrow> remove_crid crid l = filter (\<lambda>cp. fst cp \<noteq> crid) l"
proof (induction l)
  case (Cons cp l)
  show ?case
  proof (cases "fst cp = crid")
    case True
    with Cons.prems have "filter (\<lambda>cp. fst cp \<noteq> crid) l = l"
      by (auto simp: filter_id_conv image_iff)
    with True show ?thesis
      by simp
  next
    case False
    with Cons show ?thesis
      by simp
  qed
qed simp

lemma filter_absent: "crid \<notin> fst ` set l \<Longrightarrow> filter (\<lambda>cp. fst cp \<noteq> crid) l = l"
  by (auto simp: filter_id_conv image_iff)

lemma find_asyncid:
  "distinct (map snd l) \<Longrightarrow> (crid, aid) \<in> set l \<Longrightarrow> find (\<lambda>cp. snd cp = aid) l = Some (crid, aid)"
  by (induction l) (auto simp: image_iff)

lemma find_no_asyncid: "aid \<notin> snd ` set l \<Longrightarrow> find (\<lambda>cp. snd cp = aid) l = None"
  by (auto simp: find_None_iff image_iff)

lemma crids_of_pairs:
  assumes "distinct (map fst l)" and "distinct (map snd l)"
  shows "card (fst ` set l) = length l" "card (snd ` set l) = length l"
  using distinct_card [OF assms(1)] distinct_card [OF assms(2)] by simp_all

lemma sched_length: "sched_ok sch \<Longrightarrow> length (coroutine_table sch) = card (dom (map_of (coroutine_table sch)))"
  using distinct_card [of "map fst (coroutine_table sch)"]
  by (simp add: sched_ok_def dom_map_of_conv_image_fst)

lemma rpc_ok_length:
  assumes "rpc_ok pb p limit (rpc, sch, s) (pend, seed, w)"
  shows "length (coroutine_table sch) = card (dom pend)"
proof -
  have ok: "sched_ok sch" "distinct (map fst (crid_list rpc))" "distinct (map snd (crid_list rpc))"
      "dom pend = snd ` set (crid_list rpc)" "dom (map_of (coroutine_table sch)) = fst ` set (crid_list rpc)"
    using assms by (simp_all add: rpc_ok_def)
  show ?thesis
    unfolding sched_length [OF ok(1)] ok(4,5) crids_of_pairs [OF ok(2,3)] ..
qed

lemma word_fresh: "seed \<noteq> - 1 \<Longrightarrow> (seed :: 64 word) < seed + 1"
  using unatSuc [of seed] by (auto simp: word_less_nat_alt add.commute eq_neg_iff_add_eq_0)

lemma rpc_call_step:
  assumes ok: "rpc_ok pb p limit (rpc, sch, s) (pend, seed, w)" and "seed \<noteq> - 1"
    and "card (dom pend) < limit" and "length (pb_name pb req) < MAX_MESSAGE_NAME"
    and send: "send p (request_of pb seed req) w = Done (ret, w1)"
  shows "\<exists>c. RpcCall pb send True True (Some req) resp (Some cb) rpc sch s = Done (0, c)
     \<and> rpc_ok pb p limit c (pend(seed \<mapsto> \<lparr>rc_callback = cb, rc_request = req, rc_response = resp\<rparr>), seed + 1, w1)"
proof -
  let ?ctx = "\<lparr>rc_callback = cb, rc_request = req, rc_response = resp\<rparr>"
  have ok': "sched_ok sch" "coroutine_max sch = limit" "rpc_scheduler rpc" "rpc_net rpc = Some p"
      "asyncid_seed s = seed" "rs_world s = w"
      "dom (map_of (coroutine_table sch)) = fst ` set (crid_list rpc)"
    using ok by (simp_all add: rpc_ok_def)
  have room: "length (coroutine_table sch) < coroutine_max sch"
    using rpc_ok_length [OF ok] assms(3) ok'(2) by simp
  let ?f = "RpcFunction pb send (rpc_net rpc) ?ctx"
  obtain sch1 where sch1: "CreateCoroutine True (Some ?f) sch = (cid_seed sch, sch1)" "sched_ok sch1"
      "map_of (coroutine_table sch1) = (map_of (coroutine_table sch))
         (cid_seed sch \<mapsto> \<lparr>co_idx = cid_seed sch, co_state = COROUTINE_READY, co_func = ?f\<rparr>)"
      "coroutine_max sch1 = limit"
    using CreateCoroutine_new [OF ok'(1) room, of ?f] ok'(2) by blast
  let ?s1 = "s\<lparr>rs_world := w1, asyncid_seed := seed + 1, rpc_buf := request_of pb seed req\<rparr>"
  have "co_step ?f s = Done (?s1, RpcFunction_resumed pb ?ctx)"
    using send ok' assms(4) by (simp add: co_step_def RpcFunction_def MessageToBinary_def request_of_def)
  with ResumeCoroutine_runs [OF sch1(2), of "cid_seed sch"] sch1(3) obtain sch2 where
      sch2: "ResumeCoroutine (cid_seed sch) s sch1 = Done (0, ?s1, sch2)" "sched_ok sch2"
        "map_of (coroutine_table sch2) = (map_of (coroutine_table sch))
           (cid_seed sch \<mapsto> \<lparr>co_idx = cid_seed sch, co_state = COROUTINE_SUSPEND,
              co_func = RpcFunction_resumed pb ?ctx\<rparr>)" "coroutine_max sch2 = limit"
    using sch1(4) by (fastforce simp: co_after_def RpcFunction_resumed_def)
  have seed0: "0 \<le> cid_seed sch"
    using ok'(1) by (simp add: sched_ok_def)
  have run: "RpcCall pb send True True (Some req) resp (Some cb) rpc sch s
      = Done (0, rpc\<lparr>crid_list := crid_list rpc @ [(cid_seed sch, seed)]\<rparr>, sch2, ?s1)"
    using sch1(1) sch2(1) ok' seed0 by (simp add: RpcCall_def)
  have fresh: "cid_seed sch \<notin> fst ` set (crid_list rpc)" "seed \<notin> snd ` set (crid_list rpc)"
    using seed_fresh [OF ok'(1)] ok'(7) ok by (auto simp: rpc_ok_def domIff)
  have "rpc_ok pb p limit (rpc\<lparr>crid_list := crid_list rpc @ [(cid_seed sch, seed)]\<rparr>, sch2, ?s1)
      (pend(seed \<mapsto> ?ctx), seed + 1, w1)"
  proof -
    have entry: "aid < seed + 1 \<and> (\<exists>ctx. (pend(seed \<mapsto> ?ctx)) aid = Some ctx
          \<and> map_of (coroutine_table sch2) crid
              = Some \<lparr>co_idx = crid, co_state = COROUTINE_SUSPEND, co_func = RpcFunction_resumed pb ctx\<rparr>)"
      if "(crid, aid) \<in> set (crid_list rpc)" for crid aid
    proof -
      from that fresh have "crid \<noteq> cid_seed sch" "aid \<noteq> seed"
        by force+
      moreover from ok that have "aid < seed \<and> (\<exists>ctx. pend aid = Some ctx
          \<and> map_of (coroutine_table sch) crid
              = Some \<lparr>co_idx = crid, co_state = COROUTINE_SUSPEND, co_func = RpcFunction_resumed pb ctx\<rparr>)"
        by (auto simp: rpc_ok_def)
      ultimately show ?thesis
        using sch2(3) word_fresh [OF assms(2)] by (auto intro: less_trans)
    qed
    have dom1: "dom (pend(seed \<mapsto> ?ctx)) = snd ` set (crid_list rpc @ [(cid_seed sch, seed)])"
      and dom2: "dom (map_of (coroutine_table sch2)) = fst ` set (crid_list rpc @ [(cid_seed sch, seed)])"
      using ok sch2(3) by (simp_all add: rpc_ok_def)
    show ?thesis
      unfolding rpc_ok_def split using ok fresh sch2 word_fresh [OF assms(2)] dom1 dom2 entry
      by (auto simp: rpc_ok_def fun_upd_same simp del: fun_upd_apply)
  qed
  with run show ?thesis
    by blast
qed

text \<open>A reply to no call, and a reply to the call \<open>ctx\<close>.\<close>

lemma Rpc_Resume_parsed:
  assumes "rpc_scheduler rpc" and "data \<noteq> View []" and "rpc_parse pb data = (m, True)"
  shows "Rpc_Resume pb data rpc sch s =
    (let crid = GetCoroutineIdxByAsyncId (rm_asyncid m) rpc in
     bindE
       (if CoroutineBeenAlive crid sch
        then bindE (ResumeCoroutine crid (s\<lparr>rpc_msg := m\<rparr>) sch) (\<lambda>(r, s2, sch1). Done (s2, sch1))
        else Done (s\<lparr>rpc_msg := m\<rparr>, sch))
       (\<lambda>(s2, sch1).
         Done (0, if CoroutineBeenAlive crid sch1 then rpc else RemoveByCoroutineId crid rpc, sch1, s2)))"
  using assms by (simp add: Rpc_Resume_def UnpackToRpcMsg_def Let_def)

lemma rpc_unknown_reply:
  assumes ok: "rpc_ok pb p limit (rpc, sch, s) (pend, seed, w)" and "data \<noteq> View []"
    and "rpc_parse pb data = (m, True)" and "pend (rm_asyncid m) = None"
  shows "Rpc_Resume pb data rpc sch s = Done (0, rpc, sch, s\<lparr>rpc_msg := m\<rparr>)"
proof -
  have ok': "sched_ok sch" "rpc_scheduler rpc" "distinct (map fst (crid_list rpc))"
      "dom pend = snd ` set (crid_list rpc)" "dom (map_of (coroutine_table sch)) = fst ` set (crid_list rpc)"
    using ok by (simp_all add: rpc_ok_def)
  have "GetCoroutineIdxByAsyncId (rm_asyncid m) rpc = -1"
    using find_no_asyncid [of "rm_asyncid m" "crid_list rpc"] assms(4)
    unfolding ok'(4) [symmetric] by (simp add: GetCoroutineIdxByAsyncId_def domIff)
  moreover have none: "map_of (coroutine_table sch) (-1) = None"
    using sched_okD(2) [OF ok'(1), of "-1"] by (cases "map_of (coroutine_table sch) (-1)") auto
  then have "RemoveByCoroutineId (-1) rpc = rpc"
    using remove_crid_filter [OF ok'(3)] filter_absent [of "-1" "crid_list rpc"]
    unfolding ok'(5) [symmetric] by (simp add: RemoveByCoroutineId_def domIff)
  ultimately show ?thesis
    using none assms(2,3) ok'(1,2) by (simp add: Rpc_Resume_parsed alive_iff)
qed

lemma resumed_step:
  "co_step (RpcFunction_resumed pb ctx) s =
     (case rc_response ctx of
        None \<Rightarrow> Crash AssertFailed
      | Some t \<Rightarrow>
          bindE (rc_callback ctx (rc_request ctx) (snd (reply_of pb t (rpc_msg s)))
                   (fst (reply_of pb t (rpc_msg s))) (rs_world s))
            (\<lambda>w. Done (s\<lparr>rs_world := w\<rparr>, CoEnd)))"
  by (auto simp: co_step_def RpcFunction_resumed_def reply_of_def split: option.splits)

lemma rpc_pending:
  assumes ok: "rpc_ok pb p limit (rpc, sch, s) (pend, seed, w)" and "pend aid = Some ctx"
  obtains crid where "(crid, aid) \<in> set (crid_list rpc)" "GetCoroutineIdxByAsyncId aid rpc = crid"
    "map_of (coroutine_table sch) crid
       = Some \<lparr>co_idx = crid, co_state = COROUTINE_SUSPEND, co_func = RpcFunction_resumed pb ctx\<rparr>"
proof -
  from assms have "aid \<in> snd ` set (crid_list rpc)"
    by (auto simp: rpc_ok_def dom_def)
  then obtain crid where crid: "(crid, aid) \<in> set (crid_list rpc)"
    by auto
  with assms find_asyncid [OF _ crid] that show thesis
    by (auto simp: rpc_ok_def GetCoroutineIdxByAsyncId_def)
qed

lemma rpc_reply_crashes:
  assumes ok: "rpc_ok pb p limit (rpc, sch, s) (pend, seed, w)" and "data \<noteq> View []"
    and "rpc_parse pb data = (m, True)" and pend: "pend (rm_asyncid m) = Some ctx"
    and "co_step (RpcFunction_resumed pb ctx) (s\<lparr>rpc_msg := m\<rparr>) = Crash e"
  shows "Rpc_Resume pb data rpc sch s = Crash e"
proof -
  have ok': "sched_ok sch" "rpc_scheduler rpc"
    using ok by (simp_all add: rpc_ok_def)
  obtain crid where crid: "GetCoroutineIdxByAsyncId (rm_asyncid m) rpc = crid"
      "map_of (coroutine_table sch) crid
         = Some \<lparr>co_idx = crid, co_state = COROUTINE_SUSPEND, co_func = RpcFunction_resumed pb ctx\<rparr>"
    by (rule rpc_pending [OF ok pend])
  with assms ok' ResumeCoroutine_crashes [OF ok'(1) crid(2)] show ?thesis
    by (simp add: Rpc_Resume_parsed alive_iff)
qed

lemma rpc_reply_step:
  assumes ok: "rpc_ok pb p limit (rpc, sch, s) (pend, seed, w)" and "data \<noteq> View []"
    and "rpc_parse pb data = (m, True)" and pend: "pend (rm_asyncid m) = Some ctx"
    and "co_step (RpcFunction_resumed pb ctx) (s\<lparr>rpc_msg := m\<rparr>) = Done (s\<lparr>rpc_msg := m, rs_world := w1\<rparr>, CoEnd)"
  shows "\<exists>c. Rpc_Resume pb data rpc sch s = Done (0, c)
     \<and> rpc_ok pb p limit c (pend(rm_asyncid m := None), seed, w1)"
proof -
  let ?aid = "rm_asyncid m"
  have ok': "sched_ok sch" "rpc_scheduler rpc" "distinct (map fst (crid_list rpc))"
      "distinct (map snd (crid_list rpc))" "dom pend = snd ` set (crid_list rpc)"
      "dom (map_of (coroutine_table sch)) = fst ` set (crid_list rpc)"
    using ok by (simp_all add: rpc_ok_def)
  obtain crid where crid: "(crid, ?aid) \<in> set (crid_list rpc)" "GetCoroutineIdxByAsyncId ?aid rpc = crid"
      "map_of (coroutine_table sch) crid
         = Some \<lparr>co_idx = crid, co_state = COROUTINE_SUSPEND, co_func = RpcFunction_resumed pb ctx\<rparr>"
    by (rule rpc_pending [OF ok pend])
  from assms(5) ResumeCoroutine_runs [OF ok'(1) crid(3)] obtain sch' where
      sch': "ResumeCoroutine crid (s\<lparr>rpc_msg := m\<rparr>) sch = Done (0, s\<lparr>rpc_msg := m, rs_world := w1\<rparr>, sch')"
        "sched_ok sch'" "map_of (coroutine_table sch') = (map_of (coroutine_table sch))(crid := None)"
        "coroutine_max sch' = coroutine_max sch"
    by (fastforce simp: co_after_def)
  let ?l = "filter (\<lambda>cp. fst cp \<noteq> crid) (crid_list rpc)"
  have run: "Rpc_Resume pb data rpc sch s
      = Done (0, rpc\<lparr>crid_list := ?l\<rparr>, sch', s\<lparr>rpc_msg := m, rs_world := w1\<rparr>)"
    using assms(2,3) ok'(1-3) crid(2,3) sch'
    by (simp add: Rpc_Resume_parsed alive_iff RemoveByCoroutineId_def remove_crid_filter)
  have other: "crid' \<noteq> crid \<and> aid \<noteq> ?aid" if "(crid', aid) \<in> set ?l" for crid' aid
    using that find_asyncid [OF ok'(4), of crid ?aid] find_asyncid [OF ok'(4), of crid' ?aid] crid(1) by auto
  have only: "aid = ?aid" if "(crid, aid) \<in> set (crid_list rpc)" for aid
    using that crid(1) eq_key_imp_eq_value [OF ok'(3)] by blast
  have "dom (pend(?aid := None)) = snd ` set ?l"
  proof -
    have "snd ` set ?l = snd ` set (crid_list rpc) - {?aid}"
      using other only by force
    then show ?thesis
      using ok'(5) by simp
  qed
  moreover have "dom (map_of (coroutine_table sch')) = fst ` set ?l"
    using sch'(3) ok'(6) by (auto simp: image_iff)
  moreover have "aid < seed \<and> (\<exists>ctx. (pend(?aid := None)) aid = Some ctx
      \<and> map_of (coroutine_table sch') crid'
          = Some \<lparr>co_idx = crid', co_state = COROUTINE_SUSPEND, co_func = RpcFunction_resumed pb ctx\<rparr>)"
    if "(crid', aid) \<in> set ?l" for crid' aid
    using other [OF that] that ok sch'(3) by (auto simp: rpc_ok_def)
  ultimately have "rpc_ok pb p limit (rpc\<lparr>crid_list := ?l\<rparr>, sch', s\<lparr>rpc_msg := m, rs_world := w1\<rparr>)
      (pend(?aid := None), seed, w1)"
    unfolding rpc_ok_def split using ok sch'(2,4)
    by (simp add: rpc_ok_def distinct_map_filter)
  with run show ?thesis
    by blast
qed

text \<open>The calls and messages of a client, run against the specification.\<close>

fun short_names :: "'m protobuf \<Rightarrow> ('m, 'w) rpc_event \<Rightarrow> bool" where
  "short_names pb (RpcEvCall req resp cb) = (length (pb_name pb req) < MAX_MESSAGE_NAME)"
| "short_names pb (RpcEvMsg data) = True"

lemma rpc_call_crashes:
  assumes ok: "rpc_ok pb p limit (rpc, sch, s) (pend, seed, w)"
    and "card (dom pend) < limit" and "length (pb_name pb req) < MAX_MESSAGE_NAME"
    and send: "send p (request_of pb seed req) w = Crash e"
  shows "RpcCall pb send True True (Some req) resp (Some cb) rpc sch s = Crash e"
proof -
  let ?ctx = "\<lparr>rc_callback = cb, rc_request = req, rc_response = resp\<rparr>"
  let ?f = "RpcFunction pb send (rpc_net rpc) ?ctx"
  have ok': "sched_ok sch" "coroutine_max sch = limit" "rpc_scheduler rpc" "rpc_net rpc = Some p"
      "asyncid_seed s = seed" "rs_world s = w" "0 \<le> cid_seed sch"
    using ok by (simp_all add: rpc_ok_def sched_ok_def)
  have room: "length (coroutine_table sch) < coroutine_max sch"
    using rpc_ok_length [OF ok] assms(2) ok'(2) by simp
  obtain sch1 where sch1: "CreateCoroutine True (Some ?f) sch = (cid_seed sch, sch1)" "sched_ok sch1"
      "map_of (coroutine_table sch1) (cid_seed sch)
         = Some \<lparr>co_idx = cid_seed sch, co_state = COROUTINE_READY, co_func = ?f\<rparr>"
    using CreateCoroutine_new [OF ok'(1) room, of ?f] by auto
  have "co_step ?f s = Crash e"
    using send ok' assms(3) by (simp add: co_step_def RpcFunction_def MessageToBinary_def request_of_def)
  then have "ResumeCoroutine (cid_seed sch) s sch1 = Crash e"
    using ResumeCoroutine_crashes [OF sch1(2,3)] by simp
  then show ?thesis
    using sch1(1) ok' by (simp add: RpcCall_def)
qed

lemma rpc_call_full:
  assumes ok: "rpc_ok pb p limit (rpc, sch, s) (pend, seed, w)" and "limit \<le> card (dom pend)"
  shows "RpcCall pb send True True (Some req) resp (Some cb) rpc sch s = Done (-1, rpc, sch, s)"
  using rpc_ok_length [OF ok] assms(2) ok by (simp add: rpc_ok_def RpcCall_def CreateCoroutine_def)

lemma rpc_ok_msg: "rpc_ok pb p limit (rpc, sch, s) a \<Longrightarrow> rpc_ok pb p limit (rpc, sch, s\<lparr>rpc_msg := m\<rparr>) a"
  by (cases a) (simp add: rpc_ok_def)

text \<open>One event.\<close>

lemma rpc_event_refines:
  assumes ok: "rpc_ok pb p limit c (pend, seed, w)" and "seed \<noteq> - 1" and "short_names pb e"
  shows "case spec_event pb send p limit e (pend, seed, w) of
      Crash err \<Rightarrow> rpc_event_run pb send e c = Crash err
    | Done a \<Rightarrow> \<exists>c'. rpc_event_run pb send e c = Done c' \<and> rpc_ok pb p limit c' a"
proof -
  obtain rpc sch s where c: "c = (rpc, sch, s)"
    by (cases c)
  note ok = ok [unfolded c]
  show ?thesis
  proof (cases e)
    case (RpcEvCall req resp cb)
    show ?thesis
    proof (cases "limit \<le> card (dom pend)")
      case True
      with ok RpcEvCall rpc_call_full [OF ok True] show ?thesis
        by (simp add: c)
    next
      case False
      then have room: "card (dom pend) < limit"
        by simp
      have short: "length (pb_name pb req) < MAX_MESSAGE_NAME"
        using assms(3) RpcEvCall by simp
      show ?thesis
      proof (cases "send p (request_of pb seed req) w")
        case (Done r)
        then obtain ret w1 where send: "send p (request_of pb seed req) w = Done (ret, w1)"
          by (cases r) auto
        from rpc_call_step [where send = send and resp = resp and cb = cb, OF ok assms(2) room short send]
        show ?thesis
          using RpcEvCall room send by (auto simp: c)
      next
        case (Crash err)
        with rpc_call_crashes [where send = send, OF ok room short Crash] show ?thesis
          using RpcEvCall room by (simp add: c)
      qed
    qed
  next
    case (RpcEvMsg data)
    obtain m good where m: "rpc_parse pb data = (m, good)"
      by (cases "rpc_parse pb data")
    have sched: "rpc_scheduler rpc"
      using ok by (simp add: rpc_ok_def)
    consider "data = View [] \<or> \<not> good" | "data \<noteq> View []" "good" "pend (rm_asyncid m) = None"
      | ctx where "data \<noteq> View []" "good" "pend (rm_asyncid m) = Some ctx"
      by fastforce
    then show ?thesis
    proof cases
      case 1
      then have "\<exists>s'. Rpc_Resume pb data rpc sch s = Done (-1, rpc, sch, s') \<and> (s' = s \<or> s' = s\<lparr>rpc_msg := m\<rparr>)"
        using sched m by (auto simp: Rpc_Resume_def UnpackToRpcMsg_def)
      with ok rpc_ok_msg [OF ok] 1 m RpcEvMsg show ?thesis
        by (auto simp: c)
    next
      case 2
      with rpc_unknown_reply [OF ok 2(1) _ 2(3)] rpc_ok_msg [OF ok] m RpcEvMsg show ?thesis
        by (auto simp: c Let_def)
    next
      case 3
      note m = m [unfolded eqTrueI [OF 3(2)]]
      have step: "co_step (RpcFunction_resumed pb ctx) (s\<lparr>rpc_msg := m\<rparr>) =
         (case rc_response ctx of
            None \<Rightarrow> Crash AssertFailed
          | Some t \<Rightarrow>
              bindE (rc_callback ctx (rc_request ctx) (snd (reply_of pb t m)) (fst (reply_of pb t m)) w)
                (\<lambda>w. Done (s\<lparr>rpc_msg := m, rs_world := w\<rparr>, CoEnd)))"
        using ok by (auto simp: resumed_step rpc_ok_def split: option.split)
      show ?thesis
      proof (cases "co_step (RpcFunction_resumed pb ctx) (s\<lparr>rpc_msg := m\<rparr>)")
        case (Crash err)
        have "rc_response ctx = None \<and> err = AssertFailed
            \<or> (\<exists>t. rc_response ctx = Some t
                 \<and> rc_callback ctx (rc_request ctx) (snd (reply_of pb t m)) (fst (reply_of pb t m)) w = Crash err)"
          using step [symmetric] unfolding Crash by (auto simp: bindE_eq_Crash split: option.splits)
        with rpc_reply_crashes [OF ok 3(1) m 3(3) Crash] 3 m RpcEvMsg show ?thesis
          by (auto simp: c Let_def)
      next
        case (Done r)
        obtain t w1 where t: "rc_response ctx = Some t"
            "rc_callback ctx (rc_request ctx) (snd (reply_of pb t m)) (fst (reply_of pb t m)) w = Done w1"
            "r = (s\<lparr>rpc_msg := m, rs_world := w1\<rparr>, CoEnd)"
          using step [symmetric] unfolding Done by (auto simp: bindE_eq_Done split: option.splits)
        with Done rpc_reply_step [OF ok 3(1) m 3(3), of w1] 3 m RpcEvMsg show ?thesis
          by (auto simp: c Let_def)
      qed
    qed
  qed
qed

lemma rpc_refines:
  "rpc_ok pb p limit c (pend, seed, w) \<Longrightarrow> unat seed + length evs < 18446744073709551616 \<Longrightarrow> list_all (short_names pb) evs \<Longrightarrow>
   (case run_events (spec_event pb send p limit) evs (pend, seed, w) of
      Crash err \<Rightarrow> run_events (rpc_event_run pb send) evs c = Crash err
    | Done a \<Rightarrow> \<exists>c'. run_events (rpc_event_run pb send) evs c = Done c' \<and> rpc_ok pb p limit c' a)"
proof (induction evs arbitrary: c pend seed w)
  case (Cons e evs)
  have "seed \<noteq> - 1"
    using Cons.prems(2) by (auto simp: unsigned_minus_1_eq_mask mask_eq_exp_minus_1)
  note step = rpc_event_refines [where send = send, OF Cons.prems(1) this, of e]
  show ?case
  proof (cases "spec_event pb send p limit e (pend, seed, w)")
    case (Crash err)
    with step Cons.prems(3) show ?thesis
      by simp
  next
    case (Done a)
    obtain pend1 seed1 w1 where a: "a = (pend1, seed1, w1)"
      by (cases a)
    with Done step Cons.prems(3) obtain c1 where c1: "rpc_event_run pb send e c = Done c1"
        "rpc_ok pb p limit c1 (pend1, seed1, w1)"
      by auto
    have "unat seed1 \<le> Suc (unat seed)"
    proof -
      have "seed1 = seed \<or> seed1 = seed + 1"
        using Done a by (cases e) (auto simp: Let_def bindE_eq_Done split: if_splits option.splits)
      moreover have "unat (seed + 1) \<le> Suc (unat seed)"
        using unatSuc [of seed] by (cases "1 + seed = 0") (auto simp: add.commute)
      ultimately show ?thesis
        by auto
    qed
    then have "unat seed1 + length evs < 18446744073709551616"
      using Cons.prems(2) by simp
    with Cons.IH [OF c1(2)] Cons.prems(3) Done a c1(1) show ?thesis
      by (auto split: exec.splits)
  qed
qed simp

text \<open>A client that has just been set up.\<close>

lemma rpc_start:
  assumes "0 \<le> cid0"
  shows "rpc_ok pb p limit (snd (EasyRpc_Init True (Some p) EasyRpc_new), CoroutineScheduler limit cid0, s)
     (Map.empty, asyncid_seed s, rs_world s)"
  using assms sched_new [of cid0 limit]
  by (simp add: rpc_ok_def EasyRpc_Init_def EasyRpc_new_def) (simp add: CoroutineScheduler_def)

section \<open>A call and its answer\<close>

text \<open>What the answers of a service are sent as, and what the callback of the call is given.\<close>

fun answer_msg :: "'m protobuf \<Rightarrow> 64 word \<Rightarrow> 'm rpc_answer \<Rightarrow> RpcMessage option" where
  "answer_msg pb asyncid (AnswerDone rsp) =
     Some \<lparr>rm_magic = MAGIC_RPCSTAMP_V1, rm_msg_type = RPC_TYPE_RESPONSE, rm_asyncid = asyncid,
           rm_msg_name = pb_name pb rsp, rm_msg_bin = pb_ser pb rsp\<rparr>"
| "answer_msg pb asyncid AnswerCancel =
     Some \<lparr>rm_magic = MAGIC_RPCSTAMP_V1, rm_msg_type = RPC_TYPE_ERROR, rm_asyncid = asyncid,
           rm_msg_name = [], rm_msg_bin = []\<rparr>"
| "answer_msg pb asyncid AnswerLater = None"

fun answer_status :: "'m rpc_answer \<Rightarrow> int \<times> 'm option" where
  "answer_status (AnswerDone rsp) = (0, Some rsp)"
| "answer_status ans = (-1, None)"

text \<open>The codec gives back the message it was given.\<close>

definition codec_ok :: "'m protobuf \<Rightarrow> RpcMessage \<Rightarrow> bool" where
  "codec_ok pb m = (rpc_ser pb m \<noteq> [] \<and> rpc_parse pb (View (rpc_ser pb m)) = (m, True))"

definition codec_knows :: "'m protobuf \<Rightarrow> 'm \<Rightarrow> bool" where
  "codec_knows pb x = (pb_known pb (pb_name pb x) \<and> length (pb_name pb x) < MAX_MESSAGE_NAME
     \<and> pb_parse pb (pb_name pb x) (pb_ser pb x) = Some x)"

definition request_msg :: "'m protobuf \<Rightarrow> 64 word \<Rightarrow> 'm \<Rightarrow> RpcMessage" where
  "request_msg pb asyncid req = \<lparr>rm_magic = MAGIC_RPCSTAMP_V1, rm_msg_type = RPC_TYPE_REQUEST,
     rm_asyncid = asyncid, rm_msg_name = pb_name pb req, rm_msg_bin = pb_ser pb req\<rparr>"

lemma SpawnMessage_request:
  assumes "codec_ok pb (request_msg pb asyncid req)" and "codec_knows pb req"
  shows "SpawnMessage pb (View (request_of pb asyncid req)) last_msg = (Some req, request_msg pb asyncid req)"
  using assms
  by (simp add: codec_ok_def codec_knows_def SpawnMessage_def UnpackToRpcMsg_def request_of_def
      request_msg_def)

lemma answer_closure_sends:
  assumes "answer_msg pb (cl_async_id cl) ans = Some m"
    and "\<And>rsp. ans = AnswerDone rsp \<Longrightarrow> length (pb_name pb rsp) < MAX_MESSAGE_NAME"
  shows "answer_closure pb cl ans w = bindE (net_Send (cl_net cl) (Some (rpc_ser pb m)) w) (\<lambda>(r, w1). Done w1)"
  using assms
  by (cases ans)
     (auto simp: answer_closure_def Closure_Done_def Closure_Cancel_def MessageToBinary_def RpcErrorToBinary_def)

lemma served:
  assumes "codec_ok pb (request_msg pb asyncid req)" and "codec_knows pb req"
    and "services (pb_name pb req) = Some svc" and "NewResponse svc = Some resp"
    and "OnRpcCall svc req resp w = Done (w1, ans)" and "answer_msg pb asyncid ans = Some m"
    and "\<And>rsp. ans = AnswerDone rsp \<Longrightarrow> length (pb_name pb rsp) < MAX_MESSAGE_NAME"
  shows "fw_OnFrontEndRpcMsg pb (Some services) True net (View (request_of pb asyncid req)) last_msg w
    = bindE (net_Send net (Some (rpc_ser pb m)) w1) (\<lambda>(r, w2). Done (1, request_msg pb asyncid req, w2))"
proof -
  let ?cl = "\<lparr>cl_async_id = asyncid, cl_net = net, cl_req = req, cl_rsp = resp\<rparr>"
  have "answer_closure pb ?cl ans w1
      = bindE (net_Send net (Some (rpc_ser pb m)) w1) (\<lambda>(r, w1). Done w1)"
    using answer_closure_sends [of pb ?cl ans m w1] assms(6,7) by simp
  then show ?thesis
    using assms(3-5) SpawnMessage_request [OF assms(1,2), of last_msg]
    by (simp add: fw_OnFrontEndRpcMsg_def Closure_Set_def request_msg_def bindE_assoc case_prod_unfold)
qed

lemma reply_of_answer:
  assumes "answer_msg pb asyncid ans = Some m"
    and "\<And>rsp. ans = AnswerDone rsp \<Longrightarrow> codec_knows pb rsp \<and> pb_name pb rsp = t"
  shows "reply_of pb t m = answer_status ans" "rm_asyncid m = asyncid"
  using assms by (cases ans; auto simp: reply_of_def codec_knows_def)+

section \<open>Properties\<close>


definition byte_codec :: "nat protobuf" where
  "byte_codec = \<lparr>pb_name = \<lambda>m. ''n'', pb_ser = \<lambda>m. [of_nat m],
     pb_parse = \<lambda>t bs. (case bs of [b] \<Rightarrow> Some (unat b) | _ \<Rightarrow> None), pb_known = \<lambda>t. t = ''n'',
     rpc_ser = \<lambda>m. [of_int (rm_msg_type m), ucast (rm_asyncid m)] @ rm_msg_bin m,
     rpc_parse = \<lambda>v. (case v of
         View (t # i # bs) \<Rightarrow>
           (\<lparr>rm_magic = MAGIC_RPCSTAMP_V1, rm_msg_type = uint t, rm_asyncid = ucast i,
             rm_msg_name = if t = 3 then [] else ''n'', rm_msg_bin = bs\<rparr>, True)
       | _ \<Rightarrow> (\<lparr>rm_magic = 0, rm_msg_type = 0, rm_asyncid = 0, rm_msg_name = [], rm_msg_bin = []\<rparr>, False))\<rparr>"

definition log_send :: "ptr \<Rightarrow> byte list \<Rightarrow> (byte list \<times> int) list \<Rightarrow> (int \<times> (byte list \<times> int) list) exec" where
  "log_send p bs w = Done (0, w @ [(bs, 9)])"

definition log_reply :: "nat \<Rightarrow> nat option \<Rightarrow> int \<Rightarrow> (byte list \<times> int) list \<Rightarrow> (byte list \<times> int) list exec" where
  "log_reply req rsp st w = Done (w @ [(map of_nat (req # (case rsp of None \<Rightarrow> [] | Some x \<Rightarrow> [x])), st)])"

definition log_state :: "(byte list \<times> int) list rpc_state" where
  "log_state = \<lparr>rs_world = [], asyncid_seed = 0, rpc_buf = [],
     rpc_msg = \<lparr>rm_magic = 0, rm_msg_type = 0, rm_asyncid = 0, rm_msg_name = [], rm_msg_bin = []\<rparr>\<rparr>"

definition two_calls :: "(nat, (byte list \<times> int) list) rpc_event list" where
  "two_calls = [RpcEvCall 5 (Some ''n'') log_reply, RpcEvCall 6 (Some ''n'') log_reply,
     RpcEvMsg (View [2, 1, 60]), RpcEvMsg (View [2, 1, 61]), RpcEvMsg (View [3, 0])]"


text \<open>C18. A call and its answer. The server, given the request that the client sent, runs the service of
  the request's type on exactly the request of the call and, when the service answers, sends one reply to
  the connection it came from. The client, given that reply, runs the callback of that call with the
  answer of the service (status 0 and its response, or -1 when it was cancelled), and the other
  calls keep waiting. Protobuf gives back what was encoded, for the messages concerned.\<close>

theorem rpc_round_trip:
  assumes "codec_ok pb (request_msg pb asyncid (rc_request ctx))" and "codec_knows pb (rc_request ctx)"
    and "services (pb_name pb (rc_request ctx)) = Some svc" and "NewResponse svc = Some resp"
    and "OnRpcCall svc (rc_request ctx) resp w = Done (w1, ans)"
    and "answer_msg pb asyncid ans = Some m" and "codec_ok pb m"
    and "\<And>rsp. ans = AnswerDone rsp \<Longrightarrow> codec_knows pb rsp \<and> pb_name pb rsp = t"
    and ok: "rpc_ok pb p limit (rpc, sch, s) (pend, seed, cw)"
    and "pend asyncid = Some ctx" and "rc_response ctx = Some t"
    and "rc_callback ctx (rc_request ctx) (snd (answer_status ans)) (fst (answer_status ans)) cw = Done cw1"
  shows "fw_OnFrontEndRpcMsg pb (Some services) True net
        (View (request_of pb asyncid (rc_request ctx))) last_msg w
      = bindE (net_Send net (Some (rpc_ser pb m)) w1)
          (\<lambda>(r, w2). Done (1, request_msg pb asyncid (rc_request ctx), w2))
    \<and> (\<exists>c. Rpc_Resume pb (View (rpc_ser pb m)) rpc sch s = Done (0, c)
         \<and> rpc_ok pb p limit c (pend(asyncid := None), seed, cw1))"
proof
  show "fw_OnFrontEndRpcMsg pb (Some services) True net
        (View (request_of pb asyncid (rc_request ctx))) last_msg w
      = bindE (net_Send net (Some (rpc_ser pb m)) w1)
          (\<lambda>(r, w2). Done (1, request_msg pb asyncid (rc_request ctx), w2))"
    by (rule served [where req = "rc_request ctx" and services = services and svc = svc, OF assms(1-6)]) (use assms(8) in \<open>auto simp: codec_knows_def\<close>)
next
  note ans = reply_of_answer [OF assms(6,8)]
  have "rs_world s = cw"
    using ok by (simp add: rpc_ok_def)
  then have "co_step (RpcFunction_resumed pb ctx) (s\<lparr>rpc_msg := m\<rparr>)
      = Done (s\<lparr>rpc_msg := m, rs_world := cw1\<rparr>, CoEnd)"
    using assms(11,12) ans(1) by (simp add: resumed_step)
  with rpc_reply_step [OF ok, of "View (rpc_ser pb m)" m ctx cw1] assms(7,10) ans(2)
  show "\<exists>c. Rpc_Resume pb (View (rpc_ser pb m)) rpc sch s = Done (0, c)
         \<and> rpc_ok pb p limit c (pend(asyncid := None), seed, cw1)"
    by (simp add: codec_ok_def)
qed

definition add_service :: "(nat, ('c, 'a) world) IRpcService" where
  "add_service = \<lparr>RpcRequestName = ''n'', NewResponse = Some 0,
     OnRpcCall = \<lambda>req resp w. Done (w, if req = 0 then AnswerCancel else AnswerDone (req + 100))\<rparr>"

text \<open>One call of 5 to a service that adds 100.\<close>

theorem rpc_round_trip_witness:
  "\<exists>c c1 pend. run_events (rpc_event_run byte_codec log_send) [RpcEvCall 5 (Some ''n'') log_reply]
        (snd (EasyRpc_Init True (Some 7) EasyRpc_new), CoroutineScheduler 4 0, log_state) = Done c
      \<and> (\<forall>w :: (unit, unit) world. fw_OnFrontEndRpcMsg byte_codec (Some [''n'' \<mapsto> add_service]) True 3
           (View [1, 0, 5]) (rpc_msg log_state) w
           = bindE (net_Send 3 (Some [2, 0, 105]) w) (\<lambda>(r, w2). Done (1, request_msg byte_codec 0 5, w2)))
      \<and> Rpc_Resume byte_codec (View [2, 0, 105]) (fst c) (fst (snd c)) (snd (snd c)) = Done (0, c1)
      \<and> rpc_ok byte_codec 7 4 c1 (pend, 1, [([1, 0, 5], 9), ([5, 105], 0)]) \<and> pend = Map.empty"
proof -
  let ?ctx = "\<lparr>rc_callback = log_reply, rc_request = 5, rc_response = Some ''n''\<rparr>"
  let ?m = "\<lparr>rm_magic = MAGIC_RPCSTAMP_V1, rm_msg_type = RPC_TYPE_RESPONSE, rm_asyncid = 0,
     rm_msg_name = ''n'', rm_msg_bin = [105]\<rparr>"
  have "case run_events (spec_event byte_codec log_send 7 4) [RpcEvCall 5 (Some ''n'') log_reply] (Map.empty, 0, [])
      of Crash err \<Rightarrow> False | Done a \<Rightarrow> a = ([0 \<mapsto> ?ctx], 1, [([1, 0, 5], 9)])"
    by (simp add: byte_codec_def log_send_def request_of_def)
  then obtain rpc sch s where c: "run_events (rpc_event_run byte_codec log_send) [RpcEvCall 5 (Some ''n'') log_reply]
        (snd (EasyRpc_Init True (Some 7) EasyRpc_new), CoroutineScheduler 4 0, log_state) = Done (rpc, sch, s)"
      "rpc_ok byte_codec 7 4 (rpc, sch, s) ([0 \<mapsto> ?ctx], 1, [([1, 0, 5], 9)])"
    using rpc_refines [where send = log_send, OF rpc_start [of 0 byte_codec 7 4 log_state],
        of "[RpcEvCall 5 (Some ''n'') log_reply]"]
    by (force simp: log_state_def byte_codec_def split: exec.splits)
  have trip: "fw_OnFrontEndRpcMsg byte_codec (Some [''n'' \<mapsto> add_service]) True 3
           (View [1, 0, 5]) (rpc_msg log_state) w
           = bindE (net_Send 3 (Some [2, 0, 105]) w) (\<lambda>(r, w2). Done (1, request_msg byte_codec 0 5, w2))
      \<and> (\<exists>c. Rpc_Resume byte_codec (View [2, 0, 105]) rpc sch s = Done (0, c)
         \<and> rpc_ok byte_codec 7 4 c (Map.empty, 1, [([1, 0, 5], 9), ([5, 105], 0)]))" for w :: "(unit, unit) world"
    using rpc_round_trip [of byte_codec 0 ?ctx "[''n'' \<mapsto> add_service]" add_service 0 w w "AnswerDone 105" ?m "''n''"
        7 4 rpc sch s "[0 \<mapsto> ?ctx]" 1 "[([1, 0, 5], 9)]" "[([1, 0, 5], 9), ([5, 105], 0)]" 3 "rpc_msg log_state"] c(2)
    by (simp add: codec_ok_def codec_knows_def byte_codec_def add_service_def request_msg_def request_of_def
        log_reply_def)
  then show ?thesis
    using c(1) by force
qed

end
