(* ===== verification/Decimal.thy ===== *)
theory Decimal
  imports Prelude
begin

text \<open>
  \<open>printf("%d")\<close> and its inverses \<open>atoi\<close> and \<open>strtol\<close> with base 0, which the
  pid file, the control socket file and the JSON writer rest on.
\<close>

section \<open>Printing\<close>

definition digit_char :: "nat \<Rightarrow> char" where
  "digit_char d = char_of (48 + d)"

fun dec_nat :: "nat \<Rightarrow> string" where
  "dec_nat n = (if n < 10 then [digit_char n] else dec_nat (n div 10) @ [digit_char (n mod 10)])"

declare dec_nat.simps [simp del]

definition dec_int :: "int \<Rightarrow> string" where
  "dec_int i = (if i < 0 then CHR ''-'' # dec_nat (nat (- i)) else dec_nat (nat i))"

section \<open>Reading with a base\<close>

text \<open>\<open>strtol(s, NULL, 0)\<close>: blanks, a sign, the prefix \<open>0x\<close> for 16 (when a digit
  follows) or \<open>0\<close> for 8, the digits, clamped to \<open>long\<close>.\<close>

definition base_digit :: "char \<Rightarrow> nat option" where
  "base_digit c =
     (let n = of_char c :: nat in
      if 48 \<le> n \<and> n \<le> 57 then Some (n - 48)
      else if 65 \<le> n \<and> n \<le> 70 then Some (n - 55)
      else if 97 \<le> n \<and> n \<le> 102 then Some (n - 87)
      else None)"

definition is_base_digit :: "nat \<Rightarrow> char \<Rightarrow> bool" where
  "is_base_digit b c = (case base_digit c of None \<Rightarrow> False | Some d \<Rightarrow> d < b)"

definition base_val :: "nat \<Rightarrow> string \<Rightarrow> int" where
  "base_val b s =
     foldl (\<lambda>v c. int b * v + int (case base_digit c of None \<Rightarrow> 0 | Some d \<Rightarrow> d)) 0
       (takeWhile (is_base_digit b) s)"

definition prefixed_val :: "string \<Rightarrow> int" where
  "prefixed_val s =
     (case s of
        CHR ''0'' # x # d # r \<Rightarrow>
          if (x = CHR ''x'' \<or> x = CHR ''X'') \<and> is_base_digit 16 d then base_val 16 (d # r) else base_val 8 s
      | CHR ''0'' # r \<Rightarrow> base_val 8 s
      | _ \<Rightarrow> base_val 10 s)"

definition strtol0 :: "string \<Rightarrow> int" where
  "strtol0 s =
     (let t = dropWhile is_space s;
          v = (case t of
                 [] \<Rightarrow> 0
               | c # r \<Rightarrow> if c = CHR ''-'' then - prefixed_val r
                         else if c = CHR ''+'' then prefixed_val r
                         else prefixed_val t)
      in max (- 9223372036854775808) (min 9223372036854775807 v))"

section \<open>Round trips\<close>

lemma digit_code [simp]: "d < 10 \<Longrightarrow> (of_char (digit_char d) :: nat) = 48 + d"
  by (simp add: digit_char_def)

lemma digit_char_props:
  assumes "d < 10"
  shows "is_digit (digit_char d)" "digit_val (digit_char d) = int d" "\<not> is_space (digit_char d)"
    "is_base_digit 10 (digit_char d)" "base_digit (digit_char d) = Some d"
    "digit_char d \<noteq> CHR ''-''" "digit_char d \<noteq> CHR ''+''" "digit_char d = CHR ''0'' \<longleftrightarrow> d = 0"
proof -
  have code: "(of_char (digit_char d) :: nat) = 48 + d"
    using assms by simp
  show "is_digit (digit_char d)" "digit_val (digit_char d) = int d" "\<not> is_space (digit_char d)"
    "base_digit (digit_char d) = Some d" "is_base_digit 10 (digit_char d)"
    unfolding is_digit_def digit_val_def is_space_def base_digit_def is_base_digit_def code
    using assms by (simp_all add: Let_def)
  have "digit_char d \<noteq> c" if "(of_char c :: nat) < 48" for c
    using code that by auto
  then show "digit_char d \<noteq> CHR ''-''" "digit_char d \<noteq> CHR ''+''"
    by simp_all
  have "(of_char (CHR ''0'') :: nat) = 48"
    by simp
  then show "digit_char d = CHR ''0'' \<longleftrightarrow> d = 0"
    using code by (metis add.right_neutral add_left_imp_eq of_char_eq_iff)
qed

lemma dec_nat_digits: "c \<in> set (dec_nat n) \<Longrightarrow> \<exists>d<10. c = digit_char d"
proof (induction n arbitrary: c rule: dec_nat.induct)
  case (1 n)
  show ?case
  proof (cases "n < 10")
    case True
    with "1.prems" show ?thesis
      by (auto simp: dec_nat.simps [of n])
  next
    case False
    with "1.prems" have "c \<in> set (dec_nat (n div 10)) \<or> c = digit_char (n mod 10)"
      by (auto simp: dec_nat.simps [of n])
    with "1.IH" [OF False] show ?thesis
      by (metis mod_less_divisor zero_less_numeral)
  qed
qed

lemma dec_nat_head:
  "\<exists>d r. dec_nat n = digit_char d # r \<and> d < 10 \<and> (d = 0 \<longleftrightarrow> n = 0)"
proof (induction n rule: dec_nat.induct)
  case (1 n)
  show ?case
  proof (cases "n < 10")
    case True
    then have "dec_nat n = digit_char n # []"
      by (simp add: dec_nat.simps [of n])
    with True show ?thesis
      by blast
  next
    case False
    obtain d r where "dec_nat (n div 10) = digit_char d # r" "d < 10" "d = 0 \<longleftrightarrow> n div 10 = 0"
      using 1 [OF False] by (elim exE conjE)
    with False show ?thesis
      by (auto simp: dec_nat.simps [of n])
  qed
qed

lemma ten_split: "10 * int (n div 10) + int (n mod 10) = int n"
  by (metis int_ops(7) mult_div_mod_eq of_nat_add of_nat_numeral)

lemma dec_nat_val: "foldl (\<lambda>v c. 10 * v + digit_val c) 0 (dec_nat n) = int n"
proof (induction n rule: dec_nat.induct)
  case (1 n)
  then show ?case
    by (cases "n < 10") (simp_all add: dec_nat.simps [of n] digit_char_props(2) ten_split)
qed

lemma dec_nat_base:
  "foldl (\<lambda>v c. int 10 * v + int (case base_digit c of None \<Rightarrow> 0 | Some d \<Rightarrow> d)) 0 (dec_nat n) = int n"
proof (induction n rule: dec_nat.induct)
  case (1 n)
  then show ?case
    by (cases "n < 10") (simp_all add: dec_nat.simps [of n] digit_char_props(5) ten_split)
qed

lemma digits_val_dec:
  assumes "rest = [] \<or> \<not> is_digit (hd rest)"
  shows "digits_val (dec_nat n @ rest) = int n"
proof -
  have "takeWhile is_digit (dec_nat n @ rest) = dec_nat n @ takeWhile is_digit rest"
    by (rule takeWhile_through) (use dec_nat_digits digit_char_props(1) in blast)
  moreover have "takeWhile is_digit rest = []"
    using assms by (cases rest) auto
  ultimately show ?thesis
    by (simp add: digits_val_def dec_nat_val)
qed

lemma base_val_dec:
  assumes "rest = [] \<or> \<not> is_base_digit 10 (hd rest)"
  shows "base_val 10 (dec_nat n @ rest) = int n"
proof -
  have "takeWhile (is_base_digit 10) (dec_nat n @ rest) = dec_nat n @ takeWhile (is_base_digit 10) rest"
    by (rule takeWhile_through) (use dec_nat_digits digit_char_props(4) in blast)
  moreover have "takeWhile (is_base_digit 10) rest = []"
    using assms by (cases rest) auto
  ultimately show ?thesis
    using dec_nat_base [of n] by (simp add: base_val_def)
qed

text \<open>A positive number without leading zero is read back in base 10.\<close>

lemma strtol0_dec:
  assumes "0 < n" and "n < 9223372036854775808" and "rest = [] \<or> \<not> is_base_digit 10 (hd rest)"
  shows "strtol0 (dec_nat n @ rest) = int n"
proof -
  obtain d r where d: "dec_nat n = digit_char d # r" "d < 10" "d \<noteq> 0"
    using dec_nat_head [of n] assms(1) by auto
  note c = digit_char_props [OF d(2)]
  have "prefixed_val (digit_char d # x) = base_val 10 (digit_char d # x)" for x
    using c(8) d(3) unfolding prefixed_val_def by (cases "digit_char d = CHR ''0''") (auto split: char.splits bool.splits)
  then have "prefixed_val (dec_nat n @ rest) = int n"
    using base_val_dec [OF assms(3), of n] d(1) by simp
  then show ?thesis
    using c(3,6,7) d(1) assms(2) by (simp add: strtol0_def Let_def)
qed

lemma dec_nat_length: "n < 10 ^ k \<Longrightarrow> 0 < k \<Longrightarrow> length (dec_nat n) \<le> k"
proof (induction k arbitrary: n)
  case (Suc k)
  show ?case
  proof (cases "n < 10")
    case True
    then show ?thesis
      by (simp add: dec_nat.simps [of n])
  next
    case False
    with Suc.prems have "n div 10 < 10 ^ k" "0 < k"
      by (cases k; simp)+
    with Suc.IH [of "n div 10"] False show ?thesis
      by (simp add: dec_nat.simps [of n])
  qed
qed simp

end
