(* ===== verification/AppInit.thy ===== *)
theory AppInit
  imports Framework Decimal
begin

text \<open>
  The start of an application, \<open>AppFrameWork::Init\<close> and what it calls
  (\<open>framework/rapidapp_framework_imp.cpp\<close>): pid file, configuration text, control socket
  file, the order of the steps and the start, stop, restart and reload modes. The pid file's
  content and lock are explicit state, so that what one process writes is what another reads; the
  other system calls are answers, and the signal table is part of the state. Descriptors and streams
  that are not closed again and the log library are not modelled.
\<close>

section \<open>State\<close>

text \<open>Files by name; \<open>fs_lock\<close> is the process that holds the write lock on a file.\<close>

record file_sys =
  fs_content :: "string \<rightharpoonup> string"
  fs_lock :: "string \<rightharpoonup> int"

record boot_flags = flags +
  FLAGS_daemon :: bool
  FLAGS_cfg_file :: string
  FLAGS_max_cocurrent_rpc :: int

record boot_answers =
  own_pid :: int
  fork_first :: int
  setsid_rc :: int
  fork_second :: int
  cfg_open :: bool
  cfg_seek :: bool
  cfg_alloc :: bool
  cfg_read :: bool
  pid_open :: bool
  pid_cloexec :: bool
  nofile_cur :: "int option"
  nofile_set :: bool
  evbase_new :: bool
  fps_event_new :: bool
  fps_event_add :: bool
  udp_socket :: int
  udp_bind :: bool
  udp_bev :: bool
  sock_open :: bool
  sock_cloexec :: bool
  listen_new :: bool
  front_alloc :: bool
  back_alloc :: bool
  sched_alloc :: bool
  boot_time :: int
  debug_build :: bool

text \<open>What a process does when a signal arrives.\<close>

datatype sig_action = SIG_DFL | SIG_IGN | signal_stop_handler | signal_reload_handler

record ('c, 'a) boot =
  boot_world :: "('c, 'a) world"
  boot_fs :: file_sys
  boot_sched :: "int option"
  boot_signals :: "(int \<times> signal) list"
  boot_sigs :: "signal \<Rightarrow> sig_action"

text \<open>The framework object as its constructor leaves it, in a process that has done nothing yet. The
  time is set at the end of \<open>Init\<close>, and nothing reads it before.\<close>

definition AppFrameWork_new :: "answers \<Rightarrow> 'a \<Rightarrow> ('c, 'a) world" where
  "AppFrameWork_new e app =
     \<lparr>net_heap = heap0, frontend_mgr = NetHandlerMgr_new, backend_mgr = NetHandlerMgr_new,
      timer_mgr = TimerMgr_new, app_state = app, now_time = 0, setting = AppSetting_zero,
      running = False, reloading = False, schedule_update = False, svc_mode = SVC_MODE_NORMAL,
      ctrl_msg = replicate 2048 NUL, ctrl_dispatcher = Map.empty, cfg_string = [], env = e\<rparr>"

definition boot_new :: "answers \<Rightarrow> 'a \<Rightarrow> file_sys \<Rightarrow> ('c, 'a) boot" where
  "boot_new e app fs =
     \<lparr>boot_world = AppFrameWork_new e app, boot_fs = fs, boot_sched = None, boot_signals = [],
      boot_sigs = (\<lambda>_. SIG_DFL)\<rparr>"

section \<open>The pid file\<close>

text \<open>\<open>fgets\<close> of at most \<open>n - 1\<close> characters: up to and with the first newline.\<close>

definition fgets :: "nat \<Rightarrow> string \<Rightarrow> string option" where
  "fgets n s =
     (let t = take (n - 1) s;
          line = takeWhile (\<lambda>c. c \<noteq> CHR 0x0A) t
      in if t = [] then None else Some (take (length line + 1) t))"

definition locked_by_other :: "int \<Rightarrow> string \<Rightarrow> file_sys \<Rightarrow> bool" where
  "locked_by_other me f fs = (case fs_lock fs f of None \<Rightarrow> False | Some q \<Rightarrow> q \<noteq> me)"

text \<open>\<open>fclose\<close> gives up every lock the process has on the file.\<close>

definition drop_lock :: "int \<Rightarrow> string \<Rightarrow> file_sys \<Rightarrow> file_sys" where
  "drop_lock me f fs = (if fs_lock fs f = Some me then fs\<lparr>fs_lock := (fs_lock fs)(f := None)\<rparr> else fs)"

text \<open>The end of a process gives up all its locks.\<close>

definition process_exit :: "int \<Rightarrow> file_sys \<Rightarrow> file_sys" where
  "process_exit me fs = fs\<lparr>fs_lock := (\<lambda>f. if fs_lock fs f = Some me then None else fs_lock fs f)\<rparr>"

text \<open>\<open>SetPidFile\<close>: the result of \<open>open\<close> in append mode is an existing file.\<close>

definition SetPidFile :: "boot_answers \<Rightarrow> AppSetting \<Rightarrow> file_sys \<Rightarrow> int \<times> file_sys" where
  "SetPidFile a s fs =
     (let f = pid_file_name s in
      if \<not> pid_open a then (-1, fs)
      else
        (let fs1 = (if fs_content fs f = None then fs\<lparr>fs_content := (fs_content fs)(f \<mapsto> [])\<rparr> else fs) in
         if \<not> pid_cloexec a then (-1, fs1)
         else if locked_by_other (own_pid a) f fs1 then (-1, fs1)
         else (0, fs1\<lparr>fs_content := (fs_content fs1)(f \<mapsto> dec_int (own_pid a) @ [CHR 0x0A]),
                      fs_lock := (fs_lock fs1)(f \<mapsto> own_pid a)\<rparr>)))"

definition GetRunningPid :: "boot_answers \<Rightarrow> AppSetting \<Rightarrow> file_sys \<Rightarrow> int \<times> file_sys" where
  "GetRunningPid a s fs =
     (let f = pid_file_name s in
      case fs_content fs f of
        None \<Rightarrow> (-1, fs)
      | Some text \<Rightarrow>
          if \<not> pid_open a then (-1, fs)
          else if \<not> pid_cloexec a then (-1, drop_lock (own_pid a) f fs)
          else if \<not> locked_by_other (own_pid a) f fs then (0, drop_lock (own_pid a) f fs)
          else
            (case fgets 1024 text of
               None \<Rightarrow> (-1, fs)
             | Some line \<Rightarrow> (sint (word_of_int (strtol0 line) :: cint), fs)))"

section \<open>The other steps\<close>

text \<open>\<open>MakeDaemon\<close>: the exit code of the processes that stop there, \<open>None\<close> for the
  one that goes on. A \<open>fork\<close> that fails ends the process with 0 as well.\<close>

definition MakeDaemon :: "boot_answers \<Rightarrow> int option" where
  "MakeDaemon a =
     (if fork_first a \<noteq> 0 then Some 0
      else if setsid_rc a = -1 then Some (-1)
      else if fork_second a \<noteq> 0 then Some 0
      else None)"

definition GetConfString :: "boot_answers \<Rightarrow> boot_flags \<Rightarrow> file_sys \<Rightarrow> string \<Rightarrow> int \<times> string" where
  "GetConfString a fl fs cfg =
     (if FLAGS_cfg_file fl = [] then (0, cfg)
      else
        (case fs_content fs (FLAGS_cfg_file fl) of
           None \<Rightarrow> (-1, cfg)
         | Some text \<Rightarrow>
             if \<not> cfg_open a \<or> \<not> cfg_seek a \<or> \<not> cfg_alloc a \<or> \<not> cfg_read a then (-1, cfg)
             else (0, text)))"

definition udp_host :: "boot_answers \<Rightarrow> string" where
  "udp_host a = (if debug_build a then ''127.0.0.1'' else ''0.0.0.0'')"

text \<open>\<open>SetCtrlSockFile\<close>: the control socket, and the file that tells where it is.\<close>

definition SetCtrlSockFile :: "boot_answers \<Rightarrow> AppSetting \<Rightarrow> file_sys \<Rightarrow> int \<times> file_sys" where
  "SetCtrlSockFile a s fs =
     (let f = ctrl_sock_file_name s; port = ctrl_port f in
      if udp_socket a < 0 then (-1, fs)
      else if \<not> udp_bind a then (-1, fs)
      else if \<not> udp_bev a then (-1, fs)
      else if \<not> sock_open a then (-1, fs)
      else if \<not> sock_cloexec a then (-1, fs\<lparr>fs_content := (fs_content fs)(f \<mapsto> [])\<rparr>)
      else (0, fs\<lparr>fs_content := (fs_content fs)
                 (f \<mapsto> udp_host a @ '' '' @ dec_int port @ [CHR 0x0A])\<rparr>))"

definition InitSignalHandle :: "(signal \<Rightarrow> sig_action) \<Rightarrow> signal \<Rightarrow> sig_action" where
  "InitSignalHandle table =
     table(SIGHUP := SIG_IGN, SIGPIPE := SIG_IGN, SIGCHLD := SIG_IGN,
           SIGTERM := signal_stop_handler, SIGINT := signal_stop_handler, SIGQUIT := signal_stop_handler,
           SIGUSR1 := signal_stop_handler, SIGUSR2 := signal_reload_handler)"

text \<open>\<open>SetFpsTimer\<close>: the result; the period is \<open>fps_timeval\<close>.\<close>

definition SetFpsTimer :: "boot_answers \<Rightarrow> int" where
  "SetFpsTimer a = (if \<not> fps_event_new a then -1 else if \<not> fps_event_add a then -1 else 0)"

section \<open>Init\<close>

text \<open>Steps that return a code and the new state, run until one fails.\<close>

fun boot_steps :: "('s \<Rightarrow> int \<times> 's) list \<Rightarrow> 's \<Rightarrow> int \<times> 's" where
  "boot_steps [] b = (0, b)"
| "boot_steps (f # fs) b = (case f b of (ret, b1) \<Rightarrow> if ret \<noteq> 0 then (-1, b1) else boot_steps fs b1)"

abbreviation (input) DEFAULT_MAX_FD_LIMIT :: int where "DEFAULT_MAX_FD_LIMIT \<equiv> 10240"
abbreviation (input) DEFAULT_MAX_TIMER_NUM :: nat where "DEFAULT_MAX_TIMER_NUM \<equiv> 1048576"

definition boot_setting :: "('c, 'a) boot \<Rightarrow> AppSetting" where
  "boot_setting b = setting (boot_world b)"

definition step_conf :: "boot_answers \<Rightarrow> boot_flags \<Rightarrow> ('c, 'a) boot \<Rightarrow> int \<times> ('c, 'a) boot" where
  "step_conf a fl b =
     (case GetConfString a fl (boot_fs b) (cfg_string (boot_world b)) of
        (ret, cfg) \<Rightarrow> (ret, b\<lparr>boot_world := (boot_world b)\<lparr>cfg_string := cfg\<rparr>\<rparr>))"

definition step_pid :: "boot_answers \<Rightarrow> ('c, 'a) boot \<Rightarrow> int \<times> ('c, 'a) boot" where
  "step_pid a b = (case SetPidFile a (boot_setting b) (boot_fs b) of (ret, fs) \<Rightarrow> (ret, b\<lparr>boot_fs := fs\<rparr>))"

definition step_signal :: "('c, 'a) boot \<Rightarrow> int \<times> ('c, 'a) boot" where
  "step_signal b = (0, b\<lparr>boot_sigs := InitSignalHandle (boot_sigs b)\<rparr>)"

definition step_limit :: "boot_answers \<Rightarrow> ('c, 'a) boot \<Rightarrow> int \<times> ('c, 'a) boot" where
  "step_limit a b =
     (if debug_build a then (0, b)
      else (fst (SetResourceLimit DEFAULT_MAX_FD_LIMIT (nofile_cur a) (nofile_set a)), b))"

definition step_evbase :: "boot_answers \<Rightarrow> ('c, 'a) boot \<Rightarrow> int \<times> ('c, 'a) boot" where
  "step_evbase a b = (if evbase_new a then 0 else -1, b)"

definition step_fps :: "boot_answers \<Rightarrow> ('c, 'a) boot \<Rightarrow> int \<times> ('c, 'a) boot" where
  "step_fps a b = (SetFpsTimer a, b)"

definition step_ctrl :: "boot_answers \<Rightarrow> ('c, 'a) boot \<Rightarrow> int \<times> ('c, 'a) boot" where
  "step_ctrl a b =
     (let w = boot_world b;
          b1 = b\<lparr>boot_world := w\<lparr>ctrl_dispatcher := AddDefaultSupportedCommand (ctrl_dispatcher w)\<rparr>\<rparr>
      in case SetCtrlSockFile a (boot_setting b1) (boot_fs b1) of (ret, fs) \<Rightarrow> (ret, b1\<lparr>boot_fs := fs\<rparr>))"

definition step_listen :: "boot_answers \<Rightarrow> ('c, 'a) boot \<Rightarrow> int \<times> ('c, 'a) boot" where
  "step_listen a b =
     (case InitListenerServiceMode (listen_new a) (boot_world b) of (ret, w) \<Rightarrow> (ret, b\<lparr>boot_world := w\<rparr>))"

definition step_front :: "boot_answers \<Rightarrow> 64 word \<Rightarrow> ('c, 'a) boot \<Rightarrow> int \<times> ('c, 'a) boot" where
  "step_front a max_msg b =
     (case NetHandlerMgr_Init (front_alloc a) (unat (2 * max_msg)) (frontend_mgr (boot_world b)) of
        (ret, m) \<Rightarrow> (ret, b\<lparr>boot_world := (boot_world b)\<lparr>frontend_mgr := m\<rparr>\<rparr>))"

definition step_back :: "boot_answers \<Rightarrow> 64 word \<Rightarrow> ('c, 'a) boot \<Rightarrow> int \<times> ('c, 'a) boot" where
  "step_back a max_msg b =
     (case NetHandlerMgr_Init (back_alloc a) (unat (2 * max_msg)) (backend_mgr (boot_world b)) of
        (ret, m) \<Rightarrow> (ret, b\<lparr>boot_world := (boot_world b)\<lparr>backend_mgr := m\<rparr>\<rparr>))"

definition step_timers :: "('c, 'a) boot \<Rightarrow> int \<times> ('c, 'a) boot" where
  "step_timers b =
     (case TimerMgr_Init DEFAULT_MAX_TIMER_NUM (timer_mgr (boot_world b)) of
        (ret, m) \<Rightarrow> (ret, b\<lparr>boot_world := (boot_world b)\<lparr>timer_mgr := m\<rparr>\<rparr>))"

definition step_rpc :: "boot_answers \<Rightarrow> boot_flags \<Rightarrow> ('c, 'a) boot \<Rightarrow> int \<times> ('c, 'a) boot" where
  "step_rpc a fl b =
     (if sched_alloc a then (0, b\<lparr>boot_sched := Some (FLAGS_max_cocurrent_rpc fl)\<rparr>) else (-1, b))"

definition step_now :: "boot_answers \<Rightarrow> ('c, 'a) boot \<Rightarrow> int \<times> ('c, 'a) boot" where
  "step_now a b = (0, b\<lparr>boot_world := (boot_world b)\<lparr>now_time := boot_time a\<rparr>\<rparr>)"

datatype boot_result = BootExit int | BootRet int

text \<open>\<open>InitNormalMode\<close>; the arguments after the flags are \<open>GetFrontEndMaxMsgSize\<close> and
  \<open>GetBackEndMaxMsgSize\<close> of the application. \<open>own_pid\<close> is the pid after the forks.\<close>

definition InitNormalMode ::
    "boot_answers \<Rightarrow> boot_flags \<Rightarrow> 64 word \<Rightarrow> 64 word \<Rightarrow> ('c, 'a) boot \<Rightarrow> boot_result \<times> ('c, 'a) boot" where
  "InitNormalMode a fl fmax bmax b =
     (case (if FLAGS_daemon fl then MakeDaemon a else None) of
        Some code \<Rightarrow> (BootExit code, b)
      | None \<Rightarrow>
          (case boot_steps [step_conf a fl, step_pid a, step_signal, step_limit a, step_evbase a, step_fps a, step_ctrl a,
                            step_listen a, step_front a fmax, step_back a bmax, step_timers,
                            step_rpc a fl, step_now a] b of
             (ret, b1) \<Rightarrow> (BootRet ret, b1)))"

text \<open>
  \<open>Init\<close>; \<open>argv0\<close> is the program name. \<open>Init_command\<close> is what comes before
  \<open>InitNormalMode\<close>: the flags, and the signal to a running instance; the result is
  \<open>None\<close> when it goes on.
\<close>

definition Init_command ::
    "boot_answers \<Rightarrow> boot_flags \<Rightarrow> string \<Rightarrow> ('c, 'a) boot \<Rightarrow> boot_result option \<times> ('c, 'a) boot" where
  "Init_command a fl argv0 b =
     (case ParseCmdLine (flags.truncate fl) argv0 (boot_setting b) of
        (ret, s) \<Rightarrow>
          let b1 = b\<lparr>boot_world := (boot_world b)\<lparr>setting := s\<rparr>\<rparr> in
          if ret \<noteq> 0 then (Some (BootRet (-1)), b1)
          else
            (case (if app_mode s = APP_START then (0, boot_fs b1) else GetRunningPid a s (boot_fs b1)) of
               (pid, fs) \<Rightarrow>
                 (case Init_mode (app_mode s) pid of
                    (sent, stop) \<Rightarrow>
                      (map_option BootExit stop,
                       b1\<lparr>boot_fs := fs,
                          boot_signals := boot_signals b1 @ (case sent of None \<Rightarrow> [] | Some x \<Rightarrow> [x])\<rparr>))))"

definition fw_Init ::
    "boot_answers \<Rightarrow> boot_flags \<Rightarrow> string \<Rightarrow> 64 word \<Rightarrow> 64 word \<Rightarrow> ('c, 'a) boot
     \<Rightarrow> boot_result \<times> ('c, 'a) boot" where
  "fw_Init a fl argv0 fmax bmax b =
     (case Init_command a fl argv0 b of
        (Some r, b1) \<Rightarrow> (r, b1)
      | (None, b1) \<Rightarrow> InitNormalMode a fl fmax bmax b1)"

section \<open>Facts\<close>

lemma digit_not_newline: "d < 10 \<Longrightarrow> digit_char d \<noteq> CHR 0x0A"
proof -
  assume "d < 10"
  then have "(of_char (digit_char d) :: nat) \<noteq> of_char (CHR 0x0A)"
    by simp
  then show ?thesis
    by metis
qed

lemma fgets_line:
  assumes "CHR 0x0A \<notin> set s" and "length s < n - 1"
  shows "fgets n (s @ [CHR 0x0A]) = Some (s @ [CHR 0x0A])"
proof -
  have "takeWhile (\<lambda>c. c \<noteq> CHR 0x0A) (s @ [CHR 0x0A]) = s"
    using assms(1) by (auto intro: takeWhile_stop)
  then show ?thesis
    using assms(2) by (simp add: fgets_def)
qed

text \<open>The pid file of a running process.\<close>

definition held_by :: "int \<Rightarrow> string \<Rightarrow> file_sys \<Rightarrow> bool" where
  "held_by p f fs = (fs_lock fs f = Some p \<and> fs_content fs f = Some (dec_int p @ [CHR 0x0A]))"

lemma SetPidFile_held:
  "SetPidFile a s fs = (0, fs1) \<Longrightarrow> held_by (own_pid a) (pid_file_name s) fs1"
  by (auto simp: SetPidFile_def held_by_def Let_def split: if_splits)

lemma pid_line:
  assumes "0 < p" and "p < 2147483648"
  shows "fgets 1024 (dec_int p @ [CHR 0x0A]) = Some (dec_int p @ [CHR 0x0A])"
    "sint (word_of_int (strtol0 (dec_int p @ [CHR 0x0A])) :: cint) = p"
proof -
  have dec: "dec_int p = dec_nat (nat p)"
    using assms by (simp add: dec_int_def)
  have "CHR 0x0A \<notin> set (dec_nat (nat p))"
    using dec_nat_digits [of "CHR 0x0A"] digit_not_newline by metis
  moreover have "length (dec_nat (nat p)) \<le> 10"
    by (rule dec_nat_length) (use assms in simp_all)
  ultimately show "fgets 1024 (dec_int p @ [CHR 0x0A]) = Some (dec_int p @ [CHR 0x0A])"
    unfolding dec by (intro fgets_line) simp_all
  have "\<not> is_base_digit 10 (CHR 0x0A)"
    by (simp add: is_base_digit_def base_digit_def Let_def)
  then have "strtol0 (dec_nat (nat p) @ [CHR 0x0A]) = int (nat p)"
    by (intro strtol0_dec) (use assms in simp_all)
  then show "sint (word_of_int (strtol0 (dec_int p @ [CHR 0x0A])) :: cint) = p"
    using int_of_size_small [of "nat p"] assms unfolding dec by (simp add: int_of_size_def)
qed

lemma GetRunningPid_held:
  assumes "held_by p (pid_file_name s) fs" and "0 < p" and "p < 2147483648"
    and "own_pid c \<noteq> p" and "pid_open c" and "pid_cloexec c"
  shows "GetRunningPid c s fs = (p, fs)"
  using assms pid_line [OF assms(2,3)]
  by (simp add: GetRunningPid_def held_by_def locked_by_other_def Let_def)

lemma SetPidFile_refused:
  assumes "held_by p (pid_file_name s) fs" and "own_pid c \<noteq> p"
  shows "SetPidFile c s fs = (-1, fs)"
  using assms by (simp add: SetPidFile_def held_by_def locked_by_other_def Let_def)

lemma exit_releases:
  assumes "held_by p f fs"
  shows "fs_lock (process_exit p fs) f = None" "fs_content (process_exit p fs) f = Some (dec_int p @ [CHR 0x0A])"
  using assms by (simp_all add: process_exit_def held_by_def)

section \<open>Properties\<close>

text \<open>The pid file tells whether an instance runs: after one process has set it, every other
  process reads that process's pid from it and cannot set it itself, and the file is left as it is; once
  the holder has ended, the file counts as free, whatever it still contains, and the next process can
  set it.\<close>

theorem pid_file_single_instance:
  assumes "SetPidFile a s fs = (0, fs1)" and "0 < own_pid a" and "own_pid a < 2147483648"
    and "pid_file_name t = pid_file_name s"
    and "own_pid c \<noteq> own_pid a" and "pid_open c" and "pid_cloexec c"
  shows "GetRunningPid c t fs1 = (own_pid a, fs1) \<and> SetPidFile c t fs1 = (-1, fs1)
    \<and> GetRunningPid c t (process_exit (own_pid a) fs1) = (0, process_exit (own_pid a) fs1)
    \<and> fst (SetPidFile c t (process_exit (own_pid a) fs1)) = 0"
proof -
  have held: "held_by (own_pid a) (pid_file_name t) fs1"
    using SetPidFile_held [OF assms(1)] assms(4) by simp
  note free = exit_releases [OF held]
  show ?thesis
    using GetRunningPid_held [OF held assms(2,3,5-7)] SetPidFile_refused [OF held assms(5)] free assms(6,7)
    by (simp add: GetRunningPid_def SetPidFile_def locked_by_other_def drop_lock_def Let_def)
qed

definition boot_ok :: "int \<Rightarrow> boot_answers" where
  "boot_ok p = \<lparr>own_pid = p, fork_first = 0, setsid_rc = 1, fork_second = 0, cfg_open = True, cfg_seek = True,
     cfg_alloc = True, cfg_read = True, pid_open = True, pid_cloexec = True, nofile_cur = Some 1024,
     nofile_set = True, evbase_new = True, fps_event_new = True, fps_event_add = True, udp_socket = 3,
     udp_bind = True, udp_bev = True, sock_open = True, sock_cloexec = True, listen_new = True,
     front_alloc = True, back_alloc = True, sched_alloc = True, boot_time = 1000, debug_build = False\<rparr>"

definition fs_empty :: file_sys where
  "fs_empty = \<lparr>fs_content = Map.empty, fs_lock = Map.empty\<rparr>"

definition app_setting :: AppSetting where
  "app_setting = AppSetting_zero\<lparr>pid_file_name := ''app.pid''\<rparr>"

theorem pid_file_single_instance_witness:
  "\<exists>fs1. SetPidFile (boot_ok 4321) app_setting fs_empty = (0, fs1)
     \<and> GetRunningPid (boot_ok 77) app_setting fs1 = (4321, fs1)
     \<and> SetPidFile (boot_ok 77) app_setting fs1 = (-1, fs1)
     \<and> GetRunningPid (boot_ok 77) app_setting (process_exit 4321 fs1) = (0, process_exit 4321 fs1)"
proof -
  obtain fs1 where "SetPidFile (boot_ok 4321) app_setting fs_empty = (0, fs1)"
    by (simp add: SetPidFile_def boot_ok_def fs_empty_def locked_by_other_def Let_def)
  with pid_file_single_instance [OF this, of app_setting "boot_ok 77"] show ?thesis
    by (simp add: boot_ok_def)
qed

text \<open>What \<open>Init\<close> comes to when the flags are accepted and no daemon is asked for.\<close>

definition boot_run ::
    "boot_answers \<Rightarrow> boot_flags \<Rightarrow> 64 word \<Rightarrow> 64 word \<Rightarrow> ('c, 'a) boot \<Rightarrow> int \<times> ('c, 'a) boot" where
  "boot_run a fl fmax bmax =
     boot_steps [step_conf a fl, step_pid a, step_signal, step_limit a, step_evbase a, step_fps a, step_ctrl a,
       step_listen a, step_front a fmax, step_back a bmax, step_timers, step_rpc a fl, step_now a]"

lemma InitNormalMode_run:
  "\<not> FLAGS_daemon fl \<Longrightarrow>
   InitNormalMode a fl fmax bmax b = (BootRet (fst (boot_run a fl fmax bmax b)), snd (boot_run a fl fmax bmax b))"
  by (simp add: InitNormalMode_def boot_run_def case_prod_beta)

lemma boot_run_refused:
  assumes "FLAGS_cfg_file fl = []" and "held_by p (pid_file_name (boot_setting b)) (boot_fs b)" and "own_pid c \<noteq> p"
  shows "boot_run c fl fmax bmax b = (-1, b)"
proof -
  have conf: "step_conf c fl b = (0, b)"
    using assms(1) by (simp add: step_conf_def GetConfString_def)
  have "step_pid c b = (-1, b)"
    using SetPidFile_refused [OF assms(2,3)] by (simp add: step_pid_def)
  with conf show ?thesis
    by (simp add: boot_run_def)
qed


definition base_flags :: boot_flags where
  "base_flags = flags.extend default_flags
     (boot_flags.fields False [] 10240)"

definition fs_running :: file_sys where
  "fs_running = \<lparr>fs_content = [''app.pid'' \<mapsto> dec_int 4321 @ [CHR 0x0A]], fs_lock = [''app.pid'' \<mapsto> 4321]\<rparr>"

definition boot_start :: "file_sys \<Rightarrow> (unit, unit) boot" where
  "boot_start fs = \<lparr>boot_world = sample_world [] None (), boot_fs = fs, boot_sched = None, boot_signals = [], boot_sigs = \<lambda>_. SIG_DFL\<rparr>"


end
