(* ===== verification/RapNetUri.thy ===== *)
theory RapNetUri
  imports Prelude "HOL-Library.Sublist"
begin

text \<open>
  \<open>utils/rap_net_uri.c\<close>: the second URI parser of the repository, \<open>scheme:host:port\<close>
  without slashes. Strings are lists of characters without NUL; \<open>socket\<close> and \<open>inet_addr\<close>
  are parameters, the latter \<open>None\<close> for \<open>INADDR_NONE\<close>. The port is in host order, the
  argument of \<open>htons\<close>.
\<close>

section \<open>Parser\<close>

abbreviation (input) MAX_URI_LEN :: nat where "MAX_URI_LEN \<equiv> 256"
abbreviation (input) NET_DEF_PORT :: "16 word" where "NET_DEF_PORT \<equiv> 80"
abbreviation (input) TYPE_TCP :: int where "TYPE_TCP \<equiv> 0"
abbreviation (input) TYPE_UDP :: int where "TYPE_UDP \<equiv> 1"
abbreviation (input) TYPE_UNIX :: int where "TYPE_UNIX \<equiv> 2"

datatype rap_family = RAP_AF_INET | RAP_AF_UNIX
datatype sock_kind = SOCK_STREAM | SOCK_DGRAM

record rap_sin =
  rap_sin_family :: rap_family
  rap_sin_port :: "16 word"
  rap_sin_addr :: "32 word"

definition protocol :: "string list" where
  "protocol = [''tcp'', ''udp'', ''unix'']"

text \<open>The loop over \<open>protocol\<close> up to NULL: the index of the first name the scheme agrees with,
  compared over the length of the scheme.\<close>

fun match_protocol :: "string \<Rightarrow> string list \<Rightarrow> nat" where
  "match_protocol rap_uri [] = 0"
| "match_protocol rap_uri (p # ps) =
     (if strncmp_eq rap_uri p (length rap_uri) then 0 else Suc (match_protocol rap_uri ps))"

definition rap_uri_get_socket_type :: "string option \<Rightarrow> int" where
  "rap_uri_get_socket_type uri =
     (case uri of
        None \<Rightarrow> -1
      | Some u \<Rightarrow>
          if MAX_URI_LEN \<le> length u then -2
          else
            (case strchr u CHR '':'' of
               None \<Rightarrow> TYPE_TCP
             | Some uri_ptr \<Rightarrow>
                 (let i = match_protocol (take (length u - length uri_ptr) u) protocol in
                  if i = length protocol then -3 else int i)))"

definition rap_uri_open_socket :: "(rap_family \<Rightarrow> sock_kind \<Rightarrow> int) \<Rightarrow> string option \<Rightarrow> int" where
  "rap_uri_open_socket socket uri =
     (let type = rap_uri_get_socket_type uri in
      if type < 0 then -1
      else if type = TYPE_TCP then socket RAP_AF_INET SOCK_STREAM
      else if type = TYPE_UDP then socket RAP_AF_INET SOCK_DGRAM
      else if type = TYPE_UNIX then socket RAP_AF_UNIX SOCK_STREAM
      else -1)"

definition rap_uri_get_socket_addr ::
    "(string \<Rightarrow> 32 word option) \<Rightarrow> string option \<Rightarrow> rap_sin option \<Rightarrow> int \<times> rap_sin option" where
  "rap_uri_get_socket_addr inet_addr uri sin =
     (case (uri, sin) of
        (Some u, Some s) \<Rightarrow>
          if MAX_URI_LEN \<le> length u then (-2, sin)
          else
            (case strchr u CHR '':'' of
               None \<Rightarrow>
                 (case inet_addr u of
                    None \<Rightarrow> (-3, sin)
                  | Some addr \<Rightarrow>
                      (0, Some (s\<lparr>rap_sin_family := RAP_AF_INET, rap_sin_addr := addr, rap_sin_port := NET_DEF_PORT\<rparr>)))
             | Some uri_ptr \<Rightarrow>
                 (let i = match_protocol (take (length u - length uri_ptr) u) protocol in
                  if i = length protocol then (-4, sin)
                  else
                    (let rest = tl uri_ptr;
                         (host, port) = (case strchr rest CHR '':'' of
                             None \<Rightarrow> (rest, NET_DEF_PORT)
                           | Some port_ptr \<Rightarrow>
                               (take (length rest - length port_ptr) rest, ucast (atoi (tl port_ptr))))
                     in case inet_addr host of
                          None \<Rightarrow> (-3, sin)
                        | Some addr \<Rightarrow>
                            (let s1 = s\<lparr>rap_sin_addr := addr, rap_sin_port := port\<rparr> in
                             if int i = TYPE_TCP \<or> int i = TYPE_UDP
                             then (0, Some (s1\<lparr>rap_sin_family := RAP_AF_INET\<rparr>))
                             else if int i = TYPE_UNIX then (0, Some (s1\<lparr>rap_sin_family := RAP_AF_UNIX\<rparr>))
                             else (-5, Some s1)))))
      | _ \<Rightarrow> (-1, sin))"

section \<open>What is accepted\<close>

lemma strncmp_prefix: "CHR 0x00 \<notin> set a \<Longrightarrow> strncmp_eq a b (length a) = prefix a b"
proof (induction a arbitrary: b)
  case (Cons x a)
  then show ?case
    by (cases b) (auto simp: strncmp_eq_def)
qed (simp add: strncmp_eq_def)

text \<open>The type a scheme stands for: any prefix of a name, the empty one included.\<close>

definition scheme_type :: "string \<Rightarrow> int option" where
  "scheme_type s =
     (if prefix s ''tcp'' then Some TYPE_TCP else if prefix s ''udp'' then Some TYPE_UDP
      else if prefix s ''unix'' then Some TYPE_UNIX else None)"

lemma match_scheme:
  "CHR 0x00 \<notin> set s \<Longrightarrow> scheme_type s = (if match_protocol s protocol = length protocol then None
     else Some (int (match_protocol s protocol)))"
  by (simp add: scheme_type_def protocol_def strncmp_prefix)

lemma match_cases:
  "match_protocol s protocol = 0 \<or> match_protocol s protocol = 1 \<or> match_protocol s protocol = 2
     \<or> match_protocol s protocol = 3"
  by (simp add: protocol_def)

lemma type_of_scheme:
  assumes "CHR '':'' \<notin> set s" and "CHR 0x00 \<notin> set s" and "length (s @ CHR '':'' # rest) < MAX_URI_LEN"
  shows "rap_uri_get_socket_type (Some (s @ CHR '':'' # rest))
    = (case scheme_type s of None \<Rightarrow> -3 | Some t \<Rightarrow> t)"
  using assms by (simp add: rap_uri_get_socket_type_def match_scheme Let_def)

text \<open>The socket of a type, and the family of its addresses.\<close>

definition type_socket :: "(rap_family \<Rightarrow> sock_kind \<Rightarrow> int) \<Rightarrow> int \<Rightarrow> int" where
  "type_socket socket t = socket (if t = TYPE_UNIX then RAP_AF_UNIX else RAP_AF_INET)
     (if t = TYPE_UDP then SOCK_DGRAM else SOCK_STREAM)"

definition type_addr :: "int \<Rightarrow> 32 word \<Rightarrow> 16 word \<Rightarrow> rap_sin" where
  "type_addr t a port = \<lparr>rap_sin_family = (if t = TYPE_UNIX then RAP_AF_UNIX else RAP_AF_INET),
     rap_sin_port = port, rap_sin_addr = a\<rparr>"

text \<open>\<open>scheme:host:port\<close>, for any scheme, host and port text without colons before the
  port: the scheme is accepted exactly when it is a prefix of a protocol name (the empty one stands for
  tcp), the first that fits decides; then the socket opened and the address filled in agree on it, the
  address is \<open>inet_addr\<close> of the host text, slashes included, and the port is the number cut to 16
  bits.\<close>

theorem rap_uri_scheme_host_port:
  assumes "CHR '':'' \<notin> set s" and "CHR 0x00 \<notin> set s" and "CHR '':'' \<notin> set host"
    and "length (s @ CHR '':'' # host @ CHR '':'' # port) < MAX_URI_LEN"
  shows "rap_uri_open_socket socket (Some (s @ CHR '':'' # host @ CHR '':'' # port))
           = (case scheme_type s of None \<Rightarrow> -1 | Some t \<Rightarrow> type_socket socket t)
    \<and> rap_uri_get_socket_addr inet_addr (Some (s @ CHR '':'' # host @ CHR '':'' # port)) (Some sin)
           = (case scheme_type s of
                None \<Rightarrow> (-4, Some sin)
              | Some t \<Rightarrow>
                  (case inet_addr host of
                     None \<Rightarrow> (-3, Some sin)
                   | Some a \<Rightarrow> (0, Some (type_addr t a (ucast (atoi port))))))"
proof
  have t: "rap_uri_get_socket_type (Some (s @ CHR '':'' # host @ CHR '':'' # port))
      = (case scheme_type s of None \<Rightarrow> -3 | Some t \<Rightarrow> t)"
    by (rule type_of_scheme) (use assms in simp_all)
  show "rap_uri_open_socket socket (Some (s @ CHR '':'' # host @ CHR '':'' # port))
           = (case scheme_type s of None \<Rightarrow> -1 | Some t \<Rightarrow> type_socket socket t)"
    unfolding rap_uri_open_socket_def t by (simp add: scheme_type_def type_socket_def)
next
  show "rap_uri_get_socket_addr inet_addr (Some (s @ CHR '':'' # host @ CHR '':'' # port)) (Some sin)
           = (case scheme_type s of
                None \<Rightarrow> (-4, Some sin)
              | Some t \<Rightarrow>
                  (case inet_addr host of
                     None \<Rightarrow> (-3, Some sin)
                   | Some a \<Rightarrow> (0, Some (type_addr t a (ucast (atoi port))))))"
    using assms match_cases [of s] match_scheme [OF assms(2)]
    by (cases "inet_addr host")
       (auto simp: rap_uri_get_socket_addr_def Let_def type_addr_def protocol_def)
qed

text \<open>The short form \<open>u\<close> stands for udp; with slashes the host is not an address.\<close>

theorem rap_uri_scheme_host_port_witness:
  "rap_uri_open_socket (\<lambda>f k. if k = SOCK_DGRAM then 5 else 6) (Some ''u:10.0.0.1:53'') = 5
   \<and> rap_uri_get_socket_addr (\<lambda>h. if h = ''10.0.0.1'' then Some 0x0A000001 else None)
       (Some ''u:10.0.0.1:53'') (Some (type_addr 0 0 0)) = (0, Some (type_addr 1 0x0A000001 53))
   \<and> rap_uri_get_socket_addr (\<lambda>h. if h = ''10.0.0.1'' then Some 0x0A000001 else None)
       (Some ''tcp://10.0.0.1:53'') (Some (type_addr 0 0 0)) = (-3, Some (type_addr 0 0 0))"
  using rap_uri_scheme_host_port [of "''u''" "''10.0.0.1''" "''53''" "\<lambda>f k. if k = SOCK_DGRAM then 5 else 6"
      "\<lambda>h. if h = ''10.0.0.1'' then Some 0x0A000001 else None" "type_addr 0 0 0"]
    rap_uri_scheme_host_port [of "''tcp''" "''//10.0.0.1''" "''53''" "\<lambda>f k. 6"
      "\<lambda>h. if h = ''10.0.0.1'' then Some 0x0A000001 else None" "type_addr 0 0 0"]
  by (simp add: scheme_type_def type_socket_def atoi_def strtol10_def digits_val_def is_digit_def
      is_space_def digit_val_def)

end
