(* ===== verification/EventLoop.thy ===== *)
theory EventLoop
  imports Framework
begin

text \<open>
  Runs of the event loop: what every callback of the framework keeps of the two connection pools,
  for applications that honour the framework's unwritten contract: a callback does not crash, keeps the
  pools in order, does not destroy the connection it is called for and creates no timer. Under it no
  run touches freed memory, and after the run nothing is left. Locale \<open>guarded_app\<close> is the
  contract of an application with an invariant of its own and limits on what its peers send,
  \<open>safe_app\<close> that of one without.
\<close>

section \<open>The invariant of the world\<close>

text \<open>The heap holds exactly the connections of the two pools, each in one of them; there are no
  timers (one timer is enough to keep the tick from returning).\<close>

definition world_ok :: "('c, 'a) world \<Rightarrow> bool" where
  "world_ok w =
     (mgr_inv (pool_ptrs (backend_mgr w)) (net_heap w) (frontend_mgr w)
      \<and> mgr_inv (pool_ptrs (frontend_mgr w)) (net_heap w) (backend_mgr w)
      \<and> timer_list (timer_mgr w) = [])"

lemma world_okD:
  assumes "world_ok w"
  shows "mgr_inv (pool_ptrs (backend_mgr w)) (net_heap w) (frontend_mgr w)"
    "mgr_inv (pool_ptrs (frontend_mgr w)) (net_heap w) (backend_mgr w)" "timer_list (timer_mgr w) = []"
  using assms by (simp_all add: world_ok_def)

text \<open>An operation of one pool keeps the other one.\<close>

lemma other_pool_kept:
  assumes "mgr_inv (pool_ptrs m) h m2" and "mgr_keeps (pool_ptrs m2) h h' m'"
  shows "mgr_inv (pool_ptrs m') h' m2"
proof -
  have inv: "mgr_inv (pool_ptrs m2) h' m'" and same: "foreign_same (pool_ptrs m2) h h'"
    using assms(2) by (simp_all add: mgr_keeps_def)
  have "\<forall>q \<in> pool_ptrs m2. net_fd h' q = net_fd h q"
    using same by (simp add: foreign_same_def net_fd_def)
  then have "pool_ok h' m2"
    using pool_ok_cong [OF mgr_invD(2) [OF assms(1)]] by blast
  moreover have "dom (nets h') = pool_ptrs m2 \<union> pool_ptrs m'" "pool_ptrs m2 \<inter> pool_ptrs m' = {}"
    using mgr_invD(3,4) [OF inv] by (simp_all add: Un_commute Int_commute)
  ultimately show ?thesis
    using mgr_invD(1) [OF inv] by (simp add: mgr_inv_def)
qed

lemma world_ok_front:
  assumes "world_ok w" and "mgr_keeps (pool_ptrs (backend_mgr w)) (net_heap w) h' m'"
  shows "world_ok (w\<lparr>net_heap := h', frontend_mgr := m'\<rparr>)"
  using other_pool_kept [OF world_okD(2) [OF assms(1)] assms(2)] assms
  by (simp add: world_ok_def mgr_keeps_def)

lemma world_ok_back:
  assumes "world_ok w" and "mgr_keeps (pool_ptrs (frontend_mgr w)) (net_heap w) h' m'"
  shows "world_ok (w\<lparr>net_heap := h', backend_mgr := m'\<rparr>)"
  using other_pool_kept [OF world_okD(1) [OF assms(1)] assms(2)] assms
  by (simp add: world_ok_def mgr_keeps_def)

text \<open>The fields the invariant does not look at.\<close>

lemma world_ok_cong:
  assumes "world_ok w" and "net_heap w' = net_heap w" and "frontend_mgr w' = frontend_mgr w"
    and "backend_mgr w' = backend_mgr w" and "timer_mgr w' = timer_mgr w"
  shows "world_ok w'"
  using assms by (simp add: world_ok_def)

text \<open>A connection of either pool is allocated and has a buffer.\<close>

definition all_ptrs :: "('c, 'a) world \<Rightarrow> ptr set" where
  "all_ptrs w = pool_ptrs (frontend_mgr w) \<union> pool_ptrs (backend_mgr w)"

lemma pooled_net:
  assumes "mgr_inv F h m" and "p \<in> pool_ptrs m"
  obtains n b where "nets h p = Some n" "hevent n = Some b" "map_of (handler_pool m) (bev_fd b) = Some p"
proof -
  obtain fd where fd: "map_of (handler_pool m) fd = Some p"
    using ptrs_map_of [OF mgr_invD(2) [OF assms(1)] assms(2)] by blast
  with pool_okD [OF mgr_invD(2) [OF assms(1)] fd] that show thesis
    by blast
qed

lemma live_net:
  assumes "world_ok w" and "p \<in> all_ptrs w"
  obtains n b where "nets (net_heap w) p = Some n" "hevent n = Some b"
proof -
  from assms(2) consider "p \<in> pool_ptrs (frontend_mgr w)" | "p \<in> pool_ptrs (backend_mgr w)"
    by (auto simp: all_ptrs_def)
  then show thesis
    using pooled_net [OF world_okD(1) [OF assms(1)], of p] pooled_net [OF world_okD(2) [OF assms(1)], of p] that
    by metis
qed

text \<open>Changing one connection without touching its id and descriptor.\<close>

definition same_net :: "'c easy_net \<Rightarrow> 'c easy_net \<Rightarrow> bool" where
  "same_net n n' = (nid n' = nid n \<and> map_option bev_fd (hevent n') = map_option bev_fd (hevent n))"

lemma world_ok_set_net:
  assumes "world_ok w" and "nets (net_heap w) p = Some n" and "same_net n n'"
  shows "world_ok (set_net p n' w)"
proof -
  let ?h = "(net_heap w)\<lparr>nets := (nets (net_heap w))(p \<mapsto> n')\<rparr>"
  have keep: "mgr_inv F ?h m" if "mgr_inv F (net_heap w) m" for F m
  proof -
    have "\<forall>k. it_cursor m = Some k \<longrightarrow> k \<in> fst ` set (handler_pool m)"
      using mgr_invD(2) [OF that] by (simp add: pool_ok_def)
    then show ?thesis
      using mgr_inv_update [OF that assms(2), of n' "it_cursor m"] assms(3) by (simp add: same_net_def)
  qed
  show ?thesis
    using world_okD [OF assms(1)] keep by (simp add: world_ok_def set_net_def)
qed

text \<open>What the framework's calls establish: the invariant, and the same pools.\<close>

definition pools_kept :: "('c, 'a) world \<Rightarrow> ('c, 'a) world \<Rightarrow> bool" where
  "pools_kept w w' = (world_ok w' \<and> frontend_mgr w' = frontend_mgr w \<and> backend_mgr w' = backend_mgr w)"

lemma pools_kept_refl: "world_ok w \<Longrightarrow> pools_kept w w"
  by (simp add: pools_kept_def)

lemma pools_kept_trans: "pools_kept w w1 \<Longrightarrow> pools_kept w1 w2 \<Longrightarrow> pools_kept w w2"
  by (simp add: pools_kept_def)

lemma pools_kept_ptrs: "pools_kept w w' \<Longrightarrow> all_ptrs w' = all_ptrs w"
  by (simp add: pools_kept_def all_ptrs_def)

lemma modify_net_kept:
  assumes "world_ok w" and "p \<in> all_ptrs w" and "\<And>n. same_net n (f n)"
  shows "\<exists>w'. modify_net p f w = Done w' \<and> pools_kept w w'"
proof -
  obtain n b where "nets (net_heap w) p = Some n" "hevent n = Some b"
    using live_net [OF assms(1,2)] .
  with world_ok_set_net [OF assms(1) _ assms(3)] show ?thesis
    by (simp add: modify_net_def get_net_def pools_kept_def) (simp add: set_net_def)
qed

lemma world_ok_upd [simp]:
  "world_ok (w\<lparr>env := e\<rparr>) = world_ok w" "world_ok (w\<lparr>now_time := t\<rparr>) = world_ok w"
  "world_ok (w\<lparr>reloading := b\<rparr>) = world_ok w" "world_ok (w\<lparr>running := b\<rparr>) = world_ok w"
  "world_ok (w\<lparr>ctrl_msg := s\<rparr>) = world_ok w" "world_ok (w\<lparr>app_state := a\<rparr>) = world_ok w"
  by (simp_all add: world_ok_def)

lemma net_Send_kept:
  assumes "world_ok w" and "p \<in> all_ptrs w"
  shows "\<exists>r w'. net_Send p msg w = Done (r, w') \<and> pools_kept w w'"
proof -
  obtain n b where n: "nets (net_heap w) p = Some n" "hevent n = Some b"
    using live_net [OF assms] .
  have draw: "\<exists>r e. draw_write w1 = (r, w1\<lparr>env := e\<rparr>)" for w1 :: "('a, 'b) world"
    by (cases "write_rc (env w1)") (auto simp: draw_write_def intro: exI [of _ "env w1"])
  have send: "\<exists>r n'. EasyNet_Send r1 r2 msg n = Done (r, n') \<and> same_net n n'" for r1 r2
    using n(2) by (cases msg) (auto simp: EasyNet_Send_def same_net_def bev_write_def Let_def)
  have keep: "pools_kept w (set_net p n' (w\<lparr>env := e\<rparr>))" if "same_net n n'" for n' e
    using world_ok_set_net [of "w\<lparr>env := e\<rparr>" p n n'] assms(1) n(1) that
    by (simp add: pools_kept_def) (simp add: set_net_def)
  show ?thesis
  proof (cases "msg = None \<or> msg = Some [] \<or> net_state n \<noteq> NET_ESTABLISHED")
    case True
    obtain r n' where "EasyNet_Send 0 0 msg n = Done (r, n')"
      using send by blast
    with True n pools_kept_refl [OF assms(1)] show ?thesis
      by (auto simp: net_Send_def get_net_def)
  next
    case False
    obtain r1 e1 where d1: "draw_write w = (r1, w\<lparr>env := e1\<rparr>)"
      using draw by blast
    obtain r2 e2 where d2: "draw_write (w\<lparr>env := e1\<rparr>) = (r2, w\<lparr>env := e2\<rparr>)"
      using draw [of "w\<lparr>env := e1\<rparr>"] by auto
    obtain r n' where s: "EasyNet_Send r1 (if r1 \<noteq> 0 then 0 else r2) msg n = Done (r, n')" "same_net n n'"
      using send by blast
    have "net_Send p msg w = Done (r, set_net p n' (w\<lparr>env := (if r1 \<noteq> 0 then e1 else e2)\<rparr>))"
      using False n d1 d2 s(1) by (cases "r1 = 0") (auto simp: net_Send_def get_net_def)
    with keep [OF s(2)] show ?thesis
      by blast
  qed
qed

lemma SendToFrontEnd_kept:
  assumes "world_ok w" and "p \<in> all_ptrs w"
  shows "\<exists>r w'. SendToFrontEnd (Some p) buf w = Done (r, w') \<and> pools_kept w w'"
proof -
  obtain r w' where "net_Send p buf w = Done (r, w')" "pools_kept w w'"
    using net_Send_kept [OF assms] by blast
  with pools_kept_refl [OF assms(1)] show ?thesis
    by (cases "buf = None \<or> buf = Some []"; cases "r = 0") (auto simp: SendToFrontEnd_def)
qed

section \<open>What is left alone\<close>

text \<open>What an application sees of a connection besides its bytes: the state and the context.\<close>

definition seen :: "'c easy_net \<Rightarrow> NetState \<times> 'c option" where
  "seen n = (net_state n, user_context n)"

definition kept_nets :: "ptr set \<Rightarrow> 'c heap \<Rightarrow> 'c heap \<Rightarrow> bool" where
  "kept_nets S h h' = (\<forall>p \<in> S. \<forall>n'. nets h' p = Some n' \<longrightarrow> (\<exists>n. nets h p = Some n \<and> seen n' = seen n))"

text \<open>The application's state, the results of the writes to come and the connections are the same,
  except that frontends may be gone; with \<open>back\<close> also the states of the backends.\<close>

definition undisturbed :: "bool \<Rightarrow> ('c, 'a) world \<Rightarrow> ('c, 'a) world \<Rightarrow> bool" where
  "undisturbed back w w' =
     (app_state w' = app_state w \<and> write_rc (env w') = write_rc (env w)
      \<and> pool_ptrs (frontend_mgr w') \<subseteq> pool_ptrs (frontend_mgr w)
      \<and> pool_ptrs (backend_mgr w') = pool_ptrs (backend_mgr w)
      \<and> kept_nets (pool_ptrs (frontend_mgr w')) (net_heap w) (net_heap w')
      \<and> (back \<longrightarrow> kept_nets (pool_ptrs (backend_mgr w)) (net_heap w) (net_heap w')))"

lemma kept_nets_refl: "kept_nets S h h"
  by (simp add: kept_nets_def)

lemma kept_nets_trans: "kept_nets S h h1 \<Longrightarrow> kept_nets S' h1 h2 \<Longrightarrow> S' \<subseteq> S \<Longrightarrow> kept_nets S' h h2"
  unfolding kept_nets_def by (metis subsetD)

lemma undisturbed_refl: "undisturbed b w w"
  by (simp add: undisturbed_def kept_nets_refl)

lemma undisturbed_trans:
  assumes "undisturbed b w w1" and "undisturbed b w1 w2"
  shows "undisturbed b w w2"
proof -
  note 1 = assms(1) [unfolded undisturbed_def] and 2 = assms(2) [unfolded undisturbed_def]
  have "kept_nets (pool_ptrs (frontend_mgr w1)) (net_heap w) (net_heap w1)"
      "kept_nets (pool_ptrs (frontend_mgr w2)) (net_heap w1) (net_heap w2)"
      "pool_ptrs (frontend_mgr w2) \<subseteq> pool_ptrs (frontend_mgr w1)"
    using 1 2 by simp_all
  note front = kept_nets_trans [OF this]
  have "kept_nets (pool_ptrs (backend_mgr w)) (net_heap w) (net_heap w2)" if b
  proof (rule kept_nets_trans)
    show "kept_nets (pool_ptrs (backend_mgr w)) (net_heap w) (net_heap w1)"
      "kept_nets (pool_ptrs (backend_mgr w)) (net_heap w1) (net_heap w2)"
      using 1 2 that by simp_all
  qed simp
  moreover have "pool_ptrs (frontend_mgr w2) \<subseteq> pool_ptrs (frontend_mgr w)"
    using 1 2 by (elim conjE) (rule subset_trans)
  ultimately show ?thesis
    using front 1 2 by (simp add: undisturbed_def)
qed

lemma undisturbed_weaken: "undisturbed True w w' \<Longrightarrow> undisturbed b w w'"
  by (simp add: undisturbed_def)

lemma undisturbed_upd [simp]:
  "undisturbed b w (w\<lparr>now_time := t\<rparr>)" "undisturbed b w (w\<lparr>reloading := x\<rparr>)"
  "undisturbed b w (w\<lparr>running := x\<rparr>)" "undisturbed b w (w\<lparr>ctrl_msg := s\<rparr>)"
  by (simp_all add: undisturbed_def kept_nets_refl)

lemma undisturbed_env: "write_rc e = write_rc (env w) \<Longrightarrow> undisturbed b w (w\<lparr>env := e\<rparr>)"
  by (simp add: undisturbed_def kept_nets_refl)

text \<open>Changing a connection in its buffers and counters only.\<close>

definition steady :: "'c easy_net \<Rightarrow> 'c easy_net \<Rightarrow> bool" where
  "steady n n' = (same_net n n' \<and> seen n' = seen n)"

lemma undisturbed_set_net:
  assumes "nets (net_heap w) p = Some n" and "seen n' = seen n"
  shows "undisturbed True w (set_net p n' w)"
  using assms by (simp add: undisturbed_def kept_nets_def set_net_def)

lemma modify_net_steady:
  assumes "world_ok w" and "p \<in> all_ptrs w" and "\<And>n. steady n (f n)"
  shows "\<exists>w'. modify_net p f w = Done w' \<and> pools_kept w w' \<and> undisturbed True w w'"
proof -
  obtain n b where n: "nets (net_heap w) p = Some n" "hevent n = Some b"
    using live_net [OF assms(1,2)] .
  have "same_net n (f n)" "seen (f n) = seen n"
    using assms(3) by (simp_all add: steady_def)
  with n world_ok_set_net [OF assms(1) n(1)] undisturbed_set_net [OF n(1)]
  have "pools_kept w (set_net p (f n) w)" "undisturbed True w (set_net p (f n) w)"
    by (simp_all add: pools_kept_def) (simp_all add: set_net_def)
  with n show ?thesis
    by (simp add: modify_net_def get_net_def)
qed

lemma steady_simps [simp]:
  "steady n (bev_feed bs n)" "steady n (bev_drain k n)" "steady n n"
  "steady n (n\<lparr>last_active_timestamp := t\<rparr>)" "steady n (n\<lparr>uri := u\<rparr>)" "steady n (n\<lparr>curr_pkg_count := x\<rparr>)"
  "steady n (n\<lparr>curr_traffic_bytes := x, last_active_timestamp := t\<rparr>)"
  by (cases "hevent n"; simp add: steady_def same_net_def seen_def bev_feed_def bev_drain_def)+

text \<open>Removing frontends.\<close>

lemma remove_front_undisturbed:
  assumes "RemoveHandlerByEvent e (net_heap w) (frontend_mgr w) = Done (r, h, m)"
  shows "undisturbed True w (w\<lparr>net_heap := h, frontend_mgr := m\<rparr>)"
proof -
  have "pool_ptrs m \<subseteq> pool_ptrs (frontend_mgr w)" "\<And>p n. nets h p = Some n \<Longrightarrow> nets (net_heap w) p = Some n"
    using assms
    by (auto simp: RemoveHandlerByEvent_def bindE_eq_Done update_net_def free_net_def pool_ptrs_def pool_erase_def
        split: option.splits if_splits)
  then show ?thesis
    by (auto simp: undisturbed_def kept_nets_def)
qed

lemma walk_shrinks:
  assumes "\<And>n. seen (snd (f n)) = seen n"
  shows "walk i f h m = Done (h', m') \<Longrightarrow> pool_ptrs m' \<subseteq> pool_ptrs m \<and> kept_nets UNIV h h'"
proof (induction i arbitrary: h m)
  case 0
  then show ?case by (simp add: kept_nets_refl)
next
  case (Suc i)
  show ?case
  proof (cases "it_cursor m")
    case None
    with Suc.prems show ?thesis by (simp add: kept_nets_refl)
  next
    case (Some k)
    with Suc.prems obtain p n where p: "map_of (handler_pool m) k = Some p" "nets h p = Some n"
      by (auto simp: bindE_eq_Done deref_eq_Done split: option.splits)
    obtain r n1 where f: "f n = (r, n1)"
      by (cases "f n")
    then have n1: "seen n1 = seen n"
      using assms [of n] by simp
    let ?h1 = "h\<lparr>nets := (nets h)(p \<mapsto> n1)\<rparr>"
    have k: "kept_nets UNIV h ?h1" "kept_nets UNIV h (free_net p ?h1)"
      using p(2) n1 by (auto simp: kept_nets_def free_net_def)
    have e: "pool_ptrs (m\<lparr>it_cursor := c, handler_pool := pool_erase k (handler_pool m)\<rparr>) \<subseteq> pool_ptrs m" for c
      by (auto simp: pool_ptrs_def pool_erase_def)
    show ?thesis
    proof (cases "r = 0")
      case True
      with Suc.prems Some p f have "walk i f ?h1 (m\<lparr>it_cursor := pool_next k (handler_pool m)\<rparr>) = Done (h', m')"
        by (simp add: Let_def)
      from Suc.IH [OF this] kept_nets_trans [OF k(1), of UNIV] show ?thesis
        by (simp add: pool_ptrs_def)
    next
      case False
      with Suc.prems Some p f have "walk i f (free_net p ?h1)
          (m\<lparr>it_cursor := pool_next k (handler_pool m), handler_pool := pool_erase k (handler_pool m)\<rparr>) = Done (h', m')"
        by (simp add: Let_def)
      from Suc.IH [OF this] kept_nets_trans [OF k(2), of UNIV] e show ?thesis
        by blast
    qed
  qed
qed

lemma walk_frontends_undisturbed:
  assumes "walk_frontends w = Done w'"
  shows "undisturbed True w w'"
proof -
  let ?f = "DoSomething (setting w) (now_time w)"
  have "seen (snd (?f n)) = seen n" for n
    by (simp add: DoSomething_def seen_def Let_def)
  note shrinks = walk_shrinks [of ?f, OF this]
  show ?thesis
  proof (cases "has_limits (setting w)")
    case False
    with assms undisturbed_refl show ?thesis
      by (simp add: walk_frontends_def)
  next
    case True
    with assms obtain h m where "walk kSingleRoundLoopNum ?f (net_heap w) (frontend_mgr w) = Done (h, m)"
        and w': "w' = w\<lparr>net_heap := h, frontend_mgr :=
              (if it_cursor m = None then m\<lparr>it_cursor := pool_begin (handler_pool m)\<rparr> else m)\<rparr>"
      by (auto simp: walk_frontends_def WalkThrough_def bindE_eq_Done)
    with shrinks have "pool_ptrs m \<subseteq> pool_ptrs (frontend_mgr w)" "kept_nets UNIV (net_heap w) h"
      by blast+
    then show ?thesis
      by (simp add: w' undisturbed_def kept_nets_def pool_ptrs_def)
  qed
qed

section \<open>New backends\<close>

text \<open>The descriptors that the connection attempts to come will have.\<close>

definition connect_fds :: "('c, 'a) world \<Rightarrow> int list" where
  "connect_fds w = map snd (List.map_filter (\<lambda>x. x) (connect_rc (env w)))"

definition fds_fresh :: "('c, 'a) world \<Rightarrow> bool" where
  "fds_fresh w = (distinct (connect_fds w) \<and> set (connect_fds w) \<inter> fst ` set (handler_pool (backend_mgr w)) = {})"

text \<open>What a connection attempt takes from the environment.\<close>

definition drawn :: "('c, 'a) world \<Rightarrow> answers \<Rightarrow> bool" where
  "drawn w e = (write_rc e = write_rc (env w) \<and> connect_rc e = tl (connect_rc (env w)))"

lemma draws:
  obtains conn e0 pos e where "draw_connect w = (conn, w\<lparr>env := e0\<rparr>)"
    "draw_pos (w\<lparr>env := e0\<rparr>) = (pos, w\<lparr>env := e\<rparr>)" "drawn w e"
    "connect_rc (env w) = [] \<and> conn = None \<or> connect_rc (env w) = conn # connect_rc e"
proof -
  let ?e = "(env w)\<lparr>connect_rc := tl (connect_rc (env w))\<rparr>"
  have c: "draw_connect w = ((case connect_rc (env w) of [] \<Rightarrow> None | x # xs \<Rightarrow> x), w\<lparr>env := ?e\<rparr>)"
    by (cases "connect_rc (env w)") (simp_all add: draw_connect_def)
  have "\<exists>pos e. draw_pos (w\<lparr>env := ?e\<rparr>) = (pos, w\<lparr>env := e\<rparr>) \<and> drawn w e"
  proof (cases "hash_pos (env w)")
    case Nil
    then show ?thesis
      by (intro exI [of _ 0] exI [of _ ?e]) (simp add: draw_pos_def drawn_def)
  next
    case (Cons x xs)
    then show ?thesis
      by (intro exI [of _ x] exI [of _ "?e\<lparr>hash_pos := xs\<rparr>"]) (simp add: draw_pos_def drawn_def)
  qed
  then obtain pos e where p: "draw_pos (w\<lparr>env := ?e\<rparr>) = (pos, w\<lparr>env := e\<rparr>)" "drawn w e"
    by blast
  show thesis
    by (rule that [OF c p]) (use p(2) in \<open>cases "connect_rc (env w)"; simp add: drawn_def\<close>)
qed

lemma AddHandlerByUri_new:
  assumes "AddHandlerByUri os conn pos url t h m = Done (Some p, h', m')"
  shows "\<exists>c. conn = Some c \<and> m' = m\<lparr>handler_pool := pool_insert pos (snd c) p (handler_pool m)\<rparr>"
  using assms
  by (auto simp: AddHandlerByUri_def AddHandlerToMap_def EasyNet_Connect_def alloc_net_def Let_def bindE_eq_Done
      deref_eq_Done split: option.splits if_splits prod.splits)

lemma fresh_head: "fds_fresh w \<Longrightarrow> connect_rc (env w) = Some c # xs \<Longrightarrow> snd c \<notin> fst ` set (handler_pool (backend_mgr w))"
  by (simp add: fds_fresh_def connect_fds_def List.map_filter_simps)

lemma fresh_step:
  assumes "fds_fresh w" and "connect_rc (env w) = Some c # connect_rc (env w')"
    and "fst ` set (handler_pool (backend_mgr w')) = insert (snd c) (fst ` set (handler_pool (backend_mgr w)))"
  shows "fds_fresh w'"
  using assms by (auto simp: fds_fresh_def connect_fds_def List.map_filter_simps)

text \<open>One connection more, or none.\<close>

lemma CreateBackEnd_new:
  assumes ok: "world_ok w" and fresh: "fds_fresh w" and "GetBackEndContextSize app = 0"
  shows "\<exists>net w1. CreateBackEnd app (Some u) t w = Done (net, w1) \<and> world_ok w1 \<and> app_state w1 = app_state w
    \<and> (\<forall>q. net = Some q \<longrightarrow> fds_fresh w1 \<and> write_rc (env w1) = write_rc (env w)
        \<and> pool_ptrs (frontend_mgr w1) = pool_ptrs (frontend_mgr w)
        \<and> pool_ptrs (backend_mgr w1) = insert q (pool_ptrs (backend_mgr w)))"
proof -
  obtain conn e0 pos e where d: "draw_connect w = (conn, w\<lparr>env := e0\<rparr>)"
      "draw_pos (w\<lparr>env := e0\<rparr>) = (pos, w\<lparr>env := e\<rparr>)" "drawn w e"
      "connect_rc (env w) = [] \<and> conn = None \<or> connect_rc (env w) = conn # connect_rc e"
    by (rule draws)
  have new: "\<forall>fd. map_option snd conn = Some fd \<longrightarrow> fd \<notin> fst ` set (handler_pool (backend_mgr w))"
  proof (cases conn)
    case (Some c)
    with d(4) fresh_head [OF fresh, of c "connect_rc e"] show ?thesis
      by simp
  qed simp
  obtain net h m where add: "AddHandlerByUri (os_api e) conn pos (Some u) t (net_heap w) (backend_mgr w) = Done (net, h, m)"
      "mgr_keeps (pool_ptrs (frontend_mgr w)) (net_heap w) h m"
    using AddHandlerByUri_keeps [OF world_okD(2) [OF ok] new] by blast
  let ?w1 = "w\<lparr>env := e, net_heap := h, backend_mgr := m\<rparr>"
  have ok1: "world_ok ?w1"
    using world_ok_back [of "w\<lparr>env := e\<rparr>" h m] ok add(2) by simp
  show ?thesis
  proof (cases net)
    case None
    with d(1,2) add(1) ok1 show ?thesis
      by (simp add: CreateBackEnd_def)
  next
    case (Some q)
    then obtain c where c: "conn = Some c" "m = (backend_mgr w)\<lparr>handler_pool := pool_insert pos (snd c) q (handler_pool (backend_mgr w))\<rparr>"
      using AddHandlerByUri_new add(1) by blast
    have q: "pool_ptrs m = insert q (pool_ptrs (backend_mgr w))"
      using ptrs_insert_fresh [of "snd c" "backend_mgr w" pos q] new c by (simp add: pool_ptrs_def)
    then have in_m: "q \<in> all_ptrs ?w1"
      by (simp add: all_ptrs_def)
    obtain w2 where w2: "modify_net q (\<lambda>n. n\<lparr>last_active_timestamp := now_time ?w1\<rparr>) ?w1 = Done w2"
        "pools_kept ?w1 w2" "undisturbed True ?w1 w2"
      using modify_net_steady [OF ok1 in_m, of "\<lambda>n. n\<lparr>last_active_timestamp := now_time ?w1\<rparr>"] by auto
    have env2: "env w2 = e"
      using w2(1) by (auto simp: modify_net_def bindE_eq_Done set_net_def)
    have "fds_fresh w2"
      using fresh_step [OF fresh, of c w2] d(4) c w2(2) env2
      by (auto simp: pools_kept_def keys_insert)
    with w2(2,3) q env2 d(3) have "fds_fresh w2 \<and> write_rc (env w2) = write_rc (env w)
        \<and> pool_ptrs (frontend_mgr w2) = pool_ptrs (frontend_mgr w)
        \<and> pool_ptrs (backend_mgr w2) = insert q (pool_ptrs (backend_mgr w))"
      by (simp add: pools_kept_def drawn_def)
    with Some d(1,2) add(1) w2 assms(3) show ?thesis
      by (auto simp: CreateBackEnd_def Let_def pools_kept_def undisturbed_def)
  qed
qed

section \<open>Applications that honour the contract\<close>

text \<open>A new frontend \<open>p\<close> with context \<open>c\<close>; the others are the same.\<close>

definition new_front :: "ptr \<Rightarrow> 'c option \<Rightarrow> ('c, 'a) world \<Rightarrow> ('c, 'a) world \<Rightarrow> bool" where
  "new_front p c w w1 =
     (app_state w1 = app_state w \<and> write_rc (env w1) = write_rc (env w)
      \<and> p \<in> pool_ptrs (frontend_mgr w1) \<and> pool_ptrs (frontend_mgr w1) \<subseteq> insert p (pool_ptrs (frontend_mgr w))
      \<and> pool_ptrs (backend_mgr w1) = pool_ptrs (backend_mgr w)
      \<and> kept_nets (pool_ptrs (frontend_mgr w1) - {p}) (net_heap w) (net_heap w1)
      \<and> (\<forall>n. nets (net_heap w1) p = Some n \<longrightarrow> seen n = (NET_ESTABLISHED, c)))"

text \<open>What an application asks of its peers: which messages it can be given by clients and by
  backends, and when it can handle any.\<close>

record ('c, 'a) limits =
  from_front :: "view \<Rightarrow> bool"
  from_back :: "view \<Rightarrow> bool"
  able :: "('c, 'a) world \<Rightarrow> bool"

text \<open>The world is in order and the application's invariant holds.\<close>

definition sound :: "(('c, 'a) world \<Rightarrow> bool) \<Rightarrow> ('c, 'a) world \<Rightarrow> bool" where
  "sound I w = (world_ok w \<and> I w)"

definition ready :: "('c, 'a) limits \<Rightarrow> (('c, 'a) world \<Rightarrow> bool) \<Rightarrow> ('c, 'a) world \<Rightarrow> bool" where
  "ready L I w = (sound I w \<and> able L w)"

text \<open>The contract: \<open>inv\<close> is the application's invariant, \<open>started\<close> what \<open>OnInit\<close> needs.\<close>

locale guarded_app =
  fixes L :: "('c, 'a) limits" and inv started :: "('c, 'a) world \<Rightarrow> bool"
    and app :: "('c, 'a) rapid_app" and rpc :: "('c, 'a) rpc_hooks"
  assumes inv_kept: "inv w \<Longrightarrow> undisturbed False w w' \<Longrightarrow> inv w'"
    and able_kept: "able L w \<Longrightarrow> undisturbed True w w' \<Longrightarrow> able L w'"
    and joined: "inv w \<Longrightarrow> world_ok w1 \<Longrightarrow> new_front p None w w1 \<Longrightarrow> inv w1"
    and init: "world_ok w \<Longrightarrow> started w \<Longrightarrow> \<exists>r w'. OnInit app w = Done (r, w') \<and> world_ok w' \<and> (r = 0 \<longrightarrow> inv w')"
    and fini: "sound inv w \<Longrightarrow> \<exists>r w'. OnFini app w = Done (r, w') \<and> world_ok w'"
    and update: "sound inv w \<Longrightarrow> \<exists>w'. OnUpdate app w = Done w' \<and> sound inv w'"
    and reload: "sound inv w \<Longrightarrow> \<exists>w'. OnReload app w = Done w' \<and> sound inv w'"
    and ctrl: "sound inv w \<Longrightarrow> \<exists>r w'. OnRecvCtrl app args w = Done (r, w') \<and> sound inv w'"
    and connect: "inv w \<Longrightarrow> world_ok w1 \<Longrightarrow>
      new_front p (if 0 < GetFrontEndContextSize app then Some (zero_context app) else None) w w1 \<Longrightarrow>
      \<exists>r w2. OnFrontEndConnect app p t w1 = Done (r, w2) \<and> sound inv w2"
    and closed: "sound inv w \<Longrightarrow> p \<in> pool_ptrs (frontend_mgr w) \<Longrightarrow>
      \<exists>r w'. OnFrontEndClose app p t w = Done (r, w') \<and> sound inv w'"
    and recv_front: "ready L inv w \<Longrightarrow> p \<in> pool_ptrs (frontend_mgr w) \<Longrightarrow> from_front L v \<Longrightarrow>
      \<exists>r w'. OnRecvFrontEnd app p t v w = Done (r, w') \<and> ready L inv w' \<and> p \<in> pool_ptrs (frontend_mgr w')"
    and recv_back: "ready L inv w \<Longrightarrow> p \<in> pool_ptrs (backend_mgr w) \<Longrightarrow> from_back L v \<Longrightarrow>
      \<exists>r w'. OnRecvBackEnd app p t v w = Done (r, w') \<and> ready L inv w' \<and> p \<in> pool_ptrs (backend_mgr w')"
    and rpc_front: "ready L inv w \<Longrightarrow> p \<in> pool_ptrs (frontend_mgr w) \<Longrightarrow> from_front L v \<Longrightarrow>
      \<exists>r w'. OnFrontEndRpcMsg rpc p v w = Done (r, w') \<and> ready L inv w' \<and> p \<in> pool_ptrs (frontend_mgr w')"
    and rpc_back: "ready L inv w \<Longrightarrow> p \<in> pool_ptrs (backend_mgr w) \<Longrightarrow> from_back L v \<Longrightarrow>
      \<exists>w'. rpc_Resume rpc rp v w = Done w' \<and> ready L inv w' \<and> p \<in> pool_ptrs (backend_mgr w')"

text \<open>The messages a callback hands over when \<open>bs\<close> has arrived.\<close>

definition views_of :: "net_mgr \<Rightarrow> ptr \<Rightarrow> byte list \<Rightarrow> ('c, 'a) world \<Rightarrow> view list" where
  "views_of m p bs w =
     (case Option.bind (nets (net_heap w) p) hevent of
        Some b \<Rightarrow> fst (split_with server_len (take (recv_size m) (bev_in b @ bs)))
      | None \<Rightarrow> [])"

text \<open>The events libevent can deliver in a world: a new descriptor is not one of an open
  connection, the other events are for open connections. A control datagram is one whose words are read
  inside the static buffer; the peers keep to the limits.\<close>

definition event_within :: "('c, 'a) limits \<Rightarrow> string \<Rightarrow> loop_event \<Rightarrow> ('c, 'a) world \<Rightarrow> bool" where
  "event_within L delim e w =
     (case e of
        EvAccept sock addr \<Rightarrow> sock \<notin> fst ` set (handler_pool (frontend_mgr w))
      | EvFrontData p bs \<Rightarrow> p \<in> pool_ptrs (frontend_mgr w) \<and> able L w
          \<and> list_all (from_front L) (views_of (frontend_mgr w) p bs w)
      | EvFrontSocket p evs \<Rightarrow> p \<in> pool_ptrs (frontend_mgr w)
      | EvBackData p bs \<Rightarrow> p \<in> pool_ptrs (backend_mgr w) \<and> able L w
          \<and> list_all (from_back L) (views_of (backend_mgr w) p bs w)
      | EvBackSocket p evs \<Rightarrow> p \<in> pool_ptrs (backend_mgr w)
      | EvCtrl input \<Rightarrow>
          (case bindE (libevent_get_arguments delim (read_ctrl (ctrl_msg w) input))
                  (\<lambda>(argv, mem). read_args mem argv) of
             Done args \<Rightarrow> True | Crash c \<Rightarrow> False)
      | _ \<Rightarrow> True)"

fun events_within ::
    "('c, 'a) limits \<Rightarrow> ('c, 'a) rapid_app \<Rightarrow> ('c, 'a) rpc_hooks \<Rightarrow> string \<Rightarrow> loop_event list \<Rightarrow> ('c, 'a) world \<Rightarrow> bool" where
  "events_within L app rpc delim [] w = True"
| "events_within L app rpc delim (e # es) w =
     (event_within L delim e w
      \<and> (case on_event 1 app rpc delim e w of
           Some (Done (brk, w')) \<Rightarrow> brk \<or> events_within L app rpc delim es w'
         | _ \<Rightarrow> True))"

text \<open>Ticks and flags always do.\<close>

lemma idle_events_within:
  "list_all (\<lambda>e. e = EvStop \<or> e = EvReload \<or> (\<exists>t. e = EvTick t)) es \<Longrightarrow> events_within L app rpc delim es w"
  by (induction es arbitrary: w) (auto simp: event_within_def split: option.split exec.split)

text \<open>The events of a whole run fit: those after a successful \<open>OnInit\<close>.\<close>

definition run_within ::
    "('c, 'a) limits \<Rightarrow> ('c, 'a) rapid_app \<Rightarrow> ('c, 'a) rpc_hooks \<Rightarrow> string \<Rightarrow> loop_event list \<Rightarrow> ('c, 'a) world \<Rightarrow> bool" where
  "run_within L app rpc delim es w =
     (case OnInit app w of
        Done (ret, w1) \<Rightarrow> ret \<noteq> 0 \<or> events_within L app rpc delim es (w1\<lparr>running := True\<rparr>)
      | Crash c \<Rightarrow> True)"

lemma front_all: "p \<in> pool_ptrs (frontend_mgr w) \<Longrightarrow> p \<in> all_ptrs w"
  by (simp add: all_ptrs_def)

lemma back_all: "p \<in> pool_ptrs (backend_mgr w) \<Longrightarrow> p \<in> all_ptrs w"
  by (simp add: all_ptrs_def)

lemma pools_kept_front: "pools_kept w w' \<Longrightarrow> p \<in> pool_ptrs (frontend_mgr w) \<Longrightarrow> p \<in> pool_ptrs (frontend_mgr w')"
  by (simp add: pools_kept_def)

lemma pools_kept_back: "pools_kept w w' \<Longrightarrow> p \<in> pool_ptrs (backend_mgr w) \<Longrightarrow> p \<in> pool_ptrs (backend_mgr w')"
  by (simp add: pools_kept_def)

lemma pools_kept_ok: "pools_kept w w' \<Longrightarrow> world_ok w'"
  by (simp add: pools_kept_def)

lemma soundD: "sound I w \<Longrightarrow> world_ok w" "sound I w \<Longrightarrow> I w"
  by (simp_all add: sound_def)

lemma readyD: "ready L I w \<Longrightarrow> sound I w" "ready L I w \<Longrightarrow> world_ok w" "ready L I w \<Longrightarrow> able L w"
  by (simp_all add: sound_def ready_def)

text \<open>What an event comes to: a result that keeps the invariant.\<close>

definition safe_result :: "(('c, 'a) world \<Rightarrow> bool) \<Rightarrow> (int \<times> ('c, 'a) world) exec \<Rightarrow> bool" where
  "safe_result I r = (\<exists>c w'. r = Done (c, w') \<and> sound I w')"

context guarded_app
begin

lemma sound_kept: "sound inv w \<Longrightarrow> undisturbed False w w' \<Longrightarrow> world_ok w' \<Longrightarrow> sound inv w'"
  using inv_kept by (auto simp: sound_def)

lemma ready_kept: "ready L inv w \<Longrightarrow> undisturbed True w w' \<Longrightarrow> world_ok w' \<Longrightarrow> ready L inv w'"
  using sound_kept [OF _ undisturbed_weaken] able_kept by (auto simp: ready_def)

lemma sound_upd:
  assumes "sound inv w"
  shows "sound inv (w\<lparr>now_time := t\<rparr>)" "sound inv (w\<lparr>reloading := b\<rparr>)" "sound inv (w\<lparr>running := b\<rparr>)"
    "sound inv (w\<lparr>ctrl_msg := s\<rparr>)"
  using assms soundD(1) [OF assms] by (auto intro!: sound_kept [OF assms])

lemma modify_net_sound:
  assumes "sound inv w" and "p \<in> all_ptrs w" and "\<And>n. steady n (f n)"
  shows "\<exists>w'. modify_net p f w = Done w' \<and> pools_kept w w' \<and> sound inv w'"
  using modify_net_steady [OF soundD(1) [OF assms(1)] assms(2,3)] sound_kept [OF assms(1) undisturbed_weaken]
    pools_kept_ok by blast

lemma modify_net_ready:
  assumes "ready L inv w" and "p \<in> all_ptrs w" and "\<And>n. steady n (f n)"
  shows "\<exists>w'. modify_net p f w = Done w' \<and> pools_kept w w' \<and> ready L inv w'"
  using modify_net_steady [OF readyD(2) [OF assms(1)] assms(2,3)] ready_kept [OF assms(1)] pools_kept_ok by blast

lemma front_loop_safe:
  "ready L inv w \<Longrightarrow> p \<in> pool_ptrs (frontend_mgr w) \<Longrightarrow> list_all (from_front L) (fst (split_with server_len b)) \<Longrightarrow>
   \<exists>r k w'. front_loop app rpc p b e w = Done (r, k, w') \<and> ready L inv w'
     \<and> (0 \<le> r \<longrightarrow> p \<in> pool_ptrs (frontend_mgr w'))"
proof (induction "length b" arbitrary: b e w rule: less_induct)
  case less
  show ?case
  proof (cases "b = [] \<or> server_len b = 0 \<or> length b < server_len b")
    case True
    with less.prems show ?thesis
      by (subst front_loop.simps) auto
  next
    case False
    let ?v = "payload b (server_len b)"
    let ?b = "drop (server_len b) b"
    have shorter: "length ?b < length b"
      using False by (cases b) auto
    have good_v: "from_front L ?v" and good_b: "list_all (from_front L) (fst (split_with server_len ?b))"
      using less.prems(3) False by (simp_all add: split_with_step)
    have rest: "\<exists>r k w'. bindE (modify_net p (\<lambda>n. n\<lparr>curr_pkg_count := curr_pkg_count n + 1\<rparr>) w1)
          (front_loop app rpc p ?b (e + server_len b)) = Done (r, k, w') \<and> ready L inv w'
        \<and> (0 \<le> r \<longrightarrow> p \<in> pool_ptrs (frontend_mgr w'))"
      if ok1: "ready L inv w1" and p1: "p \<in> pool_ptrs (frontend_mgr w1)" for w1
    proof -
      obtain w2 where "modify_net p (\<lambda>n. n\<lparr>curr_pkg_count := curr_pkg_count n + 1\<rparr>) w1 = Done w2"
          "pools_kept w1 w2" "ready L inv w2"
        using modify_net_ready [OF ok1 front_all [OF p1], of "\<lambda>n. n\<lparr>curr_pkg_count := curr_pkg_count n + 1\<rparr>"]
        by auto
      with less.hyps [OF shorter, of w2 "e + server_len b"] good_b pools_kept_front [OF _ p1] show ?thesis
        by simp
    qed
    show ?thesis
    proof (cases "svc_mode w = SVC_MODE_RPC")
      case True
      obtain ret w1 where w1: "OnFrontEndRpcMsg rpc p ?v w = Done (ret, w1)" "ready L inv w1"
          "p \<in> pool_ptrs (frontend_mgr w1)"
        using rpc_front [OF less.prems(1,2) good_v] by blast
      obtain r h m where rm: "RemoveHandler (Some p) (net_heap w1) (frontend_mgr w1) = Done (r, h, m)"
          "mgr_keeps (pool_ptrs (backend_mgr w1)) (net_heap w1) h m"
        using RemoveHandler_keeps [OF world_okD(1) [OF readyD(2) [OF w1(2)]] w1(3)] by blast
      have "undisturbed True w1 (w1\<lparr>net_heap := h, frontend_mgr := m\<rparr>)"
        using rm(1) remove_front_undisturbed by (auto simp: RemoveHandler_def bindE_eq_Done)
      from ready_kept [OF w1(2) this world_ok_front [OF readyD(2) [OF w1(2)] rm(2)]]
      show ?thesis
        using True False w1 rest [OF w1(2,3)] rm(1)
        by (subst front_loop.simps) (auto simp: DestroyFrontEnd_def)
    next
      case normal: False
      obtain n b' where n: "nets (net_heap w) p = Some n" "hevent n = Some b'"
        using live_net [OF readyD(2) [OF less.prems(1)] front_all [OF less.prems(2)]] .
      obtain ret w1 where w1: "OnRecvFrontEnd app p (net_type n) ?v w = Done (ret, w1)" "ready L inv w1"
          "p \<in> pool_ptrs (frontend_mgr w1)"
        using recv_front [OF less.prems(1,2) good_v] by blast
      with normal False n rest [OF w1(2,3)] show ?thesis
        by (subst front_loop.simps) (simp add: get_net_def)
    qed
  qed
qed

lemma back_loop_safe:
  "ready L inv w \<Longrightarrow> p \<in> pool_ptrs (backend_mgr w) \<Longrightarrow> list_all (from_back L) (fst (split_with server_len b)) \<Longrightarrow>
   \<exists>k w'. back_loop app rpc p b e w = Done (k, w') \<and> ready L inv w' \<and> p \<in> pool_ptrs (backend_mgr w')"
proof (induction "length b" arbitrary: b e w rule: less_induct)
  case less
  show ?case
  proof (cases "b = [] \<or> server_len b = 0 \<or> length b < server_len b")
    case True
    with less.prems show ?thesis
      by (subst back_loop.simps) auto
  next
    case False
    let ?v = "payload b (server_len b)"
    let ?b = "drop (server_len b) b"
    have shorter: "length ?b < length b"
      using False by (cases b) auto
    have good_v: "from_back L ?v" and good_b: "list_all (from_back L) (fst (split_with server_len ?b))"
      using less.prems(3) False by (simp_all add: split_with_step)
    obtain n b' where n: "nets (net_heap w) p = Some n" "hevent n = Some b'"
      using live_net [OF readyD(2) [OF less.prems(1)] back_all [OF less.prems(2)]] .
    obtain ret w1 where w1: "OnRecvBackEnd app p (net_type n) ?v w = Done (ret, w1)" "ready L inv w1"
        "p \<in> pool_ptrs (backend_mgr w1)"
      using recv_back [OF less.prems(1,2) good_v] by blast
    have resume: "\<exists>w2. rpc_Resume rpc rp ?v w = Done w2 \<and> ready L inv w2 \<and> p \<in> pool_ptrs (backend_mgr w2)" for rp
      using rpc_back [OF less.prems(1,2) good_v] by blast
    have "\<exists>w2. (case rpc_binded n of
                   Some rp \<Rightarrow>
                     if rpc_IsActive rpc rp w then rpc_Resume rpc rp ?v w
                     else bindE (OnRecvBackEnd app p (net_type n) ?v w) (\<lambda>(ret, w1). Done w1)
                 | None \<Rightarrow> bindE (OnRecvBackEnd app p (net_type n) ?v w) (\<lambda>(ret, w1). Done w1)) = Done w2
          \<and> ready L inv w2 \<and> p \<in> pool_ptrs (backend_mgr w2)"
      using w1 resume by (auto split: option.split)
    then obtain w2 where "(case rpc_binded n of
                   Some rp \<Rightarrow>
                     if rpc_IsActive rpc rp w then rpc_Resume rpc rp ?v w
                     else bindE (OnRecvBackEnd app p (net_type n) ?v w) (\<lambda>(ret, w1). Done w1)
                 | None \<Rightarrow> bindE (OnRecvBackEnd app p (net_type n) ?v w) (\<lambda>(ret, w1). Done w1)) = Done w2"
        "ready L inv w2" "p \<in> pool_ptrs (backend_mgr w2)"
      by blast
    with False n less.hyps [OF shorter this(2,3) good_b] show ?thesis
      by (subst back_loop.simps) (simp add: get_net_def)
  qed
qed

end

text \<open>Feeding and draining a buffer keep its descriptor.\<close>

lemma same_net_simps [simp]:
  "same_net n (bev_feed bs n)" "same_net n (bev_drain k n)" "same_net n n"
  "same_net n (n\<lparr>last_active_timestamp := t\<rparr>)" "same_net n (n\<lparr>uri := u\<rparr>)"
  "same_net n (n\<lparr>curr_traffic_bytes := x, last_active_timestamp := t\<rparr>)"
  "same_net n (n\<lparr>user_context := c\<rparr>)"
  by (cases "hevent n"; simp add: same_net_def bev_feed_def bev_drain_def)+

context guarded_app
begin

lemma OnFrontEndMsg_safe:
  assumes "ready L inv w" and "p \<in> pool_ptrs (frontend_mgr w)"
    and "list_all (from_front L) (views_of (frontend_mgr w) p [] w)"
  shows "safe_result inv (OnFrontEndMsg app rpc p w)"
proof -
  obtain n b where n: "nets (net_heap w) p = Some n" "hevent n = Some b"
      "map_of (handler_pool (frontend_mgr w)) (bev_fd b) = Some p"
    using pooled_net [OF world_okD(1) [OF readyD(2) [OF assms(1)]] assms(2)] .
  let ?msg = "take (recv_size (frontend_mgr w)) (bev_in b)"
  have good_msg: "list_all (from_front L) (fst (split_with server_len ?msg))"
    using assms(3) n by (simp add: views_of_def)
  obtain r k w1 where w1: "front_loop app rpc p ?msg 0 w = Done (r, k, w1)" "ready L inv w1"
      "0 \<le> r \<longrightarrow> p \<in> pool_ptrs (frontend_mgr w1)"
    using front_loop_safe [OF assms(1,2) good_msg] by blast
  have msg: "OnFrontEndMsg app rpc p w =
      (if r < 0 then Done (-1, w1)
       else bindE (modify_net p (bev_drain k) w1) (\<lambda>w2.
              bindE (modify_net p (\<lambda>n. n\<lparr>curr_traffic_bytes := curr_traffic_bytes n + of_nat k,
                                         last_active_timestamp := now_time w2\<rparr>) w2) (\<lambda>w3. Done (0, w3))))"
    using n w1(1) by (simp add: OnFrontEndMsg_def get_net_def GetHandlerByEvent_def)
  show ?thesis
  proof (cases "r < 0")
    case True
    with msg readyD(1) [OF w1(2)] show ?thesis
      by (simp add: safe_result_def)
  next
    case False
    then have p1: "p \<in> pool_ptrs (frontend_mgr w1)"
      using w1(3) by simp
    obtain w2 where w2: "modify_net p (bev_drain k) w1 = Done w2" "pools_kept w1 w2" "sound inv w2"
      using modify_net_sound [OF readyD(1) [OF w1(2)] front_all [OF p1], of "bev_drain k"] by auto
    obtain w3 where "modify_net p (\<lambda>n. n\<lparr>curr_traffic_bytes := curr_traffic_bytes n + of_nat k,
                                         last_active_timestamp := now_time w2\<rparr>) w2 = Done w3" "sound inv w3"
      using modify_net_sound [OF w2(3) front_all [OF pools_kept_front [OF w2(2) p1]],
          of "\<lambda>n. n\<lparr>curr_traffic_bytes := curr_traffic_bytes n + of_nat k, last_active_timestamp := now_time w2\<rparr>"]
      by auto
    with msg w2(1) False show ?thesis
      by (simp add: safe_result_def)
  qed
qed

lemma OnBackEndMsg_safe:
  assumes "ready L inv w" and "p \<in> pool_ptrs (backend_mgr w)"
    and "list_all (from_back L) (views_of (backend_mgr w) p [] w)"
  shows "safe_result inv (OnBackEndMsg app rpc p w)"
proof -
  obtain n b where n: "nets (net_heap w) p = Some n" "hevent n = Some b"
      "map_of (handler_pool (backend_mgr w)) (bev_fd b) = Some p"
    using pooled_net [OF world_okD(2) [OF readyD(2) [OF assms(1)]] assms(2)] .
  let ?msg = "take (recv_size (backend_mgr w)) (bev_in b)"
  have good_msg: "list_all (from_back L) (fst (split_with server_len ?msg))"
    using assms(3) n by (simp add: views_of_def)
  obtain k w1 where w1: "back_loop app rpc p ?msg 0 w = Done (k, w1)" "ready L inv w1" "p \<in> pool_ptrs (backend_mgr w1)"
    using back_loop_safe [OF assms(1,2) good_msg] by blast
  obtain w2 where "modify_net p (bev_drain k) w1 = Done w2" "sound inv w2"
    using modify_net_sound [OF readyD(1) [OF w1(2)] back_all [OF w1(3)], of "bev_drain k"] by auto
  then show ?thesis
    using n w1(1) by (simp add: OnBackEndMsg_def get_net_def GetHandlerByEvent_def safe_result_def)
qed

lemma RemoveFrontByEvent_safe:
  assumes "sound inv w"
  shows "\<exists>w'. RemoveFrontByEvent fd w = Done w' \<and> sound inv w'"
proof -
  obtain r h m where rm: "RemoveHandlerByEvent fd (net_heap w) (frontend_mgr w) = Done (r, h, m)"
      "mgr_keeps (pool_ptrs (backend_mgr w)) (net_heap w) h m"
    using RemoveHandlerByEvent_keeps [OF world_okD(1) [OF soundD(1) [OF assms]]] by blast
  from sound_kept [OF assms undisturbed_weaken [OF remove_front_undisturbed [OF rm(1)]]
      world_ok_front [OF soundD(1) [OF assms] rm(2)]]
  show ?thesis
    using rm(1) by (simp add: RemoveFrontByEvent_def)
qed

lemma front_close_safe:
  assumes "sound inv w"
  shows "\<exists>w'. front_close app fd w = Done w' \<and> sound inv w'"
proof (cases "map_of (handler_pool (frontend_mgr w)) fd")
  case None
  with RemoveFrontByEvent_safe [OF assms] show ?thesis
    by (simp add: front_close_def GetHandlerByEvent_def)
next
  case (Some p)
  obtain n b where n: "nets (net_heap w) p = Some n" "hevent n = Some b"
    using pool_okD [OF mgr_invD(2) [OF world_okD(1) [OF soundD(1) [OF assms]]] Some] by blast
  obtain r w1 where "OnFrontEndClose app p (net_type n) w = Done (r, w1)" "sound inv w1"
    using closed [OF assms map_of_in_ptrs [OF Some]] by blast
  with Some n RemoveFrontByEvent_safe [of w1] show ?thesis
    by (simp add: front_close_def GetHandlerByEvent_def get_net_def)
qed

lemma OnFrontEndSocketEvent_safe: "sound inv w \<Longrightarrow> safe_result inv (OnFrontEndSocketEvent app fd evs w)"
  using front_close_safe [of w fd] by (auto simp: OnFrontEndSocketEvent_def safe_result_def)

lemma OnBackEndSocketEvent_safe:
  assumes "sound inv w"
  shows "safe_result inv (OnBackEndSocketEvent fd evs w)"
proof -
  have change: "safe_result inv (bindE (ChangeNetStateByEvent (Some fd) st (net_heap w) (backend_mgr w))
      (\<lambda>(r, h). Done (0, w\<lparr>net_heap := h\<rparr>)))" for st
  proof -
    obtain r h where ch: "ChangeNetStateByEvent (Some fd) st (net_heap w) (backend_mgr w) = Done (r, h)"
        and keeps: "mgr_keeps (pool_ptrs (frontend_mgr w)) (net_heap w) h (backend_mgr w)"
      using ChangeNetStateByEvent_keeps [OF world_okD(2) [OF soundD(1) [OF assms]], of "Some fd" st] by blast
    have "foreign_same (pool_ptrs (frontend_mgr w)) (net_heap w) h"
      using keeps by (simp add: mgr_keeps_def)
    then have "undisturbed False w (w\<lparr>net_heap := h\<rparr>)"
      by (simp add: undisturbed_def kept_nets_def foreign_same_def)
    moreover have "world_ok (w\<lparr>net_heap := h\<rparr>)"
      using world_ok_back [OF soundD(1) [OF assms] keeps] by simp
    ultimately show ?thesis
      using ch sound_kept [OF assms] by (simp add: safe_result_def)
  qed
  then show ?thesis
    using assms by (auto simp: OnBackEndSocketEvent_def safe_result_def)
qed

lemma walk_frontends_safe:
  assumes "sound inv w"
  shows "\<exists>w'. walk_frontends w = Done w' \<and> sound inv w'"
proof -
  note ok = soundD(1) [OF assms]
  have "\<exists>w'. walk_frontends w = Done w' \<and> world_ok w'"
    using WalkThrough_keeps [OF world_okD(1) [OF ok], of "Some (DoSomething (setting w) (now_time w))"]
      DoSomething_keeps world_ok_front [OF ok] ok
    by (fastforce simp: walk_frontends_def)
  then obtain w' where w': "walk_frontends w = Done w'" "world_ok w'"
    by blast
  with sound_kept [OF assms undisturbed_weaken [OF walk_frontends_undisturbed [OF w'(1)]]] show ?thesis
    by blast
qed

lemma Tick_safe:
  assumes "sound inv w"
  shows "\<exists>w'. Tick (Suc k) app now w = Some (Done (\<not> running w, w')) \<and> sound inv w'"
proof -
  obtain w1 where w1: "(if reloading w then bindE (OnReload app (w\<lparr>now_time := now\<rparr>)) (\<lambda>w1. Done (w1\<lparr>reloading := False\<rparr>))
      else Done (w\<lparr>now_time := now\<rparr>)) = Done w1" "sound inv w1"
  proof (cases "reloading w")
    case True
    obtain wr where wr: "OnReload app (w\<lparr>now_time := now\<rparr>) = Done wr" "sound inv wr"
      using reload [OF sound_upd(1) [OF assms]] by blast
    with True that [OF _ sound_upd(2) [OF wr(2), of False]] show thesis
      by simp
  qed (use that sound_upd(1) [OF assms] in simp)
  obtain w2 where w2: "(if schedule_update w1 then OnUpdate app w1 else Done w1) = Done w2" "sound inv w2"
    using update [OF w1(2)] w1(2) by (cases "schedule_update w1") auto
  obtain w3 where "walk_frontends w2 = Done w3" "sound inv w3"
    using walk_frontends_safe [OF w2(2)] by blast
  moreover have "timer_loop (Suc k) app w2 = Some (Done w2)"
    by (rule timer_loop_empty) (rule world_okD(3) [OF soundD(1) [OF w2(2)]])
  ultimately have "Tick (Suc k) app now w = Some (Done (\<not> running w, w3))"
    using w1(1) w2(1) by (simp add: Tick_def tick_prologue_def)
  then show ?thesis
    using \<open>sound inv w3\<close> by blast
qed

end

lemma ptrs_insert: "p \<in> snd ` set (pool_insert pos fd p pool)"
proof (cases "fd \<in> fst ` set pool")
  case True
  then obtain q where "(fd, q) \<in> set pool"
    by auto
  then have "(fd, p) \<in> set (pool_insert pos fd p pool)"
    using True by (force simp: pool_insert_def)
  then show ?thesis
    by force
next
  case False
  then show ?thesis
    by (simp add: pool_insert_def)
qed

lemma ptrs_insert_sub: "snd ` set (pool_insert pos fd p pool) \<subseteq> insert p (snd ` set pool)"
  by (auto simp: pool_insert_def dest: in_set_takeD in_set_dropD)

text \<open>What accepting a socket does to the world.\<close>

lemma accept_new_front:
  assumes "AddHandlerBySocket ok pos sock type (net_heap w) (frontend_mgr w) = Done (Some p, h, m)"
  shows "new_front p None w (w\<lparr>net_heap := h, frontend_mgr := m\<rparr>)"
proof -
  have "m = (frontend_mgr w)\<lparr>handler_pool := pool_insert pos sock p (handler_pool (frontend_mgr w))\<rparr>"
    "\<And>q. q \<noteq> p \<Longrightarrow> nets h q = nets (net_heap w) q" "\<And>n. nets h p = Some n \<Longrightarrow> seen n = (NET_ESTABLISHED, None)"
    using assms
    by (auto simp: AddHandlerBySocket_def AddHandlerToMap_def EasyNet_Init_def EasyNet_new_def pool_ptrs_def Let_def
        alloc_net_def seen_def split: if_splits)
  moreover from this(1) have "p \<in> pool_ptrs m" "pool_ptrs m \<subseteq> insert p (pool_ptrs (frontend_mgr w))"
    by (simp_all add: pool_ptrs_def ptrs_insert ptrs_insert_sub)
  ultimately show ?thesis
    by (simp add: new_front_def kept_nets_def)
qed

lemma accept_failed_undisturbed:
  assumes "AddHandlerBySocket ok pos sock type (net_heap w) (frontend_mgr w) = Done (None, h, m)"
  shows "undisturbed False w (w\<lparr>net_heap := h, frontend_mgr := m\<rparr>)"
proof -
  have "m = frontend_mgr w" "\<And>q n. nets h q = Some n \<Longrightarrow> nets (net_heap w) q = Some n"
    using assms
    by (auto simp: AddHandlerBySocket_def AddHandlerToMap_def EasyNet_Init_def EasyNet_new_def Let_def
        alloc_net_def free_net_def split: if_splits)
  then show ?thesis
    by (simp add: undisturbed_def kept_nets_def)
qed

lemma new_front_undisturbed:
  assumes "new_front p c w w1" and "undisturbed True w1 w2" and "pools_kept w1 w2"
  shows "new_front p c w w2"
proof -
  have same: "frontend_mgr w2 = frontend_mgr w1" "backend_mgr w2 = backend_mgr w1"
    using assms(3) by (simp_all add: pools_kept_def)
  have k: "kept_nets (pool_ptrs (frontend_mgr w1)) (net_heap w1) (net_heap w2)"
    using assms(2) same by (simp add: undisturbed_def)
  have "kept_nets (pool_ptrs (frontend_mgr w1) - {p}) (net_heap w) (net_heap w2)"
  proof (rule kept_nets_trans)
    show "kept_nets (pool_ptrs (frontend_mgr w1) - {p}) (net_heap w) (net_heap w1)"
      using assms(1) by (simp add: new_front_def)
    show "kept_nets (pool_ptrs (frontend_mgr w1) - {p}) (net_heap w1) (net_heap w2)"
      using k by (simp add: kept_nets_def)
  qed simp
  moreover have "seen n = (NET_ESTABLISHED, c)" if "nets (net_heap w2) p = Some n" for n
    using k that assms(1) unfolding kept_nets_def new_front_def by metis
  ultimately show ?thesis
    using assms(1,2) same by (simp add: new_front_def undisturbed_def)
qed

lemma new_front_context:
  assumes "new_front p c w w1" and "seen n1 = (NET_ESTABLISHED, c1)"
  shows "new_front p c1 w (set_net p n1 w1)"
  using assms by (simp add: new_front_def kept_nets_def set_net_def)

lemma new_front_env:
  "new_front p c w w1 \<Longrightarrow> write_rc e = write_rc (env w1) \<Longrightarrow> new_front p c w (w1\<lparr>env := e\<rparr>)"
  by (simp add: new_front_def kept_nets_def)

lemma draw_alloc_env: "\<exists>r e. draw_alloc w = (r, w\<lparr>env := e\<rparr>) \<and> write_rc e = write_rc (env w)"
  by (cases "alloc_rc (env w)") (auto simp: draw_alloc_def intro: exI [of _ "env w"])

lemma draw_pos_env: "\<exists>r e. draw_pos w = (r, w\<lparr>env := e\<rparr>) \<and> write_rc e = write_rc (env w)"
  by (cases "hash_pos (env w)") (auto simp: draw_pos_def intro: exI [of _ "env w"])

context guarded_app
begin

text \<open>From the new connection on.\<close>

lemma connect_rest_safe:
  assumes inv: "inv w" and "world_ok w1" and new: "new_front p None w w1"
  shows "safe_result inv (bindE (modify_net p (\<lambda>n. n\<lparr>uri := u\<rparr>) w1) (\<lambda>w2.
      if long then Done (-1, w2)
      else
        (let uctx_size = GetFrontEndContextSize app;
             (ok2, w3) = (if 0 < uctx_size then draw_alloc w2 else (True, w2))
         in bindE (get_net p w3) (\<lambda>n.
              case CreateUserContext ok2 (zero_context app) uctx_size n of
                (r, n1) \<Rightarrow>
                  let w4 = set_net p n1 w3 in
                  if r \<noteq> 0 then bindE (DestroyFrontEnd (Some p) w4) (\<lambda>w5. Done (-1, w5))
                  else
                    bindE (modify_net p (\<lambda>n. n\<lparr>last_active_timestamp := now_time w4\<rparr>) w4) (\<lambda>w5.
                      bindE (OnFrontEndConnect app p 0 w5) (\<lambda>(r2, w6). Done (0, w6)))))))"
proof -
  let ?k = "GetFrontEndContextSize app"
  let ?c = "if 0 < ?k then Some (zero_context app) else None"
  have p1: "p \<in> pool_ptrs (frontend_mgr w1)"
    using new by (simp add: new_front_def)
  obtain w2 where w2: "modify_net p (\<lambda>n. n\<lparr>uri := u\<rparr>) w1 = Done w2" "pools_kept w1 w2" "undisturbed True w1 w2"
    using modify_net_steady [OF assms(2) front_all [OF p1], of "\<lambda>n. n\<lparr>uri := u\<rparr>"] by auto
  note new2 = new_front_undisturbed [OF new w2(3,2)]
  obtain ok e where w3: "(if 0 < ?k then draw_alloc w2 else (True, w2)) = (ok, w2\<lparr>env := e\<rparr>)"
    and e: "write_rc e = write_rc (env w2)"
  proof (cases "0 < ?k")
    case True
    with draw_alloc_env [of w2] that show thesis
      by auto
  next
    case False
    with that [of True "env w2"] show thesis
      by simp
  qed
  let ?w3 = "w2\<lparr>env := e\<rparr>"
  note new3 = new_front_env [OF new2 e]
  have ok3: "world_ok ?w3" and p3: "p \<in> pool_ptrs (frontend_mgr ?w3)"
    using pools_kept_ok [OF w2(2)] pools_kept_front [OF w2(2) p1] by simp_all
  obtain n b where n: "nets (net_heap ?w3) p = Some n" "hevent n = Some b"
    using live_net [OF ok3 front_all [OF p3]] .
  have st: "seen n = (NET_ESTABLISHED, None)"
    using new3 n(1) by (simp add: new_front_def)
  obtain r n1 where c: "CreateUserContext ok (zero_context app) ?k n = (r, n1)" "same_net n n1"
      "r = 0 \<Longrightarrow> seen n1 = (NET_ESTABLISHED, ?c)" "r \<noteq> 0 \<Longrightarrow> seen n1 = (NET_ESTABLISHED, None)"
  proof
    show "CreateUserContext ok (zero_context app) ?k n
        = (fst (CreateUserContext ok (zero_context app) ?k n), snd (CreateUserContext ok (zero_context app) ?k n))"
      by simp
  qed (use st in \<open>simp_all add: CreateUserContext_def seen_def split: if_splits\<close>)
  let ?w4 = "set_net p n1 ?w3"
  have ok4: "world_ok ?w4"
    by (rule world_ok_set_net [OF ok3 n(1) c(2)])
  have p4: "p \<in> pool_ptrs (frontend_mgr ?w4)"
    using p3 by (simp add: set_net_def)
  show ?thesis
  proof (cases "long")
    case True
    have "sound inv w2"
      using joined [OF inv pools_kept_ok [OF w2(2)] new2] pools_kept_ok [OF w2(2)] by (simp add: sound_def)
    with True w2(1) show ?thesis
      by (simp add: safe_result_def)
  next
    case short: False
    show ?thesis
    proof (cases "r = 0")
      case False
      have "sound inv ?w4"
        using joined [OF inv ok4 new_front_context [OF new3 c(4) [OF False]]] ok4 by (simp add: sound_def)
      moreover obtain q h m where rm: "RemoveHandler (Some p) (net_heap ?w4) (frontend_mgr ?w4) = Done (q, h, m)"
          "mgr_keeps (pool_ptrs (backend_mgr ?w4)) (net_heap ?w4) h m"
        using RemoveHandler_keeps [OF world_okD(1) [OF ok4] p4] by blast
      moreover have "undisturbed True ?w4 (?w4\<lparr>net_heap := h, frontend_mgr := m\<rparr>)"
        using rm(1) remove_front_undisturbed by (auto simp: RemoveHandler_def bindE_eq_Done)
      ultimately have "sound inv (?w4\<lparr>net_heap := h, frontend_mgr := m\<rparr>)"
        using sound_kept [OF _ undisturbed_weaken] world_ok_front [OF ok4 rm(2)] by blast
      with short False w2(1) w3 n(1) c(1) rm(1) show ?thesis
        by (simp add: safe_result_def get_net_def DestroyFrontEnd_def)
    next
      case True
      obtain w5 where w5: "modify_net p (\<lambda>n. n\<lparr>last_active_timestamp := now_time ?w4\<rparr>) ?w4 = Done w5" "pools_kept ?w4 w5"
          "undisturbed True ?w4 w5"
        using modify_net_steady [OF ok4 front_all [OF p4], of "\<lambda>n. n\<lparr>last_active_timestamp := now_time ?w4\<rparr>"] by auto
      have "new_front p ?c w w5"
        by (rule new_front_undisturbed [OF new_front_context [OF new3 c(3) [OF True]] w5(3,2)])
      from connect [OF inv pools_kept_ok [OF w5(2)] this] obtain s w6 where
          "OnFrontEndConnect app p 0 w5 = Done (s, w6)" "sound inv w6"
        by blast
      with short True w2(1) w3 n(1) c(1) w5(1) show ?thesis
        by (simp add: safe_result_def get_net_def)
    qed
  qed
qed

lemma fw_OnFrontEndConnect_safe:
  assumes s: "sound inv w" and "sock \<notin> fst ` set (handler_pool (frontend_mgr w))"
  shows "safe_result inv (fw_OnFrontEndConnect app sock addr w)"
proof -
  obtain ok e1 where d1: "draw_alloc w = (ok, w\<lparr>env := e1\<rparr>)" "write_rc e1 = write_rc (env w)"
    using draw_alloc_env by blast
  obtain pos e2 where "draw_pos (w\<lparr>env := e1\<rparr>) = (pos, w\<lparr>env := e1\<rparr>\<lparr>env := e2\<rparr>)" "write_rc e2 = write_rc e1"
    using draw_pos_env [of "w\<lparr>env := e1\<rparr>"] by auto
  then have d2: "draw_pos (w\<lparr>env := e1\<rparr>) = (pos, w\<lparr>env := e2\<rparr>)" "write_rc e2 = write_rc (env w)"
    using d1 by simp_all
  let ?w = "w\<lparr>env := e2\<rparr>"
  have sw: "sound inv ?w"
    using sound_kept [OF s undisturbed_env [OF d2(2)]] soundD(1) [OF s] by simp
  obtain net h m where add: "AddHandlerBySocket ok pos sock 0 (net_heap ?w) (frontend_mgr ?w) = Done (net, h, m)"
      "mgr_keeps (pool_ptrs (backend_mgr ?w)) (net_heap ?w) h m"
    using AddHandlerBySocket_keeps [of "pool_ptrs (backend_mgr ?w)" "net_heap ?w" "frontend_mgr ?w" sock ok pos 0]
      world_okD(1) [OF soundD(1) [OF s]] assms(2) by auto
  let ?w1 = "?w\<lparr>net_heap := h, frontend_mgr := m\<rparr>"
  have ok1: "world_ok ?w1"
    by (rule world_ok_front [OF soundD(1) [OF sw] add(2)])
  show ?thesis
  proof (cases net)
    case None
    have "undisturbed False ?w ?w1"
      by (rule accept_failed_undisturbed) (use add(1) None in simp)
    from sound_kept [OF sw this ok1] None d1 d2 add(1) show ?thesis
      by (simp add: fw_OnFrontEndConnect_def safe_result_def)
  next
    case (Some p)
    have "new_front p None ?w ?w1"
      by (rule accept_new_front) (use add(1) Some in simp)
    from connect_rest_safe [OF soundD(2) [OF sw] ok1 this, of "take (MAX_URL_LEN - 2) addr" "MAX_URL_LEN \<le> length addr"]
    show ?thesis
      using d1 d2 add(1) Some by (simp add: fw_OnFrontEndConnect_def Let_def)
  qed
qed

end

context guarded_app
begin

lemma OnCtrlMsg_safe:
  assumes "sound inv w" and "event_within L delim (EvCtrl input) w"
  shows "safe_result inv (OnCtrlMsg app delim input w)"
proof -
  obtain argv mem args where a: "libevent_get_arguments delim (read_ctrl (ctrl_msg w) input) = Done (argv, mem)"
      "read_args mem argv = Done args"
    using assms(2) by (auto simp: event_within_def bindE_eq_Done split: exec.splits)
  note ok = sound_upd(4) [OF assms(1), of mem]
  obtain r w2 where "OnRecvCtrl app args (w\<lparr>ctrl_msg := mem\<rparr>) = Done (r, w2)" "sound inv w2"
    using ctrl [OF ok] by blast
  with a ok assms(1) show ?thesis
    by (auto simp: OnCtrlMsg_def safe_result_def Let_def)
qed

text \<open>Every event.\<close>

lemma no_break_safe: "safe_result inv r \<Longrightarrow> \<exists>w'. no_break r = Some (Done (False, w')) \<and> sound inv w'"
  by (auto simp: safe_result_def no_break_def)

lemma feed_safe:
  assumes "sound inv w" and "able L w" and "p \<in> all_ptrs w"
  shows "\<exists>w'. modify_net p (bev_feed bs) w = Done w' \<and> pools_kept w w' \<and> ready L inv w'
    \<and> views_of m p [] w' = views_of m p bs w"
proof -
  have "ready L inv w"
    using assms by (simp add: ready_def)
  then obtain w' where w': "modify_net p (bev_feed bs) w = Done w'" "pools_kept w w'" "ready L inv w'"
    using modify_net_ready [OF _ assms(3), of "bev_feed bs"] by auto
  then have "views_of m p [] w' = views_of m p bs w"
    by (auto simp: views_of_def modify_net_def get_net_def set_net_def bindE_eq_Done deref_eq_Done
        bev_feed_def split: option.split)
  with w' show ?thesis
    by blast
qed

lemma on_event_safe:
  assumes ok: "sound inv w" and fits: "event_within L delim e w"
  shows "\<exists>brk w'. on_event (Suc k) app rpc delim e w = Some (Done (brk, w')) \<and> sound inv w'"
proof (cases e)
  case (EvTick now)
  with Tick_safe [OF ok, of k now] show ?thesis
    by (auto simp: on_event_def)
next
  case (EvAccept sock addr)
  have "safe_result inv (if sock < 0 then Done (-1, w) else fw_OnFrontEndConnect app sock addr w)"
    using fw_OnFrontEndConnect_safe [OF ok, of sock addr] fits ok EvAccept
    by (auto simp: event_within_def safe_result_def)
  from no_break_safe [OF this] show ?thesis
    using EvAccept by (auto simp: on_event_def)
next
  case (EvFrontData p bs)
  then have p: "p \<in> pool_ptrs (frontend_mgr w)" "able L w"
      "list_all (from_front L) (views_of (frontend_mgr w) p bs w)"
    using fits by (simp_all add: event_within_def)
  obtain w1 where w1: "modify_net p (bev_feed bs) w = Done w1" "pools_kept w w1" "ready L inv w1"
      "views_of (frontend_mgr w) p [] w1 = views_of (frontend_mgr w) p bs w"
    using feed_safe [OF ok p(2) front_all [OF p(1)]] by blast
  have "list_all (from_front L) (views_of (frontend_mgr w1) p [] w1)"
    using w1(2,4) p(3) by (simp add: pools_kept_def)
  from no_break_safe [OF OnFrontEndMsg_safe [OF w1(3) pools_kept_front [OF w1(2) p(1)] this]]
  show ?thesis
    using EvFrontData w1(1) by (auto simp: on_event_def)
next
  case (EvFrontSocket p evs)
  then have p: "p \<in> all_ptrs w"
    using fits by (simp add: event_within_def all_ptrs_def)
  obtain n b where "nets (net_heap w) p = Some n" "hevent n = Some b"
    using live_net [OF soundD(1) [OF ok] p] .
  with no_break_safe [OF OnFrontEndSocketEvent_safe [OF ok, of "bev_fd b" evs]] show ?thesis
    using EvFrontSocket by (auto simp: on_event_def get_net_def)
next
  case (EvBackData p bs)
  then have p: "p \<in> pool_ptrs (backend_mgr w)" "able L w"
      "list_all (from_back L) (views_of (backend_mgr w) p bs w)"
    using fits by (simp_all add: event_within_def)
  obtain w1 where w1: "modify_net p (bev_feed bs) w = Done w1" "pools_kept w w1" "ready L inv w1"
      "views_of (backend_mgr w) p [] w1 = views_of (backend_mgr w) p bs w"
    using feed_safe [OF ok p(2) back_all [OF p(1)]] by blast
  have "list_all (from_back L) (views_of (backend_mgr w1) p [] w1)"
    using w1(2,4) p(3) by (simp add: pools_kept_def)
  from no_break_safe [OF OnBackEndMsg_safe [OF w1(3) pools_kept_back [OF w1(2) p(1)] this]]
  show ?thesis
    using EvBackData w1(1) by (auto simp: on_event_def)
next
  case (EvBackSocket p evs)
  then have p: "p \<in> all_ptrs w"
    using fits by (simp add: event_within_def all_ptrs_def)
  obtain n b where "nets (net_heap w) p = Some n" "hevent n = Some b"
    using live_net [OF soundD(1) [OF ok] p] .
  with no_break_safe [OF OnBackEndSocketEvent_safe [OF ok, of "bev_fd b" evs]] show ?thesis
    using EvBackSocket by (auto simp: on_event_def get_net_def)
next
  case (EvCtrl input)
  with no_break_safe [OF OnCtrlMsg_safe [OF ok fits [unfolded EvCtrl]]] show ?thesis
    by (auto simp: on_event_def)
next
  case EvStop
  with sound_upd(3) [OF ok] show ?thesis by (auto simp: on_event_def)
next
  case EvReload
  with sound_upd(2) [OF ok] show ?thesis by (auto simp: on_event_def)
qed

lemma dispatch_safe:
  "sound inv w \<Longrightarrow> events_within L app rpc delim es w \<Longrightarrow>
   \<exists>w'. dispatch_events 1 app rpc delim es w = Some (Done w') \<and> sound inv w'"
proof (induction es arbitrary: w)
  case (Cons e es)
  then obtain brk w1 where w1: "on_event 1 app rpc delim e w = Some (Done (brk, w1))" "sound inv w1"
    using on_event_safe [of w delim e 0] by auto
  with Cons show ?case
    by (cases brk) auto
qed simp

end

section \<open>The whole run\<close>

lemma cleanup_nets_frees:
  "distinct (map snd xs) \<Longrightarrow> snd ` set xs \<subseteq> dom (nets h) \<Longrightarrow>
   \<exists>h'. cleanup_nets xs h = Done h' \<and> dom (nets h') = dom (nets h) - snd ` set xs"
proof (induction xs arbitrary: h)
  case (Cons x xs)
  obtain n where n: "nets h (snd x) = Some n"
    using Cons.prems(2) by auto
  let ?h = "free_net (snd x) (h\<lparr>nets := (nets h)(snd x \<mapsto> EasyNet_CleanUp n)\<rparr>)"
  have d: "dom (nets ?h) = dom (nets h) - {snd x}"
    by (auto simp: free_net_def domIff split: if_splits)
  have "snd x \<notin> snd ` set xs"
    using Cons.prems(1) by simp
  then have "snd ` set xs \<subseteq> dom (nets ?h)"
    using Cons.prems(2) unfolding d by (simp add: subset_Diff_insert)
  then obtain h' where "cleanup_nets xs ?h = Done h'" "dom (nets h') = dom (nets ?h) - snd ` set xs"
    using Cons.IH [of ?h] Cons.prems(1) by auto
  then show ?case
    using n d by (auto simp: update_net_def)
qed simp

lemma cleanup_nets_same:
  "cleanup_nets xs h = Done h' \<Longrightarrow> p \<notin> snd ` set xs \<Longrightarrow> nets h' p = nets h p"
proof (induction xs arbitrary: h)
  case (Cons x xs)
  then obtain n where "cleanup_nets xs (free_net (snd x) (h\<lparr>nets := (nets h)(snd x \<mapsto> EasyNet_CleanUp n)\<rparr>)) = Done h'"
    by (auto simp: bindE_eq_Done update_net_def)
  from Cons.IH [OF this] Cons.prems(2) show ?case
    by (simp add: free_net_def)
qed simp

lemma pool_cleanup_frees:
  assumes "pool_ok h m" and "pool_ptrs m \<subseteq> dom (nets h)"
  shows "\<exists>h' m'. NetHandlerMgr_CleanUp h m = Done (h', m') \<and> dom (nets h') = dom (nets h) - pool_ptrs m"
  using cleanup_nets_frees [OF pool_ok_distinct_ptrs [OF assms(1)], of h] assms(2)
  by (auto simp: NetHandlerMgr_CleanUp_def pool_ptrs_def)

lemma fw_CleanUp_frees:
  assumes "world_ok w"
  shows "\<exists>w'. fw_CleanUp w = Done w' \<and> nets (net_heap w') = Map.empty"
proof -
  note f = mgr_invD [OF world_okD(1) [OF assms]] and b = mgr_invD [OF world_okD(2) [OF assms]]
  obtain h m where hm: "NetHandlerMgr_CleanUp (net_heap w) (backend_mgr w) = Done (h, m)"
      "dom (nets h) = dom (nets (net_heap w)) - pool_ptrs (backend_mgr w)"
    using pool_cleanup_frees [OF b(2)] b(3) by blast
  have left: "dom (nets h) = pool_ptrs (frontend_mgr w)"
    using hm(2) f(3,4) by blast
  have "net_fd h p = net_fd (net_heap w) p" if "p \<in> pool_ptrs (frontend_mgr w)" for p
  proof -
    have "p \<notin> snd ` set (handler_pool (backend_mgr w))"
      using that f(4) by (auto simp: pool_ptrs_def)
    moreover have "cleanup_nets (handler_pool (backend_mgr w)) (net_heap w) = Done h"
      using hm(1) by (auto simp: NetHandlerMgr_CleanUp_def bindE_eq_Done)
    ultimately show ?thesis
      using cleanup_nets_same by (metis net_fd_def)
  qed
  then obtain h2 m2 where "NetHandlerMgr_CleanUp h (frontend_mgr w) = Done (h2, m2)" "dom (nets h2) = {}"
    using pool_cleanup_frees [OF pool_ok_cong [OF f(2)], of h] left by blast
  with hm(1) show ?thesis
    by (simp add: fw_CleanUp_def)
qed

context guarded_app
begin

lemma run_safe:
  assumes "world_ok w" and "started w" and "run_within L app rpc delim es w"
  shows "\<exists>r w'. AppLauncher_Run 1 app rpc delim es 0 w = Some (Done (r, w'))
    \<and> (r = 0 \<and> nets (net_heap w') = Map.empty \<or> r = -1 \<and> world_ok w')"
proof -
  obtain ret w1 where w1: "OnInit app w = Done (ret, w1)" "world_ok w1" "ret = 0 \<longrightarrow> inv w1"
    using init [OF assms(1,2)] by blast
  show ?thesis
  proof (cases "ret = 0")
    case False
    with w1 show ?thesis
      by (simp add: AppLauncher_Run_def)
  next
    case True
    then have fit: "events_within L app rpc delim es (w1\<lparr>running := True\<rparr>)"
      using assms(3) w1(1) by (simp add: run_within_def)
    have "sound inv w1"
      using w1 True by (simp add: sound_def)
    from dispatch_safe [OF sound_upd(3) [OF this] fit] obtain w2 where
        w2: "dispatch_events 1 app rpc delim es (w1\<lparr>running := True\<rparr>) = Some (Done w2)" "sound inv w2"
      by blast
    obtain r3 w3 where w3: "OnFini app w2 = Done (r3, w3)" "world_ok w3"
      using fini [OF w2(2)] by blast
    obtain w4 where "fw_CleanUp w3 = Done w4" "nets (net_heap w4) = Map.empty"
      using fw_CleanUp_frees [OF w3(2)] by blast
    with True w1(1) w2(1) w3(1) show ?thesis
      by (simp add: AppLauncher_Run_def MainLoop_def)
  qed
qed

end

text \<open>A run ends with 0 when \<open>OnInit\<close> does.\<close>

lemma run_result:
  "OnInit app w = Done (0, w1) \<Longrightarrow> AppLauncher_Run fuel app rpc delim es 0 w = Some (Done (r, w')) \<Longrightarrow> r = 0"
  by (auto simp: AppLauncher_Run_def bindE_eq_Done)

section \<open>Applications without an invariant of their own\<close>

text \<open>\<open>good\<close> says which messages of a client the application can be given; nothing else is
  asked.\<close>

definition front_only :: "(view \<Rightarrow> bool) \<Rightarrow> ('c, 'a) limits" where
  "front_only good = \<lparr>from_front = good, from_back = \<lambda>_. True, able = \<lambda>_. True\<rparr>"

abbreviation event_fits :: "(view \<Rightarrow> bool) \<Rightarrow> string \<Rightarrow> loop_event \<Rightarrow> ('c, 'a) world \<Rightarrow> bool" where
  "event_fits good \<equiv> event_within (front_only good)"

abbreviation events_fit ::
    "(view \<Rightarrow> bool) \<Rightarrow> ('c, 'a) rapid_app \<Rightarrow> ('c, 'a) rpc_hooks \<Rightarrow> string \<Rightarrow> loop_event list \<Rightarrow> ('c, 'a) world \<Rightarrow> bool" where
  "events_fit good \<equiv> events_within (front_only good)"

abbreviation run_fits ::
    "(view \<Rightarrow> bool) \<Rightarrow> ('c, 'a) rapid_app \<Rightarrow> ('c, 'a) rpc_hooks \<Rightarrow> string \<Rightarrow> loop_event list \<Rightarrow> ('c, 'a) world \<Rightarrow> bool" where
  "run_fits good \<equiv> run_within (front_only good)"

locale safe_app =
  fixes good :: "view \<Rightarrow> bool" and app :: "('c, 'a) rapid_app" and rpc :: "('c, 'a) rpc_hooks"
  assumes init: "world_ok w \<Longrightarrow> \<exists>r w'. OnInit app w = Done (r, w') \<and> world_ok w'"
    and fini: "world_ok w \<Longrightarrow> \<exists>r w'. OnFini app w = Done (r, w') \<and> world_ok w'"
    and update: "world_ok w \<Longrightarrow> \<exists>w'. OnUpdate app w = Done w' \<and> world_ok w'"
    and reload: "world_ok w \<Longrightarrow> \<exists>w'. OnReload app w = Done w' \<and> world_ok w'"
    and ctrl: "world_ok w \<Longrightarrow> \<exists>r w'. OnRecvCtrl app args w = Done (r, w') \<and> world_ok w'"
    and connect: "world_ok w \<Longrightarrow> p \<in> pool_ptrs (frontend_mgr w) \<Longrightarrow>
      \<exists>r w'. OnFrontEndConnect app p t w = Done (r, w') \<and> world_ok w'"
    and closed: "world_ok w \<Longrightarrow> p \<in> pool_ptrs (frontend_mgr w) \<Longrightarrow>
      \<exists>r w'. OnFrontEndClose app p t w = Done (r, w') \<and> world_ok w'"
    and recv_front: "world_ok w \<Longrightarrow> p \<in> pool_ptrs (frontend_mgr w) \<Longrightarrow> good v \<Longrightarrow>
      \<exists>r w'. OnRecvFrontEnd app p t v w = Done (r, w') \<and> world_ok w' \<and> p \<in> pool_ptrs (frontend_mgr w')"
    and recv_back: "world_ok w \<Longrightarrow> p \<in> pool_ptrs (backend_mgr w) \<Longrightarrow>
      \<exists>r w'. OnRecvBackEnd app p t v w = Done (r, w') \<and> world_ok w' \<and> p \<in> pool_ptrs (backend_mgr w')"
    and rpc_front: "world_ok w \<Longrightarrow> p \<in> pool_ptrs (frontend_mgr w) \<Longrightarrow> good v \<Longrightarrow>
      \<exists>r w'. OnFrontEndRpcMsg rpc p v w = Done (r, w') \<and> world_ok w' \<and> p \<in> pool_ptrs (frontend_mgr w')"
    and rpc_back: "world_ok w \<Longrightarrow> p \<in> pool_ptrs (backend_mgr w) \<Longrightarrow>
      \<exists>w'. rpc_Resume rpc rp v w = Done w' \<and> world_ok w' \<and> p \<in> pool_ptrs (backend_mgr w')"

sublocale safe_app \<subseteq> contract: guarded_app "front_only good" "\<lambda>_. True" "\<lambda>_. True" app rpc
  by unfold_locales (use init fini update reload ctrl connect closed recv_front recv_back rpc_front rpc_back in
    \<open>auto simp: front_only_def ready_def sound_def new_front_def\<close>)

context safe_app
begin

lemma safe_run:
  assumes "world_ok w" and "run_fits good app rpc delim es w"
  shows "\<exists>r w'. AppLauncher_Run 1 app rpc delim es 0 w = Some (Done (r, w'))
    \<and> (r = 0 \<and> nets (net_heap w') = Map.empty \<or> r = -1 \<and> world_ok w')"
  using contract.run_safe [OF assms(1) _ assms(2)] by simp

end

end
