(* ===== verification/EchoApp.thy ===== *)
theory EchoApp
  imports EventLoop ServerApi
begin

text \<open>
  Two complete applications on the event loop: the echo server \<open>tools/echosvr/rapidapp_imp.*\<close>,
  and the demo backend of the connector. Both honour the framework's contract, so whole runs of
  either are safe; what the echo server sends is what it was sent.
\<close>

section \<open>The echo server\<close>

record echo =
  frame_stub :: bool

text \<open>\<open>OnInit\<close> keeps the framework's pointer, which is not NULL.\<close>

definition echo_OnInit :: "('c, echo) world \<Rightarrow> (int \<times> ('c, echo) world) exec" where
  "echo_OnInit w = Done (0, w\<lparr>app_state := (app_state w)\<lparr>frame_stub := True\<rparr>\<rparr>)"

text \<open>
  A message whose size has wrapped around is sent with that size: the second write of
  \<open>EasyNet::Send\<close> reads past the end of the receive buffer.
\<close>

definition echo_OnRecvFrontEnd ::
    "ptr \<Rightarrow> int \<Rightarrow> view \<Rightarrow> ('c, echo) world \<Rightarrow> (int \<times> ('c, echo) world) exec" where
  "echo_OnRecvFrontEnd net type msg w =
     (if \<not> frame_stub (app_state w) then Done (-1, w)
      else
        (case msg of
           View m \<Rightarrow> bindE (SendToFrontEnd (Some net) (Some m) w) (\<lambda>(r, w1). Done (0, w1))
         | Wild k \<Rightarrow>
             bindE (get_net net w) (\<lambda>n.
               if hevent n = None then Crash AssertFailed
               else if net_state n \<noteq> NET_ESTABLISHED then Done (0, w)
               else (let (r1, w1) = draw_write w in if r1 \<noteq> 0 then Done (0, w1) else Crash OutOfBounds))))"

definition echo_app :: "'c \<Rightarrow> ('c, echo) rapid_app" where
  "echo_app z =
     \<lparr>OnInit = echo_OnInit, OnFini = (\<lambda>w. Done (0, w)), OnUpdate = Done, OnReload = Done,
      OnRecvCtrl = (\<lambda>_ w. Done (0, w)), OnFrontEndConnect = (\<lambda>_ _ w. Done (0, w)),
      OnFrontEndClose = (\<lambda>_ _ w. Done (0, w)), OnRecvFrontEnd = echo_OnRecvFrontEnd,
      OnRecvBackEnd = (\<lambda>_ _ _ w. Done (0, w)), OnTimer = (\<lambda>_ _ w. Done w),
      GetFrontEndContextSize = 0, GetBackEndContextSize = 0, zero_context = z\<rparr>"

section \<open>What is echoed\<close>

text \<open>The connection after \<open>ms\<close> has been echoed: every message but the empty ones.\<close>

definition echoed :: "byte list list \<Rightarrow> 'c easy_net \<Rightarrow> 'c easy_net" where
  "echoed ms n =
     n\<lparr>hevent := map_option (\<lambda>b. b\<lparr>bev_out := bev_out b @ concat (map encode_frame (filter (\<lambda>m. m \<noteq> []) ms))\<rparr>)
                   (hevent n),
       curr_pkg_count := curr_pkg_count n + of_nat (length ms)\<rparr>"

lemma echoed_one:
  "hevent n = Some b \<Longrightarrow> echoed [m] n =
     (if m = [] then n else n\<lparr>hevent := Some (bev_write (encode_frame m) b)\<rparr>)
       \<lparr>curr_pkg_count := curr_pkg_count n + 1\<rparr>"
  by (cases n) (simp add: echoed_def bev_write_def)

lemma echoed_step: "echoed ms (echoed [m] n) = echoed (m # ms) n"
  by (cases "hevent n") (simp_all add: echoed_def algebra_simps)

lemma echo_one:
  assumes "frame_stub (app_state w)" and "nets (net_heap w) p = Some n" and "hevent n = Some b"
    and "net_state n = NET_ESTABLISHED" and "write_rc (env w) = []"
  shows "echo_OnRecvFrontEnd p t (View m) w
    = Done (0, if m = [] then w else set_net p (n\<lparr>hevent := Some (bev_write (encode_frame m) b)\<rparr>) w)"
  using assms SendToFrontEnd_ok [OF assms(2-5), of m]
  by (simp add: echo_OnRecvFrontEnd_def) (simp add: SendToFrontEnd_def)

lemma echo_delivers:
  assumes "frame_stub (app_state w)" and "nets (net_heap w) p = Some n" and "hevent n = Some b"
    and "net_state n = NET_ESTABLISHED" and "write_rc (env w) = []"
  shows "deliver (echo_app z) p (map View ms) w
    = Done (if ms = [] then w else set_net p (echoed ms n) w)"
  using assms
proof (induction ms arbitrary: w n b)
  case (Cons m ms)
  let ?n = "echoed [m] n"
  have one: "bindE (OnRecvFrontEnd (echo_app z) p (net_type n) (View m) w) (\<lambda>(r, w1).
        bindE (modify_net p (\<lambda>n. n\<lparr>curr_pkg_count := curr_pkg_count n + 1\<rparr>) w1) f)
      = f (set_net p ?n w)" for f :: "('a, echo) world \<Rightarrow> ('a, echo) world exec"
    using echo_one [OF Cons.prems] Cons.prems(2,3)
    by (simp add: echo_app_def modify_net_def get_net_def echoed_one)
  have "deliver (echo_app z) p (map View ms) (set_net p ?n w)
      = Done (if ms = [] then set_net p ?n w else set_net p (echoed ms ?n) (set_net p ?n w))"
    using Cons.prems by (intro Cons.IH) (auto simp: echoed_def)
  with one Cons.prems(2) show ?case
    by (auto simp: get_net_def echoed_step)
qed simp

lemma echo_keeps_mode: "keeps_mode (echo_app z)"
  by (auto simp: keeps_mode_def echo_app_def echo_OnRecvFrontEnd_def SendToFrontEnd_def net_Send_def
      bindE_eq_Done draw_write_def Let_def split: view.splits if_splits list.splits prod.splits)

lemma echo_split:
  assumes "frame_stub (app_state w)" and "svc_mode w = SVC_MODE_NORMAL"
    and "nets (net_heap w) p = Some n" and "hevent n = Some b"
    and "net_state n = NET_ESTABLISHED" and "write_rc (env w) = []"
    and "map_of (handler_pool (frontend_mgr w)) (bev_fd b) = Some p"
    and "length (bev_in b) \<le> recv_size (frontend_mgr w)" and "split_with server_len (bev_in b) = (map View ms, r)"
  shows "OnFrontEndMsg (echo_app z) rpc p w = Done (0, set_net p
     (n\<lparr>hevent := Some (b\<lparr>bev_in := r,
          bev_out := bev_out b @ concat (map encode_frame (filter (\<lambda>m. m \<noteq> []) ms))\<rparr>),
        curr_pkg_count := curr_pkg_count n + of_nat (length ms),
        curr_traffic_bytes := curr_traffic_bytes n + of_nat (length (bev_in b) - length r),
        last_active_timestamp := now_time w\<rparr>) w)"
proof -
  let ?k = "length (bev_in b) - length r"
  have rest: "drop ?k (bev_in b) = r"
    using split_with_suffix [of "bev_in b" server_len] assms(9) by auto
  have "split_with server_len (take (recv_size (frontend_mgr w)) (bev_in b)) = (map View ms, r)"
    using assms(8,9) by simp
  from OnFrontEndMsg_deliver [OF echo_keeps_mode assms(2-4,7) this]
  have "OnFrontEndMsg (echo_app z) rpc p w = bindE (deliver (echo_app z) p (map View ms) w) (account p ?k)"
    using assms(8) by simp
  also have "\<dots> = account p ?k (if ms = [] then w else set_net p (echoed ms n) w)"
    using echo_delivers [OF assms(1,3-6)] by simp
  finally show ?thesis
    using assms(3,4) rest
    by (cases n, cases b, cases "ms = []") (simp_all add: account_def modify_net_def get_net_def echoed_def)
qed

lemma echo_frames:
  assumes "frame_stub (app_state w)" and "svc_mode w = SVC_MODE_NORMAL"
    and "nets (net_heap w) p = Some n" and "hevent n = Some b"
    and "net_state n = NET_ESTABLISHED" and "write_rc (env w) = []"
    and "map_of (handler_pool (frontend_mgr w)) (bev_fd b) = Some p"
    and "bev_in b = concat (map encode_frame ms) @ r" and "length (bev_in b) \<le> recv_size (frontend_mgr w)"
    and "list_all fits_frame ms" and "r = [] \<or> server_len r = 0 \<or> length r < server_len r"
  shows "OnFrontEndMsg (echo_app z) rpc p w = Done (0, set_net p
     (n\<lparr>hevent := Some (b\<lparr>bev_in := r,
          bev_out := bev_out b @ concat (map encode_frame (filter (\<lambda>m. m \<noteq> []) ms))\<rparr>),
        curr_pkg_count := curr_pkg_count n + of_nat (length ms),
        curr_traffic_bytes := curr_traffic_bytes n + of_nat (length (concat (map encode_frame ms))),
        last_active_timestamp := now_time w\<rparr>) w)"
proof -
  have "split_with server_len (bev_in b) = (map View ms, r)"
    using split_frames_rest [OF assms(10,11)] assms(8) by simp
  from echo_split [OF assms(1-7,9) this] show ?thesis
    by (simp add: assms(8))
qed

section \<open>Arrivals\<close>

lemma split_rest_length: "split_with len b = (vs, r) \<Longrightarrow> length r \<le> length b"
  using split_with_suffix [of b len] by auto

text \<open>Each arrival finds room in the buffer that the callback copies into.\<close>

fun arrivals_fit :: "nat \<Rightarrow> byte list \<Rightarrow> byte list list \<Rightarrow> bool" where
  "arrivals_fit room r [] = True"
| "arrivals_fit room r (c # cs) =
     (length r + length c \<le> room \<and> arrivals_fit room (snd (split_with server_len (r @ c))) cs)"

lemma echo_arrivals:
  assumes "frame_stub (app_state w)" and "svc_mode w = SVC_MODE_NORMAL"
    and "nets (net_heap w) p = Some n" and "hevent n = Some b"
    and "net_state n = NET_ESTABLISHED" and "write_rc (env w) = []"
    and "map_of (handler_pool (frontend_mgr w)) (bev_fd b) = Some p"
    and "arrivals_fit (recv_size (frontend_mgr w)) (bev_in b) cs"
    and "split_with server_len (bev_in b) = ([], bev_in b)"
    and "split_with server_len (bev_in b @ concat cs) = (map View ms, r)"
  shows "\<exists>n'. dispatch_events k (echo_app z) rpc delim (map (EvFrontData p) cs) w = Some (Done (set_net p n' w))
    \<and> hevent n' = Some (b\<lparr>bev_in := r, bev_out := bev_out b @ concat (map encode_frame (filter (\<lambda>m. m \<noteq> []) ms))\<rparr>)
    \<and> curr_pkg_count n' = curr_pkg_count n + of_nat (length ms)
    \<and> curr_traffic_bytes n' = curr_traffic_bytes n + of_nat (length (bev_in b @ concat cs) - length r)"
  using assms
proof (induction cs arbitrary: w n b ms)
  case Nil
  then have "ms = []" "r = bev_in b" "set_net p n w = w"
    by (simp_all add: set_net_def fun_upd_idem)
  with Nil.prems(4) show ?case
    by (intro exI [of _ n]) simp
next
  case (Cons c cs)
  let ?x = "bev_in b @ c"
  let ?n0 = "bev_feed c n"
  let ?b0 = "b\<lparr>bev_in := ?x\<rparr>"
  let ?w0 = "set_net p ?n0 w"
  obtain vs1 r1 where s1: "split_with server_len ?x = (vs1, r1)"
    by (cases "split_with server_len ?x")
  obtain vs2 where s2: "split_with server_len (r1 @ concat cs) = (vs2, r)" "map View ms = vs1 @ vs2"
    using Cons.prems(10) srv.split_chunks [of ?x "concat cs"] s1 by (cases "split_with server_len (r1 @ concat cs)") auto
  then obtain ms1 ms2 where ms: "vs1 = map View ms1" "vs2 = map View ms2" "ms = ms1 @ ms2"
    by (auto simp: map_eq_append_conv)
  have done1: "split_with server_len r1 = ([], r1)"
  proof -
    have "split_with server_len (?x @ []) = (vs1 @ fst (split_with server_len r1), snd (split_with server_len r1))"
      unfolding srv.split_chunks [of ?x "[]"] using s1 by simp
    with s1 show ?thesis
      by (cases "split_with server_len r1") simp
  qed
  have n0: "nets (net_heap ?w0) p = Some ?n0" "hevent ?n0 = Some ?b0" "net_state ?n0 = NET_ESTABLISHED"
    using Cons.prems(4,5) by (simp_all add: set_net_def bev_feed_def)
  have room: "length (bev_in ?b0) \<le> recv_size (frontend_mgr ?w0)"
    using Cons.prems(8) by (simp add: set_net_def)
  let ?b1 = "?b0\<lparr>bev_in := r1, bev_out := bev_out b @ concat (map encode_frame (filter (\<lambda>m. m \<noteq> []) ms1))\<rparr>"
  let ?n1 = "?n0\<lparr>hevent := Some ?b1, curr_pkg_count := curr_pkg_count n + of_nat (length ms1),
      curr_traffic_bytes := curr_traffic_bytes n + of_nat (length ?x - length r1), last_active_timestamp := now_time w\<rparr>"
  have fields: "curr_pkg_count ?n0 = curr_pkg_count n" "curr_traffic_bytes ?n0 = curr_traffic_bytes n"
    by (simp_all add: bev_feed_def)
  have "OnFrontEndMsg (echo_app z) rpc p ?w0 = Done (0, set_net p ?n1 ?w0)"
    using echo_split [OF _ _ n0 _ _ room, of ms1 r1 z rpc] Cons.prems(1,2,6,7) s1 ms(1) fields
    by (simp add: set_net_def)
  moreover have "modify_net p (bev_feed c) w = Done ?w0"
    using Cons.prems(3) by (simp add: modify_net_def get_net_def)
  ultimately have step: "on_event k (echo_app z) rpc delim (EvFrontData p c) w = Some (Done (False, set_net p ?n1 w))"
    by (simp add: on_event_def no_break_def set_net_def)
  have "\<exists>n'. dispatch_events k (echo_app z) rpc delim (map (EvFrontData p) cs) (set_net p ?n1 w) = Some (Done (set_net p n' (set_net p ?n1 w)))
    \<and> hevent n' = Some (?b1\<lparr>bev_in := r, bev_out := bev_out ?b1 @ concat (map encode_frame (filter (\<lambda>m. m \<noteq> []) ms2))\<rparr>)
    \<and> curr_pkg_count n' = curr_pkg_count ?n1 + of_nat (length ms2)
    \<and> curr_traffic_bytes n' = curr_traffic_bytes ?n1 + of_nat (length (bev_in ?b1 @ concat cs) - length r)"
    using Cons.prems(1,2,5-8) s1 s2(1) ms(2) done1
    by (intro Cons.IH) (simp_all add: set_net_def bev_feed_def)
  then obtain n' where n': "dispatch_events k (echo_app z) rpc delim (map (EvFrontData p) cs) (set_net p ?n1 w) = Some (Done (set_net p n' w))"
      "hevent n' = Some (b\<lparr>bev_in := r, bev_out := bev_out b @ concat (map encode_frame (filter (\<lambda>m. m \<noteq> []) ms))\<rparr>)"
      "curr_pkg_count n' = curr_pkg_count n + of_nat (length ms)"
      "curr_traffic_bytes n' = curr_traffic_bytes n + of_nat (length ?x - length r1) + of_nat (length (r1 @ concat cs) - length r)"
    using ms(3) by (auto simp: set_net_def)
  have "length r \<le> length (r1 @ concat cs)" "length r1 \<le> length ?x"
    using split_rest_length [OF s2(1)] split_rest_length [OF s1] by simp_all
  then have "length (bev_in b @ concat (c # cs)) - length r = length ?x - length r1 + (length (r1 @ concat cs) - length r)"
    by simp
  then have "curr_traffic_bytes n' = curr_traffic_bytes n + of_nat (length (bev_in b @ concat (c # cs)) - length r)"
    using n'(4) by (simp only: of_nat_add add.assoc)
  with step n' show ?case
    by (intro exI [of _ n']) simp
qed

text \<open>A frame that claims to be shorter than its prefix.\<close>

lemma echo_short_frame:
  assumes "frame_stub (app_state w)" and "svc_mode w = SVC_MODE_NORMAL"
    and "nets (net_heap w) p = Some n" and "hevent n = Some b"
    and "net_state n = NET_ESTABLISHED" and "write_rc (env w) = []"
    and "map_of (handler_pool (frontend_mgr w)) (bev_fd b) = Some p"
    and "length (bev_in b) \<le> recv_size (frontend_mgr w)"
    and "0 < server_len (bev_in b)" and "server_len (bev_in b) < 4" and "4 \<le> length (bev_in b)"
  shows "OnFrontEndMsg (echo_app z) rpc p w = Crash OutOfBounds"
proof -
  obtain k v rest where vs: "split_with server_len (bev_in b) = (Wild k # v, rest)"
    using assms(9-11) by (simp add: split_with_step payload_def)
  have crash: "deliver (echo_app z) p (Wild k # v) w = Crash OutOfBounds" for k v
    using assms(1-6) by (simp add: echo_app_def echo_OnRecvFrontEnd_def get_net_def draw_write_def)
  have "split_with server_len (take (recv_size (frontend_mgr w)) (bev_in b)) = (Wild k # v, rest)"
    using vs assms(8) by simp
  from OnFrontEndMsg_deliver [OF echo_keeps_mode assms(2-4,7) this] show ?thesis
    by (simp add: crash del: deliver.simps)
qed

section \<open>Runs\<close>

lemma SendToFrontEnd_safe:
  assumes "world_ok w" and "p \<in> pool_ptrs (frontend_mgr w)"
  shows "\<exists>r w'. SendToFrontEnd (Some p) buf w = Done (r, w') \<and> world_ok w' \<and> p \<in> pool_ptrs (frontend_mgr w')"
  using SendToFrontEnd_kept [OF assms(1) front_all [OF assms(2)], of buf] assms(2)
  by (auto simp: pools_kept_def)

text \<open>Messages with a size of their own; a frame shorter than its prefix has none.\<close>

definition is_view :: "view \<Rightarrow> bool" where
  "is_view v = (case v of View m \<Rightarrow> True | Wild k \<Rightarrow> False)"

lemma echo_recv_safe:
  assumes "world_ok w" and "p \<in> pool_ptrs (frontend_mgr w)" and "is_view v"
  shows "\<exists>r w'. echo_OnRecvFrontEnd p t v w = Done (r, w') \<and> world_ok w' \<and> p \<in> pool_ptrs (frontend_mgr w')"
proof (cases v)
  case (View m)
  obtain r w' where "SendToFrontEnd (Some p) (Some m) w = Done (r, w')" "world_ok w'"
      "p \<in> pool_ptrs (frontend_mgr w')"
    using SendToFrontEnd_safe [OF assms(1,2)] by blast
  with View assms(1,2) show ?thesis
    by (cases "frame_stub (app_state w)") (simp_all add: echo_OnRecvFrontEnd_def)
qed (use assms(3) in \<open>simp add: is_view_def\<close>)

lemma echo_starts: "OnInit (echo_app z) w = Done (0, w\<lparr>app_state := (app_state w)\<lparr>frame_stub := True\<rparr>\<rparr>)"
  by (simp add: echo_app_def echo_OnInit_def)

lemma sample_world_ok: "world_ok (sample_world bs c a)"
  by (auto simp: world_ok_def sample_world_def mgr_inv_def heap_ok_def pool_ok_def pool_ptrs_def
      net_fd_def sample_net_def EasyNet_new_def TimerMgr_new_def split: if_splits)

interpretation echo: safe_app is_view "echo_app z" no_rpc
  by unfold_locales (simp_all add: echo_app_def no_rpc_def echo_OnInit_def echo_recv_safe)

text \<open>The demo backend of the connector takes any message.\<close>

lemma demo_dispatch_safe:
  assumes "world_ok w" and "p \<in> pool_ptrs (frontend_mgr w)"
  shows "\<exists>r w'. demo_OnRecvFrontEnd parse ser p t v w = Done (r, w') \<and> world_ok w'
    \<and> p \<in> pool_ptrs (frontend_mgr w')"
proof (cases "demo_stub (app_state w)")
  case True
  have send: "\<exists>r w'. demo_SendToConn p d w = Done (r, w') \<and> world_ok w' \<and> p \<in> pool_ptrs (frontend_mgr w')" for d
    using SendToFrontEnd_safe [OF assms] True by (simp add: demo_SendToConn_def)
  then have conn: "\<exists>r w'. to_conn ser (Some demo_sender) bid body p u w = Done (r, w')
      \<and> world_ok w' \<and> p \<in> pool_ptrs (frontend_mgr w')" for bid body u
    by (simp add: to_conn_def demo_sender_def)
  have "\<exists>r w'. ServerApi_Dispatch parse (Some (demo_listener ser)) p v w = Done (r, w')
      \<and> world_ok w' \<and> p \<in> pool_ptrs (frontend_mgr w')"
  proof (cases "v = View [] \<or> parse v = None")
    case False
    then obtain m where "parse v = Some m"
      by auto
    with False conn [of SS_ACK "empty_ssbody\<lparr>ss_ack := Some 0\<rparr>"
        "\<lparr>ss_fd = ss_fd (ss_session m), ss_nid = ss_nid (ss_session m), ss_sid = -1\<rparr>"]
        conn [of SS_DATA "empty_ssbody\<lparr>ss_data := Some (ssmsg_data m)\<rparr>"
        "\<lparr>ss_fd = ss_fd (ss_session m), ss_nid = ss_nid (ss_session m), ss_sid = ss_sid (ss_session m)\<rparr>"] assms
    show ?thesis
      by (auto simp: ServerApi_Dispatch_def demo_listener_def demo_OnConnStart_def demo_OnData_def
          HandshakeToConn_def SendDataToConn_def Let_def)
  qed (use assms in \<open>auto simp: ServerApi_Dispatch_def\<close>)
  then obtain r w' where "ServerApi_Dispatch parse (Some (demo_listener ser)) p v w = Done (r, w')"
      "world_ok w'" "p \<in> pool_ptrs (frontend_mgr w')"
    by blast
  with True show ?thesis
    by (cases "r = 0") (simp_all add: demo_OnRecvFrontEnd_def)
qed (use assms in \<open>simp add: demo_OnRecvFrontEnd_def\<close>)

interpretation demo: safe_app "\<lambda>v. True" "demo_app parse ser z" no_rpc
  by unfold_locales (simp_all add: demo_app_def no_rpc_def demo_OnInit_def demo_dispatch_safe)

section \<open>Properties\<close>

text \<open>One callback. When the input of an established frontend holds complete frames
  followed by an incomplete one, the read callback sends back exactly these frames, in order and with
  the same contents, after what was already queued; frames without contents get no answer. The frames
  are consumed, the incomplete one is kept, and the packet and byte counters account for all of
  them; nothing else changes.\<close>

theorem echo_server_echoes:
  assumes "frame_stub (app_state w)" and "svc_mode w = SVC_MODE_NORMAL"
    and "nets (net_heap w) p = Some n" and "hevent n = Some b"
    and "net_state n = NET_ESTABLISHED" and "write_rc (env w) = []"
    and "map_of (handler_pool (frontend_mgr w)) (bev_fd b) = Some p"
    and "bev_in b = concat (map encode_frame ms) @ r" and "length (bev_in b) \<le> recv_size (frontend_mgr w)"
    and "list_all fits_frame ms" and "r = [] \<or> server_len r = 0 \<or> length r < server_len r"
  shows "OnFrontEndMsg (echo_app z) rpc p w = Done (0, set_net p
     (n\<lparr>hevent := Some (b\<lparr>bev_in := r,
          bev_out := bev_out b @ concat (map encode_frame (filter (\<lambda>m. m \<noteq> []) ms))\<rparr>),
        curr_pkg_count := curr_pkg_count n + of_nat (length ms),
        curr_traffic_bytes := curr_traffic_bytes n + of_nat (length (concat (map encode_frame ms))),
        last_active_timestamp := now_time w\<rparr>) w)"
  using assms by (rule echo_frames)

theorem echo_server_echoes_witness:
  "\<exists>w'. OnFrontEndMsg (echo_app ()) no_rpc 1
          (sample_world [0, 0, 0, 5, 1, 0, 0, 0, 6, 2, 3, 0] None \<lparr>frame_stub = True\<rparr>) = Done (0, w')
      \<and> map_option (\<lambda>b. (bev_in b, bev_out b)) (Option.bind (nets (net_heap w') 1) hevent)
          = Some ([0], [0, 0, 0, 5, 1, 0, 0, 0, 6, 2, 3])"
proof -
  let ?w = "sample_world [0, 0, 0, 5, 1, 0, 0, 0, 6, 2, 3, 0] None \<lparr>frame_stub = True\<rparr> :: (unit, echo) world"
  have "list_all fits_frame [[1], [2, 3]]"
    by (simp add: fits_frame_def)
  from echo_server_echoes [OF _ _ _ _ _ _ _ _ _ this, where w = ?w and p = 1 and r = "[0]" and rpc = no_rpc
      and n = "sample_net [0, 0, 0, 5, 1, 0, 0, 0, 6, 2, 3, 0] None" and z = "()"]
  show ?thesis
    using frames_1_23
    by (simp add: sample_world_def sample_net_def EasyNet_new_def sample_answers_def server_len_def
        GetMsgLength_def)
qed

text \<open>C6. The echo server echoes a whole stream. However the bytes of an established frontend are cut
  into arrivals, each of which fits the receive buffer together with the incomplete frame before it, the
  event loop handles them all, and what has been written back is exactly the complete frames of the
  stream, in order and with the same contents; frames without contents get no answer. The incomplete
  frame at the end is kept, and the packet and byte counters account for the others; nothing else changes.\<close>

theorem echo_stream_echoes:
  assumes "frame_stub (app_state w)" and "svc_mode w = SVC_MODE_NORMAL"
    and "nets (net_heap w) p = Some n" and "hevent n = Some b" and "bev_in b = []"
    and "net_state n = NET_ESTABLISHED" and "write_rc (env w) = []"
    and "map_of (handler_pool (frontend_mgr w)) (bev_fd b) = Some p"
    and "arrivals_fit (recv_size (frontend_mgr w)) [] cs"
    and "concat cs = concat (map encode_frame ms) @ r"
    and "list_all fits_frame ms" and "r = [] \<or> server_len r = 0 \<or> length r < server_len r"
  shows "\<exists>n'. dispatch_events k (echo_app z) rpc delim (map (EvFrontData p) cs) w = Some (Done (set_net p n' w))
    \<and> hevent n' = Some (b\<lparr>bev_in := r, bev_out := bev_out b @ concat (map encode_frame (filter (\<lambda>m. m \<noteq> []) ms))\<rparr>)
    \<and> curr_pkg_count n' = curr_pkg_count n + of_nat (length ms)
    \<and> curr_traffic_bytes n' = curr_traffic_bytes n + of_nat (length (concat (map encode_frame ms)))"
proof -
  have "split_with server_len (bev_in b @ concat cs) = (map View ms, r)"
    using split_frames_rest [OF assms(11,12)] assms(5,10) by simp
  from echo_arrivals [OF assms(1-4,6-8) _ _ this, of k z rpc delim] assms(5,9,10) show ?thesis
    by simp
qed

theorem echo_stream_echoes_witness:
  "\<exists>n'. dispatch_events 1 (echo_app ()) no_rpc '' '' (map (EvFrontData 1) [[0, 0, 0], [5, 1, 0, 0, 0, 6, 2], [3, 0]])
          (sample_world [] None \<lparr>frame_stub = True\<rparr>)
        = Some (Done (set_net 1 n' (sample_world [] None \<lparr>frame_stub = True\<rparr>)))
      \<and> map_option (\<lambda>b. (bev_in b, bev_out b)) (hevent n') = Some ([0], [0, 0, 0, 5, 1, 0, 0, 0, 6, 2, 3])"
proof -
  let ?w = "sample_world [] None \<lparr>frame_stub = True\<rparr> :: (unit, echo) world"
  let ?cs = "[[0, 0, 0], [5, 1, 0, 0, 0, 6, 2], [3, 0]] :: byte list list"
  have fits: "list_all fits_frame [[1], [2, 3]]" "list_all fits_frame [[1]]"
    by (simp_all add: fits_frame_def)
  have stream: "concat ?cs = concat (map encode_frame [[1], [2, 3]]) @ [0]"
    by (simp add: encode_frame_def be32_def)
  have short: "server_len [0] = 0" "server_len [0, 0, 0] = 0" "server_len [0, 0, 0, 6, 2] = 6"
    by (simp_all add: server_len_def GetMsgLength_def of_be32_def)
  have e: "[0, 0, 0, 5, 1, 0, 0, 0, 6, 2] = concat (map encode_frame [[1]]) @ [0, 0, 0, 6, 2]"
    by (simp add: encode_frame_def be32_def)
  have one: "split_with server_len [0, 0, 0] = ([], [0, 0, 0])"
    by (rule split_with_stop) (simp add: short)
  have two: "split_with server_len [0, 0, 0, 5, 1, 0, 0, 0, 6, 2] = ([View [1]], [0, 0, 0, 6, 2])"
    unfolding e using split_frames_rest [OF fits(2), of "[0, 0, 0, 6, 2]"] short by simp
  have "arrivals_fit 64 [] ?cs"
    by (simp add: one two)
  then have fit: "arrivals_fit (recv_size (frontend_mgr ?w)) [] ?cs"
    by (simp add: sample_world_def)
  let ?n = "sample_net [] None :: unit easy_net"
  let ?b = "\<lparr>bev_fd = 7, bev_in = [], bev_out = []\<rparr>"
  have w: "echo.frame_stub (app_state ?w)" "svc_mode ?w = SVC_MODE_NORMAL" "nets (net_heap ?w) 1 = Some ?n" "hevent ?n = Some ?b"
      "bev_in ?b = []" "net_state ?n = NET_ESTABLISHED" "write_rc (env ?w) = []"
      "map_of (handler_pool (frontend_mgr ?w)) (bev_fd ?b) = Some 1"
    by (simp_all add: sample_world_def sample_net_def EasyNet_new_def sample_answers_def)
  have "[0] = [] \<or> server_len [0] = 0 \<or> length [0 :: byte] < server_len [0]"
    by (simp add: short)
  from echo_stream_echoes [OF w fit stream fits(1) this, of 1 "()" no_rpc "'' ''"]
  obtain n' where "dispatch_events 1 (echo_app ()) no_rpc '' '' (map (EvFrontData 1) ?cs) ?w = Some (Done (set_net 1 n' ?w))"
      "hevent n' = Some (?b\<lparr>bev_in := [0], bev_out := bev_out ?b @ concat (map encode_frame (filter (\<lambda>m. m \<noteq> []) [[1], [2, 3]]))\<rparr>)"
    by blast
  then show ?thesis
    by (intro exI [of _ n']) (simp del: dispatch_events.simps add: encode_frame_def be32_def)
qed




text \<open>A frame that claims to be shorter than its own prefix makes the echo server read outside
  its buffers: the size handed to \<open>OnRecvFrontEnd\<close> has wrapped around, and
  \<open>SendToFrontEnd\<close> copies that many bytes.\<close>

theorem echo_short_frame_crashes:
  assumes "frame_stub (app_state w)" and "svc_mode w = SVC_MODE_NORMAL"
    and "nets (net_heap w) p = Some n" and "hevent n = Some b"
    and "net_state n = NET_ESTABLISHED" and "write_rc (env w) = []"
    and "map_of (handler_pool (frontend_mgr w)) (bev_fd b) = Some p"
    and "length (bev_in b) \<le> recv_size (frontend_mgr w)"
    and "0 < server_len (bev_in b)" and "server_len (bev_in b) < 4" and "4 \<le> length (bev_in b)"
  shows "OnFrontEndMsg (echo_app z) rpc p w = Crash OutOfBounds"
  using assms by (rule echo_short_frame)

theorem echo_short_frame_crashes_witness:
  "OnFrontEndMsg (echo_app ()) no_rpc 1 (sample_world [0, 0, 0, 3] None \<lparr>frame_stub = True\<rparr>)
     = Crash OutOfBounds"
  by (rule echo_short_frame_crashes [where n = "sample_net [0, 0, 0, 3] None"
        and b = "\<lparr>bev_fd = 7, bev_in = [0, 0, 0, 3], bev_out = []\<rparr>"])
    (simp_all add: sample_world_def sample_net_def EasyNet_new_def sample_answers_def server_len_def
      GetMsgLength_def of_be32_def)

end
