(* ===== verification/PingPong.thy ===== *)
theory PingPong
  imports EchoApp Rpc
begin

text \<open>
  The RPC sample \<open>sample/server_demo\<close>: a server in RPC mode with one service, and what it makes
  of the requests it receives. The messages of \<open>sample/sample.proto\<close> are a datatype; their field
  is a \<open>fixed32\<close>.
\<close>

section \<open>The application\<close>

datatype test_rpc = Ping "32 word" | Pong "32 word"

text \<open>\<open>OnRpcCall\<close>: the casts are dynamic, and dereferenced without a check.\<close>

definition pp_OnRpcCall :: "test_rpc \<Rightarrow> test_rpc \<Rightarrow> 'w \<Rightarrow> ('w \<times> test_rpc rpc_answer) exec" where
  "pp_OnRpcCall req resp w =
     (case (req, resp) of
        (Ping k, Pong _) \<Rightarrow> Done (w, AnswerDone (Pong (k + 1)))
      | _ \<Rightarrow> Crash NullDeref)"

definition PingPongService :: "test_rpc protobuf \<Rightarrow> (test_rpc, 'w) IRpcService" where
  "PingPongService pb =
     \<lparr>RpcRequestName = pb_name pb (Ping 0), NewResponse = Some (Pong 0), OnRpcCall = pp_OnRpcCall\<rparr>"

text \<open>
  The state of \<open>ServerDemoApp\<close> with that of the objects it uses: the framework's pointer, whether
  the framework holds the service, and the static message of the parser.
\<close>

record pp_server =
  pp_stub :: bool
  pp_registered :: bool
  pp_msg :: RpcMessage

definition pp_services :: "test_rpc protobuf \<Rightarrow> pp_server \<Rightarrow> (test_rpc, 'w) RpcServiceMap option" where
  "pp_services pb s =
     (if pp_registered s then Some (AddRpcService (Some (PingPongService pb)) Map.empty) else None)"

definition pp_OnInit :: "test_rpc protobuf \<Rightarrow> ('c, pp_server) world \<Rightarrow> (int \<times> ('c, pp_server) world) exec" where
  "pp_OnInit pb w =
     (let s = app_state w;
          mgr = snd (RegisterRpcService (svc_mode w) True
                  (Some (PingPongService pb :: (test_rpc, ('c, pp_server) world) IRpcService)) (pp_services pb s))
      in Done (0, w\<lparr>app_state := s\<lparr>pp_stub := True, pp_registered := (mgr \<noteq> None)\<rparr>\<rparr>))"

definition pp_app :: "test_rpc protobuf \<Rightarrow> 'c \<Rightarrow> ('c, pp_server) rapid_app" where
  "pp_app pb z =
     \<lparr>OnInit = pp_OnInit pb, OnFini = (\<lambda>w. Done (0, w)), OnUpdate = Done, OnReload = Done,
      OnRecvCtrl = (\<lambda>_ w. Done (0, w)), OnFrontEndConnect = (\<lambda>_ _ w. Done (0, w)),
      OnFrontEndClose = (\<lambda>_ _ w. Done (0, w)), OnRecvFrontEnd = (\<lambda>_ _ _ w. Done (-1, w)),
      OnRecvBackEnd = (\<lambda>_ _ _ w. Done (0, w)), OnTimer = (\<lambda>_ _ w. Done w),
      GetFrontEndContextSize = 0, GetBackEndContextSize = 0, zero_context = z\<rparr>"

text \<open>The framework's RPC entry with the services of the application; the sample makes no calls.\<close>

definition pp_hooks :: "test_rpc protobuf \<Rightarrow> ('c, pp_server) rpc_hooks" where
  "pp_hooks pb =
     \<lparr>OnFrontEndRpcMsg = (\<lambda>p v w.
        bindE (fw_OnFrontEndRpcMsg pb (pp_services pb (app_state w)) True p v (pp_msg (app_state w)) w)
          (\<lambda>(r, m, w1). Done (r, w1\<lparr>app_state := (app_state w1)\<lparr>pp_msg := m\<rparr>\<rparr>))),
      rpc_IsActive = (\<lambda>_ _. False), rpc_Resume = (\<lambda>_ _ w. Done w)\<rparr>"

section \<open>Serving\<close>

text \<open>A request \<open>(a, k)\<close>: call \<open>a\<close> with ping \<open>k\<close>; its answer.\<close>

definition pp_request :: "test_rpc protobuf \<Rightarrow> 64 word \<times> 32 word \<Rightarrow> byte list" where
  "pp_request pb ak = request_of pb (fst ak) (Ping (snd ak))"

definition pp_reply_msg :: "test_rpc protobuf \<Rightarrow> 64 word \<times> 32 word \<Rightarrow> RpcMessage" where
  "pp_reply_msg pb ak =
     \<lparr>rm_magic = MAGIC_RPCSTAMP_V1, rm_msg_type = RPC_TYPE_RESPONSE, rm_asyncid = fst ak,
      rm_msg_name = pb_name pb (Pong (snd ak + 1)), rm_msg_bin = pb_ser pb (Pong (snd ak + 1))\<rparr>"

definition pp_reply :: "test_rpc protobuf \<Rightarrow> 64 word \<times> 32 word \<Rightarrow> byte list" where
  "pp_reply pb ak = rpc_ser pb (pp_reply_msg pb ak)"

text \<open>What is assumed of protobuf: a name per message type, and that it gives back these
  messages.\<close>

definition pp_codec :: "test_rpc protobuf \<Rightarrow> (64 word \<times> 32 word) list \<Rightarrow> bool" where
  "pp_codec pb reqs =
     ((\<forall>k. pb_name pb (Ping k) = ''test_rpc.Ping'' \<and> pb_name pb (Pong k) = ''test_rpc.Pong'')
      \<and> (\<forall>ak \<in> set reqs. codec_ok pb (request_msg pb (fst ak) (Ping (snd ak)))
           \<and> codec_knows pb (Ping (snd ak)) \<and> pp_reply pb ak \<noteq> []))"

definition pp_served ::
    "test_rpc protobuf \<Rightarrow> (64 word \<times> 32 word) list \<Rightarrow> 'c easy_net \<Rightarrow> 'c easy_net" where
  "pp_served pb reqs n =
     n\<lparr>hevent := map_option (\<lambda>b. b\<lparr>bev_out := bev_out b @ concat (map (encode_frame \<circ> pp_reply pb) reqs)\<rparr>) (hevent n),
       curr_pkg_count := curr_pkg_count n + of_nat (length reqs)\<rparr>"

definition pp_last :: "test_rpc protobuf \<Rightarrow> (64 word \<times> 32 word) list \<Rightarrow> RpcMessage \<Rightarrow> RpcMessage" where
  "pp_last pb reqs m = (if reqs = [] then m else request_msg pb (fst (last reqs)) (Ping (snd (last reqs))))"

lemma pp_last_step: "pp_last pb (ak # reqs) m = pp_last pb reqs (request_msg pb (fst ak) (Ping (snd ak)))"
  by (simp add: pp_last_def)

lemma pp_served_one:
  "hevent n = Some b \<Longrightarrow> pp_served pb [ak] n =
     n\<lparr>hevent := Some (bev_write (encode_frame (pp_reply pb ak)) b), curr_pkg_count := curr_pkg_count n + 1\<rparr>"
  by (simp add: pp_served_def bev_write_def)

lemma pp_served_step: "pp_served pb reqs (pp_served pb [ak] n) = pp_served pb (ak # reqs) n"
  by (cases "hevent n") (simp_all add: pp_served_def algebra_simps)

lemma set_net_app_state: "set_net p n (w\<lparr>app_state := a\<rparr>) = (set_net p n w)\<lparr>app_state := a\<rparr>"
  by (simp add: set_net_def)

lemma pp_one:
  assumes "pp_codec pb (ak # reqs)" and "pp_registered (app_state w)" and "svc_mode w = SVC_MODE_RPC"
    and "nets (net_heap w) p = Some n" and "hevent n = Some b"
    and "net_state n = NET_ESTABLISHED" and "write_rc (env w) = []"
  shows "OnFrontEndRpcMsg (pp_hooks pb) p (View (pp_request pb ak)) w
    = Done (1, (set_net p (n\<lparr>hevent := Some (bev_write (encode_frame (pp_reply pb ak)) b)\<rparr>) w)
        \<lparr>app_state := (app_state w)\<lparr>pp_msg := request_msg pb (fst ak) (Ping (snd ak))\<rparr>\<rparr>)"
proof -
  let ?s = "Map.empty(pb_name pb (Ping 0) \<mapsto> PingPongService pb) :: (test_rpc, ('a, pp_server) world) RpcServiceMap"
  have names: "pb_name pb (Ping k) = ''test_rpc.Ping''" "pb_name pb (Pong k) = ''test_rpc.Pong''" for k
    using assms(1) by (simp_all add: pp_codec_def)
  have codec: "codec_ok pb (request_msg pb (fst ak) (Ping (snd ak)))" "codec_knows pb (Ping (snd ak))"
      "pp_reply pb ak \<noteq> []"
    using assms(1) by (simp_all add: pp_codec_def)
  have "fw_OnFrontEndRpcMsg pb (Some ?s) True p (View (request_of pb (fst ak) (Ping (snd ak)))) (pp_msg (app_state w)) w
      = bindE (net_Send p (Some (rpc_ser pb (pp_reply_msg pb ak))) w)
          (\<lambda>(r, w2). Done (1, request_msg pb (fst ak) (Ping (snd ak)), w2))"
    by (rule served [OF codec(1,2), where svc = "PingPongService pb" and resp = "Pong 0"
          and ans = "AnswerDone (Pong (snd ak + 1))"])
      (simp_all add: PingPongService_def pp_OnRpcCall_def names pp_reply_msg_def)
  moreover have "pp_services pb (app_state w) = Some ?s"
    using assms(2) by (simp add: pp_services_def AddRpcService_def PingPongService_def)
  ultimately show ?thesis
    using net_Send_ok [OF assms(4-7) codec(3)] by (simp add: pp_hooks_def pp_request_def pp_reply_def)
qed

lemma pp_loop:
  assumes "pp_codec pb reqs" and "pp_registered (app_state w)" and "svc_mode w = SVC_MODE_RPC"
    and "nets (net_heap w) p = Some n" and "hevent n = Some b"
    and "net_state n = NET_ESTABLISHED" and "write_rc (env w) = []"
    and "list_all fits_frame (map (pp_request pb) reqs)" and "r = [] \<or> server_len r = 0 \<or> length r < server_len r"
  shows "front_loop app (pp_hooks pb) p (concat (map (encode_frame \<circ> pp_request pb) reqs) @ r) e w
    = Done (0, e + length (concat (map (encode_frame \<circ> pp_request pb) reqs)),
        if reqs = [] then w
        else (set_net p (pp_served pb reqs n) w)
          \<lparr>app_state := (app_state w)\<lparr>pp_msg := pp_last pb reqs (pp_msg (app_state w))\<rparr>\<rparr>)"
  using assms
proof (induction reqs arbitrary: w n b e)
  case Nil
  then show ?case
    by (subst front_loop.simps) auto
next
  case (Cons ak reqs)
  let ?m = "pp_request pb ak"
  let ?rest = "concat (map (encode_frame \<circ> pp_request pb) reqs) @ r"
  have fits: "fits_frame ?m"
    using Cons.prems(8) by simp
  have cut: "server_len (encode_frame ?m @ ?rest) = length ?m + 4" "length (encode_frame ?m) = length ?m + 4"
      "payload (encode_frame ?m @ ?rest) (length ?m + 4) = View ?m" "drop (length ?m + 4) (encode_frame ?m @ ?rest) = ?rest"
    using encode_frame_len [OF fits] by (simp_all add: encode_frame_def payload_def)
  have nonempty: "encode_frame ?m \<noteq> []"
    using cut(2) by auto
  let ?n = "n\<lparr>hevent := Some (bev_write (encode_frame (pp_reply pb ak)) b)\<rparr>"
  let ?w1 = "(set_net p ?n w)\<lparr>app_state := (app_state w)\<lparr>pp_msg := request_msg pb (fst ak) (Ping (snd ak))\<rparr>\<rparr>"
  let ?w2 = "set_net p (pp_served pb [ak] n) ?w1"
  have "front_loop app (pp_hooks pb) p (encode_frame ?m @ ?rest) e w
      = bindE (modify_net p (\<lambda>n. n\<lparr>curr_pkg_count := curr_pkg_count n + 1\<rparr>) ?w1)
          (front_loop app (pp_hooks pb) p ?rest (e + (length ?m + 4)))"
    using pp_one [OF Cons.prems(1-7)] Cons.prems(3) cut nonempty by (subst front_loop.simps) simp
  also have "\<dots> = front_loop app (pp_hooks pb) p ?rest (e + (length ?m + 4)) ?w2"
    using Cons.prems(5) by (simp add: modify_net_def get_net_def pp_served_one)
  also have "\<dots> = Done (0, e + (length ?m + 4) + length (concat (map (encode_frame \<circ> pp_request pb) reqs)),
        if reqs = [] then ?w2
        else (set_net p (pp_served pb reqs (pp_served pb [ak] n)) ?w2)
          \<lparr>app_state := (app_state ?w2)\<lparr>pp_msg := pp_last pb reqs (pp_msg (app_state ?w2))\<rparr>\<rparr>)"
    using Cons.prems by (intro Cons.IH [where b = "bev_write (encode_frame (pp_reply pb ak)) b"])
      (auto simp: pp_codec_def pp_served_def bev_write_def)
  finally show ?case
    using cut(2) by (auto simp: comp_def pp_last_step pp_served_step set_net_app_state pp_last_def)
qed

section \<open>Safety\<close>

lemma net_Send_safe:
  assumes "world_ok w" and "p \<in> pool_ptrs (frontend_mgr w)"
  shows "\<exists>r w'. net_Send p buf w = Done (r, w') \<and> world_ok w' \<and> p \<in> pool_ptrs (frontend_mgr w')"
  using net_Send_kept [OF assms(1) front_all [OF assms(2)], of buf] assms(2)
  by (auto simp: pools_kept_def)

lemma pp_answer_safe:
  assumes "world_ok w" and "p \<in> pool_ptrs (frontend_mgr w)" and "cl_net cl = p"
  shows "\<exists>w'. answer_closure pb cl ans w = Done w' \<and> world_ok w' \<and> p \<in> pool_ptrs (frontend_mgr w')"
proof -
  have "\<exists>w'. bindE (net_Send (cl_net cl) (Some out) w) (\<lambda>(r, w1). Done w1) = Done w' \<and> world_ok w'
      \<and> p \<in> pool_ptrs (frontend_mgr w')" for out
    using net_Send_safe [OF assms(1,2), of "Some out"] assms(3) by auto
  then show ?thesis
    using assms by (cases ans) (simp_all add: answer_closure_def Closure_Done_def Closure_Cancel_def
        RpcErrorToBinary_def split: prod.split)
qed

text \<open>Any message is served without a crash as long as the two types have different names.\<close>

lemma pp_rpc_safe:
  assumes "\<And>j k. pb_name pb (Ping j) \<noteq> pb_name pb (Pong k)"
    and "world_ok w" and "p \<in> pool_ptrs (frontend_mgr w)"
  shows "\<exists>r w'. OnFrontEndRpcMsg (pp_hooks pb) p v w = Done (r, w') \<and> world_ok w'
    \<and> p \<in> pool_ptrs (frontend_mgr w')"
proof -
  let ?m = "pp_msg (app_state w)"
  have upd: "world_ok (w1\<lparr>app_state := a\<rparr>) = world_ok w1" for w1 :: "('a, pp_server) world" and a
    by simp
  have "\<exists>r m w'. fw_OnFrontEndRpcMsg pb (pp_services pb (app_state w)) True p v ?m w = Done (r, m, w')
      \<and> world_ok w' \<and> p \<in> pool_ptrs (frontend_mgr w')"
  proof (cases "SpawnMessage pb v ?m")
    case (Pair req m)
    show ?thesis
    proof (cases "req = None \<or> pp_services pb (app_state w)
        = (None :: (test_rpc, ('a, pp_server) world) RpcServiceMap option)")
      case True
      with Pair assms(2,3) show ?thesis
        by (auto simp: fw_OnFrontEndRpcMsg_def split: option.split)
    next
      case False
      then obtain q where q: "req = Some q" and reg: "pp_registered (app_state w)"
        by (auto simp: pp_services_def split: if_splits)
      have svc: "(pp_services pb (app_state w) :: (test_rpc, ('a, pp_server) world) RpcServiceMap option) = Some [pb_name pb (Ping 0) \<mapsto> PingPongService pb]"
        using reg by (simp add: pp_services_def AddRpcService_def PingPongService_def)
      show ?thesis
      proof (cases q)
        case (Ping k)
        let ?cl = "\<lparr>cl_async_id = rm_asyncid m, cl_net = p, cl_req = q, cl_rsp = Pong 0\<rparr>"
        obtain w' where "answer_closure pb ?cl (AnswerDone (Pong (k + 1))) w = Done w'" "world_ok w'"
            "p \<in> pool_ptrs (frontend_mgr w')"
          using pp_answer_safe [OF assms(2,3), of ?cl] by auto
        with Pair q Ping svc assms(2,3) show ?thesis
          by (auto simp: fw_OnFrontEndRpcMsg_def Closure_Set_def PingPongService_def pp_OnRpcCall_def)
      next
        case (Pong k)
        with Pair q svc assms show ?thesis
          by (auto simp: fw_OnFrontEndRpcMsg_def dest: sym)
      qed
    qed
  qed
  with upd show ?thesis
    by (fastforce simp: pp_hooks_def)
qed

lemma pp_safe_app:
  assumes "\<And>j k. pb_name pb (Ping j) \<noteq> pb_name pb (Pong k)"
  shows "safe_app is_view (pp_app pb z) (pp_hooks pb)"
  by unfold_locales
    (use pp_rpc_safe [OF assms] in \<open>simp_all add: pp_app_def pp_OnInit_def pp_hooks_def Let_def\<close>)

text \<open>Whole runs of the sample, in either service mode.\<close>

lemma pp_run_safe:
  assumes "\<And>j k. pb_name pb (Ping j) \<noteq> pb_name pb (Pong k)"
    and "world_ok w" and "run_fits is_view (pp_app pb z) (pp_hooks pb) delim es w"
  shows "\<exists>w'. AppLauncher_Run 1 (pp_app pb z) (pp_hooks pb) delim es 0 w = Some (Done (0, w'))
     \<and> nets (net_heap w') = Map.empty"
proof -
  obtain r w' where run: "AppLauncher_Run 1 (pp_app pb z) (pp_hooks pb) delim es 0 w = Some (Done (r, w'))"
      "r = 0 \<and> nets (net_heap w') = Map.empty \<or> r = -1 \<and> world_ok w'"
    using safe_app.safe_run [OF pp_safe_app [OF assms(1)] assms(2,3)] by blast
  obtain w1 where "OnInit (pp_app pb z) w = Done (0, w1)"
    by (simp add: pp_app_def pp_OnInit_def Let_def)
  with run_result [OF _ run(1)] run show ?thesis
    by auto
qed

section \<open>Properties\<close>

text \<open>C19. The RPC sample serves its clients. In RPC mode, with the service registered: when the input
  of an established frontend holds the frames of some requests and then an incomplete frame, the read
  callback answers each request with one frame, in the order of the requests, that carries the id of
  the request's call and the pong \<open>ping + 1\<close>, modulo \<open>2 ^ 32\<close>. The requests are consumed and
  accounted for. Protobuf gives back the requests it encoded.\<close>

theorem ping_pong_serves:
  assumes "pp_codec pb reqs" and "pp_registered (app_state w)" and "svc_mode w = SVC_MODE_RPC"
    and "nets (net_heap w) p = Some n" and "hevent n = Some b"
    and "net_state n = NET_ESTABLISHED" and "write_rc (env w) = []"
    and "map_of (handler_pool (frontend_mgr w)) (bev_fd b) = Some p"
    and "bev_in b = concat (map (encode_frame \<circ> pp_request pb) reqs) @ r"
    and "length (bev_in b) \<le> recv_size (frontend_mgr w)"
    and "list_all fits_frame (map (pp_request pb) reqs)" and "r = [] \<or> server_len r = 0 \<or> length r < server_len r"
    and "reqs \<noteq> []"
  shows "OnFrontEndMsg app (pp_hooks pb) p w = Done (0, (set_net p
     (n\<lparr>hevent := Some (b\<lparr>bev_in := r, bev_out := bev_out b @ concat (map (encode_frame \<circ> pp_reply pb) reqs)\<rparr>),
        curr_pkg_count := curr_pkg_count n + of_nat (length reqs),
        curr_traffic_bytes := curr_traffic_bytes n + of_nat (length (bev_in b) - length r),
        last_active_timestamp := now_time w\<rparr>) w)
      \<lparr>app_state := (app_state w)\<lparr>pp_msg := request_msg pb (fst (last reqs)) (Ping (snd (last reqs)))\<rparr>\<rparr>)"
proof -
  have "front_loop app (pp_hooks pb) p (bev_in b) 0 w = Done (0, length (bev_in b) - length r,
        (set_net p (pp_served pb reqs n) w)
          \<lparr>app_state := (app_state w)\<lparr>pp_msg := pp_last pb reqs (pp_msg (app_state w))\<rparr>\<rparr>)"
    unfolding assms(9) using pp_loop [OF assms(1-7,11,12), of app 0] assms(13) by simp
  then show ?thesis
    using assms(4,5,8-10,13)
    by (cases n, cases b) (simp add: OnFrontEndMsg_def get_net_def GetHandlerByEvent_def modify_net_def pp_served_def
        pp_last_def bev_drain_def set_net_app_state Let_def)
qed

text \<open>A codec for requests and replies with one-byte numbers.\<close>

definition byte_pp :: "test_rpc protobuf" where
  "byte_pp = \<lparr>pb_name = \<lambda>m. (case m of Ping k \<Rightarrow> ''test_rpc.Ping'' | Pong k \<Rightarrow> ''test_rpc.Pong''),
     pb_ser = \<lambda>m. (case m of Ping k \<Rightarrow> be32 k | Pong k \<Rightarrow> be32 k),
     pb_parse = \<lambda>t bs. Some (if t = ''test_rpc.Ping'' then Ping (of_be32 bs) else Pong (of_be32 bs)),
     pb_known = \<lambda>t. t = ''test_rpc.Ping'' \<or> t = ''test_rpc.Pong'',
     rpc_ser = \<lambda>m. [of_int (rm_msg_type m), ucast (rm_asyncid m)] @ rm_msg_bin m,
     rpc_parse = \<lambda>v. (case v of
         View (t # i # bs) \<Rightarrow>
           (\<lparr>rm_magic = MAGIC_RPCSTAMP_V1, rm_msg_type = uint t, rm_asyncid = ucast i,
             rm_msg_name = if t = 1 then ''test_rpc.Ping'' else ''test_rpc.Pong'', rm_msg_bin = bs\<rparr>, True)
       | _ \<Rightarrow> (\<lparr>rm_magic = 0, rm_msg_type = 0, rm_asyncid = 0, rm_msg_name = [], rm_msg_bin = []\<rparr>, False))\<rparr>"

theorem ping_pong_serves_witness:
  "\<exists>w'. OnFrontEndMsg (pp_app byte_pp ()) (pp_hooks byte_pp) 1
       ((sample_world [0, 0, 0, 10, 1, 7, 0, 0, 0, 41, 0, 0, 0, 10, 1, 8, 255, 255, 255, 255] None
           \<lparr>pp_stub = True, pp_registered = True, pp_msg = pp_reply_msg byte_pp (0, 0)\<rparr>)
         \<lparr>svc_mode := SVC_MODE_RPC\<rparr>) = Done (0, w')
     \<and> map_option (\<lambda>b. (bev_in b, bev_out b)) (Option.bind (nets (net_heap w') 1) hevent)
         = Some ([], [0, 0, 0, 10, 2, 7, 0, 0, 0, 42, 0, 0, 0, 10, 2, 8, 0, 0, 0, 0])"
proof -
  let ?in = "[0, 0, 0, 10, 1, 7, 0, 0, 0, 41, 0, 0, 0, 10, 1, 8, 255, 255, 255, 255]"
  let ?w = "(sample_world ?in None
      \<lparr>pp_stub = True, pp_registered = True, pp_msg = pp_reply_msg byte_pp (0, 0)\<rparr>)
        \<lparr>svc_mode := SVC_MODE_RPC\<rparr> :: (unit, pp_server) world"
  let ?b = "\<lparr>bev_fd = 7, bev_in = ?in, bev_out = []\<rparr>"
  let ?reqs = "[(7, 41), (8, 0xFFFFFFFF)] :: (64 word \<times> 32 word) list"
  have req: "pp_request byte_pp (7, 41) = [1, 7, 0, 0, 0, 41]"
      "pp_request byte_pp (8, 0xFFFFFFFF) = [1, 8, 255, 255, 255, 255]"
    by (simp_all add: pp_request_def request_of_def byte_pp_def be32_def)
  have rep: "pp_reply byte_pp (7, 41) = [2, 7, 0, 0, 0, 42]" "pp_reply byte_pp (8, 0xFFFFFFFF) = [2, 8, 0, 0, 0, 0]"
    by (simp_all add: pp_reply_def pp_reply_msg_def byte_pp_def be32_def)
  have codec: "pp_codec byte_pp ?reqs"
    using rep by (simp add: pp_codec_def codec_ok_def codec_knows_def request_msg_def byte_pp_def)
  have w: "pp_registered (app_state ?w)" "svc_mode ?w = SVC_MODE_RPC" "nets (net_heap ?w) 1 = Some (sample_net ?in None)"
      "hevent (sample_net ?in None :: unit easy_net) = Some ?b" "net_state (sample_net ?in None :: unit easy_net) = NET_ESTABLISHED"
      "write_rc (env ?w) = []" "map_of (handler_pool (frontend_mgr ?w)) (bev_fd ?b) = Some 1"
      "length (bev_in ?b) \<le> recv_size (frontend_mgr ?w)"
    by (simp_all add: sample_world_def sample_net_def EasyNet_new_def sample_answers_def)
  have stream: "bev_in ?b = concat (map (encode_frame \<circ> pp_request byte_pp) ?reqs) @ []"
    by (simp add: req encode_frame_def be32_def)
  have fits: "list_all fits_frame (map (pp_request byte_pp) ?reqs)"
    by (simp add: req fits_frame_def)
  from ping_pong_serves [OF codec w(1-7) stream w(8) fits, of "pp_app byte_pp ()"] show ?thesis
    by (simp add: rep encode_frame_def be32_def)
qed

end
