(* ===== verification/JsonUtil.thy ===== *)
theory JsonUtil
  imports Decimal
begin

text \<open>
  \<open>utils/rapidjson_util.*\<close>: the JSON writer, which appends to a string, and the reader over
  the documents of rapidjson. A C string is the characters before its NUL; a NULL pointer is
  \<open>None\<close>.
\<close>

section \<open>Documents\<close>

text \<open>The values of a rapidjson document. \<open>JInt\<close> holds the numbers for which
  \<open>IsInt\<close> is true, \<open>JReal\<close> the others.\<close>

datatype json =
    JNull
  | JBool bool
  | JInt cint
  | JReal string
  | JStr string
  | JArr "json list"
  | JObj "(string \<times> json) list"

section \<open>The writer\<close>

record JsonWriter =
  ptext :: "string option"
  first_element :: bool

definition JsonWriter_new :: "string option \<Rightarrow> JsonWriter" where
  "JsonWriter_new p = \<lparr>ptext = p, first_element = True\<rparr>"

text \<open>The default constructor initialises nothing. The only object made by it is the static one of
  \<open>JsonWriterSingleton\<close>, whose storage is zero.\<close>

definition JsonWriter_singleton :: JsonWriter where
  "JsonWriter_singleton = \<lparr>ptext = None, first_element = False\<rparr>"

fun EscapeString :: "string \<Rightarrow> string" where
  "EscapeString [] = []"
| "EscapeString (c # cs) = (if c = CHR 0x22 then [CHR 0x5C, c] else [c]) @ EscapeString cs"

text \<open>The comma and the tag that every call starts with; the tag of a container is not
  escaped.\<close>

definition json_tag :: "string option \<Rightarrow> string" where
  "json_tag name = (case name of None \<Rightarrow> [] | Some n \<Rightarrow> [CHR 0x22] @ n @ [CHR 0x22, CHR '':''])"

definition json_lead :: "string option \<Rightarrow> bool \<Rightarrow> string \<Rightarrow> string" where
  "json_lead name first t = t @ (if first then [] else [CHR '','']) @ json_tag name"

definition StructBegin :: "string option \<Rightarrow> JsonWriter \<Rightarrow> int \<times> JsonWriter" where
  "StructBegin name jw =
     (case ptext jw of
        None \<Rightarrow> (-1, jw)
      | Some t \<Rightarrow> (0, jw\<lparr>ptext := Some (json_lead name (first_element jw) t @ [CHR ''{'']),
                        first_element := True\<rparr>))"

definition StructEnd :: "JsonWriter \<Rightarrow> int \<times> JsonWriter" where
  "StructEnd jw =
     (case ptext jw of
        None \<Rightarrow> (-1, jw)
      | Some t \<Rightarrow> (0, jw\<lparr>ptext := Some (t @ [CHR ''}''])\<rparr>))"

definition ArrayBegin :: "string option \<Rightarrow> JsonWriter \<Rightarrow> int \<times> JsonWriter" where
  "ArrayBegin name jw =
     (case ptext jw of
        None \<Rightarrow> (-1, jw)
      | Some t \<Rightarrow> (0, jw\<lparr>ptext := Some (json_lead name (first_element jw) t @ [CHR ''[''])  ,
                        first_element := True\<rparr>))"

definition ArrayEnd :: "JsonWriter \<Rightarrow> int \<times> JsonWriter" where
  "ArrayEnd jw =
     (case ptext jw of
        None \<Rightarrow> (-1, jw)
      | Some t \<Rightarrow> (0, jw\<lparr>ptext := Some (t @ [CHR '']''])\<rparr>))"

text \<open>The two overloads of \<open>PushBack\<close>. \<open>snprintf\<close> is given 15 bytes.\<close>

definition PushBack_str :: "string option \<Rightarrow> string option \<Rightarrow> JsonWriter \<Rightarrow> int \<times> JsonWriter" where
  "PushBack_str key value jw =
     (case (ptext jw, value) of
        (Some t, Some v) \<Rightarrow>
          (0, jw\<lparr>ptext := Some (json_lead (map_option EscapeString key) (first_element jw) t
                                @ [CHR 0x22] @ EscapeString v @ [CHR 0x22]),
                first_element := False\<rparr>)
      | _ \<Rightarrow> (-1, jw))"

definition PushBack_int :: "string option \<Rightarrow> cint \<Rightarrow> JsonWriter \<Rightarrow> int \<times> JsonWriter" where
  "PushBack_int key value jw =
     (case ptext jw of
        None \<Rightarrow> (-1, jw)
      | Some t \<Rightarrow>
          (0, jw\<lparr>ptext := Some (json_lead (map_option EscapeString key) (first_element jw) t
                                @ take 14 (dec_int (sint value))),
                first_element := False\<rparr>))"

section \<open>Writing a document\<close>

text \<open>The calls that write a value, under a key or not: what a caller of this interface does.
  The writer has no call for null, booleans and reals.\<close>

datatype json_call =
    CallStructBegin "string option"
  | CallStructEnd
  | CallArrayBegin "string option"
  | CallArrayEnd
  | CallStr "string option" string
  | CallInt "string option" cint

fun do_call :: "json_call \<Rightarrow> JsonWriter \<Rightarrow> int \<times> JsonWriter" where
  "do_call (CallStructBegin name) jw = StructBegin name jw"
| "do_call CallStructEnd jw = StructEnd jw"
| "do_call (CallArrayBegin name) jw = ArrayBegin name jw"
| "do_call CallArrayEnd jw = ArrayEnd jw"
| "do_call (CallStr key v) jw = PushBack_str key (Some v) jw"
| "do_call (CallInt key v) jw = PushBack_int key v jw"

fun run_calls :: "json_call list \<Rightarrow> JsonWriter \<Rightarrow> JsonWriter" where
  "run_calls [] jw = jw"
| "run_calls (c # cs) jw = run_calls cs (snd (do_call c jw))"

fun write_json :: "string option \<Rightarrow> json \<Rightarrow> json_call list"
  and write_items :: "json list \<Rightarrow> json_call list"
  and write_members :: "(string \<times> json) list \<Rightarrow> json_call list" where
  "write_json key (JInt i) = [CallInt key i]"
| "write_json key (JStr s) = [CallStr key s]"
| "write_json key (JArr vs) = CallArrayBegin key # write_items vs @ [CallArrayEnd]"
| "write_json key (JObj ms) = CallStructBegin key # write_members ms @ [CallStructEnd]"
| "write_json key v = []"
| "write_items [] = []"
| "write_items (v # vs) = write_json None v @ write_items vs"
| "write_members [] = []"
| "write_members ((k, v) # ms) = write_json (Some k) v @ write_members ms"

section \<open>The text of a document\<close>

text \<open>The text that stands for a document: the grammar of JSON, without blanks, with the mandatory
  escapes.\<close>

definition hex_char :: "nat \<Rightarrow> char" where
  "hex_char d = (if d < 10 then digit_char d else char_of (87 + d))"

definition json_char :: "char \<Rightarrow> string" where
  "json_char c =
     (let n = of_char c :: nat in
      if n = 34 \<or> n = 92 then [CHR 0x5C, c]
      else if n < 32 then [CHR 0x5C, CHR ''u'', CHR ''0'', CHR ''0'', hex_char (n div 16), hex_char (n mod 16)]
      else [c])"

definition json_string :: "string \<Rightarrow> string" where
  "json_string s = [CHR 0x22] @ concat (map json_char s) @ [CHR 0x22]"

definition json_key :: "string option \<Rightarrow> string" where
  "json_key key = (case key of None \<Rightarrow> [] | Some k \<Rightarrow> json_string k @ [CHR '':''])"

text \<open>\<open>json_rest\<close> and \<open>json_rest_members\<close> are what follows a sibling.\<close>

fun json_print :: "string option \<Rightarrow> json \<Rightarrow> string"
  and json_rest :: "json list \<Rightarrow> string"
  and json_rest_members :: "(string \<times> json) list \<Rightarrow> string" where
  "json_print key JNull = json_key key @ ''null''"
| "json_print key (JBool b) = json_key key @ (if b then ''true'' else ''false'')"
| "json_print key (JInt i) = json_key key @ dec_int (sint i)"
| "json_print key (JReal s) = json_key key @ s"
| "json_print key (JStr s) = json_key key @ json_string s"
| "json_print key (JArr []) = json_key key @ ''[]''"
| "json_print key (JArr (v # vs)) = json_key key @ ''['' @ json_print None v @ json_rest vs @ '']''"
| "json_print key (JObj []) = json_key key @ ''{}''"
| "json_print key (JObj ((k, v) # ms)) =
     json_key key @ ''{'' @ json_print (Some k) v @ json_rest_members ms @ ''}''"
| "json_rest [] = []"
| "json_rest (v # vs) = '','' @ json_print None v @ json_rest vs"
| "json_rest_members [] = []"
| "json_rest_members ((k, v) # ms) = '','' @ json_print (Some k) v @ json_rest_members ms"

text \<open>Documents that the writer has calls for, with nothing to escape.\<close>

definition plain_string :: "string \<Rightarrow> bool" where
  "plain_string s = list_all (\<lambda>c. json_char c = [c]) s"

fun writable :: "json \<Rightarrow> bool" where
  "writable (JInt i) = True"
| "writable (JStr s) = plain_string s"
| "writable (JArr vs) = (\<forall>v \<in> set vs. writable v)"
| "writable (JObj ms) = (\<forall>(k, v) \<in> set ms. plain_string k \<and> writable v)"
| "writable v = False"

text \<open>Whether \<open>first_element_\<close> is set after a value: nothing has been pushed since the last
  bracket was opened in it.\<close>

fun left_first :: "json \<Rightarrow> bool"
  and left_items :: "bool \<Rightarrow> json list \<Rightarrow> bool"
  and left_members :: "bool \<Rightarrow> (string \<times> json) list \<Rightarrow> bool" where
  "left_first (JArr vs) = left_items True vs"
| "left_first (JObj ms) = left_members True ms"
| "left_first v = False"
| "left_items b [] = b"
| "left_items b (v # vs) = left_items (left_first v) vs"
| "left_members b [] = b"
| "left_members b ((k, v) # ms) = left_members (left_first v) ms"

text \<open>The siblings that follow such a value.\<close>

fun unseparated :: "json \<Rightarrow> nat"
  and unseparated_rest :: "bool \<Rightarrow> json list \<Rightarrow> nat"
  and unseparated_members :: "bool \<Rightarrow> (string \<times> json) list \<Rightarrow> nat" where
  "unseparated (JArr (v # vs)) = unseparated v + unseparated_rest (left_first v) vs"
| "unseparated (JObj ((k, v) # ms)) = unseparated v + unseparated_members (left_first v) ms"
| "unseparated v = 0"
| "unseparated_rest b [] = 0"
| "unseparated_rest b (v # vs) =
     (if b then 1 else 0) + unseparated v + unseparated_rest (left_first v) vs"
| "unseparated_members b [] = 0"
| "unseparated_members b ((k, v) # ms) =
     (if b then 1 else 0) + unseparated v + unseparated_members (left_first v) ms"

section \<open>What the calls write\<close>

lemma run_calls_append [simp]: "run_calls (cs @ ds) jw = run_calls ds (run_calls cs jw)"
  by (induction cs arbitrary: jw) simp_all

text \<open>The text appended, for a state of \<open>first_element_\<close>.\<close>

definition comma :: "bool \<Rightarrow> string" where
  "comma first = (if first then [] else [CHR '',''])"

fun written :: "string option \<Rightarrow> json \<Rightarrow> string"
  and written_items :: "bool \<Rightarrow> json list \<Rightarrow> string"
  and written_members :: "bool \<Rightarrow> (string \<times> json) list \<Rightarrow> string" where
  "written key (JInt i) = json_tag (map_option EscapeString key) @ dec_int (sint i)"
| "written key (JStr s) = json_tag (map_option EscapeString key) @ [CHR 0x22] @ EscapeString s @ [CHR 0x22]"
| "written key (JArr vs) = json_tag key @ ''['' @ written_items True vs @ '']''"
| "written key (JObj ms) = json_tag key @ ''{'' @ written_members True ms @ ''}''"
| "written key v = []"
| "written_items b [] = []"
| "written_items b (v # vs) = comma b @ written None v @ written_items (left_first v) vs"
| "written_members b [] = []"
| "written_members b ((k, v) # ms) = comma b @ written (Some k) v @ written_members (left_first v) ms"

text \<open>The 15 bytes are enough.\<close>

lemma dec_cint_length: "length (dec_int (sint (i :: cint))) \<le> 11"
proof -
  have "sint i < 2147483648" "- 2147483648 \<le> sint i"
    using sint_lt [of i] sint_ge [of i] by simp_all
  then have "nat (sint i) < 10 ^ 10" "nat (- sint i) < 10 ^ 10"
    by simp_all
  from this [THEN dec_nat_length, simplified] show ?thesis
    by (simp add: dec_int_def)
qed

lemma dec_cint_fits [simp]: "take 14 (dec_int (sint (i :: cint))) = dec_int (sint i)"
  using dec_cint_length [of i] by simp

lemma json_lead_comma: "json_lead name b t = t @ comma b @ json_tag name"
  by (simp add: json_lead_def comma_def)

lemma calls_write:
  "writable v \<Longrightarrow> run_calls (write_json key v) \<lparr>ptext = Some t, first_element = b\<rparr>
     = \<lparr>ptext = Some (t @ comma b @ written key v), first_element = left_first v\<rparr>"
  "\<forall>v \<in> set vs. writable v \<Longrightarrow> run_calls (write_items vs) \<lparr>ptext = Some t, first_element = b\<rparr>
     = \<lparr>ptext = Some (t @ written_items b vs), first_element = left_items b vs\<rparr>"
  "\<forall>(k, v) \<in> set ms. plain_string k \<and> writable v \<Longrightarrow>
     run_calls (write_members ms) \<lparr>ptext = Some t, first_element = b\<rparr>
     = \<lparr>ptext = Some (t @ written_members b ms), first_element = left_members b ms\<rparr>"
  by (induction key v and vs and ms arbitrary: t b and t b and t b
      rule: write_json_write_items_write_members.induct)
    (simp_all add: StructBegin_def StructEnd_def ArrayBegin_def ArrayEnd_def PushBack_str_def
      PushBack_int_def json_lead_comma)

section \<open>Comparison\<close>

definition plain_key :: "string option \<Rightarrow> bool" where
  "plain_key key = (case key of None \<Rightarrow> True | Some k \<Rightarrow> plain_string k)"

lemma plain_key_simps [simp]: "plain_key None" "plain_key (Some k) = plain_string k"
  by (simp_all add: plain_key_def)

lemma plain_escapes:
  assumes "plain_string s"
  shows "EscapeString s = s" "concat (map json_char s) = s"
proof -
  have quote: "json_char (CHR 0x22) \<noteq> [CHR 0x22]"
    by (simp add: json_char_def)
  from assms show "EscapeString s = s"
    using quote by (induction s) (auto simp: plain_string_def)
  from assms show "concat (map json_char s) = s"
    by (induction s) (auto simp: plain_string_def)
qed

lemma plain_tag:
  assumes "plain_key key"
  shows "json_tag key = json_key key" "json_tag (map_option EscapeString key) = json_key key"
  using assms plain_escapes
  by (cases key; simp add: json_tag_def json_key_def json_string_def)+

lemma plain_json_string: "plain_string s \<Longrightarrow> json_string s = [CHR 0x22] @ s @ [CHR 0x22]"
  using plain_escapes(2) by (simp add: json_string_def)

text \<open>The text written is the text of the document less one comma for each sibling that follows a
  container left with the flag set.\<close>

lemma written_length:
  "writable v \<Longrightarrow> plain_key key \<Longrightarrow>
     int (length (written key v)) = int (length (json_print key v)) - int (unseparated v)"
  "\<forall>v \<in> set vs. writable v \<Longrightarrow>
     int (length (written_items b vs)) = int (length (json_rest vs)) - int (unseparated_rest b vs)"
  "\<forall>(k, v) \<in> set ms. plain_string k \<and> writable v \<Longrightarrow>
     int (length (written_members b ms)) = int (length (json_rest_members ms)) - int (unseparated_members b ms)"
  by (induction key v and vs and ms arbitrary: and b and b
      rule: json_print_json_rest_json_rest_members.induct)
    (auto simp: plain_tag plain_escapes plain_json_string comma_def)

lemma written_text:
  "writable v \<Longrightarrow> plain_key key \<Longrightarrow> unseparated v = 0 \<Longrightarrow> written key v = json_print key v"
  "\<forall>v \<in> set vs. writable v \<Longrightarrow> unseparated_rest b vs = 0 \<Longrightarrow> written_items b vs = json_rest vs"
  "\<forall>(k, v) \<in> set ms. plain_string k \<and> writable v \<Longrightarrow> unseparated_members b ms = 0 \<Longrightarrow>
     written_members b ms = json_rest_members ms"
  by (induction key v and vs and ms arbitrary: and b and b
      rule: json_print_json_rest_json_rest_members.induct)
    (auto simp: plain_tag plain_escapes plain_json_string comma_def split: if_splits)

section \<open>The reader\<close>

text \<open>
  The reader holds the document and two pointers into it: NULL, the document itself, a value inside
  the current document, or a value of a document that a later \<open>Parse\<close> has replaced.
  \<open>prev_value_\<close> is never read. The parser is a parameter; \<open>None\<close> is a parse error, which
  leaves the document null.
\<close>

datatype cursor = CurNull | CurRoot | CurIn json | CurGone

record JsonReader =
  docu :: json
  curr_value :: cursor

definition JsonReader_new :: JsonReader where
  "JsonReader_new = \<lparr>docu = JNull, curr_value = CurNull\<rparr>"

definition Reader_Parse :: "(string \<Rightarrow> json option) \<Rightarrow> string \<Rightarrow> JsonReader \<Rightarrow> int \<times> JsonReader" where
  "Reader_Parse parse text r =
     (case parse text of
        None \<Rightarrow> (-1, r\<lparr>docu := JNull, curr_value := (case curr_value r of CurIn v \<Rightarrow> CurGone | c \<Rightarrow> c)\<rparr>)
      | Some v \<Rightarrow> (0, r\<lparr>docu := v, curr_value := CurRoot\<rparr>))"

text \<open>The value that \<open>curr_value_\<close> points to, and its member of a name: \<open>HasMember\<close>
  asserts that the value is an object and finds the first member of that name.\<close>

definition curr :: "JsonReader \<Rightarrow> json exec" where
  "curr r = (case curr_value r of
     CurNull \<Rightarrow> Crash NullDeref | CurRoot \<Rightarrow> Done (docu r) | CurIn v \<Rightarrow> Done v | CurGone \<Rightarrow> Crash UseAfterFree)"

definition member :: "string \<Rightarrow> JsonReader \<Rightarrow> json option exec" where
  "member key r = bindE (curr r) (\<lambda>v. case v of JObj ms \<Rightarrow> Done (map_of ms key) | _ \<Rightarrow> Crash AssertFailed)"

definition GetValueString :: "string option \<Rightarrow> JsonReader \<Rightarrow> (int \<times> string option) exec" where
  "GetValueString key r =
     (case key of
        None \<Rightarrow> Done (-1, None)
      | Some k \<Rightarrow> bindE (member k r) (\<lambda>m. case m of
            Some (JStr s) \<Rightarrow> Done (0, Some s) | _ \<Rightarrow> Done (-1, None)))"

definition GetValueInt :: "string option \<Rightarrow> JsonReader \<Rightarrow> (int \<times> cint option) exec" where
  "GetValueInt key r =
     (case key of
        None \<Rightarrow> Done (-1, None)
      | Some k \<Rightarrow> bindE (member k r) (\<lambda>m. case m of
            Some (JInt i) \<Rightarrow> Done (0, Some i) | _ \<Rightarrow> Done (-1, None)))"

text \<open>\<open>GetValueIntAt\<close> refuses position 0; beyond the end, or on an element that is no number,
  rapidjson asserts.\<close>

definition GetValueIntAt :: "string option \<Rightarrow> nat \<Rightarrow> JsonReader \<Rightarrow> (int \<times> cint option) exec" where
  "GetValueIntAt key pos r =
     (case key of
        None \<Rightarrow> Done (-1, None)
      | Some k \<Rightarrow>
          if pos = 0 then Done (-1, None)
          else bindE (member k r) (\<lambda>m. case m of
            Some (JArr vs) \<Rightarrow>
              if length vs \<le> pos then Crash AssertFailed
              else (case vs ! pos of JInt i \<Rightarrow> Done (0, Some i) | _ \<Rightarrow> Crash AssertFailed)
          | _ \<Rightarrow> Done (-1, None)))"

text \<open>\<open>GetCount\<close>: 0 also when there is no such member, with the count left alone. The size is
  converted to \<open>int\<close>.\<close>

definition GetCount :: "string option \<Rightarrow> JsonReader \<Rightarrow> (int \<times> cint option) exec" where
  "GetCount key r =
     (case key of
        None \<Rightarrow> Done (-1, None)
      | Some k \<Rightarrow> bindE (member k r) (\<lambda>m. Done (0, case m of
            None \<Rightarrow> None | Some (JArr vs) \<Rightarrow> Some (of_nat (length vs)) | Some v \<Rightarrow> Some 1)))"

definition Enter :: "string option \<Rightarrow> JsonReader \<Rightarrow> (int \<times> JsonReader) exec" where
  "Enter key r =
     (case key of
        None \<Rightarrow> Done (-1, r)
      | Some k \<Rightarrow> bindE (member k r) (\<lambda>m. case m of
            Some (JObj ms) \<Rightarrow> Done (0, r\<lparr>curr_value := CurIn (JObj ms)\<rparr>) | _ \<Rightarrow> Done (-1, r)))"

definition EnterAt :: "string option \<Rightarrow> nat \<Rightarrow> JsonReader \<Rightarrow> (int \<times> JsonReader) exec" where
  "EnterAt key pos r =
     (case key of
        None \<Rightarrow> Done (-1, r)
      | Some k \<Rightarrow> bindE (member k r) (\<lambda>m. case m of
            Some (JArr vs) \<Rightarrow>
              if pos < length vs
              then (case vs ! pos of
                      JObj ms \<Rightarrow> Done (0, r\<lparr>curr_value := CurIn (JObj ms)\<rparr>) | _ \<Rightarrow> Done (-1, r))
              else Done (-1, r)
          | _ \<Rightarrow> Done (-1, r)))"

definition EnterRoot :: "JsonReader \<Rightarrow> JsonReader" where
  "EnterRoot r = r\<lparr>curr_value := CurRoot\<rparr>"

section \<open>Properties\<close>



text \<open>What is written is read back. For an object with nothing to escape, no missing comma and no
  key twice, and a parser that reads its text: after \<open>Parse\<close> of the text written, every string and
  every integer is found under its key by the \<open>Get\<close> of its type, and refused by the other
  one.\<close>

theorem json_write_read:
  assumes "writable (JObj ms)" and "unseparated (JObj ms) = 0" and "distinct (map fst ms)"
    and "parse (json_print None (JObj ms)) = Some (JObj ms)" and "(k, v) \<in> set ms"
  shows "\<exists>out r'. ptext (run_calls (write_json None (JObj ms)) (JsonWriter_new (Some []))) = Some out
     \<and> Reader_Parse parse out r = (0, r')
     \<and> GetValueString (Some k) r' = Done (case v of JStr s \<Rightarrow> (0, Some s) | _ \<Rightarrow> (-1, None))
     \<and> GetValueInt (Some k) r' = Done (case v of JInt i \<Rightarrow> (0, Some i) | _ \<Rightarrow> (-1, None))"
proof -
  let ?text = "json_print None (JObj ms)"
  have out: "ptext (run_calls (write_json None (JObj ms)) (JsonWriter_new (Some []))) = Some ?text"
    using calls_write(1) [OF assms(1), of None "[]" True] written_text(1) [OF assms(1) _ assms(2), of None]
    by (simp add: JsonWriter_new_def comma_def)
  have "map_of ms k = Some v"
    using assms(3,5) by simp
  then have found: "member k (r\<lparr>docu := JObj ms, curr_value := CurRoot\<rparr>) = Done (Some v)"
    by (simp add: member_def curr_def)
  have "Reader_Parse parse ?text r = (0, r\<lparr>docu := JObj ms, curr_value := CurRoot\<rparr>)"
    using assms(4) by (simp add: Reader_Parse_def)
  with out found show ?thesis
    by (cases v) (auto simp: GetValueString_def GetValueInt_def)
qed

theorem json_write_read_witness:
  "\<exists>out r'. ptext (run_calls (write_json None (JObj [(''a'', JInt 3), (''b'', JStr ''x'')])) (JsonWriter_new (Some [])))
        = Some out
     \<and> Reader_Parse (\<lambda>t. if t = out then Some (JObj [(''a'', JInt 3), (''b'', JStr ''x'')]) else None) out
         JsonReader_new = (0, r')
     \<and> GetValueString (Some ''b'') r' = Done (0, Some ''x'') \<and> GetValueInt (Some ''b'') r' = Done (-1, None)"
proof -
  let ?ms = "[(''a'', JInt 3), (''b'', JStr ''x'')]"
  let ?text = "json_print None (JObj ?ms)"
  let ?parse = "\<lambda>t. if t = ?text then Some (JObj ?ms) else None"
  have plain: "writable (JObj ?ms)"
    by (simp add: plain_string_def json_char_def)
  obtain out r' where r: "ptext (run_calls (write_json None (JObj ?ms)) (JsonWriter_new (Some []))) = Some out"
      "Reader_Parse ?parse out JsonReader_new = (0, r')" "GetValueString (Some ''b'') r' = Done (0, Some ''x'')"
      "GetValueInt (Some ''b'') r' = Done (-1, None)"
    using json_write_read [OF plain, of ?parse "''b''" "JStr ''x''" JsonReader_new] by auto
  moreover have "out = ?text"
    using r(2) by (auto simp: Reader_Parse_def split: if_splits)
  ultimately show ?thesis
    by blast
qed

end
