(* ===== verification/WireTypes.thy ===== *)
theory WireTypes
  imports ServerApi ClientApi
begin

text \<open>
  The shape of the messages on the two links of the connector: which field of the body goes with
  which command (\<open>server/connector/client.proto\<close>, \<open>server.proto\<close>), and that nothing else is sent.
\<close>

section \<open>Well-formed messages\<close>

text \<open>The command names the one field that is set.\<close>

definition cs_typed :: "csmsg \<Rightarrow> bool" where
  "cs_typed m =
     (cs_magic m = MAGIC_CS_V1
      \<and> cs_bodyid m \<in> {CS_SYN, CS_SYNACK, CS_AUTHENTICATION, CS_PASSPORT, CS_START_APP, CS_DATA_TRANSPARENT, CS_ERROR}
      \<and> (cs_syn (cs_body m) \<noteq> None \<longleftrightarrow> cs_bodyid m = CS_SYN)
      \<and> (cs_ack (cs_body m) \<noteq> None \<longleftrightarrow> cs_bodyid m = CS_SYNACK)
      \<and> (cs_auth (cs_body m) \<noteq> None \<longleftrightarrow> cs_bodyid m = CS_AUTHENTICATION)
      \<and> (cs_passport (cs_body m) \<noteq> None \<longleftrightarrow> cs_bodyid m = CS_PASSPORT)
      \<and> (cs_start (cs_body m) \<noteq> None \<longleftrightarrow> cs_bodyid m = CS_START_APP)
      \<and> (cs_data (cs_body m) \<noteq> None \<longleftrightarrow> cs_bodyid m = CS_DATA_TRANSPARENT)
      \<and> (cs_error (cs_body m) \<noteq> None \<longleftrightarrow> cs_bodyid m = CS_ERROR))"

definition ss_typed :: "ssmsg \<Rightarrow> bool" where
  "ss_typed m =
     (ss_magic m = MAGIC_SS_V1
      \<and> ss_bodyid m \<in> {SS_SYN, SS_ACK, SS_RSM, SS_FIN, SS_DATA}
      \<and> (ss_syn (ss_body m) \<noteq> None \<longleftrightarrow> ss_bodyid m = SS_SYN)
      \<and> (ss_ack (ss_body m) \<noteq> None \<longleftrightarrow> ss_bodyid m = SS_ACK)
      \<and> (ss_rsm (ss_body m) \<noteq> None \<longleftrightarrow> ss_bodyid m = SS_RSM)
      \<and> (ss_fin (ss_body m) \<noteq> None \<longleftrightarrow> ss_bodyid m = SS_FIN)
      \<and> (ss_data (ss_body m) \<noteq> None \<longleftrightarrow> ss_bodyid m = SS_DATA))"

text \<open>Two codecs that parse alike and serialise well-formed messages alike.\<close>

definition same_on_typed :: "codec \<Rightarrow> codec \<Rightarrow> bool" where
  "same_on_typed cd cd' =
     (cs_parse cd = cs_parse cd' \<and> ss_parse cd = ss_parse cd'
      \<and> (\<forall>m. cs_typed m \<longrightarrow> cs_ser cd m = cs_ser cd' m) \<and> (\<forall>m. ss_typed m \<longrightarrow> ss_ser cd m = ss_ser cd' m))"

lemma same_on_typedD:
  assumes "same_on_typed cd cd'"
  shows "cs_parse cd = cs_parse cd'" "ss_parse cd = ss_parse cd'" "cs_typed m \<Longrightarrow> cs_ser cd m = cs_ser cd' m"
    "ss_typed sm \<Longrightarrow> ss_ser cd sm = ss_ser cd' sm"
  using assms by (simp_all add: same_on_typed_def)

section \<open>Senders\<close>

lemma typed_messages:
  "cs_typed (cs_message sq CS_SYN (empty_csbody\<lparr>cs_syn := Some ao\<rparr>))"
  "cs_typed (cs_message sq CS_AUTHENTICATION (empty_csbody\<lparr>cs_auth := Some k\<rparr>))"
  "cs_typed (cs_message sq CS_SYNACK (empty_csbody\<lparr>cs_ack := Some k\<rparr>))"
  "cs_typed (cs_message sq CS_PASSPORT (empty_csbody\<lparr>cs_passport := Some n\<rparr>))"
  "cs_typed (cs_message sq CS_START_APP (empty_csbody\<lparr>cs_start := Some n\<rparr>))"
  "cs_typed (cs_message sq CS_DATA_TRANSPARENT (empty_csbody\<lparr>cs_data := Some d\<rparr>))"
  "ss_typed (ss_message sq SS_DATA t (empty_ssbody\<lparr>ss_data := Some d\<rparr>))"
  "ss_typed (ss_message sq SS_SYN t (empty_ssbody\<lparr>ss_syn := Some n\<rparr>))"
  "ss_typed (ss_message sq SS_FIN t (empty_ssbody\<lparr>ss_fin := Some n\<rparr>))"
  "ss_typed (ss_message sq SS_ACK t (empty_ssbody\<lparr>ss_ack := Some n\<rparr>))"
  by (simp_all add: cs_typed_def ss_typed_def cs_message_def ss_message_def empty_csbody_def empty_ssbody_def)

lemma send_typed:
  assumes "same_on_typed cd cd'" and "cs_typed msg"
  shows "send_and_go cd msg = send_and_go cd' msg"
  unfolding fun_eq_iff send_and_go_def SerializeAndSendToFrontEnd_def same_on_typedD(3) [OF assms] by simp

lemma session_typed:
  assumes "same_on_typed cd cd'"
  shows "ForwardUpSideMessage cd = ForwardUpSideMessage cd'"
    "ForwardDownSideMessage cd = ForwardDownSideMessage cd'"
    "StartToBackEnd cd = StartToBackEnd cd'" "StopToBackEnd cd = StopToBackEnd cd'"
    "HandleKeyMaking cd = HandleKeyMaking cd'" "HandleAuthRequest cd = HandleAuthRequest cd'"
    "HandShake_OnStartAcked cd = HandShake_OnStartAcked cd'"
  unfolding fun_eq_iff ForwardUpSideMessage_def ForwardDownSideMessage_def StartToBackEnd_def
      StopToBackEnd_def HandleKeyMaking_def HandleAuthRequest_def HandShake_OnStartAcked_def
      same_on_typedD(3) [OF assms typed_messages(6)] same_on_typedD(4) [OF assms typed_messages(7)]
      same_on_typedD(4) [OF assms typed_messages(8)] same_on_typedD(4) [OF assms typed_messages(9)]
      send_typed [OF assms typed_messages(3)] send_typed [OF assms typed_messages(4)]
      send_typed [OF assms typed_messages(5)]
  by simp_all

lemma drive_typed:
  assumes "same_on_typed cd cd'"
  shows "drive_or_close cd = drive_or_close cd'" "StopBackEndSession cd = StopBackEndSession cd'"
  unfolding fun_eq_iff drive_or_close_def DriveStateMachine_def HandShake_StartSession_def
    StopBackEndSession_def session_typed [OF assms]
  by simp_all

lemma backend_typed:
  assumes "\<And>m. ss_typed m \<Longrightarrow> ser m = ser' m"
  shows "demo_OnRecvFrontEnd parse ser = demo_OnRecvFrontEnd parse ser'"
proof -
  have sends: "HandshakeToConn ser = HandshakeToConn ser'" "SendDataToConn ser = SendDataToConn ser'"
    unfolding fun_eq_iff HandshakeToConn_def SendDataToConn_def to_conn_def
      assms [OF typed_messages(7)] assms [OF typed_messages(10)]
    by simp_all
  show ?thesis
    unfolding fun_eq_iff demo_OnRecvFrontEnd_def demo_listener_def demo_OnConnStart_def demo_OnData_def sends
    by simp
qed

text \<open>The client: its two handshake messages and its pushes.\<close>

lemma peer_typed:
  assumes "same_on_typed cd cd'" and "\<And>sq. cs_typed (cs_message sq bid body)"
  shows "SerializeAndSendToPeer cd a (prepare bid body c) = SerializeAndSendToPeer cd' a (prepare bid body c)"
proof -
  have "up_msg (prepare bid body c) = cs_message (seqno c) bid body"
    by (simp add: prepare_def)
  then show ?thesis
    unfolding SerializeAndSendToPeer_def using same_on_typedD(3) [OF assms] by simp
qed

lemma client_typed:
  assumes "same_on_typed cd cd'"
  shows "Update cd = Update cd'" "PushMessage cd = PushMessage cd'"
proof -
  have recv: "TryToRecvFromPeerAndParse cd = TryToRecvFromPeerAndParse cd'"
    unfolding fun_eq_iff TryToRecvFromPeerAndParse_def same_on_typedD(1) [OF assms] by simp
  have shake: "HandShake_SYN cd = HandShake_SYN cd'" "HandShake_AUTH cd = HandShake_AUTH cd'"
      "HandShake_TRY_ACK cd = HandShake_TRY_ACK cd'" "HandShake_TRY_READY cd = HandShake_TRY_READY cd'"
      "HandShake_TRY_DONE cd = HandShake_TRY_DONE cd'"
    unfolding fun_eq_iff HandShake_SYN_def HandShake_AUTH_def HandShake_TRY_ACK_def HandShake_TRY_READY_def
      HandShake_TRY_DONE_def recv peer_typed [OF assms typed_messages(1)] peer_typed [OF assms typed_messages(2)]
    by simp_all
  show "Update cd = Update cd'"
    unfolding fun_eq_iff Update_def Update_switch_def shake by simp
  show "PushMessage cd = PushMessage cd'"
    unfolding fun_eq_iff PushMessage_def peer_typed [OF assms typed_messages(6)] by simp
qed

section \<open>Properties\<close>

text \<open>C22. Connector, demo backend and client send well-formed messages only: whatever arrives, and in
  whatever state, every message that a callback or a call of the client serialises carries the magic number and exactly the body field
  of its command. Stated as: they do the same with any two serialisers that agree on these
  messages, so no other message is ever passed to one.\<close>

theorem callbacks_send_typed:
  assumes "same_on_typed cd cd'"
  shows "Connector_OnRecvFrontEnd cd = Connector_OnRecvFrontEnd cd'
     \<and> Connector_OnRecvBackEnd cd dbg = Connector_OnRecvBackEnd cd' dbg
     \<and> Connector_OnFrontEndClose cd = Connector_OnFrontEndClose cd'
     \<and> demo_OnRecvFrontEnd parse (ss_ser cd) = demo_OnRecvFrontEnd parse (ss_ser cd')
     \<and> Update cd = Update cd' \<and> PushMessage cd = PushMessage cd'"
proof -
  have "demo_OnRecvFrontEnd parse (ss_ser cd) = demo_OnRecvFrontEnd parse (ss_ser cd')"
    by (rule backend_typed) (rule same_on_typedD(4) [OF assms])
  moreover have "Connector_OnRecvFrontEnd cd = Connector_OnRecvFrontEnd cd'"
    "Connector_OnRecvBackEnd cd dbg = Connector_OnRecvBackEnd cd' dbg"
    "Connector_OnFrontEndClose cd = Connector_OnFrontEndClose cd'"
    unfolding fun_eq_iff Connector_OnRecvFrontEnd_def Connector_OnRecvBackEnd_def Connector_OnFrontEndClose_def
      same_on_typedD(1,2) [OF assms] session_typed [OF assms] drive_typed [OF assms]
    by simp_all
  ultimately show ?thesis
    using client_typed [OF assms] by blast
qed

text \<open>A codec that loses every message with an unknown command.\<close>

definition lossy_codec :: codec where
  "lossy_codec = sample_codec\<lparr>cs_ser := (\<lambda>m. if cs_bodyid m = 7 then [] else cs_ser sample_codec m)\<rparr>"

theorem callbacks_send_typed_witness:
  "Connector_OnRecvFrontEnd sample_codec = Connector_OnRecvFrontEnd lossy_codec
   \<and> Update sample_codec = Update lossy_codec
   \<and> cs_ser sample_codec (cs_message 1 7 empty_csbody) \<noteq> cs_ser lossy_codec (cs_message 1 7 empty_csbody)"
proof -
  have "same_on_typed sample_codec lossy_codec"
    by (auto simp: same_on_typed_def lossy_codec_def cs_typed_def)
  from callbacks_send_typed [OF this] show ?thesis
    by (simp add: lossy_codec_def sample_codec_def cs_message_def)
qed

end
