(* ===== verification/ConnectorRun.thy ===== *)
theory ConnectorRun
  imports ConnectorApp EventLoop
begin

text \<open>
  Whole runs of the connector: its invariant, the conditions under which its callbacks honour the
  framework's contract, and its run as an interpretation of \<open>guarded_app\<close>. The conditions are the
  ones whose violation crashes it (\<open>connector_backend_down_crashes\<close>, \<open>connector_fin_crashes\<close>,
  \<open>connector_send_failure_crashes\<close>): while data arrives every backend is established, backends
  send no \<open>FIN\<close>, and writes to the buffers succeed.
\<close>

section \<open>The invariant\<close>

definition front_ok :: "ptr \<Rightarrow> session easy_net \<Rightarrow> bool" where
  "front_ok p n = (net_state n = NET_ESTABLISHED
     \<and> (\<forall>s. user_context n = Some s \<longrightarrow> net_stub s = Some p \<and> frame_stub s))"

text \<open>The connector has its stub and its backends, which are connections of the pool; every
  frontend is established, and its session, once made, knows its connection.\<close>

definition conn_inv :: "cworld \<Rightarrow> bool" where
  "conn_inv w =
     (app_stub (app_state w) \<and> backs_ok (app_state w) \<and> write_rc (env w) = []
      \<and> (\<forall>i < backend_used (app_state w).
           \<exists>q \<in> pool_ptrs (backend_mgr w). backends (app_state w) ! i = Some q)
      \<and> (\<forall>p \<in> pool_ptrs (frontend_mgr w). \<forall>n. nets (net_heap w) p = Some n \<longrightarrow> front_ok p n))"

definition backs_up :: "cworld \<Rightarrow> bool" where
  "backs_up w = (\<forall>q \<in> pool_ptrs (backend_mgr w). \<forall>n. nets (net_heap w) q = Some n \<longrightarrow> net_state n = NET_ESTABLISHED)"

definition connector_limits :: "codec \<Rightarrow> (session, connector) limits" where
  "connector_limits cd =
     \<lparr>from_front = (\<lambda>_. True), from_back = (\<lambda>v. ss_bodyid (ss_parse cd v) \<noteq> SS_FIN), able = backs_up\<rparr>"

text \<open>No message is encoded as nothing: every message has required fields.\<close>

definition codec_writes :: "codec \<Rightarrow> bool" where
  "codec_writes cd = ((\<forall>m. cs_ser cd m \<noteq> []) \<and> (\<forall>m. ss_ser cd m \<noteq> []))"

lemma front_ok_seen: "front_ok p n \<Longrightarrow> seen n' = seen n \<Longrightarrow> front_ok p n'"
  by (simp add: front_ok_def seen_def)

lemma kept_netsE:
  assumes "kept_nets S h h'" and "p \<in> S" and "nets h' p = Some n'"
  obtains n where "nets h p = Some n" "seen n' = seen n"
  using assms unfolding kept_nets_def by blast

lemma conn_inv_kept:
  assumes "conn_inv w" and "undisturbed False w w'"
  shows "conn_inv w'"
proof -
  have "front_ok p n" if p: "p \<in> pool_ptrs (frontend_mgr w')" and n: "nets (net_heap w') p = Some n" for p n
  proof -
    have k: "kept_nets (pool_ptrs (frontend_mgr w')) (net_heap w) (net_heap w')" "p \<in> pool_ptrs (frontend_mgr w)"
      using assms(2) p by (auto simp: undisturbed_def)
    obtain n0 where "nets (net_heap w) p = Some n0" "seen n = seen n0"
      using kept_netsE [OF k(1) p n] .
    with k(2) assms(1) show ?thesis
      using front_ok_seen by (auto simp: conn_inv_def)
  qed
  with assms show ?thesis
    by (simp add: conn_inv_def undisturbed_def)
qed

lemma backs_up_kept: "backs_up w \<Longrightarrow> undisturbed True w w' \<Longrightarrow> backs_up w'"
  by (fastforce simp: backs_up_def undisturbed_def kept_nets_def seen_def)

lemma new_front_others:
  assumes "conn_inv w" and "new_front p c w w1" and "q \<noteq> p" and "q \<in> pool_ptrs (frontend_mgr w1)"
    and "nets (net_heap w1) q = Some n"
  shows "front_ok q n"
proof -
  have k: "kept_nets (pool_ptrs (frontend_mgr w1) - {p}) (net_heap w) (net_heap w1)"
      "q \<in> pool_ptrs (frontend_mgr w1) - {p}" "q \<in> pool_ptrs (frontend_mgr w)"
    using assms(2-4) by (auto simp: new_front_def)
  obtain n0 where "nets (net_heap w) q = Some n0" "seen n = seen n0"
    using kept_netsE [OF k(1,2) assms(5)] .
  with k(3) assms(1) show ?thesis
    using front_ok_seen by (auto simp: conn_inv_def)
qed

lemma conn_inv_joined:
  assumes "conn_inv w" and "new_front p None w w1"
  shows "conn_inv w1"
proof -
  have "front_ok q n" if q: "q \<in> pool_ptrs (frontend_mgr w1)" and n: "nets (net_heap w1) q = Some n" for q n
    using new_front_others [OF assms _ q n] assms(2) n
    by (cases "q = p") (auto simp: new_front_def seen_def front_ok_def)
  with assms show ?thesis
    by (simp add: conn_inv_def new_front_def)
qed

text \<open>The world in a data event.\<close>

abbreviation conn_ready :: "codec \<Rightarrow> cworld \<Rightarrow> bool" where
  "conn_ready cd \<equiv> ready (connector_limits cd) conn_inv"

lemma conn_readyD:
  assumes "conn_ready cd w"
  shows "world_ok w" "conn_inv w" "backs_up w"
  using assms by (simp_all add: ready_def sound_def connector_limits_def)

lemma conn_readyI: "world_ok w \<Longrightarrow> conn_inv w \<Longrightarrow> backs_up w \<Longrightarrow> conn_ready cd w"
  by (simp add: ready_def sound_def connector_limits_def)

text \<open>The same connections.\<close>

definition same_pools :: "cworld \<Rightarrow> cworld \<Rightarrow> bool" where
  "same_pools w w' = (frontend_mgr w' = frontend_mgr w \<and> backend_mgr w' = backend_mgr w)"

lemma disjoint_pools:
  assumes "world_ok w" and "p \<in> pool_ptrs (frontend_mgr w)" and "q \<in> pool_ptrs (backend_mgr w)"
  shows "p \<noteq> q"
  using mgr_invD(4) [OF world_okD(1) [OF assms(1)]] assms(2,3) by blast

lemma ready_set_front:
  assumes r: "conn_ready cd w" and p: "p \<in> pool_ptrs (frontend_mgr w)" and n: "nets (net_heap w) p = Some n"
    and "same_net n n'" and ok: "front_ok p n'"
  shows "conn_ready cd (set_net p n' w)"
proof (rule conn_readyI)
  show "world_ok (set_net p n' w)"
    by (rule world_ok_set_net [OF conn_readyD(1) [OF r] n assms(4)])
  show "conn_inv (set_net p n' w)"
    using conn_readyD(2) [OF r] ok by (simp add: conn_inv_def)
  show "backs_up (set_net p n' w)"
    using conn_readyD(3) [OF r] disjoint_pools [OF conn_readyD(1) [OF r] p] by (auto simp: backs_up_def)
qed

lemma ready_set_back:
  assumes r: "conn_ready cd w" and q: "q \<in> pool_ptrs (backend_mgr w)" and n: "nets (net_heap w) q = Some n"
    and "same_net n n'" and "net_state n' = NET_ESTABLISHED"
  shows "conn_ready cd (set_net q n' w)"
proof (rule conn_readyI)
  show "world_ok (set_net q n' w)"
    by (rule world_ok_set_net [OF conn_readyD(1) [OF r] n assms(4)])
  show "conn_inv (set_net q n' w)"
    using conn_readyD(2) [OF r] disjoint_pools [OF conn_readyD(1) [OF r] _ q] by (auto simp: conn_inv_def)
  show "backs_up (set_net q n' w)"
    using conn_readyD(3) [OF r] assms(5) by (simp add: backs_up_def)
qed

lemma ready_turned:
  assumes "conn_ready cd w"
  shows "conn_ready cd (turned w)"
proof (rule conn_readyI)
  show "world_ok (turned w)"
    using conn_readyD(1) [OF assms] by (simp add: turned_def)
  show "conn_inv (turned w)"
    using conn_readyD(2) [OF assms] next_backend_ok [of w] by (simp add: conn_inv_def turned_def)
  show "backs_up (turned w)"
    using conn_readyD(3) [OF assms] by (simp add: backs_up_def turned_def)
qed

text \<open>A frontend with a session is up; the backend in turn is established.\<close>

lemma ready_up_front:
  assumes "conn_ready cd w" and "p \<in> pool_ptrs (frontend_mgr w)"
    and "nets (net_heap w) p = Some n" and "user_context n = Some s"
  obtains b where "up_front w p n b s"
proof -
  obtain b where "hevent n = Some b"
    using live_net [OF conn_readyD(1) [OF assms(1)] front_all [OF assms(2)]] assms(3) by auto
  moreover have "front_ok p n" "write_rc (env w) = []" "app_stub (app_state w)"
    using conn_readyD(2) [OF assms(1)] assms(2,3) by (simp_all add: conn_inv_def)
  ultimately show thesis
    using that assms(3,4) by (simp add: up_front_def front_ok_def)
qed

lemma ready_turn:
  assumes "conn_ready cd w"
  obtains q nq bq where "turn w = Some q" "q \<in> pool_ptrs (backend_mgr w)" "nets (net_heap w) q = Some nq"
    "hevent nq = Some bq" "net_state nq = NET_ESTABLISHED" "backs_ok (app_state w)"
proof -
  have backs: "backs_ok (app_state w)"
    using conn_readyD(2) [OF assms] by (simp add: conn_inv_def)
  then have "backend_pos (app_state w) mod backend_used (app_state w) < backend_used (app_state w)"
    by (simp add: backs_ok_def)
  then obtain q where q: "q \<in> pool_ptrs (backend_mgr w)" "turn w = Some q"
    using conn_readyD(2) [OF assms] by (auto simp: conn_inv_def turn_def)
  obtain nq bq where "nets (net_heap w) q = Some nq" "hevent nq = Some bq"
    using live_net [OF conn_readyD(1) [OF assms] back_all [OF q(1)]] .
  with q backs that conn_readyD(3) [OF assms] show thesis
    by (simp add: backs_up_def)
qed

section \<open>The callbacks\<close>

lemma same_pools_refl: "same_pools w w"
  by (simp add: same_pools_def)

lemma same_pools_trans: "same_pools w w1 \<Longrightarrow> same_pools w1 w2 \<Longrightarrow> same_pools w w2"
  by (simp add: same_pools_def)

lemma same_pools_simps [simp]: "same_pools w (set_net p n w)" "same_pools w (turned w)"
  by (simp_all add: same_pools_def turned_def)

lemma same_net_write: "hevent n = Some b \<Longrightarrow> same_net n (n\<lparr>hevent := Some (bev_write m b)\<rparr>)"
  "hevent n = Some b \<Longrightarrow> same_net n (n\<lparr>hevent := Some (bev_write m b), last_active_timestamp := t\<rparr>)"
  "hevent n = Some b \<Longrightarrow> same_net n (sent_front n b m s)"
  by (simp_all add: same_net_def bev_write_def sent_front_def)

lemma up_front_ok:
  assumes "up_front w p n b s" and "net_stub s' = Some p" and "frame_stub s'"
  shows "front_ok p (sent_front n b m s')" "front_ok p (n\<lparr>user_context := Some s'\<rparr>)"
  using assms by (simp_all add: up_front_def front_ok_def sent_front_def)

text \<open>Driving a session that is not finished.\<close>

lemma Drive_ready:
  assumes r: "conn_ready cd w" and p: "p \<in> pool_ptrs (frontend_mgr w)"
    and n: "nets (net_heap w) p = Some n" "user_context n = Some s"
    and st: "state s \<noteq> STATE_OK" and cd: "codec_writes cd"
  shows "\<exists>n' s' w'. DriveStateMachine cd p w = Done (0, w') \<and> conn_ready cd w' \<and> same_pools w w'
    \<and> nets (net_heap w') p = Some n' \<and> user_context n' = Some s' \<and> (state s' = STATE_OK \<longrightarrow> state s = STATE_SYNACK)"
proof -
  obtain b where up: "up_front w p n b s"
    using ready_up_front [OF r p n] .
  note u = up_frontD [OF up]
  have ne: "cs_ser cd m \<noteq> []" "ss_ser cd m' \<noteq> []" for m m'
    using cd by (simp_all add: codec_writes_def)
  consider m st' where "front_reply (state s) = Some (m, st')" | "state s = STATE_AUTH" | "state s = STATE_SYNING"
    using st by (cases "state s") (auto simp: front_reply_def)
  then show ?thesis
  proof cases
    case 1
    let ?n = "sent_front n b (cs_ser cd m) (s\<lparr>state := st'\<rparr>)"
    have "conn_ready cd (set_net p ?n w)"
      by (rule ready_set_front [OF r p n(1) same_net_write(3) [OF u(2)] up_front_ok(1) [OF up]]) (use u in simp_all)
    moreover have "st' = STATE_OK \<longrightarrow> state s = STATE_SYNACK"
      using 1 by (auto simp: front_reply_def split: SessionState.splits)
    ultimately show ?thesis
      using Drive_front [OF up 1 ne(1)] by (auto simp: sent_front_def)
  next
    case 2
    let ?n = "sent_front n b (cs_ser cd auth_reply) (s\<lparr>state := STATE_SYNING\<rparr>)"
    have "conn_ready cd (set_net p ?n w)"
      by (rule ready_set_front [OF r p n(1) same_net_write(3) [OF u(2)] up_front_ok(1) [OF up]]) (use u in simp_all)
    then show ?thesis
      using Drive_auth [OF up 2 ne(1)] by (auto simp: sent_front_def)
  next
    case 3
    obtain q nq bq where q: "turn w = Some q" "q \<in> pool_ptrs (backend_mgr w)" "nets (net_heap w) q = Some nq"
        "hevent nq = Some bq" "net_state nq = NET_ESTABLISHED" "backs_ok (app_state w)"
      using ready_turn [OF r] .
    have qp: "q \<noteq> p"
      using disjoint_pools [OF conn_readyD(1) [OF r] p q(2)] by simp
    let ?nq = "nq\<lparr>hevent := Some (bev_write (encode_frame (ss_ser cd (start_request (front_tuple n b s)))) bq),
                  last_active_timestamp := now_time w\<rparr>"
    let ?n = "n\<lparr>user_context := Some (s\<lparr>state := STATE_SYNACK\<rparr>)\<rparr>"
    have r1: "conn_ready cd (set_net q ?nq (turned w))"
      by (rule ready_set_back [OF ready_turned [OF r] _ _ same_net_write(2) [OF q(4)]])
        (use q in \<open>simp_all add: turned_def\<close>)
    have "conn_ready cd (set_net p ?n (set_net q ?nq (turned w)))"
      by (rule ready_set_front [where n = n, OF r1 _ _ _ up_front_ok(2) [OF up]])
        (use p n(1) u qp in \<open>simp_all add: turned_def\<close>)
    then show ?thesis
      using Drive_syning [OF up 3 q(6,1) qp q(3-5) ne(2)] by (auto simp: same_pools_def turned_def)
  qed
qed

lemma forward_up_ready:
  assumes r: "conn_ready cd w" and up: "up_front w p n b s" and cd: "codec_writes cd"
  shows "\<exists>w'. ForwardUpSideMessage cd sq d p w = Done (0, w') \<and> conn_ready cd w' \<and> same_pools w w'"
proof -
  obtain q nq bq where q: "turn w = Some q" "q \<in> pool_ptrs (backend_mgr w)" "nets (net_heap w) q = Some nq"
      "hevent nq = Some bq" "net_state nq = NET_ESTABLISHED" "backs_ok (app_state w)"
    using ready_turn [OF r] .
  let ?m = "ss_ser cd (ss_message sq SS_DATA (front_tuple n b s) (empty_ssbody\<lparr>ss_data := Some d\<rparr>))"
  let ?w = "set_net q (nq\<lparr>hevent := Some (bev_write (encode_frame ?m) bq), last_active_timestamp := now_time w\<rparr>) (turned w)"
  have "?m \<noteq> []"
    using cd by (simp add: codec_writes_def)
  then have "SendToBackEnd (Some q) (Some ?m) (turned w) = Done (0, ?w)"
    using SendToBackEnd_ok [of "turned w" q nq bq ?m] q up_frontD(7) [OF up] by simp
  then have "ForwardUpSideMessage cd sq d p w = Done (0, ?w)"
    using session_ids_up [OF up] next_backend_turn [OF q(6)] q(1) up_frontD [OF up]
    by (simp add: ForwardUpSideMessage_def SendDataToBackEnd_def get_session_def get_net_def)
  moreover have "conn_ready cd ?w"
    by (rule ready_set_back [OF ready_turned [OF r] _ _ same_net_write(2) [OF q(4)]])
      (use q in \<open>simp_all add: turned_def\<close>)
  moreover have "same_pools w ?w"
    by (simp add: same_pools_def turned_def)
  ultimately show ?thesis
    by blast
qed

lemma handshake_ready:
  assumes r: "conn_ready cd w" and p: "p \<in> pool_ptrs (frontend_mgr w)"
    and n: "nets (net_heap w) p = Some n" "user_context n = Some s"
    and st: "state s \<noteq> STATE_OK" and cd: "codec_writes cd"
  shows "\<exists>w'. drive_or_close cd p w (\<lambda>w2. bindE (get_session p w2) (\<lambda>s2.
           if state s2 = STATE_SYNING then drive_or_close cd p w2 (\<lambda>w3. Done (0, w3)) else Done (0, w2)))
       = Done (0, w') \<and> conn_ready cd w' \<and> same_pools w w'"
proof -
  obtain n2 s2 w2 where w2: "DriveStateMachine cd p w = Done (0, w2)" "conn_ready cd w2" "same_pools w w2"
      "nets (net_heap w2) p = Some n2" "user_context n2 = Some s2"
    using Drive_ready [OF assms] by blast
  have p2: "p \<in> pool_ptrs (frontend_mgr w2)"
    using w2(3) p by (simp add: same_pools_def)
  show ?thesis
  proof (cases "state s2 = STATE_SYNING")
    case False
    with w2 show ?thesis
      by (simp add: drive_or_close_def get_session_def get_net_def)
  next
    case True
    obtain w3 where "DriveStateMachine cd p w2 = Done (0, w3)" "conn_ready cd w3" "same_pools w2 w3"
      using Drive_ready [OF w2(2) p2 w2(4,5) _ cd] True by auto
    with w2 True show ?thesis
      using same_pools_trans by (auto simp: drive_or_close_def get_session_def get_net_def)
  qed
qed

lemma recv_front_ready:
  assumes r: "conn_ready cd w" and p: "p \<in> pool_ptrs (frontend_mgr w)" and cd: "codec_writes cd"
  shows "\<exists>ret w'. Connector_OnRecvFrontEnd cd p t v w = Done (ret, w') \<and> conn_ready cd w' \<and> same_pools w w'"
proof -
  have stub: "app_stub (app_state w)"
    using conn_readyD(2) [OF r] by (simp add: conn_inv_def)
  obtain n b0 where n: "nets (net_heap w) p = Some n" "hevent n = Some b0"
    using live_net [OF conn_readyD(1) [OF r] front_all [OF p]] .
  show ?thesis
  proof (cases "user_context n")
    case None
    with n stub r same_pools_refl show ?thesis
      by (simp add: Connector_OnRecvFrontEnd_def GetUserContext_def get_net_def)
  next
    case (Some s)
    obtain b where up: "up_front w p n b s"
      using ready_up_front [OF r p n(1) Some] .
    obtain ret s1 where check: "CheckUpSideMessage (cs_parse cd v) s = (ret, s1)"
      by (cases "CheckUpSideMessage (cs_parse cd v) s")
    show ?thesis
    proof (cases "ret = 0")
      case False
      with n stub r Some check same_pools_refl show ?thesis
        by (simp add: Connector_OnRecvFrontEnd_def GetUserContext_def get_net_def)
    next
      case True
      note check0 = check [unfolded True]
      let ?n1 = "n\<lparr>user_context := Some s1\<rparr>"
      let ?w1 = "set_net p ?n1 w"
      note up1 = up_front_check(2) [OF up check0]
      have r1: "conn_ready cd ?w1"
        by (rule ready_set_front [OF r p n(1) _ up_front_ok(2) [OF up]])
          (use up_frontD [OF up1] in \<open>simp_all add: same_net_def\<close>)
      have p1: "p \<in> pool_ptrs (frontend_mgr ?w1)" and n1: "nets (net_heap ?w1) p = Some ?n1" "user_context ?n1 = Some s1"
        using p by simp_all
      show ?thesis
      proof (cases "state s = STATE_OK")
        case False
        then have st1: "state s1 \<noteq> STATE_OK"
          using Check_state [OF check0] by simp
        from handshake_ready [OF r1 p1 n1 st1 cd] show ?thesis
          unfolding OnRecvFrontEnd_enter [OF up check0 False] by (auto simp: same_pools_def)
      next
        case ok: True
        then have ok1: "state s1 = STATE_OK"
          using Check_state [OF check0] by simp
        have enter: "Connector_OnRecvFrontEnd cd p t v w =
            (if cs_bodyid (cs_parse cd v) \<noteq> CS_DATA_TRANSPARENT then Done (-1, ?w1)
             else ForwardUpSideMessage cd (cs_sequence (cs_parse cd v)) (csmsg_data (cs_parse cd v)) p ?w1)"
          using n stub Some check0 ok1 up_front_check(1) [OF up check0]
          by (simp add: Connector_OnRecvFrontEnd_def GetUserContext_def get_net_def Let_def)
        obtain w' where "ForwardUpSideMessage cd (cs_sequence (cs_parse cd v)) (csmsg_data (cs_parse cd v)) p ?w1
            = Done (0, w')" "conn_ready cd w'" "same_pools ?w1 w'"
          using forward_up_ready [OF r1 up1 cd] by blast
        with enter r1 show ?thesis
          by (cases "cs_bodyid (cs_parse cd v) = CS_DATA_TRANSPARENT") (auto simp: same_pools_def)
      qed
    qed
  qed
qed

lemma destroy_front_ready:
  assumes r: "conn_ready cd w" and p: "p \<in> pool_ptrs (frontend_mgr w)"
  shows "\<exists>w'. DestroyFrontEnd (Some p) w = Done w' \<and> conn_ready cd w' \<and> backend_mgr w' = backend_mgr w"
proof -
  note ok = conn_readyD(1) [OF r]
  obtain q h m where rm: "RemoveHandler (Some p) (net_heap w) (frontend_mgr w) = Done (q, h, m)"
      "mgr_keeps (pool_ptrs (backend_mgr w)) (net_heap w) h m"
    using RemoveHandler_keeps [OF world_okD(1) [OF ok] p] by blast
  let ?w = "w\<lparr>net_heap := h, frontend_mgr := m\<rparr>"
  have und: "undisturbed True w ?w"
    using rm(1) remove_front_undisturbed by (auto simp: RemoveHandler_def bindE_eq_Done)
  have "conn_ready cd ?w"
    by (rule conn_readyI [OF world_ok_front [OF ok rm(2)]
          conn_inv_kept [OF conn_readyD(2) [OF r] undisturbed_weaken [OF und]]
          backs_up_kept [OF conn_readyD(3) [OF r] und]])
  with rm(1) show ?thesis
    by (simp add: DestroyFrontEnd_def)
qed

lemma async_ids_front:
  assumes "world_ok w"
  shows "\<exists>f. GetFrontEndByAsyncIds fd i w = Done f \<and> (\<forall>p. f = Some p \<longrightarrow> p \<in> pool_ptrs (frontend_mgr w))"
proof (cases "map_of (handler_pool (frontend_mgr w)) (sint fd)")
  case None
  then show ?thesis
    by (simp add: GetFrontEndByAsyncIds_def GetHandlerByAsyncIds_def)
next
  case (Some p)
  obtain n b where "nets (net_heap w) p = Some n" "hevent n = Some b"
    using live_net [OF assms front_all [OF map_of_in_ptrs [OF Some]]] .
  with Some map_of_in_ptrs [OF Some] show ?thesis
    by (simp add: GetFrontEndByAsyncIds_def GetHandlerByAsyncIds_def)
qed

lemma forward_down_ready:
  assumes r: "conn_ready cd w" and p: "p \<in> pool_ptrs (frontend_mgr w)"
    and n: "nets (net_heap w) p = Some n" "user_context n = Some s" and cd: "codec_writes cd"
  shows "\<exists>ret w'. ForwardDownSideMessage cd sq d p w = Done (ret, w') \<and> conn_ready cd w' \<and> same_pools w w'"
proof (cases "d = []")
  case True
  with r same_pools_refl show ?thesis
    by (simp add: ForwardDownSideMessage_def)
next
  case False
  obtain b where up: "up_front w p n b s"
    using ready_up_front [OF r p n] .
  note u = up_frontD [OF up]
  let ?m = "cs_ser cd (cs_message sq CS_DATA_TRANSPARENT (empty_csbody\<lparr>cs_data := Some d\<rparr>))"
  let ?w = "set_net p (n\<lparr>hevent := Some (bev_write (encode_frame ?m) b)\<rparr>) w"
  have "?m \<noteq> []"
    using cd by (simp add: codec_writes_def)
  then have "ForwardDownSideMessage cd sq d p w = Done (0, ?w)"
    using False u SendToFrontEnd_ok [OF u(1-3,7)]
    by (simp add: ForwardDownSideMessage_def get_session_def get_net_def)
  moreover have "conn_ready cd ?w"
    by (rule ready_set_front [OF r p n(1) same_net_write(1) [OF u(2)]]) (use u in \<open>simp add: front_ok_def\<close>)
  ultimately show ?thesis
    by simp
qed

lemma recv_back_ready:
  assumes r: "conn_ready cd w" and fin: "ss_bodyid (ss_parse cd v) \<noteq> SS_FIN" and cd: "codec_writes cd"
  shows "\<exists>ret w'. Connector_OnRecvBackEnd cd dbg q t v w = Done (ret, w') \<and> conn_ready cd w'
    \<and> backend_mgr w' = backend_mgr w"
proof -
  let ?m = "ss_parse cd v"
  let ?t = "ss_session ?m"
  have stub: "app_stub (app_state w)"
    using conn_readyD(2) [OF r] by (simp add: conn_inv_def)
  obtain f where f: "GetFrontEndByAsyncIds (ss_fd ?t) (ss_nid ?t) w = Done f"
      "\<forall>p. f = Some p \<longrightarrow> p \<in> pool_ptrs (frontend_mgr w)"
    using async_ids_front [OF conn_readyD(1) [OF r]] by blast
  show ?thesis
  proof (cases f)
    case None
    with f(1) stub r show ?thesis
      by (simp add: Connector_OnRecvBackEnd_def Let_def)
  next
    case (Some p)
    then have p: "p \<in> pool_ptrs (frontend_mgr w)"
      using f(2) by simp
    obtain n b where n: "nets (net_heap w) p = Some n" "hevent n = Some b"
      using live_net [OF conn_readyD(1) [OF r] front_all [OF p]] .
    show ?thesis
    proof (cases "user_context n")
      case None
      with f(1) Some n stub r show ?thesis
        by (simp add: Connector_OnRecvBackEnd_def Let_def GetUserContext_def get_net_def)
    next
      case ctx: (Some s)
      have call: "Connector_OnRecvBackEnd cd dbg q t v w =
          (if ss_bodyid ?m \<noteq> SS_DATA then
             (if ss_bodyid ?m \<noteq> SS_FIN \<and> state s = STATE_OK then Done (0, w)
              else drive_or_close cd p w (\<lambda>w1.
                     bindE (set_session p (\<lambda>s. s\<lparr>sid := ss_sid ?t\<rparr>) w1) (\<lambda>w2. Done (0, w2))))
           else if \<not> dbg \<and> (state s \<noteq> STATE_OK \<or> sid s \<noteq> ss_sid ?t) then
             bindE (DestroyFrontEnd (Some p) w) (\<lambda>w1. Done (-1, w1))
           else ForwardDownSideMessage cd (ss_sequence ?m) (ssmsg_data ?m) p w)"
        using f(1) Some n ctx stub
        by (simp add: Connector_OnRecvBackEnd_def Let_def GetUserContext_def get_net_def)
      show ?thesis
      proof (cases "ss_bodyid ?m = SS_DATA")
        case True
        obtain ret w1 where "ForwardDownSideMessage cd (ss_sequence ?m) (ssmsg_data ?m) p w = Done (ret, w1)"
            "conn_ready cd w1" "backend_mgr w1 = backend_mgr w"
          using forward_down_ready [OF r p n(1) ctx cd] by (fastforce simp: same_pools_def)
        with True call destroy_front_ready [OF r p] show ?thesis
          by auto
      next
        case ctl: False
        show ?thesis
        proof (cases "state s = STATE_OK")
          case True
          with call ctl fin r show ?thesis
            by simp
        next
          case False
          obtain n1 s1 w1 where w1: "DriveStateMachine cd p w = Done (0, w1)" "conn_ready cd w1" "same_pools w w1"
              "nets (net_heap w1) p = Some n1" "user_context n1 = Some s1"
            using Drive_ready [OF r p n(1) ctx False cd] by blast
          have p1: "p \<in> pool_ptrs (frontend_mgr w1)"
            using w1(3) p by (simp add: same_pools_def)
          obtain b1 where up1: "up_front w1 p n1 b1 s1"
            using ready_up_front [OF w1(2) p1 w1(4,5)] .
          let ?n2 = "n1\<lparr>user_context := Some (s1\<lparr>sid := ss_sid ?t\<rparr>)\<rparr>"
          have "conn_ready cd (set_net p ?n2 w1)"
            by (rule ready_set_front [OF w1(2) p1 w1(4) _ up_front_ok(2) [OF up1]])
              (use up_frontD [OF up1] in simp_all)
          with call ctl fin False w1 show ?thesis
            by (simp add: drive_or_close_def set_session_def get_net_def same_pools_def)
        qed
      qed
    qed
  qed
qed

lemma close_sound:
  assumes s: "sound conn_inv w" and p: "p \<in> pool_ptrs (frontend_mgr w)"
  shows "\<exists>r w'. Connector_OnFrontEndClose cd p t w = Done (r, w') \<and> sound conn_inv w'"
proof -
  have ok: "world_ok w" and inv: "conn_inv w"
    using s by (simp_all add: sound_def)
  obtain n b where n: "nets (net_heap w) p = Some n" "hevent n = Some b"
    using live_net [OF ok front_all [OF p]] .
  have fok: "front_ok p n"
    using inv p n(1) by (simp add: conn_inv_def)
  show ?thesis
  proof (cases "user_context n")
    case None
    with inv n s show ?thesis
      by (simp add: Connector_OnFrontEndClose_def GetUserContext_def get_net_def conn_inv_def)
  next
    case (Some c)
    let ?w = "set_net p (n\<lparr>user_context := Some (Session_CleanUp c)\<rparr>) w"
    have "Connector_OnFrontEndClose cd p t w = Done (0, ?w)"
      using inv n Some
      by (simp add: Connector_OnFrontEndClose_def GetUserContext_def get_net_def conn_inv_def
          StopBackEndSession_def set_session_def)
    moreover have "world_ok ?w"
      by (rule world_ok_set_net [OF ok n(1)]) simp
    moreover have "conn_inv ?w"
      using inv fok Some by (simp add: conn_inv_def front_ok_def Session_CleanUp_def)
    ultimately show ?thesis
      by (simp add: sound_def)
  qed
qed

lemma connect_sound:
  assumes inv: "conn_inv w" and ok: "world_ok w1" and new: "new_front p (Some zero_session) w w1"
  shows "\<exists>r w2. Connector_OnFrontEndConnect p t w1 = Done (r, w2) \<and> sound conn_inv w2"
proof -
  have p: "p \<in> pool_ptrs (frontend_mgr w1)" and stub: "app_stub (app_state w1)"
    using inv new by (simp_all add: new_front_def conn_inv_def)
  obtain n b where n: "nets (net_heap w1) p = Some n" "hevent n = Some b"
    using live_net [OF ok front_all [OF p]] .
  have sn: "net_state n = NET_ESTABLISHED" "user_context n = Some zero_session"
    using new n(1) by (simp_all add: new_front_def seen_def)
  let ?s = "ConnectorSession_new\<lparr>net_stub := Some p, frame_stub := True, state := STATE_INIT\<rparr>"
  let ?w = "set_net p (n\<lparr>user_context := Some ?s\<rparr>) w1"
  have "Connector_OnFrontEndConnect p t w1 = Done (0, ?w)"
    using stub n sn by (simp add: Connector_OnFrontEndConnect_def get_net_def Session_Init_def)
  moreover have "world_ok ?w"
    by (rule world_ok_set_net [OF ok n(1)]) simp
  moreover have "conn_inv ?w"
  proof -
    have "front_ok q n'" if q: "q \<in> pool_ptrs (frontend_mgr w1)" "nets (net_heap ?w) q = Some n'" for q n'
      using new_front_others [OF inv new _ q(1)] q sn by (cases "q = p") (auto simp: front_ok_def)
    with inv new show ?thesis
      by (auto simp: conn_inv_def new_front_def simp del: nets_set_net)
  qed
  ultimately show ?thesis
    by (simp add: sound_def)
qed

section \<open>The start\<close>

text \<open>A connector that has made some of its backends.\<close>

definition starting :: "cworld \<Rightarrow> bool" where
  "starting w =
     (app_stub (app_state w) \<and> length (backends (app_state w)) = 32 \<and> backend_used (app_state w) \<le> 32
      \<and> backend_pos (app_state w) = 0 \<and> write_rc (env w) = [] \<and> pool_ptrs (frontend_mgr w) = {} \<and> fds_fresh w
      \<and> (\<forall>i < backend_used (app_state w).
           \<exists>q \<in> pool_ptrs (backend_mgr w). backends (app_state w) ! i = Some q))"

text \<open>A connector that has not begun.\<close>

definition not_started :: "cworld \<Rightarrow> bool" where
  "not_started w =
     (backends (app_state w) = replicate 32 None \<and> backend_used (app_state w) = 0 \<and> backend_pos (app_state w) = 0
      \<and> write_rc (env w) = [] \<and> handler_pool (frontend_mgr w) = [] \<and> fds_fresh w)"

lemma CreateBackEnd_starting:
  assumes "world_ok w" and "starting w" and "GetBackEndContextSize app = 0"
  shows "\<exists>net w1. CreateBackEnd app (Some u) t w = Done (net, w1) \<and> world_ok w1 \<and> app_state w1 = app_state w
    \<and> (\<forall>q. net = Some q \<longrightarrow> starting w1 \<and> q \<in> pool_ptrs (backend_mgr w1))"
proof -
  have "fds_fresh w"
    using assms(2) by (simp add: starting_def)
  from CreateBackEnd_new [OF assms(1) this assms(3), of u t] assms(2) show ?thesis
    by (auto simp: starting_def)
qed

lemma AddBackEnd_starting:
  assumes "starting w" and "q \<in> pool_ptrs (backend_mgr w)"
  shows "starting (w\<lparr>app_state := AddBackEnd q (app_state w)\<rparr>) \<and> 0 < backend_used (AddBackEnd q (app_state w))"
  using assms by (auto simp: starting_def AddBackEnd_def fds_fresh_def connect_fds_def
      nth_list_update less_Suc_eq)

lemma create_backends_starting:
  "world_ok w \<Longrightarrow> starting w \<Longrightarrow> GetBackEndContextSize app = 0 \<Longrightarrow>
   \<exists>r w'. create_backends app us w = Done (r, w') \<and> world_ok w'
     \<and> (r = 0 \<longrightarrow> starting w' \<and> (us \<noteq> [] \<or> 0 < backend_used (app_state w) \<longrightarrow> 0 < backend_used (app_state w')))"
proof (induction us arbitrary: w)
  case (Cons u us)
  obtain net w1 where c: "CreateBackEnd app (Some u) 0 w = Done (net, w1)" "world_ok w1"
      "\<And>q. net = Some q \<Longrightarrow> starting w1 \<and> q \<in> pool_ptrs (backend_mgr w1)"
    using CreateBackEnd_starting [OF Cons.prems] by blast
  show ?case
  proof (cases net)
    case None
    with c show ?thesis
      by simp
  next
    case (Some q)
    with Cons.IH [of "w1\<lparr>app_state := AddBackEnd q (app_state w1)\<rparr>"] AddBackEnd_starting [of w1 q] c Cons.prems(3)
    show ?thesis
      by auto
  qed
qed simp

lemma started_conn_inv: "starting w \<Longrightarrow> 0 < backend_used (app_state w) \<Longrightarrow> conn_inv w"
  by (auto simp: starting_def conn_inv_def backs_ok_def)

lemma OnInit_sound:
  assumes "world_ok w" and "not_started w" and "GetBackEndContextSize app = 0"
  shows "\<exists>r w'. Connector_OnInit app w = Done (r, w') \<and> world_ok w' \<and> (r = 0 \<longrightarrow> conn_inv w')"
proof -
  let ?w = "w\<lparr>app_state := (app_state w)\<lparr>app_stub := True\<rparr>\<rparr>"
  have "world_ok ?w" "starting ?w"
    using assms(1,2) by (simp_all add: not_started_def starting_def fds_fresh_def connect_fds_def pool_ptrs_def)
  note made = create_backends_starting [OF this assms(3)]
  show ?thesis
  proof (cases "config_backends (app_state w)")
    case None
    with \<open>world_ok ?w\<close> show ?thesis
      by (simp add: Connector_OnInit_def)
  next
    case (Some us)
    show ?thesis
    proof (cases "us = []")
      case True
      with Some \<open>world_ok ?w\<close> show ?thesis
        by (simp add: Connector_OnInit_def)
    next
      case False
      with Some made [of us] started_conn_inv show ?thesis
        by (auto simp: Connector_OnInit_def)
    qed
  qed
qed

section \<open>The contract\<close>

lemma connector_guarded:
  assumes "codec_writes cd"
  shows "guarded_app (connector_limits cd) conn_inv not_started (connector_app cd dbg) no_rpc"
proof unfold_locales
  fix w w1 :: cworld and p t
  assume "conn_inv w" "world_ok w1"
    and new: "new_front p (if 0 < GetFrontEndContextSize (connector_app cd dbg)
        then Some (zero_context (connector_app cd dbg)) else None) w w1"
  moreover have "new_front p (Some zero_session) w w1"
    using new by (simp add: connector_app_def connector_base_def)
  ultimately show "\<exists>r w2. OnFrontEndConnect (connector_app cd dbg) p t w1 = Done (r, w2) \<and> sound conn_inv w2"
    using connect_sound by (simp add: connector_app_def connector_base_def)
next
  fix w :: cworld
  assume "world_ok w" "not_started w"
  then show "\<exists>r w'. OnInit (connector_app cd dbg) w = Done (r, w') \<and> world_ok w' \<and> (r = 0 \<longrightarrow> conn_inv w')"
    using OnInit_sound [of w "connector_base cd dbg"] by (simp add: connector_app_def connector_base_def)
next
  fix w :: cworld and p t v
  assume "conn_ready cd w" "p \<in> pool_ptrs (frontend_mgr w)"
  then show "\<exists>r w'. OnRecvFrontEnd (connector_app cd dbg) p t v w = Done (r, w') \<and> conn_ready cd w'
      \<and> p \<in> pool_ptrs (frontend_mgr w')"
    using recv_front_ready [of cd w p t v] assms by (auto simp: connector_app_def connector_base_def same_pools_def)
next
  fix w :: cworld and p t v
  assume "conn_ready cd w" "p \<in> pool_ptrs (backend_mgr w)" "from_back (connector_limits cd) v"
  then show "\<exists>r w'. OnRecvBackEnd (connector_app cd dbg) p t v w = Done (r, w') \<and> conn_ready cd w'
      \<and> p \<in> pool_ptrs (backend_mgr w')"
    using recv_back_ready [of cd w v dbg p t] assms
    by (auto simp: connector_app_def connector_base_def connector_limits_def)
next
  fix w :: cworld and p t
  assume "sound conn_inv w" "p \<in> pool_ptrs (frontend_mgr w)"
  then show "\<exists>r w'. OnFrontEndClose (connector_app cd dbg) p t w = Done (r, w') \<and> sound conn_inv w'"
    using close_sound by (simp add: connector_app_def connector_base_def)
next
  fix w w' :: cworld
  assume "able (connector_limits cd) w" "undisturbed True w w'"
  then show "able (connector_limits cd) w'"
    using backs_up_kept by (simp add: connector_limits_def)
next
  fix w w' :: cworld
  assume "conn_inv w" "undisturbed False w w'"
  then show "conn_inv w'"
    by (rule conn_inv_kept)
next
  fix w w1 :: cworld and p
  assume "conn_inv w" "new_front p None w w1"
  then show "conn_inv w1"
    by (rule conn_inv_joined)
qed (simp_all add: connector_app_def connector_base_def no_rpc_def sound_def)

interpretation sample: guarded_app "connector_limits sample_codec" conn_inv not_started
    "connector_app sample_codec dbg" no_rpc
  by (rule connector_guarded) (simp add: codec_writes_def sample_codec_def)


definition idle_connector :: connector where
  "idle_connector = \<lparr>backend_pos = 0, backend_used = 0, backends = replicate 32 None, app_stub = False,
                     config_backends = Some [''tcp://10.0.0.1:80'']\<rparr>"

definition conn_start :: cworld where
  "conn_start = (sample_world [] None idle_connector)\<lparr>net_heap := heap0,
     frontend_mgr := \<lparr>handler_pool = [], recv_size = 64, it_cursor = None\<rparr>,
     env := sample_answers\<lparr>connect_rc := [Some (0, 9)]\<rparr>\<rparr>"

lemma sample_uri: "fst (tcpsocket_str2sockin sample_os (Some ''tcp://10.0.0.1:80'') (Some s)) = 0"
proof -
  have "tcpsocket_is_number ''10.0.0.1''"
    by (simp add: tcpsocket_is_number_def strspn_def)
  then have "resolve_host sample_os ''10.0.0.1'' = Some 0x0A000001"
    by (simp add: resolve_host_def sample_os_def)
  from str2inet_endpoint [of "''10.0.0.1''", OF _ _ this, of "''80''"] show ?thesis
    by (simp add: tcpsocket_str2sockin_def uri_addr_def)
qed

definition conn_back :: "NetState \<Rightarrow> session easy_net" where
  "conn_back st = (EasyNet_new 1)\<lparr>hevent := Some \<lparr>bev_fd = 9, bev_in = [], bev_out = []\<rparr>,
     net_state := st, uri := ''tcp://10.0.0.1:80'', last_active_timestamp := 100\<rparr>"

definition conn_started :: "NetState \<Rightarrow> cworld" where
  "conn_started st = conn_start\<lparr>net_heap := \<lparr>nets = [1 \<mapsto> conn_back st], next_net = 2, nid_seed = 2\<rparr>,
     backend_mgr := \<lparr>handler_pool = [(9, 1)], recv_size = 64, it_cursor = None\<rparr>,
     app_state := idle_connector\<lparr>app_stub := True, backends := Some 1 # replicate 31 None, backend_used := 1\<rparr>,
     env := sample_answers\<rparr>"

lemmas start_simps = conn_start_def conn_started_def conn_back_def idle_connector_def sample_world_def
  sample_answers_def EasyNet_new_def get_net_def

lemma no_backends: "replicate 32 None = None # replicate 31 None"
  by (simp add: eval_nat_numeral)

lemma conn_start_init:
  "Connector_OnInit (connector_base sample_codec dbg) conn_start = Done (0, conn_started NET_CONNECTING_st)"
  using sample_uri
  by (simp add: start_simps no_backends Connector_OnInit_def heap0_def CreateBackEnd_def draw_connect_def draw_pos_def
      AddHandlerByUri_def alloc_net_def EasyNet_Connect_def AddHandlerToMap_def pool_insert_def connector_base_def
      modify_net_def set_net_def AddBackEnd_def)

lemma conn_started_up:
  "on_event 1 app rpc delim (EvBackSocket 1 {BEV_EVENT_CONNECTED}) ((conn_started st)\<lparr>running := True\<rparr>)
     = Some (Done (False, conn_started NET_ESTABLISHED))"
  by (simp add: on_event_def OnBackEndSocketEvent_def ChangeNetStateByEvent_def no_break_def update_net_def start_simps
      GetHandlerByEvent_def)

lemma conn_accept:
  "\<exists>w'. on_event 1 (connector_app sample_codec dbg) rpc delim (EvAccept 5 ''10.0.0.2'') (conn_started NET_ESTABLISHED)
     = Some (Done (False, w')) \<and> 2 \<in> pool_ptrs (frontend_mgr w') \<and> backs_up w'"
  by (simp add: on_event_def fw_OnFrontEndConnect_def draw_alloc_def draw_pos_def AddHandlerBySocket_def alloc_net_def
      EasyNet_Init_def AddHandlerToMap_def pool_insert_def connector_app_def connector_base_def no_break_def
      CreateUserContext_def Connector_OnFrontEndConnect_def Session_Init_def modify_net_def set_net_def pool_ptrs_def
      backs_up_def start_simps)

lemma conn_start_ok: "world_ok conn_start" "not_started conn_start" "codec_writes sample_codec"
  by (simp_all add: world_ok_def mgr_inv_def heap_ok_def pool_ok_def pool_ptrs_def heap0_def TimerMgr_new_def
      not_started_def fds_fresh_def connect_fds_def List.map_filter_simps codec_writes_def sample_codec_def start_simps)


end
