(* ===== verification/PbWire.thy ===== *)
theory PbWire
  imports Prelude
begin

unbundle bit_operations_syntax

text \<open>
  The part of protobuf that is compiled into the client library from headers below
  \<open>sdk/google/protobuf/\<close>: the inline functions of \<open>io/coded_stream.h\<close>,
  \<open>wire_format_lite.h\<close> and \<open>wire_format_lite_inl.h\<close> that the generated code of
  \<open>client.proto\<close> calls. What the headers only declare is a parameter (\<open>pb_lib\<close>), with the
  documented wire format as its laws (locale \<open>wire_lib\<close>). Writing gives the bytes appended at
  \<open>target\<close>. An input stream is over one flat array, as \<open>ParseFromArray\<close> makes it.
\<close>

section \<open>The library\<close>

datatype WireType =
    WIRETYPE_VARINT | WIRETYPE_FIXED64 | WIRETYPE_LENGTH_DELIMITED | WIRETYPE_START_GROUP
  | WIRETYPE_END_GROUP | WIRETYPE_FIXED32

datatype UnknownField =
    TYPE_VARINT int "64 word"
  | TYPE_FIXED32 int "32 word"
  | TYPE_FIXED64 int "64 word"
  | TYPE_LENGTH_DELIMITED int "byte list"
  | TYPE_GROUP int "UnknownField list"

text \<open>
  The functions behind the declarations: \<open>WriteVarint32FallbackToArray\<close>,
  \<open>WriteVarint64ToArray\<close>, \<open>VarintSize32Fallback\<close>, \<open>VarintSize64\<close>,
  \<open>ReadVarint32Fallback\<close>, \<open>ReadVarint64Fallback\<close> (a value and the bytes after it, or
  failure), \<open>ReadString\<close> and \<open>ReadBytes\<close> (success, the string left, the bytes after it),
  \<open>SkipField\<close> (the unknown field and the bytes after it), the two functions that write and
  measure unknown fields, and the default recursion limit.
\<close>

record pb_lib =
  write_varint32_slow :: "32 word \<Rightarrow> byte list"
  write_varint64 :: "64 word \<Rightarrow> byte list"
  size_varint32_slow :: "32 word \<Rightarrow> int"
  size_varint64 :: "64 word \<Rightarrow> int"
  read_varint32_slow :: "byte list \<Rightarrow> (32 word \<times> byte list) option"
  read_varint64_slow :: "byte list \<Rightarrow> (64 word \<times> byte list) option"
  read_string :: "byte list \<Rightarrow> bool \<times> byte list \<times> byte list"
  skip_field :: "32 word \<Rightarrow> byte list \<Rightarrow> (UnknownField \<times> byte list) option"
  write_unknown :: "UnknownField list \<Rightarrow> byte list"
  size_unknown :: "UnknownField list \<Rightarrow> int"
  default_recursion_limit :: int

section \<open>Writing\<close>

definition WriteVarint32ToArray :: "pb_lib \<Rightarrow> 32 word \<Rightarrow> byte list" where
  "WriteVarint32ToArray L v = (if v < 0x80 then [ucast v] else write_varint32_slow L v)"

definition WriteVarint32SignExtendedToArray :: "pb_lib \<Rightarrow> 32 word \<Rightarrow> byte list" where
  "WriteVarint32SignExtendedToArray L v =
     (if v <s 0 then write_varint64 L (scast v) else WriteVarint32ToArray L v)"

definition CodedOutputStream_WriteTagToArray :: "pb_lib \<Rightarrow> 32 word \<Rightarrow> byte list" where
  "CodedOutputStream_WriteTagToArray L v =
     (if v < 2 ^ 7 then [ucast v]
      else if v < 2 ^ 14 then [ucast (v OR 0x80), ucast (drop_bit 7 v)]
      else write_varint32_slow L v)"

definition wire_type_code :: "WireType \<Rightarrow> 32 word" where
  "wire_type_code t =
     (case t of WIRETYPE_VARINT \<Rightarrow> 0 | WIRETYPE_FIXED64 \<Rightarrow> 1 | WIRETYPE_LENGTH_DELIMITED \<Rightarrow> 2
      | WIRETYPE_START_GROUP \<Rightarrow> 3 | WIRETYPE_END_GROUP \<Rightarrow> 4 | WIRETYPE_FIXED32 \<Rightarrow> 5)"

definition MakeTag :: "32 word \<Rightarrow> WireType \<Rightarrow> 32 word" where
  "MakeTag field_number type = push_bit 3 field_number OR wire_type_code type"

definition GetTagWireType :: "32 word \<Rightarrow> 32 word" where
  "GetTagWireType tag = tag AND (2 ^ 3 - 1)"

definition GetTagFieldNumber :: "32 word \<Rightarrow> 32 word" where
  "GetTagFieldNumber tag = drop_bit 3 tag"

definition WriteTagToArray :: "pb_lib \<Rightarrow> 32 word \<Rightarrow> WireType \<Rightarrow> byte list" where
  "WriteTagToArray L n t = CodedOutputStream_WriteTagToArray L (MakeTag n t)"

definition WriteInt32NoTagToArray :: "pb_lib \<Rightarrow> 32 word \<Rightarrow> byte list" where
  "WriteInt32NoTagToArray L v = WriteVarint32SignExtendedToArray L v"

definition WriteInt64NoTagToArray :: "pb_lib \<Rightarrow> 64 word \<Rightarrow> byte list" where
  "WriteInt64NoTagToArray L v = write_varint64 L v"

definition WriteInt32ToArray :: "pb_lib \<Rightarrow> 32 word \<Rightarrow> 32 word \<Rightarrow> byte list" where
  "WriteInt32ToArray L n v = WriteTagToArray L n WIRETYPE_VARINT @ WriteInt32NoTagToArray L v"

definition WriteInt64ToArray :: "pb_lib \<Rightarrow> 32 word \<Rightarrow> 64 word \<Rightarrow> byte list" where
  "WriteInt64ToArray L n v = WriteTagToArray L n WIRETYPE_VARINT @ WriteInt64NoTagToArray L v"

definition WriteStringToArray :: "pb_lib \<Rightarrow> 32 word \<Rightarrow> byte list \<Rightarrow> byte list" where
  "WriteStringToArray L n s =
     WriteTagToArray L n WIRETYPE_LENGTH_DELIMITED @ WriteVarint32ToArray L (of_nat (length s)) @ s"

definition WriteBytesToArray :: "pb_lib \<Rightarrow> 32 word \<Rightarrow> byte list \<Rightarrow> byte list" where
  "WriteBytesToArray L n s =
     WriteTagToArray L n WIRETYPE_LENGTH_DELIMITED @ WriteVarint32ToArray L (of_nat (length s)) @ s"

text \<open>\<open>cached\<close> is the cached size of the message, which a call of \<open>ByteSize\<close> has left.\<close>

definition WriteMessageNoVirtualToArray :: "pb_lib \<Rightarrow> 32 word \<Rightarrow> int \<Rightarrow> byte list \<Rightarrow> byte list" where
  "WriteMessageNoVirtualToArray L n cached body =
     WriteTagToArray L n WIRETYPE_LENGTH_DELIMITED @ WriteVarint32ToArray L (word_of_int cached) @ body"

section \<open>Sizes\<close>

definition VarintSize32 :: "pb_lib \<Rightarrow> 32 word \<Rightarrow> int" where
  "VarintSize32 L v = (if v < 2 ^ 7 then 1 else size_varint32_slow L v)"

definition VarintSize32SignExtended :: "pb_lib \<Rightarrow> 32 word \<Rightarrow> int" where
  "VarintSize32SignExtended L v = (if v <s 0 then 10 else VarintSize32 L v)"

definition Int32Size :: "pb_lib \<Rightarrow> 32 word \<Rightarrow> int" where
  "Int32Size L v = VarintSize32SignExtended L v"

definition Int64Size :: "pb_lib \<Rightarrow> 64 word \<Rightarrow> int" where
  "Int64Size L v = size_varint64 L v"

definition StringSize :: "pb_lib \<Rightarrow> byte list \<Rightarrow> int" where
  "StringSize L s = VarintSize32 L (of_nat (length s)) + int (length s)"

definition BytesSize :: "pb_lib \<Rightarrow> byte list \<Rightarrow> int" where
  "BytesSize L s = VarintSize32 L (of_nat (length s)) + int (length s)"

definition LengthDelimitedSize :: "pb_lib \<Rightarrow> int \<Rightarrow> int" where
  "LengthDelimitedSize L len = VarintSize32 L (word_of_int len) + len"

definition MessageSizeNoVirtual :: "pb_lib \<Rightarrow> int \<Rightarrow> int" where
  "MessageSizeNoVirtual L byte_size = LengthDelimitedSize L byte_size"

section \<open>Reading\<close>

text \<open>
  \<open>CodedInputStream\<close>: the bytes up to the nearest limit, \<open>legitimate_message_end_\<close> and the
  recursion depth. The last tag is left out: only groups look at it.
\<close>

record cis =
  buffer :: "byte list"
  legitimate_end :: bool
  recursion_depth :: int
  recursion_limit :: int

definition cis_of_array :: "pb_lib \<Rightarrow> byte list \<Rightarrow> cis" where
  "cis_of_array L bs =
     \<lparr>buffer = bs, legitimate_end = False, recursion_depth = 0, recursion_limit = default_recursion_limit L\<rparr>"

definition read_varint32 :: "pb_lib \<Rightarrow> byte list \<Rightarrow> (32 word \<times> byte list) option" where
  "read_varint32 L bs =
     (case bs of b # r \<Rightarrow> if b < 0x80 then Some (ucast b, r) else read_varint32_slow L bs
      | [] \<Rightarrow> read_varint32_slow L bs)"

definition read_varint64 :: "pb_lib \<Rightarrow> byte list \<Rightarrow> (64 word \<times> byte list) option" where
  "read_varint64 L bs =
     (case bs of b # r \<Rightarrow> if b < 0x80 then Some (ucast b, r) else read_varint64_slow L bs
      | [] \<Rightarrow> read_varint64_slow L bs)"

text \<open>\<open>ReadTagFallback\<close>, as documented: at the end the tag is 0 and the end is marked; elsewhere
  it calls \<open>ReadVarint32\<close>, and a failure gives 0.\<close>

definition ReadTag :: "pb_lib \<Rightarrow> cis \<Rightarrow> 32 word \<times> cis" where
  "ReadTag L s =
     (case buffer s of
        [] \<Rightarrow> (0, s\<lparr>legitimate_end := True\<rparr>)
      | b # r \<Rightarrow>
          if b < 0x80 then (ucast b, s\<lparr>buffer := r\<rparr>)
          else (case read_varint32_slow L (buffer s) of
                  None \<Rightarrow> (0, s)
                | Some (t, r) \<Rightarrow> (t, s\<lparr>buffer := r\<rparr>)))"

definition ExpectTag :: "32 word \<Rightarrow> cis \<Rightarrow> cis option" where
  "ExpectTag expected s =
     (if expected < 2 ^ 7 then
        (case buffer s of
           b # r \<Rightarrow> if ucast b = expected then Some (s\<lparr>buffer := r\<rparr>) else None
         | [] \<Rightarrow> None)
      else if expected < 2 ^ 14 then
        (case buffer s of
           b # c # r \<Rightarrow>
             if b = ucast (expected OR 0x80) \<and> c = ucast (drop_bit 7 expected)
             then Some (s\<lparr>buffer := r\<rparr>) else None
         | _ \<Rightarrow> None)
      else None)"

text \<open>In a flat array the second condition of \<open>ExpectAtEnd\<close> holds whenever the first does: the
  shortest limit is always in force, and the array's size is the outermost.\<close>

definition ExpectAtEnd :: "cis \<Rightarrow> cis option" where
  "ExpectAtEnd s = (if buffer s = [] then Some (s\<lparr>legitimate_end := True\<rparr>) else None)"

text \<open>The parser of one field: whether it succeeded, the message and the stream it leaves;
  \<open>None\<close> when it does not return.\<close>

type_synonym 'm field_parser = "cis \<Rightarrow> 'm \<Rightarrow> (bool \<times> 'm \<times> cis) option"

definition ReadPrimitive_INT32 :: "pb_lib \<Rightarrow> (32 word \<Rightarrow> 'm \<Rightarrow> 'm) \<Rightarrow> 'm field_parser" where
  "ReadPrimitive_INT32 L upd s m =
     (case read_varint32 L (buffer s) of
        None \<Rightarrow> Some (False, m, s)
      | Some (v, r) \<Rightarrow> Some (True, upd v m, s\<lparr>buffer := r\<rparr>))"

definition ReadPrimitive_INT64 :: "pb_lib \<Rightarrow> (64 word \<Rightarrow> 'm \<Rightarrow> 'm) \<Rightarrow> 'm field_parser" where
  "ReadPrimitive_INT64 L upd s m =
     (case read_varint64 L (buffer s) of
        None \<Rightarrow> Some (False, m, s)
      | Some (v, r) \<Rightarrow> Some (True, upd v m, s\<lparr>buffer := r\<rparr>))"

text \<open>\<open>ReadString\<close> and \<open>ReadBytes\<close> into \<open>mutable_x()\<close>, which has set the has-bit before
  the call.\<close>

definition read_string_into :: "pb_lib \<Rightarrow> (byte list \<Rightarrow> 'm \<Rightarrow> 'm) \<Rightarrow> 'm field_parser" where
  "read_string_into L upd s m =
     (case read_string L (buffer s) of (ok, v, r) \<Rightarrow> Some (ok, upd v m, s\<lparr>buffer := r\<rparr>))"

text \<open>
  \<open>ReadMessageNoVirtual\<close>: \<open>merge\<close> is \<open>MergePartialFromCodedStream\<close> of the nested
  message, \<open>get\<close> and \<open>put\<close> the accessor \<open>mutable_x()\<close>. \<open>PushLimit\<close> leaves the next
  \<open>length\<close> bytes, or the bytes up to the enclosing limit when these are fewer;
  \<open>PopLimit\<close> gives back what follows.
\<close>

definition ReadMessageNoVirtual ::
    "pb_lib \<Rightarrow> 'n field_parser \<Rightarrow> ('m \<Rightarrow> 'n) \<Rightarrow> ('n \<Rightarrow> 'm \<Rightarrow> 'm) \<Rightarrow> 'm field_parser" where
  "ReadMessageNoVirtual L merge get put s m =
     (let m0 = put (get m) m in
      case read_varint32 L (buffer s) of
        None \<Rightarrow> Some (False, m0, s)
      | Some (len, r) \<Rightarrow>
          (let depth = recursion_depth s + 1;
               s1 = s\<lparr>buffer := take (unat len) r, recursion_depth := depth\<rparr>
           in if \<not> depth \<le> recursion_limit s then Some (False, m0, s1)
              else
                Option.bind (merge s1 (get m)) (\<lambda>(ok, n, s2).
                  if \<not> ok \<or> \<not> legitimate_end s2 then Some (False, put n m, s2)
                  else Some (True, put n m,
                         s2\<lparr>buffer := buffer s2 @ drop (unat len) r, legitimate_end := False,
                            recursion_depth := (if recursion_depth s2 > 0 then recursion_depth s2 - 1
                                                else recursion_depth s2)\<rparr>))))"

section \<open>The loop of the generated parsers\<close>

text \<open>
  All \<open>MergePartialFromCodedStream\<close> have one shape: read a tag, choose the case of its field
  number, check the wire type and parse the field; then expect the tag of the next field and go on
  with that field's case, or after the last field expect the end; else read the next tag. A
  message is described by its cases in order; \<open>follow\<close> is the constant that \<open>ExpectTag\<close>
  is called with at the end of the case, \<open>None\<close> stands for \<open>ExpectAtEnd\<close>.
\<close>

record 'm pb_field =
  number :: "32 word"
  wire :: WireType
  parser :: "'m field_parser"
  follow :: "32 word option"

text \<open>One case after the other: \<open>Inl\<close> is a \<open>return\<close>, \<open>Inr\<close> a \<open>break\<close>.\<close>

fun run_fields :: "'m pb_field list \<Rightarrow> cis \<Rightarrow> 'm \<Rightarrow> ((bool \<times> 'm \<times> cis) + ('m \<times> cis)) option" where
  "run_fields [] s m = Some (Inr (m, s))"
| "run_fields (f # fs) s m =
     Option.bind (parser f s m) (\<lambda>(ok, m1, s1).
       if \<not> ok then Some (Inl (False, m1, s1))
       else
         case follow f of
           Some t \<Rightarrow>
             (case ExpectTag t s1 of
                Some s2 \<Rightarrow> run_fields fs s2 m1
              | None \<Rightarrow> Some (Inr (m1, s1)))
         | None \<Rightarrow>
             (case ExpectAtEnd s1 of
                Some s2 \<Rightarrow> Some (Inl (True, m1, s2))
              | None \<Rightarrow> Some (Inr (m1, s1))))"

text \<open>One round of the loop, after the tag; the uninterpreted fields are kept by
  \<open>add_unknown\<close>.\<close>

definition handle_tag ::
    "pb_lib \<Rightarrow> (UnknownField \<Rightarrow> 'm \<Rightarrow> 'm) \<Rightarrow> ('m pb_field list \<Rightarrow> cis \<Rightarrow> 'm \<Rightarrow> ((bool \<times> 'm \<times> cis) + ('m \<times> cis)) option)
     \<Rightarrow> 'm pb_field list \<Rightarrow> 32 word \<Rightarrow> cis \<Rightarrow> 'm \<Rightarrow> ((bool \<times> 'm \<times> cis) + ('m \<times> cis)) option" where
  "handle_tag L add_unknown run fs tag s m =
     (let cases = dropWhile (\<lambda>f. number f \<noteq> GetTagFieldNumber tag) fs in
      if cases \<noteq> [] \<and> GetTagWireType tag = wire_type_code (wire (hd cases)) then run cases s m
      else if GetTagWireType tag = wire_type_code WIRETYPE_END_GROUP then Some (Inl (True, m, s))
      else
        (case skip_field L tag (buffer s) of
           None \<Rightarrow> Some (Inl (False, m, s))
         | Some (u, r) \<Rightarrow> Some (Inr (add_unknown u m, s\<lparr>buffer := r\<rparr>))))"

partial_function (option) merge_loop ::
    "pb_lib \<Rightarrow> (UnknownField \<Rightarrow> 'm \<Rightarrow> 'm)
     \<Rightarrow> ('m pb_field list \<Rightarrow> cis \<Rightarrow> 'm \<Rightarrow> ((bool \<times> 'm \<times> cis) + ('m \<times> cis)) option)
     \<Rightarrow> 'm pb_field list \<Rightarrow> cis \<Rightarrow> 'm \<Rightarrow> (bool \<times> 'm \<times> cis) option" where
  "merge_loop L add_unknown run fs s m =
     (case ReadTag L s of (tag, s1) \<Rightarrow>
        if tag = 0 then Some (True, m, s1)
        else
          Option.bind (handle_tag L add_unknown run fs tag s1 m) (\<lambda>r.
            case r of
              Inl x \<Rightarrow> Some x
            | Inr (m2, s2) \<Rightarrow> merge_loop L add_unknown run fs s2 m2))"

definition MergePartial ::
    "pb_lib \<Rightarrow> (UnknownField \<Rightarrow> 'm \<Rightarrow> 'm) \<Rightarrow> 'm pb_field list \<Rightarrow> 'm field_parser" where
  "MergePartial L add_unknown fs s m = merge_loop L add_unknown run_fields fs s m"

section \<open>The documented format\<close>

text \<open>A varint: seven bits per byte, the lowest first; the top bit marks that more follow.\<close>

fun varint :: "nat \<Rightarrow> byte list" where
  "varint n = (if n < 128 then [of_nat n] else of_nat (n mod 128 + 128) # varint (n div 128))"

declare varint.simps [simp del]

lemma low_byte: "n mod 256 OR 128 = n mod 128 + (128 :: nat)"
proof -
  have "take_bit 8 n OR 2 ^ 7 = take_bit 7 n OR (2 ^ 7 :: nat)"
  proof (rule bit_eqI)
    fix i
    have "i < 8 \<longleftrightarrow> i < 7 \<or> i = (7 :: nat)"
      by auto
    then show "bit (take_bit 8 n OR 2 ^ 7) i = bit (take_bit 7 n OR 2 ^ 7 :: nat) i"
      by (auto simp only: bit_or_iff bit_take_bit_iff bit_exp_iff possible_bit_nat)
  qed
  moreover have "take_bit 7 n + 2 ^ 7 = take_bit 7 n OR (2 ^ 7 :: nat)"
    by (rule disjunctive_add) (auto simp only: bit_take_bit_iff bit_exp_iff)
  ultimately show ?thesis
    by (simp add: take_bit_eq_mod)
qed

lemma varint_one: "n < 128 \<Longrightarrow> varint n = [of_nat n]"
  by (simp add: varint.simps)

lemma varint_more: "128 \<le> n \<Longrightarrow> varint n = of_nat (n mod 128 + 128) # varint (n div 128)"
  by (subst varint.simps) simp

lemma varint_two: "128 \<le> n \<Longrightarrow> n < 2 ^ 14 \<Longrightarrow> varint n = [of_nat (n mod 128 + 128), of_nat (n div 128)]"
  by (subst varint.simps) (simp add: varint.simps [of "n div 128"])

lemma varint_length: "128 ^ k \<le> n \<or> k = 0 \<Longrightarrow> n < 128 ^ Suc k \<Longrightarrow> length (varint n) = Suc k"
proof (induction k arbitrary: n)
  case (Suc k)
  then have "128 ^ k \<le> n div 128" "n div 128 < 128 ^ Suc k"
    by (simp_all add: less_mult_imp_div_less mult.commute div_le_mono less_eq_div_iff_mult_less_eq)
  moreover have "\<not> n < 128"
    using Suc.prems(1) one_le_power [of "128::nat" k] by (simp only: power_Suc) linarith
  ultimately show ?case
    using Suc.IH [of "n div 128"] by (subst varint.simps) simp
qed (simp add: varint.simps)

lemma varint_head: "\<exists>b r. varint n = b # r \<and> (b < 0x80) = (n < 128)"
proof (cases "n < 128")
  case True
  then have "(of_nat n :: byte) < 0x80"
    by (simp add: word_less_nat_alt unat_of_nat)
  with True show ?thesis
    by (simp add: varint.simps)
next
  case False
  have "\<not> (of_nat (n mod 128 + 128) :: byte) < 0x80"
    by (simp add: word_less_nat_alt unat_of_nat del: of_nat_add)
  with False show ?thesis
    by (subst varint.simps) simp
qed

lemma tag_bytes:
  fixes v :: "32 word"
  assumes "\<not> v < 2 ^ 7" and "v < 2 ^ 14"
  shows "varint (unat v) = [ucast (v OR 0x80), ucast (drop_bit 7 v)]"
proof -
  have low: "128 \<le> unat v" "unat v < 2 ^ 14"
    using assms by (simp_all add: word_less_nat_alt word_le_nat_alt not_less)
  have bytes: "of_nat (unat b) = b" for b :: byte
    by simp
  have "unat (ucast (v OR 0x80) :: byte) = unat v mod 128 + 128"
    by (simp add: unsigned_ucast_eq unsigned_or_eq take_bit_eq_mod low_byte)
  then have 1: "(of_nat (unat v mod 128 + 128) :: byte) = ucast (v OR 0x80)"
    using bytes by metis
  have "unat (ucast (drop_bit 7 v) :: byte) = unat v div 128 mod 256"
    by (simp add: unsigned_ucast_eq unsigned_drop_bit_eq take_bit_eq_mod drop_bit_eq_div unat_div_distrib)
  moreover have "unat v div 128 mod 256 = unat v div 128"
    using low by simp
  ultimately have 2: "(of_nat (unat v div 128) :: byte) = ucast (drop_bit 7 v)"
    using bytes by metis
  show ?thesis
    using varint_two [OF low] 1 2 by simp
qed

text \<open>What the documentation in the headers says of the functions behind them.\<close>

locale wire_lib =
  fixes L :: pb_lib
  assumes write32: "\<not> v < 0x80 \<Longrightarrow> write_varint32_slow L v = varint (unat v)"
    and write64: "write_varint64 L x = varint (unat x)"
    and size32: "\<not> v < 2 ^ 7 \<Longrightarrow> size_varint32_slow L v = int (length (varint (unat v)))"
    and size64: "size_varint64 L x = int (length (varint (unat x)))"
    and read32: "128 \<le> n \<Longrightarrow> n < 2 ^ 64 \<Longrightarrow> read_varint32_slow L (varint n @ r) = Some (of_nat n, r)"
    and read64: "128 \<le> n \<Longrightarrow> n < 2 ^ 64 \<Longrightarrow> read_varint64_slow L (varint n @ r) = Some (of_nat n, r)"
    and read_bytes: "length d < 2 ^ 31 \<Longrightarrow> read_string L (varint (length d) @ d @ r) = (True, d, r)"
    and depth: "default_recursion_limit L = 100"

lemma byte_of_small: "n < 128 \<Longrightarrow> ucast (of_nat n :: byte) = (of_nat n :: 'a::len word)"
  by (simp add: unsigned_of_nat take_bit_nat_eq_self)

lemma byte_lt: "unat (b :: byte) < 256"
  using unsigned_less [where ?'a = nat and w = b] by simp

lemma cint_lt: "unat (v :: 32 word) < 2 ^ 32"
  using unsigned_less [where ?'a = nat and w = v] by simp

lemma ucast_small:
  fixes t :: "32 word"
  assumes "unat t < 128"
  shows "ucast (ucast t :: byte) = t"
proof (rule unsigned_word_eqI)
  show "unat (ucast (ucast t :: byte) :: 32 word) = unat t"
    using assms by (simp add: unsigned_ucast_eq unsigned_take_bit_eq take_bit_nat_eq_self)
qed

lemma extend_back: "ucast (scast v :: 64 word) = (v :: 32 word)"
  by (rule bit_word_eqI) (auto simp: bit_unsigned_iff bit_signed_iff)

lemma small_varint: "v < 0x80 \<Longrightarrow> varint (unat v) = [ucast v]" for v :: "32 word"
  by (simp add: varint_one word_less_nat_alt)

context wire_lib
begin

lemma write_varint32: "WriteVarint32ToArray L v = varint (unat v)"
  using write32 small_varint by (simp add: WriteVarint32ToArray_def)

lemma write_signed: "WriteVarint32SignExtendedToArray L v = varint (unat (scast v :: 64 word))"
proof (cases "v <s 0")
  case False
  then have "0 \<le> sint v" "sint v < 2 ^ 31"
    using sint_lt [of v] by (simp_all add: word_sless_alt)
  then have "sint v = uint v"
    by (simp add: uint_sint take_bit_int_eq_self)
  then have "(scast v :: 64 word) = ucast v"
    by (metis scast_eq ucast_eq)
  then have "unat (scast v :: 64 word) = unat v"
    using cint_lt [of v] by (simp add: unsigned_ucast_eq take_bit_nat_eq_self)
  with False write_varint32 show ?thesis
    by (simp add: WriteVarint32SignExtendedToArray_def)
qed (simp add: WriteVarint32SignExtendedToArray_def write64)

lemma write_tag: "CodedOutputStream_WriteTagToArray L t = varint (unat t)"
proof (cases "t < 2 ^ 7 \<or> t < 2 ^ 14")
  case True
  then show ?thesis
    using tag_bytes [of t] small_varint [of t] by (auto simp: CodedOutputStream_WriteTagToArray_def)
next
  case False
  then have "\<not> t < 0x80"
    by auto
  with False write32 show ?thesis
    by (simp add: CodedOutputStream_WriteTagToArray_def)
qed

lemma read_varint32_ok: "n < 2 ^ 64 \<Longrightarrow> read_varint32 L (varint n @ r) = Some (of_nat n, r)"
  using varint_head [of n] read32 [of n r]
  by (cases "n < 128") (auto simp: read_varint32_def varint_one byte_of_small)

lemma read_varint64_ok: "n < 2 ^ 64 \<Longrightarrow> read_varint64 L (varint n @ r) = Some (of_nat n, r)"
  using varint_head [of n] read64 [of n r]
  by (cases "n < 128") (auto simp: read_varint64_def varint_one byte_of_small)

lemma read_tag: "buffer s = varint (unat t) @ r \<Longrightarrow> ReadTag L s = (t, s\<lparr>buffer := r\<rparr>)"
proof -
  assume a: "buffer s = varint (unat t) @ r"
  have "unat t < 2 ^ 64"
    using cint_lt [of t] by simp
  with a varint_head [of "unat t"] read32 [of "unat t" r] show ?thesis
    by (cases "unat t < 128") (auto simp: ReadTag_def varint_one byte_of_small ucast_small)
qed

lemma expect_tag: "ExpectTag t s = Some s2 \<Longrightarrow> ReadTag L s = (t, s2)"
proof (cases "t < 2 ^ 7")
  case True
  assume "ExpectTag t s = Some s2"
  with True obtain b r where b: "buffer s = b # r" "ucast b = t" "s2 = s\<lparr>buffer := r\<rparr>"
    by (auto simp: ExpectTag_def split: list.splits if_splits)
  have "b < 0x80"
    using True b(2) byte_lt [of b] by (auto simp: word_less_nat_alt unsigned_ucast_eq take_bit_nat_eq_self)
  with b show ?thesis
    by (simp add: ReadTag_def)
next
  case False
  assume "ExpectTag t s = Some s2"
  with False obtain r where r: "t < 2 ^ 14" "buffer s = ucast (t OR 0x80) # ucast (drop_bit 7 t) # r" "s2 = s\<lparr>buffer := r\<rparr>"
    by (auto simp: ExpectTag_def split: list.splits if_splits)
  with read_tag [of s t r] tag_bytes [OF False r(1)] show ?thesis
    by simp
qed

lemma expect_end: "ExpectAtEnd s = Some s2 \<Longrightarrow> ReadTag L s = (0, s2)"
  by (auto simp: ExpectAtEnd_def ReadTag_def split: if_splits)

end
section \<open>The jumps of the generated parsers\<close>

text \<open>The cases of a message fit together: \<open>ExpectTag\<close> is called with the tag of the next
  field, and each tag is found again in its case.\<close>

definition tag_of :: "'m pb_field \<Rightarrow> 32 word" where
  "tag_of f = MakeTag (number f) (wire f)"

fun chained :: "'m pb_field list \<Rightarrow> bool" where
  "chained [] = True"
| "chained [f] = (follow f = None)"
| "chained (f # g # gs) = (follow f = Some (tag_of g) \<and> chained (g # gs))"

definition generated :: "'m pb_field list \<Rightarrow> bool" where
  "generated fs = (chained fs \<and> distinct (map number fs)
     \<and> (\<forall>f \<in> set fs. tag_of f \<noteq> 0 \<and> GetTagFieldNumber (tag_of f) = number f
          \<and> GetTagWireType (tag_of f) = wire_type_code (wire f)))"

lemma chained_suffix: "chained (gs @ hs) \<Longrightarrow> chained hs"
proof (induction gs rule: chained.induct)
  case (2 f)
  then show ?case by (cases hs) simp_all
qed simp_all

text \<open>A parser without the jumps: after each field it reads the next tag.\<close>

fun run_one :: "'m pb_field list \<Rightarrow> cis \<Rightarrow> 'm \<Rightarrow> ((bool \<times> 'm \<times> cis) + ('m \<times> cis)) option" where
  "run_one [] s m = Some (Inr (m, s))"
| "run_one (f # fs) s m =
     Option.bind (parser f s m) (\<lambda>(ok, m1, s1).
       if \<not> ok then Some (Inl (False, m1, s1)) else Some (Inr (m1, s1)))"

definition parse_by_tags ::
    "pb_lib \<Rightarrow> (UnknownField \<Rightarrow> 'm \<Rightarrow> 'm) \<Rightarrow> 'm pb_field list \<Rightarrow> 'm field_parser" where
  "parse_by_tags L add_unknown fs s m = merge_loop L add_unknown run_one fs s m"

definition resume :: "'m field_parser \<Rightarrow> (bool \<times> 'm \<times> cis) + ('m \<times> cis) \<Rightarrow> (bool \<times> 'm \<times> cis) option" where
  "resume k r = (case r of Inl x \<Rightarrow> Some x | Inr (m, s) \<Rightarrow> k s m)"

lemma resume_simps [simp]: "resume k (Inl x) = Some x" "resume k (Inr (m, s)) = k s m"
  by (simp_all add: resume_def)

lemma resume_eq: "resume k = case_sum Some (\<lambda>(m, s). k s m)"
  by (auto simp: resume_def fun_eq_iff split: sum.split)

lemma merge_loop_step:
  "merge_loop L add run fs s m =
     (case ReadTag L s of (tag, s1) \<Rightarrow>
        if tag = 0 then Some (True, m, s1)
        else Option.bind (handle_tag L add run fs tag s1 m) (resume (merge_loop L add run fs)))"
  unfolding resume_eq by (subst merge_loop.simps) (rule refl)

lemma cases_of:
  assumes "generated (ps @ f # gs)"
  shows "handle_tag L add run (ps @ f # gs) (tag_of f) s m = run (f # gs) s m"
proof -
  have "dropWhile (\<lambda>g. number g \<noteq> number f) (ps @ f # gs) = f # gs"
  proof -
    have "number f \<notin> number ` set ps"
      using assms by (auto simp: generated_def)
    then have "number g \<noteq> number f" if "g \<in> set ps" for g
      using that by (metis imageI)
    then show ?thesis
      by (simp add: dropWhile_append2)
  qed
  then show ?thesis
    using assms by (simp add: handle_tag_def generated_def)
qed

context wire_lib
begin

lemma jump_is_step:
  assumes run: "run = run_fields \<or> run = run_one"
  shows "generated (ps @ f # gs) \<Longrightarrow>
    Option.bind (run_fields (f # gs) s m) (resume (merge_loop L add run (ps @ f # gs)))
      = Option.bind (run_one (f # gs) s m) (resume (merge_loop L add run (ps @ f # gs)))"
proof (induction gs arbitrary: ps f s m)
  case Nil
  have "follow f = None"
    using Nil chained_suffix [of ps "[f]"] by (simp add: generated_def)
  moreover have "merge_loop L add run (ps @ [f]) s1 m1 = Some (True, m1, s2)" if "ExpectAtEnd s1 = Some s2" for s1 s2 m1
    using expect_end [OF that] by (subst merge_loop_step) simp
  ultimately show ?case
    by (cases "parser f s m") (auto split: option.split)
next
  case (Cons g gs)
  let ?ml = "merge_loop L add run (ps @ f # g # gs)"
  have fol: "follow f = Some (tag_of g)" "tag_of g \<noteq> 0"
    using Cons.prems chained_suffix [of ps "f # g # gs"] by (simp_all add: generated_def)
  have gen: "generated ((ps @ [f]) @ g # gs)"
    using Cons.prems by simp
  have jump: "Option.bind (run_fields (g # gs) s2 m1) (resume ?ml) = ?ml s1 m1"
    if "ExpectTag (tag_of g) s1 = Some s2" for s1 s2 m1
  proof -
    have "?ml s1 m1 = Option.bind (run (g # gs) s2 m1) (resume ?ml)"
      using cases_of [OF gen] by (subst merge_loop_step) (simp add: expect_tag [OF that] fol)
    also have "\<dots> = Option.bind (run_fields (g # gs) s2 m1) (resume ?ml)"
      using run Cons.IH [OF gen] by auto
    finally show ?thesis by simp
  qed
  show ?case
    by (cases "parser f s m") (auto simp: fol jump run_fields.simps(2) [of f "g # gs"] simp del: run_fields.simps(2) split: option.split)
qed

lemma handle_one:
  assumes gen: "generated fs" and run: "run = run_fields \<or> run = run_one"
  shows "Option.bind (handle_tag L add run_fields fs t s m) (resume (merge_loop L add run fs))
    = Option.bind (handle_tag L add run_one fs t s m) (resume (merge_loop L add run fs))"
proof (cases "dropWhile (\<lambda>f. number f \<noteq> GetTagFieldNumber t) fs")
  case Nil
  then show ?thesis
    by (simp add: handle_tag_def)
next
  case (Cons f gs)
  then have fs: "fs = takeWhile (\<lambda>f. number f \<noteq> GetTagFieldNumber t) fs @ f # gs"
    by (metis takeWhile_dropWhile_id)
  have "Option.bind (run_fields (f # gs) s m) (resume (merge_loop L add run fs))
      = Option.bind (run_one (f # gs) s m) (resume (merge_loop L add run fs))"
    using jump_is_step [OF run, of _ f gs s m add, folded fs] gen by (metis fs)
  with Cons show ?thesis
    by (simp add: handle_tag_def)
qed

lemma loop_step:
  assumes "generated fs" and "run = run_fields \<or> run = run_one" and "run' = run_fields \<or> run' = run_one"
  shows "merge_loop L add run fs s m =
     (case ReadTag L s of (tag, s1) \<Rightarrow>
        if tag = 0 then Some (True, m, s1)
        else Option.bind (handle_tag L add run' fs tag s1 m) (resume (merge_loop L add run fs)))"
  using handle_one [OF assms(1,2)] assms(2,3) by (subst merge_loop_step) (auto split: prod.split)

lemma loops_agree:
  assumes gen: "generated fs" and run: "run = run_fields \<or> run = run_one" and run': "run' = run_fields \<or> run' = run_one"
    and result: "merge_loop L add run' fs s m = Some r"
  shows "merge_loop L add run fs s m = Some r"
proof -
  let ?P = "\<lambda>L1 add1 run1 fs1 s m r. L1 = L \<and> add1 = add \<and> run1 = run' \<and> fs1 = fs \<longrightarrow> merge_loop L add run fs s m = Some r"
  have "?P L add run' fs s m r"
  proof (rule merge_loop.raw_induct [where P = ?P, OF _ result])
    fix loop L1 add1 run1 fs1 s m r
    assume hyp: "\<And>L1 add1 run1 fs1 s m r. loop L1 add1 run1 fs1 s m = Some r \<Longrightarrow> ?P L1 add1 run1 fs1 s m r"
      and body: "(case ReadTag L1 s of (tag, s1) \<Rightarrow>
          if tag = 0 then Some (True, m, s1)
          else Option.bind (handle_tag L1 add1 run1 fs1 tag s1 m) (\<lambda>r.
            case r of Inl x \<Rightarrow> Some x | Inr (m2, s2) \<Rightarrow> loop L1 add1 run1 fs1 s2 m2)) = Some r"
    have "merge_loop L add run fs s m = Some r" if a: "L1 = L" "add1 = add" "run1 = run'" "fs1 = fs"
    proof -
      obtain t s1 where t: "ReadTag L s = (t, s1)"
        by (cases "ReadTag L s")
      show ?thesis
      proof (cases "t = 0")
        case True
        with body a t show ?thesis
          by (subst merge_loop_step) simp
      next
        case False
        with body a t obtain x where x: "handle_tag L add run' fs t s1 m = Some x"
            "(case x of Inl y \<Rightarrow> Some y | Inr (m2, s2) \<Rightarrow> loop L1 add1 run1 fs1 s2 m2) = Some r"
          by (auto simp: bind_eq_Some_conv)
        have later: "loop L add run' fs s2 m2 = Some r \<Longrightarrow> merge_loop L add run fs s2 m2 = Some r" for s2 m2
          using hyp by blast
        have "resume (merge_loop L add run fs) x = Some r"
          using x(2) later a by (auto simp: resume_def split: sum.splits)
        with False t x(1) show ?thesis
          by (subst loop_step [OF gen run run']) simp
      qed
    qed
    then show "?P L1 add1 run1 fs1 s m r"
      by blast
  qed
  then show ?thesis
    by blast
qed

lemma jumps_skip:
  assumes "generated fs"
  shows "MergePartial L add fs = parse_by_tags L add fs"
proof (intro ext)
  fix s m
  have "merge_loop L add run_fields fs s m = Some r \<longleftrightarrow> merge_loop L add run_one fs s m = Some r" for r
    using loops_agree [OF assms] by blast
  then show "MergePartial L add fs s m = parse_by_tags L add fs s m"
    unfolding MergePartial_def parse_by_tags_def by (metis not_None_eq)
qed

text \<open>One field at the head of the input, and the end of it.\<close>

lemma merge_field:
  assumes gen: "generated (ps @ f # gs)" and b: "buffer s = varint (unat (tag_of f)) @ r"
    and p: "parser f (s\<lparr>buffer := r\<rparr>) m = Some (True, m1, s1)"
  shows "MergePartial L add (ps @ f # gs) s m = MergePartial L add (ps @ f # gs) s1 m1"
proof -
  have "tag_of f \<noteq> 0"
    using gen by (simp add: generated_def)
  then show ?thesis
    using read_tag [OF b] cases_of [OF gen] p unfolding MergePartial_def
    by (subst loop_step [OF gen, of run_fields run_one]) simp_all
qed

lemma merge_end: "buffer s = [] \<Longrightarrow> MergePartial L add fs s m = Some (True, m, s\<lparr>legitimate_end := True\<rparr>)"
  unfolding MergePartial_def by (subst merge_loop_step) (simp add: ReadTag_def)

end

section \<open>Streams in the middle of a message\<close>

definition stream :: "int \<Rightarrow> byte list \<Rightarrow> cis" where
  "stream d bs = \<lparr>buffer = bs, legitimate_end = False, recursion_depth = d, recursion_limit = 100\<rparr>"

definition stream_end :: "int \<Rightarrow> cis" where
  "stream_end d = \<lparr>buffer = [], legitimate_end = True, recursion_depth = d, recursion_limit = 100\<rparr>"

lemma buffer_stream [simp]: "buffer (stream d bs) = bs" "(stream d bs)\<lparr>buffer := r\<rparr> = stream d r"
  by (simp_all add: stream_def)

context wire_lib
begin

lemma array_stream: "cis_of_array L bs = stream 0 bs"
  by (simp add: cis_of_array_def stream_def depth)

lemma field_step:
  assumes gen: "generated fs" and i: "i < length fs" and bs: "bs = varint (unat (tag_of (fs ! i))) @ r"
    and p: "parser (fs ! i) (stream d r) m = Some (True, m1, stream d r1)"
  shows "MergePartial L add fs (stream d bs) m = MergePartial L add fs (stream d r1) m1"
proof -
  have "generated (take i fs @ fs ! i # drop (Suc i) fs)"
    using gen i by (simp flip: id_take_nth_drop)
  from merge_field [OF this, of "stream d bs" r m m1 "stream d r1" add] bs p i show ?thesis
    by (simp flip: id_take_nth_drop)
qed

lemma merge_at_end: "MergePartial L add fs (stream d []) m = Some (True, m, stream_end d)"
  using merge_end [of "stream d []"] by (simp add: stream_def stream_end_def)

lemma int32_step:
  "ReadPrimitive_INT32 L upd (stream d (WriteInt32NoTagToArray L v @ r)) m = Some (True, upd v m, stream d r)"
proof -
  let ?n = "unat (scast v :: 64 word)"
  have n: "?n < 2 ^ 64"
    using unsigned_less [where ?'a = nat and w = "scast v :: 64 word"] by simp
  have "(of_nat ?n :: 32 word) = v"
    by (simp add: extend_back)
  then show ?thesis
    using read_varint32_ok [OF n] by (simp add: ReadPrimitive_INT32_def WriteInt32NoTagToArray_def write_signed)
qed

lemma int64_step:
  "ReadPrimitive_INT64 L upd (stream d (WriteInt64NoTagToArray L v @ r)) m = Some (True, upd v m, stream d r)"
proof -
  have n: "unat v < 2 ^ 64"
    using unsigned_less [where ?'a = nat and w = v] by simp
  show ?thesis
    using read_varint64_ok [OF n] by (simp add: ReadPrimitive_INT64_def WriteInt64NoTagToArray_def write64)
qed

lemma write_length: "n < 2 ^ 32 \<Longrightarrow> WriteVarint32ToArray L (of_nat n) = varint n"
  by (simp add: write_varint32 unsigned_of_nat take_bit_nat_eq_self)

lemma string_step:
  "length x < 2 ^ 31 \<Longrightarrow>
   read_string_into L upd (stream d (WriteVarint32ToArray L (of_nat (length x)) @ x @ r)) m
     = Some (True, upd x m, stream d r)"
  using read_bytes [of x r] write_length [of "length x"] by (simp add: read_string_into_def)

lemma message_step:
  assumes len: "length x < 2 ^ 31" and d: "0 \<le> d" "d < 100"
    and nested: "merge (stream (d + 1) x) (get m) = Some (True, n, stream_end (d + 1))"
  shows "ReadMessageNoVirtual L merge get put (stream d (WriteVarint32ToArray L (of_nat (length x)) @ x @ r)) m
     = Some (True, put n m, stream d r)"
proof -
  have w: "WriteVarint32ToArray L (of_nat (length x)) = varint (length x)"
    using write_length [of "length x"] len by simp
  have n: "unat (of_nat (length x) :: 32 word) = length x"
    using len by (simp add: unsigned_of_nat take_bit_nat_eq_self)
  have "read_varint32 L (varint (length x) @ x @ r) = Some (of_nat (length x), x @ r)"
    using read_varint32_ok len by simp
  with nested d n show ?thesis
    unfolding w by (simp add: ReadMessageNoVirtual_def stream_def stream_end_def Let_def)
qed

end

section \<open>A library that follows the documentation\<close>

fun read_varint :: "byte list \<Rightarrow> (nat \<times> byte list) option" where
  "read_varint [] = None"
| "read_varint (b # r) =
     (if b < 0x80 then Some (unat b, r)
      else map_option (\<lambda>(n, r1). (unat b - 128 + 128 * n, r1)) (read_varint r))"

lemma read_varint_back: "read_varint (varint n @ r) = Some (n, r)"
proof (induction n rule: varint.induct)
  case (1 n)
  show ?case
  proof (cases "n < 128")
    case True
    then have "(of_nat n :: byte) < 0x80" "unat (of_nat n :: byte) = n"
      by (simp_all add: word_less_nat_alt unsigned_of_nat take_bit_nat_eq_self)
    with True show ?thesis
      by (simp add: varint_one)
  next
    case False
    let ?b = "of_nat (n mod 128 + 128) :: byte"
    have "unat ?b = n mod 128 + 128"
      by (simp add: unsigned_of_nat take_bit_nat_eq_self del: of_nat_add)
    moreover from this have "\<not> ?b < 0x80"
      by (simp add: word_less_nat_alt del: of_nat_add)
    ultimately show ?thesis
      using False 1 by (subst varint.simps) (simp del: of_nat_add)
  qed
qed

definition read_delimited :: "byte list \<Rightarrow> (byte list \<times> byte list) option" where
  "read_delimited bs =
     (case read_varint bs of
        None \<Rightarrow> None
      | Some (n, r) \<Rightarrow> if n \<le> length r then Some (take n r, drop n r) else None)"

definition skip_documented :: "32 word \<Rightarrow> byte list \<Rightarrow> (UnknownField \<times> byte list) option" where
  "skip_documented tag bs =
     (let n = uint (GetTagFieldNumber tag) in
      if GetTagWireType tag = wire_type_code WIRETYPE_VARINT then
        map_option (\<lambda>(v, r). (TYPE_VARINT n (of_nat v), r)) (read_varint bs)
      else if GetTagWireType tag = wire_type_code WIRETYPE_LENGTH_DELIMITED then
        map_option (\<lambda>(x, r). (TYPE_LENGTH_DELIMITED n x, r)) (read_delimited bs)
      else None)"

definition reference_lib :: pb_lib where
  "reference_lib =
     \<lparr>write_varint32_slow = (\<lambda>v. varint (unat v)), write_varint64 = (\<lambda>v. varint (unat v)),
      size_varint32_slow = (\<lambda>v. int (length (varint (unat v)))),
      size_varint64 = (\<lambda>v. int (length (varint (unat v)))),
      read_varint32_slow = (\<lambda>bs. map_option (\<lambda>(n, r). (of_nat n, r)) (read_varint bs)),
      read_varint64_slow = (\<lambda>bs. map_option (\<lambda>(n, r). (of_nat n, r)) (read_varint bs)),
      read_string = (\<lambda>bs. case read_delimited bs of None \<Rightarrow> (False, [], bs) | Some (x, r) \<Rightarrow> (True, x, r)),
      skip_field = skip_documented, write_unknown = (\<lambda>_. []), size_unknown = (\<lambda>_. 0),
      default_recursion_limit = 100\<rparr>"

lemma reference_ok: "wire_lib reference_lib"
  by unfold_locales (simp_all add: reference_lib_def read_varint_back read_delimited_def)

interpretation reference: wire_lib reference_lib
  by (rule reference_ok)

end
