(* ===== verification/ClientPb.thy ===== *)
theory ClientPb
  imports PbWire
begin

text \<open>
  \<open>sdk/client.pb.cc\<close>, the code protobuf's compiler has generated for \<open>client.proto\<close>: for
  each message its constructor (\<open>SharedCtor\<close>), \<open>Clear\<close>, the parser
  \<open>MergePartialFromCodedStream\<close>, \<open>ByteSize\<close>, \<open>SerializeWithCachedSizesToArray\<close>,
  \<open>MergeFrom\<close>, \<open>CopyFrom\<close>, \<open>IsInitialized\<close> and \<open>Swap\<close>. A field with its has-bit
  is an option; the value of a field whose bit is not set is its default. Strings are byte lists.
  \<open>ByteSize\<close> leaves its result in the message, where the serializer of the enclosing message
  reads it; here that one takes the size again. The check that strings are UTF-8 only logs.
\<close>

section \<open>Fields that may be absent\<close>

definition write_if :: "('a \<Rightarrow> byte list) \<Rightarrow> 'a option \<Rightarrow> byte list" where
  "write_if w x = (case x of None \<Rightarrow> [] | Some v \<Rightarrow> w v)"

definition size_of :: "('a \<Rightarrow> int) \<Rightarrow> 'a option \<Rightarrow> int" where
  "size_of w x = (case x of None \<Rightarrow> 0 | Some v \<Rightarrow> w v)"

definition merge_opt :: "'a option \<Rightarrow> 'a option \<Rightarrow> 'a option" where
  "merge_opt this from = (case from of None \<Rightarrow> this | Some v \<Rightarrow> Some v)"

text \<open>\<open>mutable_x()\<close> of a nested message, and its part in \<open>MergeFrom\<close>.\<close>

definition mutable_or :: "'a \<Rightarrow> 'a option \<Rightarrow> 'a" where
  "mutable_or new this = (case this of None \<Rightarrow> new | Some x \<Rightarrow> x)"

definition merge_sub :: "('a \<Rightarrow> 'a \<Rightarrow> 'a) \<Rightarrow> 'a \<Rightarrow> 'a option \<Rightarrow> 'a option \<Rightarrow> 'a option" where
  "merge_sub merge new this from =
     (case from of None \<Rightarrow> this | Some x \<Rightarrow> Some (merge (mutable_or new this) x))"

lemma absent_simps [simp]:
  "write_if w None = []" "write_if w (Some v) = w v" "size_of z None = 0" "size_of z (Some v) = z v"
  "merge_opt this None = this" "merge_opt this (Some v) = Some v"
  "merge_sub f new this None = this" "merge_sub f new this (Some v) = Some (f (mutable_or new this) v)"
  by (simp_all add: write_if_def size_of_def merge_opt_def merge_sub_def)

section \<open>\<open>CSHead\<close>\<close>

record CSHead =
  head_magic :: "32 word option"
  head_sequence :: "64 word option"
  head_bodyid :: "32 word option"
  head_unknown :: "UnknownField list"

definition CSHead_new :: CSHead where
  "CSHead_new = \<lparr>head_magic = None, head_sequence = None, head_bodyid = None, head_unknown = []\<rparr>"

definition CSHead_Clear :: "CSHead \<Rightarrow> CSHead" where
  "CSHead_Clear m = m\<lparr>head_magic := None, head_sequence := None, head_bodyid := None, head_unknown := []\<rparr>"

definition CSHead_fields :: "pb_lib \<Rightarrow> CSHead pb_field list" where
  "CSHead_fields L =
     [\<lparr>number = 1, wire = WIRETYPE_VARINT,
        parser = ReadPrimitive_INT32 L (\<lambda>v m. m\<lparr>head_magic := Some v\<rparr>),
        follow = Some 16\<rparr>,
      \<lparr>number = 2, wire = WIRETYPE_VARINT,
        parser = ReadPrimitive_INT64 L (\<lambda>v m. m\<lparr>head_sequence := Some v\<rparr>),
        follow = Some 24\<rparr>,
      \<lparr>number = 3, wire = WIRETYPE_VARINT,
        parser = ReadPrimitive_INT32 L (\<lambda>v m. m\<lparr>head_bodyid := Some v\<rparr>),
        follow = None\<rparr>]"

definition CSHead_MergePartialFromCodedStream :: "pb_lib \<Rightarrow> CSHead field_parser" where
  "CSHead_MergePartialFromCodedStream L =
     MergePartial L (\<lambda>u m. m\<lparr>head_unknown := head_unknown m @ [u]\<rparr>) (CSHead_fields L)"

definition CSHead_ByteSize :: "pb_lib \<Rightarrow> CSHead \<Rightarrow> int" where
  "CSHead_ByteSize L m =
     size_of (\<lambda>v. 1 + Int32Size L v) (head_magic m)
     + size_of (\<lambda>v. 1 + Int64Size L v) (head_sequence m)
     + size_of (\<lambda>v. 1 + Int32Size L v) (head_bodyid m)
     + (if head_unknown m \<noteq> [] then size_unknown L (head_unknown m) else 0)"

definition CSHead_SerializeWithCachedSizesToArray :: "pb_lib \<Rightarrow> CSHead \<Rightarrow> byte list" where
  "CSHead_SerializeWithCachedSizesToArray L m =
     write_if (WriteInt32ToArray L 1) (head_magic m)
     @ write_if (WriteInt64ToArray L 2) (head_sequence m)
     @ write_if (WriteInt32ToArray L 3) (head_bodyid m)
     @ (if head_unknown m \<noteq> [] then write_unknown L (head_unknown m) else [])"

definition CSHead_MergeFrom :: "CSHead \<Rightarrow> CSHead \<Rightarrow> CSHead" where
  "CSHead_MergeFrom m from = m\<lparr>
       head_magic := merge_opt (head_magic m) (head_magic from),
       head_sequence := merge_opt (head_sequence m) (head_sequence from),
       head_bodyid := merge_opt (head_bodyid m) (head_bodyid from),
       head_unknown := head_unknown m @ head_unknown from\<rparr>"

definition CSHead_CopyFrom :: "CSHead \<Rightarrow> CSHead \<Rightarrow> CSHead" where
  "CSHead_CopyFrom m from = CSHead_MergeFrom (CSHead_Clear m) from"

definition CSHead_IsInitialized :: "CSHead \<Rightarrow> bool" where
  "CSHead_IsInitialized m = (head_magic m \<noteq> None
     \<and> head_sequence m \<noteq> None
     \<and> head_bodyid m \<noteq> None)"

definition CSHead_Swap :: "CSHead \<Rightarrow> CSHead \<Rightarrow> CSHead \<times> CSHead" where
  "CSHead_Swap m other =
     (m\<lparr>head_magic := head_magic other, head_sequence := head_sequence other, head_bodyid := head_bodyid other, head_unknown := head_unknown other\<rparr>,
      other\<lparr>head_magic := head_magic m, head_sequence := head_sequence m, head_bodyid := head_bodyid m, head_unknown := head_unknown m\<rparr>)"

section \<open>\<open>CSSyn\<close>\<close>

record CSSyn =
  syn_appid :: "byte list option"
  syn_openid :: "byte list option"
  syn_unknown :: "UnknownField list"

definition CSSyn_new :: CSSyn where
  "CSSyn_new = \<lparr>syn_appid = None, syn_openid = None, syn_unknown = []\<rparr>"

definition CSSyn_Clear :: "CSSyn \<Rightarrow> CSSyn" where
  "CSSyn_Clear m = m\<lparr>syn_appid := None, syn_openid := None, syn_unknown := []\<rparr>"

definition CSSyn_fields :: "pb_lib \<Rightarrow> CSSyn pb_field list" where
  "CSSyn_fields L =
     [\<lparr>number = 1, wire = WIRETYPE_LENGTH_DELIMITED,
        parser = read_string_into L (\<lambda>v m. m\<lparr>syn_appid := Some v\<rparr>),
        follow = Some 18\<rparr>,
      \<lparr>number = 2, wire = WIRETYPE_LENGTH_DELIMITED,
        parser = read_string_into L (\<lambda>v m. m\<lparr>syn_openid := Some v\<rparr>),
        follow = None\<rparr>]"

definition CSSyn_MergePartialFromCodedStream :: "pb_lib \<Rightarrow> CSSyn field_parser" where
  "CSSyn_MergePartialFromCodedStream L =
     MergePartial L (\<lambda>u m. m\<lparr>syn_unknown := syn_unknown m @ [u]\<rparr>) (CSSyn_fields L)"

definition CSSyn_ByteSize :: "pb_lib \<Rightarrow> CSSyn \<Rightarrow> int" where
  "CSSyn_ByteSize L m =
     size_of (\<lambda>v. 1 + StringSize L v) (syn_appid m)
     + size_of (\<lambda>v. 1 + StringSize L v) (syn_openid m)
     + (if syn_unknown m \<noteq> [] then size_unknown L (syn_unknown m) else 0)"

definition CSSyn_SerializeWithCachedSizesToArray :: "pb_lib \<Rightarrow> CSSyn \<Rightarrow> byte list" where
  "CSSyn_SerializeWithCachedSizesToArray L m =
     write_if (WriteStringToArray L 1) (syn_appid m)
     @ write_if (WriteStringToArray L 2) (syn_openid m)
     @ (if syn_unknown m \<noteq> [] then write_unknown L (syn_unknown m) else [])"

definition CSSyn_MergeFrom :: "CSSyn \<Rightarrow> CSSyn \<Rightarrow> CSSyn" where
  "CSSyn_MergeFrom m from = m\<lparr>
       syn_appid := merge_opt (syn_appid m) (syn_appid from),
       syn_openid := merge_opt (syn_openid m) (syn_openid from),
       syn_unknown := syn_unknown m @ syn_unknown from\<rparr>"

definition CSSyn_CopyFrom :: "CSSyn \<Rightarrow> CSSyn \<Rightarrow> CSSyn" where
  "CSSyn_CopyFrom m from = CSSyn_MergeFrom (CSSyn_Clear m) from"

definition CSSyn_IsInitialized :: "CSSyn \<Rightarrow> bool" where
  "CSSyn_IsInitialized m = (syn_appid m \<noteq> None
     \<and> syn_openid m \<noteq> None)"

definition CSSyn_Swap :: "CSSyn \<Rightarrow> CSSyn \<Rightarrow> CSSyn \<times> CSSyn" where
  "CSSyn_Swap m other =
     (m\<lparr>syn_appid := syn_appid other, syn_openid := syn_openid other, syn_unknown := syn_unknown other\<rparr>,
      other\<lparr>syn_appid := syn_appid m, syn_openid := syn_openid m, syn_unknown := syn_unknown m\<rparr>)"

section \<open>\<open>CSSynAck\<close>\<close>

record CSSynAck =
  ack_secretkey :: "byte list option"
  ack_unknown :: "UnknownField list"

definition CSSynAck_new :: CSSynAck where
  "CSSynAck_new = \<lparr>ack_secretkey = None, ack_unknown = []\<rparr>"

definition CSSynAck_Clear :: "CSSynAck \<Rightarrow> CSSynAck" where
  "CSSynAck_Clear m = m\<lparr>ack_secretkey := None, ack_unknown := []\<rparr>"

definition CSSynAck_fields :: "pb_lib \<Rightarrow> CSSynAck pb_field list" where
  "CSSynAck_fields L =
     [\<lparr>number = 1, wire = WIRETYPE_LENGTH_DELIMITED,
        parser = read_string_into L (\<lambda>v m. m\<lparr>ack_secretkey := Some v\<rparr>),
        follow = None\<rparr>]"

definition CSSynAck_MergePartialFromCodedStream :: "pb_lib \<Rightarrow> CSSynAck field_parser" where
  "CSSynAck_MergePartialFromCodedStream L =
     MergePartial L (\<lambda>u m. m\<lparr>ack_unknown := ack_unknown m @ [u]\<rparr>) (CSSynAck_fields L)"

definition CSSynAck_ByteSize :: "pb_lib \<Rightarrow> CSSynAck \<Rightarrow> int" where
  "CSSynAck_ByteSize L m =
     size_of (\<lambda>v. 1 + StringSize L v) (ack_secretkey m)
     + (if ack_unknown m \<noteq> [] then size_unknown L (ack_unknown m) else 0)"

definition CSSynAck_SerializeWithCachedSizesToArray :: "pb_lib \<Rightarrow> CSSynAck \<Rightarrow> byte list" where
  "CSSynAck_SerializeWithCachedSizesToArray L m =
     write_if (WriteStringToArray L 1) (ack_secretkey m)
     @ (if ack_unknown m \<noteq> [] then write_unknown L (ack_unknown m) else [])"

definition CSSynAck_MergeFrom :: "CSSynAck \<Rightarrow> CSSynAck \<Rightarrow> CSSynAck" where
  "CSSynAck_MergeFrom m from = m\<lparr>
       ack_secretkey := merge_opt (ack_secretkey m) (ack_secretkey from),
       ack_unknown := ack_unknown m @ ack_unknown from\<rparr>"

definition CSSynAck_CopyFrom :: "CSSynAck \<Rightarrow> CSSynAck \<Rightarrow> CSSynAck" where
  "CSSynAck_CopyFrom m from = CSSynAck_MergeFrom (CSSynAck_Clear m) from"

definition CSSynAck_IsInitialized :: "CSSynAck \<Rightarrow> bool" where
  "CSSynAck_IsInitialized m = (ack_secretkey m \<noteq> None)"

definition CSSynAck_Swap :: "CSSynAck \<Rightarrow> CSSynAck \<Rightarrow> CSSynAck \<times> CSSynAck" where
  "CSSynAck_Swap m other =
     (m\<lparr>ack_secretkey := ack_secretkey other, ack_unknown := ack_unknown other\<rparr>,
      other\<lparr>ack_secretkey := ack_secretkey m, ack_unknown := ack_unknown m\<rparr>)"

section \<open>\<open>CSAuth\<close>\<close>

record CSAuth =
  auth_token :: "byte list option"
  auth_unknown :: "UnknownField list"

definition CSAuth_new :: CSAuth where
  "CSAuth_new = \<lparr>auth_token = None, auth_unknown = []\<rparr>"

definition CSAuth_Clear :: "CSAuth \<Rightarrow> CSAuth" where
  "CSAuth_Clear m = m\<lparr>auth_token := None, auth_unknown := []\<rparr>"

definition CSAuth_fields :: "pb_lib \<Rightarrow> CSAuth pb_field list" where
  "CSAuth_fields L =
     [\<lparr>number = 1, wire = WIRETYPE_LENGTH_DELIMITED,
        parser = read_string_into L (\<lambda>v m. m\<lparr>auth_token := Some v\<rparr>),
        follow = None\<rparr>]"

definition CSAuth_MergePartialFromCodedStream :: "pb_lib \<Rightarrow> CSAuth field_parser" where
  "CSAuth_MergePartialFromCodedStream L =
     MergePartial L (\<lambda>u m. m\<lparr>auth_unknown := auth_unknown m @ [u]\<rparr>) (CSAuth_fields L)"

definition CSAuth_ByteSize :: "pb_lib \<Rightarrow> CSAuth \<Rightarrow> int" where
  "CSAuth_ByteSize L m =
     size_of (\<lambda>v. 1 + StringSize L v) (auth_token m)
     + (if auth_unknown m \<noteq> [] then size_unknown L (auth_unknown m) else 0)"

definition CSAuth_SerializeWithCachedSizesToArray :: "pb_lib \<Rightarrow> CSAuth \<Rightarrow> byte list" where
  "CSAuth_SerializeWithCachedSizesToArray L m =
     write_if (WriteStringToArray L 1) (auth_token m)
     @ (if auth_unknown m \<noteq> [] then write_unknown L (auth_unknown m) else [])"

definition CSAuth_MergeFrom :: "CSAuth \<Rightarrow> CSAuth \<Rightarrow> CSAuth" where
  "CSAuth_MergeFrom m from = m\<lparr>
       auth_token := merge_opt (auth_token m) (auth_token from),
       auth_unknown := auth_unknown m @ auth_unknown from\<rparr>"

definition CSAuth_CopyFrom :: "CSAuth \<Rightarrow> CSAuth \<Rightarrow> CSAuth" where
  "CSAuth_CopyFrom m from = CSAuth_MergeFrom (CSAuth_Clear m) from"

definition CSAuth_IsInitialized :: "CSAuth \<Rightarrow> bool" where
  "CSAuth_IsInitialized m = (auth_token m \<noteq> None)"

definition CSAuth_Swap :: "CSAuth \<Rightarrow> CSAuth \<Rightarrow> CSAuth \<times> CSAuth" where
  "CSAuth_Swap m other =
     (m\<lparr>auth_token := auth_token other, auth_unknown := auth_unknown other\<rparr>,
      other\<lparr>auth_token := auth_token m, auth_unknown := auth_unknown m\<rparr>)"

section \<open>\<open>CSPassport\<close>\<close>

record CSPassport =
  pass_passport :: "64 word option"
  pass_unknown :: "UnknownField list"

definition CSPassport_new :: CSPassport where
  "CSPassport_new = \<lparr>pass_passport = None, pass_unknown = []\<rparr>"

definition CSPassport_Clear :: "CSPassport \<Rightarrow> CSPassport" where
  "CSPassport_Clear m = m\<lparr>pass_passport := None, pass_unknown := []\<rparr>"

definition CSPassport_fields :: "pb_lib \<Rightarrow> CSPassport pb_field list" where
  "CSPassport_fields L =
     [\<lparr>number = 1, wire = WIRETYPE_VARINT,
        parser = ReadPrimitive_INT64 L (\<lambda>v m. m\<lparr>pass_passport := Some v\<rparr>),
        follow = None\<rparr>]"

definition CSPassport_MergePartialFromCodedStream :: "pb_lib \<Rightarrow> CSPassport field_parser" where
  "CSPassport_MergePartialFromCodedStream L =
     MergePartial L (\<lambda>u m. m\<lparr>pass_unknown := pass_unknown m @ [u]\<rparr>) (CSPassport_fields L)"

definition CSPassport_ByteSize :: "pb_lib \<Rightarrow> CSPassport \<Rightarrow> int" where
  "CSPassport_ByteSize L m =
     size_of (\<lambda>v. 1 + Int64Size L v) (pass_passport m)
     + (if pass_unknown m \<noteq> [] then size_unknown L (pass_unknown m) else 0)"

definition CSPassport_SerializeWithCachedSizesToArray :: "pb_lib \<Rightarrow> CSPassport \<Rightarrow> byte list" where
  "CSPassport_SerializeWithCachedSizesToArray L m =
     write_if (WriteInt64ToArray L 1) (pass_passport m)
     @ (if pass_unknown m \<noteq> [] then write_unknown L (pass_unknown m) else [])"

definition CSPassport_MergeFrom :: "CSPassport \<Rightarrow> CSPassport \<Rightarrow> CSPassport" where
  "CSPassport_MergeFrom m from = m\<lparr>
       pass_passport := merge_opt (pass_passport m) (pass_passport from),
       pass_unknown := pass_unknown m @ pass_unknown from\<rparr>"

definition CSPassport_CopyFrom :: "CSPassport \<Rightarrow> CSPassport \<Rightarrow> CSPassport" where
  "CSPassport_CopyFrom m from = CSPassport_MergeFrom (CSPassport_Clear m) from"

definition CSPassport_IsInitialized :: "CSPassport \<Rightarrow> bool" where
  "CSPassport_IsInitialized m = True"

definition CSPassport_Swap :: "CSPassport \<Rightarrow> CSPassport \<Rightarrow> CSPassport \<times> CSPassport" where
  "CSPassport_Swap m other =
     (m\<lparr>pass_passport := pass_passport other, pass_unknown := pass_unknown other\<rparr>,
      other\<lparr>pass_passport := pass_passport m, pass_unknown := pass_unknown m\<rparr>)"

section \<open>\<open>CSStart\<close>\<close>

record CSStart =
  start_code :: "32 word option"
  start_unknown :: "UnknownField list"

definition CSStart_new :: CSStart where
  "CSStart_new = \<lparr>start_code = None, start_unknown = []\<rparr>"

definition CSStart_Clear :: "CSStart \<Rightarrow> CSStart" where
  "CSStart_Clear m = m\<lparr>start_code := None, start_unknown := []\<rparr>"

definition CSStart_fields :: "pb_lib \<Rightarrow> CSStart pb_field list" where
  "CSStart_fields L =
     [\<lparr>number = 1, wire = WIRETYPE_VARINT,
        parser = ReadPrimitive_INT32 L (\<lambda>v m. m\<lparr>start_code := Some v\<rparr>),
        follow = None\<rparr>]"

definition CSStart_MergePartialFromCodedStream :: "pb_lib \<Rightarrow> CSStart field_parser" where
  "CSStart_MergePartialFromCodedStream L =
     MergePartial L (\<lambda>u m. m\<lparr>start_unknown := start_unknown m @ [u]\<rparr>) (CSStart_fields L)"

definition CSStart_ByteSize :: "pb_lib \<Rightarrow> CSStart \<Rightarrow> int" where
  "CSStart_ByteSize L m =
     size_of (\<lambda>v. 1 + Int32Size L v) (start_code m)
     + (if start_unknown m \<noteq> [] then size_unknown L (start_unknown m) else 0)"

definition CSStart_SerializeWithCachedSizesToArray :: "pb_lib \<Rightarrow> CSStart \<Rightarrow> byte list" where
  "CSStart_SerializeWithCachedSizesToArray L m =
     write_if (WriteInt32ToArray L 1) (start_code m)
     @ (if start_unknown m \<noteq> [] then write_unknown L (start_unknown m) else [])"

definition CSStart_MergeFrom :: "CSStart \<Rightarrow> CSStart \<Rightarrow> CSStart" where
  "CSStart_MergeFrom m from = m\<lparr>
       start_code := merge_opt (start_code m) (start_code from),
       start_unknown := start_unknown m @ start_unknown from\<rparr>"

definition CSStart_CopyFrom :: "CSStart \<Rightarrow> CSStart \<Rightarrow> CSStart" where
  "CSStart_CopyFrom m from = CSStart_MergeFrom (CSStart_Clear m) from"

definition CSStart_IsInitialized :: "CSStart \<Rightarrow> bool" where
  "CSStart_IsInitialized m = True"

definition CSStart_Swap :: "CSStart \<Rightarrow> CSStart \<Rightarrow> CSStart \<times> CSStart" where
  "CSStart_Swap m other =
     (m\<lparr>start_code := start_code other, start_unknown := start_unknown other\<rparr>,
      other\<lparr>start_code := start_code m, start_unknown := start_unknown m\<rparr>)"

section \<open>\<open>CSError\<close>\<close>

record CSError =
  err_code :: "32 word option"
  err_desc :: "byte list option"
  err_unknown :: "UnknownField list"

definition CSError_new :: CSError where
  "CSError_new = \<lparr>err_code = None, err_desc = None, err_unknown = []\<rparr>"

definition CSError_Clear :: "CSError \<Rightarrow> CSError" where
  "CSError_Clear m = m\<lparr>err_code := None, err_desc := None, err_unknown := []\<rparr>"

definition CSError_fields :: "pb_lib \<Rightarrow> CSError pb_field list" where
  "CSError_fields L =
     [\<lparr>number = 1, wire = WIRETYPE_VARINT,
        parser = ReadPrimitive_INT32 L (\<lambda>v m. m\<lparr>err_code := Some v\<rparr>),
        follow = Some 18\<rparr>,
      \<lparr>number = 2, wire = WIRETYPE_LENGTH_DELIMITED,
        parser = read_string_into L (\<lambda>v m. m\<lparr>err_desc := Some v\<rparr>),
        follow = None\<rparr>]"

definition CSError_MergePartialFromCodedStream :: "pb_lib \<Rightarrow> CSError field_parser" where
  "CSError_MergePartialFromCodedStream L =
     MergePartial L (\<lambda>u m. m\<lparr>err_unknown := err_unknown m @ [u]\<rparr>) (CSError_fields L)"

definition CSError_ByteSize :: "pb_lib \<Rightarrow> CSError \<Rightarrow> int" where
  "CSError_ByteSize L m =
     size_of (\<lambda>v. 1 + Int32Size L v) (err_code m)
     + size_of (\<lambda>v. 1 + StringSize L v) (err_desc m)
     + (if err_unknown m \<noteq> [] then size_unknown L (err_unknown m) else 0)"

definition CSError_SerializeWithCachedSizesToArray :: "pb_lib \<Rightarrow> CSError \<Rightarrow> byte list" where
  "CSError_SerializeWithCachedSizesToArray L m =
     write_if (WriteInt32ToArray L 1) (err_code m)
     @ write_if (WriteStringToArray L 2) (err_desc m)
     @ (if err_unknown m \<noteq> [] then write_unknown L (err_unknown m) else [])"

definition CSError_MergeFrom :: "CSError \<Rightarrow> CSError \<Rightarrow> CSError" where
  "CSError_MergeFrom m from = m\<lparr>
       err_code := merge_opt (err_code m) (err_code from),
       err_desc := merge_opt (err_desc m) (err_desc from),
       err_unknown := err_unknown m @ err_unknown from\<rparr>"

definition CSError_CopyFrom :: "CSError \<Rightarrow> CSError \<Rightarrow> CSError" where
  "CSError_CopyFrom m from = CSError_MergeFrom (CSError_Clear m) from"

definition CSError_IsInitialized :: "CSError \<Rightarrow> bool" where
  "CSError_IsInitialized m = (err_code m \<noteq> None
     \<and> err_desc m \<noteq> None)"

definition CSError_Swap :: "CSError \<Rightarrow> CSError \<Rightarrow> CSError \<times> CSError" where
  "CSError_Swap m other =
     (m\<lparr>err_code := err_code other, err_desc := err_desc other, err_unknown := err_unknown other\<rparr>,
      other\<lparr>err_code := err_code m, err_desc := err_desc m, err_unknown := err_unknown m\<rparr>)"

section \<open>\<open>CSBody\<close>\<close>

record CSBody =
  body_syn :: "CSSyn option"
  body_ack :: "CSSynAck option"
  body_auth :: "CSAuth option"
  body_passport :: "CSPassport option"
  body_start :: "CSStart option"
  body_data :: "byte list option"
  body_error :: "CSError option"
  body_unknown :: "UnknownField list"

definition CSBody_new :: CSBody where
  "CSBody_new = \<lparr>body_syn = None, body_ack = None, body_auth = None, body_passport = None, body_start = None, body_data = None, body_error = None, body_unknown = []\<rparr>"

definition CSBody_Clear :: "CSBody \<Rightarrow> CSBody" where
  "CSBody_Clear m = m\<lparr>body_syn := None, body_ack := None, body_auth := None, body_passport := None, body_start := None, body_data := None, body_error := None, body_unknown := []\<rparr>"

definition mutable_body_syn :: "CSBody \<Rightarrow> CSSyn" where
  "mutable_body_syn m = mutable_or CSSyn_new (body_syn m)"

definition mutable_body_ack :: "CSBody \<Rightarrow> CSSynAck" where
  "mutable_body_ack m = mutable_or CSSynAck_new (body_ack m)"

definition mutable_body_auth :: "CSBody \<Rightarrow> CSAuth" where
  "mutable_body_auth m = mutable_or CSAuth_new (body_auth m)"

definition mutable_body_passport :: "CSBody \<Rightarrow> CSPassport" where
  "mutable_body_passport m = mutable_or CSPassport_new (body_passport m)"

definition mutable_body_start :: "CSBody \<Rightarrow> CSStart" where
  "mutable_body_start m = mutable_or CSStart_new (body_start m)"

definition mutable_body_error :: "CSBody \<Rightarrow> CSError" where
  "mutable_body_error m = mutable_or CSError_new (body_error m)"

definition CSBody_fields :: "pb_lib \<Rightarrow> CSBody pb_field list" where
  "CSBody_fields L =
     [\<lparr>number = 1, wire = WIRETYPE_LENGTH_DELIMITED,
        parser = ReadMessageNoVirtual L (CSSyn_MergePartialFromCodedStream L) (mutable_body_syn) (\<lambda>v m. m\<lparr>body_syn := Some v\<rparr>),
        follow = Some 18\<rparr>,
      \<lparr>number = 2, wire = WIRETYPE_LENGTH_DELIMITED,
        parser = ReadMessageNoVirtual L (CSSynAck_MergePartialFromCodedStream L) (mutable_body_ack) (\<lambda>v m. m\<lparr>body_ack := Some v\<rparr>),
        follow = Some 26\<rparr>,
      \<lparr>number = 3, wire = WIRETYPE_LENGTH_DELIMITED,
        parser = ReadMessageNoVirtual L (CSAuth_MergePartialFromCodedStream L) (mutable_body_auth) (\<lambda>v m. m\<lparr>body_auth := Some v\<rparr>),
        follow = Some 34\<rparr>,
      \<lparr>number = 4, wire = WIRETYPE_LENGTH_DELIMITED,
        parser = ReadMessageNoVirtual L (CSPassport_MergePartialFromCodedStream L) (mutable_body_passport) (\<lambda>v m. m\<lparr>body_passport := Some v\<rparr>),
        follow = Some 42\<rparr>,
      \<lparr>number = 5, wire = WIRETYPE_LENGTH_DELIMITED,
        parser = ReadMessageNoVirtual L (CSStart_MergePartialFromCodedStream L) (mutable_body_start) (\<lambda>v m. m\<lparr>body_start := Some v\<rparr>),
        follow = Some 130\<rparr>,
      \<lparr>number = 16, wire = WIRETYPE_LENGTH_DELIMITED,
        parser = read_string_into L (\<lambda>v m. m\<lparr>body_data := Some v\<rparr>),
        follow = Some 802\<rparr>,
      \<lparr>number = 100, wire = WIRETYPE_LENGTH_DELIMITED,
        parser = ReadMessageNoVirtual L (CSError_MergePartialFromCodedStream L) (mutable_body_error) (\<lambda>v m. m\<lparr>body_error := Some v\<rparr>),
        follow = None\<rparr>]"

definition CSBody_MergePartialFromCodedStream :: "pb_lib \<Rightarrow> CSBody field_parser" where
  "CSBody_MergePartialFromCodedStream L =
     MergePartial L (\<lambda>u m. m\<lparr>body_unknown := body_unknown m @ [u]\<rparr>) (CSBody_fields L)"

definition CSBody_ByteSize :: "pb_lib \<Rightarrow> CSBody \<Rightarrow> int" where
  "CSBody_ByteSize L m =
     size_of (\<lambda>v. 1 + MessageSizeNoVirtual L (CSSyn_ByteSize L v)) (body_syn m)
     + size_of (\<lambda>v. 1 + MessageSizeNoVirtual L (CSSynAck_ByteSize L v)) (body_ack m)
     + size_of (\<lambda>v. 1 + MessageSizeNoVirtual L (CSAuth_ByteSize L v)) (body_auth m)
     + size_of (\<lambda>v. 1 + MessageSizeNoVirtual L (CSPassport_ByteSize L v)) (body_passport m)
     + size_of (\<lambda>v. 1 + MessageSizeNoVirtual L (CSStart_ByteSize L v)) (body_start m)
     + size_of (\<lambda>v. 2 + BytesSize L v) (body_data m)
     + size_of (\<lambda>v. 2 + MessageSizeNoVirtual L (CSError_ByteSize L v)) (body_error m)
     + (if body_unknown m \<noteq> [] then size_unknown L (body_unknown m) else 0)"

definition CSBody_SerializeWithCachedSizesToArray :: "pb_lib \<Rightarrow> CSBody \<Rightarrow> byte list" where
  "CSBody_SerializeWithCachedSizesToArray L m =
     write_if (\<lambda>v. WriteMessageNoVirtualToArray L 1 (CSSyn_ByteSize L v) (CSSyn_SerializeWithCachedSizesToArray L v)) (body_syn m)
     @ write_if (\<lambda>v. WriteMessageNoVirtualToArray L 2 (CSSynAck_ByteSize L v) (CSSynAck_SerializeWithCachedSizesToArray L v)) (body_ack m)
     @ write_if (\<lambda>v. WriteMessageNoVirtualToArray L 3 (CSAuth_ByteSize L v) (CSAuth_SerializeWithCachedSizesToArray L v)) (body_auth m)
     @ write_if (\<lambda>v. WriteMessageNoVirtualToArray L 4 (CSPassport_ByteSize L v) (CSPassport_SerializeWithCachedSizesToArray L v)) (body_passport m)
     @ write_if (\<lambda>v. WriteMessageNoVirtualToArray L 5 (CSStart_ByteSize L v) (CSStart_SerializeWithCachedSizesToArray L v)) (body_start m)
     @ write_if (WriteBytesToArray L 16) (body_data m)
     @ write_if (\<lambda>v. WriteMessageNoVirtualToArray L 100 (CSError_ByteSize L v) (CSError_SerializeWithCachedSizesToArray L v)) (body_error m)
     @ (if body_unknown m \<noteq> [] then write_unknown L (body_unknown m) else [])"

definition CSBody_MergeFrom :: "CSBody \<Rightarrow> CSBody \<Rightarrow> CSBody" where
  "CSBody_MergeFrom m from = m\<lparr>
       body_syn := merge_sub CSSyn_MergeFrom CSSyn_new (body_syn m) (body_syn from),
       body_ack := merge_sub CSSynAck_MergeFrom CSSynAck_new (body_ack m) (body_ack from),
       body_auth := merge_sub CSAuth_MergeFrom CSAuth_new (body_auth m) (body_auth from),
       body_passport := merge_sub CSPassport_MergeFrom CSPassport_new (body_passport m) (body_passport from),
       body_start := merge_sub CSStart_MergeFrom CSStart_new (body_start m) (body_start from),
       body_data := merge_opt (body_data m) (body_data from),
       body_error := merge_sub CSError_MergeFrom CSError_new (body_error m) (body_error from),
       body_unknown := body_unknown m @ body_unknown from\<rparr>"

definition CSBody_CopyFrom :: "CSBody \<Rightarrow> CSBody \<Rightarrow> CSBody" where
  "CSBody_CopyFrom m from = CSBody_MergeFrom (CSBody_Clear m) from"

definition CSBody_IsInitialized :: "CSBody \<Rightarrow> bool" where
  "CSBody_IsInitialized m = ((case body_syn m of None \<Rightarrow> True | Some x \<Rightarrow> CSSyn_IsInitialized x)
     \<and> (case body_ack m of None \<Rightarrow> True | Some x \<Rightarrow> CSSynAck_IsInitialized x)
     \<and> (case body_auth m of None \<Rightarrow> True | Some x \<Rightarrow> CSAuth_IsInitialized x)
     \<and> (case body_error m of None \<Rightarrow> True | Some x \<Rightarrow> CSError_IsInitialized x))"

definition CSBody_Swap :: "CSBody \<Rightarrow> CSBody \<Rightarrow> CSBody \<times> CSBody" where
  "CSBody_Swap m other =
     (m\<lparr>body_syn := body_syn other, body_ack := body_ack other, body_auth := body_auth other, body_passport := body_passport other, body_start := body_start other, body_data := body_data other, body_error := body_error other, body_unknown := body_unknown other\<rparr>,
      other\<lparr>body_syn := body_syn m, body_ack := body_ack m, body_auth := body_auth m, body_passport := body_passport m, body_start := body_start m, body_data := body_data m, body_error := body_error m, body_unknown := body_unknown m\<rparr>)"

section \<open>\<open>CSMsg\<close>\<close>

record CSMsg =
  msg_head :: "CSHead option"
  msg_body :: "CSBody option"
  msg_unknown :: "UnknownField list"

definition CSMsg_new :: CSMsg where
  "CSMsg_new = \<lparr>msg_head = None, msg_body = None, msg_unknown = []\<rparr>"

definition CSMsg_Clear :: "CSMsg \<Rightarrow> CSMsg" where
  "CSMsg_Clear m = m\<lparr>msg_head := None, msg_body := None, msg_unknown := []\<rparr>"

definition mutable_msg_head :: "CSMsg \<Rightarrow> CSHead" where
  "mutable_msg_head m = mutable_or CSHead_new (msg_head m)"

definition mutable_msg_body :: "CSMsg \<Rightarrow> CSBody" where
  "mutable_msg_body m = mutable_or CSBody_new (msg_body m)"

definition CSMsg_fields :: "pb_lib \<Rightarrow> CSMsg pb_field list" where
  "CSMsg_fields L =
     [\<lparr>number = 1, wire = WIRETYPE_LENGTH_DELIMITED,
        parser = ReadMessageNoVirtual L (CSHead_MergePartialFromCodedStream L) (mutable_msg_head) (\<lambda>v m. m\<lparr>msg_head := Some v\<rparr>),
        follow = Some 18\<rparr>,
      \<lparr>number = 2, wire = WIRETYPE_LENGTH_DELIMITED,
        parser = ReadMessageNoVirtual L (CSBody_MergePartialFromCodedStream L) (mutable_msg_body) (\<lambda>v m. m\<lparr>msg_body := Some v\<rparr>),
        follow = None\<rparr>]"

definition CSMsg_MergePartialFromCodedStream :: "pb_lib \<Rightarrow> CSMsg field_parser" where
  "CSMsg_MergePartialFromCodedStream L =
     MergePartial L (\<lambda>u m. m\<lparr>msg_unknown := msg_unknown m @ [u]\<rparr>) (CSMsg_fields L)"

definition CSMsg_ByteSize :: "pb_lib \<Rightarrow> CSMsg \<Rightarrow> int" where
  "CSMsg_ByteSize L m =
     size_of (\<lambda>v. 1 + MessageSizeNoVirtual L (CSHead_ByteSize L v)) (msg_head m)
     + size_of (\<lambda>v. 1 + MessageSizeNoVirtual L (CSBody_ByteSize L v)) (msg_body m)
     + (if msg_unknown m \<noteq> [] then size_unknown L (msg_unknown m) else 0)"

definition CSMsg_SerializeWithCachedSizesToArray :: "pb_lib \<Rightarrow> CSMsg \<Rightarrow> byte list" where
  "CSMsg_SerializeWithCachedSizesToArray L m =
     write_if (\<lambda>v. WriteMessageNoVirtualToArray L 1 (CSHead_ByteSize L v) (CSHead_SerializeWithCachedSizesToArray L v)) (msg_head m)
     @ write_if (\<lambda>v. WriteMessageNoVirtualToArray L 2 (CSBody_ByteSize L v) (CSBody_SerializeWithCachedSizesToArray L v)) (msg_body m)
     @ (if msg_unknown m \<noteq> [] then write_unknown L (msg_unknown m) else [])"

definition CSMsg_MergeFrom :: "CSMsg \<Rightarrow> CSMsg \<Rightarrow> CSMsg" where
  "CSMsg_MergeFrom m from = m\<lparr>
       msg_head := merge_sub CSHead_MergeFrom CSHead_new (msg_head m) (msg_head from),
       msg_body := merge_sub CSBody_MergeFrom CSBody_new (msg_body m) (msg_body from),
       msg_unknown := msg_unknown m @ msg_unknown from\<rparr>"

definition CSMsg_CopyFrom :: "CSMsg \<Rightarrow> CSMsg \<Rightarrow> CSMsg" where
  "CSMsg_CopyFrom m from = CSMsg_MergeFrom (CSMsg_Clear m) from"

definition CSMsg_IsInitialized :: "CSMsg \<Rightarrow> bool" where
  "CSMsg_IsInitialized m = (msg_head m \<noteq> None
     \<and> msg_body m \<noteq> None
     \<and> (case msg_head m of None \<Rightarrow> True | Some x \<Rightarrow> CSHead_IsInitialized x)
     \<and> (case msg_body m of None \<Rightarrow> True | Some x \<Rightarrow> CSBody_IsInitialized x))"

definition CSMsg_Swap :: "CSMsg \<Rightarrow> CSMsg \<Rightarrow> CSMsg \<times> CSMsg" where
  "CSMsg_Swap m other =
     (m\<lparr>msg_head := msg_head other, msg_body := msg_body other, msg_unknown := msg_unknown other\<rparr>,
      other\<lparr>msg_head := msg_head m, msg_body := msg_body m, msg_unknown := msg_unknown m\<rparr>)"

section \<open>The cases fit together\<close>

lemmas tag_simps = tag_of_def MakeTag_def GetTagFieldNumber_def GetTagWireType_def wire_type_code_def

lemmas write_simps = WriteInt32ToArray_def WriteInt64ToArray_def WriteStringToArray_def WriteBytesToArray_def
  WriteMessageNoVirtualToArray_def WriteTagToArray_def

lemma CSHead_generated: "generated (CSHead_fields L)"
  by (simp add: generated_def CSHead_fields_def tag_simps)

lemma CSSyn_generated: "generated (CSSyn_fields L)"
  by (simp add: generated_def CSSyn_fields_def tag_simps)

lemma CSSynAck_generated: "generated (CSSynAck_fields L)"
  by (simp add: generated_def CSSynAck_fields_def tag_simps)

lemma CSAuth_generated: "generated (CSAuth_fields L)"
  by (simp add: generated_def CSAuth_fields_def tag_simps)

lemma CSPassport_generated: "generated (CSPassport_fields L)"
  by (simp add: generated_def CSPassport_fields_def tag_simps)

lemma CSStart_generated: "generated (CSStart_fields L)"
  by (simp add: generated_def CSStart_fields_def tag_simps)

lemma CSError_generated: "generated (CSError_fields L)"
  by (simp add: generated_def CSError_fields_def tag_simps)

lemma CSBody_generated: "generated (CSBody_fields L)"
  by (simp add: generated_def CSBody_fields_def tag_simps)

lemma CSMsg_generated: "generated (CSMsg_fields L)"
  by (simp add: generated_def CSMsg_fields_def tag_simps)

section \<open>Messages without unknown fields\<close>

definition CSHead_plain :: "CSHead \<Rightarrow> bool" where
  "CSHead_plain m = (head_unknown m = [])"

definition CSSyn_plain :: "CSSyn \<Rightarrow> bool" where
  "CSSyn_plain m = (syn_unknown m = [])"

definition CSSynAck_plain :: "CSSynAck \<Rightarrow> bool" where
  "CSSynAck_plain m = (ack_unknown m = [])"

definition CSAuth_plain :: "CSAuth \<Rightarrow> bool" where
  "CSAuth_plain m = (auth_unknown m = [])"

definition CSPassport_plain :: "CSPassport \<Rightarrow> bool" where
  "CSPassport_plain m = (pass_unknown m = [])"

definition CSStart_plain :: "CSStart \<Rightarrow> bool" where
  "CSStart_plain m = (start_unknown m = [])"

definition CSError_plain :: "CSError \<Rightarrow> bool" where
  "CSError_plain m = (err_unknown m = [])"

definition CSBody_plain :: "CSBody \<Rightarrow> bool" where
  "CSBody_plain m = (body_unknown m = []
     \<and> (case body_syn m of None \<Rightarrow> True | Some x \<Rightarrow> CSSyn_plain x)
     \<and> (case body_ack m of None \<Rightarrow> True | Some x \<Rightarrow> CSSynAck_plain x)
     \<and> (case body_auth m of None \<Rightarrow> True | Some x \<Rightarrow> CSAuth_plain x)
     \<and> (case body_passport m of None \<Rightarrow> True | Some x \<Rightarrow> CSPassport_plain x)
     \<and> (case body_start m of None \<Rightarrow> True | Some x \<Rightarrow> CSStart_plain x)
     \<and> (case body_error m of None \<Rightarrow> True | Some x \<Rightarrow> CSError_plain x))"

definition CSMsg_plain :: "CSMsg \<Rightarrow> bool" where
  "CSMsg_plain m = (msg_unknown m = []
     \<and> (case msg_head m of None \<Rightarrow> True | Some x \<Rightarrow> CSHead_plain x)
     \<and> (case msg_body m of None \<Rightarrow> True | Some x \<Rightarrow> CSBody_plain x))"

section \<open>Lengths of fields\<close>

context wire_lib
begin

lemma int32_length: "int (length (WriteInt32NoTagToArray L v)) = Int32Size L v"
proof (cases "v <s 0")
  case True
  then have v: "sint v < 0" "- (2 ^ 31) \<le> sint v"
    using sint_ge [of v] by (simp_all add: word_sless_alt)
  have "(sint v + 2 ^ 64) mod 2 ^ 64 = sint v + 2 ^ 64"
    by (rule mod_pos_pos_trivial) (use v in simp_all)
  then have "sint v mod 2 ^ 64 = sint v + 2 ^ 64"
    by (simp only: mod_add_self2)
  then have "uint (scast v :: 64 word) = sint v + 2 ^ 64"
    by (simp only: scast_eq uint_word_of_int) simp
  then have "2 ^ 63 \<le> unat (scast v :: 64 word)"
    using v by (simp only: unat_eq_nat_uint) simp
  moreover have "unat (scast v :: 64 word) < 2 ^ 64"
    using unsigned_less [where ?'a = nat and w = "scast v :: 64 word"] by simp
  ultimately have "length (varint (unat (scast v :: 64 word))) = 10"
    using varint_length [of 9 "unat (scast v :: 64 word)"] by simp
  with True show ?thesis
    by (simp add: WriteInt32NoTagToArray_def write_signed Int32Size_def VarintSize32SignExtended_def)
next
  case False
  then show ?thesis
    using size32 [of v] by (auto simp: WriteInt32NoTagToArray_def WriteVarint32SignExtendedToArray_def write_varint32
        Int32Size_def VarintSize32SignExtended_def VarintSize32_def varint_one word_less_nat_alt)
qed

lemma int64_length: "int (length (WriteInt64NoTagToArray L v)) = Int64Size L v"
  by (simp add: WriteInt64NoTagToArray_def write64 Int64Size_def size64)

lemma varint32_length: "VarintSize32 L v = int (length (WriteVarint32ToArray L v))"
  using size32 [of v] by (auto simp: write_varint32 VarintSize32_def varint_one word_less_nat_alt)

lemma tag_length:
  "unat (MakeTag n t) < 128 \<Longrightarrow> length (WriteTagToArray L n t) = 1"
  "128 \<le> unat (MakeTag n t) \<Longrightarrow> unat (MakeTag n t) < 2 ^ 14 \<Longrightarrow> length (WriteTagToArray L n t) = 2"
  by (simp_all add: WriteTagToArray_def write_tag varint_one varint_two)

lemma int32_field_size:
  "unat (MakeTag n WIRETYPE_VARINT) < 128 \<Longrightarrow>
   int (length (write_if (WriteInt32ToArray L n) x)) = size_of (\<lambda>v. 1 + Int32Size L v) x"
  by (cases x) (simp_all add: WriteInt32ToArray_def tag_length int32_length)

lemma int64_field_size:
  "unat (MakeTag n WIRETYPE_VARINT) < 128 \<Longrightarrow>
   int (length (write_if (WriteInt64ToArray L n) x)) = size_of (\<lambda>v. 1 + Int64Size L v) x"
  by (cases x) (simp_all add: WriteInt64ToArray_def tag_length int64_length)

lemma string_field_size:
  "unat (MakeTag n WIRETYPE_LENGTH_DELIMITED) < 128 \<Longrightarrow>
   int (length (write_if (WriteStringToArray L n) x)) = size_of (\<lambda>v. 1 + StringSize L v) x"
  by (cases x) (simp_all add: WriteStringToArray_def tag_length StringSize_def varint32_length)

lemma bytes_field_size:
  "128 \<le> unat (MakeTag n WIRETYPE_LENGTH_DELIMITED) \<Longrightarrow> unat (MakeTag n WIRETYPE_LENGTH_DELIMITED) < 2 ^ 14 \<Longrightarrow>
   int (length (write_if (WriteBytesToArray L n) x)) = size_of (\<lambda>v. 2 + BytesSize L v) x"
  by (cases x) (simp_all add: WriteBytesToArray_def tag_length BytesSize_def varint32_length)

lemmas field_sizes = int32_field_size int64_field_size string_field_size bytes_field_size

lemma message_sizes:
  assumes "\<And>v. x = Some v \<Longrightarrow> sz v = int (length (ser v))"
  shows "unat (MakeTag n WIRETYPE_LENGTH_DELIMITED) < 128 \<Longrightarrow>
      int (length (write_if (\<lambda>v. WriteMessageNoVirtualToArray L n (sz v) (ser v)) x))
        = size_of (\<lambda>v. 1 + MessageSizeNoVirtual L (sz v)) x"
    and "128 \<le> unat (MakeTag n WIRETYPE_LENGTH_DELIMITED) \<Longrightarrow> unat (MakeTag n WIRETYPE_LENGTH_DELIMITED) < 2 ^ 14 \<Longrightarrow>
      int (length (write_if (\<lambda>v. WriteMessageNoVirtualToArray L n (sz v) (ser v)) x))
        = size_of (\<lambda>v. 2 + MessageSizeNoVirtual L (sz v)) x"
  using assms
  by (cases x; simp add: WriteMessageNoVirtualToArray_def tag_length MessageSizeNoVirtual_def LengthDelimitedSize_def
      varint32_length)+

end

section \<open>Parsing what was serialized\<close>

context wire_lib
begin

text \<open>\<open>CSHead\<close>: one field, the whole message, its size.\<close>

lemma head_magic_step:
  "CSHead_MergePartialFromCodedStream L (stream d (write_if (WriteInt32ToArray L 1) x @ r)) m
     = CSHead_MergePartialFromCodedStream L (stream d r) (m\<lparr>head_magic := merge_opt (head_magic m) x\<rparr>)"
proof (cases x)
  case None
  then show ?thesis by (cases m) simp
next
  case (Some v)
  then show ?thesis
    by (simp add: CSHead_MergePartialFromCodedStream_def, intro field_step [OF CSHead_generated, where i = 0])
      (simp_all add: CSHead_fields_def tag_of_def write_simps write_tag, rule int32_step)
qed

lemma head_sequence_step:
  "CSHead_MergePartialFromCodedStream L (stream d (write_if (WriteInt64ToArray L 2) x @ r)) m
     = CSHead_MergePartialFromCodedStream L (stream d r) (m\<lparr>head_sequence := merge_opt (head_sequence m) x\<rparr>)"
proof (cases x)
  case None
  then show ?thesis by (cases m) simp
next
  case (Some v)
  then show ?thesis
    by (simp add: CSHead_MergePartialFromCodedStream_def, intro field_step [OF CSHead_generated, where i = 1])
      (simp_all add: CSHead_fields_def tag_of_def write_simps write_tag, rule int64_step)
qed

lemma head_bodyid_step:
  "CSHead_MergePartialFromCodedStream L (stream d (write_if (WriteInt32ToArray L 3) x @ r)) m
     = CSHead_MergePartialFromCodedStream L (stream d r) (m\<lparr>head_bodyid := merge_opt (head_bodyid m) x\<rparr>)"
proof (cases x)
  case None
  then show ?thesis by (cases m) simp
next
  case (Some v)
  then show ?thesis
    by (simp add: CSHead_MergePartialFromCodedStream_def, intro field_step [OF CSHead_generated, where i = 2])
      (simp_all add: CSHead_fields_def tag_of_def write_simps write_tag, rule int32_step)
qed

lemma CSHead_size:
  assumes plain: "CSHead_plain m"
    and len: "length (CSHead_SerializeWithCachedSizesToArray L m) < 2 ^ 31"
  shows "CSHead_ByteSize L m = int (length (CSHead_SerializeWithCachedSizesToArray L m))"
proof -
  show ?thesis
    using plain
    by (simp add: CSHead_ByteSize_def CSHead_SerializeWithCachedSizesToArray_def CSHead_plain_def field_sizes MakeTag_def wire_type_code_def)
qed

lemma CSHead_law:
  assumes plain: "CSHead_plain m"
    and len: "length (CSHead_SerializeWithCachedSizesToArray L m) < 2 ^ 31"
  shows "CSHead_MergePartialFromCodedStream L (stream d (CSHead_SerializeWithCachedSizesToArray L m @ r)) acc
    = CSHead_MergePartialFromCodedStream L (stream d r) (CSHead_MergeFrom acc m)"
proof -
  show ?thesis
    using plain
    by (cases acc) (simp add: CSHead_SerializeWithCachedSizesToArray_def CSHead_plain_def CSHead_MergeFrom_def
        head_magic_step
        head_sequence_step
        head_bodyid_step)
qed

lemma CSHead_parses:
  assumes plain: "CSHead_plain m"
    and len: "length (CSHead_SerializeWithCachedSizesToArray L m) < 2 ^ 31"
  shows "CSHead_MergePartialFromCodedStream L (stream d (CSHead_SerializeWithCachedSizesToArray L m)) acc = Some (True, CSHead_MergeFrom acc m, stream_end d)"
  using CSHead_law [OF assms, where r = "[]" and acc = acc] by (simp add: CSHead_MergePartialFromCodedStream_def merge_at_end)

text \<open>\<open>CSSyn\<close>: one field, the whole message, its size.\<close>

lemma syn_appid_step:
  assumes small: "\<And>v. x = Some v \<Longrightarrow> length v < 2 ^ 31"
  shows "CSSyn_MergePartialFromCodedStream L (stream d (write_if (WriteStringToArray L 1) x @ r)) m
     = CSSyn_MergePartialFromCodedStream L (stream d r) (m\<lparr>syn_appid := merge_opt (syn_appid m) x\<rparr>)"
proof (cases x)
  case None
  then show ?thesis by (cases m) simp
next
  case (Some v)
  then show ?thesis
    by (simp add: CSSyn_MergePartialFromCodedStream_def, intro field_step [OF CSSyn_generated, where i = 0])
      (simp_all add: CSSyn_fields_def tag_of_def write_simps write_tag, rule string_step [OF small [OF Some]])
qed

lemma syn_openid_step:
  assumes small: "\<And>v. x = Some v \<Longrightarrow> length v < 2 ^ 31"
  shows "CSSyn_MergePartialFromCodedStream L (stream d (write_if (WriteStringToArray L 2) x @ r)) m
     = CSSyn_MergePartialFromCodedStream L (stream d r) (m\<lparr>syn_openid := merge_opt (syn_openid m) x\<rparr>)"
proof (cases x)
  case None
  then show ?thesis by (cases m) simp
next
  case (Some v)
  then show ?thesis
    by (simp add: CSSyn_MergePartialFromCodedStream_def, intro field_step [OF CSSyn_generated, where i = 1])
      (simp_all add: CSSyn_fields_def tag_of_def write_simps write_tag, rule string_step [OF small [OF Some]])
qed

lemma CSSyn_size:
  assumes plain: "CSSyn_plain m"
    and len: "length (CSSyn_SerializeWithCachedSizesToArray L m) < 2 ^ 31"
  shows "CSSyn_ByteSize L m = int (length (CSSyn_SerializeWithCachedSizesToArray L m))"
proof -
  show ?thesis
    using plain
    by (simp add: CSSyn_ByteSize_def CSSyn_SerializeWithCachedSizesToArray_def CSSyn_plain_def field_sizes MakeTag_def wire_type_code_def)
qed

lemma CSSyn_law:
  assumes plain: "CSSyn_plain m"
    and len: "length (CSSyn_SerializeWithCachedSizesToArray L m) < 2 ^ 31"
  shows "CSSyn_MergePartialFromCodedStream L (stream d (CSSyn_SerializeWithCachedSizesToArray L m @ r)) acc
    = CSSyn_MergePartialFromCodedStream L (stream d r) (CSSyn_MergeFrom acc m)"
proof -
  have appid: "length v < 2 ^ 31" if "syn_appid m = Some v" for v
    using len that by (simp add: CSSyn_SerializeWithCachedSizesToArray_def write_simps)
  have openid: "length v < 2 ^ 31" if "syn_openid m = Some v" for v
    using len that by (simp add: CSSyn_SerializeWithCachedSizesToArray_def write_simps)
  show ?thesis
    using plain
    by (cases acc) (simp add: CSSyn_SerializeWithCachedSizesToArray_def CSSyn_plain_def CSSyn_MergeFrom_def
        syn_appid_step [of "syn_appid m", OF appid]
        syn_openid_step [of "syn_openid m", OF openid])
qed

lemma CSSyn_parses:
  assumes plain: "CSSyn_plain m"
    and len: "length (CSSyn_SerializeWithCachedSizesToArray L m) < 2 ^ 31"
  shows "CSSyn_MergePartialFromCodedStream L (stream d (CSSyn_SerializeWithCachedSizesToArray L m)) acc = Some (True, CSSyn_MergeFrom acc m, stream_end d)"
  using CSSyn_law [OF assms, where r = "[]" and acc = acc] by (simp add: CSSyn_MergePartialFromCodedStream_def merge_at_end)

text \<open>\<open>CSSynAck\<close>: one field, the whole message, its size.\<close>

lemma ack_secretkey_step:
  assumes small: "\<And>v. x = Some v \<Longrightarrow> length v < 2 ^ 31"
  shows "CSSynAck_MergePartialFromCodedStream L (stream d (write_if (WriteStringToArray L 1) x @ r)) m
     = CSSynAck_MergePartialFromCodedStream L (stream d r) (m\<lparr>ack_secretkey := merge_opt (ack_secretkey m) x\<rparr>)"
proof (cases x)
  case None
  then show ?thesis by (cases m) simp
next
  case (Some v)
  then show ?thesis
    by (simp add: CSSynAck_MergePartialFromCodedStream_def, intro field_step [OF CSSynAck_generated, where i = 0])
      (simp_all add: CSSynAck_fields_def tag_of_def write_simps write_tag, rule string_step [OF small [OF Some]])
qed

lemma CSSynAck_size:
  assumes plain: "CSSynAck_plain m"
    and len: "length (CSSynAck_SerializeWithCachedSizesToArray L m) < 2 ^ 31"
  shows "CSSynAck_ByteSize L m = int (length (CSSynAck_SerializeWithCachedSizesToArray L m))"
proof -
  show ?thesis
    using plain
    by (simp add: CSSynAck_ByteSize_def CSSynAck_SerializeWithCachedSizesToArray_def CSSynAck_plain_def field_sizes MakeTag_def wire_type_code_def)
qed

lemma CSSynAck_law:
  assumes plain: "CSSynAck_plain m"
    and len: "length (CSSynAck_SerializeWithCachedSizesToArray L m) < 2 ^ 31"
  shows "CSSynAck_MergePartialFromCodedStream L (stream d (CSSynAck_SerializeWithCachedSizesToArray L m @ r)) acc
    = CSSynAck_MergePartialFromCodedStream L (stream d r) (CSSynAck_MergeFrom acc m)"
proof -
  have secretkey: "length v < 2 ^ 31" if "ack_secretkey m = Some v" for v
    using len that by (simp add: CSSynAck_SerializeWithCachedSizesToArray_def write_simps)
  show ?thesis
    using plain
    by (cases acc) (simp add: CSSynAck_SerializeWithCachedSizesToArray_def CSSynAck_plain_def CSSynAck_MergeFrom_def
        ack_secretkey_step [of "ack_secretkey m", OF secretkey])
qed

lemma CSSynAck_parses:
  assumes plain: "CSSynAck_plain m"
    and len: "length (CSSynAck_SerializeWithCachedSizesToArray L m) < 2 ^ 31"
  shows "CSSynAck_MergePartialFromCodedStream L (stream d (CSSynAck_SerializeWithCachedSizesToArray L m)) acc = Some (True, CSSynAck_MergeFrom acc m, stream_end d)"
  using CSSynAck_law [OF assms, where r = "[]" and acc = acc] by (simp add: CSSynAck_MergePartialFromCodedStream_def merge_at_end)

text \<open>\<open>CSAuth\<close>: one field, the whole message, its size.\<close>

lemma auth_token_step:
  assumes small: "\<And>v. x = Some v \<Longrightarrow> length v < 2 ^ 31"
  shows "CSAuth_MergePartialFromCodedStream L (stream d (write_if (WriteStringToArray L 1) x @ r)) m
     = CSAuth_MergePartialFromCodedStream L (stream d r) (m\<lparr>auth_token := merge_opt (auth_token m) x\<rparr>)"
proof (cases x)
  case None
  then show ?thesis by (cases m) simp
next
  case (Some v)
  then show ?thesis
    by (simp add: CSAuth_MergePartialFromCodedStream_def, intro field_step [OF CSAuth_generated, where i = 0])
      (simp_all add: CSAuth_fields_def tag_of_def write_simps write_tag, rule string_step [OF small [OF Some]])
qed

lemma CSAuth_size:
  assumes plain: "CSAuth_plain m"
    and len: "length (CSAuth_SerializeWithCachedSizesToArray L m) < 2 ^ 31"
  shows "CSAuth_ByteSize L m = int (length (CSAuth_SerializeWithCachedSizesToArray L m))"
proof -
  show ?thesis
    using plain
    by (simp add: CSAuth_ByteSize_def CSAuth_SerializeWithCachedSizesToArray_def CSAuth_plain_def field_sizes MakeTag_def wire_type_code_def)
qed

lemma CSAuth_law:
  assumes plain: "CSAuth_plain m"
    and len: "length (CSAuth_SerializeWithCachedSizesToArray L m) < 2 ^ 31"
  shows "CSAuth_MergePartialFromCodedStream L (stream d (CSAuth_SerializeWithCachedSizesToArray L m @ r)) acc
    = CSAuth_MergePartialFromCodedStream L (stream d r) (CSAuth_MergeFrom acc m)"
proof -
  have token: "length v < 2 ^ 31" if "auth_token m = Some v" for v
    using len that by (simp add: CSAuth_SerializeWithCachedSizesToArray_def write_simps)
  show ?thesis
    using plain
    by (cases acc) (simp add: CSAuth_SerializeWithCachedSizesToArray_def CSAuth_plain_def CSAuth_MergeFrom_def
        auth_token_step [of "auth_token m", OF token])
qed

lemma CSAuth_parses:
  assumes plain: "CSAuth_plain m"
    and len: "length (CSAuth_SerializeWithCachedSizesToArray L m) < 2 ^ 31"
  shows "CSAuth_MergePartialFromCodedStream L (stream d (CSAuth_SerializeWithCachedSizesToArray L m)) acc = Some (True, CSAuth_MergeFrom acc m, stream_end d)"
  using CSAuth_law [OF assms, where r = "[]" and acc = acc] by (simp add: CSAuth_MergePartialFromCodedStream_def merge_at_end)

text \<open>\<open>CSPassport\<close>: one field, the whole message, its size.\<close>

lemma pass_passport_step:
  "CSPassport_MergePartialFromCodedStream L (stream d (write_if (WriteInt64ToArray L 1) x @ r)) m
     = CSPassport_MergePartialFromCodedStream L (stream d r) (m\<lparr>pass_passport := merge_opt (pass_passport m) x\<rparr>)"
proof (cases x)
  case None
  then show ?thesis by (cases m) simp
next
  case (Some v)
  then show ?thesis
    by (simp add: CSPassport_MergePartialFromCodedStream_def, intro field_step [OF CSPassport_generated, where i = 0])
      (simp_all add: CSPassport_fields_def tag_of_def write_simps write_tag, rule int64_step)
qed

lemma CSPassport_size:
  assumes plain: "CSPassport_plain m"
    and len: "length (CSPassport_SerializeWithCachedSizesToArray L m) < 2 ^ 31"
  shows "CSPassport_ByteSize L m = int (length (CSPassport_SerializeWithCachedSizesToArray L m))"
proof -
  show ?thesis
    using plain
    by (simp add: CSPassport_ByteSize_def CSPassport_SerializeWithCachedSizesToArray_def CSPassport_plain_def field_sizes MakeTag_def wire_type_code_def)
qed

lemma CSPassport_law:
  assumes plain: "CSPassport_plain m"
    and len: "length (CSPassport_SerializeWithCachedSizesToArray L m) < 2 ^ 31"
  shows "CSPassport_MergePartialFromCodedStream L (stream d (CSPassport_SerializeWithCachedSizesToArray L m @ r)) acc
    = CSPassport_MergePartialFromCodedStream L (stream d r) (CSPassport_MergeFrom acc m)"
proof -
  show ?thesis
    using plain
    by (cases acc) (simp add: CSPassport_SerializeWithCachedSizesToArray_def CSPassport_plain_def CSPassport_MergeFrom_def
        pass_passport_step)
qed

lemma CSPassport_parses:
  assumes plain: "CSPassport_plain m"
    and len: "length (CSPassport_SerializeWithCachedSizesToArray L m) < 2 ^ 31"
  shows "CSPassport_MergePartialFromCodedStream L (stream d (CSPassport_SerializeWithCachedSizesToArray L m)) acc = Some (True, CSPassport_MergeFrom acc m, stream_end d)"
  using CSPassport_law [OF assms, where r = "[]" and acc = acc] by (simp add: CSPassport_MergePartialFromCodedStream_def merge_at_end)

text \<open>\<open>CSStart\<close>: one field, the whole message, its size.\<close>

lemma start_code_step:
  "CSStart_MergePartialFromCodedStream L (stream d (write_if (WriteInt32ToArray L 1) x @ r)) m
     = CSStart_MergePartialFromCodedStream L (stream d r) (m\<lparr>start_code := merge_opt (start_code m) x\<rparr>)"
proof (cases x)
  case None
  then show ?thesis by (cases m) simp
next
  case (Some v)
  then show ?thesis
    by (simp add: CSStart_MergePartialFromCodedStream_def, intro field_step [OF CSStart_generated, where i = 0])
      (simp_all add: CSStart_fields_def tag_of_def write_simps write_tag, rule int32_step)
qed

lemma CSStart_size:
  assumes plain: "CSStart_plain m"
    and len: "length (CSStart_SerializeWithCachedSizesToArray L m) < 2 ^ 31"
  shows "CSStart_ByteSize L m = int (length (CSStart_SerializeWithCachedSizesToArray L m))"
proof -
  show ?thesis
    using plain
    by (simp add: CSStart_ByteSize_def CSStart_SerializeWithCachedSizesToArray_def CSStart_plain_def field_sizes MakeTag_def wire_type_code_def)
qed

lemma CSStart_law:
  assumes plain: "CSStart_plain m"
    and len: "length (CSStart_SerializeWithCachedSizesToArray L m) < 2 ^ 31"
  shows "CSStart_MergePartialFromCodedStream L (stream d (CSStart_SerializeWithCachedSizesToArray L m @ r)) acc
    = CSStart_MergePartialFromCodedStream L (stream d r) (CSStart_MergeFrom acc m)"
proof -
  show ?thesis
    using plain
    by (cases acc) (simp add: CSStart_SerializeWithCachedSizesToArray_def CSStart_plain_def CSStart_MergeFrom_def
        start_code_step)
qed

lemma CSStart_parses:
  assumes plain: "CSStart_plain m"
    and len: "length (CSStart_SerializeWithCachedSizesToArray L m) < 2 ^ 31"
  shows "CSStart_MergePartialFromCodedStream L (stream d (CSStart_SerializeWithCachedSizesToArray L m)) acc = Some (True, CSStart_MergeFrom acc m, stream_end d)"
  using CSStart_law [OF assms, where r = "[]" and acc = acc] by (simp add: CSStart_MergePartialFromCodedStream_def merge_at_end)

text \<open>\<open>CSError\<close>: one field, the whole message, its size.\<close>

lemma err_code_step:
  "CSError_MergePartialFromCodedStream L (stream d (write_if (WriteInt32ToArray L 1) x @ r)) m
     = CSError_MergePartialFromCodedStream L (stream d r) (m\<lparr>err_code := merge_opt (err_code m) x\<rparr>)"
proof (cases x)
  case None
  then show ?thesis by (cases m) simp
next
  case (Some v)
  then show ?thesis
    by (simp add: CSError_MergePartialFromCodedStream_def, intro field_step [OF CSError_generated, where i = 0])
      (simp_all add: CSError_fields_def tag_of_def write_simps write_tag, rule int32_step)
qed

lemma err_desc_step:
  assumes small: "\<And>v. x = Some v \<Longrightarrow> length v < 2 ^ 31"
  shows "CSError_MergePartialFromCodedStream L (stream d (write_if (WriteStringToArray L 2) x @ r)) m
     = CSError_MergePartialFromCodedStream L (stream d r) (m\<lparr>err_desc := merge_opt (err_desc m) x\<rparr>)"
proof (cases x)
  case None
  then show ?thesis by (cases m) simp
next
  case (Some v)
  then show ?thesis
    by (simp add: CSError_MergePartialFromCodedStream_def, intro field_step [OF CSError_generated, where i = 1])
      (simp_all add: CSError_fields_def tag_of_def write_simps write_tag, rule string_step [OF small [OF Some]])
qed

lemma CSError_size:
  assumes plain: "CSError_plain m"
    and len: "length (CSError_SerializeWithCachedSizesToArray L m) < 2 ^ 31"
  shows "CSError_ByteSize L m = int (length (CSError_SerializeWithCachedSizesToArray L m))"
proof -
  show ?thesis
    using plain
    by (simp add: CSError_ByteSize_def CSError_SerializeWithCachedSizesToArray_def CSError_plain_def field_sizes MakeTag_def wire_type_code_def)
qed

lemma CSError_law:
  assumes plain: "CSError_plain m"
    and len: "length (CSError_SerializeWithCachedSizesToArray L m) < 2 ^ 31"
  shows "CSError_MergePartialFromCodedStream L (stream d (CSError_SerializeWithCachedSizesToArray L m @ r)) acc
    = CSError_MergePartialFromCodedStream L (stream d r) (CSError_MergeFrom acc m)"
proof -
  have desc: "length v < 2 ^ 31" if "err_desc m = Some v" for v
    using len that by (simp add: CSError_SerializeWithCachedSizesToArray_def write_simps)
  show ?thesis
    using plain
    by (cases acc) (simp add: CSError_SerializeWithCachedSizesToArray_def CSError_plain_def CSError_MergeFrom_def
        err_code_step
        err_desc_step [of "err_desc m", OF desc])
qed

lemma CSError_parses:
  assumes plain: "CSError_plain m"
    and len: "length (CSError_SerializeWithCachedSizesToArray L m) < 2 ^ 31"
  shows "CSError_MergePartialFromCodedStream L (stream d (CSError_SerializeWithCachedSizesToArray L m)) acc = Some (True, CSError_MergeFrom acc m, stream_end d)"
  using CSError_law [OF assms, where r = "[]" and acc = acc] by (simp add: CSError_MergePartialFromCodedStream_def merge_at_end)

text \<open>\<open>CSBody\<close>: one field, the whole message, its size.\<close>

lemma body_syn_step:
  assumes d: "0 \<le> d" "d < 100"
    and nested: "\<And>v. x = Some v \<Longrightarrow> length (CSSyn_SerializeWithCachedSizesToArray L v) < 2 ^ 31"
      "\<And>v. x = Some v \<Longrightarrow> CSSyn_ByteSize L v = int (length (CSSyn_SerializeWithCachedSizesToArray L v))"
      "\<And>v acc. x = Some v \<Longrightarrow> CSSyn_MergePartialFromCodedStream L (stream (d + 1) (CSSyn_SerializeWithCachedSizesToArray L v)) acc
         = Some (True, CSSyn_MergeFrom acc v, stream_end (d + 1))"
  shows "CSBody_MergePartialFromCodedStream L (stream d (write_if (\<lambda>v. WriteMessageNoVirtualToArray L 1 (CSSyn_ByteSize L v) (CSSyn_SerializeWithCachedSizesToArray L v)) x @ r)) m
     = CSBody_MergePartialFromCodedStream L (stream d r) (m\<lparr>body_syn := merge_sub CSSyn_MergeFrom CSSyn_new (body_syn m) x\<rparr>)"
proof (cases x)
  case None
  then show ?thesis by (cases m) simp
next
  case (Some v)
  then show ?thesis
    by (simp add: CSBody_MergePartialFromCodedStream_def, intro field_step [OF CSBody_generated, where i = 0])
      (simp_all add: CSBody_fields_def tag_of_def write_simps write_tag nested(2) [OF Some] mutable_body_syn_def [symmetric], rule message_step, rule nested(1) [OF Some], rule d(1), rule d(2), rule nested(3) [OF Some])
qed

lemma body_ack_step:
  assumes d: "0 \<le> d" "d < 100"
    and nested: "\<And>v. x = Some v \<Longrightarrow> length (CSSynAck_SerializeWithCachedSizesToArray L v) < 2 ^ 31"
      "\<And>v. x = Some v \<Longrightarrow> CSSynAck_ByteSize L v = int (length (CSSynAck_SerializeWithCachedSizesToArray L v))"
      "\<And>v acc. x = Some v \<Longrightarrow> CSSynAck_MergePartialFromCodedStream L (stream (d + 1) (CSSynAck_SerializeWithCachedSizesToArray L v)) acc
         = Some (True, CSSynAck_MergeFrom acc v, stream_end (d + 1))"
  shows "CSBody_MergePartialFromCodedStream L (stream d (write_if (\<lambda>v. WriteMessageNoVirtualToArray L 2 (CSSynAck_ByteSize L v) (CSSynAck_SerializeWithCachedSizesToArray L v)) x @ r)) m
     = CSBody_MergePartialFromCodedStream L (stream d r) (m\<lparr>body_ack := merge_sub CSSynAck_MergeFrom CSSynAck_new (body_ack m) x\<rparr>)"
proof (cases x)
  case None
  then show ?thesis by (cases m) simp
next
  case (Some v)
  then show ?thesis
    by (simp add: CSBody_MergePartialFromCodedStream_def, intro field_step [OF CSBody_generated, where i = 1])
      (simp_all add: CSBody_fields_def tag_of_def write_simps write_tag nested(2) [OF Some] mutable_body_ack_def [symmetric], rule message_step, rule nested(1) [OF Some], rule d(1), rule d(2), rule nested(3) [OF Some])
qed

lemma body_auth_step:
  assumes d: "0 \<le> d" "d < 100"
    and nested: "\<And>v. x = Some v \<Longrightarrow> length (CSAuth_SerializeWithCachedSizesToArray L v) < 2 ^ 31"
      "\<And>v. x = Some v \<Longrightarrow> CSAuth_ByteSize L v = int (length (CSAuth_SerializeWithCachedSizesToArray L v))"
      "\<And>v acc. x = Some v \<Longrightarrow> CSAuth_MergePartialFromCodedStream L (stream (d + 1) (CSAuth_SerializeWithCachedSizesToArray L v)) acc
         = Some (True, CSAuth_MergeFrom acc v, stream_end (d + 1))"
  shows "CSBody_MergePartialFromCodedStream L (stream d (write_if (\<lambda>v. WriteMessageNoVirtualToArray L 3 (CSAuth_ByteSize L v) (CSAuth_SerializeWithCachedSizesToArray L v)) x @ r)) m
     = CSBody_MergePartialFromCodedStream L (stream d r) (m\<lparr>body_auth := merge_sub CSAuth_MergeFrom CSAuth_new (body_auth m) x\<rparr>)"
proof (cases x)
  case None
  then show ?thesis by (cases m) simp
next
  case (Some v)
  then show ?thesis
    by (simp add: CSBody_MergePartialFromCodedStream_def, intro field_step [OF CSBody_generated, where i = 2])
      (simp_all add: CSBody_fields_def tag_of_def write_simps write_tag nested(2) [OF Some] mutable_body_auth_def [symmetric], rule message_step, rule nested(1) [OF Some], rule d(1), rule d(2), rule nested(3) [OF Some])
qed

lemma body_passport_step:
  assumes d: "0 \<le> d" "d < 100"
    and nested: "\<And>v. x = Some v \<Longrightarrow> length (CSPassport_SerializeWithCachedSizesToArray L v) < 2 ^ 31"
      "\<And>v. x = Some v \<Longrightarrow> CSPassport_ByteSize L v = int (length (CSPassport_SerializeWithCachedSizesToArray L v))"
      "\<And>v acc. x = Some v \<Longrightarrow> CSPassport_MergePartialFromCodedStream L (stream (d + 1) (CSPassport_SerializeWithCachedSizesToArray L v)) acc
         = Some (True, CSPassport_MergeFrom acc v, stream_end (d + 1))"
  shows "CSBody_MergePartialFromCodedStream L (stream d (write_if (\<lambda>v. WriteMessageNoVirtualToArray L 4 (CSPassport_ByteSize L v) (CSPassport_SerializeWithCachedSizesToArray L v)) x @ r)) m
     = CSBody_MergePartialFromCodedStream L (stream d r) (m\<lparr>body_passport := merge_sub CSPassport_MergeFrom CSPassport_new (body_passport m) x\<rparr>)"
proof (cases x)
  case None
  then show ?thesis by (cases m) simp
next
  case (Some v)
  then show ?thesis
    by (simp add: CSBody_MergePartialFromCodedStream_def, intro field_step [OF CSBody_generated, where i = 3])
      (simp_all add: CSBody_fields_def tag_of_def write_simps write_tag nested(2) [OF Some] mutable_body_passport_def [symmetric], rule message_step, rule nested(1) [OF Some], rule d(1), rule d(2), rule nested(3) [OF Some])
qed

lemma body_start_step:
  assumes d: "0 \<le> d" "d < 100"
    and nested: "\<And>v. x = Some v \<Longrightarrow> length (CSStart_SerializeWithCachedSizesToArray L v) < 2 ^ 31"
      "\<And>v. x = Some v \<Longrightarrow> CSStart_ByteSize L v = int (length (CSStart_SerializeWithCachedSizesToArray L v))"
      "\<And>v acc. x = Some v \<Longrightarrow> CSStart_MergePartialFromCodedStream L (stream (d + 1) (CSStart_SerializeWithCachedSizesToArray L v)) acc
         = Some (True, CSStart_MergeFrom acc v, stream_end (d + 1))"
  shows "CSBody_MergePartialFromCodedStream L (stream d (write_if (\<lambda>v. WriteMessageNoVirtualToArray L 5 (CSStart_ByteSize L v) (CSStart_SerializeWithCachedSizesToArray L v)) x @ r)) m
     = CSBody_MergePartialFromCodedStream L (stream d r) (m\<lparr>body_start := merge_sub CSStart_MergeFrom CSStart_new (body_start m) x\<rparr>)"
proof (cases x)
  case None
  then show ?thesis by (cases m) simp
next
  case (Some v)
  then show ?thesis
    by (simp add: CSBody_MergePartialFromCodedStream_def, intro field_step [OF CSBody_generated, where i = 4])
      (simp_all add: CSBody_fields_def tag_of_def write_simps write_tag nested(2) [OF Some] mutable_body_start_def [symmetric], rule message_step, rule nested(1) [OF Some], rule d(1), rule d(2), rule nested(3) [OF Some])
qed

lemma body_data_step:
  assumes small: "\<And>v. x = Some v \<Longrightarrow> length v < 2 ^ 31"
  shows "CSBody_MergePartialFromCodedStream L (stream d (write_if (WriteBytesToArray L 16) x @ r)) m
     = CSBody_MergePartialFromCodedStream L (stream d r) (m\<lparr>body_data := merge_opt (body_data m) x\<rparr>)"
proof (cases x)
  case None
  then show ?thesis by (cases m) simp
next
  case (Some v)
  then show ?thesis
    by (simp add: CSBody_MergePartialFromCodedStream_def, intro field_step [OF CSBody_generated, where i = 5])
      (simp_all add: CSBody_fields_def tag_of_def write_simps write_tag, rule string_step [OF small [OF Some]])
qed

lemma body_error_step:
  assumes d: "0 \<le> d" "d < 100"
    and nested: "\<And>v. x = Some v \<Longrightarrow> length (CSError_SerializeWithCachedSizesToArray L v) < 2 ^ 31"
      "\<And>v. x = Some v \<Longrightarrow> CSError_ByteSize L v = int (length (CSError_SerializeWithCachedSizesToArray L v))"
      "\<And>v acc. x = Some v \<Longrightarrow> CSError_MergePartialFromCodedStream L (stream (d + 1) (CSError_SerializeWithCachedSizesToArray L v)) acc
         = Some (True, CSError_MergeFrom acc v, stream_end (d + 1))"
  shows "CSBody_MergePartialFromCodedStream L (stream d (write_if (\<lambda>v. WriteMessageNoVirtualToArray L 100 (CSError_ByteSize L v) (CSError_SerializeWithCachedSizesToArray L v)) x @ r)) m
     = CSBody_MergePartialFromCodedStream L (stream d r) (m\<lparr>body_error := merge_sub CSError_MergeFrom CSError_new (body_error m) x\<rparr>)"
proof (cases x)
  case None
  then show ?thesis by (cases m) simp
next
  case (Some v)
  then show ?thesis
    by (simp add: CSBody_MergePartialFromCodedStream_def, intro field_step [OF CSBody_generated, where i = 6])
      (simp_all add: CSBody_fields_def tag_of_def write_simps write_tag nested(2) [OF Some] mutable_body_error_def [symmetric], rule message_step, rule nested(1) [OF Some], rule d(1), rule d(2), rule nested(3) [OF Some])
qed

lemma CSBody_size:
  assumes plain: "CSBody_plain m"
    and len: "length (CSBody_SerializeWithCachedSizesToArray L m) < 2 ^ 31"
  shows "CSBody_ByteSize L m = int (length (CSBody_SerializeWithCachedSizesToArray L m))"
proof -
  have syn: "CSSyn_ByteSize L v = int (length (CSSyn_SerializeWithCachedSizesToArray L v))" if "body_syn m = Some v" for v
    using CSSyn_size [of v] len plain that by (simp add: CSBody_SerializeWithCachedSizesToArray_def CSBody_plain_def write_simps)
  have ack: "CSSynAck_ByteSize L v = int (length (CSSynAck_SerializeWithCachedSizesToArray L v))" if "body_ack m = Some v" for v
    using CSSynAck_size [of v] len plain that by (simp add: CSBody_SerializeWithCachedSizesToArray_def CSBody_plain_def write_simps)
  have auth: "CSAuth_ByteSize L v = int (length (CSAuth_SerializeWithCachedSizesToArray L v))" if "body_auth m = Some v" for v
    using CSAuth_size [of v] len plain that by (simp add: CSBody_SerializeWithCachedSizesToArray_def CSBody_plain_def write_simps)
  have passport: "CSPassport_ByteSize L v = int (length (CSPassport_SerializeWithCachedSizesToArray L v))" if "body_passport m = Some v" for v
    using CSPassport_size [of v] len plain that by (simp add: CSBody_SerializeWithCachedSizesToArray_def CSBody_plain_def write_simps)
  have start: "CSStart_ByteSize L v = int (length (CSStart_SerializeWithCachedSizesToArray L v))" if "body_start m = Some v" for v
    using CSStart_size [of v] len plain that by (simp add: CSBody_SerializeWithCachedSizesToArray_def CSBody_plain_def write_simps)
  have error: "CSError_ByteSize L v = int (length (CSError_SerializeWithCachedSizesToArray L v))" if "body_error m = Some v" for v
    using CSError_size [of v] len plain that by (simp add: CSBody_SerializeWithCachedSizesToArray_def CSBody_plain_def write_simps)
  show ?thesis
    using plain
    by (simp add: CSBody_ByteSize_def CSBody_SerializeWithCachedSizesToArray_def CSBody_plain_def field_sizes MakeTag_def wire_type_code_def
        message_sizes [OF syn]
        message_sizes [OF ack]
        message_sizes [OF auth]
        message_sizes [OF passport]
        message_sizes [OF start]
        message_sizes [OF error])
qed

lemma CSBody_law:
  assumes plain: "CSBody_plain m"
    and len: "length (CSBody_SerializeWithCachedSizesToArray L m) < 2 ^ 31"
    and d: "0 \<le> d" "d < 100"
  shows "CSBody_MergePartialFromCodedStream L (stream d (CSBody_SerializeWithCachedSizesToArray L m @ r)) acc
    = CSBody_MergePartialFromCodedStream L (stream d r) (CSBody_MergeFrom acc m)"
proof -
  have data: "length v < 2 ^ 31" if "body_data m = Some v" for v
    using len that by (simp add: CSBody_SerializeWithCachedSizesToArray_def write_simps)
  have syn: "CSSyn_plain v" "length (CSSyn_SerializeWithCachedSizesToArray L v) < 2 ^ 31" if "body_syn m = Some v" for v
    using len plain that by (simp_all add: CSBody_SerializeWithCachedSizesToArray_def CSBody_plain_def write_simps)
  have ack: "CSSynAck_plain v" "length (CSSynAck_SerializeWithCachedSizesToArray L v) < 2 ^ 31" if "body_ack m = Some v" for v
    using len plain that by (simp_all add: CSBody_SerializeWithCachedSizesToArray_def CSBody_plain_def write_simps)
  have auth: "CSAuth_plain v" "length (CSAuth_SerializeWithCachedSizesToArray L v) < 2 ^ 31" if "body_auth m = Some v" for v
    using len plain that by (simp_all add: CSBody_SerializeWithCachedSizesToArray_def CSBody_plain_def write_simps)
  have passport: "CSPassport_plain v" "length (CSPassport_SerializeWithCachedSizesToArray L v) < 2 ^ 31" if "body_passport m = Some v" for v
    using len plain that by (simp_all add: CSBody_SerializeWithCachedSizesToArray_def CSBody_plain_def write_simps)
  have start: "CSStart_plain v" "length (CSStart_SerializeWithCachedSizesToArray L v) < 2 ^ 31" if "body_start m = Some v" for v
    using len plain that by (simp_all add: CSBody_SerializeWithCachedSizesToArray_def CSBody_plain_def write_simps)
  have error: "CSError_plain v" "length (CSError_SerializeWithCachedSizesToArray L v) < 2 ^ 31" if "body_error m = Some v" for v
    using len plain that by (simp_all add: CSBody_SerializeWithCachedSizesToArray_def CSBody_plain_def write_simps)
  show ?thesis
    using plain
    by (cases acc) (simp add: CSBody_SerializeWithCachedSizesToArray_def CSBody_plain_def CSBody_MergeFrom_def
        body_syn_step [OF d, of "body_syn m", OF syn(2) CSSyn_size [OF syn] CSSyn_parses [OF syn]]
        body_ack_step [OF d, of "body_ack m", OF ack(2) CSSynAck_size [OF ack] CSSynAck_parses [OF ack]]
        body_auth_step [OF d, of "body_auth m", OF auth(2) CSAuth_size [OF auth] CSAuth_parses [OF auth]]
        body_passport_step [OF d, of "body_passport m", OF passport(2) CSPassport_size [OF passport] CSPassport_parses [OF passport]]
        body_start_step [OF d, of "body_start m", OF start(2) CSStart_size [OF start] CSStart_parses [OF start]]
        body_data_step [of "body_data m", OF data]
        body_error_step [OF d, of "body_error m", OF error(2) CSError_size [OF error] CSError_parses [OF error]])
qed

lemma CSBody_parses:
  assumes plain: "CSBody_plain m"
    and len: "length (CSBody_SerializeWithCachedSizesToArray L m) < 2 ^ 31"
    and d: "0 \<le> d" "d < 100"
  shows "CSBody_MergePartialFromCodedStream L (stream d (CSBody_SerializeWithCachedSizesToArray L m)) acc = Some (True, CSBody_MergeFrom acc m, stream_end d)"
  using CSBody_law [OF assms, where r = "[]" and acc = acc] by (simp add: CSBody_MergePartialFromCodedStream_def merge_at_end)

text \<open>\<open>CSMsg\<close>: one field, the whole message, its size.\<close>

lemma msg_head_step:
  assumes d: "0 \<le> d" "d < 100"
    and nested: "\<And>v. x = Some v \<Longrightarrow> length (CSHead_SerializeWithCachedSizesToArray L v) < 2 ^ 31"
      "\<And>v. x = Some v \<Longrightarrow> CSHead_ByteSize L v = int (length (CSHead_SerializeWithCachedSizesToArray L v))"
      "\<And>v acc. x = Some v \<Longrightarrow> CSHead_MergePartialFromCodedStream L (stream (d + 1) (CSHead_SerializeWithCachedSizesToArray L v)) acc
         = Some (True, CSHead_MergeFrom acc v, stream_end (d + 1))"
  shows "CSMsg_MergePartialFromCodedStream L (stream d (write_if (\<lambda>v. WriteMessageNoVirtualToArray L 1 (CSHead_ByteSize L v) (CSHead_SerializeWithCachedSizesToArray L v)) x @ r)) m
     = CSMsg_MergePartialFromCodedStream L (stream d r) (m\<lparr>msg_head := merge_sub CSHead_MergeFrom CSHead_new (msg_head m) x\<rparr>)"
proof (cases x)
  case None
  then show ?thesis by (cases m) simp
next
  case (Some v)
  then show ?thesis
    by (simp add: CSMsg_MergePartialFromCodedStream_def, intro field_step [OF CSMsg_generated, where i = 0])
      (simp_all add: CSMsg_fields_def tag_of_def write_simps write_tag nested(2) [OF Some] mutable_msg_head_def [symmetric], rule message_step, rule nested(1) [OF Some], rule d(1), rule d(2), rule nested(3) [OF Some])
qed

lemma msg_body_step:
  assumes d: "0 \<le> d" "d < 100"
    and nested: "\<And>v. x = Some v \<Longrightarrow> length (CSBody_SerializeWithCachedSizesToArray L v) < 2 ^ 31"
      "\<And>v. x = Some v \<Longrightarrow> CSBody_ByteSize L v = int (length (CSBody_SerializeWithCachedSizesToArray L v))"
      "\<And>v acc. x = Some v \<Longrightarrow> CSBody_MergePartialFromCodedStream L (stream (d + 1) (CSBody_SerializeWithCachedSizesToArray L v)) acc
         = Some (True, CSBody_MergeFrom acc v, stream_end (d + 1))"
  shows "CSMsg_MergePartialFromCodedStream L (stream d (write_if (\<lambda>v. WriteMessageNoVirtualToArray L 2 (CSBody_ByteSize L v) (CSBody_SerializeWithCachedSizesToArray L v)) x @ r)) m
     = CSMsg_MergePartialFromCodedStream L (stream d r) (m\<lparr>msg_body := merge_sub CSBody_MergeFrom CSBody_new (msg_body m) x\<rparr>)"
proof (cases x)
  case None
  then show ?thesis by (cases m) simp
next
  case (Some v)
  then show ?thesis
    by (simp add: CSMsg_MergePartialFromCodedStream_def, intro field_step [OF CSMsg_generated, where i = 1])
      (simp_all add: CSMsg_fields_def tag_of_def write_simps write_tag nested(2) [OF Some] mutable_msg_body_def [symmetric], rule message_step, rule nested(1) [OF Some], rule d(1), rule d(2), rule nested(3) [OF Some])
qed

lemma CSMsg_size:
  assumes plain: "CSMsg_plain m"
    and len: "length (CSMsg_SerializeWithCachedSizesToArray L m) < 2 ^ 31"
  shows "CSMsg_ByteSize L m = int (length (CSMsg_SerializeWithCachedSizesToArray L m))"
proof -
  have head: "CSHead_ByteSize L v = int (length (CSHead_SerializeWithCachedSizesToArray L v))" if "msg_head m = Some v" for v
    using CSHead_size [of v] len plain that by (simp add: CSMsg_SerializeWithCachedSizesToArray_def CSMsg_plain_def write_simps)
  have body: "CSBody_ByteSize L v = int (length (CSBody_SerializeWithCachedSizesToArray L v))" if "msg_body m = Some v" for v
    using CSBody_size [of v] len plain that by (simp add: CSMsg_SerializeWithCachedSizesToArray_def CSMsg_plain_def write_simps)
  show ?thesis
    using plain
    by (simp add: CSMsg_ByteSize_def CSMsg_SerializeWithCachedSizesToArray_def CSMsg_plain_def field_sizes MakeTag_def wire_type_code_def
        message_sizes [OF head]
        message_sizes [OF body])
qed

lemma CSMsg_law:
  assumes plain: "CSMsg_plain m"
    and len: "length (CSMsg_SerializeWithCachedSizesToArray L m) < 2 ^ 31"
    and d: "0 \<le> d" "d < 99"
  shows "CSMsg_MergePartialFromCodedStream L (stream d (CSMsg_SerializeWithCachedSizesToArray L m @ r)) acc
    = CSMsg_MergePartialFromCodedStream L (stream d r) (CSMsg_MergeFrom acc m)"
proof -
  have head: "CSHead_plain v" "length (CSHead_SerializeWithCachedSizesToArray L v) < 2 ^ 31" if "msg_head m = Some v" for v
    using len plain that by (simp_all add: CSMsg_SerializeWithCachedSizesToArray_def CSMsg_plain_def write_simps)
  have body: "CSBody_plain v" "length (CSBody_SerializeWithCachedSizesToArray L v) < 2 ^ 31" if "msg_body m = Some v" for v
    using len plain that by (simp_all add: CSMsg_SerializeWithCachedSizesToArray_def CSMsg_plain_def write_simps)
  have d100: "d < 100" and d1: "0 \<le> d + 1" "d + 1 < 100"
    using d by simp_all
  show ?thesis
    using plain
    by (cases acc) (simp add: CSMsg_SerializeWithCachedSizesToArray_def CSMsg_plain_def CSMsg_MergeFrom_def
        msg_head_step [OF d(1) d100, of "msg_head m", OF head(2) CSHead_size [OF head] CSHead_parses [OF head]]
        msg_body_step [OF d(1) d100, of "msg_body m", OF body(2) CSBody_size [OF body] CSBody_parses [OF body d1]])
qed

lemma CSMsg_parses:
  assumes plain: "CSMsg_plain m"
    and len: "length (CSMsg_SerializeWithCachedSizesToArray L m) < 2 ^ 31"
    and d: "0 \<le> d" "d < 99"
  shows "CSMsg_MergePartialFromCodedStream L (stream d (CSMsg_SerializeWithCachedSizesToArray L m)) acc = Some (True, CSMsg_MergeFrom acc m, stream_end d)"
  using CSMsg_law [OF assms, where r = "[]" and acc = acc] by (simp add: CSMsg_MergePartialFromCodedStream_def merge_at_end)

end

section \<open>The library's entry point\<close>

text \<open>\<open>ParseFromArray\<close> of \<open>MessageLite\<close>, as its header describes it: \<open>Clear\<close>, the
  parser on the whole array, and success when that succeeds, ends at the end of the array and no
  required field is missing. The message is what is left, also after a failure.\<close>

definition ParseFromArray :: "pb_lib \<Rightarrow> byte list \<Rightarrow> CSMsg \<Rightarrow> (bool \<times> CSMsg) option" where
  "ParseFromArray L bs m =
     map_option (\<lambda>(ok, m1, s). (ok \<and> CSMsg_IsInitialized m1 \<and> legitimate_end s, m1))
       (CSMsg_MergePartialFromCodedStream L (cis_of_array L bs) (CSMsg_Clear m))"

lemma merge_new:
  "CSHead_MergeFrom CSHead_new h = h" "CSSyn_MergeFrom CSSyn_new sy = sy" "CSSynAck_MergeFrom CSSynAck_new ak = ak"
  "CSAuth_MergeFrom CSAuth_new au = au" "CSPassport_MergeFrom CSPassport_new pa = pa"
  "CSStart_MergeFrom CSStart_new st = st" "CSError_MergeFrom CSError_new er = er"
  by (simp_all add: CSHead_MergeFrom_def CSHead_new_def CSSyn_MergeFrom_def CSSyn_new_def CSSynAck_MergeFrom_def
      CSSynAck_new_def CSAuth_MergeFrom_def CSAuth_new_def CSPassport_MergeFrom_def CSPassport_new_def
      CSStart_MergeFrom_def CSStart_new_def CSError_MergeFrom_def CSError_new_def merge_opt_def
      split: option.split)

lemma merge_sub_new: "(\<And>v. f new v = v) \<Longrightarrow> merge_sub f new None x = x"
  by (cases x) (simp_all add: mutable_or_def)

lemma CSBody_merge_new: "CSBody_MergeFrom CSBody_new b = b"
  by (simp add: CSBody_MergeFrom_def CSBody_new_def merge_sub_new merge_new merge_opt_def split: option.split)

lemma CSMsg_merge_clear: "CSMsg_MergeFrom (CSMsg_Clear a) m = m"
  by (simp add: CSMsg_MergeFrom_def CSMsg_Clear_def merge_sub_new merge_new CSBody_merge_new)

context wire_lib
begin

lemma CSMsg_MergePartial_array:
  assumes "CSMsg_plain m" and "length (CSMsg_SerializeWithCachedSizesToArray L m) < 2 ^ 31"
  shows "CSMsg_MergePartialFromCodedStream L (cis_of_array L (CSMsg_SerializeWithCachedSizesToArray L m @ r)) acc
    = CSMsg_MergePartialFromCodedStream L (cis_of_array L r) (CSMsg_MergeFrom acc m)"
  using CSMsg_law [OF assms, of 0 r acc] by (simp add: array_stream)

lemma parse_one:
  assumes "CSMsg_plain m" and "length (CSMsg_SerializeWithCachedSizesToArray L m) < 2 ^ 31"
  shows "ParseFromArray L (CSMsg_SerializeWithCachedSizesToArray L m) a = Some (CSMsg_IsInitialized m, m)"
  using CSMsg_parses [OF assms, of 0 "CSMsg_Clear a"]
  by (simp add: ParseFromArray_def array_stream stream_end_def CSMsg_merge_clear)

lemma parse_two:
  assumes "CSMsg_plain m" and "length (CSMsg_SerializeWithCachedSizesToArray L m) < 2 ^ 31"
    and "CSMsg_plain n" and "length (CSMsg_SerializeWithCachedSizesToArray L n) < 2 ^ 31"
  shows "ParseFromArray L (CSMsg_SerializeWithCachedSizesToArray L m @ CSMsg_SerializeWithCachedSizesToArray L n) a
    = Some (CSMsg_IsInitialized (CSMsg_MergeFrom m n), CSMsg_MergeFrom m n)"
  using CSMsg_MergePartial_array [OF assms(1,2), of "CSMsg_SerializeWithCachedSizesToArray L n" "CSMsg_Clear a"]
    CSMsg_parses [OF assms(3,4), of 0 m]
  by (simp add: ParseFromArray_def array_stream stream_end_def CSMsg_merge_clear)

end

section \<open>Properties\<close>

definition sample_pb :: CSMsg where
  "sample_pb =
     \<lparr>msg_head = Some \<lparr>head_magic = Some 13124, head_sequence = Some 300, head_bodyid = Some 2, head_unknown = []\<rparr>,
      msg_body = Some (CSBody_new\<lparr>body_ack := Some \<lparr>ack_secretkey = Some [107, 101, 121], ack_unknown = []\<rparr>,
                                  body_data := Some [1, 2, 3]\<rparr>),
      msg_unknown = []\<rparr>"

lemma sample_pb_bytes:
  "CSMsg_SerializeWithCachedSizesToArray reference_lib sample_pb =
     [10, 8, 8, 196, 102, 16, 172, 2, 24, 2, 18, 13, 18, 5, 10, 3, 107, 101, 121, 130, 1, 3, 1, 2, 3]"
  by (simp add: sample_pb_def CSMsg_SerializeWithCachedSizesToArray_def CSHead_SerializeWithCachedSizesToArray_def
      CSBody_SerializeWithCachedSizesToArray_def CSSynAck_SerializeWithCachedSizesToArray_def CSBody_new_def
      CSHead_ByteSize_def CSBody_ByteSize_def CSSynAck_ByteSize_def write_simps MakeTag_def wire_type_code_def
      reference.write_tag WriteInt32NoTagToArray_def WriteVarint32SignExtendedToArray_def WriteInt64NoTagToArray_def
      reference.write64 reference.write_varint32 varint_one varint_more Int32Size_def Int64Size_def StringSize_def
      BytesSize_def VarintSize32SignExtended_def reference.varint32_length reference.size64 MessageSizeNoVirtual_def
      LengthDelimitedSize_def word_sless_alt)

lemma sample_pb_plain: "CSMsg_plain sample_pb"
  by (simp add: CSMsg_plain_def CSHead_plain_def CSBody_plain_def CSSynAck_plain_def sample_pb_def CSBody_new_def)

text \<open>C8. A message of \<open>client.proto\<close> that is serialized and parsed again is the same message, whatever
  was in the object it is parsed into; the parser reports success exactly when no required field is
  missing. This holds for every combination of fields, every integer (negative ones take ten
  bytes) and strings of any bytes, as long as the message has no unknown fields and takes less than
  2 GB.\<close>

theorem client_message_round_trip:
  assumes "wire_lib L" and "CSMsg_plain m" and "length (CSMsg_SerializeWithCachedSizesToArray L m) < 2 ^ 31"
  shows "ParseFromArray L (CSMsg_SerializeWithCachedSizesToArray L m) a = Some (CSMsg_IsInitialized m, m)"
  by (rule wire_lib.parse_one [OF assms])

theorem client_message_round_trip_witness:
  "ParseFromArray reference_lib
     [10, 8, 8, 196, 102, 16, 172, 2, 24, 2, 18, 13, 18, 5, 10, 3, 107, 101, 121, 130, 1, 3, 1, 2, 3] sample_pb
   = Some (True, sample_pb)"
  using client_message_round_trip [OF reference_ok sample_pb_plain, of sample_pb]
  by (simp only: sample_pb_bytes)
    (simp add: CSMsg_IsInitialized_def CSHead_IsInitialized_def CSBody_IsInitialized_def CSSynAck_IsInitialized_def
      sample_pb_def CSBody_new_def)

text \<open>C9. Parsing two serialized messages one after the other is merging them: the generated
  \<open>MergeFrom\<close> is what the parser does with fields that come twice.\<close>

theorem client_message_concat:
  assumes "wire_lib L" and "CSMsg_plain m" and "length (CSMsg_SerializeWithCachedSizesToArray L m) < 2 ^ 31"
    and "CSMsg_plain n" and "length (CSMsg_SerializeWithCachedSizesToArray L n) < 2 ^ 31"
  shows "ParseFromArray L (CSMsg_SerializeWithCachedSizesToArray L m @ CSMsg_SerializeWithCachedSizesToArray L n) a
    = Some (CSMsg_IsInitialized (CSMsg_MergeFrom m n), CSMsg_MergeFrom m n)"
  by (rule wire_lib.parse_two [OF assms])

theorem client_message_concat_witness:
  "ParseFromArray reference_lib
     ([10, 8, 8, 196, 102, 16, 172, 2, 24, 2, 18, 13, 18, 5, 10, 3, 107, 101, 121, 130, 1, 3, 1, 2, 3]
      @ [10, 8, 8, 196, 102, 16, 172, 2, 24, 2, 18, 13, 18, 5, 10, 3, 107, 101, 121, 130, 1, 3, 1, 2, 3]) CSMsg_new
   = Some (CSMsg_IsInitialized (CSMsg_MergeFrom sample_pb sample_pb), CSMsg_MergeFrom sample_pb sample_pb)"
  using client_message_concat [OF reference_ok sample_pb_plain _ sample_pb_plain, of CSMsg_new]
  by (simp only: sample_pb_bytes) simp

text \<open>C10. \<open>ByteSize\<close>, from which the buffer and the prefixes of nested messages are made, is
  exactly the number of bytes the serializer writes.\<close>

theorem client_message_size:
  assumes "wire_lib L" and "CSMsg_plain m" and "length (CSMsg_SerializeWithCachedSizesToArray L m) < 2 ^ 31"
  shows "CSMsg_ByteSize L m = int (length (CSMsg_SerializeWithCachedSizesToArray L m))"
  by (rule wire_lib.CSMsg_size [OF assms])

theorem client_message_size_witness: "CSMsg_ByteSize reference_lib sample_pb = 25"
  using client_message_size [OF reference_ok sample_pb_plain] by (simp only: sample_pb_bytes) simp

text \<open>C11. The generated parsers, which after each field look ahead for the tag of the next one and
  jump to its case, do exactly what a parser does that reads tag after tag: the same message, the
  same result and the same rest of the input, on any bytes whatever, malformed ones included.\<close>

theorem generated_jumps:
  assumes "wire_lib L"
  shows "CSHead_MergePartialFromCodedStream L = parse_by_tags L (\<lambda>u m. m\<lparr>head_unknown := head_unknown m @ [u]\<rparr>) (CSHead_fields L)
    \<and> CSSyn_MergePartialFromCodedStream L = parse_by_tags L (\<lambda>u m. m\<lparr>syn_unknown := syn_unknown m @ [u]\<rparr>) (CSSyn_fields L)
    \<and> CSSynAck_MergePartialFromCodedStream L = parse_by_tags L (\<lambda>u m. m\<lparr>ack_unknown := ack_unknown m @ [u]\<rparr>) (CSSynAck_fields L)
    \<and> CSAuth_MergePartialFromCodedStream L = parse_by_tags L (\<lambda>u m. m\<lparr>auth_unknown := auth_unknown m @ [u]\<rparr>) (CSAuth_fields L)
    \<and> CSPassport_MergePartialFromCodedStream L = parse_by_tags L (\<lambda>u m. m\<lparr>pass_unknown := pass_unknown m @ [u]\<rparr>) (CSPassport_fields L)
    \<and> CSStart_MergePartialFromCodedStream L = parse_by_tags L (\<lambda>u m. m\<lparr>start_unknown := start_unknown m @ [u]\<rparr>) (CSStart_fields L)
    \<and> CSError_MergePartialFromCodedStream L = parse_by_tags L (\<lambda>u m. m\<lparr>err_unknown := err_unknown m @ [u]\<rparr>) (CSError_fields L)
    \<and> CSBody_MergePartialFromCodedStream L = parse_by_tags L (\<lambda>u m. m\<lparr>body_unknown := body_unknown m @ [u]\<rparr>) (CSBody_fields L)
    \<and> CSMsg_MergePartialFromCodedStream L = parse_by_tags L (\<lambda>u m. m\<lparr>msg_unknown := msg_unknown m @ [u]\<rparr>) (CSMsg_fields L)"
  using wire_lib.jumps_skip [OF assms CSHead_generated]
    wire_lib.jumps_skip [OF assms CSSyn_generated]
    wire_lib.jumps_skip [OF assms CSSynAck_generated]
    wire_lib.jumps_skip [OF assms CSAuth_generated]
    wire_lib.jumps_skip [OF assms CSPassport_generated]
    wire_lib.jumps_skip [OF assms CSStart_generated]
    wire_lib.jumps_skip [OF assms CSError_generated]
    wire_lib.jumps_skip [OF assms CSBody_generated]
    wire_lib.jumps_skip [OF assms CSMsg_generated]
  by (simp add: CSHead_MergePartialFromCodedStream_def CSSyn_MergePartialFromCodedStream_def CSSynAck_MergePartialFromCodedStream_def CSAuth_MergePartialFromCodedStream_def CSPassport_MergePartialFromCodedStream_def CSStart_MergePartialFromCodedStream_def CSError_MergePartialFromCodedStream_def CSBody_MergePartialFromCodedStream_def CSMsg_MergePartialFromCodedStream_def)

theorem generated_jumps_witness:
  "CSHead_MergePartialFromCodedStream reference_lib (cis_of_array reference_lib [16, 5, 8, 1, 24, 2]) CSHead_new
     = parse_by_tags reference_lib (\<lambda>u m. m\<lparr>head_unknown := head_unknown m @ [u]\<rparr>) (CSHead_fields reference_lib)
         (cis_of_array reference_lib [16, 5, 8, 1, 24, 2]) CSHead_new"
  using generated_jumps [OF reference_ok] by simp

end
