(* ===== verification/ClientCodec.thy ===== *)
theory ClientCodec
  imports ClientPb ConnectorSession
begin

text \<open>
  The accessors of \<open>sdk/client.pb.h\<close>, and with them the codec of the client's messages
  (\<open>codec\<close> in \<open>ConnectorSession\<close>) made of the generated code: what the code sets in a
  message before it serializes it and reads from it after it has parsed it.
\<close>

section \<open>Accessors\<close>

text \<open>\<open>CSHead\<close>.\<close>

definition CSHead_magic :: "CSHead \<Rightarrow> 32 word" where
  "CSHead_magic m = (case head_magic m of None \<Rightarrow> 13124 | Some v \<Rightarrow> v)"

definition CSHead_set_magic :: "32 word \<Rightarrow> CSHead \<Rightarrow> CSHead" where
  "CSHead_set_magic v m = m\<lparr>head_magic := Some v\<rparr>"

definition CSHead_clear_magic :: "CSHead \<Rightarrow> CSHead" where
  "CSHead_clear_magic m = m\<lparr>head_magic := None\<rparr>"

definition CSHead_sequence :: "CSHead \<Rightarrow> 64 word" where
  "CSHead_sequence m = (case head_sequence m of None \<Rightarrow> 0 | Some v \<Rightarrow> v)"

definition CSHead_set_sequence :: "64 word \<Rightarrow> CSHead \<Rightarrow> CSHead" where
  "CSHead_set_sequence v m = m\<lparr>head_sequence := Some v\<rparr>"

definition CSHead_clear_sequence :: "CSHead \<Rightarrow> CSHead" where
  "CSHead_clear_sequence m = m\<lparr>head_sequence := None\<rparr>"

definition CSHead_bodyid :: "CSHead \<Rightarrow> 32 word" where
  "CSHead_bodyid m = (case head_bodyid m of None \<Rightarrow> 0 | Some v \<Rightarrow> v)"

definition CSHead_set_bodyid :: "32 word \<Rightarrow> CSHead \<Rightarrow> CSHead" where
  "CSHead_set_bodyid v m = m\<lparr>head_bodyid := Some v\<rparr>"

definition CSHead_clear_bodyid :: "CSHead \<Rightarrow> CSHead" where
  "CSHead_clear_bodyid m = m\<lparr>head_bodyid := None\<rparr>"

text \<open>\<open>CSSyn\<close>.\<close>

definition CSSyn_appid :: "CSSyn \<Rightarrow> byte list" where
  "CSSyn_appid m = (case syn_appid m of None \<Rightarrow> [] | Some v \<Rightarrow> v)"

definition CSSyn_set_appid :: "byte list \<Rightarrow> CSSyn \<Rightarrow> CSSyn" where
  "CSSyn_set_appid v m = m\<lparr>syn_appid := Some v\<rparr>"

definition CSSyn_clear_appid :: "CSSyn \<Rightarrow> CSSyn" where
  "CSSyn_clear_appid m = m\<lparr>syn_appid := None\<rparr>"

definition CSSyn_openid :: "CSSyn \<Rightarrow> byte list" where
  "CSSyn_openid m = (case syn_openid m of None \<Rightarrow> [] | Some v \<Rightarrow> v)"

definition CSSyn_set_openid :: "byte list \<Rightarrow> CSSyn \<Rightarrow> CSSyn" where
  "CSSyn_set_openid v m = m\<lparr>syn_openid := Some v\<rparr>"

definition CSSyn_clear_openid :: "CSSyn \<Rightarrow> CSSyn" where
  "CSSyn_clear_openid m = m\<lparr>syn_openid := None\<rparr>"

text \<open>\<open>CSSynAck\<close>.\<close>

definition CSSynAck_secretkey :: "CSSynAck \<Rightarrow> byte list" where
  "CSSynAck_secretkey m = (case ack_secretkey m of None \<Rightarrow> [] | Some v \<Rightarrow> v)"

definition CSSynAck_set_secretkey :: "byte list \<Rightarrow> CSSynAck \<Rightarrow> CSSynAck" where
  "CSSynAck_set_secretkey v m = m\<lparr>ack_secretkey := Some v\<rparr>"

definition CSSynAck_clear_secretkey :: "CSSynAck \<Rightarrow> CSSynAck" where
  "CSSynAck_clear_secretkey m = m\<lparr>ack_secretkey := None\<rparr>"

text \<open>\<open>CSAuth\<close>.\<close>

definition CSAuth_token :: "CSAuth \<Rightarrow> byte list" where
  "CSAuth_token m = (case auth_token m of None \<Rightarrow> [] | Some v \<Rightarrow> v)"

definition CSAuth_set_token :: "byte list \<Rightarrow> CSAuth \<Rightarrow> CSAuth" where
  "CSAuth_set_token v m = m\<lparr>auth_token := Some v\<rparr>"

definition CSAuth_clear_token :: "CSAuth \<Rightarrow> CSAuth" where
  "CSAuth_clear_token m = m\<lparr>auth_token := None\<rparr>"

text \<open>\<open>CSPassport\<close>.\<close>

definition CSPassport_passport :: "CSPassport \<Rightarrow> 64 word" where
  "CSPassport_passport m = (case pass_passport m of None \<Rightarrow> 0 | Some v \<Rightarrow> v)"

definition CSPassport_set_passport :: "64 word \<Rightarrow> CSPassport \<Rightarrow> CSPassport" where
  "CSPassport_set_passport v m = m\<lparr>pass_passport := Some v\<rparr>"

definition CSPassport_clear_passport :: "CSPassport \<Rightarrow> CSPassport" where
  "CSPassport_clear_passport m = m\<lparr>pass_passport := None\<rparr>"

text \<open>\<open>CSStart\<close>.\<close>

definition CSStart_code :: "CSStart \<Rightarrow> 32 word" where
  "CSStart_code m = (case start_code m of None \<Rightarrow> 0 | Some v \<Rightarrow> v)"

definition CSStart_set_code :: "32 word \<Rightarrow> CSStart \<Rightarrow> CSStart" where
  "CSStart_set_code v m = m\<lparr>start_code := Some v\<rparr>"

definition CSStart_clear_code :: "CSStart \<Rightarrow> CSStart" where
  "CSStart_clear_code m = m\<lparr>start_code := None\<rparr>"

text \<open>\<open>CSError\<close>.\<close>

definition CSError_code :: "CSError \<Rightarrow> 32 word" where
  "CSError_code m = (case err_code m of None \<Rightarrow> 0 | Some v \<Rightarrow> v)"

definition CSError_set_code :: "32 word \<Rightarrow> CSError \<Rightarrow> CSError" where
  "CSError_set_code v m = m\<lparr>err_code := Some v\<rparr>"

definition CSError_clear_code :: "CSError \<Rightarrow> CSError" where
  "CSError_clear_code m = m\<lparr>err_code := None\<rparr>"

definition CSError_desc :: "CSError \<Rightarrow> byte list" where
  "CSError_desc m = (case err_desc m of None \<Rightarrow> [] | Some v \<Rightarrow> v)"

definition CSError_set_desc :: "byte list \<Rightarrow> CSError \<Rightarrow> CSError" where
  "CSError_set_desc v m = m\<lparr>err_desc := Some v\<rparr>"

definition CSError_clear_desc :: "CSError \<Rightarrow> CSError" where
  "CSError_clear_desc m = m\<lparr>err_desc := None\<rparr>"

text \<open>\<open>CSBody\<close>.\<close>

definition CSBody_syn :: "CSBody \<Rightarrow> CSSyn" where
  "CSBody_syn m = mutable_or CSSyn_new (body_syn m)"

definition CSBody_clear_syn :: "CSBody \<Rightarrow> CSBody" where
  "CSBody_clear_syn m = m\<lparr>body_syn := None\<rparr>"

definition CSBody_ack :: "CSBody \<Rightarrow> CSSynAck" where
  "CSBody_ack m = mutable_or CSSynAck_new (body_ack m)"

definition CSBody_clear_ack :: "CSBody \<Rightarrow> CSBody" where
  "CSBody_clear_ack m = m\<lparr>body_ack := None\<rparr>"

definition CSBody_auth :: "CSBody \<Rightarrow> CSAuth" where
  "CSBody_auth m = mutable_or CSAuth_new (body_auth m)"

definition CSBody_clear_auth :: "CSBody \<Rightarrow> CSBody" where
  "CSBody_clear_auth m = m\<lparr>body_auth := None\<rparr>"

definition CSBody_passport :: "CSBody \<Rightarrow> CSPassport" where
  "CSBody_passport m = mutable_or CSPassport_new (body_passport m)"

definition CSBody_clear_passport :: "CSBody \<Rightarrow> CSBody" where
  "CSBody_clear_passport m = m\<lparr>body_passport := None\<rparr>"

definition CSBody_start :: "CSBody \<Rightarrow> CSStart" where
  "CSBody_start m = mutable_or CSStart_new (body_start m)"

definition CSBody_clear_start :: "CSBody \<Rightarrow> CSBody" where
  "CSBody_clear_start m = m\<lparr>body_start := None\<rparr>"

definition CSBody_data :: "CSBody \<Rightarrow> byte list" where
  "CSBody_data m = (case body_data m of None \<Rightarrow> [] | Some v \<Rightarrow> v)"

definition CSBody_set_data :: "byte list \<Rightarrow> CSBody \<Rightarrow> CSBody" where
  "CSBody_set_data v m = m\<lparr>body_data := Some v\<rparr>"

definition CSBody_clear_data :: "CSBody \<Rightarrow> CSBody" where
  "CSBody_clear_data m = m\<lparr>body_data := None\<rparr>"

definition CSBody_error :: "CSBody \<Rightarrow> CSError" where
  "CSBody_error m = mutable_or CSError_new (body_error m)"

definition CSBody_clear_error :: "CSBody \<Rightarrow> CSBody" where
  "CSBody_clear_error m = m\<lparr>body_error := None\<rparr>"

text \<open>\<open>CSMsg\<close>.\<close>

definition CSMsg_head :: "CSMsg \<Rightarrow> CSHead" where
  "CSMsg_head m = mutable_or CSHead_new (msg_head m)"

definition CSMsg_clear_head :: "CSMsg \<Rightarrow> CSMsg" where
  "CSMsg_clear_head m = m\<lparr>msg_head := None\<rparr>"

definition CSMsg_body :: "CSMsg \<Rightarrow> CSBody" where
  "CSMsg_body m = mutable_or CSBody_new (msg_body m)"

definition CSMsg_clear_body :: "CSMsg \<Rightarrow> CSMsg" where
  "CSMsg_clear_body m = m\<lparr>msg_body := None\<rparr>"


lemmas access_simps = CSHead_magic_def CSHead_set_magic_def CSHead_clear_magic_def CSHead_sequence_def
  CSHead_set_sequence_def CSHead_clear_sequence_def CSHead_bodyid_def CSHead_set_bodyid_def
  CSHead_clear_bodyid_def CSSyn_appid_def CSSyn_set_appid_def CSSyn_clear_appid_def CSSyn_openid_def
  CSSyn_set_openid_def CSSyn_clear_openid_def CSSynAck_secretkey_def CSSynAck_set_secretkey_def
  CSSynAck_clear_secretkey_def CSAuth_token_def CSAuth_set_token_def CSAuth_clear_token_def
  CSPassport_passport_def CSPassport_set_passport_def CSPassport_clear_passport_def CSStart_code_def
  CSStart_set_code_def CSStart_clear_code_def CSError_code_def CSError_set_code_def CSError_clear_code_def
  CSError_desc_def CSError_set_desc_def CSError_clear_desc_def CSBody_syn_def CSBody_clear_syn_def
  CSBody_ack_def CSBody_clear_ack_def CSBody_auth_def CSBody_clear_auth_def CSBody_passport_def
  CSBody_clear_passport_def CSBody_start_def CSBody_clear_start_def CSBody_data_def CSBody_set_data_def
  CSBody_clear_data_def CSBody_error_def CSBody_clear_error_def CSMsg_head_def CSMsg_clear_head_def
  CSMsg_body_def CSMsg_clear_body_def   CSHead_new_def CSSyn_new_def CSSynAck_new_def CSAuth_new_def
  CSPassport_new_def CSStart_new_def CSError_new_def   CSBody_new_def CSMsg_new_def mutable_or_def

section \<open>The messages of the model\<close>

text \<open>\<open>std::string\<close> is a list of bytes, the model's strings are lists of characters.\<close>

definition bytes_of :: "string \<Rightarrow> byte list" where
  "bytes_of s = map (\<lambda>c. of_nat (of_char c)) s"

definition string_of :: "byte list \<Rightarrow> string" where
  "string_of b = map (\<lambda>x. char_of (unat x)) b"

lemma string_of_bytes [simp]: "string_of (bytes_of s) = s"
proof -
  have "unat (of_nat (of_char c) :: byte) = of_char c" for c :: char
    using nat_of_char_less_256 [of c] by (simp add: unsigned_of_nat take_bit_nat_eq_self)
  then show ?thesis
    by (simp add: string_of_def bytes_of_def comp_def)
qed

definition pb_of_body :: "csbody \<Rightarrow> CSBody" where
  "pb_of_body b = CSBody_new\<lparr>
     body_syn := map_option (\<lambda>(a, i). CSSyn_set_openid (bytes_of i) (CSSyn_set_appid (bytes_of a) CSSyn_new)) (cs_syn b),
     body_ack := map_option (\<lambda>k. CSSynAck_set_secretkey (bytes_of k) CSSynAck_new) (cs_ack b),
     body_auth := map_option (\<lambda>t. CSAuth_set_token (bytes_of t) CSAuth_new) (cs_auth b),
     body_passport := map_option (\<lambda>v. CSPassport_set_passport (word_of_int v) CSPassport_new) (cs_passport b),
     body_start := map_option (\<lambda>v. CSStart_set_code (word_of_int v) CSStart_new) (cs_start b),
     body_data := cs_data b,
     body_error := map_option (\<lambda>(c, d). CSError_set_desc (bytes_of d) (CSError_set_code (word_of_int c) CSError_new)) (cs_error b)\<rparr>"

definition pb_of_msg :: "csmsg \<Rightarrow> CSMsg" where
  "pb_of_msg m = CSMsg_new\<lparr>
     msg_head := Some (CSHead_set_bodyid (word_of_int (cs_bodyid m))
       (CSHead_set_sequence (cs_sequence m) (CSHead_set_magic (word_of_int (cs_magic m)) CSHead_new))),
     msg_body := Some (pb_of_body (cs_body m))\<rparr>"

text \<open>What the code reads from a parsed message.\<close>

definition body_of_pb :: "CSBody \<Rightarrow> csbody" where
  "body_of_pb b =
     \<lparr>cs_syn = map_option (\<lambda>x. (string_of (CSSyn_appid x), string_of (CSSyn_openid x))) (body_syn b),
      cs_ack = map_option (\<lambda>x. string_of (CSSynAck_secretkey x)) (body_ack b),
      cs_auth = map_option (\<lambda>x. string_of (CSAuth_token x)) (body_auth b),
      cs_passport = map_option (\<lambda>x. sint (CSPassport_passport x)) (body_passport b),
      cs_start = map_option (\<lambda>x. sint (CSStart_code x)) (body_start b),
      cs_data = body_data b,
      cs_error = map_option (\<lambda>x. (sint (CSError_code x), string_of (CSError_desc x))) (body_error b)\<rparr>"

definition msg_of_pb :: "CSMsg \<Rightarrow> csmsg" where
  "msg_of_pb m =
     \<lparr>cs_magic = sint (CSHead_magic (CSMsg_head m)), cs_sequence = CSHead_sequence (CSMsg_head m),
      cs_bodyid = sint (CSHead_bodyid (CSMsg_head m)), cs_body = body_of_pb (CSMsg_body m)\<rparr>"

text \<open>The codec of the client's messages; those of the backend's (\<open>server.proto\<close>), for which
  the repository holds no generated code, stay those of \<open>cd\<close>.\<close>

definition pb_codec :: "pb_lib \<Rightarrow> codec \<Rightarrow> codec" where
  "pb_codec L cd = cd\<lparr>
     cs_parse := (\<lambda>v. case v of
         View bs \<Rightarrow> (case ParseFromArray L bs CSMsg_new of Some (ok, m) \<Rightarrow> msg_of_pb m | None \<Rightarrow> cs_parse cd v)
       | Wild k \<Rightarrow> cs_parse cd v),
     cs_ser := (\<lambda>m. CSMsg_SerializeWithCachedSizesToArray L (pb_of_msg m))\<rparr>"

text \<open>The integers fit their C types.\<close>

definition int32_ok :: "int \<Rightarrow> bool" where
  "int32_ok i = (- (2 ^ 31) \<le> i \<and> i < 2 ^ 31)"

definition cs_ints_ok :: "csmsg \<Rightarrow> bool" where
  "cs_ints_ok m =
     (int32_ok (cs_magic m) \<and> int32_ok (cs_bodyid m)
      \<and> (\<forall>v. cs_passport (cs_body m) = Some v \<longrightarrow> - (2 ^ 63) \<le> v \<and> v < 2 ^ 63)
      \<and> (\<forall>v. cs_start (cs_body m) = Some v \<longrightarrow> int32_ok v)
      \<and> (\<forall>c d. cs_error (cs_body m) = Some (c, d) \<longrightarrow> int32_ok c))"

lemma sint32_back: "int32_ok i \<Longrightarrow> sint (word_of_int i :: 32 word) = i"
  by (simp add: int32_ok_def signed_of_int signed_take_bit_int_eq_self)

lemma sint64_back: "- (2 ^ 63) \<le> i \<Longrightarrow> i < 2 ^ 63 \<Longrightarrow> sint (word_of_int i :: 64 word) = i"
  by (simp add: signed_of_int signed_take_bit_int_eq_self)

lemma map_back: "(\<And>v. x = Some v \<Longrightarrow> f (g v) = v) \<Longrightarrow> map_option f (map_option g x) = x"
  by (cases x) simp_all

lemma body_back:
  assumes "cs_ints_ok m"
  shows "body_of_pb (pb_of_body (cs_body m)) = cs_body m"
  using assms
  by (cases "cs_body m")
    (auto simp: body_of_pb_def pb_of_body_def cs_ints_ok_def sint32_back sint64_back access_simps intro!: map_back)

lemma msg_back: "cs_ints_ok m \<Longrightarrow> msg_of_pb (pb_of_msg m) = m"
  using body_back [of m] by (cases m)
    (simp add: msg_of_pb_def pb_of_msg_def cs_ints_ok_def sint32_back access_simps)

lemma pb_of_msg_plain: "CSMsg_plain (pb_of_msg m)"
  by (auto simp: CSMsg_plain_def CSHead_plain_def CSBody_plain_def CSSyn_plain_def CSSynAck_plain_def CSAuth_plain_def
      CSPassport_plain_def CSStart_plain_def CSError_plain_def pb_of_msg_def pb_of_body_def access_simps
      split: option.split)

lemma pb_codec_back:
  assumes "wire_lib L" and "cs_ints_ok m" and "length (cs_ser (pb_codec L cd) m) < 2 ^ 31"
  shows "cs_parse (pb_codec L cd) (View (cs_ser (pb_codec L cd) m)) = m"
  using wire_lib.parse_one [OF assms(1) pb_of_msg_plain, of m CSMsg_new] assms(3) msg_back [OF assms(2)]
  by (simp add: pb_codec_def)

end
