(* ===== verification/CocosConnector.thy ===== *)
theory CocosConnector
  imports ClientThread
begin

text \<open>
  The public classes of \<open>client_api/connector_client_api.*\<close>, which forward to the two
  implementations, and the binding of the threaded one to a game engine,
  \<open>client_api/cocos_lua/cocos_connector.*\<close>. The engine's thread calls \<open>Start\<close>,
  \<open>Send\<close>, \<open>Recv\<close> and \<open>Stop\<close>; each \<open>Start\<close> makes a worker thread, whose callbacks
  set the flags that the engine's thread looks at.
\<close>

section \<open>The public classes\<close>

record ConnectorClientProtocol =
  cp_imp :: "client option"

record ConnectorClientProtocolThread =
  cpt_imp :: "thread_imp option"

definition ConnectorClientProtocol_new :: ConnectorClientProtocol where
  "ConnectorClientProtocol_new = \<lparr>cp_imp = Some client_new\<rparr>"

definition ConnectorClientProtocolThread_new :: ConnectorClientProtocolThread where
  "ConnectorClientProtocolThread_new = \<lparr>cpt_imp = Some thread_new\<rparr>"

definition cp_call ::
    "(client \<Rightarrow> ('r \<times> client) exec) \<Rightarrow> ConnectorClientProtocol \<Rightarrow> ('r \<times> ConnectorClientProtocol) exec" where
  "cp_call f p =
     (case cp_imp p of
        None \<Rightarrow> Crash AssertFailed
      | Some c \<Rightarrow> bindE (f c) (\<lambda>(r, c1). Done (r, p\<lparr>cp_imp := Some c1\<rparr>)))"

definition cpt_call ::
    "(thread_imp \<Rightarrow> ('r \<times> thread_imp) exec) \<Rightarrow> ConnectorClientProtocolThread
     \<Rightarrow> ('r \<times> ConnectorClientProtocolThread) exec" where
  "cpt_call f p =
     (case cpt_imp p of
        None \<Rightarrow> Crash AssertFailed
      | Some th \<Rightarrow> bindE (f th) (\<lambda>(r, th1). Done (r, p\<lparr>cpt_imp := Some th1\<rparr>)))"

definition CP_Start ::
    "client_settings option \<Rightarrow> net_answers \<Rightarrow> ConnectorClientProtocol \<Rightarrow> (int \<times> ConnectorClientProtocol) exec" where
  "CP_Start pel a = cp_call (client_Start True True pel a)"

definition CP_Terminate :: "ConnectorClientProtocol \<Rightarrow> (int \<times> ConnectorClientProtocol) exec" where
  "CP_Terminate = cp_call (\<lambda>c. Done (client_Terminate c))"

definition CP_Resume :: "net_answers \<Rightarrow> ConnectorClientProtocol \<Rightarrow> (int \<times> ConnectorClientProtocol) exec" where
  "CP_Resume a = cp_call (client_Resume a)"

definition CP_Update ::
    "codec \<Rightarrow> net_answers \<Rightarrow> bool \<Rightarrow> ConnectorClientProtocol
     \<Rightarrow> ((int \<times> client_event list \<times> byte list \<times> bool) \<times> ConnectorClientProtocol) exec" where
  "CP_Update cd a flag =
     cp_call (\<lambda>c. bindE (Update cd a flag c) (\<lambda>(ret, evs, out, flag1, c1). Done ((ret, evs, out, flag1), c1)))"

definition CP_PushMessage ::
    "codec \<Rightarrow> net_answers \<Rightarrow> byte list option \<Rightarrow> ConnectorClientProtocol
     \<Rightarrow> ((int \<times> byte list) \<times> ConnectorClientProtocol) exec" where
  "CP_PushMessage cd a data =
     cp_call (\<lambda>c. bindE (PushMessage cd a data c) (\<lambda>(ret, c1, out). Done ((ret, out), c1)))"

definition CP_PeekMessage ::
    "codec \<Rightarrow> net_answers \<Rightarrow> ConnectorClientProtocol
     \<Rightarrow> ((int \<times> byte list option) \<times> ConnectorClientProtocol) exec" where
  "CP_PeekMessage cd a =
     cp_call (\<lambda>c. bindE (PeekMessage cd a c) (\<lambda>(ret, d, c1). Done ((ret, d), c1)))"

definition CP_PopMessage :: "ConnectorClientProtocol \<Rightarrow> (int \<times> ConnectorClientProtocol) exec" where
  "CP_PopMessage = cp_call (\<lambda>c. Done (PopMessage c))"

definition CPT_StartThread ::
    "client_settings option \<Rightarrow> bool \<Rightarrow> ConnectorClientProtocolThread
     \<Rightarrow> ((int \<times> bool) \<times> ConnectorClientProtocolThread) exec" where
  "CPT_StartThread pel wtl =
     cpt_call (\<lambda>th. case StartThread pel wtl th of (ret, th1, created) \<Rightarrow> Done ((ret, created), th1))"

definition CPT_TerminateThread ::
    "ConnectorClientProtocolThread \<Rightarrow> (int \<times> ConnectorClientProtocolThread) exec" where
  "CPT_TerminateThread = cpt_call (\<lambda>th. Done (TerminateThread th))"

definition CPT_PushMessageToSendQ ::
    "codec \<Rightarrow> net_answers \<Rightarrow> byte list option \<Rightarrow> ConnectorClientProtocolThread
     \<Rightarrow> ((int \<times> byte list) \<times> ConnectorClientProtocolThread) exec" where
  "CPT_PushMessageToSendQ cd a data = cpt_call (PushMessageToSendQ cd a data)"

definition CPT_PopMessageFromRecvQ ::
    "codec \<Rightarrow> net_answers \<Rightarrow> nat option \<Rightarrow> ConnectorClientProtocolThread
     \<Rightarrow> ((int \<times> byte list option) \<times> ConnectorClientProtocolThread) exec" where
  "CPT_PopMessageFromRecvQ cd a room = cpt_call (Thread_Pop cd a room)"

section \<open>The binding\<close>

text \<open>
  \<open>ConnectorApiImp\<close>'s flags, the static buffer of \<open>Recv\<close>,
  \<open>ConnectorClientProtocolThread::Default()\<close>, the worker threads made so far, the static flag of
  \<open>Update\<close> and the bytes handed to the kernel.
\<close>

record cocos =
  ci_exit :: bool
  ci_state_ok :: bool
  ci_has_pkg :: bool
  ci_data :: "byte list"
  ci_default :: ConnectorClientProtocolThread
  ci_workers :: "worker_pc list"
  ci_done_flag :: bool
  ci_sent :: "byte list"

abbreviation (input) kRecvSize :: nat where "kRecvSize \<equiv> 1024000"

definition cocos_new :: cocos where
  "cocos_new = \<lparr>ci_exit = False, ci_state_ok = False, ci_has_pkg = False, ci_data = replicate kRecvSize 0,
     ci_default = ConnectorClientProtocolThread_new, ci_workers = [], ci_done_flag = False, ci_sent = []\<rparr>"

definition cocos_settings :: client_settings where
  "cocos_settings = \<lparr>set_appid = ''TEST123456'', set_openid = ''GUEST0987654321'', set_token = ''TOKEN3388'',
     set_server_uri = ''tcp://172.16.11.135:8888''\<rparr>"

fun cocos_event :: "client_event \<Rightarrow> cocos \<Rightarrow> cocos" where
  "cocos_event OnHandShakeSucceed s = s\<lparr>ci_state_ok := True\<rparr>"
| "cocos_event OnHandShakeFailed s = s\<lparr>ci_exit := True\<rparr>"
| "cocos_event OnServerClose s = s\<lparr>ci_exit := True\<rparr>"
| "cocos_event OnIncoming s = s\<lparr>ci_has_pkg := True\<rparr>"

definition cocos_OnWorkerThreadExit :: "cocos \<Rightarrow> cocos" where
  "cocos_OnWorkerThreadExit s = s\<lparr>ci_exit := True\<rparr>"

text \<open>\<open>Start\<close> looks neither at the result of \<open>StartThread\<close> nor at whether it has run
  before.\<close>

definition Cocos_Start :: "cocos \<Rightarrow> (int \<times> cocos) exec" where
  "Cocos_Start s =
     bindE (CPT_StartThread (Some cocos_settings) True (ci_default s)) (\<lambda>((ret, created), p).
       Done (0, s\<lparr>ci_default := p, ci_workers := ci_workers s @ (if created then [Spawned] else [])\<rparr>))"

definition Cocos_Resume :: "cocos \<Rightarrow> int \<times> cocos" where
  "Cocos_Resume s = (0, s)"

definition Cocos_Stop :: "cocos \<Rightarrow> cocos exec" where
  "Cocos_Stop s = bindE (CPT_TerminateThread (ci_default s)) (\<lambda>(ret, p). Done (s\<lparr>ci_default := p\<rparr>))"

definition Cocos_Send :: "codec \<Rightarrow> net_answers \<Rightarrow> byte list \<Rightarrow> cocos \<Rightarrow> (int \<times> cocos) exec" where
  "Cocos_Send cd a bin s =
     bindE (CPT_PushMessageToSendQ cd a (Some bin) (ci_default s)) (\<lambda>((ret, out), p).
       Done (0, s\<lparr>ci_default := p, ci_sent := ci_sent s @ out\<rparr>))"

text \<open>\<open>Recv\<close>: its result and what it assigns to \<open>bin\<close>, if it does. The code of
  \<open>PopMessageFromRecvQ\<close> is dropped; when it fails, \<open>len\<close> is still the size of the buffer.\<close>

definition Cocos_Recv :: "codec \<Rightarrow> net_answers \<Rightarrow> cocos \<Rightarrow> (int \<times> byte list option \<times> cocos) exec" where
  "Cocos_Recv cd a s =
     (if \<not> ci_has_pkg s then Done (0, None, s)
      else
        bindE (CPT_PopMessageFromRecvQ cd a (Some kRecvSize) (ci_default s)) (\<lambda>((ret, got), p).
          let len = (case got of None \<Rightarrow> kRecvSize | Some d \<Rightarrow> length d);
              buf = (case got of None \<Rightarrow> ci_data s | Some d \<Rightarrow> d @ drop (length d) (ci_data s))
          in Done (int len, Some (take len buf), s\<lparr>ci_default := p, ci_data := buf\<rparr>)))"

text \<open>The worker threads: \<open>MainLoop\<close> of the \<open>i\<close>th, its start and one round of its loop.\<close>

definition cocos_worker_begin :: "net_answers \<Rightarrow> nat \<Rightarrow> cocos \<Rightarrow> cocos exec" where
  "cocos_worker_begin a i s =
     bindE (cpt_call (MainLoop_start a) (ci_default s)) (\<lambda>(ret, p).
       let s1 = s\<lparr>ci_default := p\<rparr> in
       Done (if ret \<noteq> 0 then (cocos_OnWorkerThreadExit s1)\<lparr>ci_workers := (ci_workers s1)[i := Finished]\<rparr>
             else s1\<lparr>ci_workers := (ci_workers s1)[i := Looping]\<rparr>))"

definition MainLoop_round ::
    "codec \<Rightarrow> net_answers \<Rightarrow> bool \<Rightarrow> thread_imp
     \<Rightarrow> ((int \<times> client_event list \<times> byte list \<times> bool) option \<times> thread_imp) exec" where
  "MainLoop_round cd a flag th =
     (if exit_flag th then Done (None, th)
      else bindE (on_proto (\<lambda>c. bindE (Update cd a flag c)
                    (\<lambda>(ret, evs, out, flag1, c1). Done ((ret, evs, out, flag1), c1))) th)
             (\<lambda>(r, th1). Done (Some r, th1)))"

definition cocos_worker_round :: "codec \<Rightarrow> net_answers \<Rightarrow> nat \<Rightarrow> cocos \<Rightarrow> cocos exec" where
  "cocos_worker_round cd a i s =
     bindE (cpt_call (MainLoop_round cd a (ci_done_flag s)) (ci_default s)) (\<lambda>(r, p).
       case r of
         None \<Rightarrow> Done ((cocos_OnWorkerThreadExit s)\<lparr>ci_workers := (ci_workers s)[i := Finished]\<rparr>)
       | Some (ret, evs, out, flag) \<Rightarrow>
           (let s1 = fold cocos_event evs (s\<lparr>ci_default := p, ci_done_flag := flag, ci_sent := ci_sent s @ out\<rparr>)
            in Done (if ret < 0 then (cocos_OnWorkerThreadExit s1)\<lparr>ci_workers := (ci_workers s1)[i := Finished]\<rparr>
                     else s1)))"

section \<open>What the engine receives\<close>

text \<open>The client behind the engine's calls.\<close>

definition cocos_client :: "cocos \<Rightarrow> client option" where
  "cocos_client s = (case cpt_imp (ci_default s) of None \<Rightarrow> None | Some th \<Rightarrow> ccproto th)"

lemma cocos_client_Some:
  assumes "cocos_client s = Some c"
  obtains th where "cpt_imp (ci_default s) = Some th" "ccproto th = Some c"
  using assms by (auto simp: cocos_client_def split: option.splits)

lemma Cocos_Recv_pop:
  assumes "cocos_client s = Some c" and "ci_has_pkg s"
    and "PopMessageFromRecvQ cd a (Some kRecvSize) c = Done (ret, got, c1)"
  shows "\<exists>s1. Cocos_Recv cd a s
      = Done (case got of None \<Rightarrow> (int kRecvSize, Some (take kRecvSize (ci_data s)), s1)
                        | Some d \<Rightarrow> (int (length d), Some d, s1))
    \<and> cocos_client s1 = Some c1 \<and> ci_has_pkg s1
    \<and> ci_data s1 = (case got of None \<Rightarrow> ci_data s | Some d \<Rightarrow> d @ drop (length d) (ci_data s))"
proof -
  obtain th where th: "cpt_imp (ci_default s) = Some th" "ccproto th = Some c"
    using cocos_client_Some [OF assms(1)] .
  define s1 where "s1 = s\<lparr>ci_default := (ci_default s)\<lparr>cpt_imp := Some (th\<lparr>ccproto := Some c1\<rparr>)\<rparr>,
     ci_data := (case got of None \<Rightarrow> ci_data s | Some d \<Rightarrow> d @ drop (length d) (ci_data s))\<rparr>"
  have "Cocos_Recv cd a s = Done (case got of None \<Rightarrow> (int kRecvSize, Some (take kRecvSize (ci_data s)), s1)
                        | Some d \<Rightarrow> (int (length d), Some d, s1))"
    using assms(2,3) th
    by (simp add: Cocos_Recv_def CPT_PopMessageFromRecvQ_def cpt_call_def Thread_Pop_def on_proto_def s1_def
        Let_def split: option.split)
  then show ?thesis
    using assms(2) by (intro exI [of _ s1]) (simp add: s1_def cocos_client_def)
qed

text \<open>A message the game can be given, and the static buffer after it.\<close>

definition cocos_data :: "codec \<Rightarrow> byte list \<Rightarrow> bool" where
  "cocos_data cd m = (fits_client_frame m \<and> cs_bodyid (cs_parse cd (View m)) = CS_DATA_TRANSPARENT
     \<and> length (csmsg_data (cs_parse cd (View m))) \<le> kRecvSize)"

definition overlay :: "byte list \<Rightarrow> byte list \<Rightarrow> byte list" where
  "overlay d buf = d @ drop (length d) buf"

fun recv_calls :: "codec \<Rightarrow> net_answers list \<Rightarrow> cocos \<Rightarrow> ((int \<times> byte list option) list \<times> cocos) exec" where
  "recv_calls cd [] s = Done ([], s)"
| "recv_calls cd (a # as) s =
     bindE (Cocos_Recv cd a s) (\<lambda>(n, bin, s1).
       bindE (recv_calls cd as s1) (\<lambda>(rs, s2). Done ((n, bin) # rs, s2)))"

lemma overlay_length: "length d \<le> length buf \<Longrightarrow> length (overlay d buf) = length buf"
  by (simp add: overlay_def)

lemma pop_data_message:
  assumes "sock_sound (tcp_sock c)" and "recvq (tcp_sock c) = encode_frame m @ r" and "cocos_data cd m"
  shows "\<exists>ret c'. PopMessageFromRecvQ cd a (Some kRecvSize) c = Done (ret, Some (csmsg_data (cs_parse cd (View m))), c')
    \<and> sock_sound (tcp_sock c') \<and> recvq (tcp_sock c') = r"
proof -
  have sound: "tu_ok (tcp_sock c)" "tcp_pkg_parser_imp (tcp_sock c) = Some client_parse"
    using assms(1) by (simp_all add: sock_sound_def)
  obtain ret d u m' where keeps: "PopMessageFromRecvQ cd a (Some kRecvSize) c
        = Done (ret, d, c\<lparr>tcp_sock := u, down_msg := m'\<rparr>)" "sock_sound u"
    using PopMessageFromRecvQ_keeps [OF assms(1), of kRecvSize cd a] by auto
  show ?thesis
    using PopMessageFromRecvQ_head [OF sound assms(2), of kRecvSize cd a] assms(3) keeps
    by (auto simp: cocos_data_def Let_def)
qed

lemma pop_nothing:
  assumes "sock_sound (tcp_sock c)" and "recvq (tcp_sock c) = []"
  shows "PopMessageFromRecvQ cd a (Some kRecvSize) c = Done (-1, None, c)"
proof -
  have "HasNewPkg (tcp_sock c) = (False, tcp_sock c)"
    using assms by (simp add: HasNewPkg_def Let_def sock_sound_def recvq_def client_parse_def GetPkgLen_def)
  then show ?thesis
    by (simp add: PopMessageFromRecvQ_def PeekMessage_def)
qed

lemma recv_calls_empty:
  assumes "cocos_client s = Some c" and "ci_has_pkg s" and "sock_sound (tcp_sock c)"
    and "recvq (tcp_sock c) = []" and "length (ci_data s) = kRecvSize"
  shows "\<exists>s'. recv_calls cd as s = Done (replicate (length as) (int kRecvSize, Some (ci_data s)), s')"
  using assms
proof (induction as arbitrary: s)
  case (Cons a as)
  obtain s1 where call: "Cocos_Recv cd a s = Done (int kRecvSize, Some (take kRecvSize (ci_data s)), s1)"
      and s1: "cocos_client s1 = Some c" "ci_has_pkg s1" "ci_data s1 = ci_data s"
    using Cocos_Recv_pop [OF Cons.prems(1,2) pop_nothing [OF Cons.prems(3,4)], of cd a] by auto
  have "\<exists>s'. recv_calls cd as s1 = Done (replicate (length as) (int kRecvSize, Some (ci_data s1)), s')"
    using Cons.prems s1 by (intro Cons.IH) simp_all
  with call s1(3) Cons.prems(5) show ?case
    by (auto simp del: replicate.simps simp: replicate_Suc)
qed simp

text \<open>C34. What the game gets from \<open>Recv\<close>. Once a packet has been announced, calls on a queue
  of data messages give these messages, one each and in order. Every further call on the empty queue
  returns 1024000 and the whole static buffer, which holds what is left of the earlier messages: the
  game has no way to see that nothing is waiting.\<close>

theorem cocos_recv_messages:
  assumes "cocos_client s = Some c" and "ci_has_pkg s" and "sock_sound (tcp_sock c)"
    and "recvq (tcp_sock c) = concat (map encode_frame ms)" and "\<forall>m \<in> set ms. cocos_data cd m"
    and "length (ci_data s) = kRecvSize" and "length as = length ms + k"
  shows "let ds = map (\<lambda>m. csmsg_data (cs_parse cd (View m))) ms in
    \<exists>s'. recv_calls cd as s
       = Done (map (\<lambda>d. (int (length d), Some d)) ds
                 @ replicate k (int kRecvSize, Some (fold overlay ds (ci_data s))), s')"
  using assms
proof (induction ms arbitrary: s c as)
  case Nil
  then show ?case
    using recv_calls_empty [of s c cd as] by simp
next
  case (Cons m ms)
  define d where "d = csmsg_data (cs_parse cd (View m))"
  obtain a rest where as: "as = a # rest" "length rest = length ms + k"
    using Cons.prems(7) by (cases as) auto
  have short: "length d \<le> length (ci_data s)"
    using Cons.prems(5,6) by (simp add: cocos_data_def d_def)
  obtain ret c1 where pop: "PopMessageFromRecvQ cd a (Some kRecvSize) c = Done (ret, Some d, c1)"
      and c1: "sock_sound (tcp_sock c1)" "recvq (tcp_sock c1) = concat (map encode_frame ms)"
    using pop_data_message [OF Cons.prems(3), of m "concat (map encode_frame ms)" cd a] Cons.prems(4,5)
    by (auto simp: d_def)
  obtain s1 where call: "Cocos_Recv cd a s = Done (int (length d), Some d, s1)"
      and s1: "cocos_client s1 = Some c1" "ci_has_pkg s1" "ci_data s1 = overlay d (ci_data s)"
    using Cocos_Recv_pop [OF Cons.prems(1,2) pop] by (auto simp: overlay_def)
  show ?case
    using Cons.IH [OF s1(1,2) c1 _ _ as(2)] Cons.prems(5,6) short call s1(3)
    by (auto simp: as(1) Let_def d_def [symmetric] overlay_length)
qed

definition sample_cocos :: "byte list \<Rightarrow> cocos" where
  "sample_cocos q = cocos_new\<lparr>ci_has_pkg := True, ci_state_ok := True, ci_workers := [Looping],
     ci_default := \<lparr>cpt_imp = Some (thread_new\<lparr>ccproto := Some (sample_client SESSION_STATE_DONE q)\<rparr>)\<rparr>\<rparr>"

theorem cocos_recv_messages_witness:
  "\<exists>s'. recv_calls client_codec [client_answers, client_answers, client_answers]
           (sample_cocos (encode_frame [16, 65, 66] @ encode_frame [16, 67]))
       = Done ([(2, Some [65, 66]), (1, Some [67]), (1024000, Some ([67, 66] @ replicate 1023998 0))], s')"
proof -
  let ?q = "encode_frame [16, 65, 66] @ encode_frame [16, 67]"
  have q: "length ?q < 100"
    by (simp add: encode_frame_def)
  have m: "cs_parse client_codec (View [16, 65, 66]) = cs_message 0 16 (empty_csbody\<lparr>cs_data := Some [65, 66]\<rparr>)"
      "cs_parse client_codec (View [16, 67]) = cs_message 0 16 (empty_csbody\<lparr>cs_data := Some [67]\<rparr>)"
    by (simp_all add: client_codec_def)
  have data: "csmsg_data (cs_parse client_codec (View [16, 65, 66])) = [65, 66]"
      "csmsg_data (cs_parse client_codec (View [16, 67])) = [67]"
    by (simp_all add: m cs_message_def csmsg_data_def)
  have ok: "\<forall>x \<in> set [[16, 65, 66], [16, 67]]. cocos_data client_codec x"
    by (simp add: cocos_data_def m data fits_client_frame_def fits_frame_def) (simp add: cs_message_def csmsg_data_def)
  have "\<exists>s'. recv_calls client_codec [client_answers, client_answers, client_answers] (sample_cocos ?q)
       = Done (map (\<lambda>d. (int (length d), Some d)) [[65, 66], [67]]
           @ replicate 1 (1024000, Some (fold overlay [[65, 66], [67]] (replicate kRecvSize 0))), s')"
    using cocos_recv_messages [of "sample_cocos ?q" "sample_client SESSION_STATE_DONE ?q" "[[16, 65, 66], [16, 67]]"
        client_codec "[client_answers, client_answers, client_answers]" 1] ok sample_client_ok [OF q, of SESSION_STATE_DONE]
    by (simp add: sample_cocos_def cocos_client_def sock_sound_def cocos_new_def data)
  then show ?thesis
    by (simp add: overlay_def drop_replicate)
qed

section \<open>Starting and stopping\<close>

text \<open>Using the binding out of order. A message sent before the first \<open>Start\<close> fails the
  assertion on the client. \<open>TerminateThread\<close> sets a flag that nothing resets, so after
  \<open>Stop\<close> the worker of every later \<open>Start\<close> fails its assertion, and so does the first one if it
  has not begun yet.\<close>

lemma send_before_start_crashes:
  "Cocos_Send cd a bin cocos_new = Crash AssertFailed"
  by (simp add: Cocos_Send_def CPT_PushMessageToSendQ_def cpt_call_def PushMessageToSendQ_def on_proto_def
      cocos_new_def ConnectorClientProtocolThread_new_def thread_new_def)

definition stopped :: "cocos \<Rightarrow> bool" where
  "stopped s = (\<exists>th. cpt_imp (ci_default s) = Some th \<and> exit_flag th)"

lemma stopped_worker_crashes:
  assumes "stopped s"
  shows "cocos_worker_begin a i s = Crash AssertFailed"
  using assms by (auto simp: stopped_def cocos_worker_begin_def cpt_call_def MainLoop_start_def)

text \<open>What the engine's thread and the workers can do, one call at a time.\<close>

inductive cocos_step :: "codec \<Rightarrow> cocos \<Rightarrow> cocos exec \<Rightarrow> bool" for cd where
  start: "cocos_step cd s (bindE (Cocos_Start s) (\<lambda>(ret, s1). Done s1))"
| stop: "cocos_step cd s (Cocos_Stop s)"
| resume: "cocos_step cd s (Done (snd (Cocos_Resume s)))"
| send: "cocos_step cd s (bindE (Cocos_Send cd a bin s) (\<lambda>(ret, s1). Done s1))"
| recv: "cocos_step cd s (bindE (Cocos_Recv cd a s) (\<lambda>(n, bin, s1). Done s1))"
| begin_worker: "i < length (ci_workers s) \<Longrightarrow> ci_workers s ! i = Spawned
    \<Longrightarrow> cocos_step cd s (cocos_worker_begin a i s)"
| round: "i < length (ci_workers s) \<Longrightarrow> ci_workers s ! i = Looping
    \<Longrightarrow> cocos_step cd s (cocos_worker_round cd a i s)"

inductive_cases cocos_stepE: "cocos_step cd s r"

inductive cocos_steps :: "codec \<Rightarrow> cocos \<Rightarrow> cocos \<Rightarrow> bool" for cd where
  refl: "cocos_steps cd s s"
| more: "cocos_steps cd s s1 \<Longrightarrow> cocos_step cd s1 (Done s2) \<Longrightarrow> cocos_steps cd s s2"

lemma cpt_call_Done:
  assumes "cpt_call f p = Done (r, p1)"
  obtains th th1 where "cpt_imp p = Some th" "f th = Done (r, th1)" "p1 = p\<lparr>cpt_imp := Some th1\<rparr>"
  using assms by (auto simp: cpt_call_def bindE_eq_Done split: option.splits prod.splits)

lemma on_proto_exit: "on_proto f th = Done (r, th1) \<Longrightarrow> exit_flag th1 = exit_flag th"
  by (auto simp: on_proto_def bindE_eq_Done split: option.splits)

lemma fold_events_default [simp]: "ci_default (fold cocos_event evs s) = ci_default s"
proof (induction evs arbitrary: s)
  case (Cons e evs)
  then show ?case
    by (cases e) simp_all
qed simp

lemma stopped_default: "ci_default s' = ci_default s \<Longrightarrow> stopped s' = stopped s"
  by (simp add: stopped_def)

lemma cpt_call_stopped:
  assumes "cpt_call f (ci_default s) = Done (r, p)" and "stopped s" and "ci_default s' = p"
    and "\<And>th r th1. f th = Done (r, th1) \<Longrightarrow> exit_flag th \<Longrightarrow> exit_flag th1"
  shows "stopped s'"
  using assms by (auto simp: stopped_def elim!: cpt_call_Done)

lemma Done_eq_bindE: "Done b = bindE m k \<longleftrightarrow> (\<exists>a. m = Done a \<and> k a = Done b)"
  by (cases m) auto

lemma stopped_step:
  assumes "cocos_step cd s (Done s1)" and "stopped s"
  shows "stopped s1"
proof -
  obtain r where step: "cocos_step cd s r" "r = Done s1"
    using assms(1) by blast
  from step(1) show ?thesis
  proof cases
    case start
    then show ?thesis
      using step(2) assms(2)
      by (auto simp: Cocos_Start_def CPT_StartThread_def StartThread_def Done_eq_bindE bindE_eq_Done
          elim!: cpt_call_stopped split: if_splits)
  next
    case stop
    then show ?thesis
      using step(2) assms(2)
      by (auto simp: Cocos_Stop_def CPT_TerminateThread_def TerminateThread_def Done_eq_bindE bindE_eq_Done elim!: cpt_call_stopped)
  next
    case resume
    then show ?thesis
      using step(2) assms(2) by (simp add: Cocos_Resume_def)
  next
    case (send a bin)
    then show ?thesis
      using step(2) assms(2)
      by (auto simp: Cocos_Send_def CPT_PushMessageToSendQ_def PushMessageToSendQ_def Done_eq_bindE bindE_eq_Done
          elim!: cpt_call_stopped dest: on_proto_exit)
  next
    case (recv a)
    then show ?thesis
      using step(2) assms(2)
      by (auto simp: Cocos_Recv_def CPT_PopMessageFromRecvQ_def Thread_Pop_def Done_eq_bindE bindE_eq_Done Let_def
          elim!: cpt_call_stopped dest: on_proto_exit split: if_splits)
  next
    case (begin_worker i a)
    then show ?thesis
      using step(2) assms(2) by (simp add: stopped_worker_crashes)
  next
    case (round i a)
    then have run: "cocos_worker_round cd a i s = Done s1"
      using step(2) by simp
    then obtain x p where call: "cpt_call (MainLoop_round cd a (ci_done_flag s)) (ci_default s) = Done (x, p)"
      unfolding cocos_worker_round_def bindE_eq_Done by auto
    have s1: "ci_default s1 = ci_default s \<or> ci_default s1 = p"
    proof (cases x)
      case None
      then show ?thesis
        using run call by (auto simp: cocos_worker_round_def cocos_OnWorkerThreadExit_def)
    next
      case (Some y)
      obtain ret evs out flag where "y = (ret, evs, out, flag)"
        by (cases y)
      then show ?thesis
        using run call Some
        by (auto simp: cocos_worker_round_def cocos_OnWorkerThreadExit_def Let_def split: if_splits)
    qed
    have keeps: "exit_flag th1" if "MainLoop_round cd a (ci_done_flag s) th = Done (y, th1)" "exit_flag th" for th y th1
      using that by (simp add: MainLoop_round_def)
    from s1 show ?thesis
    proof
      assume "ci_default s1 = p"
      from call assms(2) this show ?thesis
        by (rule cpt_call_stopped) (rule keeps)
    qed (use assms(2) stopped_default in blast)
  qed
qed

lemma cocos_stop_final:
  assumes "cocos_steps cd s s'" and "stopped s"
  shows "stopped s' \<and> cocos_worker_begin a i s' = Crash AssertFailed"
  using assms by (induction rule: cocos_steps.induct) (auto intro: stopped_step stopped_worker_crashes)

end
