(* ===== verification/ClientDemo.thy ===== *)
theory ClientDemo
  imports PingPong
begin

text \<open>
  The RPC sample client \<open>sample/client_demo\<close>: an application that makes one call on its first
  update, and what becomes of the call. The coroutines of the calls belong to the framework, and what
  they do to the world is send on a connection; they run on a record of the sends and of the callbacks
  made, and the sends are carried out when the coroutine has yielded, which it does right after its send.
\<close>

section \<open>The application\<close>

record rpc_io =
  io_sent :: "(ptr \<times> byte list) list"
  io_called :: "(test_rpc \<times> test_rpc option \<times> int) list"

text \<open>The callback logs the request, the response and the status.\<close>

definition PingPongCallBack :: "test_rpc \<Rightarrow> test_rpc option \<Rightarrow> int \<Rightarrow> rpc_io \<Rightarrow> rpc_io exec" where
  "PingPongCallBack req res status io = Done (io\<lparr>io_called := io_called io @ [(req, res, status)]\<rparr>)"

definition io_send :: "ptr \<Rightarrow> byte list \<Rightarrow> rpc_io \<Rightarrow> (int \<times> rpc_io) exec" where
  "io_send p buf io = Done (0, io\<lparr>io_sent := io_sent io @ [(p, buf)]\<rparr>)"

text \<open>\<open>ClientDemoApp\<close>, the framework's scheduler, the static variables of the RPC component and
  the static message of the parser.\<close>

record cdemo =
  cd_stub :: bool
  cd_rpc :: "EasyRpc option"
  cd_sched :: "rpc_io rpc_state scheduler"
  cd_rs :: "rpc_io rpc_state"
  cd_msg :: RpcMessage

fun do_sends :: "(ptr \<times> byte list) list \<Rightarrow> ('c, cdemo) world \<Rightarrow> ('c, cdemo) world exec" where
  "do_sends [] w = Done w"
| "do_sends ((p, buf) # out) w = bindE (net_Send p (Some buf) w) (\<lambda>(r, w1). do_sends out w1)"

text \<open>An operation of the RPC component on the application's instance.\<close>

definition run_rpc ::
    "(EasyRpc \<Rightarrow> rpc_io rpc_state scheduler \<Rightarrow> rpc_io rpc_state
       \<Rightarrow> (int \<times> EasyRpc \<times> rpc_io rpc_state scheduler \<times> rpc_io rpc_state) exec)
     \<Rightarrow> EasyRpc \<Rightarrow> ('c, cdemo) world \<Rightarrow> (int \<times> ('c, cdemo) world) exec" where
  "run_rpc f rpc w =
     bindE (f rpc (cd_sched (app_state w)) (cd_rs (app_state w))) (\<lambda>(ret, rpc1, sch, rs).
       bindE (do_sends (io_sent (rs_world rs))
                (w\<lparr>app_state := (app_state w)\<lparr>cd_rpc := Some rpc1, cd_sched := sch,
                     cd_rs := rs\<lparr>rs_world := (rs_world rs)\<lparr>io_sent := []\<rparr>\<rparr>\<rparr>\<rparr>))
         (\<lambda>w1. Done (ret, w1)))"

definition kRpcAddr :: ptr where
  "kRpcAddr = 1"

definition cd_OnInit :: "('c, cdemo) rapid_app \<Rightarrow> ('c, cdemo) world \<Rightarrow> (int \<times> ('c, cdemo) world) exec" where
  "cd_OnInit app w =
     (let w1 = ScheduleUpdate (w\<lparr>app_state := (app_state w)\<lparr>cd_stub := True\<rparr>\<rparr>) in
      bindE (CreateRpc app True True kRpcAddr (Some ''tcp://127.0.0.1:7891'') 0 w1) (\<lambda>(rpc, w2).
        Done (if rpc = None then -1 else 0, w2\<lparr>app_state := (app_state w2)\<lparr>cd_rpc := rpc\<rparr>\<rparr>)))"

definition cd_OnFini :: "('c, cdemo) world \<Rightarrow> (int \<times> ('c, cdemo) world) exec" where
  "cd_OnFini w =
     (case cd_rpc (app_state w) of
        None \<Rightarrow> Done (0, w)
      | Some rpc \<Rightarrow>
          bindE (DestroyRpc (Some rpc) (cd_sched (app_state w)) w) (\<lambda>(ret, sch, w1).
            Done (0, w1\<lparr>app_state := (app_state w1)\<lparr>cd_rpc := None, cd_sched := sch\<rparr>\<rparr>)))"

text \<open>\<open>OnUpdate\<close>; the call is only compiled into the debug build. Its result is dropped.\<close>

definition cd_OnUpdate :: "test_rpc protobuf \<Rightarrow> bool \<Rightarrow> ('c, cdemo) world \<Rightarrow> ('c, cdemo) world exec" where
  "cd_OnUpdate pb dbg w =
     bindE (case cd_rpc (app_state w) of
              Some rpc \<Rightarrow>
                if dbg then
                  run_rpc (RpcCall pb io_send True True (Some (Ping 150)) (Some (pb_name pb (Pong 0)))
                             (Some PingPongCallBack)) rpc w
                else Done (0, w)
            | None \<Rightarrow> Done (-1, w))
       (\<lambda>(ret, w1). Done (UnScheduleUpdate w1))"

definition cd_OnRecvFrontEnd :: "ptr \<Rightarrow> int \<Rightarrow> view \<Rightarrow> ('c, cdemo) world \<Rightarrow> (int \<times> ('c, cdemo) world) exec" where
  "cd_OnRecvFrontEnd net type msg w =
     (if \<not> cd_stub (app_state w) then Done (-1, w)
      else
        (case msg of
           View m \<Rightarrow> bindE (SendToFrontEnd (Some net) (Some m) w) (\<lambda>(r, w1). Done (0, w1))
         | Wild k \<Rightarrow>
             bindE (get_net net w) (\<lambda>n.
               if hevent n = None then Crash AssertFailed
               else if net_state n \<noteq> NET_ESTABLISHED then Done (0, w)
               else (let (r1, w1) = draw_write w in if r1 \<noteq> 0 then Done (0, w1) else Crash OutOfBounds))))"

definition cd_base :: "test_rpc protobuf \<Rightarrow> bool \<Rightarrow> 'c \<Rightarrow> ('c, cdemo) rapid_app" where
  "cd_base pb dbg z =
     \<lparr>OnInit = (\<lambda>w. Done (0, w)), OnFini = cd_OnFini, OnUpdate = cd_OnUpdate pb dbg, OnReload = Done,
      OnRecvCtrl = (\<lambda>_ w. Done (0, w)), OnFrontEndConnect = (\<lambda>_ _ w. Done (0, w)),
      OnFrontEndClose = (\<lambda>_ _ w. Done (0, w)), OnRecvFrontEnd = cd_OnRecvFrontEnd,
      OnRecvBackEnd = (\<lambda>_ _ _ w. Done (0, w)), OnTimer = (\<lambda>_ _ w. Done w),
      GetFrontEndContextSize = 0, GetBackEndContextSize = 0, zero_context = z\<rparr>"

definition cd_app :: "test_rpc protobuf \<Rightarrow> bool \<Rightarrow> 'c \<Rightarrow> ('c, cdemo) rapid_app" where
  "cd_app pb dbg z = (cd_base pb dbg z)\<lparr>OnInit := cd_OnInit (cd_base pb dbg z)\<rparr>"

text \<open>The framework's entries into the RPC component. The sample registers no service.\<close>

definition cd_hooks :: "test_rpc protobuf \<Rightarrow> ('c, cdemo) rpc_hooks" where
  "cd_hooks pb =
     \<lparr>OnFrontEndRpcMsg = (\<lambda>p v w.
        bindE (fw_OnFrontEndRpcMsg pb None True p v (cd_msg (app_state w)) w)
          (\<lambda>(r, m, w1). Done (r, w1\<lparr>app_state := (app_state w1)\<lparr>cd_msg := m\<rparr>\<rparr>))),
      rpc_IsActive = (\<lambda>_ w. case cd_rpc (app_state w) of None \<Rightarrow> False | Some rpc \<Rightarrow> IsActive rpc),
      rpc_Resume = (\<lambda>_ v w.
        case cd_rpc (app_state w) of
          None \<Rightarrow> Done w
        | Some rpc \<Rightarrow> bindE (run_rpc (Rpc_Resume pb v) rpc w) (\<lambda>(r, w1). Done w1))\<rparr>"

section \<open>Whole runs\<close>

text \<open>The calls the client has open: coroutines that wait for a reply, on the connection \<open>p\<close>.\<close>

definition calls_ok :: "test_rpc protobuf \<Rightarrow> ptr \<Rightarrow> EasyRpc \<Rightarrow> rpc_io rpc_state scheduler \<Rightarrow> bool" where
  "calls_ok pb p rpc sch =
     (sched_ok sch \<and> rpc_scheduler rpc \<and> rpc_net rpc = Some p
      \<and> (\<forall>cid co. map_of (coroutine_table sch) cid = Some co \<longrightarrow>
           (\<exists>req t. co_func co = RpcFunction_resumed pb
              \<lparr>rc_callback = PingPongCallBack, rc_request = req, rc_response = Some t\<rparr>)))"

definition cd_inv :: "test_rpc protobuf \<Rightarrow> ('c, cdemo) world \<Rightarrow> bool" where
  "cd_inv pb w =
     (\<exists>rpc. \<exists>p \<in> pool_ptrs (backend_mgr w).
        cd_rpc (app_state w) = Some rpc \<and> calls_ok pb p rpc (cd_sched (app_state w))
        \<and> io_sent (rs_world (cd_rs (app_state w))) = [])"

definition cd_begins :: "('c, cdemo) world \<Rightarrow> bool" where
  "cd_begins w = (fds_fresh w \<and> sched_ok (cd_sched (app_state w)) \<and> coroutine_table (cd_sched (app_state w)) = []
     \<and> io_sent (rs_world (cd_rs (app_state w))) = [])"

lemma net_Send_app: "net_Send p msg w = Done (r, w') \<Longrightarrow> app_state w' = app_state w"
  by (auto simp: net_Send_def bindE_eq_Done draw_write_def set_net_def Let_def
      split: if_splits prod.splits list.splits)

lemma do_sends_kept:
  assumes "world_ok w" and "\<forall>x \<in> set out. fst x \<in> all_ptrs w"
  shows "\<exists>w'. do_sends out w = Done w' \<and> pools_kept w w' \<and> app_state w' = app_state w"
  using assms
proof (induction out arbitrary: w)
  case Nil
  then show ?case
    by (simp add: pools_kept_refl)
next
  case (Cons x out)
  obtain p buf where x: "x = (p, buf)"
    by (cases x)
  obtain r w1 where w1: "net_Send p (Some buf) w = Done (r, w1)" "pools_kept w w1"
    using net_Send_kept [OF Cons.prems(1), of p "Some buf"] Cons.prems(2) x by auto
  have app: "app_state w1 = app_state w"
    using net_Send_app [OF w1(1)] .
  obtain w2 where "do_sends out w1 = Done w2" "pools_kept w1 w2" "app_state w2 = app_state w1"
    using Cons.IH [OF pools_kept_ok [OF w1(2)]] Cons.prems(2) pools_kept_ptrs [OF w1(2)] by auto
  with w1 app x show ?case
    by (auto intro: pools_kept_trans)
qed

lemma calls_okD:
  assumes "calls_ok pb p rpc sch"
  shows "sched_ok sch" "rpc_scheduler rpc" "rpc_net rpc = Some p"
  using assms by (simp_all add: calls_ok_def)

text \<open>A new call: refused, or one more coroutine that has sent its request.\<close>

lemma RpcCall_calls:
  assumes ok: "calls_ok pb p rpc sch"
  shows "\<exists>ret rpc1 sch1 rs1. RpcCall pb io_send True True (Some req) (Some t) (Some PingPongCallBack) rpc sch rs
      = Done (ret, rpc1, sch1, rs1) \<and> calls_ok pb p rpc1 sch1
    \<and> (\<exists>out. io_sent (rs_world rs1) = io_sent (rs_world rs) @ out \<and> (\<forall>x \<in> set out. fst x = p))"
proof (cases "length (coroutine_table sch) < coroutine_max sch")
  case False
  then have "RpcCall pb io_send True True (Some req) (Some t) (Some PingPongCallBack) rpc sch rs = Done (-1, rpc, sch, rs)"
    using calls_okD [OF ok] by (simp add: RpcCall_def CreateCoroutine_def)
  with ok show ?thesis
    by auto
next
  case True
  note ok' = calls_okD [OF ok]
  let ?ctx = "\<lparr>rc_callback = PingPongCallBack, rc_request = req, rc_response = Some t\<rparr>"
  let ?f = "RpcFunction pb io_send (rpc_net rpc) ?ctx"
  obtain sch1 where sch1: "CreateCoroutine True (Some ?f) sch = (cid_seed sch, sch1)" "sched_ok sch1"
      "map_of (coroutine_table sch1) = (map_of (coroutine_table sch))
         (cid_seed sch \<mapsto> \<lparr>co_idx = cid_seed sch, co_state = COROUTINE_READY, co_func = ?f\<rparr>)"
    using CreateCoroutine_new [OF ok'(1) True, of ?f] by blast
  let ?buf = "snd (MessageToBinary pb RPC_TYPE_REQUEST (asyncid_seed rs) (Some req) (rpc_buf rs))"
  let ?rs = "rs\<lparr>rs_world := (rs_world rs)\<lparr>io_sent := io_sent (rs_world rs) @ [(p, ?buf)]\<rparr>,
     asyncid_seed := asyncid_seed rs + 1, rpc_buf := ?buf\<rparr>"
  have "co_step ?f rs = Done (?rs, RpcFunction_resumed pb ?ctx)"
    using ok'(3) by (simp add: co_step_def RpcFunction_def io_send_def Let_def)
  with ResumeCoroutine_runs [OF sch1(2), of "cid_seed sch"] sch1(3) obtain sch2 where
      sch2: "ResumeCoroutine (cid_seed sch) rs sch1 = Done (0, ?rs, sch2)" "sched_ok sch2"
        "map_of (coroutine_table sch2) = (map_of (coroutine_table sch1))(cid_seed sch :=
           co_after \<lparr>co_idx = cid_seed sch, co_state = COROUTINE_READY, co_func = ?f\<rparr> (RpcFunction_resumed pb ?ctx))"
    by fastforce
  have "calls_ok pb p (rpc\<lparr>crid_list := crid_list rpc @ [(cid_seed sch, asyncid_seed rs)]\<rparr>) sch2"
    using ok sch2(2,3) sch1(3)
    by (auto simp: calls_ok_def co_after_def RpcFunction_resumed_def split: if_splits)
  moreover have "0 \<le> cid_seed sch"
    using ok'(1) by (simp add: sched_ok_def)
  ultimately show ?thesis
    using ok' sch1(1) sch2(1) by (auto simp: RpcCall_def)
qed

text \<open>A message for the RPC component: at most one call ends, with its callback.\<close>

lemma Rpc_Resume_calls:
  assumes ok: "calls_ok pb p rpc sch"
  shows "\<exists>ret rpc1 sch1 rs1. Rpc_Resume pb v rpc sch rs = Done (ret, rpc1, sch1, rs1)
    \<and> calls_ok pb p rpc1 sch1 \<and> io_sent (rs_world rs1) = io_sent (rs_world rs)"
proof -
  note ok' = calls_okD [OF ok]
  obtain ret m where m: "UnpackToRpcMsg pb v (rpc_msg rs) = (ret, m)"
    by (cases "UnpackToRpcMsg pb v (rpc_msg rs)")
  let ?cid = "GetCoroutineIdxByAsyncId (rm_asyncid m) rpc" and ?rs = "rs\<lparr>rpc_msg := m\<rparr>"
  have drop: "calls_ok pb p (RemoveByCoroutineId cid rpc) sch1 = calls_ok pb p rpc sch1" for cid sch1
    by (simp add: calls_ok_def RemoveByCoroutineId_def)
  show ?thesis
  proof (cases "v = View [] \<or> ret \<noteq> 0 \<or> \<not> CoroutineBeenAlive ?cid sch")
    case True
    with ok ok'(2) m show ?thesis
      by (auto simp: Rpc_Resume_def Let_def drop)
  next
    case False
    then obtain co where co: "map_of (coroutine_table sch) ?cid = Some co"
      using alive_iff [OF ok'(1)] by auto
    then obtain req t where f: "co_func co = RpcFunction_resumed pb
        \<lparr>rc_callback = PingPongCallBack, rc_request = req, rc_response = Some t\<rparr>"
      using ok unfolding calls_ok_def by blast
    let ?io = "(rs_world rs)\<lparr>io_called := io_called (rs_world rs) @ [(req, snd (reply_of pb t m), fst (reply_of pb t m))]\<rparr>"
    have "co_step (co_func co) ?rs = Done (?rs\<lparr>rs_world := ?io\<rparr>, CoEnd)"
      by (simp add: f resumed_step PingPongCallBack_def)
    from ResumeCoroutine_runs [OF ok'(1) co this] obtain sch1 where
        sch1: "ResumeCoroutine ?cid ?rs sch = Done (0, ?rs\<lparr>rs_world := ?io\<rparr>, sch1)" "sched_ok sch1"
          "map_of (coroutine_table sch1) = (map_of (coroutine_table sch))(?cid := co_after co CoEnd)"
      by blast
    have "calls_ok pb p rpc sch1"
      using ok sch1(2,3) by (auto simp: calls_ok_def co_after_def split: if_splits)
    with False ok'(2) m sch1(1) drop show ?thesis
      by (auto simp: Rpc_Resume_def Let_def)
  qed
qed

lemma run_rpc_safe:
  assumes "world_ok w" and "p \<in> pool_ptrs (backend_mgr w)"
    and f: "f rpc (cd_sched (app_state w)) (cd_rs (app_state w)) = Done (ret, rpc1, sch1, rs1)"
    and "calls_ok pb p rpc1 sch1" and "\<forall>x \<in> set (io_sent (rs_world rs1)). fst x = p"
  shows "\<exists>w'. run_rpc f rpc w = Done (ret, w') \<and> pools_kept w w' \<and> cd_inv pb w'"
proof -
  let ?a = "(app_state w)\<lparr>cd_rpc := Some rpc1, cd_sched := sch1, cd_rs := rs1\<lparr>rs_world := (rs_world rs1)\<lparr>io_sent := []\<rparr>\<rparr>\<rparr>"
  let ?w = "w\<lparr>app_state := ?a\<rparr>"
  have ok: "world_ok ?w"
    using assms(1) by simp
  have ptrs: "\<forall>x \<in> set (io_sent (rs_world rs1)). fst x \<in> all_ptrs ?w"
    using assms(2,5) by (simp add: all_ptrs_def)
  obtain w1 where w1: "do_sends (io_sent (rs_world rs1)) ?w = Done w1" "pools_kept ?w w1" "app_state w1 = ?a"
    using do_sends_kept [OF ok ptrs] by auto
  have "cd_inv pb w1"
    using assms(2,4) w1(2,3) by (auto simp: cd_inv_def pools_kept_def)
  with w1 f show ?thesis
    by (auto simp: run_rpc_def pools_kept_def)
qed

lemma cd_invE:
  assumes "cd_inv pb w"
  obtains rpc p where "p \<in> pool_ptrs (backend_mgr w)" "cd_rpc (app_state w) = Some rpc"
    "calls_ok pb p rpc (cd_sched (app_state w))" "io_sent (rs_world (cd_rs (app_state w))) = []"
  using assms by (auto simp: cd_inv_def)

lemma cd_inv_cong:
  "pool_ptrs (backend_mgr w') = pool_ptrs (backend_mgr w) \<Longrightarrow> cd_rpc (app_state w') = cd_rpc (app_state w) \<Longrightarrow>
   cd_sched (app_state w') = cd_sched (app_state w) \<Longrightarrow> cd_rs (app_state w') = cd_rs (app_state w) \<Longrightarrow>
   cd_inv pb w' = cd_inv pb w"
  by (simp add: cd_inv_def)

lemma cd_update_safe:
  assumes "world_ok w" and "cd_inv pb w"
  shows "\<exists>w'. cd_OnUpdate pb dbg w = Done w' \<and> world_ok w' \<and> cd_inv pb w'"
proof -
  obtain rpc p where inv: "p \<in> pool_ptrs (backend_mgr w)" "cd_rpc (app_state w) = Some rpc"
      "calls_ok pb p rpc (cd_sched (app_state w))" "io_sent (rs_world (cd_rs (app_state w))) = []"
    using cd_invE [OF assms(2)] .
  obtain ret rpc1 sch1 rs1 where call: "RpcCall pb io_send True True (Some (Ping 150)) (Some (pb_name pb (Pong 0)))
        (Some PingPongCallBack) rpc (cd_sched (app_state w)) (cd_rs (app_state w)) = Done (ret, rpc1, sch1, rs1)"
      "calls_ok pb p rpc1 sch1" "\<forall>x \<in> set (io_sent (rs_world rs1)). fst x = p"
    using RpcCall_calls [OF inv(3), of "Ping 150" "pb_name pb (Pong 0)" "cd_rs (app_state w)"] inv(4) by auto
  obtain w1 where "run_rpc (RpcCall pb io_send True True (Some (Ping 150)) (Some (pb_name pb (Pong 0)))
        (Some PingPongCallBack)) rpc w = Done (ret, w1)" "pools_kept w w1" "cd_inv pb w1"
    using run_rpc_safe [where f = "RpcCall pb io_send True True (Some (Ping 150)) (Some (pb_name pb (Pong 0)))
        (Some PingPongCallBack)", OF assms(1) inv(1) call] by blast
  with assms inv(2) show ?thesis
    by (cases dbg) (auto simp: cd_OnUpdate_def UnScheduleUpdate_def pools_kept_def world_ok_def cd_inv_def)
qed

lemma cd_resume_safe:
  assumes "world_ok w" and "cd_inv pb w"
  shows "\<exists>w'. rpc_Resume (cd_hooks pb) rp v w = Done w' \<and> pools_kept w w' \<and> cd_inv pb w'"
proof -
  obtain rpc p where inv: "p \<in> pool_ptrs (backend_mgr w)" "cd_rpc (app_state w) = Some rpc"
      "calls_ok pb p rpc (cd_sched (app_state w))" "io_sent (rs_world (cd_rs (app_state w))) = []"
    using cd_invE [OF assms(2)] .
  obtain ret rpc1 sch1 rs1 where "Rpc_Resume pb v rpc (cd_sched (app_state w)) (cd_rs (app_state w))
        = Done (ret, rpc1, sch1, rs1)" "calls_ok pb p rpc1 sch1" "\<forall>x \<in> set (io_sent (rs_world rs1)). fst x = p"
    using Rpc_Resume_calls [OF inv(3), of v "cd_rs (app_state w)"] inv(4) by auto
  from run_rpc_safe [where f = "Rpc_Resume pb v", OF assms(1) inv(1) this] inv(2) show ?thesis
    by (auto simp: cd_hooks_def)
qed

lemma cd_init_safe:
  assumes ok: "world_ok w" and "cd_begins w"
  shows "\<exists>r w'. cd_OnInit (cd_base pb dbg z) w = Done (r, w') \<and> world_ok w' \<and> (r = 0 \<longrightarrow> cd_inv pb w')"
proof -
  let ?w = "ScheduleUpdate (w\<lparr>app_state := (app_state w)\<lparr>cd_stub := True\<rparr>\<rparr>)"
  have start: "world_ok ?w" "fds_fresh ?w" "GetBackEndContextSize (cd_base pb dbg z) = 0"
    using assms by (simp_all add: world_ok_def ScheduleUpdate_def cd_begins_def fds_fresh_def connect_fds_def cd_base_def)
  obtain net w1 where w1: "CreateBackEnd (cd_base pb dbg z) (Some ''tcp://127.0.0.1:7891'') 0 ?w = Done (net, w1)"
      "world_ok w1" "app_state w1 = app_state ?w" "\<And>q. net = Some q \<Longrightarrow> q \<in> pool_ptrs (backend_mgr w1)"
    using CreateBackEnd_new [OF start] by blast
  show ?thesis
  proof (cases net)
    case None
    with w1 show ?thesis
      by (simp add: cd_OnInit_def CreateRpc_def Let_def)
  next
    case (Some q)
    let ?rpc = "EasyRpc_new\<lparr>rpc_net := Some q, rpc_scheduler := True\<rparr>"
    have q: "q \<in> pool_ptrs (backend_mgr w1)"
      using w1(4) Some by simp
    obtain w2 where w2: "modify_net q (\<lambda>n. n\<lparr>rpc_binded := Some kRpcAddr\<rparr>) w1 = Done w2" "pools_kept w1 w2"
      using modify_net_kept [OF w1(2) back_all [OF q], of "\<lambda>n. n\<lparr>rpc_binded := Some kRpcAddr\<rparr>"]
      by (auto simp: same_net_def)
    have "app_state w2 = app_state w1"
      using w2(1) by (auto simp: modify_net_def bindE_eq_Done set_net_def)
    with w2(2) w1(3) q assms(2) have "cd_inv pb (w2\<lparr>app_state := (app_state w2)\<lparr>cd_rpc := Some ?rpc\<rparr>\<rparr>)"
      by (auto simp: cd_inv_def calls_ok_def cd_begins_def pools_kept_def ScheduleUpdate_def EasyRpc_new_def)
    with Some w1(1) w2 show ?thesis
      by (simp add: cd_OnInit_def CreateRpc_def EasyRpc_Init_def Let_def pools_kept_def)
  qed
qed

lemma cd_fini_safe:
  assumes "world_ok w" and "cd_inv pb w"
  shows "\<exists>r w'. cd_OnFini w = Done (r, w') \<and> world_ok w'"
proof -
  obtain rpc p where inv: "p \<in> pool_ptrs (backend_mgr w)" "cd_rpc (app_state w) = Some rpc"
      "calls_ok pb p rpc (cd_sched (app_state w))"
    using cd_invE [OF assms(2)] .
  obtain r h m where rm: "RemoveHandler (Some p) (net_heap w) (backend_mgr w) = Done (r, h, m)"
      "mgr_keeps (pool_ptrs (frontend_mgr w)) (net_heap w) h m"
    using RemoveHandler_keeps [OF world_okD(2) [OF assms(1)] inv(1)] by blast
  with world_ok_back [OF assms(1) rm(2)] inv(2) calls_okD(3) [OF inv(3)] show ?thesis
    by (simp add: cd_OnFini_def DestroyRpc_def DestroyBackEnd_def)
qed

lemma cd_front_safe:
  assumes "world_ok w" and "cd_inv pb w" and "p \<in> pool_ptrs (frontend_mgr w)" and "is_view v"
  shows "\<exists>r w'. cd_OnRecvFrontEnd p t v w = Done (r, w') \<and> world_ok w' \<and> cd_inv pb w' \<and> p \<in> pool_ptrs (frontend_mgr w')"
proof (cases v)
  case (View m)
  obtain r w' where w': "SendToFrontEnd (Some p) (Some m) w = Done (r, w')" "pools_kept w w'"
    using SendToFrontEnd_kept [OF assms(1) front_all [OF assms(3)], of "Some m"] by blast
  have "app_state w' = app_state w"
    using w'(1) by (auto simp: SendToFrontEnd_def modify_net_def bindE_eq_Done set_net_def
        dest!: net_Send_app split: if_splits)
  with w'(2) assms(2) have "cd_inv pb w'"
    by (simp add: cd_inv_def pools_kept_def)
  with View w' assms show ?thesis
    by (cases "cd_stub (app_state w)") (auto simp: cd_OnRecvFrontEnd_def pools_kept_def)
qed (use assms(4) in \<open>simp add: is_view_def\<close>)

lemma cd_rpc_front_safe:
  assumes "world_ok w" and "cd_inv pb w"
  shows "\<exists>r w'. OnFrontEndRpcMsg (cd_hooks pb) p v w = Done (r, w') \<and> world_ok w' \<and> cd_inv pb w'
    \<and> frontend_mgr w' = frontend_mgr w"
proof -
  obtain m where "fw_OnFrontEndRpcMsg pb None True p v (cd_msg (app_state w)) w = Done (-1, m, w)"
    by (cases "SpawnMessage pb v (cd_msg (app_state w))"; cases "fst (SpawnMessage pb v (cd_msg (app_state w)))")
      (simp_all add: fw_OnFrontEndRpcMsg_def)
  with assms show ?thesis
    by (simp add: cd_hooks_def cd_inv_def)
qed

lemma cd_guarded: "guarded_app (front_only is_view) (cd_inv pb) cd_begins (cd_app pb dbg z) (cd_hooks pb)"
proof unfold_locales
  fix w :: "('a, cdemo) world"
  show "cd_inv pb w \<Longrightarrow> undisturbed False w w' \<Longrightarrow> cd_inv pb w'" for w'
    by (simp add: cd_inv_def undisturbed_def)
  show "cd_inv pb w \<Longrightarrow> world_ok w1 \<Longrightarrow> new_front p None w w1 \<Longrightarrow> cd_inv pb w1" for w1 p
    by (simp add: cd_inv_def new_front_def)
  show "cd_inv pb w \<Longrightarrow> world_ok w1 \<Longrightarrow>
      new_front p (if 0 < GetFrontEndContextSize (cd_app pb dbg z) then Some (zero_context (cd_app pb dbg z)) else None) w w1 \<Longrightarrow>
      \<exists>r w2. OnFrontEndConnect (cd_app pb dbg z) p t w1 = Done (r, w2) \<and> sound (cd_inv pb) w2" for w1 p t
    by (simp add: cd_app_def cd_base_def sound_def cd_inv_def new_front_def)
  show "world_ok w \<Longrightarrow> cd_begins w \<Longrightarrow>
      \<exists>r w'. OnInit (cd_app pb dbg z) w = Done (r, w') \<and> world_ok w' \<and> (r = 0 \<longrightarrow> cd_inv pb w')"
    using cd_init_safe by (simp add: cd_app_def)
qed (use cd_fini_safe cd_update_safe cd_front_safe cd_rpc_front_safe cd_resume_safe in
    \<open>fastforce simp: cd_app_def cd_base_def front_only_def ready_def sound_def pools_kept_def\<close>)+

interpretation client_demo: guarded_app "front_only is_view" "cd_inv pb" cd_begins "cd_app pb dbg z" "cd_hooks pb"
  by (rule cd_guarded)

section \<open>A call and its reply\<close>

text \<open>A client whose connection is up and that has no call open; a server in RPC mode with one
  client; both with empty input.\<close>

definition client_idle :: "test_rpc protobuf \<Rightarrow> ptr \<Rightarrow> 64 word \<Rightarrow> ('c, cdemo) world \<Rightarrow> bool" where
  "client_idle pb p seed w =
     (\<exists>rpc limit n b.
        cd_rpc (app_state w) = Some rpc \<and> 0 < limit
        \<and> rpc_ok pb p limit (rpc, cd_sched (app_state w), cd_rs (app_state w))
            (Map.empty, seed, rs_world (cd_rs (app_state w)))
        \<and> io_sent (rs_world (cd_rs (app_state w))) = []
        \<and> nets (net_heap w) p = Some n \<and> hevent n = Some b \<and> bev_in b = [] \<and> net_state n = NET_ESTABLISHED
        \<and> rpc_binded n \<noteq> None \<and> write_rc (env w) = []
        \<and> map_of (handler_pool (backend_mgr w)) (bev_fd b) = Some p)"

definition server_idle :: "ptr \<Rightarrow> ('c, pp_server) world \<Rightarrow> bool" where
  "server_idle q v =
     (\<exists>m c. pp_registered (app_state v) \<and> svc_mode v = SVC_MODE_RPC
        \<and> nets (net_heap v) q = Some m \<and> hevent m = Some c \<and> bev_in c = [] \<and> net_state m = NET_ESTABLISHED
        \<and> write_rc (env v) = [] \<and> map_of (handler_pool (frontend_mgr v)) (bev_fd c) = Some q)"

text \<open>The client's connection and calls after its update.\<close>

definition client_waits :: "test_rpc protobuf \<Rightarrow> ptr \<Rightarrow> 64 word \<Rightarrow> (test_rpc \<times> test_rpc option \<times> int) list
    \<Rightarrow> byte list \<Rightarrow> ('c, cdemo) world \<Rightarrow> bool" where
  "client_waits pb p seed called out w =
     (\<exists>rpc limit n b.
        cd_rpc (app_state w) = Some rpc \<and> 0 < limit \<and> net_state n = NET_ESTABLISHED \<and> write_rc (env w) = []
        \<and> rpc_ok pb p limit (rpc, cd_sched (app_state w), cd_rs (app_state w))
            ([seed \<mapsto> \<lparr>rc_callback = PingPongCallBack, rc_request = Ping 150, rc_response = Some (pb_name pb (Pong 0))\<rparr>],
             seed + 1, \<lparr>io_sent = [], io_called = called\<rparr>)
        \<and> nets (net_heap w) p = Some n \<and> hevent n = Some b \<and> bev_in b = [] \<and> bev_out b = out
        \<and> rpc_binded n \<noteq> None \<and> map_of (handler_pool (backend_mgr w)) (bev_fd b) = Some p)"

lemma rpc_ok_world:
  "rpc_ok pb p limit (rpc, sch, s) (pend, seed, w) \<Longrightarrow> rpc_ok pb p limit (rpc, sch, s\<lparr>rs_world := w'\<rparr>) (pend, seed, w')"
  by (simp add: rpc_ok_def)

abbreviation (input) ping_call :: "test_rpc protobuf \<Rightarrow> (test_rpc, rpc_io) RpcCallContext" where
  "ping_call pb \<equiv> \<lparr>rc_callback = PingPongCallBack, rc_request = Ping 150, rc_response = Some (pb_name pb (Pong 0))\<rparr>"

lemma client_call_made:
  assumes "cd_rpc (app_state w) = Some rpc" and "0 < limit"
    and ok: "rpc_ok pb p limit (rpc, cd_sched (app_state w), cd_rs (app_state w))
      (Map.empty, seed, rs_world (cd_rs (app_state w)))"
    and "io_sent (rs_world (cd_rs (app_state w))) = []"
    and "seed \<noteq> - 1" and "length (pb_name pb (Ping 150)) < MAX_MESSAGE_NAME"
  shows "\<exists>rpc1 a. cd_rpc a = Some rpc1
    \<and> rpc_ok pb p limit (rpc1, cd_sched a, cd_rs a)
        ([seed \<mapsto> ping_call pb], seed + 1, \<lparr>io_sent = [], io_called = io_called (rs_world (cd_rs (app_state w)))\<rparr>)
    \<and> cd_OnUpdate pb True w = bindE (net_Send p (Some (pp_request pb (seed, 150))) (w\<lparr>app_state := a\<rparr>))
        (\<lambda>(r, w1). Done (UnScheduleUpdate w1))"
proof -
  let ?io = "rs_world (cd_rs (app_state w))"
  let ?req = "pp_request pb (seed, 150)"
  have send: "io_send p (request_of pb seed (Ping 150)) ?io = Done (0, ?io\<lparr>io_sent := [(p, ?req)]\<rparr>)"
    using assms(4) by (simp add: io_send_def pp_request_def)
  have room: "card (dom (Map.empty :: 64 word \<rightharpoonup> (test_rpc, rpc_io) RpcCallContext)) < limit"
    using assms(2) by simp
  obtain rpc1 sch1 rs1 where call: "RpcCall pb io_send True True (Some (Ping 150)) (Some (pb_name pb (Pong 0)))
        (Some PingPongCallBack) rpc (cd_sched (app_state w)) (cd_rs (app_state w)) = Done (0, rpc1, sch1, rs1)"
      "rpc_ok pb p limit (rpc1, sch1, rs1) ([seed \<mapsto> ping_call pb], seed + 1, ?io\<lparr>io_sent := [(p, ?req)]\<rparr>)"
    using rpc_call_step [where send = io_send, OF ok assms(5) room assms(6) send] by fastforce
  then have world1: "rs_world rs1 = ?io\<lparr>io_sent := [(p, ?req)]\<rparr>"
    by (simp add: rpc_ok_def)
  let ?a = "(app_state w)\<lparr>cd_rpc := Some rpc1, cd_sched := sch1,
     cd_rs := rs1\<lparr>rs_world := (rs_world rs1)\<lparr>io_sent := []\<rparr>\<rparr>\<rparr>"
  have "cd_OnUpdate pb True w = bindE (net_Send p (Some ?req) (w\<lparr>app_state := ?a\<rparr>))
        (\<lambda>(r, w1). Done (UnScheduleUpdate w1))"
    using assms(1) call(1) world1 by (simp add: cd_OnUpdate_def run_rpc_def bindE_assoc case_prod_unfold)
  moreover obtain c where "?io = \<lparr>io_sent = [], io_called = c\<rparr>"
    using assms(4) by (cases ?io) simp
  ultimately show ?thesis
    using rpc_ok_world [OF call(2)] world1 by (intro exI [of _ rpc1] exI [of _ ?a]) simp
qed

lemma client_calls:
  assumes idle: "client_idle pb p seed w" and "seed \<noteq> - 1" and "length (pb_name pb (Ping 150)) < MAX_MESSAGE_NAME"
    and "pp_request pb (seed, 150) \<noteq> []"
  shows "\<exists>w1. cd_OnUpdate pb True w = Done w1 \<and> backend_mgr w1 = backend_mgr w
    \<and> client_waits pb p seed (io_called (rs_world (cd_rs (app_state w))))
        (written w p @ encode_frame (pp_request pb (seed, 150))) w1"
proof -
  obtain rpc limit n b where i: "cd_rpc (app_state w) = Some rpc" "0 < limit"
      "rpc_ok pb p limit (rpc, cd_sched (app_state w), cd_rs (app_state w)) (Map.empty, seed, rs_world (cd_rs (app_state w)))"
      "io_sent (rs_world (cd_rs (app_state w))) = []"
      "nets (net_heap w) p = Some n" "hevent n = Some b" "bev_in b = []" "net_state n = NET_ESTABLISHED"
      "rpc_binded n \<noteq> None" "write_rc (env w) = []" "map_of (handler_pool (backend_mgr w)) (bev_fd b) = Some p"
    using idle unfolding client_idle_def by blast
  let ?n = "n\<lparr>hevent := Some (bev_write (encode_frame (pp_request pb (seed, 150))) b)\<rparr>"
  obtain rpc1 a where a: "cd_rpc a = Some rpc1"
      "rpc_ok pb p limit (rpc1, cd_sched a, cd_rs a)
        ([seed \<mapsto> ping_call pb], seed + 1, \<lparr>io_sent = [], io_called = io_called (rs_world (cd_rs (app_state w)))\<rparr>)"
      "cd_OnUpdate pb True w = bindE (net_Send p (Some (pp_request pb (seed, 150))) (w\<lparr>app_state := a\<rparr>))
        (\<lambda>(r, w1). Done (UnScheduleUpdate w1))"
    using client_call_made [OF i(1-4) assms(2,3)] by blast
  have "net_Send p (Some (pp_request pb (seed, 150))) (w\<lparr>app_state := a\<rparr>) = Done (0, set_net p ?n (w\<lparr>app_state := a\<rparr>))"
    by (rule net_Send_ok) (use i assms(4) in simp_all)
  with a i show ?thesis
    by (auto simp: client_waits_def UnScheduleUpdate_def set_net_def written_def bev_write_def)
qed

text \<open>The result of the send is only logged: a call that is made before the connection is up sends
  nothing, stays open, and is not made again.\<close>

lemma call_before_connect_lost:
  assumes "cd_rpc (app_state w) = Some rpc" and "0 < limit"
    and "rpc_ok pb p limit (rpc, cd_sched (app_state w), cd_rs (app_state w))
      (Map.empty, seed, rs_world (cd_rs (app_state w)))"
    and "io_sent (rs_world (cd_rs (app_state w))) = []"
    and "seed \<noteq> - 1" and "length (pb_name pb (Ping 150)) < MAX_MESSAGE_NAME"
    and "nets (net_heap w) p = Some n" and "hevent n = Some b" and "net_state n \<noteq> NET_ESTABLISHED"
  shows "\<exists>w1 rpc1. cd_OnUpdate pb True w = Done w1 \<and> written w1 p = written w p
    \<and> cd_rpc (app_state w1) = Some rpc1 \<and> IsActive rpc1 \<and> \<not> schedule_update w1"
proof -
  obtain rpc1 a where a: "cd_rpc a = Some rpc1"
      "rpc_ok pb p limit (rpc1, cd_sched a, cd_rs a)
        ([seed \<mapsto> ping_call pb], seed + 1, \<lparr>io_sent = [], io_called = io_called (rs_world (cd_rs (app_state w)))\<rparr>)"
      "cd_OnUpdate pb True w = bindE (net_Send p (Some (pp_request pb (seed, 150))) (w\<lparr>app_state := a\<rparr>))
        (\<lambda>(r, w1). Done (UnScheduleUpdate w1))"
    using client_call_made [OF assms(1-6)] by blast
  have "\<exists>r. net_Send p (Some (pp_request pb (seed, 150))) (w\<lparr>app_state := a\<rparr>) = Done (r, w\<lparr>app_state := a\<rparr>)"
    using assms(7-9) by (auto simp: net_Send_def get_net_def EasyNet_Send_def)
  moreover have "IsActive rpc1"
    using a(2) by (auto simp: rpc_ok_def IsActive_def)
  ultimately show ?thesis
    using a(1,3) by (auto simp: UnScheduleUpdate_def written_def)
qed

lemma client_receives:
  assumes waits: "client_waits pb p seed called out w" and "codec_ok pb m" and "rm_asyncid m = seed"
    and "fits_frame (rpc_ser pb m)" and "length (rpc_ser pb m) + 4 \<le> recv_size (backend_mgr w)"
  shows "\<exists>w1. bindE (modify_net p (bev_feed (encode_frame (rpc_ser pb m))) w) (OnBackEndMsg app (cd_hooks pb) p) = Done (0, w1)
    \<and> client_idle pb p (seed + 1) w1
    \<and> io_called (rs_world (cd_rs (app_state w1)))
        = called @ [(Ping 150, snd (reply_of pb (pb_name pb (Pong 0)) m), fst (reply_of pb (pb_name pb (Pong 0)) m))]"
proof -
  let ?ctx = "\<lparr>rc_callback = PingPongCallBack, rc_request = Ping 150, rc_response = Some (pb_name pb (Pong 0))\<rparr>"
  let ?io = "\<lparr>io_sent = [], io_called = called\<rparr>"
  obtain rpc limit n b where i: "cd_rpc (app_state w) = Some rpc" "0 < limit" "net_state n = NET_ESTABLISHED"
      "write_rc (env w) = []"
      "rpc_ok pb p limit (rpc, cd_sched (app_state w), cd_rs (app_state w)) ([seed \<mapsto> ?ctx], seed + 1, ?io)"
      "nets (net_heap w) p = Some n" "hevent n = Some b" "bev_in b = []"
      "rpc_binded n \<noteq> None" "map_of (handler_pool (backend_mgr w)) (bev_fd b) = Some p"
    using waits unfolding client_waits_def by blast
  let ?m = "rpc_ser pb m" and ?r = "reply_of pb (pb_name pb (Pong 0)) m"
  let ?io1 = "?io\<lparr>io_called := called @ [(Ping 150, snd ?r, fst ?r)]\<rparr>"
  have parse: "rpc_parse pb (View ?m) = (m, True)" "View ?m \<noteq> View []"
    using assms(2) by (simp_all add: codec_ok_def)
  have "rs_world (cd_rs (app_state w)) = ?io"
    using i(5) by (simp add: rpc_ok_def)
  then have "co_step (RpcFunction_resumed pb ?ctx) ((cd_rs (app_state w))\<lparr>rpc_msg := m\<rparr>)
      = Done ((cd_rs (app_state w))\<lparr>rpc_msg := m, rs_world := ?io1\<rparr>, CoEnd)"
    by (simp add: resumed_step PingPongCallBack_def)
  then obtain rpc1 sch1 rs1 where run: "Rpc_Resume pb (View ?m) rpc (cd_sched (app_state w)) (cd_rs (app_state w))
        = Done (0, rpc1, sch1, rs1)"
      "rpc_ok pb p limit (rpc1, sch1, rs1) (Map.empty, seed + 1, ?io1)"
    using rpc_reply_step [OF i(5) parse(2,1), of ?ctx ?io1] assms(3) by fastforce
  have world1: "rs_world rs1 = ?io1"
    using run(2) by (simp add: rpc_ok_def)
  have active: "IsActive rpc"
    using i(5) by (auto simp: rpc_ok_def IsActive_def)
  have cut: "server_len (encode_frame ?m) = length ?m + 4" "length (encode_frame ?m) = length ?m + 4"
      "payload (encode_frame ?m) (length ?m + 4) = View ?m" "drop (length ?m + 4) (encode_frame ?m) = []"
      "take (recv_size (backend_mgr w)) (encode_frame ?m) = encode_frame ?m"
    using encode_frame_len [OF assms(4), of "[]"] assms(5) by (simp_all add: encode_frame_def payload_def)
  have nonempty: "encode_frame ?m \<noteq> []"
    using cut(2) by auto
  let ?w1 = "set_net p (bev_feed (encode_frame ?m) n) w"
  let ?a = "(app_state w)\<lparr>cd_rpc := Some rpc1, cd_sched := sch1, cd_rs := rs1\<lparr>rs_world := ?io1\<rparr>\<rparr>"
  have resume: "rpc_Resume (cd_hooks pb) rp (View ?m) ?w1 = Done (?w1\<lparr>app_state := ?a\<rparr>)" for rp
    using run(1) i(1) world1 by (simp add: cd_hooks_def run_rpc_def set_net_def)
  have up: "rpc_IsActive (cd_hooks pb) rp ?w1" for rp
    using i(1) active by (simp add: cd_hooks_def set_net_def)
  obtain rp where rp: "rpc_binded n = Some rp"
    using i(9) by blast
  have "back_loop app (cd_hooks pb) p (encode_frame ?m) 0 ?w1
      = back_loop app (cd_hooks pb) p [] (length ?m + 4) (?w1\<lparr>app_state := ?a\<rparr>)"
    using cut nonempty rp up resume by (subst back_loop.simps) (simp add: get_net_def set_net_def bev_feed_def)
  also have "\<dots> = Done (length ?m + 4, ?w1\<lparr>app_state := ?a\<rparr>)"
    by (subst back_loop.simps) simp
  finally have "OnBackEndMsg app (cd_hooks pb) p ?w1
      = Done (0, set_net p (n\<lparr>hevent := Some (b\<lparr>bev_in := []\<rparr>)\<rparr>) (w\<lparr>app_state := ?a\<rparr>))"
    using i(6-8,10) cut(2,5)
    by (simp add: OnBackEndMsg_def get_net_def set_net_def modify_net_def bev_feed_def bev_drain_def
        GetHandlerByEvent_def)
  then have "bindE (modify_net p (bev_feed (encode_frame ?m)) w) (OnBackEndMsg app (cd_hooks pb) p)
      = Done (0, set_net p (n\<lparr>hevent := Some (b\<lparr>bev_in := []\<rparr>)\<rparr>) (w\<lparr>app_state := ?a\<rparr>))"
    using i(6) by (simp add: modify_net_def get_net_def)
  with run(2) rpc_ok_world [OF run(2), of ?io1] i show ?thesis
    by (auto simp: client_idle_def set_net_def)
qed

lemma server_answers:
  assumes idle: "server_idle q v" and "pp_codec pb [ak]" and "fits_frame (pp_request pb ak)"
    and "length (pp_request pb ak) + 4 \<le> recv_size (frontend_mgr v)"
  shows "\<exists>v1. bindE (modify_net q (bev_feed (encode_frame (pp_request pb ak))) v) (OnFrontEndMsg app (pp_hooks pb) q) = Done (0, v1)
    \<and> server_idle q v1 \<and> written v1 q = written v q @ encode_frame (pp_reply pb ak)"
proof -
  obtain m c where i: "pp_registered (app_state v)" "svc_mode v = SVC_MODE_RPC" "nets (net_heap v) q = Some m"
      "hevent m = Some c" "bev_in c = []" "net_state m = NET_ESTABLISHED" "write_rc (env v) = []"
      "map_of (handler_pool (frontend_mgr v)) (bev_fd c) = Some q"
    using idle unfolding server_idle_def by blast
  let ?m = "bev_feed (encode_frame (pp_request pb ak)) m"
  let ?c = "c\<lparr>bev_in := encode_frame (pp_request pb ak)\<rparr>"
  let ?v = "set_net q ?m v"
  have v: "pp_registered (app_state ?v)" "svc_mode ?v = SVC_MODE_RPC" "nets (net_heap ?v) q = Some ?m"
      "hevent ?m = Some ?c" "net_state ?m = NET_ESTABLISHED" "write_rc (env ?v) = []"
    using i by (simp_all add: set_net_def bev_feed_def)
  have "front_loop app (pp_hooks pb) q (encode_frame (pp_request pb ak)) 0 ?v
      = Done (0, length (encode_frame (pp_request pb ak)), (set_net q (pp_served pb [ak] ?m) ?v)
          \<lparr>app_state := (app_state ?v)\<lparr>pp_msg := pp_last pb [ak] (pp_msg (app_state ?v))\<rparr>\<rparr>)"
    using pp_loop [OF assms(2) v, of "[]" app 0] assms(3) by simp
  moreover have "take (recv_size (frontend_mgr v)) (encode_frame (pp_request pb ak)) = encode_frame (pp_request pb ak)"
    using assms(4) by (simp add: encode_frame_def)
  ultimately show ?thesis
    using i
    by (auto simp: OnFrontEndMsg_def modify_net_def get_net_def set_net_def GetHandlerByEvent_def bev_feed_def
        bev_drain_def pp_served_def server_idle_def written_def Let_def)
qed

text \<open>C16. The RPC sample from end to end. A client with its connection up and no call open makes its
  call on its update; the bytes it has written are what the server's read callback gets, and the bytes
  the server has written are what the client's read callback gets. Then the client's callback has been
  called once, with the request \<open>Ping 150\<close>, the reply \<open>Pong 151\<close> and status 0, and client and server
  are as before the call, but for the client's next id. Protobuf gives back request and reply, which
  fit the receive buffers.\<close>

theorem rpc_sample_end_to_end:
  assumes "client_idle pb p seed w" and "seed \<noteq> - 1" and "server_idle q v"
    and "pp_codec pb [(seed, 150)]" and "codec_ok pb (pp_reply_msg pb (seed, 150))"
    and "codec_knows pb (Pong 151)"
    and "fits_frame (pp_request pb (seed, 150))" and "fits_frame (pp_reply pb (seed, 150))"
    and "length (pp_request pb (seed, 150)) + 4 \<le> recv_size (frontend_mgr v)"
    and "length (pp_reply pb (seed, 150)) + 4 \<le> recv_size (backend_mgr w)"
  shows "\<exists>w1 v1 w2. cd_OnUpdate pb True w = Done w1
    \<and> bindE (modify_net q (bev_feed (drop (length (written w p)) (written w1 p))) v)
        (OnFrontEndMsg sapp (pp_hooks pb) q) = Done (0, v1)
    \<and> bindE (modify_net p (bev_feed (drop (length (written v q)) (written v1 q))) w1)
        (OnBackEndMsg capp (cd_hooks pb) p) = Done (0, w2)
    \<and> io_called (rs_world (cd_rs (app_state w2)))
        = io_called (rs_world (cd_rs (app_state w))) @ [(Ping 150, Some (Pong 151), 0)]
    \<and> client_idle pb p (seed + 1) w2 \<and> server_idle q v1"
proof -
  have names: "pb_name pb (Ping 150) = ''test_rpc.Ping''" "pb_name pb (Pong k) = ''test_rpc.Pong''" for k
    using assms(4) by (simp_all add: pp_codec_def)
  have codec: "codec_ok pb (request_msg pb seed (Ping 150))" "codec_knows pb (Ping 150)"
    using assms(4) by (simp_all add: pp_codec_def)
  have req: "pp_request pb (seed, 150) \<noteq> []" "length (pb_name pb (Ping 150)) < MAX_MESSAGE_NAME"
    using codec by (simp_all add: codec_ok_def codec_knows_def pp_request_def request_of_def request_msg_def)
  obtain w1 where w1: "cd_OnUpdate pb True w = Done w1" "backend_mgr w1 = backend_mgr w"
      "client_waits pb p seed (io_called (rs_world (cd_rs (app_state w))))
         (written w p @ encode_frame (pp_request pb (seed, 150))) w1"
    using client_calls [OF assms(1,2) req(2,1)] by blast
  then have out: "written w1 p = written w p @ encode_frame (pp_request pb (seed, 150))"
    by (auto simp: client_waits_def written_def)
  obtain v1 where v1: "bindE (modify_net q (bev_feed (encode_frame (pp_request pb (seed, 150)))) v)
        (OnFrontEndMsg sapp (pp_hooks pb) q) = Done (0, v1)"
      "server_idle q v1" "written v1 q = written v q @ encode_frame (pp_reply pb (seed, 150))"
    using server_answers [OF assms(3,4,7,9)] by blast
  have reply: "rpc_ser pb (pp_reply_msg pb (seed, 150)) = pp_reply pb (seed, 150)"
      "rm_asyncid (pp_reply_msg pb (seed, 150)) = seed"
      "reply_of pb (pb_name pb (Pong 0)) (pp_reply_msg pb (seed, 150)) = (0, Some (Pong 151))"
    using assms(6) by (simp_all add: pp_reply_def pp_reply_msg_def reply_of_def codec_knows_def names)
  obtain w2 where "bindE (modify_net p (bev_feed (encode_frame (pp_reply pb (seed, 150)))) w1)
        (OnBackEndMsg capp (cd_hooks pb) p) = Done (0, w2)"
      "client_idle pb p (seed + 1) w2"
      "io_called (rs_world (cd_rs (app_state w2)))
        = io_called (rs_world (cd_rs (app_state w))) @ [(Ping 150, Some (Pong 151), 0)]"
    using client_receives [OF w1(3) assms(5) reply(2), of capp] assms(8,10) w1(2) reply(1,3) by auto
  with w1(1) v1 out show ?thesis
    by (intro exI [of _ w1] exI [of _ v1] exI [of _ w2]) simp
qed

text \<open>A client whose connection is up, with id 7 for the next call.\<close>

definition rpc_io_new :: rpc_io where
  "rpc_io_new = \<lparr>io_sent = [], io_called = []\<rparr>"

definition sample_cdemo :: "EasyRpc option \<Rightarrow> cdemo" where
  "sample_cdemo rpc = \<lparr>cd_stub = True, cd_rpc = rpc, cd_sched = CoroutineScheduler 4 0,
     cd_rs = \<lparr>rs_world = rpc_io_new, asyncid_seed = 7, rpc_buf = [], rpc_msg = pp_reply_msg byte_pp (0, 0)\<rparr>,
     cd_msg = pp_reply_msg byte_pp (0, 0)\<rparr>"

definition sample_caller :: "(unit, cdemo) world" where
  "sample_caller = (sample_world [] None (sample_cdemo (Some (snd (EasyRpc_Init True (Some 1) EasyRpc_new)))))
     \<lparr>net_heap := \<lparr>nets = [1 \<mapsto> (sample_net [] None)\<lparr>rpc_binded := Some kRpcAddr\<rparr>], next_net = 2, nid_seed = 2\<rparr>,
      frontend_mgr := \<lparr>handler_pool = [], recv_size = 64, it_cursor = None\<rparr>,
      backend_mgr := \<lparr>handler_pool = [(7, 1)], recv_size = 64, it_cursor = None\<rparr>\<rparr>"

definition sample_server :: "(unit, pp_server) world" where
  "sample_server = (sample_world [] None \<lparr>pp_stub = True, pp_registered = True, pp_msg = pp_reply_msg byte_pp (0, 0)\<rparr>)
     \<lparr>svc_mode := SVC_MODE_RPC\<rparr>"

theorem rpc_sample_end_to_end_witness:
  "\<exists>w1 v1 w2. cd_OnUpdate byte_pp True sample_caller = Done w1
    \<and> bindE (modify_net 1 (bev_feed (drop (length (written sample_caller 1)) (written w1 1))) sample_server)
        (OnFrontEndMsg (pp_app byte_pp ()) (pp_hooks byte_pp) 1) = Done (0, v1)
    \<and> bindE (modify_net 1 (bev_feed (drop (length (written sample_server 1)) (written v1 1))) w1)
        (OnBackEndMsg (cd_app byte_pp True ()) (cd_hooks byte_pp) 1) = Done (0, w2)
    \<and> io_called (rs_world (cd_rs (app_state w2))) = [(Ping 150, Some (Pong 151), 0)]"
proof -
  have req: "pp_request byte_pp (7, 150) = [1, 7, 0, 0, 0, 150]" "pp_reply byte_pp (7, 150) = [2, 7, 0, 0, 0, 151]"
    by (simp_all add: pp_request_def pp_reply_def pp_reply_msg_def request_of_def byte_pp_def be32_def)
  have codec: "pp_codec byte_pp [(7, 150)]" "codec_ok byte_pp (pp_reply_msg byte_pp (7, 150))"
      "codec_knows byte_pp (Pong 151)"
    using req by (simp_all add: pp_codec_def codec_ok_def codec_knows_def request_msg_def pp_reply_msg_def byte_pp_def)
  have start: "rpc_ok byte_pp 1 4 (snd (EasyRpc_Init True (Some 1) EasyRpc_new), CoroutineScheduler 4 0, s)
      (Map.empty, asyncid_seed s, rs_world s)" for s :: "rpc_io rpc_state"
    by (rule rpc_start) simp
  have idle: "client_idle byte_pp 1 7 sample_caller"
    using start [of "cd_rs (app_state sample_caller)"]
    by (auto simp: client_idle_def sample_caller_def sample_world_def sample_net_def EasyNet_new_def sample_cdemo_def
        sample_answers_def rpc_io_new_def intro!: exI [of _ 4])
  have server: "server_idle 1 sample_server"
    by (simp add: server_idle_def sample_server_def sample_world_def sample_net_def EasyNet_new_def sample_answers_def)
  have small: "length (pp_request byte_pp (7, 150)) + 4 \<le> recv_size (frontend_mgr sample_server)"
      "length (pp_reply byte_pp (7, 150)) + 4 \<le> recv_size (backend_mgr sample_caller)"
      "fits_frame (pp_request byte_pp (7, 150))" "fits_frame (pp_reply byte_pp (7, 150))"
    by (simp_all add: req fits_frame_def sample_server_def sample_caller_def sample_world_def)
  have "io_called (rs_world (cd_rs (app_state sample_caller))) = []"
    by (simp add: sample_caller_def sample_world_def sample_cdemo_def rpc_io_new_def)
  with rpc_sample_end_to_end [OF idle _ server codec small(3,4,1,2), of "pp_app byte_pp ()" "cd_app byte_pp True ()"]
  show ?thesis
    by fastforce
qed


definition local_os :: os_net where
  "local_os = sample_os\<lparr>sys_inet_aton := \<lambda>_. Some 0x7F000001\<rparr>"

definition cd_start :: "(unit, cdemo) world" where
  "cd_start = (sample_world [] None (sample_cdemo None))\<lparr>net_heap := heap0,
     frontend_mgr := \<lparr>handler_pool = [], recv_size = 64, it_cursor = None\<rparr>,
     env := sample_answers\<lparr>connect_rc := [Some (0, 9)], os_api := local_os\<rparr>\<rparr>"

definition cd_back :: "NetState \<Rightarrow> unit easy_net" where
  "cd_back st = (EasyNet_new 1)\<lparr>hevent := Some \<lparr>bev_fd = 9, bev_in = [], bev_out = []\<rparr>,
     net_state := st, uri := ''tcp://127.0.0.1:7891'', last_active_timestamp := 100, rpc_binded := Some kRpcAddr\<rparr>"

definition cd_started :: "NetState \<Rightarrow> (unit, cdemo) world" where
  "cd_started st = cd_start\<lparr>net_heap := \<lparr>nets = [1 \<mapsto> cd_back st], next_net = 2, nid_seed = 2\<rparr>,
     backend_mgr := \<lparr>handler_pool = [(9, 1)], recv_size = 64, it_cursor = None\<rparr>,
     app_state := sample_cdemo (Some (EasyRpc_new\<lparr>rpc_net := Some 1, rpc_scheduler := True\<rparr>)),
     schedule_update := True, env := sample_answers\<lparr>os_api := local_os\<rparr>\<rparr>"

lemmas cd_start_simps = cd_start_def cd_started_def cd_back_def sample_cdemo_def sample_world_def sample_answers_def
  EasyNet_new_def get_net_def

lemma local_uri: "fst (tcpsocket_str2sockin local_os (Some ''tcp://127.0.0.1:7891'') (Some s)) = 0"
proof -
  have "tcpsocket_is_number ''127.0.0.1''"
    by (simp add: tcpsocket_is_number_def strspn_def)
  then have "resolve_host local_os ''127.0.0.1'' = Some 0x7F000001"
    by (simp add: resolve_host_def local_os_def)
  from str2inet_endpoint [of "''127.0.0.1''", OF _ _ this, of "''7891''"] show ?thesis
    by (simp add: tcpsocket_str2sockin_def uri_addr_def)
qed

lemma cd_start_init: "OnInit (cd_app byte_pp True ()) cd_start = Done (0, cd_started NET_CONNECTING_st)"
  using local_uri
  by (simp add: cd_start_simps cd_app_def cd_OnInit_def CreateRpc_def ScheduleUpdate_def heap0_def CreateBackEnd_def
      draw_connect_def draw_pos_def AddHandlerByUri_def alloc_net_def EasyNet_Connect_def AddHandlerToMap_def
      pool_insert_def cd_base_def modify_net_def set_net_def EasyRpc_Init_def)

lemma cd_started_up:
  "on_event 1 app rpc delim (EvBackSocket 1 {BEV_EVENT_CONNECTED}) ((cd_started st)\<lparr>running := True\<rparr>)
     = Some (Done (False, cd_started NET_ESTABLISHED))"
  by (simp add: on_event_def OnBackEndSocketEvent_def ChangeNetStateByEvent_def no_break_def update_net_def cd_start_simps
      GetHandlerByEvent_def)


end
