(* ===== verification/SessionRun.thy ===== *)
theory SessionRun
  imports ClientApi ServerApi ConnectorRun
begin

text \<open>
  A session from end to end: a client, a connector and the demo backend, with nothing between them but
  the bytes each has written.
\<close>

section \<open>One frame\<close>

definition front_done :: "nat \<Rightarrow> int \<Rightarrow> 'c easy_net \<Rightarrow> 'c easy_net" where
  "front_done k now n = n\<lparr>curr_pkg_count := curr_pkg_count n + 1,
     hevent := map_option (\<lambda>b. b\<lparr>bev_in := drop k (bev_in b)\<rparr>) (hevent n), curr_traffic_bytes := curr_traffic_bytes n + of_nat k,
     last_active_timestamp := now\<rparr>"

lemma one_frame:
  assumes "fits_frame m" and "length m + 4 \<le> k"
  shows "server_len (encode_frame m) = length m + 4" "length (encode_frame m) = length m + 4"
    "payload (encode_frame m) (length m + 4) = View m" "drop (length m + 4) (encode_frame m) = []"
    "take k (encode_frame m) = encode_frame m" "encode_frame m \<noteq> []"
proof -
  show "server_len (encode_frame m) = length m + 4"
    using encode_frame_len [OF assms(1), of "[]"] by simp
  show l: "length (encode_frame m) = length m + 4"
    by (simp add: encode_frame_def)
  then show "encode_frame m \<noteq> []"
    by auto
qed (use assms in \<open>simp_all add: encode_frame_def payload_def\<close>)

lemma front_one:
  assumes "svc_mode w = SVC_MODE_NORMAL" and "nets (net_heap w) p = Some n" and "hevent n = Some b"
    and "bev_in b = []" and "map_of (handler_pool (frontend_mgr w)) (bev_fd b) = Some p"
    and "fits_frame m" and "length m + 4 \<le> recv_size (frontend_mgr w)"
    and "OnRecvFrontEnd app p (net_type n) (View m) (set_net p (bev_feed (encode_frame m) n) w) = Done (r, w1)"
    and "nets (net_heap w1) p = Some n1"
  shows "bindE (modify_net p (bev_feed (encode_frame m)) w) (OnFrontEndMsg app rpc p)
    = Done (0, set_net p (front_done (length m + 4) (now_time w1) n1) w1)"
proof -
  note f = one_frame [OF assms(6,7)]
  let ?w = "set_net p (bev_feed (encode_frame m) n) w"
  have "front_loop app rpc p (encode_frame m) 0 ?w = Done (0, length m + 4,
      set_net p (n1\<lparr>curr_pkg_count := curr_pkg_count n1 + 1\<rparr>) w1)"
    using f assms(1,2,8,9)
    by (subst front_loop.simps) (simp add: modify_net_def get_net_def bev_feed_def, simp add: front_loop.simps)
  then show ?thesis
    using assms(2-5,9) f(5)
    by (simp add: OnFrontEndMsg_def modify_net_def get_net_def GetHandlerByEvent_def bev_drain_def front_done_def bev_feed_def)
qed

lemma back_one:
  assumes "nets (net_heap w) q = Some n" and "hevent n = Some b" and "rpc_binded n = None"
    and "bev_in b = []" and "map_of (handler_pool (backend_mgr w)) (bev_fd b) = Some q"
    and "fits_frame m" and "length m + 4 \<le> recv_size (backend_mgr w)"
    and "OnRecvBackEnd app q (net_type n) (View m) (set_net q (bev_feed (encode_frame m) n) w) = Done (r, w1)"
    and "nets (net_heap w1) q = Some n1"
  shows "bindE (modify_net q (bev_feed (encode_frame m)) w) (OnBackEndMsg app rpc q)
    = Done (0, set_net q (bev_drain (length m + 4) n1) w1)"
proof -
  note f = one_frame [OF assms(6,7)]
  let ?w = "set_net q (bev_feed (encode_frame m) n) w"
  have "back_loop app rpc q (encode_frame m) 0 ?w = Done (length m + 4, w1)"
    using f assms(1,3,8)
    by (subst back_loop.simps) (simp add: modify_net_def get_net_def bev_feed_def, simp add: back_loop.simps)
  then show ?thesis
    using assms(1,2,4,5,9) f(5)
    by (simp add: OnBackEndMsg_def modify_net_def get_net_def GetHandlerByEvent_def bev_feed_def)
qed


section \<open>The connector between a client and one backend\<close>

text \<open>The client's connection \<open>p\<close> is found by its ids, \<open>q\<close> is the only backend; both are up.
  \<open>K\<close> bytes can be received at once.\<close>

definition conn_at :: "nat \<Rightarrow> ptr \<Rightarrow> ptr \<Rightarrow> session easy_net \<Rightarrow> bufferevent \<Rightarrow> session \<Rightarrow> session easy_net
    \<Rightarrow> bufferevent \<Rightarrow> cworld \<Rightarrow> bool" where
  "conn_at K p q n b s nq bq w =
     (up_front w p n b s \<and> svc_mode w = SVC_MODE_NORMAL \<and> q \<noteq> p
      \<and> map_of (handler_pool (frontend_mgr w)) (bev_fd b) = Some p \<and> sint (word_of_int (bev_fd b) :: 32 word) = bev_fd b
      \<and> nets (net_heap w) q = Some nq \<and> hevent nq = Some bq \<and> net_state nq = NET_ESTABLISHED \<and> rpc_binded nq = None
      \<and> map_of (handler_pool (backend_mgr w)) (bev_fd bq) = Some q
      \<and> backs_ok (app_state w) \<and> backend_used (app_state w) = 1 \<and> backends (app_state w) ! 0 = Some q
      \<and> K \<le> recv_size (frontend_mgr w) \<and> K \<le> recv_size (backend_mgr w))"

definition conn_side :: "nat \<Rightarrow> ptr \<Rightarrow> ptr \<Rightarrow> byte list \<Rightarrow> byte list \<Rightarrow> SessionState \<Rightarrow> ss_tuple \<Rightarrow> 64 word
    \<Rightarrow> byte list \<Rightarrow> byte list \<Rightarrow> cworld \<Rightarrow> bool" where
  "conn_side K p q in_p in_q st t seq out_p out_q w =
     (\<exists>n b s nq bq. conn_at K p q n b s nq bq w \<and> bev_in b = in_p \<and> bev_in bq = in_q \<and> state s = st
        \<and> front_tuple n b s = t \<and> last_seq s = seq \<and> bev_out b = out_p \<and> bev_out bq = out_q)"

lemma conn_sideE:
  assumes "conn_side K p q in_p in_q st t seq out_p out_q w"
  obtains n b s nq bq where "conn_at K p q n b s nq bq w" "bev_in b = in_p" "bev_in bq = in_q" "state s = st"
    "front_tuple n b s = t" "last_seq s = seq" "bev_out b = out_p" "bev_out bq = out_q"
  using assms unfolding conn_side_def by blast

lemma conn_sideI:
  "conn_at K p q n b s nq bq w \<Longrightarrow> bev_in b = in_p \<Longrightarrow> bev_in bq = in_q \<Longrightarrow> state s = st \<Longrightarrow>
   front_tuple n b s = t \<Longrightarrow> last_seq s = seq \<Longrightarrow> bev_out b = out_p \<Longrightarrow> bev_out bq = out_q \<Longrightarrow>
   conn_side K p q in_p in_q st t seq out_p out_q w"
  unfolding conn_side_def by blast

text \<open>Both connections keep what the rest of the code looks at.\<close>

lemma conn_at_front:
  assumes "conn_at K p q n b s nq bq w" and "hevent n' = Some b'" and "bev_fd b' = bev_fd b"
    and "net_state n' = net_state n" and "user_context n' = Some s'" and "net_stub s' = Some p" and "frame_stub s'"
  shows "conn_at K p q n' b' s' nq bq (set_net p n' w)"
  using assms by (simp add: conn_at_def up_front_def del: map_of_eq_Some_iff)

lemma conn_at_back:
  assumes "conn_at K p q n b s nq bq w" and "hevent n' = Some b'" and "bev_fd b' = bev_fd bq"
    and "net_state n' = net_state nq" and "rpc_binded n' = rpc_binded nq"
  shows "conn_at K p q n b s n' b' (set_net q n' w)"
  using assms by (auto simp: conn_at_def up_front_def simp del: map_of_eq_Some_iff)

lemma conn_at_turned: "conn_at K p q n b s nq bq w \<Longrightarrow> conn_at K p q n b s nq bq (turned w)"
  using next_backend_ok [of w] by (auto simp: conn_at_def up_front_turned turned_def up_front_def)

lemma conn_at_turn:
  assumes "conn_at K p q n b s nq bq w"
  shows "turn w = Some q" "backs_ok (app_state w)"
  using assms by (simp_all add: conn_at_def turn_def)

lemma conn_at_peer:
  assumes "conn_at K p q n b s nq bq w"
  shows "up_front w p n b s" "q \<noteq> p" "nets (net_heap w) q = Some nq" "hevent nq = Some bq"
    "net_state nq = NET_ESTABLISHED" "write_rc (env w) = []"
  using assms by (simp_all add: conn_at_def up_front_def)

lemma conn_at_ids:
  assumes "conn_at K p q n b s nq bq w"
  shows "GetFrontEndByAsyncIds (ss_fd (front_tuple n b s)) (ss_nid (front_tuple n b s)) w = Done (Some p)"
  using assms by (simp add: conn_at_def up_front_def front_tuple_def GetFrontEndByAsyncIds_def GetHandlerByAsyncIds_def
      del: map_of_eq_Some_iff)


text \<open>Bytes that arrive, if any.\<close>

definition front_hears :: "('c, 'a) rapid_app \<Rightarrow> ptr \<Rightarrow> byte list \<Rightarrow> ('c, 'a) world \<Rightarrow> ('c, 'a) world exec" where
  "front_hears app p bs w =
     (if bs = [] then Done w
      else bindE (modify_net p (bev_feed bs) w) (\<lambda>w1. bindE (OnFrontEndMsg app no_rpc p w1) (\<lambda>(r, w2). Done w2)))"

definition back_hears :: "('c, 'a) rapid_app \<Rightarrow> ptr \<Rightarrow> byte list \<Rightarrow> ('c, 'a) world \<Rightarrow> ('c, 'a) world exec" where
  "back_hears app q bs w =
     (if bs = [] then Done w
      else bindE (modify_net q (bev_feed bs) w) (\<lambda>w1. bindE (OnBackEndMsg app no_rpc q w1) (\<lambda>(r, w2). Done w2)))"

lemma front_hears_one:
  assumes side: "conn_side K p q [] in_q st t seq out_p out_q w"
    and m: "fits_frame m" "length m + 4 \<le> K"
    and step: "\<And>ty w. conn_side K p q (encode_frame m) in_q st t seq out_p out_q w \<Longrightarrow>
      \<exists>r w'. OnRecvFrontEnd app p ty (View m) w = Done (r, w')
        \<and> conn_side K p q (encode_frame m) in_q' st' t' seq' out_p' out_q' w'"
  shows "\<exists>w'. front_hears app p (encode_frame m) w = Done w' \<and> conn_side K p q [] in_q' st' t' seq' out_p' out_q' w'"
proof -
  obtain n b s nq bq where c: "conn_at K p q n b s nq bq w" "bev_in b = []" "bev_in bq = in_q" "state s = st"
    "front_tuple n b s = t" "last_seq s = seq" "bev_out b = out_p" "bev_out bq = out_q"
    using side by (rule conn_sideE)
  let ?n = "bev_feed (encode_frame m) n" and ?b = "b\<lparr>bev_in := encode_frame m\<rparr>"
  have up: "nets (net_heap w) p = Some n" "hevent n = Some b" "user_context n = Some s" "net_stub s = Some p" "frame_stub s"
    using c(1) by (simp_all add: conn_at_def up_front_def)
  have "conn_at K p q ?n ?b s nq bq (set_net p ?n w)"
    by (rule conn_at_front [OF c(1)]) (use up c(2) in \<open>simp_all add: bev_feed_def\<close>)
  then have "conn_side K p q (encode_frame m) in_q st t seq out_p out_q (set_net p ?n w)"
    by (rule conn_sideI) (use c in \<open>simp_all add: front_tuple_def bev_feed_def\<close>)
  from step [OF this, of "net_type n"] obtain r w1 where w1:
      "OnRecvFrontEnd app p (net_type n) (View m) (set_net p ?n w) = Done (r, w1)"
      "conn_side K p q (encode_frame m) in_q' st' t' seq' out_p' out_q' w1"
    by blast
  obtain n1 b1 s1 nq1 bq1 where d: "conn_at K p q n1 b1 s1 nq1 bq1 w1" "bev_in b1 = encode_frame m" "bev_in bq1 = in_q'"
    "state s1 = st'" "front_tuple n1 b1 s1 = t'" "last_seq s1 = seq'" "bev_out b1 = out_p'" "bev_out bq1 = out_q'"
    using w1(2) by (rule conn_sideE)
  have up1: "nets (net_heap w1) p = Some n1" "hevent n1 = Some b1" "user_context n1 = Some s1" "net_stub s1 = Some p" "frame_stub s1"
    using d(1) by (simp_all add: conn_at_def up_front_def)
  have "bindE (modify_net p (bev_feed (encode_frame m)) w) (OnFrontEndMsg app no_rpc p)
      = Done (0, set_net p (front_done (length m + 4) (now_time w1) n1) w1)"
    by (rule front_one [OF _ up(1,2) c(2) _ m(1) _ w1(1) up1(1)])
      (use c(1) m(2) in \<open>simp_all add: conn_at_def del: map_of_eq_Some_iff\<close>)
  then have "front_hears app p (encode_frame m) w = Done (set_net p (front_done (length m + 4) (now_time w1) n1) w1)"
    using one_frame(6) [OF m] by (cases "modify_net p (bev_feed (encode_frame m)) w") (simp_all add: front_hears_def)
  moreover have "conn_at K p q (front_done (length m + 4) (now_time w1) n1) (b1\<lparr>bev_in := []\<rparr>) s1 nq1 bq1
      (set_net p (front_done (length m + 4) (now_time w1) n1) w1)"
    by (rule conn_at_front [OF d(1)]) (use up1 d(2) one_frame(4) [OF m] in \<open>simp_all add: front_done_def\<close>)
  then have "conn_side K p q [] in_q' st' t' seq' out_p' out_q'
      (set_net p (front_done (length m + 4) (now_time w1) n1) w1)"
    by (rule conn_sideI) (use d in \<open>simp_all add: front_tuple_def front_done_def\<close>)
  ultimately show ?thesis
    by blast
qed

lemma back_hears_one:
  assumes side: "conn_side K p q in_p [] st t seq out_p out_q w"
    and m: "fits_frame m" "length m + 4 \<le> K"
    and step: "\<And>ty w. conn_side K p q in_p (encode_frame m) st t seq out_p out_q w \<Longrightarrow>
      \<exists>r w'. OnRecvBackEnd app q ty (View m) w = Done (r, w')
        \<and> conn_side K p q in_p' (encode_frame m) st' t' seq' out_p' out_q' w'"
  shows "\<exists>w'. back_hears app q (encode_frame m) w = Done w' \<and> conn_side K p q in_p' [] st' t' seq' out_p' out_q' w'"
proof -
  obtain n b s nq bq where c: "conn_at K p q n b s nq bq w" "bev_in b = in_p" "bev_in bq = []" "state s = st"
    "front_tuple n b s = t" "last_seq s = seq" "bev_out b = out_p" "bev_out bq = out_q"
    using side by (rule conn_sideE)
  let ?n = "bev_feed (encode_frame m) nq" and ?b = "bq\<lparr>bev_in := encode_frame m\<rparr>"
  have up: "nets (net_heap w) q = Some nq" "hevent nq = Some bq" "rpc_binded nq = None"
    using c(1) by (simp_all add: conn_at_def)
  have "conn_at K p q n b s ?n ?b (set_net q ?n w)"
    by (rule conn_at_back [OF c(1)]) (use up c(3) in \<open>simp_all add: bev_feed_def\<close>)
  then have "conn_side K p q in_p (encode_frame m) st t seq out_p out_q (set_net q ?n w)"
    by (rule conn_sideI) (use c in simp_all)
  from step [OF this, of "net_type nq"] obtain r w1 where w1:
      "OnRecvBackEnd app q (net_type nq) (View m) (set_net q ?n w) = Done (r, w1)"
      "conn_side K p q in_p' (encode_frame m) st' t' seq' out_p' out_q' w1"
    by blast
  obtain n1 b1 s1 nq1 bq1 where d: "conn_at K p q n1 b1 s1 nq1 bq1 w1" "bev_in b1 = in_p'" "bev_in bq1 = encode_frame m"
    "state s1 = st'" "front_tuple n1 b1 s1 = t'" "last_seq s1 = seq'" "bev_out b1 = out_p'" "bev_out bq1 = out_q'"
    using w1(2) by (rule conn_sideE)
  have up1: "nets (net_heap w1) q = Some nq1" "hevent nq1 = Some bq1"
    using d(1) by (simp_all add: conn_at_def)
  have "bindE (modify_net q (bev_feed (encode_frame m)) w) (OnBackEndMsg app no_rpc q)
      = Done (0, set_net q (bev_drain (length m + 4) nq1) w1)"
    by (rule back_one [OF up(1,2,3) c(3) _ m(1) _ w1(1) up1(1)])
      (use c(1) m(2) in \<open>simp_all add: conn_at_def del: map_of_eq_Some_iff\<close>)
  then have "back_hears app q (encode_frame m) w = Done (set_net q (bev_drain (length m + 4) nq1) w1)"
    using one_frame(6) [OF m] by (cases "modify_net q (bev_feed (encode_frame m)) w") (simp_all add: back_hears_def)
  moreover have "conn_at K p q n1 b1 s1 (bev_drain (length m + 4) nq1) (bq1\<lparr>bev_in := []\<rparr>)
      (set_net q (bev_drain (length m + 4) nq1) w1)"
    by (rule conn_at_back [OF d(1)]) (use up1 d(3) one_frame(4) [OF m] in \<open>simp_all add: bev_drain_def\<close>)
  then have "conn_side K p q in_p' [] st' t' seq' out_p' out_q' (set_net q (bev_drain (length m + 4) nq1) w1)"
    by (rule conn_sideI) (use d in simp_all)
  ultimately show ?thesis
    by blast
qed


section \<open>What the connector does\<close>

definition synack_reply :: csmsg where
  "synack_reply = cs_message 1 CS_SYNACK (empty_csbody\<lparr>cs_ack := Some ''test secret key''\<rparr>)"

definition start_reply :: csmsg where
  "start_reply = cs_message 1 CS_START_APP (empty_csbody\<lparr>cs_start := Some 0\<rparr>)"

definition up_data :: "64 word \<Rightarrow> ss_tuple \<Rightarrow> byte list \<Rightarrow> ssmsg" where
  "up_data sq t d = ss_message sq SS_DATA t (empty_ssbody\<lparr>ss_data := Some d\<rparr>)"

definition in_order :: "csmsg \<Rightarrow> 64 word \<Rightarrow> bool" where
  "in_order m seq = (cs_magic m = MAGIC_CS_V1 \<and> (seq = 0 \<or> cs_sequence m = seq + 1))"

lemma in_order_check: "in_order m (last_seq s) \<Longrightarrow> CheckUpSideMessage m s = (0, s\<lparr>last_seq := cs_sequence m\<rparr>)"
  by (auto simp: in_order_def CheckUpSideMessage_def)

lemma conn_at_sent:
  assumes "conn_at K p q n b s nq bq w" and "net_stub s' = net_stub s" and "frame_stub s' = frame_stub s"
  shows "conn_at K p q (sent_front n b m s') (bev_write (encode_frame m) b) s' nq bq (set_net p (sent_front n b m s') w)"
  by (rule conn_at_front [OF assms(1)]) (use assms in \<open>simp_all add: sent_front_def bev_write_def conn_at_def up_front_def\<close>)

lemma conn_hears_syn:
  assumes side: "conn_side K p q in_p in_q STATE_INIT t seq out_p out_q w" and "in_order (cs_parse cd v) seq"
    and "cs_ser cd synack_reply \<noteq> []"
  shows "\<exists>w'. Connector_OnRecvFrontEnd cd p ty v w = Done (0, w') \<and> conn_side K p q in_p in_q STATE_AUTH t
    (cs_sequence (cs_parse cd v)) (out_p @ encode_frame (cs_ser cd synack_reply)) out_q w'"
proof -
  obtain n b s nq bq where c: "conn_at K p q n b s nq bq w" "bev_in b = in_p" "bev_in bq = in_q" "state s = STATE_INIT"
    "front_tuple n b s = t" "last_seq s = seq" "bev_out b = out_p" "bev_out bq = out_q"
    using side by (rule conn_sideE)
  let ?s = "s\<lparr>last_seq := cs_sequence (cs_parse cd v), state := STATE_AUTH\<rparr>"
  have "front_reply (state s) = Some (synack_reply, STATE_AUTH)"
    using c(4) by (simp add: front_reply_def synack_reply_def)
  from front_step [OF _ in_order_check this assms(3), of w p n b v ty] c assms(2)
  have "Connector_OnRecvFrontEnd cd p ty v w = Done (0, set_net p (sent_front n b (cs_ser cd synack_reply) ?s) w)"
    by (simp add: conn_at_def)
  moreover have "conn_side K p q in_p in_q STATE_AUTH t (cs_sequence (cs_parse cd v))
      (out_p @ encode_frame (cs_ser cd synack_reply)) out_q (set_net p (sent_front n b (cs_ser cd synack_reply) ?s) w)"
    by (rule conn_sideI [OF conn_at_sent [OF c(1)]])
      (use c in \<open>simp_all add: sent_front_def bev_write_def front_tuple_def\<close>)
  ultimately show ?thesis
    by blast
qed

lemma conn_hears_auth:
  assumes side: "conn_side K p q in_p in_q STATE_AUTH t seq out_p out_q w" and "in_order (cs_parse cd v) seq"
    and "cs_ser cd auth_reply \<noteq> []" and "ss_ser cd (start_request t) \<noteq> []"
  shows "\<exists>w'. Connector_OnRecvFrontEnd cd p ty v w = Done (0, w') \<and> conn_side K p q in_p in_q STATE_SYNACK t
    (cs_sequence (cs_parse cd v)) (out_p @ encode_frame (cs_ser cd auth_reply))
    (out_q @ encode_frame (ss_ser cd (start_request t))) w'"
proof -
  obtain n b s nq bq where c: "conn_at K p q n b s nq bq w" "bev_in b = in_p" "bev_in bq = in_q" "state s = STATE_AUTH"
    "front_tuple n b s = t" "last_seq s = seq" "bev_out b = out_p" "bev_out bq = out_q"
    using side by (rule conn_sideE)
  let ?m = "cs_ser cd auth_reply" and ?x = "ss_ser cd (start_request t)"
  let ?s = "s\<lparr>last_seq := cs_sequence (cs_parse cd v), state := STATE_SYNING\<rparr>"
  let ?n = "sent_front n b ?m ?s" and ?b = "bev_write (encode_frame ?m) b"
  let ?w = "set_net p ?n w"
  have up: "up_front w p n b s"
    using c(1) by (simp add: conn_at_def)
  note a = auth_first [OF up in_order_check c(4) assms(3), of v]
  have sent: "conn_at K p q ?n ?b ?s nq bq ?w"
    by (rule conn_at_sent [OF c(1)]) simp_all
  note peer = conn_at_peer [OF sent]
  have tuple: "front_tuple ?n ?b ?s = t"
    using c(5) by (simp add: sent_front_def bev_write_def front_tuple_def)
  let ?nq = "nq\<lparr>hevent := Some (bev_write (encode_frame ?x) bq), last_active_timestamp := now_time ?w\<rparr>"
  let ?n2 = "?n\<lparr>user_context := Some (?s\<lparr>state := STATE_SYNACK\<rparr>)\<rparr>"
  let ?w2 = "set_net p ?n2 (set_net q ?nq (turned ?w))"
  have d: "DriveStateMachine cd p ?w = Done (0, ?w2)"
    using Drive_syning [OF peer(1) _ conn_at_turn(2,1) [OF sent] peer(2-5), of cd] tuple assms(4) by simp
  have "Connector_OnRecvFrontEnd cd p ty v w = Done (0, ?w2)"
    using a(1) assms(2) c(6) d by (simp add: drive_or_close_def)
  moreover have "conn_at K p q ?n2 ?b (?s\<lparr>state := STATE_SYNACK\<rparr>) ?nq (bev_write (encode_frame ?x) bq) ?w2"
    by (rule conn_at_front [OF conn_at_back [OF conn_at_turned [OF sent]]])
      (use sent in \<open>simp_all add: sent_front_def bev_write_def conn_at_def up_front_def\<close>)
  then have "conn_side K p q in_p in_q STATE_SYNACK t (cs_sequence (cs_parse cd v)) (out_p @ encode_frame ?m)
      (out_q @ encode_frame ?x) ?w2"
    by (rule conn_sideI) (use c tuple in \<open>simp_all add: bev_write_def front_tuple_def\<close>)
  ultimately show ?thesis
    by blast
qed


lemma conn_hears_data:
  assumes side: "conn_side K p q in_p in_q STATE_OK t seq out_p out_q w" and "in_order (cs_parse cd v) seq"
    and "cs_bodyid (cs_parse cd v) = CS_DATA_TRANSPARENT"
    and "ss_ser cd (up_data (cs_sequence (cs_parse cd v)) t (csmsg_data (cs_parse cd v))) \<noteq> []"
  shows "\<exists>w'. Connector_OnRecvFrontEnd cd p ty v w = Done (0, w') \<and> conn_side K p q in_p in_q STATE_OK t
    (cs_sequence (cs_parse cd v)) out_p
    (out_q @ encode_frame (ss_ser cd (up_data (cs_sequence (cs_parse cd v)) t (csmsg_data (cs_parse cd v))))) w'"
proof -
  obtain n b s nq bq where c: "conn_at K p q n b s nq bq w" "bev_in b = in_p" "bev_in bq = in_q" "state s = STATE_OK"
    "front_tuple n b s = t" "last_seq s = seq" "bev_out b = out_p" "bev_out bq = out_q"
    using side by (rule conn_sideE)
  let ?x = "ss_ser cd (up_data (cs_sequence (cs_parse cd v)) t (csmsg_data (cs_parse cd v)))"
  let ?s = "s\<lparr>last_seq := cs_sequence (cs_parse cd v)\<rparr>"
  let ?n = "n\<lparr>user_context := Some ?s\<rparr>"
  let ?w = "set_net p ?n w"
  have up: "up_front w p n b s"
    using c(1) by (simp add: conn_at_def)
  have check: "CheckUpSideMessage (cs_parse cd v) s = (0, ?s)"
    using in_order_check assms(2) c(6) by blast
  have sent: "conn_at K p q ?n b ?s nq bq ?w"
    by (rule conn_at_front [OF c(1)]) (use up in \<open>simp_all add: up_front_def\<close>)
  note up1 = conn_at_peer(1) [OF sent] and peer = conn_at_peer(3-6) [OF conn_at_turned [OF sent]]
  have tuple: "front_tuple ?n b ?s = t"
    using c(5) by (simp add: front_tuple_def)
  let ?nq = "nq\<lparr>hevent := Some (bev_write (encode_frame ?x) bq), last_active_timestamp := now_time ?w\<rparr>"
  have "SendToBackEnd (Some q) (Some ?x) (turned ?w) = Done (0, set_net q ?nq (turned ?w))"
    using SendToBackEnd_ok [OF peer assms(4)] by simp
  then have "SendDataToBackEnd ?x p ?w = Done (0, set_net q ?nq (turned ?w))"
    using next_backend_turn [OF conn_at_turn(2) [OF sent]] conn_at_turn(1) [OF sent] up_frontD [OF up_front_turned [OF up1]]
    by (simp add: SendDataToBackEnd_def get_session_def get_net_def)
  then have "ForwardUpSideMessage cd (cs_sequence (cs_parse cd v)) (csmsg_data (cs_parse cd v)) p ?w
      = Done (0, set_net q ?nq (turned ?w))"
    using up_frontD [OF up1] session_ids_up [OF up1] tuple
    by (simp add: ForwardUpSideMessage_def get_session_def get_net_def up_data_def)
  then have "Connector_OnRecvFrontEnd cd p ty v w = Done (0, set_net q ?nq (turned ?w))"
    using up_frontD [OF up] check up_front_check(1) [OF up check] c(4) assms(3)
    by (simp add: Connector_OnRecvFrontEnd_def GetUserContext_def get_net_def Let_def)
  moreover have "conn_at K p q ?n b ?s ?nq (bev_write (encode_frame ?x) bq) (set_net q ?nq (turned ?w))"
    by (rule conn_at_back [OF conn_at_turned [OF sent]]) (simp_all add: bev_write_def)
  then have "conn_side K p q in_p in_q STATE_OK t (cs_sequence (cs_parse cd v)) out_p (out_q @ encode_frame ?x)
      (set_net q ?nq (turned ?w))"
    by (rule conn_sideI) (use c tuple in \<open>simp_all add: bev_write_def\<close>)
  ultimately show ?thesis
    by blast
qed

lemma conn_hears_ack:
  assumes side: "conn_side K p q in_p in_q STATE_SYNACK t seq out_p out_q w"
    and "ss_bodyid (ss_parse cd v) = SS_ACK" and "ss_session (ss_parse cd v) = t\<lparr>ss_sid := i\<rparr>" and "\<forall>m. cs_ser cd m \<noteq> []"
  shows "\<exists>w'. Connector_OnRecvBackEnd cd dbg q ty v w = Done (0, w') \<and> conn_side K p q in_p in_q STATE_OK
    (t\<lparr>ss_sid := i\<rparr>) seq (out_p @ encode_frame (cs_ser cd start_reply)) out_q w'"
proof -
  obtain n b s nq bq where c: "conn_at K p q n b s nq bq w" "bev_in b = in_p" "bev_in bq = in_q" "state s = STATE_SYNACK"
    "front_tuple n b s = t" "last_seq s = seq" "bev_out b = out_p" "bev_out bq = out_q"
    using side by (rule conn_sideE)
  let ?s = "s\<lparr>state := STATE_OK, sid := i\<rparr>"
  have "GetFrontEndByAsyncIds (ss_fd t) (ss_nid t) w = Done (Some p)"
    using conn_at_ids [OF c(1)] c(5) by simp
  then have "Connector_OnRecvBackEnd cd dbg q ty v w = Done (0, set_net p (sent_front n b (cs_ser cd start_reply) ?s) w)"
    using ack_completes [of "ss_parse cd v" w p n b s cd v dbg q ty] c assms(2-4) by (simp add: conn_at_def start_reply_def)
  moreover have "conn_side K p q in_p in_q STATE_OK (t\<lparr>ss_sid := i\<rparr>) seq (out_p @ encode_frame (cs_ser cd start_reply)) out_q
      (set_net p (sent_front n b (cs_ser cd start_reply) ?s) w)"
    by (rule conn_sideI [OF conn_at_sent [OF c(1)]])
      (use c in \<open>auto simp: front_tuple_def sent_front_def bev_write_def\<close>)
  ultimately show ?thesis
    by blast
qed

lemma conn_hears_reply:
  assumes side: "conn_side K p q in_p in_q STATE_OK t seq out_p out_q w"
    and "ss_bodyid (ss_parse cd v) = SS_DATA" and "ss_session (ss_parse cd v) = t"
    and "ssmsg_data (ss_parse cd v) = d" and "d \<noteq> []" and "\<forall>m. cs_ser cd m \<noteq> []"
  shows "\<exists>w'. Connector_OnRecvBackEnd cd False q ty v w = Done (0, w') \<and> conn_side K p q in_p in_q STATE_OK
    t seq (out_p @ encode_frame (cs_ser cd (data_message (ss_sequence (ss_parse cd v)) d))) out_q w'"
proof -
  obtain n b s nq bq where c: "conn_at K p q n b s nq bq w" "bev_in b = in_p" "bev_in bq = in_q" "state s = STATE_OK"
    "front_tuple n b s = t" "last_seq s = seq" "bev_out b = out_p" "bev_out bq = out_q"
    using side by (rule conn_sideE)
  let ?m = "cs_ser cd (data_message (ss_sequence (ss_parse cd v)) d)"
  have "GetFrontEndByAsyncIds (ss_fd t) (ss_nid t) w = Done (Some p)" "sid s = ss_sid t"
    using conn_at_ids [OF c(1)] c(5) by (auto simp: front_tuple_def)
  then have "Connector_OnRecvBackEnd cd False q ty v w = Done (0, set_net p (sent_front n b ?m s) w)"
    using downstream_step [of "ss_parse cd v" w p n b s cd v q ty] c assms(2-)
    by (simp add: conn_at_def data_message_def del: map_of_eq_Some_iff)
  moreover have "conn_side K p q in_p in_q STATE_OK t seq (out_p @ encode_frame ?m) out_q (set_net p (sent_front n b ?m s) w)"
    by (rule conn_sideI [OF conn_at_sent [OF c(1)]])
      (use c in \<open>auto simp: front_tuple_def sent_front_def bev_write_def\<close>)
  ultimately show ?thesis
    by blast
qed


section \<open>What the demo backend does\<close>

definition demo_side :: "nat \<Rightarrow> ptr \<Rightarrow> byte list \<Rightarrow> ('c, server_demo) world \<Rightarrow> bool" where
  "demo_side K r out v =
     (\<exists>n b. demo_stub (app_state v) \<and> svc_mode v = SVC_MODE_NORMAL \<and> write_rc (env v) = [] \<and> K \<le> recv_size (frontend_mgr v)
        \<and> nets (net_heap v) r = Some n \<and> hevent n = Some b \<and> net_state n = NET_ESTABLISHED \<and> bev_in b = [] \<and> bev_out b = out
        \<and> map_of (handler_pool (frontend_mgr v)) (bev_fd b) = Some r)"

lemma demo_hears:
  assumes side: "demo_side K r out v" and m: "fits_client_frame m" "length m + 4 \<le> K"
    and "dp (View m) = Some x" and "demo_reply x = Some y" and "\<And>z. ser z \<noteq> []"
  shows "\<exists>v'. front_hears (demo_app dp ser z) r (encode_frame m) v = Done v'
    \<and> demo_side K r (out @ encode_frame (ser y)) v'"
proof -
  obtain n b where c: "demo_stub (app_state v)" "svc_mode v = SVC_MODE_NORMAL" "write_rc (env v) = []"
      "K \<le> recv_size (frontend_mgr v)" "nets (net_heap v) r = Some n" "hevent n = Some b" "net_state n = NET_ESTABLISHED"
      "bev_in b = []" "bev_out b = out" "map_of (handler_pool (frontend_mgr v)) (bev_fd b) = Some r"
    using side unfolding demo_side_def by blast
  let ?n = "bev_feed (encode_frame m) n" and ?b = "b\<lparr>bev_in := encode_frame m\<rparr>"
  let ?v = "set_net r ?n v"
  let ?n1 = "?n\<lparr>hevent := Some (bev_write (encode_frame (ser y)) ?b)\<rparr>"
  have m2: "fits_frame m" "m \<noteq> []" "length m + 4 \<le> recv_size (frontend_mgr v)"
    using m c(4) by (simp_all add: fits_client_frame_def)
  have "demo_OnRecvFrontEnd dp ser r (net_type n) (View m) ?v = Done (0, set_net r ?n1 ?v)"
    using demo_answers [of ?v r ?n ?b "View m" dp x ser "net_type n"] c m2 assms(4-6)
    by (simp add: bev_feed_def)
  then have "bindE (modify_net r (bev_feed (encode_frame m)) v) (OnFrontEndMsg (demo_app dp ser z) no_rpc r)
      = Done (0, set_net r (front_done (length m + 4) (now_time v) ?n1) (set_net r ?n1 ?v))"
    using front_one [OF c(2,5,6,8,10) m2(1,3), of "demo_app dp ser z"] by (simp add: demo_app_def)
  then have "front_hears (demo_app dp ser z) r (encode_frame m) v
      = Done (set_net r (front_done (length m + 4) (now_time v) ?n1) (set_net r ?n1 ?v))"
    using one_frame(6) [OF m2(1,3)] by (cases "modify_net r (bev_feed (encode_frame m)) v") (simp_all add: front_hears_def)
  then show ?thesis
    using c one_frame(4) [OF m2(1,3)] by (auto simp: demo_side_def front_done_def bev_feed_def bev_write_def)
qed

section \<open>What the client does\<close>

definition arrived :: "byte list \<Rightarrow> recv_result" where
  "arrived bs = (if bs = [] then RvErr EAGAIN else RvBytes bs)"

text \<open>A connected client with nothing to send: \<open>q\<close> has been received, \<open>room\<close> bytes more fit, and
  frames of up to \<open>cap\<close> bytes can be sent.\<close>

definition client_side :: "session_state \<Rightarrow> 64 word \<Rightarrow> string \<Rightarrow> byte list \<Rightarrow> nat \<Rightarrow> nat \<Rightarrow> client \<Rightarrow> bool" where
  "client_side st sq tk q room cap c =
     (listener c \<and> session_state c = st \<and> seqno c = sq \<and> token c = tk \<and> tu_ok (tcp_sock c)
      \<and> tcp_pkg_parser_imp (tcp_sock c) = Some client_parse \<and> sock_state (tcp_sock c) = NET_CONNECTED
      \<and> recvq (tcp_sock c) = q \<and> room \<le> rb_free (recv_buf (tcp_sock c)) \<and> sendq (tcp_sock c) = []
      \<and> cap \<le> rb_free (send_buf (tcp_sock c)))"

lemma Recv_arrived:
  assumes "tu_ok u" and "sock_state u = NET_CONNECTED" and "room \<le> rb_free (recv_buf u)" and "length bs \<le> room"
  shows "\<exists>rb. Recv (arrived bs) u = Done (NORMAL, u\<lparr>recv_buf := rb\<rparr>) \<and> ring_ok rb
    \<and> rb_data rb = recvq u @ bs \<and> room - length bs \<le> rb_free rb"
proof (cases "bs = []")
  case True
  have ok: "ring_ok (recv_buf u)"
    using assms(1) by (simp add: tu_ok_def)
  let ?rb = "if Avaiable (recv_buf u) = 0 then Recycle_ATOMIC (recv_buf u) else recv_buf u"
  have "Recv (arrived bs) u = Done (NORMAL, u\<lparr>recv_buf := ?rb\<rparr>)"
    using True assms(2) ok by (simp add: Recv_def arrived_def Let_def ring_lens)
  moreover have "ring_ok ?rb" "rb_data ?rb = recvq u" "room \<le> rb_free ?rb"
    using assms(3) ok recycle_free [OF ok] by (auto simp: recycle_ok recvq_def ring_lens)
  ultimately show ?thesis
    using True by (intro exI [of _ ?rb]) simp
next
  case False
  have ok: "ring_ok (recv_buf u)" "length bs \<le> rb_free (recv_buf u)"
    using assms by (simp_all add: tu_ok_def)
  obtain rb where rb: "rb_append bs (recv_buf u) = Done rb" "ring_ok rb" "rb_data rb = rb_data (recv_buf u) @ bs"
      "rb_free rb = rb_free (recv_buf u) - length bs"
    using append_fits [OF ok] by metis
  have "0 < rb_free (recv_buf u)"
    using False ok(2) by (cases bs) auto
  with False assms(2,3) ok rb show ?thesis
    by (intro exI [of _ rb]) (auto simp: Recv_def arrived_def ring_lens recvq_def)
qed

lemma PopFromRecvQ_free:
  assumes "tu_ok u"
  shows "rb_free (recv_buf u) \<le> rb_free (recv_buf (snd (PopFromRecvQ u)))"
proof -
  have ok: "ring_ok (recv_buf u)"
    using assms by (simp add: tu_ok_def)
  have "length (rb_data (recv_buf u)) \<le> rb_end (recv_buf u)"
    using ring_ok_length_data [OF ok] by simp
  then have "rb_free (recv_buf u) \<le> rb_free (Recycle_ATOMIC (recv_buf u))"
    using recycle_free [OF ok] by (simp add: rb_free_def)
  then show ?thesis
    by (auto simp: PopFromRecvQ_def Let_def rb_free_def split: option.splits)
qed

lemma client_takes:
  assumes side: "client_side st sq tk q room cap c" and "length bs \<le> room" and q: "q @ bs = encode_frame m @ rest"
    and m: "fits_client_frame m" and "cs_bodyid (cs_parse cd (View m)) \<noteq> CS_ERROR"
  shows "\<exists>u. TryToRecvFromPeerAndParse cd (a\<lparr>ans_recv := arrived bs\<rparr>) c
      = Done (0, c\<lparr>down_msg := cs_parse cd (View m), tcp_sock := u\<rparr>)
    \<and> client_side st sq tk rest (room - length bs) cap (c\<lparr>down_msg := cs_parse cd (View m), tcp_sock := u\<rparr>)"
proof -
  let ?a = "a\<lparr>ans_recv := arrived bs\<rparr>"
  have c: "tu_ok (tcp_sock c)" "sock_state (tcp_sock c) = NET_CONNECTED" "recvq (tcp_sock c) = q"
      "room \<le> rb_free (recv_buf (tcp_sock c))" "tcp_pkg_parser_imp (tcp_sock c) = Some client_parse"
    using side by (simp_all add: client_side_def)
  obtain rb where rb: "Recv (arrived bs) (tcp_sock c) = Done (NORMAL, (tcp_sock c)\<lparr>recv_buf := rb\<rparr>)" "ring_ok rb"
      "rb_data rb = q @ bs" "room - length bs \<le> rb_free rb"
    using Recv_arrived [OF c(1,2,4) assms(2)] c(3) by auto
  let ?u = "(tcp_sock c)\<lparr>recv_buf := rb\<rparr>"
  have u: "tu_ok ?u" "tcp_pkg_parser_imp ?u = Some client_parse" "recvq ?u = encode_frame m @ rest"
    using c rb q by (simp_all add: tu_ok_def recvq_def)
  obtain u1 u2 where p: "HasNewPkg ?u = (True, ?u)" "PeekFromRecvQ (ans_now a) ?u = (NORMAL, Some (encode_frame m), u1)"
      "PopFromRecvQ u1 = (NORMAL, u2)" "tu_ok u1" "recvq u1 = recvq ?u" "tu_ok u2" "recvq u2 = rest"
      "send_buf u2 = send_buf ?u" "sock_state u2 = sock_state ?u" "tcp_pkg_parser_imp u2 = Some client_parse"
    using packet_at_head [OF u m] by metis
  have "recv_buf u1 = rb"
    using p(2) u(2) by (auto simp: PeekFromRecvQ_def Let_def split: if_splits)
  then have "room - length bs \<le> rb_free (recv_buf u2)"
    using PopFromRecvQ_free [OF p(4)] p(3) rb(4) by simp
  moreover have "TryToRecvFromPeerAndParse cd ?a c = Done (0, c\<lparr>down_msg := cs_parse cd (View m), tcp_sock := u2\<rparr>)"
    using rb(1) p(1-3) assms(5) by (simp add: TryToRecvFromPeerAndParse_def Let_def frame_view)
  ultimately show ?thesis
    using p side by (auto simp: client_side_def sendq_def)
qed

text \<open>The kernel takes the whole frame.\<close>

lemma client_sends:
  assumes side: "client_side st sq tk q room cap c" and bin: "bin = cs_ser cd (up_msg c)" and fits: "fits_frame bin"
    and "length (encode_frame bin) \<le> cap" and "ans_send a = IoOk (length (encode_frame bin))"
  shows "\<exists>u. SerializeAndSendToPeer cd a c = Done (NORMAL, c\<lparr>tcp_sock := u\<rparr>, encode_frame bin)
    \<and> client_side st sq tk q room cap (c\<lparr>tcp_sock := u\<rparr>)"
proof -
  define v where "v = [Some (be32 (of_nat (length bin + 4))), Some bin]"
  have v: "concat (iov_used v) = encode_frame bin" "v \<noteq> []"
    unfolding v_def by (rule iov_frame) simp
  have c: "ring_ok (send_buf (tcp_sock c))" "sock_state (tcp_sock c) = NET_CONNECTED" "rb_data (send_buf (tcp_sock c)) = []"
      "cap \<le> rb_free (send_buf (tcp_sock c))"
    using side by (simp_all add: client_side_def tu_ok_def sendq_def)
  have len: "length (encode_frame bin) < 2147483648" "0 < length (encode_frame bin)"
    using fits by (simp_all add: fits_frame_def encode_frame_def)
  have room: "length (concat (iov_used v)) \<le> rb_free (send_buf (tcp_sock c))"
    using v(1) assms(4) c(4) by simp
  obtain sb where sb: "push_iov (iov_used v) (send_buf (tcp_sock c)) = Done sb" "ring_ok sb" "rb_data sb = encode_frame bin"
      "rb_size sb = rb_size (send_buf (tcp_sock c))"
    using push_iov_fits [OF c(1) room] c(3) v(1) by auto
  have push: "PushvToSendQ (ans_now a) (Some v) (tcp_sock c)
      = Done (NORMAL, (tcp_sock c)\<lparr>send_buf := sb, last_request_timestamp := ans_now a\<rparr>)"
    using sb(1) room len(1) v
    by (simp add: PushvToSendQ_def Let_def iov_total int_of_size_small ring_lens c(1))
  let ?k = "length (encode_frame bin)"
  let ?sb = "Recycle_ATOMIC (sb\<lparr>rb_begin := rb_begin sb + ?k\<rparr>)"
  let ?u = "(tcp_sock c)\<lparr>send_buf := ?sb, last_request_timestamp := ans_now a\<rparr>"
  have skip: "ring_ok (sb\<lparr>rb_begin := rb_begin sb + ?k\<rparr>)" "rb_data (sb\<lparr>rb_begin := rb_begin sb + ?k\<rparr>) = []"
    using ring_ok_skip [OF sb(2), of ?k] sb(3) by (simp_all add: rb_data_skip)
  have "Send (IoOk ?k) ((tcp_sock c)\<lparr>send_buf := sb, last_request_timestamp := ans_now a\<rparr>)
      = (NORMAL, (tcp_sock c)\<lparr>send_buf := sb, last_request_timestamp := ans_now a, send_buf := ?sb\<rparr>, encode_frame bin)"
    using c(2) sb(2,3) len(2) by (simp add: Send_def Let_def ring_lens)
  then have "SerializeAndSendToPeer cd a c = Done (NORMAL, c\<lparr>tcp_sock := ?u\<rparr>, encode_frame bin)"
    using push assms(5) unfolding v_def bin by (simp add: SerializeAndSendToPeer_def Let_def)
  moreover have "ring_ok ?sb" "rb_data ?sb = []" "rb_free (send_buf (tcp_sock c)) \<le> rb_free ?sb"
    using skip recycle_free [OF skip(1)] sb(4) by (simp_all add: recycle_ok) (simp add: rb_free_def)
  then have "client_side st sq tk q room cap (c\<lparr>tcp_sock := ?u\<rparr>)"
    using side by (auto simp: client_side_def tu_ok_def sendq_def recvq_def)
  ultimately show ?thesis
    by blast
qed


text \<open>A client that is connecting.\<close>

definition client_syning :: "64 word \<Rightarrow> string \<Rightarrow> nat \<Rightarrow> nat \<Rightarrow> client \<Rightarrow> bool" where
  "client_syning sq tk room cap c =
     (0 \<le> sock_fd (tcp_sock c)
      \<and> client_side SESSION_STATE_TCP_SYNING sq tk [] room cap (c\<lparr>tcp_sock := (tcp_sock c)\<lparr>sock_state := NET_CONNECTED\<rparr>\<rparr>))"

definition syn_message :: "client \<Rightarrow> csmsg" where
  "syn_message c = cs_message (seqno c) CS_SYN (empty_csbody\<lparr>cs_syn := Some (appid c, openid c)\<rparr>)"

definition token_message :: "64 word \<Rightarrow> string \<Rightarrow> csmsg" where
  "token_message sq tk = cs_message sq CS_AUTHENTICATION (empty_csbody\<lparr>cs_auth := Some tk\<rparr>)"

lemma client_side_prepare:
  "client_side st sq tk q room cap c \<Longrightarrow> client_side st (sq + 1) tk q room cap (prepare bid body c)"
  by (simp add: client_side_def prepare_def)

lemma client_side_state:
  "client_side st sq tk q room cap c \<Longrightarrow> client_side st' sq tk q room cap (c\<lparr>session_state := st'\<rparr>)"
  by (simp add: client_side_def)

lemma Update_syn:
  assumes "client_syning sq tk room cap c" and m: "m = cs_ser cd (syn_message c)" "fits_frame m" "length (encode_frame m) \<le> cap"
    and "ans_check a = 0" and "ans_send a = IoOk (length (encode_frame m))"
  shows "\<exists>c'. Update cd a flag c = Done (1, [], encode_frame m, flag, c')
    \<and> client_side SESSION_STATE_KEY_SYNING (sq + 1) tk [] room cap c'"
proof -
  define c1 where "c1 = c\<lparr>tcp_sock := (tcp_sock c)\<lparr>sock_state := NET_CONNECTED\<rparr>\<rparr>"
  let ?body = "empty_csbody\<lparr>cs_syn := Some (appid c1, openid c1)\<rparr>"
  have s: "0 \<le> sock_fd (tcp_sock c)" "client_side SESSION_STATE_TCP_SYNING sq tk [] room cap c1"
    using assms(1) by (simp_all add: client_syning_def c1_def)
  have check: "CheckNonBlock (ans_check a) (tcp_sock c) = (NORMAL, tcp_sock c1)" "sock_state (tcp_sock c1) = NET_CONNECTED"
      "c\<lparr>tcp_sock := tcp_sock c1\<rparr> = c1" "listener c" "session_state c = SESSION_STATE_TCP_SYNING"
    using s assms(5) by (simp_all add: CheckNonBlock_def c1_def client_side_def)
  have "m = cs_ser cd (up_msg (prepare CS_SYN ?body c1))"
    using m(1) by (simp add: prepare_def syn_message_def c1_def)
  from client_sends [OF client_side_prepare [OF s(2)] this m(2,3) assms(6)] obtain u where
      u: "SerializeAndSendToPeer cd a (prepare CS_SYN ?body c1) = Done (NORMAL, (prepare CS_SYN ?body c1)\<lparr>tcp_sock := u\<rparr>, encode_frame m)"
      "client_side SESSION_STATE_TCP_SYNING (sq + 1) tk [] room cap ((prepare CS_SYN ?body c1)\<lparr>tcp_sock := u\<rparr>)"
    by blast
  have "Update cd a flag c = Done (1, [], encode_frame m, flag,
      (prepare CS_SYN ?body c1)\<lparr>tcp_sock := u, session_state := SESSION_STATE_KEY_SYNING\<rparr>)"
    using check u(1) by (simp add: Update_def Update_switch_def HandShake_SYN_def sending_step_def Let_def)
  with client_side_state [OF u(2)] show ?thesis
    by blast
qed

lemma Update_synack:
  assumes side: "client_side SESSION_STATE_KEY_SYNING sq tk [] room cap c"
    and x: "fits_client_frame x" "length x + 4 \<le> room" "cs_bodyid (cs_parse cd (View x)) = CS_SYNACK"
    and m: "m = cs_ser cd (token_message sq tk)" "fits_frame m" "length (encode_frame m) \<le> cap"
    and "ans_send a = IoOk (length (encode_frame m))"
  shows "\<exists>c'. Update cd (a\<lparr>ans_recv := arrived (encode_frame x)\<rparr>) flag c = Done (1, [], encode_frame m, flag, c')
    \<and> client_side SESSION_STATE_AUTHING (sq + 1) tk [] (room - (length x + 4)) cap c'"
proof -
  let ?a = "a\<lparr>ans_recv := arrived (encode_frame x)\<rparr>"
  have l: "length (encode_frame x) \<le> room"
    using x(2) by (simp add: encode_frame_length)
  obtain u where u: "TryToRecvFromPeerAndParse cd ?a c = Done (0, c\<lparr>down_msg := cs_parse cd (View x), tcp_sock := u\<rparr>)"
      "client_side SESSION_STATE_KEY_SYNING sq tk [] (room - (length x + 4)) cap (c\<lparr>down_msg := cs_parse cd (View x), tcp_sock := u\<rparr>)"
    using client_takes [OF side l _ x(1), of "[]" cd a] x(3) by (auto simp: encode_frame_length)
  define c1 where "c1 = c\<lparr>down_msg := cs_parse cd (View x), tcp_sock := u,
      encrypt_skey := (case cs_ack (cs_body (cs_parse cd (View x))) of None \<Rightarrow> [] | Some k \<Rightarrow> k)\<rparr>"
  have c1: "client_side SESSION_STATE_KEY_SYNING sq tk [] (room - (length x + 4)) cap c1" "token c1 = tk" "seqno c1 = sq"
    using u(2) by (simp_all add: client_side_def c1_def)
  have ack: "HandShake_TRY_ACK cd ?a c = Done (0, c1)"
    using u(1) x(3) by (simp add: HandShake_TRY_ACK_def c1_def)
  let ?c = "prepare CS_AUTHENTICATION (empty_csbody\<lparr>cs_auth := Some (token c1)\<rparr>) c1"
  have "m = cs_ser cd (up_msg ?c)" "ans_send ?a = IoOk (length (encode_frame m))"
    using m(1) c1 assms(8) by (simp_all add: prepare_def token_message_def)
  from client_sends [OF client_side_prepare [OF c1(1)] this(1) m(2,3) this(2)] obtain u2 where
      u2: "SerializeAndSendToPeer cd ?a ?c = Done (NORMAL, ?c\<lparr>tcp_sock := u2\<rparr>, encode_frame m)"
      "client_side SESSION_STATE_KEY_SYNING (sq + 1) tk [] (room - (length x + 4)) cap (?c\<lparr>tcp_sock := u2\<rparr>)"
    by blast
  have "Update cd ?a flag c = Done (1, [], encode_frame m, flag, ?c\<lparr>tcp_sock := u2, session_state := SESSION_STATE_AUTHING\<rparr>)"
    using ack u2(1) side by (simp add: Update_def Update_switch_def HandShake_AUTH_def sending_step_def client_side_def)
  with client_side_state [OF u2(2)] show ?thesis
    by blast
qed

text \<open>The two replies that are only taken.\<close>

lemma Update_taken:
  assumes side: "client_side st sq tk q room cap c" and st: "st = SESSION_STATE_AUTHING \<and> e = CS_PASSPORT \<and> st' = SESSION_STATE_READY
      \<or> st = SESSION_STATE_READY \<and> e = CS_START_APP \<and> st' = SESSION_STATE_DONE"
    and x: "q @ bs = encode_frame x @ rest" "fits_client_frame x" "length bs \<le> room" "cs_bodyid (cs_parse cd (View x)) = e"
  shows "\<exists>c'. Update cd (a\<lparr>ans_recv := arrived bs\<rparr>) flag c = Done (0, [], [], flag, c')
    \<and> client_side st' sq tk rest (room - length bs) cap c'"
proof -
  let ?a = "a\<lparr>ans_recv := arrived bs\<rparr>"
  have "cs_bodyid (cs_parse cd (View x)) \<noteq> CS_ERROR"
    using st x(4) by auto
  then obtain u where u: "TryToRecvFromPeerAndParse cd ?a c = Done (0, c\<lparr>down_msg := cs_parse cd (View x), tcp_sock := u\<rparr>)"
      "client_side st sq tk rest (room - length bs) cap (c\<lparr>down_msg := cs_parse cd (View x), tcp_sock := u\<rparr>)"
    using client_takes [OF side x(3,1,2), of cd a] by auto
  have c: "listener c" "session_state c = st"
    using side by (simp_all add: client_side_def)
  from st show ?thesis
    using u c x(4) by (auto simp: Update_def Update_switch_def HandShake_TRY_READY_def HandShake_TRY_DONE_def plain_step_def client_side_def)
qed

lemma Update_success:
  "client_side SESSION_STATE_DONE sq tk q room cap c \<Longrightarrow> Update cd a False c = Done (1, [OnHandShakeSucceed], [], True, c)"
  by (simp add: Update_def Update_switch_def client_side_def)

lemma Update_incoming:
  assumes side: "client_side SESSION_STATE_DONE sq tk [] room cap c" and x: "fits_client_frame x" "length x + 4 \<le> room"
  shows "\<exists>c'. Update cd (a\<lparr>ans_recv := arrived (encode_frame x)\<rparr>) True c = Done (1, [OnIncoming], [], True, c')
    \<and> client_side SESSION_STATE_DONE sq tk (encode_frame x) (room - (length x + 4)) cap c'"
proof -
  have c: "listener c" "session_state c = SESSION_STATE_DONE" "tu_ok (tcp_sock c)" "sock_state (tcp_sock c) = NET_CONNECTED"
      "recvq (tcp_sock c) = []" "room \<le> rb_free (recv_buf (tcp_sock c))" "tcp_pkg_parser_imp (tcp_sock c) = Some client_parse"
    using side by (simp_all add: client_side_def)
  have "length (encode_frame x) \<le> room"
    using x(2) by (simp add: encode_frame_length)
  from Recv_arrived [OF c(3,4,6) this] obtain rb where rb:
      "Recv (arrived (encode_frame x)) (tcp_sock c) = Done (NORMAL, (tcp_sock c)\<lparr>recv_buf := rb\<rparr>)" "ring_ok rb"
      "rb_data rb = encode_frame x" "room - (length x + 4) \<le> rb_free rb"
    using c(5) by (auto simp: encode_frame_length)
  let ?u = "(tcp_sock c)\<lparr>recv_buf := rb\<rparr>"
  have u: "tu_ok ?u" "tcp_pkg_parser_imp ?u = Some client_parse" "recvq ?u = encode_frame x @ []"
    using c rb by (simp_all add: tu_ok_def recvq_def)
  have has: "HasNewPkg ?u = (True, ?u)"
    using packet_at_head [OF u x(1)] by metis
  have "Update cd (a\<lparr>ans_recv := arrived (encode_frame x)\<rparr>) True c = Done (1, [OnIncoming], [], True, c\<lparr>tcp_sock := ?u\<rparr>)"
    using rb(1) has c(1,2) by (simp add: Update_def Update_switch_def)
  with u rb side show ?thesis
    by (auto simp: client_side_def sendq_def)
qed

lemma client_pops:
  assumes side: "client_side st sq tk (encode_frame x) room cap c" and x: "fits_client_frame x"
    and d: "cs_bodyid (cs_parse cd (View x)) = CS_DATA_TRANSPARENT" "length (csmsg_data (cs_parse cd (View x))) \<le> n" "0 < n"
  shows "\<exists>c'. PopMessageFromRecvQ cd a (Some n) c = Done (0, Some (csmsg_data (cs_parse cd (View x))), c')
    \<and> client_side st sq tk [] room cap c'"
proof -
  have c: "tu_ok (tcp_sock c)" "tcp_pkg_parser_imp (tcp_sock c) = Some client_parse" "recvq (tcp_sock c) = encode_frame x @ []"
    using side by (simp_all add: client_side_def)
  obtain u1 u2 where p: "HasNewPkg (tcp_sock c) = (True, tcp_sock c)"
      "PeekFromRecvQ (ans_now a) (tcp_sock c) = (NORMAL, Some (encode_frame x), u1)"
      "PopFromRecvQ u1 = (NORMAL, u2)" "tu_ok u1" "tu_ok u2" "recvq u2 = []" "send_buf u2 = send_buf (tcp_sock c)"
      "sock_state u2 = sock_state (tcp_sock c)" "tcp_pkg_parser_imp u2 = Some client_parse"
    using packet_at_head [OF c x] by metis
  have "recv_buf u1 = recv_buf (tcp_sock c)"
    using p(2) c(2) by (auto simp: PeekFromRecvQ_def Let_def split: if_splits)
  then have "room \<le> rb_free (recv_buf u2)"
    using PopFromRecvQ_free [OF p(4)] p(3) side by (simp add: client_side_def)
  with p d side show ?thesis
    by (auto simp: PopMessageFromRecvQ_def PeekMessage_def PopMessage_def Let_def frame_view client_side_def sendq_def)
qed

lemma client_pushes:
  assumes side: "client_side st sq tk q room cap c" and "d \<noteq> []" and m: "m = cs_ser cd (data_message sq d)" "fits_frame m"
    "length (encode_frame m) \<le> cap" and "ans_send a = IoOk (length (encode_frame m))"
  shows "\<exists>c'. PushMessage cd a (Some d) c = Done (0, c', encode_frame m) \<and> client_side st (sq + 1) tk q room cap c'"
proof -
  let ?c = "prepare CS_DATA_TRANSPARENT (empty_csbody\<lparr>cs_data := Some d\<rparr>) c"
  have "m = cs_ser cd (up_msg ?c)"
    using m(1) side by (simp add: prepare_def data_message_def client_side_def)
  from client_sends [OF client_side_prepare [OF side] this m(2,3) assms(6)] assms(2) show ?thesis
    by (auto simp: PushMessage_def)
qed


section \<open>The three together\<close>

text \<open>The client's connection is \<open>p\<close> in the connector, the connection to the backend is \<open>q\<close> in the
  connector and \<open>r\<close> in the backend. \<open>flush\<close> is libevent writing out what is pending.\<close>

record link =
  l_client :: client
  l_flag :: bool
  l_conn :: cworld
  l_demo :: "(unit, server_demo) world"

definition flush :: "ptr \<Rightarrow> ('c, 'a) world \<Rightarrow> ('c, 'a) world" where
  "flush p w = (case nets (net_heap w) p of None \<Rightarrow> w
     | Some n \<Rightarrow> set_net p (n\<lparr>hevent := map_option (\<lambda>b. b\<lparr>bev_out := []\<rparr>) (hevent n)\<rparr>) w)"

text \<open>The client's \<open>Update\<close> gets what the connector has written, the connector what it sends; then the
  backend gets what the connector has written for it, and the connector its answers.\<close>

definition client_turn :: "codec \<Rightarrow> ptr \<Rightarrow> net_answers \<Rightarrow> link \<Rightarrow> (client_event list \<times> link) exec" where
  "client_turn cd p a L =
     bindE (Update cd (a\<lparr>ans_recv := arrived (written (l_conn L) p)\<rparr>) (l_flag L) (l_client L))
       (\<lambda>(ret, evs, out, flag, c).
         bindE (front_hears (connector_app cd False) p out (flush p (l_conn L))) (\<lambda>w.
           Done (evs, L\<lparr>l_client := c, l_flag := flag, l_conn := w\<rparr>)))"

definition backend_turn :: "codec \<Rightarrow> (view \<Rightarrow> ssmsg option) \<Rightarrow> ptr \<Rightarrow> ptr \<Rightarrow> link \<Rightarrow> link exec" where
  "backend_turn cd dp q r L =
     bindE (front_hears (demo_app dp (ss_ser cd) ()) r (written (l_conn L) q) (l_demo L)) (\<lambda>v.
       bindE (back_hears (connector_app cd False) q (written v r) (flush q (l_conn L))) (\<lambda>w.
         Done (L\<lparr>l_conn := w, l_demo := flush r v\<rparr>)))"

fun rounds :: "codec \<Rightarrow> (view \<Rightarrow> ssmsg option) \<Rightarrow> ptr \<Rightarrow> ptr \<Rightarrow> ptr \<Rightarrow> net_answers list \<Rightarrow> link
    \<Rightarrow> (client_event list \<times> link) exec" where
  "rounds cd dp p q r [] L = Done ([], L)"
| "rounds cd dp p q r (a # as) L =
     bindE (client_turn cd p a L) (\<lambda>(evs, L1).
       bindE (backend_turn cd dp q r L1) (\<lambda>L2.
         bindE (rounds cd dp p q r as L2) (\<lambda>(evs2, L3). Done (evs @ evs2, L3))))"

text \<open>The application pushes data, and takes what has come back when it is told.\<close>

definition echo_call :: "codec \<Rightarrow> (view \<Rightarrow> ssmsg option) \<Rightarrow> ptr \<Rightarrow> ptr \<Rightarrow> ptr \<Rightarrow> nat \<Rightarrow> net_answers \<Rightarrow> byte list \<Rightarrow> link
    \<Rightarrow> (byte list option \<times> link) exec" where
  "echo_call cd dp p q r n a d L =
     bindE (PushMessage cd a (Some d) (l_client L)) (\<lambda>(ret, c, out).
       bindE (front_hears (connector_app cd False) p out (l_conn L)) (\<lambda>w.
         bindE (backend_turn cd dp q r (L\<lparr>l_client := c, l_conn := w\<rparr>)) (\<lambda>L1.
           bindE (client_turn cd p a L1) (\<lambda>(evs, L2).
             if evs = [OnIncoming] then
               bindE (PopMessageFromRecvQ cd a (Some n) (l_client L2)) (\<lambda>(ret, data, c2).
                 Done (data, L2\<lparr>l_client := c2\<rparr>))
             else Done (None, L2)))))"

fun echo_calls :: "codec \<Rightarrow> (view \<Rightarrow> ssmsg option) \<Rightarrow> ptr \<Rightarrow> ptr \<Rightarrow> ptr \<Rightarrow> nat \<Rightarrow> (net_answers \<times> byte list) list \<Rightarrow> link
    \<Rightarrow> (byte list option list \<times> link) exec" where
  "echo_calls cd dp p q r n [] L = Done ([], L)"
| "echo_calls cd dp p q r n ((a, d) # xs) L =
     bindE (echo_call cd dp p q r n a d L) (\<lambda>(x, L1).
       bindE (echo_calls cd dp p q r n xs L1) (\<lambda>(ys, L2). Done (x # ys, L2)))"

lemma conn_side_written:
  assumes "conn_side K p q in_p in_q st t seq out_p out_q w"
  shows "written w p = out_p" "written w q = out_q"
    "conn_side K p q in_p in_q st t seq [] out_q (flush p w)" "conn_side K p q in_p in_q st t seq out_p [] (flush q w)"
proof -
  obtain n b s nq bq where c: "conn_at K p q n b s nq bq w" "bev_in b = in_p" "bev_in bq = in_q" "state s = st"
    "front_tuple n b s = t" "last_seq s = seq" "bev_out b = out_p" "bev_out bq = out_q"
    using assms by (rule conn_sideE)
  have up: "nets (net_heap w) p = Some n" "hevent n = Some b" "user_context n = Some s" "net_stub s = Some p" "frame_stub s"
      "nets (net_heap w) q = Some nq" "hevent nq = Some bq"
    using c(1) by (simp_all add: conn_at_def up_front_def)
  show "written w p = out_p" "written w q = out_q"
    using up c by (simp_all add: written_def)
  have "conn_at K p q (n\<lparr>hevent := Some (b\<lparr>bev_out := []\<rparr>)\<rparr>) (b\<lparr>bev_out := []\<rparr>) s nq bq (flush p w)"
    using conn_at_front [OF c(1), of "n\<lparr>hevent := Some (b\<lparr>bev_out := []\<rparr>)\<rparr>" "b\<lparr>bev_out := []\<rparr>" s] up
    by (simp add: flush_def)
  then show "conn_side K p q in_p in_q st t seq [] out_q (flush p w)"
    by (rule conn_sideI) (use c in \<open>simp_all add: front_tuple_def\<close>)
  have "conn_at K p q n b s (nq\<lparr>hevent := Some (bq\<lparr>bev_out := []\<rparr>)\<rparr>) (bq\<lparr>bev_out := []\<rparr>) (flush q w)"
    using conn_at_back [OF c(1), of "nq\<lparr>hevent := Some (bq\<lparr>bev_out := []\<rparr>)\<rparr>" "bq\<lparr>bev_out := []\<rparr>"] up
    by (simp add: flush_def)
  then show "conn_side K p q in_p in_q st t seq out_p [] (flush q w)"
    by (rule conn_sideI) (use c in simp_all)
qed

lemma demo_side_written:
  assumes "demo_side K r out v"
  shows "written v r = out" "demo_side K r [] (flush r v)"
  using assms by (auto simp: demo_side_def written_def flush_def)

section \<open>What the codecs carry\<close>

definition cs_carried :: "codec \<Rightarrow> nat \<Rightarrow> csmsg \<Rightarrow> bool" where
  "cs_carried cd K m = (cs_parse cd (View (cs_ser cd m)) = m \<and> fits_client_frame (cs_ser cd m) \<and> length (cs_ser cd m) + 4 \<le> K)"

definition ss_carried :: "codec \<Rightarrow> (view \<Rightarrow> ssmsg option) \<Rightarrow> nat \<Rightarrow> ssmsg \<Rightarrow> bool" where
  "ss_carried cd dp K m = (ss_parse cd (View (ss_ser cd m)) = m \<and> dp (View (ss_ser cd m)) = Some m
     \<and> fits_client_frame (ss_ser cd m) \<and> length (ss_ser cd m) + 4 \<le> K)"

lemma cs_carriedD:
  assumes "cs_carried cd K m"
  shows "cs_parse cd (View (cs_ser cd m)) = m" "fits_frame (cs_ser cd m)" "fits_client_frame (cs_ser cd m)"
    "length (cs_ser cd m) + 4 \<le> K" "length (encode_frame (cs_ser cd m)) \<le> K" "cs_ser cd m \<noteq> []"
  using assms by (simp_all add: cs_carried_def fits_client_frame_def encode_frame_length)

lemma ss_carriedD:
  assumes "ss_carried cd dp K m"
  shows "ss_parse cd (View (ss_ser cd m)) = m" "dp (View (ss_ser cd m)) = Some m" "fits_frame (ss_ser cd m)"
    "fits_client_frame (ss_ser cd m)" "length (ss_ser cd m) + 4 \<le> K" "ss_ser cd m \<noteq> []"
  using assms by (simp_all add: ss_carried_def fits_client_frame_def)


lemma client_side_room: "client_side st sq tk q room cap c \<Longrightarrow> room' \<le> room \<Longrightarrow> client_side st sq tk q room' cap c"
  by (simp add: client_side_def)

section \<open>A round\<close>

text \<open>The two servers between rounds: only the client's bytes \<open>out\<close> are still on their way.\<close>

definition servers :: "nat \<Rightarrow> ptr \<Rightarrow> ptr \<Rightarrow> ptr \<Rightarrow> SessionState \<Rightarrow> ss_tuple \<Rightarrow> 64 word \<Rightarrow> byte list \<Rightarrow> link \<Rightarrow> bool" where
  "servers K p q r st t seq out L =
     (conn_side K p q [] [] st t seq out [] (l_conn L) \<and> demo_side K r [] (l_demo L))"

lemma client_turn_quiet:
  assumes "Update cd (a\<lparr>ans_recv := arrived out\<rparr>) (l_flag L) (l_client L) = Done (ret, evs, [], flag, c)"
    and "conn_side K p q [] [] st t seq out out_q (l_conn L)"
  shows "\<exists>w. client_turn cd p a L = Done (evs, L\<lparr>l_client := c, l_flag := flag, l_conn := w\<rparr>)
    \<and> conn_side K p q [] [] st t seq [] out_q w"
  using assms(1) conn_side_written [OF assms(2)] by (auto simp: client_turn_def front_hears_def)

lemma backend_quiet:
  assumes "servers K p q r st t seq out L"
  shows "\<exists>w v. backend_turn cd dp q r L = Done (L\<lparr>l_conn := w, l_demo := v\<rparr>)
    \<and> servers K p q r st t seq out (L\<lparr>l_conn := w, l_demo := v\<rparr>)"
proof -
  have c: "conn_side K p q [] [] st t seq out [] (l_conn L)" "demo_side K r [] (l_demo L)"
    using assms by (simp_all add: servers_def)
  note f = conn_side_written [OF c(1)] demo_side_written [OF c(2)]
  show ?thesis
    using f by (auto simp: backend_turn_def front_hears_def back_hears_def servers_def)
qed

lemma backend_answers:
  assumes side: "conn_side K p q [] [] st t seq out (encode_frame (ss_ser cd x)) (l_conn L)" and demo: "demo_side K r [] (l_demo L)"
    and x: "ss_carried cd dp K x" and y: "demo_reply x = Some y" "ss_carried cd dp K y" and "\<And>z. ss_ser cd z \<noteq> []"
    and step: "\<And>ty w. conn_side K p q [] (encode_frame (ss_ser cd y)) st t seq out [] w \<Longrightarrow>
      \<exists>w'. Connector_OnRecvBackEnd cd False q ty (View (ss_ser cd y)) w = Done (0, w')
        \<and> conn_side K p q [] (encode_frame (ss_ser cd y)) st' t' seq' out' [] w'"
  shows "\<exists>w v. backend_turn cd dp q r L = Done (L\<lparr>l_conn := w, l_demo := v\<rparr>)
    \<and> servers K p q r st' t' seq' out' (L\<lparr>l_conn := w, l_demo := v\<rparr>)"
proof -
  note f = conn_side_written [OF side]
  note xd = ss_carriedD [OF x] and yd = ss_carriedD [OF y(2)]
  obtain v where v: "front_hears (demo_app dp (ss_ser cd) ()) r (encode_frame (ss_ser cd x)) (l_demo L) = Done v"
      "demo_side K r (encode_frame (ss_ser cd y)) v"
    using demo_hears [OF demo xd(4,5), where dp = dp and x = x and y = y and ser = "ss_ser cd"] xd(2) y(1) assms(6)
    by (auto simp del: fun_upd_apply)
  note g = demo_side_written [OF v(2)]
  have "\<exists>r w'. OnRecvBackEnd (connector_app cd False) q ty (View (ss_ser cd y)) w = Done (r, w')
      \<and> conn_side K p q [] (encode_frame (ss_ser cd y)) st' t' seq' out' [] w'"
    if "conn_side K p q [] (encode_frame (ss_ser cd y)) st t seq out [] w" for ty w
    using step [OF that, of ty] by (auto simp: connector_app_def connector_base_def)
  from back_hears_one [OF f(4) yd(3,5) this] obtain w where
      "back_hears (connector_app cd False) q (encode_frame (ss_ser cd y)) (flush q (l_conn L)) = Done w"
      "conn_side K p q [] [] st' t' seq' out' [] w"
    by blast
  with f(2) v(1) g show ?thesis
    by (auto simp: backend_turn_def servers_def)
qed

text \<open>The connector's steps for the bytes of one message.\<close>

lemma hears_client:
  assumes "conn_side K p q [] [] st t seq out out_q w" and m: "cs_carried cd K m"
    and "\<And>ty w. conn_side K p q (encode_frame (cs_ser cd m)) [] st t seq out out_q w \<Longrightarrow>
      \<exists>w'. Connector_OnRecvFrontEnd cd p ty (View (cs_ser cd m)) w = Done (0, w')
        \<and> conn_side K p q (encode_frame (cs_ser cd m)) [] st' t' seq' out' out_q' w'"
  shows "\<exists>w'. front_hears (connector_app cd False) p (encode_frame (cs_ser cd m)) w = Done w'
    \<and> conn_side K p q [] [] st' t' seq' out' out_q' w'"
proof (rule front_hears_one [OF assms(1) cs_carriedD(2,4) [OF m]])
  fix ty w
  assume "conn_side K p q (encode_frame (cs_ser cd m)) [] st t seq out out_q w"
  from assms(3) [OF this, of ty]
  show "\<exists>r w'. OnRecvFrontEnd (connector_app cd False) p ty (View (cs_ser cd m)) w = Done (r, w')
      \<and> conn_side K p q (encode_frame (cs_ser cd m)) [] st' t' seq' out' out_q' w'"
    by (auto simp: connector_app_def connector_base_def)
qed

lemma client_turn_says:
  assumes up: "Update cd (a\<lparr>ans_recv := arrived out\<rparr>) (l_flag L) (l_client L)
      = Done (ret, evs, encode_frame (cs_ser cd m), flag, c)"
    and side: "conn_side K p q [] [] st t seq out out_q (l_conn L)" and m: "cs_carried cd K m"
    and step: "\<And>ty w. conn_side K p q (encode_frame (cs_ser cd m)) [] st t seq [] out_q w \<Longrightarrow>
      \<exists>w'. Connector_OnRecvFrontEnd cd p ty (View (cs_ser cd m)) w = Done (0, w')
        \<and> conn_side K p q (encode_frame (cs_ser cd m)) [] st' t' seq' out' out_q' w'"
  shows "\<exists>w. client_turn cd p a L = Done (evs, L\<lparr>l_client := c, l_flag := flag, l_conn := w\<rparr>)
    \<and> conn_side K p q [] [] st' t' seq' out' out_q' w"
proof -
  note f = conn_side_written [OF side]
  obtain w where "front_hears (connector_app cd False) p (encode_frame (cs_ser cd m)) (flush p (l_conn L)) = Done w"
      "conn_side K p q [] [] st' t' seq' out' out_q' w"
    using hears_client [OF f(3) m step] by blast
  with up f(1) show ?thesis
    by (auto simp: client_turn_def)
qed

text \<open>The messages of a handshake.\<close>

definition ack_of :: "ss_tuple \<Rightarrow> ssmsg" where
  "ack_of t = ss_message 0 SS_ACK (t\<lparr>ss_sid := -1\<rparr>) (empty_ssbody\<lparr>ss_ack := Some 0\<rparr>)"

definition carries_handshake :: "codec \<Rightarrow> (view \<Rightarrow> ssmsg option) \<Rightarrow> nat \<Rightarrow> ss_tuple \<Rightarrow> 64 word \<Rightarrow> string \<Rightarrow> client \<Rightarrow> bool" where
  "carries_handshake cd dp K t sq tk c =
     (codec_writes cd \<and> list_all (cs_carried cd K) [syn_message c, synack_reply, token_message (sq + 1) tk, auth_reply, start_reply]
      \<and> ss_carried cd dp K (start_request t) \<and> ss_carried cd dp K (ack_of t))"

lemma round_syn:
  assumes c: "client_syning sq tk room cap (l_client L)" and s: "servers K p q r STATE_INIT t 0 [] L" and "K \<le> cap"
    and m: "cs_carried cd K (syn_message (l_client L))" and "cs_ser cd synack_reply \<noteq> []" and "ans_check a = 0"
    and "ans_send a = IoOk (length (encode_frame (cs_ser cd (syn_message (l_client L)))))"
  shows "\<exists>L'. rounds cd dp p q r (a # as) L = rounds cd dp p q r as L' \<and> l_flag L' = l_flag L
    \<and> client_side SESSION_STATE_KEY_SYNING (sq + 1) tk [] room cap (l_client L')
    \<and> servers K p q r STATE_AUTH t sq (encode_frame (cs_ser cd synack_reply)) L'"
proof -
  let ?m = "syn_message (l_client L)" and ?a = "a\<lparr>ans_recv := arrived []\<rparr>"
  note md = cs_carriedD [OF m]
  have side: "conn_side K p q [] [] STATE_INIT t 0 [] [] (l_conn L)"
    using s by (simp add: servers_def)
  have sq: "seqno (l_client L) = sq"
    using c by (simp add: client_syning_def client_side_def)
  obtain c' where c': "Update cd ?a (l_flag L) (l_client L) = Done (1, [], encode_frame (cs_ser cd ?m), l_flag L, c')"
      "client_side SESSION_STATE_KEY_SYNING (sq + 1) tk [] room cap c'"
    using Update_syn [OF c refl md(2), of ?a] md(5) assms(3,6,7) by fastforce
  have ok: "in_order (cs_parse cd (View (cs_ser cd ?m))) 0" "cs_sequence (cs_parse cd (View (cs_ser cd ?m))) = sq"
    unfolding md(1) by (simp_all add: in_order_def syn_message_def cs_message_def sq)
  have step: "\<exists>w'. Connector_OnRecvFrontEnd cd p ty (View (cs_ser cd ?m)) w = Done (0, w')
      \<and> conn_side K p q (encode_frame (cs_ser cd ?m)) [] STATE_AUTH t sq (encode_frame (cs_ser cd synack_reply)) [] w'"
    if "conn_side K p q (encode_frame (cs_ser cd ?m)) [] STATE_INIT t 0 [] [] w" for ty w
    using conn_hears_syn [OF that ok(1) assms(5), of ty] ok(2) by simp
  obtain w where w: "client_turn cd p a L = Done ([], L\<lparr>l_client := c', l_flag := l_flag L, l_conn := w\<rparr>)"
      "conn_side K p q [] [] STATE_AUTH t sq (encode_frame (cs_ser cd synack_reply)) [] w"
    using client_turn_says [OF c'(1) side m step] by blast
  let ?L = "L\<lparr>l_client := c', l_flag := l_flag L, l_conn := w\<rparr>"
  have "servers K p q r STATE_AUTH t sq (encode_frame (cs_ser cd synack_reply)) ?L"
    using w(2) s by (simp add: servers_def)
  from backend_quiet [OF this, of cd dp] w(1) c'(2) show ?thesis
    by (auto simp: bindE_Done_right)
qed


lemma demo_acks: "demo_reply (start_request t) = Some (ack_of t)"
  by (simp add: demo_reply_def start_request_def ss_message_def ack_of_def)

lemma round_auth:
  assumes c: "client_side SESSION_STATE_KEY_SYNING (sq + 1) tk [] room cap (l_client L)"
    and s: "servers K p q r STATE_AUTH t sq (encode_frame (cs_ser cd synack_reply)) L" and "K \<le> cap" "K \<le> room"
    and m: "cs_carried cd K (token_message (sq + 1) tk)" "cs_carried cd K synack_reply"
    and x: "ss_carried cd dp K (start_request t)" "ss_carried cd dp K (ack_of t)" and wr: "codec_writes cd"
    and "ans_send a = IoOk (length (encode_frame (cs_ser cd (token_message (sq + 1) tk))))"
  shows "\<exists>L'. rounds cd dp p q r (a # as) L = rounds cd dp p q r as L' \<and> l_flag L' = l_flag L
    \<and> client_side SESSION_STATE_AUTHING (sq + 2) tk [] (room - K) cap (l_client L')
    \<and> servers K p q r STATE_OK (t\<lparr>ss_sid := -1\<rparr>) (sq + 1)
        (encode_frame (cs_ser cd auth_reply) @ encode_frame (cs_ser cd start_reply)) L'"
proof -
  let ?m = "token_message (sq + 1) tk" and ?y = "cs_ser cd synack_reply"
  note md = cs_carriedD [OF m(1)] and yd = cs_carriedD [OF m(2)] and xd = ss_carriedD [OF x(1)] and zd = ss_carriedD [OF x(2)]
  have side: "conn_side K p q [] [] STATE_AUTH t sq (encode_frame ?y) [] (l_conn L)" "demo_side K r [] (l_demo L)"
    using s by (simp_all add: servers_def)
  have y: "cs_bodyid (cs_parse cd (View ?y)) = CS_SYNACK"
    unfolding yd(1) by (simp add: synack_reply_def cs_message_def)
  obtain c' where c': "Update cd (a\<lparr>ans_recv := arrived (encode_frame ?y)\<rparr>) (l_flag L) (l_client L)
        = Done (1, [], encode_frame (cs_ser cd ?m), l_flag L, c')"
      "client_side SESSION_STATE_AUTHING (sq + 1 + 1) tk [] (room - (length ?y + 4)) cap c'"
    using Update_synack [OF c yd(3) _ y refl md(2) _ assms(10)] yd(4) md(5) assms(3,4) by fastforce
  have c2: "client_side SESSION_STATE_AUTHING (sq + 2) tk [] (room - K) cap c'"
    using client_side_room [OF c'(2), of "room - K"] yd(4) by (simp add: algebra_simps)
  have wr2: "cs_ser cd u \<noteq> []" "ss_ser cd v \<noteq> []" for u v
    using wr by (simp_all add: codec_writes_def)
  have ok: "in_order (cs_parse cd (View (cs_ser cd ?m))) sq" "cs_sequence (cs_parse cd (View (cs_ser cd ?m))) = sq + 1"
    unfolding md(1) by (simp_all add: in_order_def token_message_def cs_message_def)
  have step: "\<exists>w'. Connector_OnRecvFrontEnd cd p ty (View (cs_ser cd ?m)) w = Done (0, w')
      \<and> conn_side K p q (encode_frame (cs_ser cd ?m)) [] STATE_SYNACK t (sq + 1) (encode_frame (cs_ser cd auth_reply))
          (encode_frame (ss_ser cd (start_request t))) w'"
    if "conn_side K p q (encode_frame (cs_ser cd ?m)) [] STATE_AUTH t sq [] [] w" for ty w
    using conn_hears_auth [OF that ok(1) wr2, of ty] ok(2) by simp
  obtain w where w: "client_turn cd p a L = Done ([], L\<lparr>l_client := c', l_flag := l_flag L, l_conn := w\<rparr>)"
      "conn_side K p q [] [] STATE_SYNACK t (sq + 1) (encode_frame (cs_ser cd auth_reply)) (encode_frame (ss_ser cd (start_request t))) w"
    using client_turn_says [OF c'(1) side(1) m(1) step] by blast
  let ?L = "L\<lparr>l_client := c', l_flag := l_flag L, l_conn := w\<rparr>"
  have ack: "ss_bodyid (ss_parse cd (View (ss_ser cd (ack_of t)))) = SS_ACK"
      "ss_session (ss_parse cd (View (ss_ser cd (ack_of t)))) = t\<lparr>ss_sid := -1\<rparr>"
    unfolding zd(1) by (simp_all add: ack_of_def ss_message_def)
  have back_step: "\<exists>w'. Connector_OnRecvBackEnd cd False q ty (View (ss_ser cd (ack_of t))) w = Done (0, w')
      \<and> conn_side K p q [] (encode_frame (ss_ser cd (ack_of t))) STATE_OK (t\<lparr>ss_sid := -1\<rparr>) (sq + 1)
          (encode_frame (cs_ser cd auth_reply) @ encode_frame (cs_ser cd start_reply)) [] w'"
    if "conn_side K p q [] (encode_frame (ss_ser cd (ack_of t))) STATE_SYNACK t (sq + 1) (encode_frame (cs_ser cd auth_reply)) [] w"
    for ty w
    using conn_hears_ack [OF that ack] wr2(1) by blast
  obtain w2 v where "backend_turn cd dp q r ?L = Done (?L\<lparr>l_conn := w2, l_demo := v\<rparr>)"
      "servers K p q r STATE_OK (t\<lparr>ss_sid := -1\<rparr>) (sq + 1)
        (encode_frame (cs_ser cd auth_reply) @ encode_frame (cs_ser cd start_reply)) (?L\<lparr>l_conn := w2, l_demo := v\<rparr>)"
    using backend_answers [of K p q STATE_SYNACK t "sq + 1" "encode_frame (cs_ser cd auth_reply)" cd "start_request t" ?L r dp "ack_of t",
        OF _ _ x(1) demo_acks x(2) wr2(2) back_step] w(2) side(2)
    by auto
  with w(1) c2 show ?thesis
    by (intro exI [of _ "?L\<lparr>l_conn := w2, l_demo := v\<rparr>"]) simp
qed

text \<open>A round in which the client sends nothing.\<close>

lemma round_quiet:
  assumes "servers K p q r st t seq out L"
    and "Update cd (a\<lparr>ans_recv := arrived out\<rparr>) (l_flag L) (l_client L) = Done (ret, evs, [], flag, c)"
  shows "\<exists>L'. rounds cd dp p q r (a # as) L = bindE (rounds cd dp p q r as L') (\<lambda>(evs2, L2). Done (evs @ evs2, L2))
    \<and> l_flag L' = flag \<and> l_client L' = c \<and> servers K p q r st t seq [] L'"
proof -
  obtain w where w: "client_turn cd p a L = Done (evs, L\<lparr>l_client := c, l_flag := flag, l_conn := w\<rparr>)"
      "conn_side K p q [] [] st t seq [] [] w"
    using client_turn_quiet [OF assms(2)] assms(1) unfolding servers_def by blast
  let ?L = "L\<lparr>l_client := c, l_flag := flag, l_conn := w\<rparr>"
  have "servers K p q r st t seq [] ?L"
    using w(2) assms(1) by (simp add: servers_def)
  from backend_quiet [OF this, of cd dp] w(1) show ?thesis
    by fastforce
qed

text \<open>The three parties before and after the handshake.\<close>

definition session_fresh :: "nat \<Rightarrow> ptr \<Rightarrow> ptr \<Rightarrow> ptr \<Rightarrow> ss_tuple \<Rightarrow> 64 word \<Rightarrow> string \<Rightarrow> nat \<Rightarrow> nat \<Rightarrow> link \<Rightarrow> bool" where
  "session_fresh K p q r t sq tk room cap L =
     (client_syning sq tk room cap (l_client L) \<and> \<not> l_flag L \<and> servers K p q r STATE_INIT t 0 [] L)"

definition session_open :: "nat \<Rightarrow> ptr \<Rightarrow> ptr \<Rightarrow> ptr \<Rightarrow> ss_tuple \<Rightarrow> 64 word \<Rightarrow> string \<Rightarrow> nat \<Rightarrow> nat \<Rightarrow> link \<Rightarrow> bool" where
  "session_open K p q r t sq tk room cap L =
     (client_side SESSION_STATE_DONE sq tk [] room cap (l_client L) \<and> l_flag L
      \<and> servers K p q r STATE_OK t (sq - 1) [] L)"

lemma handshake_rounds:
  assumes fresh: "session_fresh K p q r t sq tk room cap L" and carries: "carries_handshake cd dp K t sq tk (l_client L)"
    and "K \<le> cap" and "3 * K \<le> room" and "ans_check a1 = 0"
    and "ans_send a1 = IoOk (length (encode_frame (cs_ser cd (syn_message (l_client L)))))"
    and "ans_send a2 = IoOk (length (encode_frame (cs_ser cd (token_message (sq + 1) tk))))"
  shows "\<exists>L'. rounds cd dp p q r [a1, a2, a3, a4, a5] L = Done ([OnHandShakeSucceed], L')
    \<and> session_open K p q r (t\<lparr>ss_sid := -1\<rparr>) (sq + 2) tk (room - 3 * K) cap L'"
proof -
  have f: "client_syning sq tk room cap (l_client L)" "l_flag L = False" "servers K p q r STATE_INIT t 0 [] L"
    using fresh by (simp_all add: session_fresh_def)
  have m: "codec_writes cd" "cs_carried cd K (syn_message (l_client L))" "cs_carried cd K synack_reply"
      "cs_carried cd K (token_message (sq + 1) tk)" "cs_carried cd K auth_reply" "cs_carried cd K start_reply"
      "ss_carried cd dp K (start_request t)" "ss_carried cd dp K (ack_of t)"
    using carries by (simp_all add: carries_handshake_def)
  have "cs_ser cd synack_reply \<noteq> []"
    using m(1) by (simp add: codec_writes_def)
  from round_syn [OF f(1,3) assms(3) m(2) this assms(5,6), of dp "[a2, a3, a4, a5]"] obtain L1 where
      r1: "rounds cd dp p q r [a1, a2, a3, a4, a5] L = rounds cd dp p q r [a2, a3, a4, a5] L1" "l_flag L1 = False"
        "client_side SESSION_STATE_KEY_SYNING (sq + 1) tk [] room cap (l_client L1)"
        "servers K p q r STATE_AUTH t sq (encode_frame (cs_ser cd synack_reply)) L1"
    using f(2) by auto
  let ?t = "t\<lparr>ss_sid := -1\<rparr>" and ?x = "cs_ser cd auth_reply" and ?y = "cs_ser cd start_reply"
  have "K \<le> room"
    using assms(4) by simp
  from round_auth [OF r1(3,4) assms(3) this m(4,3,7,8,1) assms(7), of "[a3, a4, a5]"] obtain L2 where
      r2: "rounds cd dp p q r [a2, a3, a4, a5] L1 = rounds cd dp p q r [a3, a4, a5] L2" "l_flag L2 = False"
        "client_side SESSION_STATE_AUTHING (sq + 2) tk [] (room - K) cap (l_client L2)"
        "servers K p q r STATE_OK ?t (sq + 1) (encode_frame ?x @ encode_frame ?y) L2"
    using r1(2) by auto
  note xd = cs_carriedD [OF m(5)] and yd = cs_carriedD [OF m(6)]
  have body: "cs_bodyid (cs_parse cd (View ?x)) = CS_PASSPORT" "cs_bodyid (cs_parse cd (View ?y)) = CS_START_APP"
    unfolding xd(1) yd(1) by (simp_all add: auth_reply_def start_reply_def cs_message_def)
  have len: "length (encode_frame ?x @ encode_frame ?y) \<le> room - K" "length (encode_frame ?x @ encode_frame ?y) \<le> 2 * K"
    using xd(5) yd(5) assms(4) by simp_all
  obtain c3 where c3: "Update cd (a3\<lparr>ans_recv := arrived (encode_frame ?x @ encode_frame ?y)\<rparr>) (l_flag L2) (l_client L2)
        = Done (0, [], [], l_flag L2, c3)"
      "client_side SESSION_STATE_READY (sq + 2) tk (encode_frame ?y) (room - K - length (encode_frame ?x @ encode_frame ?y)) cap c3"
    using Update_taken [OF r2(3) _ _ xd(3) len(1) body(1), of SESSION_STATE_READY "encode_frame ?y"] by fastforce
  have c3r: "client_side SESSION_STATE_READY (sq + 2) tk (encode_frame ?y) (room - 3 * K) cap c3"
    by (rule client_side_room [OF c3(2)]) (use len(2) in linarith)
  obtain L3 where r3: "rounds cd dp p q r [a3, a4, a5] L2 = rounds cd dp p q r [a4, a5] L3" "l_flag L3 = False" "l_client L3 = c3"
        "servers K p q r STATE_OK ?t (sq + 1) [] L3"
    using round_quiet [OF r2(4) c3(1), of dp "[a4, a5]"] r2(2) by (fastforce simp: case_prod_unfold)
  obtain c4 where c4: "Update cd (a4\<lparr>ans_recv := arrived []\<rparr>) (l_flag L3) (l_client L3) = Done (0, [], [], l_flag L3, c4)"
      "client_side SESSION_STATE_DONE (sq + 2) tk [] (room - 3 * K) cap c4"
    using Update_taken [OF c3r _ _ yd(3) _ body(2), of SESSION_STATE_DONE "[]" "[]"] r3(3) by fastforce
  obtain L4 where r4: "rounds cd dp p q r [a4, a5] L3 = rounds cd dp p q r [a5] L4" "l_flag L4 = False" "l_client L4 = c4"
        "servers K p q r STATE_OK ?t (sq + 1) [] L4"
    using round_quiet [OF r3(4) c4(1), of dp "[a5]"] r3(2) by (fastforce simp: case_prod_unfold)
  have "Update cd (a5\<lparr>ans_recv := arrived []\<rparr>) (l_flag L4) (l_client L4) = Done (1, [OnHandShakeSucceed], [], True, c4)"
    using Update_success [OF c4(2)] r4(2,3) by simp
  from round_quiet [OF r4(4) this, of dp "[]"] obtain L5 where
      r5: "rounds cd dp p q r [a5] L4 = Done ([OnHandShakeSucceed], L5)" "l_flag L5" "l_client L5 = c4"
        "servers K p q r STATE_OK ?t (sq + 1) [] L5"
    by fastforce
  have "session_open K p q r ?t (sq + 2) tk (room - 3 * K) cap L5"
    using r5 c4(2) by (simp add: session_open_def add.commute)
  moreover have "rounds cd dp p q r [a1, a2, a3, a4, a5] L = Done ([OnHandShakeSucceed], L5)"
    by (simp only: r1(1) r2(1) r3(1) r4(1) r5(1))
  ultimately show ?thesis
    by blast
qed


section \<open>Data there and back\<close>

lemma demo_echoes: "demo_reply (up_data sq t d) = Some (up_data 0 t d)"
  by (simp add: demo_reply_def up_data_def ss_message_def ssmsg_data_def)

definition carries_echo :: "codec \<Rightarrow> (view \<Rightarrow> ssmsg option) \<Rightarrow> nat \<Rightarrow> ss_tuple \<Rightarrow> 64 word \<Rightarrow> byte list \<Rightarrow> bool" where
  "carries_echo cd dp K t sq d =
     (cs_carried cd K (data_message sq d) \<and> cs_carried cd K (data_message 0 d)
      \<and> ss_carried cd dp K (up_data sq t d) \<and> ss_carried cd dp K (up_data 0 t d))"

lemma session_echo_one:
  assumes opened: "session_open K p q r t sq tk room cap L" and carries: "carries_echo cd dp K t sq d" and wr: "codec_writes cd"
    and "d \<noteq> []" and "length d \<le> n" and "K \<le> cap" and "K \<le> room"
    and "ans_send a = IoOk (length (data_frame cd sq d))"
  shows "\<exists>L'. echo_call cd dp p q r n a d L = Done (Some d, L') \<and> session_open K p q r t (sq + 1) tk (room - K) cap L'"
proof -
  have f: "client_side SESSION_STATE_DONE sq tk [] room cap (l_client L)" "l_flag L"
      "conn_side K p q [] [] STATE_OK t (sq - 1) [] [] (l_conn L)" "demo_side K r [] (l_demo L)"
    using opened by (simp_all add: session_open_def servers_def)
  let ?m = "data_message sq d" and ?x = "up_data sq t d" and ?y = "up_data 0 t d" and ?z = "data_message 0 d"
  have m: "cs_carried cd K ?m" "cs_carried cd K ?z" "ss_carried cd dp K ?x" "ss_carried cd dp K ?y"
    using carries by (simp_all add: carries_echo_def)
  note md = cs_carriedD [OF m(1)] and zd = cs_carriedD [OF m(2)] and yd = ss_carriedD [OF m(4)]
  have wr2: "cs_ser cd u \<noteq> []" "ss_ser cd v \<noteq> []" for u v
    using wr by (simp_all add: codec_writes_def)
  obtain c1 where c1: "PushMessage cd a (Some d) (l_client L) = Done (0, c1, encode_frame (cs_ser cd ?m))"
      "client_side SESSION_STATE_DONE (sq + 1) tk [] room cap c1"
    using client_pushes [OF f(1) assms(4) refl md(2)] md(5) assms(6,8) by (fastforce simp: data_frame_def)
  have parts: "in_order (cs_parse cd (View (cs_ser cd ?m))) (sq - 1)" "cs_sequence (cs_parse cd (View (cs_ser cd ?m))) = sq"
      "cs_bodyid (cs_parse cd (View (cs_ser cd ?m))) = CS_DATA_TRANSPARENT" "csmsg_data (cs_parse cd (View (cs_ser cd ?m))) = d"
    unfolding md(1) by (simp_all add: in_order_def data_message_def cs_message_def csmsg_data_def)
  have step: "\<exists>w'. Connector_OnRecvFrontEnd cd p ty (View (cs_ser cd ?m)) w = Done (0, w')
      \<and> conn_side K p q (encode_frame (cs_ser cd ?m)) [] STATE_OK t sq [] (encode_frame (ss_ser cd ?x)) w'"
    if "conn_side K p q (encode_frame (cs_ser cd ?m)) [] STATE_OK t (sq - 1) [] [] w" for ty w
    using conn_hears_data [OF that parts(1,3) wr2(2), of ty] parts(2,4) by simp
  obtain w where w: "front_hears (connector_app cd False) p (encode_frame (cs_ser cd ?m)) (l_conn L) = Done w"
      "conn_side K p q [] [] STATE_OK t sq [] (encode_frame (ss_ser cd ?x)) w"
    using hears_client [OF f(3) m(1) step] by blast
  let ?L = "L\<lparr>l_client := c1, l_conn := w\<rparr>"
  have reply: "ss_bodyid (ss_parse cd (View (ss_ser cd ?y))) = SS_DATA" "ss_session (ss_parse cd (View (ss_ser cd ?y))) = t"
      "ssmsg_data (ss_parse cd (View (ss_ser cd ?y))) = d" "ss_sequence (ss_parse cd (View (ss_ser cd ?y))) = 0"
    unfolding yd(1) by (simp_all add: up_data_def ss_message_def ssmsg_data_def)
  have back_step: "\<exists>w'. Connector_OnRecvBackEnd cd False q ty (View (ss_ser cd ?y)) w = Done (0, w')
      \<and> conn_side K p q [] (encode_frame (ss_ser cd ?y)) STATE_OK t sq (encode_frame (cs_ser cd ?z)) [] w'"
    if "conn_side K p q [] (encode_frame (ss_ser cd ?y)) STATE_OK t sq [] [] w" for ty w
    using conn_hears_reply [OF that reply(1-3) assms(4), of ty] wr2(1) reply(4) by simp
  obtain w2 v where b: "backend_turn cd dp q r ?L = Done (?L\<lparr>l_conn := w2, l_demo := v\<rparr>)"
      "servers K p q r STATE_OK t sq (encode_frame (cs_ser cd ?z)) (?L\<lparr>l_conn := w2, l_demo := v\<rparr>)"
    using backend_answers [of K p q STATE_OK t sq "[]" cd ?x ?L r dp ?y, OF _ _ m(3) demo_echoes m(4) wr2(2) back_step] w(2) f(4)
    by auto
  let ?L2 = "?L\<lparr>l_conn := w2, l_demo := v\<rparr>"
  obtain c2 where c2: "Update cd (a\<lparr>ans_recv := arrived (encode_frame (cs_ser cd ?z))\<rparr>) (l_flag ?L2) (l_client ?L2)
        = Done (1, [OnIncoming], [], True, c2)"
      "client_side SESSION_STATE_DONE (sq + 1) tk (encode_frame (cs_ser cd ?z)) (room - (length (cs_ser cd ?z) + 4)) cap c2"
    using Update_incoming [OF c1(2) zd(3)] zd(4) assms(7) f(2) by fastforce
  obtain w3 where w3: "client_turn cd p a ?L2 = Done ([OnIncoming], ?L2\<lparr>l_client := c2, l_flag := True, l_conn := w3\<rparr>)"
      "conn_side K p q [] [] STATE_OK t sq [] [] w3"
    using client_turn_quiet [OF c2(1)] b(2) unfolding servers_def by blast
  have got: "cs_bodyid (cs_parse cd (View (cs_ser cd ?z))) = CS_DATA_TRANSPARENT" "csmsg_data (cs_parse cd (View (cs_ser cd ?z))) = d"
    unfolding zd(1) by (simp_all add: data_message_def cs_message_def csmsg_data_def)
  have "0 < n"
    using assms(4,5) by (cases d) auto
  then obtain c3 where c3: "PopMessageFromRecvQ cd a (Some n) c2 = Done (0, Some d, c3)"
      "client_side SESSION_STATE_DONE (sq + 1) tk [] (room - (length (cs_ser cd ?z) + 4)) cap c3"
    using client_pops [OF c2(2) zd(3) got(1), of n a] got(2) assms(5) by auto
  let ?L3 = "?L2\<lparr>l_client := c2, l_flag := True, l_conn := w3\<rparr>\<lparr>l_client := c3\<rparr>"
  have "echo_call cd dp p q r n a d L = Done (Some d, ?L3)"
    using c1(1) w(1) b(1) w3(1) c3(1) by (simp add: echo_call_def)
  moreover have "session_open K p q r t (sq + 1) tk (room - K) cap ?L3"
    using client_side_room [OF c3(2), of "room - K"] zd(4) w3(2) b(2) by (simp add: session_open_def servers_def)
  ultimately show ?thesis
    by blast
qed

fun echoes_fit :: "codec \<Rightarrow> (view \<Rightarrow> ssmsg option) \<Rightarrow> nat \<Rightarrow> ss_tuple \<Rightarrow> nat \<Rightarrow> 64 word \<Rightarrow> (net_answers \<times> byte list) list \<Rightarrow> bool" where
  "echoes_fit cd dp K t n sq [] = True"
| "echoes_fit cd dp K t n sq ((a, d) # xs) =
     (d \<noteq> [] \<and> length d \<le> n \<and> carries_echo cd dp K t sq d \<and> ans_send a = IoOk (length (data_frame cd sq d))
      \<and> echoes_fit cd dp K t n (sq + 1) xs)"

section \<open>Properties\<close>

text \<open>C12. A session opens. A client that is connecting, a connector that has accepted it and whose one
  backend, the demo, is up: each \<open>Update\<close> of the client gets the bytes the connector has written, the
  connector and the backend get what has been written for them. Then five rounds complete the handshake:
  the client reports success exactly once, in the fifth, and is ready to send data; the connector's
  session of exactly this connection is in \<open>STATE_OK\<close> with the backend's session id -1; and no byte is
  left on any connection. It needs a codec that gives back the eight messages of the handshake, buffers
  that hold them, and a kernel that takes the client's two frames whole.\<close>

theorem session_opens:
  assumes "session_fresh K p q r t sq tk room cap L" and "carries_handshake cd dp K t sq tk (l_client L)"
    and "K \<le> cap" and "3 * K \<le> room" and "ans_check a1 = 0"
    and "ans_send a1 = IoOk (length (encode_frame (cs_ser cd (syn_message (l_client L)))))"
    and "ans_send a2 = IoOk (length (encode_frame (cs_ser cd (token_message (sq + 1) tk))))"
  shows "\<exists>L'. rounds cd dp p q r [a1, a2, a3, a4, a5] L = Done ([OnHandShakeSucceed], L')
    \<and> session_open K p q r (t\<lparr>ss_sid := -1\<rparr>) (sq + 2) tk (room - 3 * K) cap L'"
  by (rule handshake_rounds [OF assms])

text \<open>A codec of bytes for these messages.\<close>

definition byte_body :: "int \<Rightarrow> byte list \<Rightarrow> csbody" where
  "byte_body k d =
     (if k = 1 then empty_csbody\<lparr>cs_syn := Some ([], [])\<rparr>
      else if k = 2 then empty_csbody\<lparr>cs_ack := Some ''test secret key''\<rparr>
      else if k = 3 then empty_csbody\<lparr>cs_auth := Some []\<rparr>
      else if k = 4 then empty_csbody\<lparr>cs_passport := Some 102030\<rparr>
      else if k = 5 then empty_csbody\<lparr>cs_start := Some 0\<rparr>
      else empty_csbody\<lparr>cs_data := Some d\<rparr>)"

definition link_tuple :: ss_tuple where
  "link_tuple = \<lparr>ss_fd = 7, ss_nid = 1, ss_sid = -1\<rparr>"

definition byte_ssmsg :: "view \<Rightarrow> ssmsg" where
  "byte_ssmsg v = (case v of
     View (k # s # d) \<Rightarrow> ss_message (ucast s) (uint k) link_tuple
       (if k = 1 then empty_ssbody\<lparr>ss_syn := Some 0\<rparr> else if k = 2 then empty_ssbody\<lparr>ss_ack := Some 0\<rparr>
        else empty_ssbody\<lparr>ss_data := Some d\<rparr>)
   | _ \<Rightarrow> ss_message 0 0 link_tuple empty_ssbody)"

definition link_codec :: codec where
  "link_codec =
     \<lparr>cs_parse = (\<lambda>v. case v of View (k # s # d) \<Rightarrow> cs_message (ucast s) (uint k) (byte_body (uint k) d) | _ \<Rightarrow> default_csmsg),
      cs_ser = (\<lambda>m. word_of_int (cs_bodyid m) # ucast (cs_sequence m) # csmsg_data m),
      ss_parse = byte_ssmsg,
      ss_ser = (\<lambda>m. word_of_int (ss_bodyid m) # ucast (ss_sequence m) # ssmsg_data m)\<rparr>"

abbreviation (input) link_dp :: "view \<Rightarrow> ssmsg option" where
  "link_dp \<equiv> (\<lambda>v. Some (byte_ssmsg v))"

definition link_start :: link where
  "link_start = \<lparr>
     l_client = client_new\<lparr>listener := True, session_state := SESSION_STATE_TCP_SYNING,
       tcp_sock := (fresh_socket client_parse 128 7 ''u'')\<lparr>sock_state := NET_CONNECTING\<rparr>\<rparr>,
     l_flag = False,
     l_conn = (conn_world [] STATE_INIT NET_ESTABLISHED)\<lparr>net_heap :=
       \<lparr>nets = [1 \<mapsto> sample_net [] (Some (ConnectorSession_new\<lparr>net_stub := Some 1, frame_stub := True\<rparr>)),
               2 \<mapsto> back_net NET_ESTABLISHED], next_net = 3, nid_seed = 3\<rparr>\<rparr>,
     l_demo = sample_world [] None \<lparr>demo_stub = True\<rparr>\<rparr>"

lemmas link_simps = link_codec_def byte_ssmsg_def byte_body_def link_tuple_def cs_message_def ss_message_def
  csmsg_data_def ssmsg_data_def empty_csbody_def empty_ssbody_def fits_client_frame_def fits_frame_def

lemma link_start_fresh: "session_fresh 32 1 2 1 link_tuple 1 [] 128 128 link_start"
proof -
  have "client_syning 1 [] 128 128 (l_client link_start)"
    by (simp add: link_start_def client_syning_def client_side_def fresh_socket_def Connect_def Init_def Malloc_def
        TcpSocketUtil_new_def RingBuffer_new_def client_new_def tu_ok_def ring_ok_def recvq_def sendq_def rb_data_def rb_free_def)
  moreover have "demo_side 32 1 [] (l_demo link_start)"
    by (simp add: link_start_def demo_side_def sample_world_def sample_net_def EasyNet_new_def sample_answers_def)
  moreover have "conn_at 32 1 2 (sample_net [] (Some (ConnectorSession_new\<lparr>net_stub := Some 1, frame_stub := True\<rparr>)))
      \<lparr>bev_fd = 7, bev_in = [], bev_out = []\<rparr> (ConnectorSession_new\<lparr>net_stub := Some 1, frame_stub := True\<rparr>)
      (back_net NET_ESTABLISHED) \<lparr>bev_fd = 9, bev_in = [], bev_out = []\<rparr> (l_conn link_start)"
    using conn_world_backs [of "[]" STATE_INIT NET_ESTABLISHED]
    by (simp add: link_start_def conn_at_def up_front_def conn_world_simps)
  then have "conn_side 32 1 2 [] [] STATE_INIT link_tuple 0 [] [] (l_conn link_start)"
    by (rule conn_sideI) (simp_all add: link_tuple_def front_tuple_def ConnectorSession_new_def sample_net_def EasyNet_new_def)
  ultimately show ?thesis
    by (simp add: session_fresh_def servers_def link_start_def)
qed

lemma link_carries: "carries_handshake link_codec link_dp 32 link_tuple 1 [] (l_client link_start)"
  by (simp add: carries_handshake_def codec_writes_def cs_carried_def ss_carried_def syn_message_def synack_reply_def
      token_message_def auth_reply_def start_reply_def start_request_def ack_of_def link_simps link_start_def client_new_def)

definition takes :: "nat \<Rightarrow> net_answers" where
  "takes k = client_answers\<lparr>ans_send := IoOk k\<rparr>"

theorem session_opens_witness:
  "\<exists>L'. rounds link_codec link_dp 1 2 1 [takes 6, takes 6, takes 0, takes 0, takes 0] link_start
       = Done ([OnHandShakeSucceed], L') \<and> session_open 32 1 2 1 link_tuple 3 [] 32 128 L'"
proof -
  have "link_tuple\<lparr>ss_sid := -1\<rparr> = link_tuple"
    by (simp add: link_tuple_def)
  with session_opens [OF link_start_fresh link_carries, of "takes 6" "takes 6" "takes 0" "takes 0" "takes 0"] show ?thesis
    by (simp add: takes_def client_answers_def encode_frame_length syn_message_def token_message_def link_simps
        link_start_def client_new_def)
qed


definition link_open :: link where
  "link_open = \<lparr>
     l_client = client_new\<lparr>listener := True, session_state := SESSION_STATE_DONE, seqno := 3,
       tcp_sock := fresh_socket client_parse 128 7 ''u''\<rparr>,
     l_flag = True,
     l_conn = (conn_world [] STATE_OK NET_ESTABLISHED)\<lparr>net_heap :=
       \<lparr>nets = [1 \<mapsto> sample_net [] (Some (ConnectorSession_new\<lparr>net_stub := Some 1, frame_stub := True, state := STATE_OK,
                        last_seq := 2\<rparr>)),
               2 \<mapsto> back_net NET_ESTABLISHED], next_net = 3, nid_seed = 3\<rparr>\<rparr>,
     l_demo = sample_world [] None \<lparr>demo_stub = True\<rparr>\<rparr>"

lemma link_open_open: "session_open 32 1 2 1 link_tuple 3 [] 128 128 link_open"
proof -
  have "client_side SESSION_STATE_DONE 3 [] [] 128 128 (l_client link_open)"
    by (simp add: link_open_def client_side_def fresh_socket_def Connect_def Init_def Malloc_def
        TcpSocketUtil_new_def RingBuffer_new_def client_new_def tu_ok_def ring_ok_def recvq_def sendq_def rb_data_def rb_free_def)
  moreover have "demo_side 32 1 [] (l_demo link_open)"
    by (simp add: link_open_def demo_side_def sample_world_def sample_net_def EasyNet_new_def sample_answers_def)
  moreover have "conn_at 32 1 2 (sample_net [] (Some (ConnectorSession_new\<lparr>net_stub := Some 1, frame_stub := True,
        state := STATE_OK, last_seq := 2\<rparr>)))
      \<lparr>bev_fd = 7, bev_in = [], bev_out = []\<rparr> (ConnectorSession_new\<lparr>net_stub := Some 1, frame_stub := True,
        state := STATE_OK, last_seq := 2\<rparr>)
      (back_net NET_ESTABLISHED) \<lparr>bev_fd = 9, bev_in = [], bev_out = []\<rparr> (l_conn link_open)"
    using conn_world_backs [of "[]" STATE_OK NET_ESTABLISHED]
    by (simp add: link_open_def conn_at_def up_front_def conn_world_simps)
  then have "conn_side 32 1 2 [] [] STATE_OK link_tuple 2 [] [] (l_conn link_open)"
    by (rule conn_sideI) (simp_all add: link_tuple_def front_tuple_def ConnectorSession_new_def sample_net_def EasyNet_new_def)
  ultimately show ?thesis
    by (simp add: session_open_def servers_def link_open_def)
qed


end
