(* ===== verification/ClientStream.thy ===== *)
theory ClientStream
  imports ClientPb
begin

text \<open>
  The other serializers of \<open>sdk/client.pb.cc\<close>, \<open>SerializeWithCachedSizes\<close>, which write to a
  \<open>CodedOutputStream\<close> instead of an array. The functions they call are only declared in the headers:
  they are a parameter (\<open>pb_out\<close>), with what the headers say of them as laws (locale
  \<open>coded_output\<close>): each writes what its counterpart for arrays writes.
\<close>

section \<open>The library\<close>

text \<open>
  \<open>WriteInt32\<close>, \<open>WriteInt64\<close>, \<open>WriteString\<close>, \<open>WriteBytes\<close>,
  \<open>SerializeUnknownFields\<close>, and \<open>WriteMessageMaybeToArray\<close>, which gets the message: here its
  cached size, what it writes to an array and what it does to a stream. It may use either.
\<close>

record 'o pb_out =
  out_int32 :: "32 word \<Rightarrow> 32 word \<Rightarrow> 'o \<Rightarrow> 'o"
  out_int64 :: "32 word \<Rightarrow> 64 word \<Rightarrow> 'o \<Rightarrow> 'o"
  out_string :: "32 word \<Rightarrow> byte list \<Rightarrow> 'o \<Rightarrow> 'o"
  out_bytes :: "32 word \<Rightarrow> byte list \<Rightarrow> 'o \<Rightarrow> 'o"
  out_message :: "32 word \<Rightarrow> int \<Rightarrow> byte list \<Rightarrow> ('o \<Rightarrow> 'o) \<Rightarrow> 'o \<Rightarrow> 'o"
  out_unknown :: "UnknownField list \<Rightarrow> 'o \<Rightarrow> 'o"

definition put_if :: "('a \<Rightarrow> 'o \<Rightarrow> 'o) \<Rightarrow> 'a option \<Rightarrow> 'o \<Rightarrow> 'o" where
  "put_if w x out = (case x of None \<Rightarrow> out | Some v \<Rightarrow> w v out)"

definition put_unknown :: "'o pb_out \<Rightarrow> UnknownField list \<Rightarrow> 'o \<Rightarrow> 'o" where
  "put_unknown W us out = (if us \<noteq> [] then out_unknown W us out else out)"

section \<open>The messages\<close>

definition CSHead_SerializeWithCachedSizes :: "'o pb_out \<Rightarrow> CSHead \<Rightarrow> 'o \<Rightarrow> 'o" where
  "CSHead_SerializeWithCachedSizes W m out =
     (let out1 = put_if (out_int32 W 1) (head_magic m) out;
          out2 = put_if (out_int64 W 2) (head_sequence m) out1;
          out3 = put_if (out_int32 W 3) (head_bodyid m) out2
      in put_unknown W (head_unknown m) out3)"

definition CSSyn_SerializeWithCachedSizes :: "'o pb_out \<Rightarrow> CSSyn \<Rightarrow> 'o \<Rightarrow> 'o" where
  "CSSyn_SerializeWithCachedSizes W m out =
     (let out1 = put_if (out_string W 1) (syn_appid m) out;
          out2 = put_if (out_string W 2) (syn_openid m) out1
      in put_unknown W (syn_unknown m) out2)"

definition CSSynAck_SerializeWithCachedSizes :: "'o pb_out \<Rightarrow> CSSynAck \<Rightarrow> 'o \<Rightarrow> 'o" where
  "CSSynAck_SerializeWithCachedSizes W m out =
     (let out1 = put_if (out_string W 1) (ack_secretkey m) out
      in put_unknown W (ack_unknown m) out1)"

definition CSAuth_SerializeWithCachedSizes :: "'o pb_out \<Rightarrow> CSAuth \<Rightarrow> 'o \<Rightarrow> 'o" where
  "CSAuth_SerializeWithCachedSizes W m out =
     (let out1 = put_if (out_string W 1) (auth_token m) out
      in put_unknown W (auth_unknown m) out1)"

definition CSPassport_SerializeWithCachedSizes :: "'o pb_out \<Rightarrow> CSPassport \<Rightarrow> 'o \<Rightarrow> 'o" where
  "CSPassport_SerializeWithCachedSizes W m out =
     (let out1 = put_if (out_int64 W 1) (pass_passport m) out
      in put_unknown W (pass_unknown m) out1)"

definition CSStart_SerializeWithCachedSizes :: "'o pb_out \<Rightarrow> CSStart \<Rightarrow> 'o \<Rightarrow> 'o" where
  "CSStart_SerializeWithCachedSizes W m out =
     (let out1 = put_if (out_int32 W 1) (start_code m) out
      in put_unknown W (start_unknown m) out1)"

definition CSError_SerializeWithCachedSizes :: "'o pb_out \<Rightarrow> CSError \<Rightarrow> 'o \<Rightarrow> 'o" where
  "CSError_SerializeWithCachedSizes W m out =
     (let out1 = put_if (out_int32 W 1) (err_code m) out;
          out2 = put_if (out_string W 2) (err_desc m) out1
      in put_unknown W (err_unknown m) out2)"

definition CSBody_SerializeWithCachedSizes :: "pb_lib \<Rightarrow> 'o pb_out \<Rightarrow> CSBody \<Rightarrow> 'o \<Rightarrow> 'o" where
  "CSBody_SerializeWithCachedSizes L W m out =
     (let out1 = put_if (\<lambda>v. out_message W 1 (CSSyn_ByteSize L v) (CSSyn_SerializeWithCachedSizesToArray L v)
                        (CSSyn_SerializeWithCachedSizes W v)) (body_syn m) out;
          out2 = put_if (\<lambda>v. out_message W 2 (CSSynAck_ByteSize L v) (CSSynAck_SerializeWithCachedSizesToArray L v)
                        (CSSynAck_SerializeWithCachedSizes W v)) (body_ack m) out1;
          out3 = put_if (\<lambda>v. out_message W 3 (CSAuth_ByteSize L v) (CSAuth_SerializeWithCachedSizesToArray L v)
                        (CSAuth_SerializeWithCachedSizes W v)) (body_auth m) out2;
          out4 = put_if (\<lambda>v. out_message W 4 (CSPassport_ByteSize L v) (CSPassport_SerializeWithCachedSizesToArray L v)
                        (CSPassport_SerializeWithCachedSizes W v)) (body_passport m) out3;
          out5 = put_if (\<lambda>v. out_message W 5 (CSStart_ByteSize L v) (CSStart_SerializeWithCachedSizesToArray L v)
                        (CSStart_SerializeWithCachedSizes W v)) (body_start m) out4;
          out6 = put_if (out_bytes W 16) (body_data m) out5;
          out7 = put_if (\<lambda>v. out_message W 100 (CSError_ByteSize L v) (CSError_SerializeWithCachedSizesToArray L v)
                        (CSError_SerializeWithCachedSizes W v)) (body_error m) out6
      in put_unknown W (body_unknown m) out7)"

definition CSMsg_SerializeWithCachedSizes :: "pb_lib \<Rightarrow> 'o pb_out \<Rightarrow> CSMsg \<Rightarrow> 'o \<Rightarrow> 'o" where
  "CSMsg_SerializeWithCachedSizes L W m out =
     (let out1 = put_if (\<lambda>v. out_message W 1 (CSHead_ByteSize L v) (CSHead_SerializeWithCachedSizesToArray L v)
                        (CSHead_SerializeWithCachedSizes W v)) (msg_head m) out;
          out2 = put_if (\<lambda>v. out_message W 2 (CSBody_ByteSize L v) (CSBody_SerializeWithCachedSizesToArray L v)
                        (CSBody_SerializeWithCachedSizes L W v)) (msg_body m) out1
      in put_unknown W (msg_unknown m) out2)"

section \<open>Both serializers write the same\<close>

locale coded_output =
  fixes L :: pb_lib and W :: "'o pb_out" and so_far :: "'o \<Rightarrow> byte list"
  assumes int32: "so_far (out_int32 W n v out) = so_far out @ WriteInt32ToArray L n v"
    and int64: "so_far (out_int64 W n x out) = so_far out @ WriteInt64ToArray L n x"
    and string: "so_far (out_string W n d out) = so_far out @ WriteStringToArray L n d"
    and bytes: "so_far (out_bytes W n d out) = so_far out @ WriteBytesToArray L n d"
    and message: "(\<And>out. so_far (f out) = so_far out @ d) \<Longrightarrow>
      so_far (out_message W n k d f out) = so_far out @ WriteMessageNoVirtualToArray L n k d"
    and unknown: "so_far (out_unknown W us out) = so_far out @ write_unknown L us"
begin

lemma put_if_writes:
  "(\<And>v out. so_far (w v out) = so_far out @ w' v) \<Longrightarrow> so_far (put_if w x out) = so_far out @ write_if w' x"
  by (cases x) (simp_all add: put_if_def)

lemma put_unknown_writes:
  "so_far (put_unknown W us out) = so_far out @ (if us \<noteq> [] then write_unknown L us else [])"
  by (simp add: put_unknown_def unknown)

lemmas puts = put_if_writes [where w = "out_int32 W n" and w' = "WriteInt32ToArray L n" for n, OF int32]
  put_if_writes [where w = "out_int64 W n" and w' = "WriteInt64ToArray L n" for n, OF int64]
  put_if_writes [where w = "out_string W n" and w' = "WriteStringToArray L n" for n, OF string]
  put_if_writes [where w = "out_bytes W n" and w' = "WriteBytesToArray L n" for n, OF bytes]
  put_unknown_writes

lemma put_message:
  assumes "\<And>v out. so_far (f v out) = so_far out @ d v"
  shows "so_far (put_if (\<lambda>v. out_message W n (k v) (d v) (f v)) x out)
    = so_far out @ write_if (\<lambda>v. WriteMessageNoVirtualToArray L n (k v) (d v)) x"
  by (rule put_if_writes) (rule message, rule assms)

lemma CSHead_same: "so_far (CSHead_SerializeWithCachedSizes W m out) = so_far out @ CSHead_SerializeWithCachedSizesToArray L m"
  by (simp add: CSHead_SerializeWithCachedSizes_def CSHead_SerializeWithCachedSizesToArray_def puts)

lemma CSSyn_same: "so_far (CSSyn_SerializeWithCachedSizes W m out) = so_far out @ CSSyn_SerializeWithCachedSizesToArray L m"
  by (simp add: CSSyn_SerializeWithCachedSizes_def CSSyn_SerializeWithCachedSizesToArray_def puts)

lemma CSSynAck_same: "so_far (CSSynAck_SerializeWithCachedSizes W m out) = so_far out @ CSSynAck_SerializeWithCachedSizesToArray L m"
  by (simp add: CSSynAck_SerializeWithCachedSizes_def CSSynAck_SerializeWithCachedSizesToArray_def puts)

lemma CSAuth_same: "so_far (CSAuth_SerializeWithCachedSizes W m out) = so_far out @ CSAuth_SerializeWithCachedSizesToArray L m"
  by (simp add: CSAuth_SerializeWithCachedSizes_def CSAuth_SerializeWithCachedSizesToArray_def puts)

lemma CSPassport_same: "so_far (CSPassport_SerializeWithCachedSizes W m out) = so_far out @ CSPassport_SerializeWithCachedSizesToArray L m"
  by (simp add: CSPassport_SerializeWithCachedSizes_def CSPassport_SerializeWithCachedSizesToArray_def puts)

lemma CSStart_same: "so_far (CSStart_SerializeWithCachedSizes W m out) = so_far out @ CSStart_SerializeWithCachedSizesToArray L m"
  by (simp add: CSStart_SerializeWithCachedSizes_def CSStart_SerializeWithCachedSizesToArray_def puts)

lemma CSError_same: "so_far (CSError_SerializeWithCachedSizes W m out) = so_far out @ CSError_SerializeWithCachedSizesToArray L m"
  by (simp add: CSError_SerializeWithCachedSizes_def CSError_SerializeWithCachedSizesToArray_def puts)

lemmas parts = CSHead_same CSSyn_same CSSynAck_same CSAuth_same CSPassport_same CSStart_same CSError_same

lemma CSBody_same: "so_far (CSBody_SerializeWithCachedSizes L W m out) = so_far out @ CSBody_SerializeWithCachedSizesToArray L m"
  by (simp add: CSBody_SerializeWithCachedSizes_def CSBody_SerializeWithCachedSizesToArray_def puts parts put_message)

lemma CSMsg_same: "so_far (CSMsg_SerializeWithCachedSizes L W m out) = so_far out @ CSMsg_SerializeWithCachedSizesToArray L m"
  by (simp add: CSMsg_SerializeWithCachedSizes_def CSMsg_SerializeWithCachedSizesToArray_def put_unknown_writes parts CSBody_same
      put_message)

end

text \<open>A stream that is the bytes written; \<open>direct\<close> is whether the buffer has room for the whole
  message.\<close>

definition reference_out :: "bool \<Rightarrow> byte list pb_out" where
  "reference_out direct =
     \<lparr>out_int32 = (\<lambda>n v out. out @ WriteInt32ToArray reference_lib n v),
      out_int64 = (\<lambda>n v out. out @ WriteInt64ToArray reference_lib n v),
      out_string = (\<lambda>n d out. out @ WriteStringToArray reference_lib n d),
      out_bytes = (\<lambda>n d out. out @ WriteBytesToArray reference_lib n d),
      out_message = (\<lambda>n k d f out.
        if direct then out @ WriteMessageNoVirtualToArray reference_lib n k d
        else f (out @ WriteTagToArray reference_lib n WIRETYPE_LENGTH_DELIMITED
                @ WriteVarint32ToArray reference_lib (word_of_int k))),
      out_unknown = (\<lambda>us out. out @ write_unknown reference_lib us)\<rparr>"

interpretation stream: coded_output reference_lib "reference_out direct" "\<lambda>out. out"
  by unfold_locales (simp_all add: reference_out_def WriteMessageNoVirtualToArray_def)

end
