(* ===== verification/Instances.thy ===== *)
theory Instances
  imports AppInit EchoApp
begin

text \<open>
  Processes of one program on one host: they start, are signalled, run their event loops and end, in
  any order, and share the file system with its locks. A process goes through \<open>Init\<close>
  (\<open>AppInit\<close>), \<open>OnInit\<close> and the event loop (\<open>EventLoop\<close>), as
  \<open>AppLauncher::Run\<close> in \<open>framework/rapidapp_core.cpp\<close> has it.
\<close>

section \<open>Who clears the running flag\<close>

text \<open>Only the stop handler writes \<open>running_\<close>, which is private; the contract says so of the
  callbacks, which the model gives the whole state.\<close>

locale running_app =
  fixes app :: "('c, 'a) rapid_app" and rpc :: "('c, 'a) rpc_hooks"
  assumes reload: "OnReload app w = Done w1 \<Longrightarrow> running w1 = running w"
    and update: "OnUpdate app w = Done w1 \<Longrightarrow> running w1 = running w"
    and ctrl: "OnRecvCtrl app args w = Done (r, w1) \<Longrightarrow> running w1 = running w"
    and connect: "OnFrontEndConnect app p t w = Done (r, w1) \<Longrightarrow> running w1 = running w"
    and closed: "OnFrontEndClose app p t w = Done (r, w1) \<Longrightarrow> running w1 = running w"
    and recv_front: "OnRecvFrontEnd app p t v w = Done (r, w1) \<Longrightarrow> running w1 = running w"
    and recv_back: "OnRecvBackEnd app p t v w = Done (r, w1) \<Longrightarrow> running w1 = running w"
    and timer: "OnTimer app p t w = Done w1 \<Longrightarrow> running w1 = running w"
    and rpc_front: "OnFrontEndRpcMsg rpc p v w = Done (r, w1) \<Longrightarrow> running w1 = running w"
    and rpc_back: "rpc_Resume rpc rp v w = Done w1 \<Longrightarrow> running w1 = running w"
begin

lemmas callbacks = reload update ctrl connect closed recv_front recv_back timer rpc_front rpc_back

end

lemma modify_net_running: "modify_net p f w = Done w1 \<Longrightarrow> running w1 = running w"
  by (auto simp: modify_net_def set_net_def bindE_eq_Done)

lemma set_net_running [simp]: "running (set_net p n w) = running w"
  by (simp add: set_net_def)

lemma draw_running: "draw_alloc w = (r, w1) \<Longrightarrow> running w1 = running w"
  "draw_pos w = (n, w1) \<Longrightarrow> running w1 = running w" "draw_write w = (i, w1) \<Longrightarrow> running w1 = running w"
  by (auto simp: draw_alloc_def draw_pos_def draw_write_def split: list.splits)

lemma draw_running_snd [simp]: "running (snd (draw_alloc w)) = running w" "running (snd (draw_pos w)) = running w"
  using draw_running surjective_pairing by metis+

lemma DestroyFrontEnd_running: "DestroyFrontEnd net w = Done w1 \<Longrightarrow> running w1 = running w"
  by (auto simp: DestroyFrontEnd_def bindE_eq_Done split: option.splits)

lemma net_Send_running: "net_Send p msg w = Done (r, w1) \<Longrightarrow> running w1 = running w"
  by (auto simp: net_Send_def bindE_eq_Done split: if_splits prod.splits dest!: draw_running)

lemma SendToFrontEnd_running: "SendToFrontEnd net buf w = Done (r, w1) \<Longrightarrow> running w1 = running w"
  by (auto simp: SendToFrontEnd_def bindE_eq_Done split: option.splits if_splits dest!: net_Send_running)

lemma walk_frontends_running: "walk_frontends w = Done w1 \<Longrightarrow> running w1 = running w"
  by (auto simp: walk_frontends_def bindE_eq_Done split: if_splits)

lemma RemoveFront_running: "RemoveFrontByEvent fd w = Done w1 \<Longrightarrow> running w1 = running w"
  by (auto simp: RemoveFrontByEvent_def bindE_eq_Done)

lemma BackSocket_running: "OnBackEndSocketEvent fd evs w = Done (r, w1) \<Longrightarrow> running w1 = running w"
  by (auto simp: OnBackEndSocketEvent_def bindE_eq_Done Let_def split: if_splits)

lemmas framework_running = modify_net_running draw_running DestroyFrontEnd_running walk_frontends_running
  RemoveFront_running

context running_app
begin

lemma front_loop_running: "front_loop app rpc p b e w = Done (r, n, w1) \<Longrightarrow> running w1 = running w"
proof (induction "length b" arbitrary: b e w rule: less_induct)
  case less
  show ?case
  proof (cases "b = [] \<or> server_len b = 0 \<or> length b < server_len b")
    case True
    with less.prems show ?thesis
      by (simp add: front_loop.simps)
  next
    case False
    then have shorter: "length (drop (server_len b) b) < length b"
      by (cases b) auto
    note rec = less.hyps [OF shorter]
    show ?thesis
      using less.prems False rec
      by (subst (asm) front_loop.simps)
        (auto simp: bindE_eq_Done split: if_splits dest!: rpc_front recv_front framework_running)
  qed
qed

lemma back_loop_running: "back_loop app rpc p b e w = Done (n, w1) \<Longrightarrow> running w1 = running w"
proof (induction "length b" arbitrary: b e w rule: less_induct)
  case less
  show ?case
  proof (cases "b = [] \<or> server_len b = 0 \<or> length b < server_len b")
    case True
    with less.prems show ?thesis
      by (simp add: back_loop.simps)
  next
    case False
    then have shorter: "length (drop (server_len b) b) < length b"
      by (cases b) auto
    note rec = less.hyps [OF shorter]
    show ?thesis
      using less.prems False rec
      by (subst (asm) back_loop.simps)
        (auto simp: bindE_eq_Done split: if_splits option.splits dest!: rpc_back recv_back framework_running)
  qed
qed

lemma connect_running: "fw_OnFrontEndConnect app sock addr w = Done (r, w1) \<Longrightarrow> running w1 = running w"
  by (auto simp: fw_OnFrontEndConnect_def bindE_eq_Done Let_def case_prod_beta
      split: option.splits if_splits dest!: connect framework_running)

lemma front_msg_running: "OnFrontEndMsg app rpc p w = Done (r, w1) \<Longrightarrow> running w1 = running w"
  by (auto simp: OnFrontEndMsg_def bindE_eq_Done Let_def split: option.splits if_splits
      dest!: front_loop_running framework_running)

lemma back_msg_running: "OnBackEndMsg app rpc p w = Done (r, w1) \<Longrightarrow> running w1 = running w"
  by (auto simp: OnBackEndMsg_def bindE_eq_Done Let_def split: option.splits if_splits
      dest!: back_loop_running framework_running)

lemma front_socket_running: "OnFrontEndSocketEvent app fd evs w = Done (r, w1) \<Longrightarrow> running w1 = running w"
  by (auto simp: OnFrontEndSocketEvent_def front_close_def bindE_eq_Done Let_def split: option.splits if_splits
      dest!: closed framework_running)

lemma ctrl_running: "OnCtrlMsg app delim input w = Done (r, w1) \<Longrightarrow> running w1 = running w"
  by (auto simp: OnCtrlMsg_def bindE_eq_Done Let_def split: if_splits dest!: ctrl)

lemma timer_loop_running: "timer_loop k app w = Some (Done w1) \<Longrightarrow> running w1 = running w"
  by (induction k arbitrary: w)
    (auto simp: bindE_eq_Done split: exec.splits option.splits dest!: timer)

lemma Tick_running:
  assumes "Tick k app now w = Some (Done (brk, w1))"
  shows "running w1 = running w" "brk = (\<not> running w)"
  using assms
  by (auto simp: Tick_def tick_prologue_def bindE_eq_Done Let_def split: exec.splits prod.splits if_splits
      dest!: reload update timer_loop_running framework_running)

lemma no_break_running:
  assumes "no_break r = Some (Done (brk, w1))" and "\<And>c w1. r = Done (c, w1) \<Longrightarrow> running w1 = running w"
  shows "running w1 = running w \<and> \<not> brk"
  using assms by (auto simp: no_break_def bindE_eq_Done)

lemma on_event_running:
  assumes "on_event k app rpc delim e w = Some (Done (brk, w1))" and "e \<noteq> EvStop"
  shows "running w1 = running w" "brk = (case e of EvTick t \<Rightarrow> \<not> running w | _ \<Rightarrow> False)"
proof -
  have "running w1 = running w \<and> brk = (case e of EvTick t \<Rightarrow> \<not> running w | _ \<Rightarrow> False)"
  proof (cases e)
    case (EvTick t)
    with assms Tick_running show ?thesis
      by (fastforce simp: on_event_def)
  next
    case (EvAccept sock addr)
    with assms show ?thesis
      using no_break_running [of "if sock < 0 then Done (-1, w) else fw_OnFrontEndConnect app sock addr w" brk w1 w]
      by (auto simp: on_event_def split: if_splits dest: connect_running)
  next
    case (EvFrontData p bs)
    with assms show ?thesis
      using no_break_running [of "bindE (modify_net p (bev_feed bs) w) (OnFrontEndMsg app rpc p)" brk w1 w]
      by (auto simp: on_event_def bindE_eq_Done dest!: front_msg_running modify_net_running)
  next
    case (EvBackData p bs)
    with assms show ?thesis
      using no_break_running [of "bindE (modify_net p (bev_feed bs) w) (OnBackEndMsg app rpc p)" brk w1 w]
      by (auto simp: on_event_def bindE_eq_Done dest!: back_msg_running modify_net_running)
  next
    case (EvFrontSocket p evs)
    with assms(1) show ?thesis
      by (auto simp: on_event_def no_break_def bindE_eq_Done split: option.splits dest!: front_socket_running)
  next
    case (EvBackSocket p evs)
    with assms(1) show ?thesis
      by (auto simp: on_event_def no_break_def bindE_eq_Done split: option.splits dest!: BackSocket_running)
  next
    case (EvCtrl input)
    with assms(1) show ?thesis
      by (auto simp: on_event_def no_break_def bindE_eq_Done dest!: ctrl_running)
  qed (use assms in \<open>auto simp: on_event_def\<close>)
  then show "running w1 = running w" "brk = (case e of EvTick t \<Rightarrow> \<not> running w | _ \<Rightarrow> False)"
    by simp_all
qed

end

interpretation echo_loop: running_app "echo_app z" no_rpc
  by unfold_locales
    (auto simp: echo_app_def no_rpc_def echo_OnRecvFrontEnd_def bindE_eq_Done
      split: if_splits view.splits prod.splits dest!: SendToFrontEnd_running draw_running)

section \<open>Processes on a host\<close>

text \<open>The program: the application with the object it is given, the sizes it asks for and the
  delimiters in memory.\<close>

record ('c, 'a) program =
  prog_app :: "('c, 'a) rapid_app"
  prog_rpc :: "('c, 'a) rpc_hooks"
  prog_state :: 'a
  prog_front_size :: "64 word"
  prog_back_size :: "64 word"
  prog_delim :: string

text \<open>Where a process is: before \<open>InitNormalMode\<close>, before \<open>OnInit\<close>, in the event
  loop.\<close>

datatype phase = InInit boot_answers boot_flags | InApp | InLoop

text \<open>\<open>proc_boot\<close> is what \<open>Init\<close> has left, \<open>proc_world\<close> the framework's state
  now.\<close>

record ('c, 'a) host_process =
  proc_boot :: "('c, 'a) boot"
  proc_world :: "('c, 'a) world"
  proc_phase :: phase

datatype proc_end = Exited int | Crashed crash | Killed

record ('c, 'a) host =
  host_fs :: file_sys
  procs :: "int \<rightharpoonup> ('c, 'a) host_process"
  exits :: "(int \<times> proc_end) list"

definition host_new :: "file_sys \<Rightarrow> ('c, 'a) host" where
  "host_new fs = \<lparr>host_fs = fs, procs = Map.empty, exits = []\<rparr>"

definition set_proc :: "int \<Rightarrow> ('c, 'a) host_process \<Rightarrow> ('c, 'a) host \<Rightarrow> ('c, 'a) host" where
  "set_proc p P h = h\<lparr>procs := (procs h)(p \<mapsto> P)\<rparr>"

definition end_process :: "int \<Rightarrow> proc_end \<Rightarrow> ('c, 'a) host \<Rightarrow> ('c, 'a) host" where
  "end_process p r h =
     h\<lparr>host_fs := process_exit p (host_fs h), procs := (procs h)(p := None), exits := exits h @ [(p, r)]\<rparr>"

text \<open>A signal arrives: the two handlers write the static flags; by default the process ends, except
  for \<open>SIGCHLD\<close>.\<close>

definition handle_signal :: "signal \<Rightarrow> ('c, 'a) host_process \<Rightarrow> ('c, 'a) host_process option" where
  "handle_signal s P =
     (case boot_sigs (proc_boot P) s of
        SIG_IGN \<Rightarrow> Some P
      | SIG_DFL \<Rightarrow> if s = SIGCHLD then Some P else None
      | signal_stop_handler \<Rightarrow> Some (P\<lparr>proc_world := (proc_world P)\<lparr>running := False\<rparr>\<rparr>)
      | signal_reload_handler \<Rightarrow> Some (P\<lparr>proc_world := (proc_world P)\<lparr>reloading := True\<rparr>\<rparr>))"

definition send_signal :: "int \<times> signal \<Rightarrow> ('c, 'a) host \<Rightarrow> ('c, 'a) host" where
  "send_signal ps h =
     (case procs h (fst ps) of
        None \<Rightarrow> h
      | Some P \<Rightarrow>
          (case handle_signal (snd ps) P of
             None \<Rightarrow> end_process (fst ps) Killed h
           | Some P1 \<Rightarrow> set_proc (fst ps) P1 h))"

text \<open>What can happen. A launch is the part of \<open>Init\<close> that looks at the flags and signals the
  running instance; the rest of \<open>Init\<close>, \<open>OnInit\<close> and each event are steps of their own,
  so that other processes can come in between. \<open>own_pid\<close> is the pid the process will have after
  the forks of \<open>MakeDaemon\<close>.\<close>

datatype host_act =
    Launch boot_answers boot_flags string answers
  | FinishInit int
  | EnterLoop int
  | LoopEvent int loop_event
  | Signal int signal
  | Kill int

definition do_launch ::
    "('c, 'a) program \<Rightarrow> boot_answers \<Rightarrow> boot_flags \<Rightarrow> string \<Rightarrow> answers \<Rightarrow> ('c, 'a) host \<Rightarrow> ('c, 'a) host" where
  "do_launch prog a fl argv0 e h =
     (case Init_command a fl argv0 (boot_new e (prog_state prog) (host_fs h)) of
        (res, b) \<Rightarrow>
          let h1 = set_proc (own_pid a) \<lparr>proc_boot = b, proc_world = boot_world b, proc_phase = InInit a fl\<rparr>
                     (h\<lparr>host_fs := boot_fs b\<rparr>);
              h2 = fold send_signal (boot_signals b) h1
          in case res of
               None \<Rightarrow> h2
             | Some (BootExit code) \<Rightarrow> end_process (own_pid a) (Exited code) h2
             | Some (BootRet ret) \<Rightarrow> end_process (own_pid a) (Exited (-1)) h2)"

definition do_finish_init ::
    "('c, 'a) program \<Rightarrow> int \<Rightarrow> ('c, 'a) host_process \<Rightarrow> boot_answers \<Rightarrow> boot_flags \<Rightarrow> ('c, 'a) host \<Rightarrow> ('c, 'a) host" where
  "do_finish_init prog p P a fl h =
     (case InitNormalMode a fl (prog_front_size prog) (prog_back_size prog)
             ((proc_boot P)\<lparr>boot_fs := host_fs h\<rparr>) of
        (res, b) \<Rightarrow>
          let h1 = h\<lparr>host_fs := boot_fs b\<rparr> in
          case res of
            BootExit code \<Rightarrow> end_process p (Exited code) h1
          | BootRet ret \<Rightarrow>
              if ret \<noteq> 0 then end_process p (Exited (-1)) h1
              else set_proc p \<lparr>proc_boot = b, proc_world = boot_world b, proc_phase = InApp\<rparr> h1)"

text \<open>The rest of \<open>AppLauncher::Run\<close>, in pieces: \<open>OnInit\<close> and the start of
  \<open>MainLoop\<close>; one event; after the loop \<open>OnFini\<close> and \<open>CleanUp\<close>.\<close>

definition do_enter_loop :: "('c, 'a) program \<Rightarrow> int \<Rightarrow> ('c, 'a) host_process \<Rightarrow> ('c, 'a) host \<Rightarrow> ('c, 'a) host" where
  "do_enter_loop prog p P h =
     (case OnInit (prog_app prog) (proc_world P) of
        Crash c \<Rightarrow> end_process p (Crashed c) h
      | Done (ret, w) \<Rightarrow>
          if ret \<noteq> 0 then end_process p (Exited (-1)) h
          else set_proc p (P\<lparr>proc_world := w\<lparr>running := True\<rparr>, proc_phase := InLoop\<rparr>) h)"

definition leave_loop :: "('c, 'a) program \<Rightarrow> ('c, 'a) world \<Rightarrow> proc_end" where
  "leave_loop prog w =
     (case bindE (OnFini (prog_app prog) w) (\<lambda>(r, w1). fw_CleanUp w1) of
        Crash c \<Rightarrow> Crashed c
      | Done w2 \<Rightarrow> Exited 0)"

definition do_event ::
    "nat \<Rightarrow> ('c, 'a) program \<Rightarrow> int \<Rightarrow> ('c, 'a) host_process \<Rightarrow> loop_event \<Rightarrow> ('c, 'a) host \<Rightarrow> ('c, 'a) host option" where
  "do_event k prog p P e h =
     (case on_event k (prog_app prog) (prog_rpc prog) (prog_delim prog) e (proc_world P) of
        None \<Rightarrow> None
      | Some (Crash c) \<Rightarrow> Some (end_process p (Crashed c) h)
      | Some (Done (brk, w)) \<Rightarrow>
          Some (if brk then end_process p (leave_loop prog w) h else set_proc p (P\<lparr>proc_world := w\<rparr>) h))"

text \<open>One action; \<open>None\<close> when it cannot happen in this state, or is a tick that does not come
  back.\<close>

definition host_do :: "nat \<Rightarrow> ('c, 'a) program \<Rightarrow> host_act \<Rightarrow> ('c, 'a) host \<Rightarrow> ('c, 'a) host option" where
  "host_do k prog act h =
     (case act of
        Launch a fl argv0 e \<Rightarrow>
          if own_pid a \<in> dom (procs h) \<or> \<not> (0 < own_pid a \<and> own_pid a < 2147483648) then None
          else Some (do_launch prog a fl argv0 e h)
      | FinishInit p \<Rightarrow>
          (case procs h p of None \<Rightarrow> None
           | Some P \<Rightarrow>
               (case proc_phase P of InInit a fl \<Rightarrow> Some (do_finish_init prog p P a fl h) | _ \<Rightarrow> None))
      | EnterLoop p \<Rightarrow>
          (case procs h p of None \<Rightarrow> None
           | Some P \<Rightarrow> if proc_phase P = InApp then Some (do_enter_loop prog p P h) else None)
      | LoopEvent p e \<Rightarrow>
          (case procs h p of None \<Rightarrow> None
           | Some P \<Rightarrow>
               if proc_phase P = InLoop \<and> e \<noteq> EvStop \<and> e \<noteq> EvReload then do_event k prog p P e h else None)
      | Signal p s \<Rightarrow> Some (send_signal (p, s) h)
      | Kill p \<Rightarrow> Some (if p \<in> dom (procs h) then end_process p Killed h else h))"

fun host_run :: "nat \<Rightarrow> ('c, 'a) program \<Rightarrow> host_act list \<Rightarrow> ('c, 'a) host \<Rightarrow> ('c, 'a) host option" where
  "host_run k prog [] h = Some h"
| "host_run k prog (act # acts) h = Option.bind (host_do k prog act h) (host_run k prog acts)"

section \<open>What Init does to the files\<close>

text \<open>A process \<open>p\<close> with pid file \<open>f\<close> and control socket file \<open>g\<close> leaves
  every other pid file that is held, and locks only its own.\<close>

definition writes :: "int \<Rightarrow> string \<Rightarrow> string \<Rightarrow> file_sys \<Rightarrow> file_sys \<Rightarrow> bool" where
  "writes p f g fs fs1 =
     ((\<forall>q x. q \<noteq> p \<and> x \<noteq> g \<and> held_by q x fs \<longrightarrow> held_by q x fs1)
      \<and> (\<forall>q x. fs_lock fs1 x = Some q \<longrightarrow> fs_lock fs x = Some q \<or> q = p \<and> x = f))"

lemma writes_refl [simp]: "writes p f g fs fs"
  by (simp add: writes_def)

lemma writes_trans: "writes p f g fs fs1 \<Longrightarrow> writes p f g fs1 fs2 \<Longrightarrow> writes p f g fs fs2"
  unfolding writes_def by blast

lemma SetPidFile_writes: "SetPidFile a s fs = (r, fs1) \<Longrightarrow> writes (own_pid a) (pid_file_name s) g fs fs1"
  by (auto simp: SetPidFile_def writes_def held_by_def locked_by_other_def Let_def split: if_splits option.splits)

lemma GetRunningPid_writes: "GetRunningPid a s fs = (r, fs1) \<Longrightarrow> writes (own_pid a) f g fs fs1"
  by (auto simp: GetRunningPid_def writes_def held_by_def drop_lock_def Let_def split: if_splits option.splits)

lemma SetCtrlSockFile_writes: "SetCtrlSockFile a s fs = (r, fs1) \<Longrightarrow> writes p f (ctrl_sock_file_name s) fs fs1"
  by (auto simp: SetCtrlSockFile_def writes_def held_by_def Let_def split: if_splits)

lemma SetCtrlSockFile_held:
  "SetCtrlSockFile a s fs = (r, fs1) \<Longrightarrow> held_by q x fs \<Longrightarrow> x \<noteq> ctrl_sock_file_name s \<Longrightarrow> held_by q x fs1"
  by (auto simp: SetCtrlSockFile_def held_by_def Let_def split: if_splits)

lemma exit_held: "held_by q x fs \<Longrightarrow> q \<noteq> p \<Longrightarrow> held_by q x (process_exit p fs)"
  by (simp add: held_by_def process_exit_def)

lemma exit_lock: "fs_lock (process_exit p fs) x = Some q \<longleftrightarrow> q \<noteq> p \<and> fs_lock fs x = Some q"
  by (auto simp: process_exit_def)

text \<open>What every step of \<open>InitNormalMode\<close> keeps.\<close>

definition boot_keeps :: "boot_answers \<Rightarrow> ('c, 'a) boot \<Rightarrow> ('c, 'a) boot \<Rightarrow> bool" where
  "boot_keeps a b b1 =
     (boot_setting b1 = boot_setting b
      \<and> writes (own_pid a) (pid_file_name (boot_setting b)) (ctrl_sock_file_name (boot_setting b)) (boot_fs b) (boot_fs b1)
      \<and> (world_ok (boot_world b) \<longrightarrow> world_ok (boot_world b1)))"

lemma boot_keeps_refl [simp]: "boot_keeps a b b"
  by (simp add: boot_keeps_def)

lemma boot_keeps_trans: "boot_keeps a b b1 \<Longrightarrow> boot_keeps a b1 b2 \<Longrightarrow> boot_keeps a b b2"
  using writes_trans unfolding boot_keeps_def by metis

lemma boot_steps_inv:
  "\<forall>f \<in> set fs. \<forall>b. I b \<longrightarrow> I (snd (f b)) \<Longrightarrow> I b \<Longrightarrow> I (snd (boot_steps fs b))"
  by (induction fs arbitrary: b) (auto simp: case_prod_beta)

lemma boot_steps_append:
  "boot_steps (fs @ gs) b = (0, b2) \<longleftrightarrow> (\<exists>b1. boot_steps fs b = (0, b1) \<and> boot_steps gs b1 = (0, b2))"
  by (induction fs arbitrary: b) (auto split: prod.splits)

lemma pool_start: "mgr_inv F h m \<Longrightarrow> mgr_inv F h (m\<lparr>recv_size := n, it_cursor := pool_begin (handler_pool m)\<rparr>)"
  by (auto simp: mgr_inv_def pool_ok_def pool_ptrs_def pool_begin_def split: list.splits)

lemma fresh_pools: "world_ok (AppFrameWork_new e app)"
  using mgr_inv_empty
  by (simp add: world_ok_def AppFrameWork_new_def TimerMgr_new_def pool_ptrs_def NetHandlerMgr_new_def)

lemma world_ok_boot [simp]:
  "world_ok (w\<lparr>setting := s\<rparr>) = world_ok w" "world_ok (w\<lparr>cfg_string := c\<rparr>) = world_ok w"
  "world_ok (w\<lparr>ctrl_dispatcher := d\<rparr>) = world_ok w" "world_ok (w\<lparr>svc_mode := m\<rparr>) = world_ok w"
  by (simp_all add: world_ok_def)

lemma step_keeps:
  "boot_keeps a b (snd (step_conf a fl b))" "boot_keeps a b (snd (step_pid a b))" "boot_keeps a b (snd (step_signal b))"
  "boot_keeps a b (snd (step_limit a b))" "boot_keeps a b (snd (step_evbase a b))" "boot_keeps a b (snd (step_fps a b))"
  "boot_keeps a b (snd (step_ctrl a b))" "boot_keeps a b (snd (step_listen a b))"
  "boot_keeps a b (snd (step_front a n b))" "boot_keeps a b (snd (step_back a n b))"
  "boot_keeps a b (snd (step_timers b))" "boot_keeps a b (snd (step_rpc a fl b))" "boot_keeps a b (snd (step_now a b))"
  using pool_start
  by (auto simp: boot_keeps_def boot_setting_def step_conf_def step_pid_def step_signal_def step_limit_def step_evbase_def
      step_fps_def step_ctrl_def step_listen_def step_front_def step_back_def step_timers_def step_rpc_def step_now_def
      InitListenerServiceMode_def NetHandlerMgr_Init_def TimerMgr_Init_def world_ok_def pool_ptrs_def Let_def
      split: prod.splits if_splits option.splits intro: SetPidFile_writes SetCtrlSockFile_writes)

lemma InitNormalMode_keeps:
  assumes "InitNormalMode a fl fmax bmax b = (r, b1)"
  shows "boot_keeps a b b1"
proof (cases "if FLAGS_daemon fl then MakeDaemon a else None")
  case None
  let ?fs = "[step_conf a fl, step_pid a, step_signal, step_limit a, step_evbase a, step_fps a, step_ctrl a,
      step_listen a, step_front a fmax, step_back a bmax, step_timers, step_rpc a fl, step_now a]"
  have "\<forall>f \<in> set ?fs. \<forall>b1. boot_keeps a b b1 \<longrightarrow> boot_keeps a b (snd (f b1))"
    unfolding list.set ball_simps by (intro conjI allI impI TrueI; erule boot_keeps_trans; rule step_keeps)
  from boot_steps_inv [OF this] have "boot_keeps a b (snd (boot_steps ?fs b))"
    by simp
  with None assms show ?thesis
    by (auto simp: InitNormalMode_def split: prod.splits)
qed (use assms in \<open>simp add: InitNormalMode_def\<close>)

definition holding :: "int \<Rightarrow> (signal \<Rightarrow> sig_action) \<Rightarrow> AppSetting \<Rightarrow> ('c, 'a) boot \<Rightarrow> bool" where
  "holding p sigs s b = (boot_setting b = s \<and> boot_sigs b = sigs \<and> held_by p (pid_file_name s) (boot_fs b))"

lemma holding_same:
  "boot_setting c = boot_setting b \<Longrightarrow> boot_sigs c = boot_sigs b \<Longrightarrow> boot_fs c = boot_fs b \<Longrightarrow>
   holding p sigs s b \<Longrightarrow> holding p sigs s c"
  by (simp add: holding_def)

lemma listener_mode: "\<exists>m. snd (InitListenerServiceMode ok w) = w\<lparr>svc_mode := m\<rparr>"
proof -
  have "snd (InitListenerServiceMode ok w) \<in> {w, w\<lparr>svc_mode := SVC_MODE_RPC\<rparr>}"
    unfolding InitListenerServiceMode_def Let_def
    by (cases "strchr (listen_uri (setting w)) CHR ''?''") simp_all
  moreover have "w = w\<lparr>svc_mode := svc_mode w\<rparr>"
    by simp
  ultimately show ?thesis
    by (metis insertE singletonD)
qed

lemma late_steps_hold:
  assumes "holding p sigs s b" and "ctrl_sock_file_name s \<noteq> pid_file_name s"
  shows "holding p sigs s (snd (step_limit a b))" "holding p sigs s (snd (step_evbase a b))"
    "holding p sigs s (snd (step_fps a b))" "holding p sigs s (snd (step_ctrl a b))"
    "holding p sigs s (snd (step_listen a b))" "holding p sigs s (snd (step_front a n b))"
    "holding p sigs s (snd (step_back a n b))" "holding p sigs s (snd (step_timers b))"
    "holding p sigs s (snd (step_rpc a fl b))" "holding p sigs s (snd (step_now a b))"
proof -
  show "holding p sigs s (snd (step_ctrl a b))"
    using assms SetCtrlSockFile_held
    by (auto simp: holding_def step_ctrl_def boot_setting_def Let_def split: prod.splits)
  obtain m where "snd (InitListenerServiceMode (listen_new a) (boot_world b)) = (boot_world b)\<lparr>svc_mode := m\<rparr>"
    using listener_mode by blast
  with assms(1) show "holding p sigs s (snd (step_listen a b))"
    by (simp add: holding_def step_listen_def boot_setting_def case_prod_beta)
qed (insert assms(1), auto simp: holding_def step_limit_def step_evbase_def step_fps_def step_front_def step_back_def
    step_timers_def step_rpc_def step_now_def boot_setting_def case_prod_beta)

lemma InitNormalMode_holds:
  assumes "InitNormalMode a fl fmax bmax b = (BootRet 0, b1)"
    and other: "ctrl_sock_file_name (boot_setting b) \<noteq> pid_file_name (boot_setting b)"
  shows "holding (own_pid a) (InitSignalHandle (boot_sigs b)) (boot_setting b) b1"
proof -
  let ?I = "holding (own_pid a) (InitSignalHandle (boot_sigs b)) (boot_setting b)"
  let ?rest = "[step_limit a, step_evbase a, step_fps a, step_ctrl a, step_listen a, step_front a fmax,
      step_back a bmax, step_timers, step_rpc a fl, step_now a]"
  have "boot_steps ([step_conf a fl, step_pid a, step_signal] @ ?rest) b = (0, b1)"
    using assms(1) unfolding append.simps
    by (auto simp: InitNormalMode_def simp del: boot_steps.simps split: option.splits prod.splits)
  then obtain b2 where b2: "boot_steps [step_conf a fl, step_pid a, step_signal] b = (0, b2)" "boot_steps ?rest b2 = (0, b1)"
    unfolding boot_steps_append by blast
  obtain c1 c2 where c: "step_conf a fl b = (0, c1)" "step_pid a c1 = (0, c2)" "step_signal c2 = (0, b2)"
    using b2(1) by (auto split: prod.splits if_splits)
  have "boot_setting c1 = boot_setting b" "boot_sigs c1 = boot_sigs b"
    using c(1) by (auto simp: step_conf_def boot_setting_def split: prod.splits)
  moreover have "boot_setting c2 = boot_setting c1" "boot_sigs c2 = boot_sigs c1"
      "held_by (own_pid a) (pid_file_name (boot_setting c1)) (boot_fs c2)"
    using c(2) SetPidFile_held by (auto simp: step_pid_def boot_setting_def split: prod.splits)
  ultimately have held: "?I b2"
    using c(3) by (auto simp: holding_def step_signal_def boot_setting_def)
  have "\<forall>f \<in> set ?rest. \<forall>c. ?I c \<longrightarrow> ?I (snd (f c))"
    unfolding list.set ball_simps by (intro conjI allI impI TrueI; rule late_steps_hold [OF _ other])
  from boot_steps_inv [of ?rest ?I, OF this held] have "?I (snd (boot_steps ?rest b2))" .
  with b2(2) show ?thesis
    by simp
qed

lemma Init_command_keeps:
  assumes "Init_command a fl argv0 b = (res, b1)"
  shows "writes (own_pid a) f g (boot_fs b) (boot_fs b1)" "boot_sigs b1 = boot_sigs b"
    "boot_setting b1 = snd (ParseCmdLine (flags.truncate fl) argv0 (boot_setting b))"
    "world_ok (boot_world b) \<Longrightarrow> world_ok (boot_world b1)"
    "res = None \<Longrightarrow> fst (ParseCmdLine (flags.truncate fl) argv0 (boot_setting b)) = 0"
  using assms
  by (auto simp: Init_command_def boot_setting_def Let_def split: prod.splits if_splits intro: GetRunningPid_writes)

section \<open>Pid files and processes\<close>

definition pid_file :: "('c, 'a) host_process \<Rightarrow> string" where
  "pid_file P = pid_file_name (boot_setting (proc_boot P))"

definition ctrl_file :: "('c, 'a) host_process \<Rightarrow> string" where
  "ctrl_file P = ctrl_sock_file_name (boot_setting (proc_boot P))"

definition initialised :: "('c, 'a) host_process \<Rightarrow> bool" where
  "initialised P = (case proc_phase P of InInit a fl \<Rightarrow> False | _ \<Rightarrow> True)"

text \<open>\<open>N\<close> are the names of pid files; no control socket file has such a name.\<close>

definition proc_ok :: "string set \<Rightarrow> file_sys \<Rightarrow> int \<Rightarrow> ('c, 'a) host_process \<Rightarrow> bool" where
  "proc_ok N fs p P =
     (0 < p \<and> p < 2147483648 \<and> pid_file P \<in> N \<and> ctrl_file P \<notin> N
      \<and> (case proc_phase P of
           InInit a fl \<Rightarrow> own_pid a = p \<and> boot_sigs (proc_boot P) = (\<lambda>_. SIG_DFL)
         | _ \<Rightarrow> held_by p (pid_file P) fs \<and> boot_sigs (proc_boot P) = InitSignalHandle (\<lambda>_. SIG_DFL)))"

text \<open>All processes but \<open>p\<close> are in order; every process is, and every lock is that of an
  initialised process on its pid file.\<close>

definition others_ok :: "string set \<Rightarrow> int \<Rightarrow> ('c, 'a) host \<Rightarrow> bool" where
  "others_ok N p h =
     ((\<forall>q Q. q \<noteq> p \<and> procs h q = Some Q \<longrightarrow> proc_ok N (host_fs h) q Q)
      \<and> (\<forall>f q. q \<noteq> p \<and> fs_lock (host_fs h) f = Some q \<longrightarrow>
            (\<exists>Q. procs h q = Some Q \<and> initialised Q \<and> pid_file Q = f)))"

definition host_ok :: "string set \<Rightarrow> ('c, 'a) host \<Rightarrow> bool" where
  "host_ok N h =
     ((\<forall>q Q. procs h q = Some Q \<longrightarrow> proc_ok N (host_fs h) q Q)
      \<and> (\<forall>f q. fs_lock (host_fs h) f = Some q \<longrightarrow>
            (\<exists>Q. procs h q = Some Q \<and> initialised Q \<and> pid_file Q = f)))"

lemma host_okD:
  assumes "host_ok N h"
  shows "procs h p = Some P \<Longrightarrow> proc_ok N (host_fs h) p P"
    and "fs_lock (host_fs h) f = Some p \<Longrightarrow> \<exists>P. procs h p = Some P \<and> initialised P \<and> pid_file P = f"
  using assms by (simp_all add: host_ok_def)

lemma others_ok_of: "host_ok N h \<Longrightarrow> others_ok N p h"
  by (simp add: host_ok_def others_ok_def)

lemma proc_ok_exit: "proc_ok N fs q Q \<Longrightarrow> q \<noteq> p \<Longrightarrow> proc_ok N (process_exit p fs) q Q"
  by (auto simp: proc_ok_def exit_held split: phase.splits)

lemma end_process_ok: "others_ok N p h \<Longrightarrow> host_ok N (end_process p r h)"
  by (auto simp: others_ok_def host_ok_def end_process_def exit_lock intro: proc_ok_exit)

lemma end_ok: "host_ok N h \<Longrightarrow> host_ok N (end_process p r h)"
  by (rule end_process_ok [OF others_ok_of])

lemma set_proc_ok:
  assumes "others_ok N p h" and "proc_ok N (host_fs h) p P"
    and "\<And>f. fs_lock (host_fs h) f = Some p \<Longrightarrow> initialised P \<and> pid_file P = f"
  shows "host_ok N (set_proc p P h)"
  using assms by (auto simp: others_ok_def host_ok_def set_proc_def)

lemma change_files:
  assumes "host_ok N h" and "writes p f g (host_fs h) fs1" and "g \<notin> N"
  shows "others_ok N p (h\<lparr>host_fs := fs1\<rparr>)"
proof -
  have "proc_ok N fs1 q Q" if "q \<noteq> p" "procs h q = Some Q" for q Q
    using host_okD(1) [OF assms(1) that(2)] assms(2,3) that(1)
    by (auto simp: proc_ok_def writes_def split: phase.splits)
  moreover have "\<exists>Q. procs h q = Some Q \<and> initialised Q \<and> pid_file Q = x" if "q \<noteq> p" "fs_lock fs1 x = Some q" for x q
    using host_okD(2) [OF assms(1), of x q] assms(2) that unfolding writes_def by blast
  ultimately show ?thesis
    by (simp add: others_ok_def)
qed

text \<open>A process that only changes its state.\<close>

lemma same_process_ok:
  assumes "host_ok N h" and "procs h p = Some P" and "initialised P" and "initialised P1"
    and "proc_boot P1 = proc_boot P"
  shows "host_ok N (set_proc p P1 h)"
proof (rule set_proc_ok [OF others_ok_of [OF assms(1)]])
  show "proc_ok N (host_fs h) p P1"
    using host_okD(1) [OF assms(1,2)] assms(3-5)
    by (auto simp: proc_ok_def initialised_def pid_file_def ctrl_file_def split: phase.splits)
  show "initialised P1 \<and> pid_file P1 = f" if "fs_lock (host_fs h) f = Some p" for f
    using host_okD(2) [OF assms(1) that] assms(2,4,5) by (simp add: pid_file_def)
qed

lemma handle_signal_same:
  "handle_signal s P = Some P1 \<Longrightarrow> proc_boot P1 = proc_boot P \<and> proc_phase P1 = proc_phase P"
  by (auto simp: handle_signal_def split: sig_action.splits if_splits)

lemma send_signal_ok:
  assumes "host_ok N h"
  shows "host_ok N (send_signal ps h)"
proof (cases "procs h (fst ps)")
  case None
  with assms show ?thesis by (simp add: send_signal_def)
next
  case (Some P)
  show ?thesis
  proof (cases "handle_signal (snd ps) P")
    case None
    with Some end_ok [OF assms] show ?thesis
      by (simp add: send_signal_def)
  next
    case (Some P1)
    note same = handle_signal_same [OF Some]
    show ?thesis
    proof (cases "initialised P")
      case True
      with same_process_ok [OF assms \<open>procs h (fst ps) = Some P\<close> True, of P1] same Some \<open>procs h (fst ps) = Some P\<close>
      show ?thesis
        by (simp add: send_signal_def initialised_def)
    next
      case False
      with host_okD(1) [OF assms \<open>procs h (fst ps) = Some P\<close>] Some have "P1 = P"
        by (auto simp: proc_ok_def initialised_def handle_signal_def split: phase.splits if_splits)
      with assms Some \<open>procs h (fst ps) = Some P\<close> show ?thesis
        by (simp add: send_signal_def set_proc_def fun_upd_idem)
    qed
  qed
qed

lemma send_signals_ok: "host_ok N h \<Longrightarrow> host_ok N (fold send_signal sigs h)"
  by (induction sigs arbitrary: h) (simp_all add: send_signal_ok)

lemma Init_command_ok:
  assumes ok: "host_ok N h" and new: "own_pid a \<notin> dom (procs h)"
    and init: "Init_command a fl argv0 (boot_new e st (host_fs h)) = (res, b)"
  shows "others_ok N (own_pid a) (h\<lparr>host_fs := boot_fs b\<rparr>)" "fs_lock (boot_fs b) x \<noteq> Some (own_pid a)"
proof -
  have w: "writes (own_pid a) f g (host_fs h) (boot_fs b)" for f g
    using Init_command_keeps(1) [OF init] by (simp add: boot_new_def)
  have no: "fs_lock (host_fs h) x \<noteq> Some (own_pid a)" for x
    using host_okD(2) [OF ok] new by blast
  have "x @ ''x'' \<noteq> x"
    by simp
  with w [of "x @ ''x''"] no show "fs_lock (boot_fs b) x \<noteq> Some (own_pid a)"
    unfolding writes_def by blast
  have locks: "fs_lock (boot_fs b) x \<noteq> Some (own_pid a)" for x
    using w [of "x @ ''x''"] no unfolding writes_def by fastforce
  have "proc_ok N (boot_fs b) q Q" if "q \<noteq> own_pid a" "procs h q = Some Q" for q Q
    using host_okD(1) [OF ok that(2)] w [of "[]" "pid_file Q @ ''x''"] that(1)
    by (auto simp: proc_ok_def writes_def split: phase.splits)
  moreover have "\<exists>Q. procs h q = Some Q \<and> initialised Q \<and> pid_file Q = y"
    if "q \<noteq> own_pid a" "fs_lock (boot_fs b) y = Some q" for y q
    using host_okD(2) [OF ok, of y q] w that unfolding writes_def by blast
  ultimately show "others_ok N (own_pid a) (h\<lparr>host_fs := boot_fs b\<rparr>)"
    by (simp add: others_ok_def)
qed

text \<open>A launch whose flags are accepted names a pid file and a control socket file as it should.\<close>

definition tidy :: "string set \<Rightarrow> host_act \<Rightarrow> bool" where
  "tidy N act =
     (case act of
        Launch a fl argv0 e \<Rightarrow>
          (case ParseCmdLine (flags.truncate fl) argv0 AppSetting_zero of
             (ret, s) \<Rightarrow> ret = 0 \<longrightarrow> pid_file_name s \<in> N \<and> ctrl_sock_file_name s \<notin> N)
      | _ \<Rightarrow> True)"

lemma do_launch_ok:
  fixes prog :: "('c, 'a) program" and h :: "('c, 'a) host"
  assumes ok: "host_ok N h" and new: "own_pid a \<notin> dom (procs h)" and pid: "0 < own_pid a" "own_pid a < 2147483648"
    and tidy: "tidy N (Launch a fl argv0 e)"
  shows "host_ok N (do_launch prog a fl argv0 e h)"
proof -
  let ?b0 = "boot_new e (prog_state prog) (host_fs h) :: ('c, 'a) boot"
  obtain res b where init: "Init_command a fl argv0 ?b0 = (res, b)"
    by (cases "Init_command a fl argv0 ?b0")
  obtain ret s where parse: "ParseCmdLine (flags.truncate fl) argv0 AppSetting_zero = (ret, s)"
    by (cases "ParseCmdLine (flags.truncate fl) argv0 AppSetting_zero")
  have zero: "boot_setting ?b0 = AppSetting_zero" "boot_sigs ?b0 = (\<lambda>_. SIG_DFL)" "boot_signals ?b0 = []" "boot_fs ?b0 = host_fs h"
    by (simp_all add: boot_new_def boot_setting_def AppFrameWork_new_def)
  let ?P = "\<lparr>proc_boot = b, proc_world = boot_world b, proc_phase = InInit a fl\<rparr>"
  let ?h1 = "set_proc (own_pid a) ?P (h\<lparr>host_fs := boot_fs b\<rparr>)"
  note others = Init_command_ok [OF ok new init]
  have s: "boot_setting b = s" "boot_sigs b = (\<lambda>_. SIG_DFL)"
    using Init_command_keeps(2,3) [OF init] parse zero by simp_all
  show ?thesis
  proof (cases "ret = 0")
    case True
    then have "proc_ok N (boot_fs b) (own_pid a) ?P"
      using tidy pid s parse by (simp add: tidy_def proc_ok_def pid_file_def ctrl_file_def)
    then have "host_ok N ?h1"
      using set_proc_ok [OF others(1)] others(2) by simp
    then have final: "host_ok N (fold send_signal (boot_signals b) ?h1)"
      by (rule send_signals_ok)
    with init end_ok [OF final] show ?thesis
      by (simp add: do_launch_def Let_def split: option.split boot_result.split)
  next
    case False
    then have "res = Some (BootRet (-1))" "boot_signals b = []"
      using init parse zero by (auto simp: Init_command_def Let_def)
    moreover have "others_ok N (own_pid a) ?h1"
      using others(1) by (simp add: others_ok_def set_proc_def)
    ultimately show ?thesis
      using init end_process_ok by (simp add: do_launch_def Let_def)
  qed
qed

lemma do_finish_init_ok:
  assumes ok: "host_ok N h" and P: "procs h p = Some P" "proc_phase P = InInit a fl"
  shows "host_ok N (do_finish_init prog p P a fl h)"
proof -
  let ?b0 = "(proc_boot P)\<lparr>boot_fs := host_fs h\<rparr>"
  obtain res b where init: "InitNormalMode a fl (prog_front_size prog) (prog_back_size prog) ?b0 = (res, b)"
    by (cases "InitNormalMode a fl (prog_front_size prog) (prog_back_size prog) ?b0")
  have p: "proc_ok N (host_fs h) p P" "own_pid a = p" "ctrl_file P \<notin> N" "pid_file P \<in> N" "boot_sigs ?b0 = (\<lambda>_. SIG_DFL)"
    using host_okD(1) [OF ok P(1)] P(2) by (simp_all add: proc_ok_def)
  have set0: "boot_setting ?b0 = boot_setting (proc_boot P)"
    by (simp add: boot_setting_def)
  have keeps: "writes p (pid_file P) (ctrl_file P) (host_fs h) (boot_fs b)" "boot_setting b = boot_setting (proc_boot P)"
    using InitNormalMode_keeps [OF init] p(2) set0 by (simp_all add: boot_keeps_def pid_file_def ctrl_file_def)
  note others = change_files [OF ok keeps(1) p(3)]
  show ?thesis
  proof (cases "res = BootRet 0")
    case True
    let ?P1 = "\<lparr>proc_boot = b, proc_world = boot_world b, proc_phase = InApp\<rparr>"
    have same: "pid_file ?P1 = pid_file P" "ctrl_file ?P1 = ctrl_file P"
      by (simp_all add: pid_file_def ctrl_file_def keeps(2))
    have "holding p (InitSignalHandle (\<lambda>_. SIG_DFL)) (boot_setting (proc_boot P)) b"
      using InitNormalMode_holds [OF init [unfolded True]] p(2-5) unfolding set0 pid_file_def ctrl_file_def by metis
    then have "proc_ok N (boot_fs b) p ?P1"
      using p(1) same by (auto simp: proc_ok_def holding_def pid_file_def split: phase.splits)
    moreover have "initialised ?P1 \<and> pid_file ?P1 = f" if "fs_lock (boot_fs b) f = Some p" for f
    proof -
      have "fs_lock (host_fs h) f \<noteq> Some p"
        using host_okD(2) [OF ok, of f p] P by (auto simp: initialised_def)
      with keeps(1) that same show ?thesis
        by (auto simp: writes_def initialised_def)
    qed
    ultimately have "host_ok N (set_proc p ?P1 (h\<lparr>host_fs := boot_fs b\<rparr>))"
      by (intro set_proc_ok [OF others]) simp_all
    with init True show ?thesis
      by (simp add: do_finish_init_def Let_def)
  next
    case False
    with init end_process_ok [OF others] show ?thesis
      by (auto simp: do_finish_init_def Let_def split: boot_result.split)
  qed
qed

lemma host_do_ok:
  assumes ok: "host_ok N h" and "tidy N act" and step: "host_do k prog act h = Some h1"
  shows "host_ok N h1"
proof (cases act)
  case (Launch a fl argv0 e)
  with assms do_launch_ok [OF ok, of a fl argv0 e prog] show ?thesis
    by (auto simp: host_do_def split: if_splits)
next
  case (FinishInit p)
  with assms do_finish_init_ok [OF ok, of p] show ?thesis
    by (auto simp: host_do_def split: option.splits phase.splits)
next
  case (EnterLoop p)
  with step obtain P where P: "procs h p = Some P" "proc_phase P = InApp" "h1 = do_enter_loop prog p P h"
    by (auto simp: host_do_def split: option.splits if_splits)
  then show ?thesis
    using same_process_ok [OF ok P(1)] end_ok [OF ok]
    by (auto simp: do_enter_loop_def initialised_def split: exec.split)
next
  case (LoopEvent p e)
  with step obtain P where P: "procs h p = Some P" "proc_phase P = InLoop" "do_event k prog p P e h = Some h1"
    by (auto simp: host_do_def split: option.splits if_splits)
  then show ?thesis
    using same_process_ok [OF ok P(1)] end_ok [OF ok]
    by (auto simp: do_event_def initialised_def split: exec.splits option.splits if_splits)
next
  case (Signal p s)
  with step send_signal_ok [OF ok] show ?thesis
    by (auto simp: host_do_def)
next
  case (Kill p)
  with step ok end_ok [OF ok] show ?thesis
    by (auto simp: host_do_def)
qed

lemma host_run_ok:
  "host_ok N h \<Longrightarrow> \<forall>act \<in> set acts. tidy N act \<Longrightarrow> host_run k prog acts h = Some h1 \<Longrightarrow> host_ok N h1"
  by (induction acts arbitrary: h) (auto simp: bind_eq_Some_conv dest: host_do_ok)

section \<open>Processes of a program that honours the contract\<close>

text \<open>The events of a run are such as libevent can deliver, and the peers keep to the limits.\<close>

definition act_fits :: "(view \<Rightarrow> bool) \<Rightarrow> string \<Rightarrow> host_act \<Rightarrow> ('c, 'a) host \<Rightarrow> bool" where
  "act_fits good delim act h =
     (case act of
        LoopEvent p e \<Rightarrow> (case procs h p of None \<Rightarrow> True | Some P \<Rightarrow> event_fits good delim e (proc_world P))
      | _ \<Rightarrow> True)"

fun acts_fit :: "(view \<Rightarrow> bool) \<Rightarrow> nat \<Rightarrow> ('c, 'a) program \<Rightarrow> host_act list \<Rightarrow> ('c, 'a) host \<Rightarrow> bool" where
  "acts_fit good k prog [] h = True"
| "acts_fit good k prog (act # acts) h =
     (act_fits good (prog_delim prog) act h
      \<and> (case host_do k prog act h of None \<Rightarrow> True | Some h1 \<Rightarrow> acts_fit good k prog acts h1))"

text \<open>Every process has its connections in order, and none has crashed.\<close>

definition in_order :: "('c, 'a) host_process \<Rightarrow> bool" where
  "in_order P = (world_ok (proc_world P) \<and> world_ok (boot_world (proc_boot P)))"

definition host_safe :: "('c, 'a) host \<Rightarrow> bool" where
  "host_safe h = ((\<forall>p P. procs h p = Some P \<longrightarrow> in_order P) \<and> (\<forall>p c. (p, Crashed c) \<notin> set (exits h)))"

lemma host_safeD: "host_safe h \<Longrightarrow> procs h p = Some P \<Longrightarrow> in_order P"
  by (simp add: host_safe_def)

lemma host_safe_files [simp]: "host_safe (h\<lparr>host_fs := fs\<rparr>) = host_safe h"
  by (simp add: host_safe_def)

lemma host_safe_set: "host_safe h \<Longrightarrow> in_order P \<Longrightarrow> host_safe (set_proc p P h)"
  by (simp add: host_safe_def set_proc_def)

lemma host_safe_end: "host_safe h \<Longrightarrow> \<forall>c. r \<noteq> Crashed c \<Longrightarrow> host_safe (end_process p r h)"
  by (auto simp: host_safe_def end_process_def)

lemma host_safe_signal: "host_safe h \<Longrightarrow> host_safe (send_signal ps h)"
  using host_safeD [of h "fst ps"]
  by (auto simp: send_signal_def handle_signal_def in_order_def split: option.splits sig_action.splits
      intro!: host_safe_set host_safe_end)

lemma host_safe_signals: "host_safe h \<Longrightarrow> host_safe (fold send_signal sigs h)"
  by (induction sigs arbitrary: h) (simp_all add: host_safe_signal)

lemma do_launch_safe:
  fixes prog :: "('c, 'a) program" and h :: "('c, 'a) host"
  assumes "host_safe h"
  shows "host_safe (do_launch prog a fl argv0 e h)"
proof -
  obtain res b where init: "Init_command a fl argv0 (boot_new e (prog_state prog) (host_fs h) :: ('c, 'a) boot) = (res, b)"
    by (cases "Init_command a fl argv0 (boot_new e (prog_state prog) (host_fs h) :: ('c, 'a) boot)")
  then have "world_ok (boot_world b)"
    by (rule Init_command_keeps(4)) (simp add: boot_new_def fresh_pools)
  then have "host_safe (fold send_signal (boot_signals b)
      (set_proc (own_pid a) \<lparr>proc_boot = b, proc_world = boot_world b, proc_phase = InInit a fl\<rparr> (h\<lparr>host_fs := boot_fs b\<rparr>)))"
    using assms by (intro host_safe_signals host_safe_set) (simp_all add: in_order_def)
  with init host_safe_end [OF this] show ?thesis
    by (simp add: do_launch_def Let_def split: option.split boot_result.split)
qed

lemma do_finish_init_safe:
  assumes "host_safe h" and "procs h p = Some P"
  shows "host_safe (do_finish_init prog p P a fl h)"
proof -
  let ?b0 = "(proc_boot P)\<lparr>boot_fs := host_fs h\<rparr>"
  obtain res b where init: "InitNormalMode a fl (prog_front_size prog) (prog_back_size prog) ?b0 = (res, b)"
    by (cases "InitNormalMode a fl (prog_front_size prog) (prog_back_size prog) ?b0")
  have "world_ok (boot_world b)"
    using InitNormalMode_keeps [OF init] host_safeD [OF assms] by (simp add: boot_keeps_def in_order_def)
  with init assms(1) show ?thesis
    by (auto simp: do_finish_init_def in_order_def Let_def split: boot_result.split
        intro!: host_safe_end host_safe_set)
qed

locale stoppable_app =
  safe: safe_app good app rpc + loop: running_app app rpc
  for good :: "view \<Rightarrow> bool" and app :: "('c, 'a) rapid_app" and rpc :: "('c, 'a) rpc_hooks" +
  fixes prog :: "('c, 'a) program"
  assumes prog: "prog_app prog = app" "prog_rpc prog = rpc"
begin

lemma leave_exits: "world_ok w \<Longrightarrow> leave_loop prog w = Exited 0"
proof -
  assume "world_ok w"
  then obtain r w1 where w1: "OnFini app w = Done (r, w1)" "world_ok w1"
    using safe.fini by blast
  with fw_CleanUp_frees [OF w1(2)] show ?thesis
    by (auto simp: leave_loop_def prog)
qed

lemma do_event_safe:
  assumes "host_safe h" and "procs h p = Some P" and "event_fits good (prog_delim prog) e (proc_world P)"
  obtains brk w where "on_event 1 app rpc (prog_delim prog) e (proc_world P) = Some (Done (brk, w))" "world_ok w"
    "do_event 1 prog p P e h =
       Some (if brk then end_process p (Exited 0) h else set_proc p (P\<lparr>proc_world := w\<rparr>) h)"
proof -
  have "sound (\<lambda>_. True) (proc_world P)"
    using host_safeD [OF assms(1,2)] by (simp add: sound_def in_order_def)
  from safe.contract.on_event_safe [OF this assms(3), of 0] obtain brk w where
      w: "on_event 1 app rpc (prog_delim prog) e (proc_world P) = Some (Done (brk, w))" "world_ok w"
    by (auto simp: sound_def)
  with that leave_exits [OF w(2)] show thesis
    by (simp add: do_event_def prog)
qed

lemma host_do_safe:
  assumes safe: "host_safe h" and fits: "act_fits good (prog_delim prog) act h" and step: "host_do 1 prog act h = Some h1"
  shows "host_safe h1"
proof (cases act)
  case (Launch a fl argv0 e)
  with step do_launch_safe [OF safe] show ?thesis
    by (auto simp: host_do_def split: if_splits)
next
  case (FinishInit p)
  with step do_finish_init_safe [OF safe] show ?thesis
    by (auto simp: host_do_def split: option.splits phase.splits)
next
  case (EnterLoop p)
  with step obtain P where P: "procs h p = Some P" "h1 = do_enter_loop prog p P h"
    by (auto simp: host_do_def split: option.splits if_splits)
  have "world_ok (proc_world P)"
    using host_safeD [OF safe P(1)] by (simp add: in_order_def)
  from safe.init [OF this] obtain r w where "OnInit app (proc_world P) = Done (r, w)" "world_ok w"
    by blast
  with P host_safeD [OF safe P(1)] safe show ?thesis
    by (auto simp: do_enter_loop_def prog in_order_def intro!: host_safe_end host_safe_set)
next
  case (LoopEvent p e)
  with step obtain P where P: "procs h p = Some P" "do_event 1 prog p P e h = Some h1"
    by (auto simp: host_do_def split: option.splits if_splits)
  with LoopEvent fits have "event_fits good (prog_delim prog) e (proc_world P)"
    by (simp add: act_fits_def)
  from do_event_safe [OF safe P(1) this] obtain brk w where w: "world_ok w"
      "do_event 1 prog p P e h =
         Some (if brk then end_process p (Exited 0) h else set_proc p (P\<lparr>proc_world := w\<rparr>) h)" .
  with P(2) have "h1 = (if brk then end_process p (Exited 0) h else set_proc p (P\<lparr>proc_world := w\<rparr>) h)"
    by simp
  moreover have "in_order (P\<lparr>proc_world := w\<rparr>)"
    using host_safeD [OF safe P(1)] w(1) by (simp add: in_order_def)
  ultimately show ?thesis
    using host_safe_end [OF safe, of "Exited 0" p] host_safe_set [OF safe, of "P\<lparr>proc_world := w\<rparr>" p] by simp
next
  case (Signal p s)
  with step host_safe_signal [OF safe] show ?thesis
    by (auto simp: host_do_def)
next
  case (Kill p)
  with step host_safe_end [OF safe] safe show ?thesis
    by (auto simp: host_do_def)
qed

lemma host_run_safe:
  "host_safe h \<Longrightarrow> acts_fit good 1 prog acts h \<Longrightarrow> host_run 1 prog acts h = Some h1 \<Longrightarrow> host_safe h1"
  by (induction acts arbitrary: h) (auto simp: bind_eq_Some_conv dest: host_do_safe)

end

section \<open>Commands against a running instance\<close>

lemma initialised_handlers:
  assumes "host_ok N h" and "procs h p = Some P" and "initialised P"
  shows "held_by p (pid_file P) (host_fs h)" "boot_sigs (proc_boot P) = InitSignalHandle (\<lambda>_. SIG_DFL)" "0 < p" "p < 2147483648"
  using host_okD(1) [OF assms(1,2)] assms(3) by (auto simp: proc_ok_def initialised_def split: phase.splits)

definition told_to_stop :: "('c, 'a) host_process \<Rightarrow> ('c, 'a) host_process" where
  "told_to_stop P = P\<lparr>proc_world := (proc_world P)\<lparr>running := False\<rparr>\<rparr>"

text \<open>A stop and a restart find the instance and clear its flag; then the one exits and the other
  goes on with its own start.\<close>

lemma launch_against:
  fixes prog :: "('c, 'a) program" and h :: "('c, 'a) host"
  assumes ok: "host_ok N h" and P: "procs h p = Some P" "initialised P"
    and cmd: "ParseCmdLine (flags.truncate fl) argv0 AppSetting_zero = (0, s)" "pid_file_name s = pid_file P"
    and c: "own_pid c \<notin> dom (procs h)" "0 < own_pid c" "own_pid c < 2147483648" "pid_open c" "pid_cloexec c"
  shows "app_mode s = APP_STOP \<Longrightarrow> host_do k prog (Launch c fl argv0 e) h
      = Some (end_process (own_pid c) (Exited 0) (set_proc p (told_to_stop P) h))"
    and "app_mode s = APP_RESTART \<Longrightarrow>
      \<exists>b. boot_setting b = s \<and> host_do k prog (Launch c fl argv0 e) h
        = Some (set_proc (own_pid c) \<lparr>proc_boot = b, proc_world = boot_world b, proc_phase = InInit c fl\<rparr>
            (set_proc p (told_to_stop P) h))"
proof -
  note P' = initialised_handlers [OF ok P]
  let ?fresh = "boot_new e (prog_state prog) (host_fs h) :: ('c, 'a) boot"
  let ?told = "?fresh\<lparr>boot_world := (boot_world ?fresh)\<lparr>setting := s\<rparr>, boot_fs := host_fs h, boot_signals := [(p, SIGUSR1)]\<rparr>"
  let ?C = "\<lparr>proc_boot = ?told, proc_world = boot_world ?told, proc_phase = InInit c fl\<rparr>"
  have other: "own_pid c \<noteq> p"
    using c(1) P(1) by auto
  have pid: "GetRunningPid c s (host_fs h) = (p, host_fs h)"
    using GetRunningPid_held [of p s "host_fs h" c] P' cmd(2) other c(4,5) by simp
  have launch: "host_do k prog (Launch c fl argv0 e) h = Some (do_launch prog c fl argv0 e h)"
    using c by (simp add: host_do_def domIff)
  have sent: "send_signal (p, SIGUSR1) (set_proc (own_pid c) ?C (h\<lparr>host_fs := host_fs h\<rparr>))
      = set_proc (own_pid c) ?C (set_proc p (told_to_stop P) h)"
    using P(1) P'(2) other
    by (simp add: send_signal_def set_proc_def handle_signal_def InitSignalHandle_def told_to_stop_def fun_upd_twist)
  have gone: "end_process (own_pid c) r (set_proc (own_pid c) ?C x) = end_process (own_pid c) r x" for r x
    by (simp add: end_process_def set_proc_def)
  { assume "app_mode s = APP_STOP"
    then have "Init_command c fl argv0 ?fresh = (Some (BootExit 0), ?told)"
      using cmd(1) pid P'(3)
      by (simp add: Init_command_def boot_new_def boot_setting_def AppFrameWork_new_def Init_mode_def Let_def)
    then show "host_do k prog (Launch c fl argv0 e) h
        = Some (end_process (own_pid c) (Exited 0) (set_proc p (told_to_stop P) h))"
      using launch sent gone by (simp add: do_launch_def Let_def)
  }
  { assume "app_mode s = APP_RESTART"
    then have "Init_command c fl argv0 ?fresh = (None, ?told)"
      using cmd(1) pid P'(3)
      by (simp add: Init_command_def boot_new_def boot_setting_def AppFrameWork_new_def Init_mode_def Let_def)
    then have "host_do k prog (Launch c fl argv0 e) h = Some (set_proc (own_pid c) ?C (set_proc p (told_to_stop P) h))"
      using launch sent by (simp add: do_launch_def Let_def)
    then show "\<exists>b. boot_setting b = s \<and> host_do k prog (Launch c fl argv0 e) h
        = Some (set_proc (own_pid c) \<lparr>proc_boot = b, proc_world = boot_world b, proc_phase = InInit c fl\<rparr>
            (set_proc p (told_to_stop P) h))"
      by (intro exI [of _ ?told]) (simp add: boot_setting_def)
  }
qed

text \<open>Process \<open>p\<close> with pid file \<open>f\<close> has been told to stop: it is gone, or in its loop with
  the flag cleared.\<close>

definition stopping :: "string \<Rightarrow> int \<Rightarrow> ('c, 'a) host \<Rightarrow> bool" where
  "stopping f p h =
     (\<forall>P. procs h p = Some P \<longrightarrow> proc_phase P = InLoop \<and> \<not> running (proc_world P) \<and> pid_file P = f)"

definition launches :: "int \<Rightarrow> host_act \<Rightarrow> bool" where
  "launches p act = (case act of Launch a fl argv0 e \<Rightarrow> own_pid a = p | _ \<Rightarrow> False)"

lemma stopping_files [simp]: "stopping f p (h\<lparr>host_fs := fs\<rparr>) = stopping f p h"
  by (simp add: stopping_def)

lemma stopping_end: "stopping f p h \<Longrightarrow> stopping f p (end_process q r h)"
  by (simp add: stopping_def end_process_def)

lemma stopping_set: "stopping f p h \<Longrightarrow> q \<noteq> p \<Longrightarrow> stopping f p (set_proc q Q h)"
  by (simp add: stopping_def set_proc_def)

lemma stopping_signal: "stopping f p h \<Longrightarrow> stopping f p (send_signal ps h)"
  by (auto simp: stopping_def send_signal_def handle_signal_def set_proc_def end_process_def pid_file_def
      split: option.splits sig_action.splits)

lemma stopping_signals: "stopping f p h \<Longrightarrow> stopping f p (fold send_signal sigs h)"
  by (induction sigs arbitrary: h) (simp_all add: stopping_signal)

context stoppable_app
begin

lemma stopping_kept:
  assumes p: "stopping f p h" and act: "\<not> launches p act" and step: "host_do k prog act h = Some h1"
  shows "stopping f p h1"
proof (cases act)
  case (Launch a fl argv0 e)
  with act have a: "own_pid a \<noteq> p"
    by (simp add: launches_def)
  have "stopping f p (set_proc (own_pid a) C (h\<lparr>host_fs := fs\<rparr>))" for C fs
    by (rule stopping_set [OF _ a]) (use p in simp)
  note s = stopping_signals [OF this]
  from Launch step have "h1 = do_launch prog a fl argv0 e h"
    by (simp add: host_do_def split: if_splits)
  with s stopping_end [OF s] show ?thesis
    by (simp add: do_launch_def Let_def split: prod.split option.split boot_result.split)
next
  case (FinishInit q)
  with step obtain Q a fl where Q: "procs h q = Some Q" "proc_phase Q = InInit a fl" "h1 = do_finish_init prog q Q a fl h"
    by (auto simp: host_do_def split: option.splits phase.splits)
  then have "q \<noteq> p"
    using p by (auto simp: stopping_def)
  with Q(3) p show ?thesis
    by (simp add: do_finish_init_def Let_def stopping_end stopping_set split: prod.split boot_result.split)
next
  case (EnterLoop q)
  with step obtain Q where Q: "procs h q = Some Q" "proc_phase Q = InApp" "h1 = do_enter_loop prog q Q h"
    by (auto simp: host_do_def split: option.splits if_splits)
  then have "q \<noteq> p"
    using p by (auto simp: stopping_def)
  with Q(3) p show ?thesis
    by (simp add: do_enter_loop_def stopping_end stopping_set split: exec.split prod.split)
next
  case (LoopEvent q e)
  with step obtain Q where Q: "procs h q = Some Q" "do_event k prog q Q e h = Some h1" "e \<noteq> EvStop" "proc_phase Q = InLoop"
    by (auto simp: host_do_def split: option.splits if_splits)
  show ?thesis
  proof (cases "q = p")
    case False
    with Q(2) p show ?thesis
      by (auto simp: do_event_def stopping_end stopping_set split: option.splits exec.splits if_splits)
  next
    case True
    then have same: "stopping f p (set_proc p (Q\<lparr>proc_world := w\<rparr>) h)" if "running w = running (proc_world Q)" for w
      using p Q(1) that by (simp add: stopping_def set_proc_def pid_file_def)
    with Q(2,3) True p show ?thesis
      by (auto simp: do_event_def prog stopping_end dest: loop.on_event_running(1)
          split: option.splits exec.splits if_splits)
  qed
next
  case (Signal q s)
  with step stopping_signal [OF p] show ?thesis
    by (auto simp: host_do_def)
next
  case (Kill q)
  with step p stopping_end [OF p] show ?thesis
    by (auto simp: host_do_def)
qed

lemma stopping_run:
  "stopping f p h \<Longrightarrow> \<forall>act \<in> set acts. \<not> launches p act \<Longrightarrow> host_run k prog acts h = Some h1 \<Longrightarrow> stopping f p h1"
  by (induction acts arbitrary: h) (auto simp: bind_eq_Some_conv dest: stopping_kept)

lemma tick_ends:
  assumes "host_safe h" and "stopping f p h" and "procs h p = Some P"
  shows "host_do 1 prog (LoopEvent p (EvTick t)) h = Some (end_process p (Exited 0) h)"
proof -
  have P: "proc_phase P = InLoop" "\<not> running (proc_world P)"
    using assms(2,3) by (simp_all add: stopping_def)
  have "event_fits good (prog_delim prog) (EvTick t) (proc_world P)"
    by (simp add: event_within_def)
  from do_event_safe [OF assms(1,3) this] obtain brk w where
      w: "on_event 1 app rpc (prog_delim prog) (EvTick t) (proc_world P) = Some (Done (brk, w))"
      "do_event 1 prog p P (EvTick t) h =
         Some (if brk then end_process p (Exited 0) h else set_proc p (P\<lparr>proc_world := w\<rparr>) h)" .
  from loop.on_event_running(2) [OF w(1)] P(2) have brk
    by simp
  with w(2) assms(3) P(1) show ?thesis
    by (simp add: host_do_def)
qed

end

text \<open>The echo server asks for no particular message sizes.\<close>

definition echo_program :: "'c \<Rightarrow> string \<Rightarrow> ('c, echo) program" where
  "echo_program z delim =
     \<lparr>prog_app = echo_app z, prog_rpc = no_rpc, prog_state = \<lparr>frame_stub = False\<rparr>, prog_front_size = 0,
      prog_back_size = 0, prog_delim = delim\<rparr>"

interpretation echo_host: stoppable_app is_view "echo_app z" no_rpc "echo_program z delim"
  by unfold_locales (simp_all add: echo_program_def)

section \<open>Properties\<close>

lemma new_host_ok: "fs_lock fs = Map.empty \<Longrightarrow> host_ok N (host_new fs)"
  by (simp add: host_ok_def host_new_def)

lemma new_host_safe: "host_safe (host_new fs)"
  by (simp add: host_safe_def host_new_def)

lemma found_pid:
  assumes ok: "host_ok N h" and c: "own_pid c \<notin> dom (procs h)" "pid_open c" "pid_cloexec c" and p: "0 < p"
  shows "fst (GetRunningPid c s (host_fs h)) = p
    \<longleftrightarrow> (\<exists>P. procs h p = Some P \<and> initialised P \<and> pid_file P = pid_file_name s)"
proof (cases "locked_by_other (own_pid c) (pid_file_name s) (host_fs h)")
  case True
  then obtain q where q: "fs_lock (host_fs h) (pid_file_name s) = Some q"
    by (auto simp: locked_by_other_def split: option.splits)
  then obtain Q where Q: "procs h q = Some Q" "initialised Q" "pid_file Q = pid_file_name s"
    using host_okD(2) [OF ok] by blast
  note Q' = initialised_handlers [OF ok Q(1,2)]
  have "own_pid c \<noteq> q"
    using c(1) Q(1) by auto
  then have "GetRunningPid c s (host_fs h) = (q, host_fs h)"
    using GetRunningPid_held [of q s] Q' Q(3) c(2,3) by simp
  moreover have "q = p" if "procs h p = Some P" "initialised P" "pid_file P = pid_file_name s" for P
    using initialised_handlers(1) [OF ok that(1,2)] q that(3) by (simp add: held_by_def)
  ultimately show ?thesis
    using Q by auto
next
  case False
  have "\<not> (\<exists>P. procs h p = Some P \<and> initialised P \<and> pid_file P = pid_file_name s)"
  proof
    assume "\<exists>P. procs h p = Some P \<and> initialised P \<and> pid_file P = pid_file_name s"
    then obtain P where P: "procs h p = Some P" "initialised P" "pid_file P = pid_file_name s"
      by blast
    with initialised_handlers(1) [OF ok P(1,2)] False c(1) show False
      by (auto simp: locked_by_other_def held_by_def)
  qed
  moreover have "fst (GetRunningPid c s (host_fs h)) \<noteq> p"
    using False c(2,3) p by (auto simp: GetRunningPid_def Let_def split: option.split)
  ultimately show ?thesis
    by blast
qed


text \<open>C31. A stop command against a running echo server ends it. The command finds the server and
  exits with 0; whatever then happens on the host, the server's next tick, if it has not ended before, ends
  its loop: it exits with 0 and its pid file is free.\<close>

theorem stop_ends_instance:
  assumes "fs_lock fs = Map.empty" and "\<forall>act \<in> set acts. tidy N act"
    and "acts_fit is_view 1 (echo_program z delim) acts (host_new fs)"
    and "host_run 1 (echo_program z delim) acts (host_new fs) = Some h"
    and "procs h p = Some P" and "proc_phase P = InLoop"
    and "ParseCmdLine (flags.truncate fl) argv0 AppSetting_zero = (0, s)" and "app_mode s = APP_STOP"
    and "pid_file_name s = pid_file P" and "own_pid c \<notin> dom (procs h)" and "0 < own_pid c"
    and "own_pid c < 2147483648" and "pid_open c" and "pid_cloexec c"
  shows "\<exists>h1. host_do 1 (echo_program z delim) (Launch c fl argv0 e) h = Some h1
    \<and> exits h1 = exits h @ [(own_pid c, Exited 0)]
    \<and> (\<forall>acts2 h2 t. (\<forall>act \<in> set acts2. tidy N act \<and> \<not> launches p act)
         \<and> acts_fit is_view 1 (echo_program z delim) acts2 h1
         \<and> host_run 1 (echo_program z delim) acts2 h1 = Some h2 \<and> p \<in> dom (procs h2) \<longrightarrow>
         (\<exists>h3. host_do 1 (echo_program z delim) (LoopEvent p (EvTick t)) h2 = Some h3
            \<and> procs h3 p = None \<and> exits h3 = exits h2 @ [(p, Exited 0)] \<and> fs_lock (host_fs h3) (pid_file P) = None))"
proof -
  let ?E = "echo_program z delim"
  let ?P1 = "told_to_stop P"
  let ?h1 = "end_process (own_pid c) (Exited 0) (set_proc p ?P1 h)"
  have ok: "host_ok N h"
    by (rule host_run_ok [OF new_host_ok [OF assms(1)] assms(2,4)])
  have safe: "host_safe h"
    by (rule echo_host.host_run_safe [OF new_host_safe assms(3,4)])
  have init: "initialised P"
    using assms(6) by (simp add: initialised_def)
  have step: "host_do 1 ?E (Launch c fl argv0 e) h = Some ?h1"
    by (rule launch_against(1) [OF ok assms(5) init assms(7,9-14,8)])
  have ok1: "host_ok N ?h1"
    by (rule end_ok, rule same_process_ok [OF ok assms(5) init]) (use init in \<open>simp_all add: initialised_def told_to_stop_def\<close>)
  have safe1: "host_safe ?h1"
    using host_safeD [OF safe assms(5)] by (intro host_safe_end host_safe_set [OF safe]) (simp_all add: in_order_def told_to_stop_def)
  have stop1: "stopping (pid_file P) p ?h1"
    by (rule stopping_end) (use assms(6) in \<open>simp add: stopping_def set_proc_def pid_file_def told_to_stop_def\<close>)
  have later: "\<exists>h3. host_do 1 ?E (LoopEvent p (EvTick t)) h2 = Some h3
      \<and> procs h3 p = None \<and> exits h3 = exits h2 @ [(p, Exited 0)] \<and> fs_lock (host_fs h3) (pid_file P) = None"
    if run: "\<forall>act \<in> set acts2. tidy N act \<and> \<not> launches p act" "acts_fit is_view 1 ?E acts2 ?h1"
      "host_run 1 ?E acts2 ?h1 = Some h2" "p \<in> dom (procs h2)" for acts2 h2 t
  proof -
    obtain P2 where P2: "procs h2 p = Some P2"
      using run(4) by blast
    have stop2: "stopping (pid_file P) p h2"
      using echo_host.stopping_run [OF stop1 _ run(3)] run(1) by blast
    have ok2: "host_ok N h2"
      using host_run_ok [OF ok1 _ run(3)] run(1) by blast
    have "held_by p (pid_file P) (host_fs h2)"
      using initialised_handlers(1) [OF ok2 P2] stop2 P2 by (auto simp: stopping_def initialised_def)
    then have "fs_lock (process_exit p (host_fs h2)) (pid_file P) = None"
      by (rule exit_releases)
    with echo_host.tick_ends [OF echo_host.host_run_safe [OF safe1 run(2,3)] stop2 P2] show ?thesis
      by (simp add: end_process_def)
  qed
  show ?thesis
  proof (rule exI [of _ ?h1], intro conjI)
    show "exits ?h1 = exits h @ [(own_pid c, Exited 0)]"
      by (simp add: end_process_def set_proc_def)
  qed (rule step, use later in blast)
qed


section \<open>A run\<close>

definition echo_flags :: boot_flags where
  "echo_flags = base_flags\<lparr>FLAGS_uri := ''tcp://10.0.0.1:80''\<rparr>"

definition echo_setting :: AppSetting where
  "echo_setting =
     \<lparr>fps = 1000, max_idle = -1, max_pkg_speed = -1, max_traffic_speed = -1, listen_uri = ''tcp://10.0.0.1:80'',
      log_file_name = [], pid_file_name = ''app.pid'', ctrl_sock_file_name = ''app.sock'', app_mode = APP_START\<rparr>"

lemma echo_parse:
  "ParseCmdLine (flags.truncate echo_flags) ''app'' AppSetting_zero = (0, echo_setting)"
  "ParseCmdLine (flags.truncate (echo_flags\<lparr>FLAGS_stop := True\<rparr>)) ''app'' AppSetting_zero
     = (0, echo_setting\<lparr>app_mode := APP_STOP\<rparr>)"
  by (simp_all add: ParseCmdLine_def parse_mode_def parse_file_def echo_flags_def base_flags_def flags.defs boot_flags.defs
      default_flags_def echo_setting_def AppSetting_zero_def Let_def)

lemma echo_listen: "fst (tcpsocket_str2sockin sample_os (Some ''tcp://10.0.0.1:80'') (Some sockaddr_zero)) = 0"
  by code_simp


lemma echo_listen_mode:
  assumes "listen_uri (setting w) = ''tcp://10.0.0.1:80''" and "os_api (env w) = sample_os"
  shows "InitListenerServiceMode True w = (0, w)"
proof -
  have "strchr ''tcp://10.0.0.1:80'' CHR ''?'' = None"
    by code_simp
  with assms echo_listen show ?thesis
    by (simp add: InitListenerServiceMode_def)
qed

text \<open>The echo server started as process 4321 on an empty host, up to its loop.\<close>

definition start_echo :: "host_act list" where
  "start_echo = [Launch (boot_ok 4321) echo_flags ''app'' sample_answers, FinishInit 4321, EnterLoop 4321]"

lemma echo_command:
  fixes st :: 'a
  shows "Init_command (boot_ok 4321) echo_flags ''app'' (boot_new sample_answers st fs :: ('c, 'a) boot)
     = (None, (boot_new sample_answers st fs)\<lparr>boot_world := (AppFrameWork_new sample_answers st)\<lparr>setting := echo_setting\<rparr>\<rparr>)"
proof -
  let ?n = "boot_new sample_answers st fs :: ('c, 'a) boot"
  have new: "boot_setting ?n = AppSetting_zero" "boot_world ?n = AppFrameWork_new sample_answers st" "boot_fs ?n = fs"
      "boot_signals ?n = []"
    by (simp_all add: boot_new_def boot_setting_def AppFrameWork_new_def)
  then have "Init_command (boot_ok 4321) echo_flags ''app'' ?n
     = (None, ?n\<lparr>boot_world := (AppFrameWork_new sample_answers st)\<lparr>setting := echo_setting\<rparr>, boot_fs := fs, boot_signals := []\<rparr>)"
    using echo_parse(1) by (simp add: Init_command_def Init_mode_def Let_def) (simp add: echo_setting_def)
  then show ?thesis
    by (simp add: boot_new_def)
qed

lemma echo_boots:
  fixes b :: "('c, 'a) boot"
  assumes "boot_world b = (AppFrameWork_new sample_answers st)\<lparr>setting := echo_setting\<rparr>" and "boot_fs b = fs_empty"
  shows "\<exists>b1. InitNormalMode (boot_ok 4321) echo_flags 0 0 b = (BootRet 0, b1) \<and> pid_file_name (boot_setting b1) = ''app.pid''"
proof -
  let ?a = "boot_ok 4321"
  have plain: "\<not> FLAGS_daemon echo_flags" "FLAGS_cfg_file echo_flags = []"
    by (simp_all add: echo_flags_def base_flags_def flags.defs boot_flags.defs default_flags_def)
  have ok: "step_conf ?a echo_flags b = (0, b)"
    using plain by (simp add: step_conf_def GetConfString_def)
  obtain fs where pid: "SetPidFile ?a echo_setting fs_empty = (0, fs)"
    by (simp add: SetPidFile_def boot_ok_def fs_empty_def locked_by_other_def Let_def)
  have set0: "boot_setting b = echo_setting"
    by (simp add: boot_setting_def assms)
  let ?c1 = "b\<lparr>boot_fs := fs, boot_sigs := InitSignalHandle (boot_sigs b)\<rparr>"
  obtain b2 where ctrl: "step_ctrl ?a ?c1 = (0, b2)" and w2: "boot_setting b2 = echo_setting" "env (boot_world b2) = sample_answers"
    by (simp add: step_ctrl_def SetCtrlSockFile_def boot_ok_def boot_setting_def assms AppFrameWork_new_def Let_def)
  have listen: "step_listen ?a b2 = (0, b2)"
    using echo_listen_mode [of "boot_world b2"] w2
    by (simp add: step_listen_def boot_setting_def echo_setting_def sample_answers_def boot_ok_def)
  obtain b3 where rest: "boot_steps [step_front ?a 0, step_back ?a 0, step_timers, step_rpc ?a echo_flags, step_now ?a] b2 = (0, b3)"
      and set3: "boot_setting b3 = echo_setting"
    using w2(1) by (simp add: step_front_def step_back_def step_timers_def step_rpc_def step_now_def NetHandlerMgr_Init_def
        TimerMgr_Init_def boot_ok_def boot_setting_def)
  have pid1: "step_pid ?a b = (0, b\<lparr>boot_fs := fs\<rparr>)"
    using pid set0 assms(2) by (simp add: step_pid_def)
  have sig: "step_signal (b\<lparr>boot_fs := fs\<rparr>) = (0, b\<lparr>boot_fs := fs, boot_sigs := InitSignalHandle (boot_sigs b)\<rparr>)"
    by (simp add: step_signal_def)
  have limit: "step_limit ?a c = (0, c)" "step_evbase ?a c = (0, c)" "step_fps ?a c = (0, c)" for c :: "('c, 'a) boot"
    by (simp_all add: step_limit_def step_evbase_def step_fps_def SetFpsTimer_def SetResourceLimit_def boot_ok_def)
  have "InitNormalMode ?a echo_flags 0 0 b = (BootRet 0, b3)"
    using plain(1) ok pid1 sig limit ctrl listen rest
    by (simp only: InitNormalMode_def boot_steps.simps(2) if_False if_True option.case prod.case simp_thms)
  with set3 show ?thesis
    by (simp add: echo_setting_def)
qed


lemma start_echo_runs:
  "\<exists>h P. host_run k (echo_program z delim) start_echo (host_new fs_empty) = Some h
     \<and> procs h = [4321 \<mapsto> P] \<and> proc_phase P = InLoop \<and> pid_file P = ''app.pid''"
proof -
  let ?E = "echo_program z delim"
  let ?a = "boot_ok 4321"
  let ?st = "\<lparr>frame_stub = False\<rparr>"
  let ?b = "(boot_new sample_answers ?st fs_empty :: ('a, echo) boot)
    \<lparr>boot_world := (AppFrameWork_new sample_answers ?st)\<lparr>setting := echo_setting\<rparr>\<rparr>"
  let ?P1 = "\<lparr>proc_boot = ?b, proc_world = boot_world ?b, proc_phase = InInit ?a echo_flags\<rparr>"
  let ?h1 = "set_proc 4321 ?P1 (host_new fs_empty)"
  have own: "own_pid ?a = 4321"
    by (simp add: boot_ok_def)
  have 1: "host_do k ?E (Launch ?a echo_flags ''app'' sample_answers) (host_new fs_empty) = Some ?h1"
    using echo_command [where st = ?st and fs = fs_empty and ?'c = 'a] own
    by (simp add: host_do_def do_launch_def echo_program_def host_new_def Let_def)
      (simp add: boot_new_def set_proc_def)
  obtain b1 where b1: "InitNormalMode ?a echo_flags 0 0 (?b\<lparr>boot_fs := fs_empty\<rparr>) = (BootRet 0, b1)"
      "pid_file_name (boot_setting b1) = ''app.pid''"
    using echo_boots [of "?b\<lparr>boot_fs := fs_empty\<rparr>" ?st] by (auto simp: boot_new_def)
  let ?P2 = "\<lparr>proc_boot = b1, proc_world = boot_world b1, proc_phase = InApp\<rparr>"
  let ?h2 = "set_proc 4321 ?P2 (?h1\<lparr>host_fs := boot_fs b1\<rparr>)"
  have 2: "host_do k ?E (FinishInit 4321) ?h1 = Some ?h2"
    using b1(1) by (simp add: host_do_def do_finish_init_def set_proc_def host_new_def echo_program_def Let_def)
  obtain w where w: "OnInit (echo_app z) (boot_world b1) = Done (0, w)"
    by (simp add: echo_app_def echo_OnInit_def)
  let ?P3 = "?P2\<lparr>proc_world := w\<lparr>running := True\<rparr>, proc_phase := InLoop\<rparr>"
  have 3: "host_do k ?E (EnterLoop 4321) ?h2 = Some (set_proc 4321 ?P3 ?h2)"
    using w by (simp add: host_do_def do_enter_loop_def set_proc_def echo_program_def)
  have "host_run k ?E start_echo (host_new fs_empty) = Some (set_proc 4321 ?P3 ?h2)"
    using 1 2 3 by (simp add: start_echo_def)
  moreover have "procs (set_proc 4321 ?P3 ?h2) = [4321 \<mapsto> ?P3]"
    by (simp add: set_proc_def host_new_def)
  moreover have "pid_file ?P3 = ''app.pid''"
    using b1(2) by (simp add: pid_file_def)
  ultimately show ?thesis
    by (intro exI [of _ "set_proc 4321 ?P3 ?h2"] exI [of _ ?P3]) simp
qed

lemma quiet_acts_fit: "\<forall>act \<in> set acts. \<forall>p e. act \<noteq> LoopEvent p e \<Longrightarrow> acts_fit good k prog acts h"
  by (induction acts arbitrary: h) (auto simp: act_fits_def split: option.split host_act.split)

lemma start_echo_tidy: "\<forall>act \<in> set start_echo. tidy {''app.pid''} act"
  using echo_parse(1) by (simp add: start_echo_def tidy_def) (simp add: echo_setting_def)


theorem stop_ends_instance_witness:
  "\<exists>h h1 h3. host_run 1 (echo_program () '' '') start_echo (host_new fs_empty) = Some h
     \<and> host_do 1 (echo_program () '' '')
          (Launch (boot_ok 77) (echo_flags\<lparr>FLAGS_stop := True\<rparr>) ''app'' sample_answers) h = Some h1
     \<and> host_do 1 (echo_program () '' '') (LoopEvent 4321 (EvTick 200)) h1 = Some h3
     \<and> procs h3 4321 = None \<and> exits h3 = exits h @ [(77, Exited 0), (4321, Exited 0)]
     \<and> fs_lock (host_fs h3) ''app.pid'' = None"
proof -
  let ?E = "echo_program () '' ''"
  obtain h P where h: "host_run 1 ?E start_echo (host_new fs_empty) = Some h"
      "procs h = [4321 \<mapsto> P]" "proc_phase P = InLoop" "pid_file P = ''app.pid''"
    using start_echo_runs [of 1 "()" "'' ''"] by (elim exE conjE)
  have empty: "fs_lock fs_empty = Map.empty"
    by (simp add: fs_empty_def)
  have fit: "acts_fit is_view 1 ?E start_echo (host_new fs_empty)"
    by (rule quiet_acts_fit) (simp add: start_echo_def)
  have p: "procs h 4321 = Some P"
    using h(2) by simp
  have mode: "app_mode (echo_setting\<lparr>app_mode := APP_STOP\<rparr>) = APP_STOP"
    "pid_file_name (echo_setting\<lparr>app_mode := APP_STOP\<rparr>) = pid_file P"
    using h(4) by (simp_all add: echo_setting_def)
  have c: "own_pid (boot_ok 77) \<notin> dom (procs h)" "0 < own_pid (boot_ok 77)" "own_pid (boot_ok 77) < 2147483648"
    "pid_open (boot_ok 77)" "pid_cloexec (boot_ok 77)"
    using h(2) by (simp_all add: boot_ok_def)
  obtain h1 where h1: "host_do 1 ?E (Launch (boot_ok 77) (echo_flags\<lparr>FLAGS_stop := True\<rparr>) ''app'' sample_answers) h = Some h1"
      "exits h1 = exits h @ [(own_pid (boot_ok 77), Exited 0)]"
      "\<forall>acts2 h2 t. (\<forall>act \<in> set acts2. tidy {''app.pid''} act \<and> \<not> launches 4321 act)
         \<and> acts_fit is_view 1 ?E acts2 h1 \<and> host_run 1 ?E acts2 h1 = Some h2 \<and> 4321 \<in> dom (procs h2) \<longrightarrow>
         (\<exists>h3. host_do 1 ?E (LoopEvent 4321 (EvTick t)) h2 = Some h3
            \<and> procs h3 4321 = None \<and> exits h3 = exits h2 @ [(4321, Exited 0)] \<and> fs_lock (host_fs h3) (pid_file P) = None)"
    using stop_ends_instance [OF empty start_echo_tidy fit h(1) p h(3) echo_parse(2) mode c, of sample_answers] by blast
  have "host_ok {''app.pid''} h"
    by (rule host_run_ok [OF new_host_ok [OF empty] start_echo_tidy h(1)])
  from launch_against(1) [OF this p _ echo_parse(2) mode(2) c mode(1), of 1 ?E sample_answers] h1(1) h(3) have "4321 \<in> dom (procs h1)"
    by (auto simp: initialised_def end_process_def set_proc_def boot_ok_def)
  with h1(3) [rule_format, of "[]" h1 200] obtain h3 where "host_do 1 ?E (LoopEvent 4321 (EvTick 200)) h1 = Some h3"
      "procs h3 4321 = None" "exits h3 = exits h1 @ [(4321, Exited 0)]" "fs_lock (host_fs h3) (pid_file P) = None"
    by auto
  with h h1(1,2) show ?thesis
    by (intro exI [of _ h] exI [of _ h1] exI [of _ h3]) (simp add: boot_ok_def)
qed


section \<open>Restart, and a stop that comes too early\<close>

text \<open>A restart whose start comes to the pid file before the next tick of the old instance does what a
  stop does, with another exit code: afterwards neither runs.\<close>

theorem restart_only_stops:
  assumes ok: "host_ok N h" and P: "procs h p = Some P" "initialised P"
    and cmd: "ParseCmdLine (flags.truncate fl) argv0 AppSetting_zero = (0, s)" "app_mode s = APP_RESTART"
      "pid_file_name s = pid_file P"
    and c: "own_pid c \<notin> dom (procs h)" "0 < own_pid c" "own_pid c < 2147483648" "pid_open c" "pid_cloexec c"
    and plain: "\<not> FLAGS_daemon fl" "FLAGS_cfg_file fl = []"
  shows "host_run k prog [Launch c fl argv0 e, FinishInit (own_pid c)] h
    = Some (end_process (own_pid c) (Exited (-1)) (set_proc p (told_to_stop P) h))"
proof -
  obtain b where b: "boot_setting b = s" "host_do k prog (Launch c fl argv0 e) h
      = Some (set_proc (own_pid c) \<lparr>proc_boot = b, proc_world = boot_world b, proc_phase = InInit c fl\<rparr>
          (set_proc p (told_to_stop P) h))"
    using launch_against(2) [OF ok P cmd(1,3) c cmd(2)] by blast
  let ?C = "\<lparr>proc_boot = b, proc_world = boot_world b, proc_phase = InInit c fl\<rparr>"
  let ?h1 = "set_proc (own_pid c) ?C (set_proc p (told_to_stop P) h)"
  have held: "held_by p (pid_file_name (boot_setting (b\<lparr>boot_fs := host_fs ?h1\<rparr>))) (boot_fs (b\<lparr>boot_fs := host_fs ?h1\<rparr>))"
    using initialised_handlers(1) [OF ok P] b(1) cmd(3) by (simp add: boot_setting_def set_proc_def)
  have "own_pid c \<noteq> p"
    using c(1) P(1) by auto
  from boot_run_refused [OF plain(2) held this, of "prog_front_size prog" "prog_back_size prog"]
  have "InitNormalMode c fl (prog_front_size prog) (prog_back_size prog) (b\<lparr>boot_fs := host_fs ?h1\<rparr>)
      = (BootRet (-1), b\<lparr>boot_fs := host_fs ?h1\<rparr>)"
    by (simp add: InitNormalMode_run [OF plain(1)])
  then have "do_finish_init prog (own_pid c) ?C c fl ?h1
      = end_process (own_pid c) (Exited (-1)) (set_proc p (told_to_stop P) h)"
    by (simp add: do_finish_init_def Let_def) (simp add: end_process_def set_proc_def)
  with b(2) show ?thesis
    by (simp add: host_do_def) (simp add: set_proc_def)
qed

text \<open>A stop signal between \<open>InitSignalHandle\<close> and \<open>MainLoop\<close> is lost: the server enters
  its loop as if it had not come.\<close>

theorem early_stop_lost:
  assumes "host_ok N h" and "procs h p = Some P" and "proc_phase P = InApp"
  shows "host_run k (echo_program z delim) [Signal p SIGUSR1, EnterLoop p] h
    = host_run k (echo_program z delim) [EnterLoop p] h"
proof -
  have "boot_sigs (proc_boot P) = InitSignalHandle (\<lambda>_. SIG_DFL)"
    using initialised_handlers(2) [OF assms(1,2)] assms(3) by (simp add: initialised_def)
  then have sent: "send_signal (p, SIGUSR1) h = set_proc p (told_to_stop P) h"
    using assms(2) by (simp add: send_signal_def handle_signal_def InitSignalHandle_def told_to_stop_def)
  let ?E = "echo_program z delim"
  have "do_enter_loop ?E p (told_to_stop P) (set_proc p (told_to_stop P) h) = do_enter_loop ?E p P h"
    by (simp add: do_enter_loop_def echo_program_def echo_app_def echo_OnInit_def told_to_stop_def set_proc_def)
  moreover have "procs (set_proc p (told_to_stop P) h) p = Some (told_to_stop P)" "proc_phase (told_to_stop P) = InApp"
    using assms(3) by (simp_all add: set_proc_def told_to_stop_def)
  ultimately show ?thesis
    using sent assms(2,3) by (simp add: host_do_def)
qed

end
