(* ===== verification/Isolation.thy ===== *)
theory Isolation
  imports ConnectorRun EchoApp
begin

text \<open>
  Clients that do not disturb each other. Locale \<open>bystander\<close> extends the contract of an application
  on the event loop by what its callbacks leave alone, namely one connection; under it every event
  that is about other connections leaves that connection, its session and its place in the pool as
  they are.
\<close>

section \<open>A connection that is left alone\<close>

definition rests :: "ptr \<Rightarrow> 'c easy_net \<Rightarrow> ('c, 'a) world \<Rightarrow> bool" where
  "rests p n w = (p \<in> pool_ptrs (frontend_mgr w) \<and> nets (net_heap w) p = Some n)"

lemma restsD: "rests p n w \<Longrightarrow> p \<in> pool_ptrs (frontend_mgr w)" "rests p n w \<Longrightarrow> nets (net_heap w) p = Some n"
  by (simp_all add: rests_def)

lemma rests_cong:
  "frontend_mgr w' = frontend_mgr w \<Longrightarrow> nets (net_heap w') p = nets (net_heap w) p \<Longrightarrow> rests p n w' = rests p n w"
  by (simp add: rests_def)

lemma rests_set_net: "q \<noteq> p \<Longrightarrow> rests p n (set_net q n' w) = rests p n w"
  by (rule rests_cong) (simp_all add: set_net_def)

lemma rests_upd [simp]:
  "rests p n (w\<lparr>env := e\<rparr>) = rests p n w" "rests p n (w\<lparr>running := b\<rparr>) = rests p n w"
  "rests p n (w\<lparr>reloading := b\<rparr>) = rests p n w" "rests p n (w\<lparr>app_state := a\<rparr>) = rests p n w"
  by (simp_all add: rests_def)

lemma modify_net_rests:
  "modify_net q f w = Done w' \<Longrightarrow> q \<noteq> p \<Longrightarrow> rests p n w' = rests p n w"
  by (auto simp: modify_net_def bindE_eq_Done rests_set_net)

lemma remove_rests:
  assumes "world_ok w" and "rests p n w" and "map_of (handler_pool (frontend_mgr w)) fd \<noteq> Some p"
    and "RemoveHandlerByEvent (Some fd) (net_heap w) (frontend_mgr w) = Done (r, h, m)"
  shows "rests p n (w\<lparr>net_heap := h, frontend_mgr := m\<rparr>)"
proof (cases "map_of (handler_pool (frontend_mgr w)) fd")
  case None
  with assms(2,4) show ?thesis
    by (simp add: RemoveHandlerByEvent_def rests_def)
next
  case (Some q)
  with assms(3) have q: "q \<noteq> p"
    by simp
  have hm: "nets h p = nets (net_heap w) p" "handler_pool m = pool_erase fd (handler_pool (frontend_mgr w))"
    using assms(4) Some q by (auto simp: RemoveHandlerByEvent_def update_net_def free_net_def bindE_eq_Done)
  have "pool_ptrs m = pool_ptrs (frontend_mgr w) - {q}"
    using ptrs_erase [OF mgr_invD(2) [OF world_okD(1) [OF assms(1)]] Some] hm(2) by (simp add: pool_ptrs_def)
  with assms(2) q hm(1) show ?thesis
    by (simp add: rests_def)
qed

text \<open>The descriptor of another connection of the pool is not this one's.\<close>

lemma other_fd:
  assumes "world_ok w" and "q \<in> pool_ptrs (frontend_mgr w)" and "q \<noteq> p"
    and "nets (net_heap w) q = Some nq" and "hevent nq = Some b"
  shows "map_of (handler_pool (frontend_mgr w)) (bev_fd b) \<noteq> Some p"
proof -
  obtain n' b' where "nets (net_heap w) q = Some n'" "hevent n' = Some b'"
      "map_of (handler_pool (frontend_mgr w)) (bev_fd b') = Some q"
    using pooled_net [OF world_okD(1) [OF assms(1)] assms(2)] .
  with assms(3-5) show ?thesis
    by simp
qed

lemma DestroyFrontEnd_rests:
  assumes "world_ok w" and "rests p n w" and "q \<in> pool_ptrs (frontend_mgr w)" and "q \<noteq> p"
    and "DestroyFrontEnd (Some q) w = Done w'"
  shows "rests p n w'"
proof -
  obtain nq b where q: "nets (net_heap w) q = Some nq" "hevent nq = Some b"
    using live_net [OF assms(1) front_all [OF assms(3)]] .
  with assms(5) obtain r h m where
      "RemoveHandlerByEvent (Some (bev_fd b)) (net_heap w) (frontend_mgr w) = Done (r, h, m)"
      "w' = w\<lparr>net_heap := h, frontend_mgr := m\<rparr>"
    by (auto simp: DestroyFrontEnd_def RemoveHandler_def bindE_eq_Done)
  with remove_rests [OF assms(1,2) other_fd [OF assms(1,3,4) q]] show ?thesis
    by simp
qed

text \<open>What a write on another connection leaves alone.\<close>

lemma net_Send_rests:
  assumes "net_Send q m w = Done (r, w')" and "q \<noteq> p"
  shows "rests p n w' = rests p n w"
proof -
  have d: "\<exists>r e. draw_write v = (r, v\<lparr>env := e\<rparr>)" for v :: "('a, 'b) world"
    by (cases "write_rc (env v)") (auto simp: draw_write_def intro: exI [of _ "env v"])
  obtain nq where nq: "get_net q w = Done nq"
    using assms(1) by (auto simp: net_Send_def bindE_eq_Done)
  show ?thesis
  proof (cases "m = None \<or> m = Some [] \<or> hevent nq = None \<or> net_state nq \<noteq> NET_ESTABLISHED")
    case True
    with assms(1) nq show ?thesis
      by (simp add: net_Send_def bindE_eq_Done split: prod.splits)
  next
    case False
    obtain r1 e1 where d1: "draw_write w = (r1, w\<lparr>env := e1\<rparr>)"
      using d by blast
    obtain r2 e2 where d2: "draw_write (w\<lparr>env := e1\<rparr>) = (r2, w\<lparr>env := e2\<rparr>)"
      using d [of "w\<lparr>env := e1\<rparr>"] by auto
    from False assms(1) nq d1 d2 have
        "\<exists>n'. w' = set_net q n' (w\<lparr>env := (if r1 \<noteq> 0 then e1 else e2)\<rparr>)"
      by (cases "r1 = 0") (auto simp: net_Send_def bindE_eq_Done)
    with assms(2) show ?thesis
      by (auto simp: rests_set_net)
  qed
qed

lemma SendToFrontEnd_rests:
  "SendToFrontEnd (Some q) m w = Done (r, w') \<Longrightarrow> q \<noteq> p \<Longrightarrow> rests p n w' = rests p n w"
  by (auto simp: SendToFrontEnd_def bindE_eq_Done net_Send_rests [of q m w _ _ p n] split: if_splits)

lemma SendToBackEnd_rests:
  "SendToBackEnd (Some q) m w = Done (r, w') \<Longrightarrow> q \<noteq> p \<Longrightarrow> rests p n w' = rests p n w"
  by (auto simp: SendToBackEnd_def bindE_eq_Done net_Send_rests [of q m w _ _ p n] modify_net_rests [of q _ _ _ p n]
      split: if_splits)

text \<open>A new connection is another one.\<close>

lemma accept_rests:
  assumes "world_ok w" and "rests p n w" and "sock \<notin> fst ` set (handler_pool (frontend_mgr w))"
    and "AddHandlerBySocket ok pos sock type (net_heap w) (frontend_mgr w) = Done (net, h, m)"
  shows "rests p n (w\<lparr>net_heap := h, frontend_mgr := m\<rparr>) \<and> net \<noteq> Some p"
proof -
  have new: "p < next_net (net_heap w)"
    using mgr_invD(1) [OF world_okD(1) [OF assms(1)]] restsD(2) [OF assms(2)] by (auto simp: heap_ok_def)
  let ?q = "next_net (net_heap w)"
  have "nets h p = nets (net_heap w) p"
    using new assms(4)
    by (auto simp: AddHandlerBySocket_def AddHandlerToMap_def EasyNet_Init_def EasyNet_new_def Let_def alloc_net_def
        free_net_def split: if_splits)
  moreover have "net = None \<and> m = frontend_mgr w
      \<or> net = Some ?q \<and> m = (frontend_mgr w)\<lparr>handler_pool := pool_insert pos sock ?q (handler_pool (frontend_mgr w))\<rparr>"
    using assms(4)
    by (auto simp: AddHandlerBySocket_def AddHandlerToMap_def EasyNet_Init_def EasyNet_new_def Let_def alloc_net_def
        split: if_splits)
  moreover have "pool_ptrs ((frontend_mgr w)\<lparr>handler_pool := pool_insert pos sock ?q (handler_pool (frontend_mgr w))\<rparr>)
      = insert ?q (pool_ptrs (frontend_mgr w))"
    using ptrs_insert_fresh [OF assms(3)] by (simp add: pool_ptrs_def)
  ultimately show ?thesis
    using assms(2) new by (auto simp: rests_def)
qed

section \<open>Applications that leave it alone\<close>

locale bystander = guarded_app L inv started app rpc
  for L :: "('c, 'a) limits" and inv started :: "('c, 'a) world \<Rightarrow> bool"
    and app :: "('c, 'a) rapid_app" and rpc :: "('c, 'a) rpc_hooks" +
  fixes p :: ptr and n :: "'c easy_net"
  assumes connect_rests: "inv w \<Longrightarrow> world_ok w1 \<Longrightarrow>
      new_front q (if 0 < GetFrontEndContextSize app then Some (zero_context app) else None) w w1 \<Longrightarrow>
      q \<noteq> p \<Longrightarrow> rests p n w1 \<Longrightarrow> OnFrontEndConnect app q t w1 = Done (r, w2) \<Longrightarrow> rests p n w2"
    and closed_rests: "sound inv w \<Longrightarrow> q \<in> pool_ptrs (frontend_mgr w) \<Longrightarrow> q \<noteq> p \<Longrightarrow> rests p n w \<Longrightarrow>
      OnFrontEndClose app q t w = Done (r, w') \<Longrightarrow> rests p n w'"
    and recv_front_rests: "ready L inv w \<Longrightarrow> q \<in> pool_ptrs (frontend_mgr w) \<Longrightarrow> from_front L v \<Longrightarrow> q \<noteq> p \<Longrightarrow>
      rests p n w \<Longrightarrow> OnRecvFrontEnd app q t v w = Done (r, w') \<Longrightarrow> rests p n w'"
    and rpc_front_rests: "ready L inv w \<Longrightarrow> q \<in> pool_ptrs (frontend_mgr w) \<Longrightarrow> from_front L v \<Longrightarrow> q \<noteq> p \<Longrightarrow>
      rests p n w \<Longrightarrow> OnFrontEndRpcMsg rpc q v w = Done (r, w') \<Longrightarrow> rests p n w'"
    and recv_back_rests: "ready L inv w \<Longrightarrow> q \<in> pool_ptrs (backend_mgr w) \<Longrightarrow> from_back L v \<Longrightarrow>
      rests p n w \<Longrightarrow> OnRecvBackEnd app q t v w = Done (r, w') \<Longrightarrow> rests p n w'"
    and rpc_back_rests: "ready L inv w \<Longrightarrow> q \<in> pool_ptrs (backend_mgr w) \<Longrightarrow> from_back L v \<Longrightarrow>
      rests p n w \<Longrightarrow> rpc_Resume rpc rp v w = Done w' \<Longrightarrow> rests p n w'"

text \<open>The events about other connections. A tick is about all of them.\<close>

definition about_others :: "ptr \<Rightarrow> loop_event \<Rightarrow> bool" where
  "about_others p e =
     (case e of EvTick now \<Rightarrow> False | EvCtrl input \<Rightarrow> False
      | EvFrontData q bs \<Rightarrow> q \<noteq> p | EvFrontSocket q evs \<Rightarrow> q \<noteq> p | _ \<Rightarrow> True)"

context bystander
begin

lemma front_loop_rests:
  "ready L inv w \<Longrightarrow> q \<in> pool_ptrs (frontend_mgr w) \<Longrightarrow> list_all (from_front L) (fst (split_with server_len b)) \<Longrightarrow>
   q \<noteq> p \<Longrightarrow> rests p n w \<Longrightarrow> front_loop app rpc q b e w = Done (r, k, w') \<Longrightarrow> rests p n w'"
proof (induction "length b" arbitrary: b e w rule: less_induct)
  case less
  show ?case
  proof (cases "b = [] \<or> server_len b = 0 \<or> length b < server_len b")
    case True
    then have "front_loop app rpc q b e w = Done (0, e, w)"
      by (subst front_loop.simps) auto
    with less.prems(5,6) show ?thesis
      by simp
  next
    case False
    let ?v = "payload b (server_len b)"
    let ?b = "drop (server_len b) b"
    let ?count = "\<lambda>n::'c easy_net. n\<lparr>curr_pkg_count := curr_pkg_count n + 1\<rparr>"
    have shorter: "length ?b < length b"
      using False by (cases b) auto
    have good_v: "from_front L ?v" and good_b: "list_all (from_front L) (fst (split_with server_len ?b))"
      using less.prems(3) False by (simp_all add: split_with_step)
    have rest: "rests p n w'"
      if 1: "ready L inv w1" "q \<in> pool_ptrs (frontend_mgr w1)" "rests p n w1"
        and go: "bindE (modify_net q ?count w1) (front_loop app rpc q ?b (e + server_len b)) = Done (r, k, w')" for w1
    proof -
      obtain w2 where w2: "modify_net q ?count w1 = Done w2" "pools_kept w1 w2" "ready L inv w2"
        using modify_net_ready [OF 1(1) front_all [OF 1(2)], of ?count] by auto
      have "rests p n w2"
        using modify_net_rests [OF w2(1) less.prems(4)] 1(3) by simp
      with less.hyps [OF shorter w2(3) pools_kept_front [OF w2(2) 1(2)] good_b less.prems(4)] go w2(1)
      show ?thesis
        by simp
    qed
    show ?thesis
    proof (cases "svc_mode w = SVC_MODE_RPC")
      case True
      obtain ret w1 where w1: "OnFrontEndRpcMsg rpc q ?v w = Done (ret, w1)" "ready L inv w1"
          "q \<in> pool_ptrs (frontend_mgr w1)"
        using rpc_front [OF less.prems(1,2) good_v] by blast
      have r1: "rests p n w1"
        by (rule rpc_front_rests [OF less.prems(1,2) good_v less.prems(4,5) w1(1)])
      have call: "front_loop app rpc q b e w =
          (if ret < 0 then bindE (DestroyFrontEnd (Some q) w1) (\<lambda>w2. Done (-1, e, w2))
           else bindE (modify_net q ?count w1) (front_loop app rpc q ?b (e + server_len b)))"
        using False True w1(1) by (subst front_loop.simps) simp
      show ?thesis
      proof (cases "ret < 0")
        case True
        with less.prems(6) [unfolded call] have "DestroyFrontEnd (Some q) w1 = Done w'"
          by (auto simp: bindE_eq_Done)
        with DestroyFrontEnd_rests [OF readyD(2) [OF w1(2)] r1 w1(3) less.prems(4)] show ?thesis
          by simp
      next
        case False
        with rest [OF w1(2,3) r1] call less.prems(6) show ?thesis
          by simp
      qed
    next
      case normal: False
      obtain nq b' where nq: "nets (net_heap w) q = Some nq" "hevent nq = Some b'"
        using live_net [OF readyD(2) [OF less.prems(1)] front_all [OF less.prems(2)]] .
      obtain ret w1 where w1: "OnRecvFrontEnd app q (net_type nq) ?v w = Done (ret, w1)" "ready L inv w1"
          "q \<in> pool_ptrs (frontend_mgr w1)"
        using recv_front [OF less.prems(1,2) good_v] by blast
      have r1: "rests p n w1"
        by (rule recv_front_rests [OF less.prems(1,2) good_v less.prems(4,5) w1(1)])
      have "front_loop app rpc q b e w
          = bindE (modify_net q ?count w1) (front_loop app rpc q ?b (e + server_len b))"
        using normal False nq w1(1) by (subst front_loop.simps) (simp add: get_net_def)
      with rest [OF w1(2,3) r1] less.prems(6) show ?thesis
        by simp
    qed
  qed
qed


lemma back_loop_rests:
  "ready L inv w \<Longrightarrow> q \<in> pool_ptrs (backend_mgr w) \<Longrightarrow> list_all (from_back L) (fst (split_with server_len b)) \<Longrightarrow>
   rests p n w \<Longrightarrow> back_loop app rpc q b e w = Done (k, w') \<Longrightarrow> rests p n w'"
proof (induction "length b" arbitrary: b e w rule: less_induct)
  case less
  show ?case
  proof (cases "b = [] \<or> server_len b = 0 \<or> length b < server_len b")
    case True
    then have "back_loop app rpc q b e w = Done (e, w)"
      by (subst back_loop.simps) auto
    with less.prems(4,5) show ?thesis
      by simp
  next
    case False
    let ?v = "payload b (server_len b)"
    let ?b = "drop (server_len b) b"
    have shorter: "length ?b < length b"
      using False by (cases b) auto
    have good_v: "from_back L ?v" and good_b: "list_all (from_back L) (fst (split_with server_len ?b))"
      using less.prems(3) False by (simp_all add: split_with_step)
    obtain nq b' where nq: "nets (net_heap w) q = Some nq" "hevent nq = Some b'"
      using live_net [OF readyD(2) [OF less.prems(1)] back_all [OF less.prems(2)]] .
    let ?call = "case rpc_binded nq of
                   Some rp \<Rightarrow>
                     if rpc_IsActive rpc rp w then rpc_Resume rpc rp ?v w
                     else bindE (OnRecvBackEnd app q (net_type nq) ?v w) (\<lambda>(ret, w1). Done w1)
                 | None \<Rightarrow> bindE (OnRecvBackEnd app q (net_type nq) ?v w) (\<lambda>(ret, w1). Done w1)"
    have unf: "back_loop app rpc q b e w = bindE ?call (back_loop app rpc q ?b (e + server_len b))"
      using False nq by (subst back_loop.simps) (simp add: get_net_def)
    obtain ret wa where a: "OnRecvBackEnd app q (net_type nq) ?v w = Done (ret, wa)" "ready L inv wa"
        "q \<in> pool_ptrs (backend_mgr wa)"
      using recv_back [OF less.prems(1,2) good_v] by blast
    have ra: "rests p n wa"
      by (rule recv_back_rests [OF less.prems(1,2) good_v less.prems(4) a(1)])
    have resume: "\<exists>w2. rpc_Resume rpc rp ?v w = Done w2 \<and> ready L inv w2 \<and> q \<in> pool_ptrs (backend_mgr w2)
        \<and> rests p n w2" for rp
      using rpc_back [OF less.prems(1,2) good_v, of rp] rpc_back_rests [OF less.prems(1,2) good_v less.prems(4)]
      by blast
    have "\<exists>w2. ?call = Done w2 \<and> ready L inv w2 \<and> q \<in> pool_ptrs (backend_mgr w2) \<and> rests p n w2"
      using a ra resume by (auto split: option.split)
    then obtain w2 where "?call = Done w2" "ready L inv w2" "q \<in> pool_ptrs (backend_mgr w2)" "rests p n w2"
      by blast
    with unf less.hyps [OF shorter this(2,3) good_b this(4)] less.prems(5) show ?thesis
      by simp
  qed
qed

lemma OnFrontEndMsg_rests:
  assumes "ready L inv w" and "q \<in> pool_ptrs (frontend_mgr w)"
    and "list_all (from_front L) (views_of (frontend_mgr w) q [] w)"
    and "q \<noteq> p" and "rests p n w" and "OnFrontEndMsg app rpc q w = Done (r, w')"
  shows "rests p n w'"
proof -
  obtain nq b where nq: "nets (net_heap w) q = Some nq" "hevent nq = Some b"
      "map_of (handler_pool (frontend_mgr w)) (bev_fd b) = Some q"
    using pooled_net [OF world_okD(1) [OF readyD(2) [OF assms(1)]] assms(2)] .
  let ?msg = "take (recv_size (frontend_mgr w)) (bev_in b)"
  have good_msg: "list_all (from_front L) (fst (split_with server_len ?msg))"
    using assms(3) nq by (simp add: views_of_def)
  obtain c k w1 where w1: "front_loop app rpc q ?msg 0 w = Done (c, k, w1)"
    using front_loop_safe [OF assms(1,2) good_msg] by blast
  have r1: "rests p n w1"
    by (rule front_loop_rests [OF assms(1,2) good_msg assms(4,5) w1])
  have msg: "OnFrontEndMsg app rpc q w =
      (if c < 0 then Done (-1, w1)
       else bindE (modify_net q (bev_drain k) w1) (\<lambda>w2.
              bindE (modify_net q (\<lambda>n. n\<lparr>curr_traffic_bytes := curr_traffic_bytes n + of_nat k,
                                         last_active_timestamp := now_time w2\<rparr>) w2) (\<lambda>w3. Done (0, w3))))"
    using nq w1 by (simp add: OnFrontEndMsg_def get_net_def GetHandlerByEvent_def)
  from assms(6) [unfolded msg] r1 show ?thesis
    by (auto simp: bindE_eq_Done modify_net_rests [OF _ assms(4)] split: if_splits)
qed

lemma OnBackEndMsg_rests:
  assumes "ready L inv w" and "q \<in> pool_ptrs (backend_mgr w)"
    and "list_all (from_back L) (views_of (backend_mgr w) q [] w)"
    and "rests p n w" and "OnBackEndMsg app rpc q w = Done (r, w')"
  shows "rests p n w'"
proof -
  obtain nq b where nq: "nets (net_heap w) q = Some nq" "hevent nq = Some b"
      "map_of (handler_pool (backend_mgr w)) (bev_fd b) = Some q"
    using pooled_net [OF world_okD(2) [OF readyD(2) [OF assms(1)]] assms(2)] .
  let ?msg = "take (recv_size (backend_mgr w)) (bev_in b)"
  have good_msg: "list_all (from_back L) (fst (split_with server_len ?msg))"
    using assms(3) nq by (simp add: views_of_def)
  have qp: "q \<noteq> p"
    using mgr_invD(4) [OF world_okD(1) [OF readyD(2) [OF assms(1)]]] assms(2) restsD(1) [OF assms(4)] by blast
  obtain k w1 where w1: "back_loop app rpc q ?msg 0 w = Done (k, w1)"
    using back_loop_safe [OF assms(1,2) good_msg] by blast
  have r1: "rests p n w1"
    by (rule back_loop_rests [OF assms(1,2) good_msg assms(4) w1])
  have msg: "OnBackEndMsg app rpc q w = bindE (modify_net q (bev_drain k) w1) (\<lambda>w2. Done (0, w2))"
    using nq w1 by (simp add: OnBackEndMsg_def get_net_def GetHandlerByEvent_def)
  from assms(5) [unfolded msg] r1 show ?thesis
    by (auto simp: bindE_eq_Done modify_net_rests [OF _ qp])
qed

lemma front_close_rests:
  assumes s: "sound inv w" and q: "map_of (handler_pool (frontend_mgr w)) fd = Some q" "q \<noteq> p"
    and r: "rests p n w" and w': "front_close app fd w = Done w'"
  shows "rests p n w'"
proof -
  obtain nq b where nq: "nets (net_heap w) q = Some nq" "hevent nq = Some b"
    using pool_okD [OF mgr_invD(2) [OF world_okD(1) [OF soundD(1) [OF s]]] q(1)] by blast
  obtain c w1 where w1: "OnFrontEndClose app q (net_type nq) w = Done (c, w1)" "sound inv w1"
    using closed [OF s map_of_in_ptrs [OF q(1)]] by blast
  have r1: "rests p n w1"
    by (rule closed_rests [OF s map_of_in_ptrs [OF q(1)] q(2) r w1(1)])
  have mine: "net_fd (net_heap v) p = Some fd" if "sound inv v" "map_of (handler_pool (frontend_mgr v)) fd = Some p" for v
    using mgr_invD(2) [OF world_okD(1) [OF soundD(1) [OF that(1)]]] that(2) by (simp add: pool_ok_def)
  have "map_of (handler_pool (frontend_mgr w1)) fd \<noteq> Some p"
  proof
    assume "map_of (handler_pool (frontend_mgr w1)) fd = Some p"
    from mine [OF w1(2) this] restsD(2) [OF r1] obtain b where b: "hevent n = Some b" "bev_fd b = fd"
      by (auto simp: net_fd_def)
    obtain n0 b0 where "nets (net_heap w) p = Some n0" "hevent n0 = Some b0"
        "map_of (handler_pool (frontend_mgr w)) (bev_fd b0) = Some p"
      using pooled_net [OF world_okD(1) [OF soundD(1) [OF s]] restsD(1) [OF r]] .
    with b q restsD(2) [OF r] show False
      by simp
  qed
  moreover obtain c2 h m where "RemoveHandlerByEvent (Some fd) (net_heap w1) (frontend_mgr w1) = Done (c2, h, m)"
      "w' = w1\<lparr>net_heap := h, frontend_mgr := m\<rparr>"
    using w' nq w1(1) q(1)
    by (auto simp: front_close_def GetHandlerByEvent_def get_net_def RemoveFrontByEvent_def bindE_eq_Done)
  ultimately show ?thesis
    using remove_rests [OF soundD(1) [OF w1(2)] r1] by simp
qed


lemma socket_event_rests:
  assumes "sound inv w" and "map_of (handler_pool (frontend_mgr w)) fd = Some q" and "q \<noteq> p"
    and "rests p n w" and "OnFrontEndSocketEvent app fd evs w = Done (r, w')"
  shows "rests p n w'"
  using assms(4,5) front_close_rests [OF assms(1-4)]
  by (auto simp: OnFrontEndSocketEvent_def bindE_eq_Done split: if_splits)

lemma back_socket_rests:
  assumes "sound inv w" and "rests p n w" and "OnBackEndSocketEvent fd evs w = Done (r, w')"
  shows "rests p n w'"
proof -
  have change: "rests p n (w\<lparr>net_heap := h\<rparr>)"
    if "ChangeNetStateByEvent (Some fd) st (net_heap w) (backend_mgr w) = Done (c, h)" for st c h
  proof -
    have "foreign_same (pool_ptrs (frontend_mgr w)) (net_heap w) h"
      using ChangeNetStateByEvent_keeps [OF world_okD(2) [OF soundD(1) [OF assms(1)]], of "Some fd" st] that
      by (auto simp: mgr_keeps_def)
    with assms(2) show ?thesis
      by (simp add: rests_def foreign_same_def)
  qed
  with assms(2,3) show ?thesis
    by (auto simp: OnBackEndSocketEvent_def Let_def bindE_eq_Done split: if_splits)
qed

lemma connect_rest_rests:
  assumes inv: "inv w" and ok1: "world_ok w1" and new: "new_front q None w w1" and qp: "q \<noteq> p" and r: "rests p n w1"
    and go: "bindE (modify_net q (\<lambda>n. n\<lparr>uri := u\<rparr>) w1) (\<lambda>w2.
      if long then Done (-1, w2)
      else
        (let uctx_size = GetFrontEndContextSize app;
             (ok2, w3) = (if 0 < uctx_size then draw_alloc w2 else (True, w2))
         in bindE (get_net q w3) (\<lambda>n.
              case CreateUserContext ok2 (zero_context app) uctx_size n of
                (r, n1) \<Rightarrow>
                  let w4 = set_net q n1 w3 in
                  if r \<noteq> 0 then bindE (DestroyFrontEnd (Some q) w4) (\<lambda>w5. Done (-1, w5))
                  else
                    bindE (modify_net q (\<lambda>n. n\<lparr>last_active_timestamp := now_time w4\<rparr>) w4) (\<lambda>w5.
                      bindE (OnFrontEndConnect app q 0 w5) (\<lambda>(r2, w6). Done (0, w6)))))) = Done (c, w')"
  shows "rests p n w'"
proof -
  let ?k = "GetFrontEndContextSize app"
  let ?c = "if 0 < ?k then Some (zero_context app) else None"
  have q1: "q \<in> pool_ptrs (frontend_mgr w1)"
    using new by (simp add: new_front_def)
  obtain w2 where w2: "modify_net q (\<lambda>n. n\<lparr>uri := u\<rparr>) w1 = Done w2" "pools_kept w1 w2" "undisturbed True w1 w2"
    using modify_net_steady [OF ok1 front_all [OF q1], of "\<lambda>n. n\<lparr>uri := u\<rparr>"] by auto
  have r2: "rests p n w2"
    using modify_net_rests [OF w2(1) qp] r by simp
  show ?thesis
  proof (cases long)
    case True
    with go w2(1) r2 show ?thesis
      by simp
  next
    case short: False
    obtain ok e where w3: "(if 0 < ?k then draw_alloc w2 else (True, w2)) = (ok, w2\<lparr>env := e\<rparr>)"
        "write_rc e = write_rc (env w2)"
      using draw_alloc_env [of w2] that [of True "env w2"] by (cases "0 < ?k") auto
    let ?w3 = "w2\<lparr>env := e\<rparr>"
    note new3 = new_front_env [OF new_front_undisturbed [OF new w2(3,2)] w3(2)]
    have ok3: "world_ok ?w3" and q3: "q \<in> pool_ptrs (frontend_mgr ?w3)"
      using pools_kept_ok [OF w2(2)] pools_kept_front [OF w2(2) q1] by simp_all
    obtain nq b where nq: "nets (net_heap ?w3) q = Some nq" "hevent nq = Some b"
      using live_net [OF ok3 front_all [OF q3]] .
    have st: "seen nq = (NET_ESTABLISHED, None)"
      using new3 nq(1) by (simp add: new_front_def)
    obtain d n1 where d: "CreateUserContext ok (zero_context app) ?k nq = (d, n1)"
      by (cases "CreateUserContext ok (zero_context app) ?k nq")
    then have n1: "same_net nq n1" "d = 0 \<Longrightarrow> seen n1 = (NET_ESTABLISHED, ?c)"
      using st by (auto simp: CreateUserContext_def seen_def split: if_splits)
    let ?w4 = "set_net q n1 ?w3"
    have ok4: "world_ok ?w4"
      by (rule world_ok_set_net [OF ok3 nq(1) n1(1)])
    have q4: "q \<in> pool_ptrs (frontend_mgr ?w4)"
      using q3 by (simp add: set_net_def)
    have r4: "rests p n ?w4"
      unfolding rests_set_net [OF qp] using r2 by simp
    show ?thesis
    proof (cases "d = 0")
      case False
      with go short w2(1) w3(1) nq(1) d DestroyFrontEnd_rests [OF ok4 r4 q4 qp] show ?thesis
        by (auto simp: get_net_def bindE_eq_Done)
    next
      case True
      obtain w5 where w5: "modify_net q (\<lambda>n. n\<lparr>last_active_timestamp := now_time ?w4\<rparr>) ?w4 = Done w5"
          "pools_kept ?w4 w5" "undisturbed True ?w4 w5"
        using modify_net_steady [OF ok4 front_all [OF q4], of "\<lambda>n. n\<lparr>last_active_timestamp := now_time ?w4\<rparr>"] by auto
      have new5: "new_front q ?c w w5"
        by (rule new_front_undisturbed [OF new_front_context [OF new3 n1(2) [OF True]] w5(3,2)])
      have r5: "rests p n w5"
        using modify_net_rests [OF w5(1) qp] r4 by simp
      from go short True w2(1) w3(1) nq(1) d w5(1) obtain f where "OnFrontEndConnect app q 0 w5 = Done (f, w')"
        by (auto simp: get_net_def bindE_eq_Done)
      with connect_rests [OF inv pools_kept_ok [OF w5(2)] new5 qp r5] show ?thesis
        by simp
    qed
  qed
qed


lemma fw_connect_rests:
  assumes s: "sound inv w" and sock: "sock \<notin> fst ` set (handler_pool (frontend_mgr w))"
    and r: "rests p n w" and go: "fw_OnFrontEndConnect app sock addr w = Done (c, w')"
  shows "rests p n w'"
proof -
  obtain ok e1 where d1: "draw_alloc w = (ok, w\<lparr>env := e1\<rparr>)" "write_rc e1 = write_rc (env w)"
    using draw_alloc_env by blast
  obtain pos e2 where "draw_pos (w\<lparr>env := e1\<rparr>) = (pos, w\<lparr>env := e1\<rparr>\<lparr>env := e2\<rparr>)" "write_rc e2 = write_rc e1"
    using draw_pos_env [of "w\<lparr>env := e1\<rparr>"] by auto
  then have d2: "draw_pos (w\<lparr>env := e1\<rparr>) = (pos, w\<lparr>env := e2\<rparr>)" "write_rc e2 = write_rc (env w)"
    using d1 by simp_all
  let ?w = "w\<lparr>env := e2\<rparr>"
  have sw: "sound inv ?w"
    using sound_kept [OF s undisturbed_env [OF d2(2)]] soundD(1) [OF s] by simp
  obtain net h m where add: "AddHandlerBySocket ok pos sock 0 (net_heap ?w) (frontend_mgr ?w) = Done (net, h, m)"
      "mgr_keeps (pool_ptrs (backend_mgr ?w)) (net_heap ?w) h m"
    using AddHandlerBySocket_keeps [of "pool_ptrs (backend_mgr ?w)" "net_heap ?w" "frontend_mgr ?w" sock ok pos 0]
      world_okD(1) [OF soundD(1) [OF s]] sock by auto
  let ?w1 = "?w\<lparr>net_heap := h, frontend_mgr := m\<rparr>"
  have r1: "rests p n ?w1" "net \<noteq> Some p"
    using accept_rests [OF soundD(1) [OF sw] _ _ add(1)] r sock by simp_all
  show ?thesis
  proof (cases net)
    case None
    with go r1(1) d1 d2 add(1) show ?thesis
      by (simp add: fw_OnFrontEndConnect_def)
  next
    case (Some q)
    then have qp: "q \<noteq> p"
      using r1(2) by simp
    have new: "new_front q None ?w ?w1"
      by (rule accept_new_front) (use add(1) Some in simp)
    show ?thesis
      by (rule connect_rest_rests [OF soundD(2) [OF sw] world_ok_front [OF soundD(1) [OF sw] add(2)] new qp r1(1)])
        (use go d1 d2 add(1) Some in \<open>simp add: fw_OnFrontEndConnect_def Let_def\<close>)
  qed
qed

text \<open>Every event about others.\<close>

lemma on_event_rests:
  assumes s: "sound inv w" and fits: "event_within L delim e w" and "about_others p e" and r: "rests p n w"
    and go: "on_event (Suc k) app rpc delim e w = Some (Done (brk, w'))"
  shows "rests p n w' \<and> \<not> brk"
proof (cases e)
  case (EvAccept sock addr)
  with go fits fw_connect_rests [OF s _ r, of sock addr] r show ?thesis
    by (auto simp: on_event_def no_break_def event_within_def bindE_eq_Done split: if_splits exec.splits)
next
  case (EvFrontData q bs)
  then have q: "q \<in> pool_ptrs (frontend_mgr w)" "able L w" "q \<noteq> p"
      "list_all (from_front L) (views_of (frontend_mgr w) q bs w)"
    using fits assms(3) by (simp_all add: event_within_def about_others_def)
  obtain w1 where w1: "modify_net q (bev_feed bs) w = Done w1" "pools_kept w w1" "ready L inv w1"
      "views_of (frontend_mgr w) q [] w1 = views_of (frontend_mgr w) q bs w"
    using feed_safe [OF s q(2) front_all [OF q(1)]] by blast
  have "list_all (from_front L) (views_of (frontend_mgr w1) q [] w1)"
    using w1(2,4) q(4) by (simp add: pools_kept_def)
  note keep = OnFrontEndMsg_rests [OF w1(3) pools_kept_front [OF w1(2) q(1)] this q(3)]
  have "rests p n w1"
    using modify_net_rests [OF w1(1) q(3)] r by simp
  with keep go EvFrontData w1(1) show ?thesis
    by (auto simp: on_event_def no_break_def bindE_eq_Done split: exec.splits)
next
  case (EvFrontSocket q evs)
  then have q: "q \<in> pool_ptrs (frontend_mgr w)" "q \<noteq> p"
    using fits assms(3) by (simp_all add: event_within_def about_others_def)
  obtain nq b where nq: "nets (net_heap w) q = Some nq" "hevent nq = Some b"
      "map_of (handler_pool (frontend_mgr w)) (bev_fd b) = Some q"
    using pooled_net [OF world_okD(1) [OF soundD(1) [OF s]] q(1)] .
  with socket_event_rests [OF s nq(3) q(2) r] go EvFrontSocket show ?thesis
    by (auto simp: on_event_def no_break_def get_net_def bindE_eq_Done split: exec.splits)
next
  case (EvBackData q bs)
  then have q: "q \<in> pool_ptrs (backend_mgr w)" "able L w"
      "list_all (from_back L) (views_of (backend_mgr w) q bs w)"
    using fits by (simp_all add: event_within_def)
  obtain w1 where w1: "modify_net q (bev_feed bs) w = Done w1" "pools_kept w w1" "ready L inv w1"
      "views_of (backend_mgr w) q [] w1 = views_of (backend_mgr w) q bs w"
    using feed_safe [OF s q(2) back_all [OF q(1)]] by blast
  have "list_all (from_back L) (views_of (backend_mgr w1) q [] w1)"
    using w1(2,4) q(3) by (simp add: pools_kept_def)
  note keep = OnBackEndMsg_rests [OF w1(3) pools_kept_back [OF w1(2) q(1)] this]
  have "q \<noteq> p"
    using mgr_invD(4) [OF world_okD(1) [OF soundD(1) [OF s]]] q(1) restsD(1) [OF r] by blast
  then have "rests p n w1"
    using modify_net_rests [OF w1(1)] r by simp
  with keep go EvBackData w1(1) show ?thesis
    by (auto simp: on_event_def no_break_def bindE_eq_Done split: exec.splits)
next
  case (EvBackSocket q evs)
  then have "q \<in> all_ptrs w"
    using fits by (simp add: event_within_def all_ptrs_def)
  then obtain nq b where "nets (net_heap w) q = Some nq" "hevent nq = Some b"
    using live_net [OF soundD(1) [OF s]] by blast
  with back_socket_rests [OF s r] go EvBackSocket show ?thesis
    by (auto simp: on_event_def no_break_def get_net_def bindE_eq_Done split: exec.splits)
next
  case (EvTick now)
  with assms(3) show ?thesis by (simp add: about_others_def)
next
  case (EvCtrl input)
  with assms(3) show ?thesis by (simp add: about_others_def)
next
  case EvStop
  with go r show ?thesis by (auto simp: on_event_def)
next
  case EvReload
  with go r show ?thesis by (auto simp: on_event_def)
qed

lemma dispatch_rests:
  "sound inv w \<Longrightarrow> events_within L app rpc delim es w \<Longrightarrow> list_all (about_others p) es \<Longrightarrow> rests p n w \<Longrightarrow>
   \<exists>w'. dispatch_events 1 app rpc delim es w = Some (Done w') \<and> sound inv w' \<and> rests p n w'"
proof (induction es arbitrary: w)
  case (Cons e es)
  obtain brk w1 where w1: "on_event 1 app rpc delim e w = Some (Done (brk, w1))" "sound inv w1"
    using on_event_safe [OF Cons.prems(1), of delim e 0] Cons.prems(2) by auto
  moreover have "rests p n w1 \<and> \<not> brk"
    using on_event_rests [OF Cons.prems(1) _ _ Cons.prems(4), of delim e 0 brk w1] Cons.prems(2,3) w1(1) by simp
  ultimately show ?case
    using Cons by simp
qed auto

end

section \<open>The connector\<close>

text \<open>The ids under which backends address a connection, and the messages that address it.\<close>

definition net_ids :: "'c easy_net \<Rightarrow> (32 word \<times> 64 word) option" where
  "net_ids n = map_option (\<lambda>b. (word_of_int (bev_fd b), scast (nid n))) (hevent n)"

definition addresses :: "codec \<Rightarrow> view \<Rightarrow> session easy_net \<Rightarrow> bool" where
  "addresses cd v n = (net_ids n = Some (ss_fd (ss_session (ss_parse cd v)), ss_nid (ss_session (ss_parse cd v))))"

text \<open>The limits of the connector's runs, where moreover no backend addresses \<open>n\<close>.\<close>

definition sparing :: "codec \<Rightarrow> session easy_net \<Rightarrow> (session, connector) limits" where
  "sparing cd n = (connector_limits cd)\<lparr>from_back := \<lambda>v. ss_bodyid (ss_parse cd v) \<noteq> SS_FIN \<and> \<not> addresses cd v n\<rparr>"

lemma ready_sparing: "ready (sparing cd n) conn_inv = conn_ready cd"
  by (intro ext) (simp add: ready_def sparing_def connector_limits_def)

lemma guarded_app_less:
  assumes g: "guarded_app L I started app rpc" and f: "\<And>v. f v \<Longrightarrow> from_back L v"
  shows "guarded_app (L\<lparr>from_back := f\<rparr>) I started app rpc"
proof -
  have same: "ready (L\<lparr>from_back := f\<rparr>) I = ready L I" "from_front (L\<lparr>from_back := f\<rparr>) = from_front L"
    "able (L\<lparr>from_back := f\<rparr>) = able L" "from_back (L\<lparr>from_back := f\<rparr>) = f"
    by (auto simp: ready_def)
  show ?thesis
    by (rule guarded_app.intro; (unfold same)?)
      ((rule guarded_app.inv_kept [OF g]; assumption) | (rule guarded_app.able_kept [OF g]; assumption) |
        (rule guarded_app.joined [OF g]; assumption) | (rule guarded_app.init [OF g]; assumption) | (rule
        guarded_app.fini [OF g]; assumption) | (rule guarded_app.update [OF g]; assumption) | (rule
        guarded_app.reload [OF g]; assumption) | (rule guarded_app.ctrl [OF g]; assumption) | (rule
        guarded_app.connect [OF g]; assumption) | (rule guarded_app.closed [OF g]; assumption) | (rule
        guarded_app.recv_front [OF g]; assumption) | (rule guarded_app.rpc_front [OF g]; assumption) | (rule
        guarded_app.recv_back [OF g _ _ f]; assumption) | (rule guarded_app.rpc_back [OF g _ _ f];
        assumption))+
qed

lemma async_ids_addressed:
  assumes "world_ok w" and "rests p n w" and "GetFrontEndByAsyncIds fd i w = Done (Some p)"
  shows "net_ids n = Some (fd, i)"
proof -
  have fd: "map_of (handler_pool (frontend_mgr w)) (sint fd) = Some p" and i: "i = scast (nid n)"
    using assms(3) restsD(2) [OF assms(2)]
    by (auto simp: GetFrontEndByAsyncIds_def GetHandlerByAsyncIds_def bindE_eq_Done split: option.splits if_splits)
  obtain n' b where "nets (net_heap w) p = Some n'" "hevent n' = Some b" "bev_fd b = sint fd"
    using pool_okD [OF mgr_invD(2) [OF world_okD(1) [OF assms(1)]] fd] by blast
  with i restsD(2) [OF assms(2)] show ?thesis
    by (simp add: net_ids_def)
qed

lemma set_session_rests: "set_session q f w = Done w' \<Longrightarrow> q \<noteq> p \<Longrightarrow> rests p n w' = rests p n w"
  by (auto simp: set_session_def bindE_eq_Done rests_set_net split: option.splits)

lemma turned_rests [simp]: "rests p n (turned w) = rests p n w"
  by (rule rests_cong) (simp_all add: turned_def)

lemma backend_other: "world_ok w \<Longrightarrow> rests p n w \<Longrightarrow> q \<in> pool_ptrs (backend_mgr w) \<Longrightarrow> q \<noteq> p"
  using disjoint_pools restsD(1) by metis

lemma Drive_rests:
  assumes r: "conn_ready cd w" and q: "q \<in> pool_ptrs (frontend_mgr w)" "q \<noteq> p" and p: "rests p n w"
    and nq: "nets (net_heap w) q = Some nq" "user_context nq = Some s" and st: "state s \<noteq> STATE_OK"
    and cd: "codec_writes cd" and go: "DriveStateMachine cd q w = Done (c, w')"
  shows "rests p n w'"
proof -
  obtain b where up: "up_front w q nq b s"
    using ready_up_front [OF r q(1) nq] .
  have ne: "cs_ser cd m \<noteq> []" "ss_ser cd m' \<noteq> []" for m m'
    using cd by (simp_all add: codec_writes_def)
  consider m st' where "front_reply (state s) = Some (m, st')" | "state s = STATE_AUTH" | "state s = STATE_SYNING"
    using st by (cases "state s") (auto simp: front_reply_def)
  then show ?thesis
  proof cases
    case 1
    with Drive_front [OF up 1 ne(1)] go p q(2) show ?thesis
      by (auto simp: rests_set_net)
  next
    case 2
    with Drive_auth [OF up 2 ne(1)] go p q(2) show ?thesis
      by (auto simp: rests_set_net)
  next
    case 3
    obtain k nk bk where k: "turn w = Some k" "k \<in> pool_ptrs (backend_mgr w)" "nets (net_heap w) k = Some nk"
        "hevent nk = Some bk" "net_state nk = NET_ESTABLISHED" "backs_ok (app_state w)"
      using ready_turn [OF r] .
    have "k \<noteq> q" "k \<noteq> p"
      using disjoint_pools [OF conn_readyD(1) [OF r] q(1) k(2)] backend_other [OF conn_readyD(1) [OF r] p k(2)] by simp_all
    with Drive_syning [OF up 3 k(6,1) _ k(3-5) ne(2)] go p q(2) show ?thesis
      by (auto simp: rests_set_net)
  qed
qed

lemma handshake_rests:
  assumes r: "conn_ready cd w" and q: "q \<in> pool_ptrs (frontend_mgr w)" "q \<noteq> p" and p: "rests p n w"
    and nq: "nets (net_heap w) q = Some nq" "user_context nq = Some s" and st: "state s \<noteq> STATE_OK"
    and cd: "codec_writes cd"
    and go: "drive_or_close cd q w (\<lambda>w2. bindE (get_session q w2) (\<lambda>s2.
           if state s2 = STATE_SYNING then drive_or_close cd q w2 (\<lambda>w3. Done (0, w3)) else Done (0, w2)))
       = Done (c, w')"
  shows "rests p n w'"
proof -
  obtain n2 s2 w2 where w2: "DriveStateMachine cd q w = Done (0, w2)" "conn_ready cd w2" "same_pools w w2"
      "nets (net_heap w2) q = Some n2" "user_context n2 = Some s2"
    using Drive_ready [OF r q(1) nq st cd] by blast
  have q2: "q \<in> pool_ptrs (frontend_mgr w2)"
    using w2(3) q(1) by (simp add: same_pools_def)
  have p2: "rests p n w2"
    by (rule Drive_rests [OF r q p nq st cd w2(1)])
  show ?thesis
  proof (cases "state s2 = STATE_SYNING")
    case False
    with w2 go p2 show ?thesis
      by (simp add: drive_or_close_def get_session_def get_net_def)
  next
    case True
    then have "state s2 \<noteq> STATE_OK"
      by simp
    note drive = Drive_ready [OF w2(2) q2 w2(4,5) this cd] Drive_rests [OF w2(2) q2 q(2) p2 w2(4,5) this cd]
    obtain w3 where "DriveStateMachine cd q w2 = Done (0, w3)"
      using drive(1) by blast
    with drive(2) [OF this] True w2 go show ?thesis
      by (simp add: drive_or_close_def get_session_def get_net_def)
  qed
qed

lemma forward_up_rests:
  assumes r: "conn_ready cd w" and up: "up_front w q nq b s" and cd: "codec_writes cd" and p: "rests p n w"
    and go: "ForwardUpSideMessage cd sq d q w = Done (c, w')"
  shows "rests p n w'"
proof -
  obtain k nk bk where k: "turn w = Some k" "k \<in> pool_ptrs (backend_mgr w)" "nets (net_heap w) k = Some nk"
      "hevent nk = Some bk" "net_state nk = NET_ESTABLISHED" "backs_ok (app_state w)"
    using ready_turn [OF r] .
  have kp: "k \<noteq> p"
    by (rule backend_other [OF conn_readyD(1) [OF r] p k(2)])
  let ?m = "ss_ser cd (ss_message sq SS_DATA (front_tuple nq b s) (empty_ssbody\<lparr>ss_data := Some d\<rparr>))"
  obtain c1 w1 where "SendToBackEnd (Some k) (Some ?m) (turned w) = Done (c1, w1)" "w' = w1"
    using go session_ids_up [OF up] next_backend_turn [OF k(6)] k(1) up_frontD [OF up]
    by (auto simp: ForwardUpSideMessage_def SendDataToBackEnd_def get_session_def get_net_def bindE_eq_Done
        split: if_splits)
  with SendToBackEnd_rests [OF this(1) kp, of n] p show ?thesis
    by simp
qed

lemma recv_front_rests:
  assumes r: "conn_ready cd w" and q: "q \<in> pool_ptrs (frontend_mgr w)" "q \<noteq> p" and p: "rests p n w"
    and cd: "codec_writes cd" and go: "Connector_OnRecvFrontEnd cd q t v w = Done (c, w')"
  shows "rests p n w'"
proof -
  have stub: "app_stub (app_state w)"
    using conn_readyD(2) [OF r] by (simp add: conn_inv_def)
  obtain nq b0 where nq: "nets (net_heap w) q = Some nq" "hevent nq = Some b0"
    using live_net [OF conn_readyD(1) [OF r] front_all [OF q(1)]] .
  show ?thesis
  proof (cases "user_context nq")
    case None
    with nq stub go p show ?thesis
      by (simp add: Connector_OnRecvFrontEnd_def GetUserContext_def get_net_def)
  next
    case (Some s)
    obtain b where up: "up_front w q nq b s"
      using ready_up_front [OF r q(1) nq(1) Some] .
    obtain ret s1 where check: "CheckUpSideMessage (cs_parse cd v) s = (ret, s1)"
      by (cases "CheckUpSideMessage (cs_parse cd v) s")
    show ?thesis
    proof (cases "ret = 0")
      case False
      with nq stub Some check go p show ?thesis
        by (simp add: Connector_OnRecvFrontEnd_def GetUserContext_def get_net_def)
    next
      case True
      note check0 = check [unfolded True]
      let ?n1 = "nq\<lparr>user_context := Some s1\<rparr>"
      let ?w1 = "set_net q ?n1 w"
      note up1 = up_front_check(2) [OF up check0]
      have r1: "conn_ready cd ?w1"
        by (rule ready_set_front [OF r q(1) nq(1) _ up_front_ok(2) [OF up]])
          (use up_frontD [OF up1] in \<open>simp_all add: same_net_def\<close>)
      have q1: "q \<in> pool_ptrs (frontend_mgr ?w1)" and n1: "nets (net_heap ?w1) q = Some ?n1" "user_context ?n1 = Some s1"
        using q(1) by simp_all
      have p1: "rests p n ?w1"
        using p q(2) by (simp only: rests_set_net not_False_eq_True)
      show ?thesis
      proof (cases "state s = STATE_OK")
        case False
        then have st1: "state s1 \<noteq> STATE_OK"
          using Check_state [OF check0] by simp
        from handshake_rests [OF r1 q1 q(2) p1 n1 st1 cd] go show ?thesis
          unfolding OnRecvFrontEnd_enter [OF up check0 False] by simp
      next
        case True
        then have ok1: "state s1 = STATE_OK"
          using Check_state [OF check0] by simp
        have enter: "Connector_OnRecvFrontEnd cd q t v w =
            (if cs_bodyid (cs_parse cd v) \<noteq> CS_DATA_TRANSPARENT then Done (-1, ?w1)
             else ForwardUpSideMessage cd (cs_sequence (cs_parse cd v)) (csmsg_data (cs_parse cd v)) q ?w1)"
          using nq stub Some check0 ok1 up_front_check(1) [OF up check0]
          by (simp add: Connector_OnRecvFrontEnd_def GetUserContext_def get_net_def Let_def)
        from go [unfolded enter] p1 forward_up_rests [OF r1 up1 cd p1] show ?thesis
          by (auto split: if_splits)
      qed
    qed
  qed
qed

lemma recv_back_rests:
  assumes r: "conn_ready cd w" and fin: "ss_bodyid (ss_parse cd v) \<noteq> SS_FIN" and p: "rests p n w"
    and other: "\<not> addresses cd v n" and cd: "codec_writes cd"
    and go: "Connector_OnRecvBackEnd cd dbg k t v w = Done (c, w')"
  shows "rests p n w'"
proof -
  let ?m = "ss_parse cd v"
  let ?t = "ss_session ?m"
  note ok = conn_readyD(1) [OF r]
  have stub: "app_stub (app_state w)"
    using conn_readyD(2) [OF r] by (simp add: conn_inv_def)
  obtain f where f: "GetFrontEndByAsyncIds (ss_fd ?t) (ss_nid ?t) w = Done f"
      "\<forall>q. f = Some q \<longrightarrow> q \<in> pool_ptrs (frontend_mgr w)"
    using async_ids_front [OF ok] by blast
  show ?thesis
  proof (cases f)
    case None
    with f(1) stub go p show ?thesis
      by (simp add: Connector_OnRecvBackEnd_def Let_def)
  next
    case (Some q)
    then have q: "q \<in> pool_ptrs (frontend_mgr w)"
      using f(2) by simp
    have qp: "q \<noteq> p"
      using async_ids_addressed [OF ok p] f(1) Some other by (auto simp: addresses_def)
    obtain nq b where nq: "nets (net_heap w) q = Some nq" "hevent nq = Some b"
      using live_net [OF ok front_all [OF q]] .
    show ?thesis
    proof (cases "user_context nq")
      case None
      with f(1) Some nq stub go p show ?thesis
        by (simp add: Connector_OnRecvBackEnd_def Let_def GetUserContext_def get_net_def)
    next
      case ctx: (Some s)
      have call: "Connector_OnRecvBackEnd cd dbg k t v w =
          (if ss_bodyid ?m \<noteq> SS_DATA then
             (if ss_bodyid ?m \<noteq> SS_FIN \<and> state s = STATE_OK then Done (0, w)
              else drive_or_close cd q w (\<lambda>w1.
                     bindE (set_session q (\<lambda>s. s\<lparr>sid := ss_sid ?t\<rparr>) w1) (\<lambda>w2. Done (0, w2))))
           else if \<not> dbg \<and> (state s \<noteq> STATE_OK \<or> sid s \<noteq> ss_sid ?t) then
             bindE (DestroyFrontEnd (Some q) w) (\<lambda>w1. Done (-1, w1))
           else ForwardDownSideMessage cd (ss_sequence ?m) (ssmsg_data ?m) q w)"
        using f(1) Some nq ctx stub
        by (simp add: Connector_OnRecvBackEnd_def Let_def GetUserContext_def get_net_def)
      show ?thesis
      proof (cases "ss_bodyid ?m = SS_DATA")
        case True
        obtain b1 where up: "up_front w q nq b1 s"
          using ready_up_front [OF r q nq(1) ctx] .
        have "rests p n w'" if "ForwardDownSideMessage cd sq d q w = Done (c, w')" for sq d
          using that SendToFrontEnd_rests [OF _ qp, of _ w _ _ n] up_frontD [OF up] p
          by (auto simp: ForwardDownSideMessage_def get_session_def get_net_def bindE_eq_Done split: if_splits)
        with go [unfolded call] True DestroyFrontEnd_rests [OF ok p q qp] show ?thesis
          by (auto simp: bindE_eq_Done split: if_splits)
      next
        case ctl: False
        show ?thesis
        proof (cases "state s = STATE_OK")
          case True
          with call ctl fin go p show ?thesis
            by simp
        next
          case False
          obtain w1 where w1: "DriveStateMachine cd q w = Done (0, w1)"
            using Drive_ready [OF r q nq(1) ctx False cd] by blast
          have "rests p n w1"
            by (rule Drive_rests [OF r q qp p nq(1) ctx False cd w1])
          with go [unfolded call] ctl fin False w1 show ?thesis
            by (auto simp: drive_or_close_def bindE_eq_Done set_session_rests [OF _ qp])
        qed
      qed
    qed
  qed
qed

lemma connector_bystander:
  assumes cd: "codec_writes cd"
  shows "bystander (sparing cd n) conn_inv not_started (connector_app cd dbg) no_rpc p n"
proof (rule bystander.intro)
  show "guarded_app (sparing cd n) conn_inv not_started (connector_app cd dbg) no_rpc"
    unfolding sparing_def by (rule guarded_app_less [OF connector_guarded [OF cd]]) (simp add: connector_limits_def)
  show "bystander_axioms (sparing cd n) conn_inv (connector_app cd dbg) no_rpc p n"
  proof (rule bystander_axioms.intro; (unfold ready_sparing)?)
    fix w w1 w2 :: cworld and q t r
    assume "rests p n w1" "q \<noteq> p" "OnFrontEndConnect (connector_app cd dbg) q t w1 = Done (r, w2)"
    then show "rests p n w2"
      by (auto simp: connector_app_def connector_base_def Connector_OnFrontEndConnect_def Session_Init_def bindE_eq_Done
          Let_def rests_set_net split: if_splits option.splits)
  next
    fix w w' :: cworld and q t r
    assume "q \<noteq> p" "rests p n w" "OnFrontEndClose (connector_app cd dbg) q t w = Done (r, w')"
    then show "rests p n w'"
      by (auto simp: connector_app_def connector_base_def Connector_OnFrontEndClose_def StopBackEndSession_def Let_def
          bindE_eq_Done set_session_rests [of q _ w _ p n] split: if_splits)
  next
    fix w w' :: cworld and q t v r
    assume "conn_ready cd w" "q \<in> pool_ptrs (frontend_mgr w)" "q \<noteq> p" "rests p n w"
      "OnRecvFrontEnd (connector_app cd dbg) q t v w = Done (r, w')"
    then show "rests p n w'"
      using recv_front_rests [OF _ _ _ _ cd, of w q p n t v r w'] by (simp add: connector_app_def connector_base_def)
  next
    fix w w' :: cworld and q t v r
    assume "conn_ready cd w" "from_back (sparing cd n) v" "rests p n w"
      "OnRecvBackEnd (connector_app cd dbg) q t v w = Done (r, w')"
    then show "rests p n w'"
      using recv_back_rests [OF _ _ _ _ cd, of w v p n dbg q t r w']
      by (simp add: connector_app_def connector_base_def sparing_def)
  qed (simp_all add: no_rpc_def)
qed

text \<open>The connector with the sample codec, and the echo server, as instances.\<close>

interpretation connector_spares: bystander "sparing sample_codec n" conn_inv not_started
    "connector_app sample_codec dbg" no_rpc p n
  by (rule connector_bystander) (simp add: codec_writes_def sample_codec_def)

interpretation echo_spares: bystander "front_only is_view" "\<lambda>_. True" "\<lambda>_. True" "echo_app z" no_rpc p n
proof (rule bystander.intro)
  show "guarded_app (front_only is_view) (\<lambda>_. True) (\<lambda>_. True) (echo_app z) no_rpc"
    by (rule echo.contract.guarded_app_axioms)
  show "bystander_axioms (front_only is_view) (\<lambda>_. True) (echo_app z) no_rpc p n"
    by (rule bystander_axioms.intro)
      (auto simp: echo_app_def echo_OnRecvFrontEnd_def no_rpc_def SendToFrontEnd_rests bindE_eq_Done front_only_def
      is_view_def split: if_splits view.splits)
qed

section \<open>The properties\<close>


lemma two_clients:
  "\<exists>w1 w2. on_event 1 (connector_app sample_codec dbg) no_rpc delim (EvAccept 5 ''10.0.0.2'') (conn_started NET_ESTABLISHED)
       = Some (Done (False, w1))
     \<and> on_event 1 (connector_app sample_codec dbg) no_rpc delim (EvAccept 6 ''10.0.0.3'') w1 = Some (Done (False, w2))
     \<and> 2 \<in> pool_ptrs (frontend_mgr w1) \<and> 6 \<notin> fst ` set (handler_pool (frontend_mgr w1))
     \<and> 3 \<in> pool_ptrs (frontend_mgr w2) \<and> backs_up w2"
  by (simp add: on_event_def fw_OnFrontEndConnect_def draw_alloc_def draw_pos_def AddHandlerBySocket_def alloc_net_def
      EasyNet_Init_def AddHandlerToMap_def pool_insert_def connector_app_def connector_base_def no_break_def
      CreateUserContext_def Connector_OnFrontEndConnect_def Session_Init_def modify_net_def set_net_def pool_ptrs_def
      backs_up_def start_simps)

lemma conn_started_sound: "sound conn_inv (conn_started NET_ESTABLISHED)"
proof -
  have "sound conn_inv (conn_started NET_CONNECTING_st)"
    using OnInit_sound [OF conn_start_ok(1,2), of "connector_base sample_codec False"] conn_start_init [of False]
    by (simp add: sound_def connector_base_def)
  from sample.on_event_safe [OF sample.sound_upd(3) [OF this],
      where delim = "[]" and e = "EvBackSocket 1 {BEV_EVENT_CONNECTED}" and k = 0 and b1 = True and dbg = False]
    conn_started_up [of "connector_app sample_codec False" no_rpc "[]" NET_CONNECTING_st]
  show ?thesis
    by (simp add: event_within_def start_simps pool_ptrs_def)
qed


end
