(* ===== verification/Spec2Isabelle.thy ===== *)
theory Spec2Isabelle
  imports TcpSocket NetMgr Timer CtrlCmd ConnectorApp ServerApi ClientThread Rpc AppInit RapNetUri EchoApp PingPong JsonUtil WireTypes ConnectorRun ClientCodec
  CocosConnector ClientDemo SessionRun ClientStream Instances Isolation
begin

text \<open>
  A model of rapidapp, a framework for event-driven servers in C++ on libevent
  (\<open>framework/\<close>), and of what the repository builds with it: a connector that carries the
  sessions of many clients to backend servers (\<open>server/connector/\<close>), the client library for it
  (\<open>server/connector/client_api/\<close>), coroutines (\<open>coroutine/\<close>), helper libraries
  (\<open>utils/\<close>) and sample applications (\<open>tools/\<close>, \<open>sample/\<close>). Paths are below
  \<open>src/\<close>. This theory adds the properties that span the two ends of a connection.

  \<^bold>\<open>How the parts work together.\<close> A frame is a 32-bit big-endian length that counts itself,
  and a payload. \<open>AppFrameWork\<close> accepts frontend connections and opens backend ones; each is an
  \<open>EasyNet\<close> in a \<open>NetHandlerMgr\<close>, and libevent's callbacks find it there by descriptor.
  A read callback cuts the input into frames and gives each payload to the virtual functions of the
  application, or in RPC mode to the RPC component. A tick reloads, updates, runs timers and closes
  connections over a limit. The connector is such an application: one state machine per client, driven
  by the messages of the client library on one side and of a backend, which uses
  \<open>connector_server_api\<close>, on the other.

  \<^bold>\<open>Theories and sources.\<close>
    \<^item> \<open>Prelude\<close>: C's machine integers, byte order, \<open>exec\<close> (a result, or a crash: null
      dereference, use after free, access out of bounds, failed assertion), and the C string functions.
    \<^item> \<open>Framing\<close>: the length prefix and the two parsers (\<open>GetMsgLength\<close>,
      \<open>GetPkgLen\<close>); locale \<open>frame_codec\<close>, interpreted for both ends.
    \<^item> \<open>TcpSocket\<close>: \<open>utils/tcp_socket.c\<close>; the system calls are a record of answers.
    \<^item> \<open>RingSocket\<close>: \<open>utils/tsocket_util.*\<close>, the client's buffered socket, and its
      refinement to two byte queues.
    \<^item> \<open>NetMgr\<close>: \<open>rapidapp_easy_net.*\<close>, \<open>rapidapp_net_mgr.*\<close> over an explicit
      heap of connections, with the iterator that a walk keeps between calls.
    \<^item> \<open>Timer\<close>: \<open>rapidapp_easy_timer.*\<close>, \<open>rapidapp_timer_mgr.*\<close>.
    \<^item> \<open>CtrlCmd\<close>: \<open>rapidapp_ctrl_cmd_keyword.*\<close> and the splitting of control
      datagrams.
    \<^item> \<open>Framework\<close>: \<open>rapidapp_framework_imp.*\<close>, \<open>rapidapp_core.cpp\<close>: the record
      \<open>world\<close> (members of \<open>AppFrameWork\<close>, state of the application, answers of the
      environment), the record \<open>rapid_app\<close> of the virtual functions, callbacks, tick, sends,
      command line, the event loop.
    \<^item> \<open>Decimal\<close>, \<open>AppInit\<close>: the start of an application, pid file, control socket
      file and signal table included.
    \<^item> \<open>Instances\<close>: processes of one program on a host, which start, signal each other, run and
      end (\<open>AppLauncher::Run\<close> in pieces) and share the file system with its locks; locale
      \<open>running_app\<close> says which callbacks may stop the loop (none).
    \<^item> \<open>EventLoop\<close>: whole runs; locale \<open>guarded_app\<close> is the contract that the framework
      silently expects of an application, relative to an invariant of the application and limits on what
      its peers send; \<open>safe_app\<close> is the case without an invariant. \<open>Isolation\<close> extends the contract by the
      connections that a callback leaves alone (\<open>bystander\<close>, for the connector and the echo server).
    \<^item> \<open>Coroutine\<close>: \<open>coroutine/mc_coroutine.*\<close>; a coroutine is a continuation, a resume
      one step of it.
    \<^item> \<open>Rpc\<close>: \<open>rapidapp_easy_rpc.*\<close>, \<open>rapidapp_message_reflection.*\<close>,
      \<open>rapidapp_rpc_mgr.*\<close>.
    \<^item> \<open>ConnectorSession\<close>, \<open>ConnectorApp\<close>: \<open>connector_session.*\<close>,
      \<open>connector_app.*\<close>; \<open>ConnectorRun\<close>: its invariant and whole runs of it.
    \<^item> \<open>ClientApi\<close>: \<open>client_api/connector_client_api_imp.*\<close>.
    \<^item> \<open>ClientThread\<close>: its class with a thread and the program \<open>client_api/client_main.cpp\<close>,
      a step relation over the main thread and the worker.
    \<^item> \<open>CocosConnector\<close>: the public classes \<open>client_api/connector_client_api.*\<close> and the
      binding to a game engine, \<open>client_api/cocos_lua/cocos_connector.*\<close>.
    \<^item> \<open>ServerApi\<close>: \<open>server_api/\<close>, the API of a backend and the demo that uses it.
    \<^item> \<open>EchoApp\<close>, \<open>PingPong\<close>: \<open>tools/echosvr\<close>, \<open>sample/server_demo\<close>.
    \<^item> \<open>PbWire\<close>, \<open>ClientPb\<close>, \<open>ClientStream\<close>, \<open>ClientCodec\<close>: the code that protoc
      generated for \<open>client.proto\<close> (\<open>sdk/client.pb.*\<close>) and the parts of protobuf's headers
      (\<open>sdk/google/protobuf/\<close>) that it inlines; then its accessors and its use as the codec of the
      client and the connector.
    \<^item> \<open>ClientDemo\<close>: \<open>sample/client_demo\<close>, which calls the service of
      \<open>PingPong\<close>; a call from end to end.
    \<^item> \<open>SessionRun\<close>: a client, a connector and the demo backend that exchange the bytes they
      write: the handshake and the data of a session from end to end.
    \<^item> \<open>WireTypes\<close>: the shape of the messages between client, connector and backend.
    \<^item> \<open>RapNetUri\<close>, \<open>JsonUtil\<close>: \<open>utils/rap_net_uri.c\<close>,
      \<open>utils/rapidjson_util.*\<close>.

  Operations keep the names of the source. A class is a record, a method a function from the state to
  \<open>(result, state)\<close>, in \<open>exec\<close> where the code can touch invalid memory or fail an
  assertion. Pointers to connections are addresses in the heap, so that a freed connection that is used
  again is a \<open>Crash\<close>. The answers of the system (what a write returns, what an allocation gives)
  are lists in the world, consumed in order, or records of answers; a list that has run out
  stands for success.

  \<^bold>\<open>What the lemmas show.\<close> The pool: every operation keeps its invariant (descriptors and
  addresses match, the cursor is in the pool, the heap holds nothing else). Framing and sockets: streams
  of frames are cut into exactly these frames, however they arrive. Event loop: under the contract of
  \<open>guarded_app\<close> no callback crashes and a run ends with every connection freed; the echo server, the
  backend demo, both ends of the RPC sample and, within limits, the connector satisfy it. Processes: in every
  interleaving at most one initialised process has a pid file, a command signals exactly that one, and a stop
  ends it at its next tick. Clients: events about
  other connections leave a client's connection and session of the connector as they are (\<open>bystander\<close>).
  Applications: the echo server returns what it was sent, however its bytes arrive,
  the RPC sample answers each request once and in order, and a call gets the answer of the service.
  Connector and client: each step of the two handshakes, the sequence check, and, with a client, the connector
  and a backend joined by their bytes, the whole handshake and the round trip of data; only well-formed
  messages are sent. Generated code: for each message of \<open>client.proto\<close>
  parsing what was written gives the message back, its byte size is exact, both serializers write the same,
  parsing a concatenation is merging, and the jumps that the parser takes from one expected tag to the next change nothing on any
  input. Several properties state how the code
  fails: outside those limits (a backend down while data arrives, a \<open>FIN\<close>, a failed write) the
  connector closes a connection inside that connection's own callback and crashes, one timer keeps the tick
  from returning, a refused push makes the connector reject the client's later messages, a stop signal before
  \<open>MainLoop\<close> is lost.

  \<^bold>\<open>Bounds and fuel.\<close> The timer loop of \<open>Tick\<close> is \<open>while (true)\<close>: it takes fuel, and
  \<open>None\<close> means that the fuel ran out. One round is enough without timers (all runs of
  \<open>EventLoop\<close> use fuel 1); with a timer no fuel is. The other loops are total functions. Lengths
  and counters have their C width; where a property needs a value below a bound (\<open>fits_frame\<close>:
  a payload below \<open>2 ^ 31 - 4\<close> bytes), the bound is a hypothesis.

  \<^bold>\<open>Parameters.\<close> The functions of protobuf's library that its headers only declare (the
  slow paths of varints, \<open>SkipField\<close>, reading and writing of strings: record \<open>pb_lib\<close>, laws
  in locale \<open>wire_lib\<close>, instantiated by \<open>reference_lib\<close>; the writers to a stream: record
  \<open>pb_out\<close>, locale \<open>coded_output\<close>), the codec of
  \<open>server.proto\<close>, rapidjson's parser, \<open>inet_addr\<close>, libevent, the order
  of a hash map (the place of a new connection is an answer) and the system calls. Most properties of
  client and connector are stated for every codec; the last one about pushes uses the generated one.

  \<^bold>\<open>Not modelled.\<close> Logging, the Windows branches of \<open>tcp_socket.c\<close>, a signal
  that arrives inside a callback (it is a step between events), the data race inside the calls of a client
  used from two threads (their interleaving call by call is modelled); of the generated code the descriptors
  and the reflection; the rest of protobuf's headers, and the other vendored and third-party libraries.
\<close>

section \<open>From the client to the connector\<close>

text \<open>The sequence check on the messages of pushes that found room.\<close>

lemma unat_next_le: "unat (x + 1 :: 64 word) \<le> unat x + 1"
  by (simp add: unat_word_ariths)

lemma unat_next: "unat x + 1 < 2 ^ 64 \<Longrightarrow> unat (x + 1 :: 64 word) = unat x + 1"
  by (simp add: unat_word_ariths)

lemma late_message_rejected:
  assumes "length ds = length fs" and "last_seq s \<noteq> 0"
    and "unat (last_seq s) + 1 < unat sq" and "unat sq + length fs \<le> 2 ^ 64"
  shows "accepts (queued sq ds fs) s = (True \<notin> set fs)"
  using assms
proof (induction sq ds fs rule: queued.induct)
  case (1 sq d ds f fs)
  have "sq \<noteq> last_seq s + 1"
    using unat_next_le [of "last_seq s"] "1.prems"(3) by auto
  moreover have "accepts (queued (sq + 1) ds fs) s = (True \<notin> set fs)" if "\<not> f"
  proof (cases "fs = []")
    case False
    then have "unat (sq + 1) = unat sq + 1"
      using "1.prems"(4) by (intro unat_next) (cases fs, auto)
    then show ?thesis
      using 1 that by simp
  qed (use "1.prems" in simp)
  ultimately show ?case
    using "1.prems"(2) by (simp add: CheckUpSideMessage_def data_message_def cs_message_def)
qed simp_all

lemma queued_accepted:
  assumes "length ds = length fs" and "last_seq s \<noteq> 0" and "sq = last_seq s + 1"
    and "unat (last_seq s) + length fs < 2 ^ 64"
  shows "accepts (queued sq ds fs) s = (True \<notin> set (dropWhile (\<lambda>f. f) fs))"
  using assms
proof (induction sq ds fs arbitrary: s rule: queued.induct)
  case (1 sq d ds f fs)
  have nxt: "unat sq = unat (last_seq s) + 1"
    using "1.prems"(3,4) unat_next [of "last_seq s"] by simp
  show ?case
  proof (cases f)
    case True
    have ok: "CheckUpSideMessage (data_message sq d) s = (0, s\<lparr>last_seq := sq\<rparr>)"
      using "1.prems"(3) by (simp add: CheckUpSideMessage_def data_message_def cs_message_def)
    have "sq \<noteq> 0"
      using nxt by auto
    with "1.IH"(1) [OF True, of "s\<lparr>last_seq := sq\<rparr>"] "1.prems" nxt True show ?thesis
      by (simp add: ok [unfolded "1.prems"(3)])
  next
    case False
    show ?thesis
    proof (cases "fs = []")
      case nonempty: False
      then have "unat sq + 1 < 2 ^ 64"
        using "1.prems"(4) nxt by (cases fs) auto
      then have "unat (sq + 1) = unat sq + 1"
        by (rule unat_next)
      with False "1.prems" nxt show ?thesis
        by (simp add: late_message_rejected)
    qed (use False "1.prems" in simp)
  qed
qed simp_all

text \<open>From the client's pushes to the connector's check. The byte stream that pushes on an
  empty queue produce is cut by the server's receive loop into exactly the messages of the pushes
  that found room, in order and with nothing left over. A session whose last sequence number is
  the one before the client's next accepts all of them exactly when no push that found room
  comes after one that was refused: a single refused push makes the connector reject everything
  the client sends later.\<close>

theorem pushes_reach_connector:
  assumes "tu_ok (tcp_sock c)" and "sendq (tcp_sock c) = []" and "pushes_fit cd ps c"
    and "\<forall>m \<in> set (queued (seqno c) (map snd ps) (pushed cd ps c)). cs_parse cd (View (cs_ser cd m)) = m"
    and "last_seq s \<noteq> 0" and "seqno c = last_seq s + 1"
    and "unat (last_seq s) + length ps < 2 ^ 64"
  shows "\<exists>rets outs c' vs. push_all cd ps c = Done (rets, outs, c')
           \<and> split_with server_len (outs @ sendq (tcp_sock c')) = (vs, [])
           \<and> map (cs_parse cd) vs = queued (seqno c) (map snd ps) (pushed cd ps c)
           \<and> accepts (map (cs_parse cd) vs) s
               = (True \<notin> set (dropWhile (\<lambda>f. f) (pushed cd ps c)))"
proof -
  let ?ms = "queued (seqno c) (map snd ps) (pushed cd ps c)"
  from push_all_queue [OF assms(1,3)] obtain rets outs c' where
      run: "push_all cd ps c = Done (rets, outs, c')" "length (pushed cd ps c) = length ps"
        "outs @ sendq (tcp_sock c') = cs_frames cd ?ms" "\<forall>m \<in> set ?ms. fits_frame (cs_ser cd m)"
    using assms(2) by auto
  have "split_with server_len (concat (map encode_frame (map (cs_ser cd) ?ms)) @ [])
      = (map View (map (cs_ser cd) ?ms), [])"
    using run(4) by (subst srv.split_enc_all) (simp_all add: list_all_iff)
  then have cut: "split_with server_len (outs @ sendq (tcp_sock c')) = (map (\<lambda>m. View (cs_ser cd m)) ?ms, [])"
    by (simp add: run(3) cs_frames_def comp_def)
  have parsed: "map (cs_parse cd) (map (\<lambda>m. View (cs_ser cd m)) ?ms) = ?ms"
    using assms(4) by (simp add: map_idI)
  have "accepts ?ms s = (True \<notin> set (dropWhile (\<lambda>f. f) (pushed cd ps c)))"
    using assms(5-7) run(2) by (intro queued_accepted) simp_all
  with run(1) cut parsed show ?thesis
    by metis
qed

text \<open>The connector's own view of the client's codec.\<close>

definition stream_codec :: codec where
  "stream_codec = client_codec\<lparr>cs_parse := (\<lambda>v. case v of
     View (x # d) \<Rightarrow> data_message (ucast x) d | _ \<Rightarrow> default_csmsg)\<rparr>"

lemma stream_codec_ser: "cs_ser stream_codec = cs_ser client_codec"
  by (simp add: stream_codec_def)

lemma stream_serialize: "SerializeAndSendToPeer stream_codec = SerializeAndSendToPeer client_codec"
  by (intro ext) (simp only: SerializeAndSendToPeer_def stream_codec_ser)

lemma stream_push: "PushMessage stream_codec = PushMessage client_codec"
  by (intro ext) (simp only: PushMessage_def stream_serialize)

lemma sample_pushed:
  "pushes_fit stream_codec sample_pushes (sample_client SESSION_STATE_DONE []\<lparr>seqno := 3\<rparr>)"
  "pushed stream_codec sample_pushes (sample_client SESSION_STATE_DONE []\<lparr>seqno := 3\<rparr>) = [True, False, True]"
  by (simp_all add: sample_pushes_def stream_push push_eval sample_client_simps stream_codec_ser
      client_codec_def client_answers_def Let_def)

theorem pushes_reach_connector_witness:
  "\<exists>rets outs c' vs. push_all stream_codec sample_pushes (sample_client SESSION_STATE_DONE []\<lparr>seqno := 3\<rparr>)
        = Done (rets, outs, c')
     \<and> split_with server_len (outs @ sendq (tcp_sock c')) = (vs, [])
     \<and> \<not> accepts (map (cs_parse stream_codec) vs) (ConnectorSession_new\<lparr>last_seq := 2\<rparr>)"
proof -
  let ?c = "sample_client SESSION_STATE_DONE []\<lparr>seqno := 3\<rparr>"
  let ?s = "ConnectorSession_new\<lparr>last_seq := 2\<rparr>"
  note ok = sample_client_ok [of "[]" SESSION_STATE_DONE]
  have rt: "\<forall>m \<in> set (queued 3 (map snd sample_pushes) [True, False, True]).
      cs_parse stream_codec (View (cs_ser stream_codec m)) = m"
    by (simp add: sample_pushes_def stream_codec_def client_codec_def data_message_def cs_message_def
        csmsg_data_def empty_csbody_def)
  show ?thesis
    using pushes_reach_connector [of ?c stream_codec sample_pushes ?s] ok rt sample_pushed
    by (auto simp: sample_pushes_def)
qed

section \<open>With the generated code of protobuf\<close>

lemma data_message_ints: "cs_ints_ok (data_message sq d)"
  by (simp add: cs_ints_ok_def int32_ok_def data_message_def cs_message_def empty_csbody_def)

lemma queued_data: "m \<in> set (queued sq ds fs) \<Longrightarrow> \<exists>sq d. m = data_message sq d"
  by (induction sq ds fs rule: queued.induct) (auto split: if_splits)

lemma protobuf_codec_simps:
  "cs_ser (pb_codec L cd) m = CSMsg_SerializeWithCachedSizesToArray L (pb_of_msg m)"
  by (simp add: pb_codec_def)

lemma data_bytes:
  assumes "length d < 100" and "sq < 128"
  shows "cs_ser (pb_codec reference_lib cd) (data_message sq d)
    = [10, 7, 8, 196, 102, 16, ucast sq, 24, 16, 18, of_nat (length d + 3), 130, 1, of_nat (length d)] @ d"
proof -
  have sq: "unat sq < 128" "of_nat (unat sq) = (ucast sq :: byte)"
    using assms(2) by (simp_all add: word_less_nat_alt)
  have d: "unat (of_nat (length d) :: 32 word) = length d"
    using assms(1) by (simp add: unsigned_of_nat take_bit_nat_eq_self)
  have "3 + word_of_nat (length d) = (of_nat (length d + 3) :: 32 word)"
    by simp
  then have d3: "unat (3 + word_of_nat (length d) :: 32 word) = length d + 3"
    using assms(1) by (simp only: unsigned_of_nat) (simp add: take_bit_nat_eq_self)
  show ?thesis
    using assms(1) sq d d3
    by (simp add: protobuf_codec_simps pb_of_msg_def pb_of_body_def data_message_def cs_message_def empty_csbody_def access_simps
      CSMsg_SerializeWithCachedSizesToArray_def CSHead_SerializeWithCachedSizesToArray_def
      CSBody_SerializeWithCachedSizesToArray_def 
      CSHead_ByteSize_def CSBody_ByteSize_def write_simps MakeTag_def wire_type_code_def
      reference.write_tag WriteInt32NoTagToArray_def WriteVarint32SignExtendedToArray_def WriteInt64NoTagToArray_def
      reference.write64 reference.write_varint32 varint_one varint_more Int32Size_def Int64Size_def StringSize_def
      BytesSize_def VarintSize32SignExtended_def reference.varint32_length reference.size64 MessageSizeNoVirtual_def
      LengthDelimitedSize_def word_sless_alt)
qed

text \<open>C7. From the client's pushes to the connector's check, with protobuf's code for
  \<open>client.proto\<close>. The byte stream that pushes on an empty queue produce is cut by the server's
  receive loop and parsed into exactly the messages of the pushes that found room, in order and with
  nothing left over. A session whose last sequence number is the one before the client's next accepts
  all of them exactly when no push that found room comes after one that was refused: a single refused
  push makes the connector reject everything the client sends later.\<close>

theorem pushes_reach_connector_pb:
  assumes "wire_lib L" and "tu_ok (tcp_sock c)" and "sendq (tcp_sock c) = []"
    and "pushes_fit (pb_codec L cd) ps c" and "last_seq s \<noteq> 0" and "seqno c = last_seq s + 1"
    and "unat (last_seq s) + length ps < 2 ^ 64"
  shows "\<exists>rets outs c' vs. push_all (pb_codec L cd) ps c = Done (rets, outs, c')
           \<and> split_with server_len (outs @ sendq (tcp_sock c')) = (vs, [])
           \<and> map (cs_parse (pb_codec L cd)) vs = queued (seqno c) (map snd ps) (pushed (pb_codec L cd) ps c)
           \<and> accepts (map (cs_parse (pb_codec L cd)) vs) s
               = (True \<notin> set (dropWhile (\<lambda>f. f) (pushed (pb_codec L cd) ps c)))"
proof -
  let ?cd = "pb_codec L cd"
  have "cs_parse ?cd (View (cs_ser ?cd m)) = m" if m: "m \<in> set (queued (seqno c) (map snd ps) (pushed ?cd ps c))" for m
  proof (rule pb_codec_back [OF assms(1)])
    show "cs_ints_ok m"
      using queued_data [OF m] data_message_ints by auto
    have "fits_frame (cs_ser ?cd m)"
      using push_all_queue [OF assms(2,4)] m by blast
    then show "length (cs_ser ?cd m) < 2 ^ 31"
      by (simp add: fits_frame_def)
  qed
  then show ?thesis
    using pushes_reach_connector [OF assms(2-4) _ assms(5-7)] by blast
qed

definition wire_client :: client where
  "wire_client = client_new\<lparr>listener := True, session_state := SESSION_STATE_DONE,
     tcp_sock := fresh_socket client_parse 48 64 ''u'', seqno := 3\<rparr>"

definition wire_pushes :: "(net_answers \<times> byte list) list" where
  "wire_pushes = [(client_answers, [65, 66]), (client_answers, replicate 40 67), (client_answers, [68])]"

definition wire_codec :: codec where
  "wire_codec = pb_codec reference_lib client_codec"

lemma wire_bytes:
  "length d < 100 \<Longrightarrow> sq < 128 \<Longrightarrow> cs_ser wire_codec (data_message sq d)
    = [10, 7, 8, 196, 102, 16, ucast sq, 24, 16, 18, of_nat (length d + 3), 130, 1, of_nat (length d)] @ d"
  using data_bytes by (simp add: wire_codec_def)

lemma wire_pushed:
  "pushes_fit wire_codec wire_pushes wire_client"
  "pushed wire_codec wire_pushes wire_client = [True, False, True]"
  by (simp_all add: wire_pushes_def 
  PushMessage_def SerializeAndSendToPeer_def prepare_def PushvToSendQ_def iov_used_def Send_def
  Datalen_def Avaiable_def rb_data_def rb_append_def Recycle_ATOMIC_def int_of_size_def be32_def
  has_room_def data_frame_def encode_frame_def wire_bytes
  rb_free_def push_fits_def takes_at_most_def fits_frame_def sendq_def data_message_def [symmetric]
  sample_client_simps wire_client_def client_answers_def Let_def)

theorem pushes_reach_connector_pb_witness:
  "\<exists>rets outs c' vs. push_all wire_codec wire_pushes wire_client = Done (rets, outs, c')
     \<and> split_with server_len (outs @ sendq (tcp_sock c')) = (vs, [])
     \<and> map (cs_parse wire_codec) vs = [data_message 3 [65, 66], data_message 5 [68]]
     \<and> \<not> accepts (map (cs_parse wire_codec) vs) (ConnectorSession_new\<lparr>last_seq := 2\<rparr>)"
proof -
  have "tu_ok (tcp_sock wire_client)" "sendq (tcp_sock wire_client) = []" "seqno wire_client = 3"
    by (simp_all add: tu_ok_def ring_ok_def sendq_def rb_data_def sample_client_simps wire_client_def)
  with pushes_reach_connector_pb [OF reference_ok, of wire_client client_codec wire_pushes
      "ConnectorSession_new\<lparr>last_seq := 2\<rparr>"] wire_pushed
  show ?thesis
    by (auto simp: wire_pushes_def wire_codec_def)
qed

section \<open>Between the connector and the backend\<close>

text \<open>A session between the connector and the demo backend. For a frontend connection that is
  found by its ids: the backend's answer to the \<open>SYN\<close> the connector sends for it completes the
  handshake of exactly that connection, which gets \<open>START_APP\<close> and the session id -1; and
  once it is ready, the backend's answer to forwarded data brings the same data back to the same
  client, with sequence number 0.\<close>

theorem backend_round_trip:
  assumes "up_front w p n b s" and "map_of (handler_pool (frontend_mgr w)) (bev_fd b) = Some p"
    and "GetFrontEndByAsyncIds (ss_fd (front_tuple n b s)) (ss_nid (front_tuple n b s)) w = Done (Some p)"
    and "\<forall>m. cs_ser cd m \<noteq> []"
  shows "(state s = STATE_SYNACK \<and> demo_reply (start_request (front_tuple n b s)) = Some (ss_parse cd v)
          \<longrightarrow> Connector_OnRecvBackEnd cd False q t v w
                = Done (0, set_net p (sent_front n b
                    (cs_ser cd (cs_message 1 CS_START_APP (empty_csbody\<lparr>cs_start := Some 0\<rparr>)))
                    (s\<lparr>state := STATE_OK, sid := -1\<rparr>)) w))
       \<and> (state s = STATE_OK \<and> d \<noteq> []
          \<and> demo_reply (ss_message sq SS_DATA (front_tuple n b s) (empty_ssbody\<lparr>ss_data := Some d\<rparr>))
              = Some (ss_parse cd v)
          \<longrightarrow> Connector_OnRecvBackEnd cd False q t v w
                = Done (0, set_net p (sent_front n b
                    (cs_ser cd (cs_message 0 CS_DATA_TRANSPARENT (empty_csbody\<lparr>cs_data := Some d\<rparr>))) s) w))"
proof (intro conjI impI; elim conjE)
  assume st: "state s = STATE_SYNACK" and "demo_reply (start_request (front_tuple n b s)) = Some (ss_parse cd v)"
  then have "ss_parse cd v
      = ss_message 0 SS_ACK ((front_tuple n b s)\<lparr>ss_sid := -1\<rparr>) (empty_ssbody\<lparr>ss_ack := Some 0\<rparr>)"
    by (simp add: demo_reply_def start_request_def ss_message_def)
  with st show "Connector_OnRecvBackEnd cd False q t v w
      = Done (0, set_net p (sent_front n b
          (cs_ser cd (cs_message 1 CS_START_APP (empty_csbody\<lparr>cs_start := Some 0\<rparr>)))
          (s\<lparr>state := STATE_OK, sid := -1\<rparr>)) w)"
    using ack_completes [of "ss_parse cd v" w p n b s cd v False q t] assms
    by (simp add: ss_message_def)
next
  assume "state s = STATE_OK" "d \<noteq> []"
    and r: "demo_reply (ss_message sq SS_DATA (front_tuple n b s) (empty_ssbody\<lparr>ss_data := Some d\<rparr>))
      = Some (ss_parse cd v)"
  moreover from r have m: "ss_parse cd v
      = ss_message 0 SS_DATA (front_tuple n b s) (empty_ssbody\<lparr>ss_data := Some d\<rparr>)"
    by (simp add: demo_reply_def ss_message_def ssmsg_data_def)
  ultimately show "Connector_OnRecvBackEnd cd False q t v w
      = Done (0, set_net p (sent_front n b
          (cs_ser cd (cs_message 0 CS_DATA_TRANSPARENT (empty_csbody\<lparr>cs_data := Some d\<rparr>))) s) w)"
    using downstream_step [of "ss_parse cd v" w p n b s cd v q t] assms
    by (simp add: ss_message_def ssmsg_data_def front_tuple_def)
qed

definition trip_codec :: "ssmsg \<Rightarrow> codec" where
  "trip_codec m = sample_codec\<lparr>ss_parse := (\<lambda>v. m)\<rparr>"

theorem backend_round_trip_witness:
  "\<exists>m w'. Connector_OnRecvBackEnd (trip_codec m) False 2 0 (View [1])
        (conn_world [] STATE_SYNACK NET_ESTABLISHED) = Done (0, w')
     \<and> get_session 1 w' = Done ((sample_session STATE_OK)\<lparr>sid := -1\<rparr>)"
proof -
  let ?w = "conn_world [] STATE_SYNACK NET_ESTABLISHED"
  let ?n = "sample_net [] (Some (sample_session STATE_SYNACK))"
  let ?b = "\<lparr>bev_fd = 7, bev_in = [], bev_out = []\<rparr>"
  let ?s = "sample_session STATE_SYNACK"
  obtain m where m: "demo_reply (start_request (front_tuple ?n ?b ?s)) = Some m"
    by (simp add: demo_reply_def start_request_def ss_message_def)
  have reg: "map_of (handler_pool (frontend_mgr ?w)) (bev_fd ?b) = Some 1"
    by (simp add: conn_world_simps)
  have ids: "GetFrontEndByAsyncIds (ss_fd (front_tuple ?n ?b ?s)) (ss_nid (front_tuple ?n ?b ?s)) ?w
      = Done (Some 1)"
    by (simp add: front_tuple_def GetFrontEndByAsyncIds_def GetHandlerByAsyncIds_def conn_world_simps)
  have ser: "\<forall>x. cs_ser (trip_codec m) x \<noteq> []"
    by (simp add: trip_codec_def sample_codec_def)
  have "state ?s = STATE_SYNACK"
    by (simp add: sample_session_def)
  with backend_round_trip [OF conn_world_up reg ids ser, of "View [1]" 2 0] m
  have run: "Connector_OnRecvBackEnd (trip_codec m) False 2 0 (View [1]) ?w
      = Done (0, set_net 1 (sent_front ?n ?b
          (cs_ser (trip_codec m) (cs_message 1 CS_START_APP (empty_csbody\<lparr>cs_start := Some 0\<rparr>)))
          (?s\<lparr>state := STATE_OK, sid := -1\<rparr>)) ?w)"
    by (simp add: trip_codec_def)
  show ?thesis
    by (intro exI [of _ m] exI conjI, rule run)
      (simp add: get_session_def sent_front_def sample_session_def)
qed

end
